(* ===== verification/RV_Prelude.thy ===== *)
theory RV_Prelude
  imports Complex_Main "HOL-Library.Multiset" "HOL-Library.Sublist"
begin

text \<open>
  Shared vocabulary of the development: the exceptions of the Python code as values, the
  result type of code that may raise, the loops over lists that stop at the first exception,
  and the list arithmetic (sums, even distribution of a remainder, chains of intervals,
  stable sorting) that several components use.  Nothing here is specific to one component.
\<close>

section \<open>Collections of facts\<close>

named_theorems rv_sums \<open>equations that compute the total duration of a list of segments\<close>
named_theorems rv_frame \<open>fields an operation leaves unchanged\<close>
named_theorems rv_inv \<open>operations that keep an invariant\<close>

section \<open>Exceptions and results\<close>

text \<open>
  An exception is its Python class with the invariant tag (or the leading words) of its
  message.  A call that may raise returns \<open>Inl\<close> of the exception or \<open>Inr\<close> of its value.
  \<open>TypeError\<close> stands for an operation on a value of the wrong type, whether Python raises
  \<^verbatim>\<open>TypeError\<close> or \<^verbatim>\<open>AttributeError\<close> for it.
\<close>

datatype exn =
    ValueError string
  | RuntimeError string
  | AssertionError string
  | IndexError
  | KeyError
  | ZeroDivisionError
  | ScheduleError string
  | TransmissionLogSeamError string
  | RunwayReadinessError string
  | HorizonNoScheduleDataError
  | TransmissionLogArtifactExistsError
  | ProducerStartupError
  | NoScheduleDataError
  | ChannelManagerError string
  | TypeError
  | CompileError string
  | AssetResolutionError string
  | DslValidationError "string list"

type_synonym 'a res = "exn + 'a"
type_synonym ms = int

fun bind_res :: "'a res \<Rightarrow> ('a \<Rightarrow> 'b res) \<Rightarrow> 'b res" where
  "bind_res (Inl e) f = Inl e"
| "bind_res (Inr x) f = f x"

lemma bind_res_Inr_iff: "bind_res r f = Inr y \<longleftrightarrow> (\<exists>x. r = Inr x \<and> f x = Inr y)"
  by (cases r) auto

lemma bind_res_cong [fundef_cong]:
  "r = r' \<Longrightarrow> (\<And>x. r' = Inr x \<Longrightarrow> f x = f' x) \<Longrightarrow> bind_res r f = bind_res r' f'"
  by (cases r') auto

text \<open>Code that may raise and need not return: \<open>None\<close> is a call that does not return.\<close>

type_synonym 'a run = "'a res option"

fun bind_run :: "'a run \<Rightarrow> ('a \<Rightarrow> 'b run) \<Rightarrow> 'b run" where
  "bind_run None f = None"
| "bind_run (Some (Inl e)) f = Some (Inl e)"
| "bind_run (Some (Inr x)) f = f x"

lemma bind_run_InrD:
  "bind_run r f = Some (Inr y) \<Longrightarrow> \<exists>x. r = Some (Inr x) \<and> f x = Some (Inr y)"
  by (cases "(r, f)" rule: bind_run.cases) auto

lemma bind_run_returns:
  "r \<noteq> None \<Longrightarrow> (\<And>x. r = Some (Inr x) \<Longrightarrow> f x \<noteq> None) \<Longrightarrow> bind_run r f \<noteq> None"
  by (cases "(r, f)" rule: bind_run.cases) auto

lemma bind_run_cong [fundef_cong]:
  "r = r' \<Longrightarrow> (\<And>x. r' = Some (Inr x) \<Longrightarrow> f x = f' x) \<Longrightarrow> bind_run r f = bind_run r' f'"
  by (cases "(r', f)" rule: bind_run.cases) auto

text \<open>A \<open>for\<close> loop whose body only checks: the first exception ends it.\<close>

fun for_check :: "('a \<Rightarrow> unit res) \<Rightarrow> 'a list \<Rightarrow> unit res" where
  "for_check f [] = Inr ()"
| "for_check f (x # xs) = (case f x of Inl e \<Rightarrow> Inl e | Inr _ \<Rightarrow> for_check f xs)"

lemma for_check_ok_iff: "for_check f xs = Inr () \<longleftrightarrow> (\<forall>x \<in> set xs. f x = Inr ())"
  by (induction xs) (auto split: sum.splits)

lemma unit_res_cases: "(r :: unit res) = Inr () \<or> (\<exists>e. r = Inl e)"
  by (cases r) auto

text \<open>A \<open>for\<close> loop that appends one result per element: the first exception ends it.\<close>

fun map_res :: "('a \<Rightarrow> 'b res) \<Rightarrow> 'a list \<Rightarrow> 'b list res" where
  "map_res f [] = Inr []"
| "map_res f (x # xs) =
     (case f x of Inl e \<Rightarrow> Inl e
      | Inr y \<Rightarrow> (case map_res f xs of Inl e \<Rightarrow> Inl e | Inr ys \<Rightarrow> Inr (y # ys)))"

lemma map_res_InrD:
  "map_res f xs = Inr ys \<Longrightarrow> list_all2 (\<lambda>x y. f x = Inr y) xs ys"
  by (induction xs arbitrary: ys) (auto split: sum.splits)

lemma map_res_total: "(\<And>x. x \<in> set xs \<Longrightarrow> f x = Inr (g x)) \<Longrightarrow> map_res f xs = Inr (map g xs)"
  by (induction xs) auto

section \<open>Sums\<close>

lemma sum_list_nonneg_int: "(\<And>x. x \<in> set xs \<Longrightarrow> 0 \<le> f x) \<Longrightarrow> 0 \<le> sum_list (map f xs)"
  for f :: "'a \<Rightarrow> int"
  by (induction xs) auto

lemma sum_list_member_le:
  "(\<And>x. x \<in> set xs \<Longrightarrow> 0 \<le> f x) \<Longrightarrow> x \<in> set xs \<Longrightarrow> f x \<le> sum_list (map f xs)"
  for f :: "'a \<Rightarrow> int"
proof (induction xs)
  case (Cons y ys)
  have "0 \<le> sum_list (map f ys)"
    by (rule sum_list_nonneg_int) (simp add: Cons.prems(1))
  moreover have "f x \<le> sum_list (map f ys)" if "x \<in> set ys"
    using Cons.IH Cons.prems(1) that by simp
  moreover have "0 \<le> f y" using Cons.prems(1) by simp
  ultimately show ?case using Cons.prems(2) by auto
qed simp

section \<open>Spreading a remainder evenly\<close>

text \<open>
  \<open>amount // n\<close> each, and one more for each of the first \<open>amount % n\<close> positions: how the
  planners divide content into segments and inventory into breaks.
\<close>

definition spread_front :: "int \<Rightarrow> nat \<Rightarrow> nat \<Rightarrow> int" where
  "spread_front amount n i = amount div int n + (if int i < amount mod int n then 1 else 0)"

lemma sum_front_extra: "m \<le> n \<Longrightarrow> (\<Sum>i<n. if i < m then 1 else (0::int)) = int m"
proof (induction n arbitrary: m)
  case (Suc n)
  show ?case
  proof (cases "m = Suc n")
    case True
    then show ?thesis by simp
  next
    case False
    with Suc show ?thesis by simp
  qed
qed simp

lemma sum_spread_front:
  assumes "0 < n"
  shows "sum_list (map (spread_front amount n) [0..<n]) = amount"
proof -
  let ?m = "nat (amount mod int n)"
  have m: "0 \<le> amount mod int n" "amount mod int n < int n"
    using assms by simp_all
  have "sum_list (map (spread_front amount n) [0..<n]) = (\<Sum>i<n. spread_front amount n i)"
    by (simp add: sum_list_sum_nth atLeast0LessThan)
  also have "\<dots> = (\<Sum>i<n. amount div int n) + (\<Sum>i<n. if i < ?m then 1 else (0::int))"
    unfolding spread_front_def sum.distrib using m
    by (intro arg_cong2 [where f = "(+)"] sum.cong) (auto simp: nat_less_iff zless_nat_eq_int_zless)
  also have "(\<Sum>i<n. if i < ?m then 1 else (0::int)) = int ?m"
    by (rule sum_front_extra) (use m in linarith)
  also have "(\<Sum>i<n. amount div int n) + int ?m = amount"
    using m by simp
  finally show ?thesis .
qed

lemma spread_front_nonneg: "0 \<le> amount \<Longrightarrow> 0 \<le> spread_front amount n i"
  by (cases "n = 0") (simp_all add: spread_front_def pos_imp_zdiv_nonneg_iff)

text \<open>No two shares differ by more than one millisecond.\<close>

lemma spread_front_fair: "\<bar>spread_front amount n i - spread_front amount n j\<bar> \<le> 1"
  by (simp add: spread_front_def)

section \<open>Chains of half-open intervals\<close>

text \<open>Each interval of the list ends where the next one starts.\<close>

fun chained :: "(int \<times> int) list \<Rightarrow> bool" where
  "chained [] = True"
| "chained [_] = True"
| "chained (p # q # ps) = (snd p = fst q \<and> chained (q # ps))"

lemma chained_Cons: "chained (p # ps) \<longleftrightarrow> (ps \<noteq> [] \<longrightarrow> snd p = fst (hd ps)) \<and> chained ps"
  by (cases ps) auto

lemma chained_snoc: "chained (ps @ [p]) \<longleftrightarrow> chained ps \<and> (ps \<noteq> [] \<longrightarrow> snd (last ps) = fst p)"
  by (induction ps rule: chained.induct) auto

lemma chained_nth: "chained ps \<longleftrightarrow> (\<forall>i. Suc i < length ps \<longrightarrow> snd (ps ! i) = fst (ps ! Suc i))"
proof (induction ps rule: chained.induct)
  case (3 p q ps)
  show ?case
  proof
    assume "chained (p # q # ps)"
    with "3.IH" show "\<forall>i. Suc i < length (p # q # ps) \<longrightarrow>
        snd ((p # q # ps) ! i) = fst ((p # q # ps) ! Suc i)"
      by (auto simp: nth_Cons split: nat.splits)
  next
    assume *: "\<forall>i. Suc i < length (p # q # ps) \<longrightarrow>
        snd ((p # q # ps) ! i) = fst ((p # q # ps) ! Suc i)"
    have "snd p = fst q" using *[rule_format, of 0] by simp
    moreover have "\<forall>i. Suc i < length (q # ps) \<longrightarrow> snd ((q # ps) ! i) = fst ((q # ps) ! Suc i)"
    proof (intro allI impI)
      fix i assume "Suc i < length (q # ps)"
      then show "snd ((q # ps) ! i) = fst ((q # ps) ! Suc i)" using *[rule_format, of "Suc i"] by simp
    qed
    ultimately show "chained (p # q # ps)" using "3.IH" by simp
  qed
qed auto

text \<open>A chain of non-empty intervals covers every point between its two ends exactly once.\<close>

lemma chained_ends_mono:
  "chained ps \<Longrightarrow> (\<And>p. p \<in> set ps \<Longrightarrow> fst p \<le> snd p) \<Longrightarrow> ps \<noteq> [] \<Longrightarrow> fst (hd ps) \<le> snd (last ps)"
proof (induction ps rule: chained.induct)
  case (3 p q ps)
  then have "fst q \<le> snd (last (q # ps))" by simp
  moreover have "fst p \<le> snd p" using "3.prems"(2) [of p] by simp
  moreover have "snd p = fst q" using "3.prems"(1) by simp
  ultimately show ?case by simp
qed auto

lemma chained_covers:
  "chained ps \<Longrightarrow> ps \<noteq> [] \<Longrightarrow> fst (hd ps) \<le> t \<Longrightarrow> t < snd (last ps) \<Longrightarrow>
    \<exists>p \<in> set ps. fst p \<le> t \<and> t < snd p"
proof (induction ps rule: chained.induct)
  case (3 p q ps)
  then show ?case by (cases "t < snd p") auto
qed auto

lemma chained_after_first:
  "chained (p # ps) \<Longrightarrow> (\<And>q. q \<in> set (p # ps) \<Longrightarrow> fst q \<le> snd q) \<Longrightarrow> q \<in> set ps \<Longrightarrow> snd p \<le> fst q"
proof (induction ps arbitrary: p)
  case (Cons r rs)
  have r: "snd p = fst r" "fst r \<le> snd r" "chained (r # rs)"
    using Cons.prems(1) Cons.prems(2) [of r] by auto
  have "snd r \<le> fst q" if "q \<in> set rs"
  proof (rule Cons.IH [OF r(3) _ that])
    show "fst q' \<le> snd q'" if "q' \<in> set (r # rs)" for q'
      using Cons.prems(2) [of q'] that by auto
  qed
  then show ?case using Cons.prems(3) r by fastforce
qed simp

section \<open>Stable sorting\<close>

text \<open>
  Python's \<open>list.sort(key=f)\<close> and \<open>sorted(xs, key=f)\<close> are stable, as \<open>sort_key\<close> is.
\<close>

lemma mset_sort_key: "mset (sort_key f xs) = mset xs"
  by simp

lemma sort_key_already: "sorted (map f xs) \<Longrightarrow> sort_key f xs = xs"
  by (rule sort_key_id_if_sorted)

lemma sorted_map_filter: "sorted (map f xs) \<Longrightarrow> sorted (map f (filter P xs))"
  by (rule sorted_filter)

section \<open>Association lists with unique keys\<close>

text \<open>
  A Python \<open>dict\<close> iterates in insertion order; assigning an existing key keeps its place.
\<close>

fun dict_set :: "'k \<Rightarrow> 'v \<Rightarrow> ('k \<times> 'v) list \<Rightarrow> ('k \<times> 'v) list" where
  "dict_set k v [] = [(k, v)]"
| "dict_set k v (p # ps) = (if fst p = k then (k, v) # ps else p # dict_set k v ps)"

lemma map_of_dict_set: "map_of (dict_set k v d) = (map_of d)(k \<mapsto> v)"
  by (induction d) (auto simp: fun_eq_iff)

lemma keys_dict_set: "set (map fst (dict_set k v d)) = insert k (set (map fst d))"
  by (induction d) auto

lemma distinct_dict_set: "distinct (map fst d) \<Longrightarrow> distinct (map fst (dict_set k v d))"
  by (induction d) (auto simp del: set_map simp: keys_dict_set)

section \<open>Grid positions\<close>

text \<open>The cell of a grid of \<open>L\<close> cells of length \<open>D\<close> from \<open>s\<close> on that holds an instant.\<close>

lemma grid_cell:
  fixes t s D :: int
  assumes D: "0 < D" and ts: "s \<le> t" "t < s + int L * D"
  shows "nat ((t - s) div D) < L"
    and "s + int (nat ((t - s) div D)) * D \<le> t"
    and "t < s + int (nat ((t - s) div D)) * D + D"
    and "s + int j * D \<le> t \<Longrightarrow> t < s + int j * D + D \<Longrightarrow> j = nat ((t - s) div D)"
proof -
  define q where "q = (t - s) div D"
  have "t - s = q * D + (t - s) mod D" by (simp add: q_def)
  moreover have "0 \<le> (t - s) mod D" "(t - s) mod D < D" using D by simp_all
  ultimately have b: "q * D \<le> t - s" "t - s < q * D + D" by linarith+
  have q0: "0 \<le> q" using D ts(1) by (simp add: q_def pos_imp_zdiv_nonneg_iff)
  have "q < int L"
  proof (rule ccontr)
    assume "\<not> q < int L"
    then have "int L * D \<le> q * D" using D by (intro mult_right_mono) auto
    with b ts show False by linarith
  qed
  then have "nat q < L" using q0 by linarith
  moreover have "int (nat q) = q" using q0 by simp
  ultimately show "nat ((t - s) div D) < L" "s + int (nat ((t - s) div D)) * D \<le> t"
    "t < s + int (nat ((t - s) div D)) * D + D"
    unfolding q_def [symmetric] using b by simp_all
  assume j: "s + int j * D \<le> t" "t < s + int j * D + D"
  have "(t - s) div D = int j"
  proof (rule int_div_pos_eq)
    show "t - s = D * int j + (t - s - int j * D)" by simp
    show "0 \<le> t - s - int j * D" "t - s - int j * D < D" using j by linarith+
  qed
  then show "j = nat ((t - s) div D)" by simp
qed

text \<open>A chain of intervals that do not run backwards holds each of its points once.\<close>

lemma chained_covers_once:
  "chained ps \<Longrightarrow> (\<And>p. p \<in> set ps \<Longrightarrow> fst p \<le> snd p) \<Longrightarrow> ps \<noteq> [] \<Longrightarrow> fst (hd ps) \<le> t \<Longrightarrow>
    t < snd (last ps) \<Longrightarrow> length (filter (\<lambda>p. fst p \<le> t \<and> t < snd p) ps) = 1"
proof (induction ps rule: chained.induct)
  case (3 p q ps)
  have mono: "\<And>r. r \<in> set (p # q # ps) \<Longrightarrow> fst r \<le> snd r" by (rule "3.prems"(2))
  show ?case
  proof (cases "t < snd p")
    case True
    have "filter (\<lambda>p. fst p \<le> t \<and> t < snd p) (q # ps) = []"
      unfolding filter_empty_conv using chained_after_first [OF "3.prems"(1) mono] True by fastforce
    with True "3.prems"(4) show ?thesis by simp
  next
    case False
    moreover have "length (filter (\<lambda>p. fst p \<le> t \<and> t < snd p) (q # ps)) = 1"
      by (rule "3.IH") (use "3.prems" False mono in auto)
    ultimately show ?thesis by simp
  qed
qed auto

lemma length_filter_sort_key: "length (filter P (sort_key f xs)) = length (filter P xs)"
proof -
  have "mset (filter P (sort_key f xs)) = mset (filter P xs)" by (simp add: mset_filter)
  then show ?thesis by (rule mset_eq_length)
qed

end
