(* ===== verification/Override_Store.thy ===== *)
theory Override_Store
  imports RV_Prelude
begin

text \<open>
  The store of operator override records, \<^verbatim>\<open>runtime/override_record.py\<close>.  \<^verbatim>\<open>persist\<close> appends one
  record with the next identifier, or raises once when a failure has been injected.  The locale
  states what the stores that write overrides rely on: a failing call records nothing, a
  succeeding one adds exactly one record.
\<close>

record override_record =
  or_id :: int
  or_layer :: string
  or_target_id :: string
  or_reason :: string
  or_created :: ms

record override_store =
  os_records :: "override_record list"
  os_next_id :: int
  os_fail_next :: bool

definition empty_override_store :: override_store where
  "empty_override_store = \<lparr>os_records = [], os_next_id = 1, os_fail_next = False\<rparr>"

definition persist ::
  "override_store \<Rightarrow> string \<Rightarrow> string \<Rightarrow> string \<Rightarrow> ms \<Rightarrow> override_store \<times> override_record res" where
  "persist st layer target_id reason now_ms =
     (if os_fail_next st
      then (st\<lparr>os_fail_next := False\<rparr>, Inl (RuntimeError ''OVERRIDE_RECORD_PERSIST_FAILED''))
      else let r = \<lparr>or_id = os_next_id st, or_layer = layer, or_target_id = target_id,
                    or_reason = reason, or_created = now_ms\<rparr>
           in (st\<lparr>os_records := os_records st @ [r], os_next_id := os_next_id st + 1\<rparr>, Inr r))"

text \<open>Identifiers count up from one, so records are distinguishable.\<close>

definition override_store_ok :: "override_store \<Rightarrow> bool" where
  "override_store_ok st \<longleftrightarrow>
     map or_id (os_records st) = [1..int (length (os_records st))]
     \<and> os_next_id st = int (length (os_records st)) + 1"

lemma override_store_ok_empty [rv_inv]: "override_store_ok empty_override_store"
  by (simp add: override_store_ok_def empty_override_store_def)

lemma override_store_ok_persist [rv_inv]:
  "override_store_ok st \<Longrightarrow> override_store_ok (fst (persist st l t r n))"
  by (auto simp: override_store_ok_def persist_def Let_def upto_rec2)

lemma persist_records:
  "os_records (fst (persist st l t r n)) =
    os_records st @ (case snd (persist st l t r n) of Inl _ \<Rightarrow> [] | Inr rec \<Rightarrow> [rec])"
  by (simp add: persist_def Let_def)

locale override_log =
  fixes log_ok :: "'s \<Rightarrow> bool"
    and records :: "'s \<Rightarrow> override_record list"
    and append_rec :: "'s \<Rightarrow> string \<Rightarrow> string \<Rightarrow> string \<Rightarrow> ms \<Rightarrow> 's \<times> override_record res"
  assumes write_ok: "log_ok s \<Longrightarrow> log_ok (fst (append_rec s l t r n))"
    and write_fails: "snd (append_rec s l t r n) = Inl e \<Longrightarrow> records (fst (append_rec s l t r n)) = records s"
    and write_adds: "snd (append_rec s l t r n) = Inr rec \<Longrightarrow> records (fst (append_rec s l t r n)) = records s @ [rec]"
    and write_fields: "snd (append_rec s l t r n) = Inr rec \<Longrightarrow>
      or_layer rec = l \<and> or_target_id rec = t \<and> or_reason rec = r \<and> or_created rec = n"
begin

text \<open>A record is written exactly when the call succeeds.\<close>

lemma recorded_iff:
  "(\<exists>rec. snd (append_rec s l t r n) = Inr rec) \<longleftrightarrow>
    length (records (fst (append_rec s l t r n))) = Suc (length (records s))"
  using write_fails [of s l t r n] write_adds [of s l t r n]
  by (cases "snd (append_rec s l t r n)") auto

lemma records_kept: "take (length (records s)) (records (fst (append_rec s l t r n))) = records s"
  using write_fails [of s l t r n] write_adds [of s l t r n]
  by (cases "snd (append_rec s l t r n)") auto

end

interpretation overrides: override_log override_store_ok os_records persist
  by unfold_locales (simp add: rv_inv, auto simp: persist_def Let_def split: if_splits)

end
