(* ===== verification/Py_Float.thy ===== *)
theory Py_Float
  imports RV_Prelude "HOL-Library.Log_Nat"
begin

text \<open>
  Python's numbers.  An \<open>int\<close> is \<open>int\<close>.  A \<open>float\<close> is the rational it denotes: every finite
  binary64 value is a rational, and an arithmetic operation returns \<open>fl\<close> of the exact result,
  the nearest rational with a 53-bit significand, ties to even.  The exponent range is left
  unbounded, so the model and the machine agree on all values between \<open>2\<^sup>-\<^sup>1\<^sup>0\<^sup>2\<^sup>2\<close> and \<open>2\<^sup>1\<^sup>0\<^sup>2\<^sup>4\<close>;
  the durations and timestamps of this program stay well inside.  Infinities and NaN are not
  modelled.  The lemmas give what the components need: \<open>fl\<close> is monotone, keeps signs, and is
  the identity on integers up to \<open>2\<^sup>5\<^sup>3\<close>, so it never carries a value across such an integer.
\<close>

section \<open>Rounding to an integer, half to even\<close>

definition rne :: "rat \<Rightarrow> int" where
  "rne q = (let f = \<lfloor>q\<rfloor>; r = q - of_int f in
     if r < 1/2 then f else if 1/2 < r then f + 1 else if even f then f else f + 1)"

text \<open>\<open>int(x)\<close> truncates towards zero; \<open>math.ceil\<close> and \<open>//\<close> are \<open>ceiling\<close> and \<open>floor\<close>.\<close>

definition py_trunc :: "rat \<Rightarrow> int" where
  "py_trunc q = (if 0 \<le> q then \<lfloor>q\<rfloor> else \<lceil>q\<rceil>)"

lemma rne_of_int [simp]: "rne (of_int n) = n"
  by (simp add: rne_def)

lemma rne_bounds: "\<lfloor>q\<rfloor> \<le> rne q" "rne q \<le> \<lceil>q\<rceil>"
proof -
  show "\<lfloor>q\<rfloor> \<le> rne q" by (simp add: rne_def Let_def)
  have "rne q \<le> \<lfloor>q\<rfloor> + (if q = of_int \<lfloor>q\<rfloor> then 0 else 1)"
    by (simp add: rne_def Let_def)
  also have "\<dots> = \<lceil>q\<rceil>" by (simp add: ceiling_altdef)
  finally show "rne q \<le> \<lceil>q\<rceil>" .
qed

lemma rne_error: "\<bar>of_int (rne q) - q\<bar> \<le> 1/2"
proof -
  have "of_int \<lfloor>q\<rfloor> \<le> q" "q < of_int \<lfloor>q\<rfloor> + 1" by linarith+
  then show ?thesis by (auto simp: rne_def Let_def)
qed

lemma rne_mono: "x \<le> y \<Longrightarrow> rne x \<le> rne y"
proof -
  assume xy: "x \<le> y"
  then have "\<lfloor>x\<rfloor> < \<lfloor>y\<rfloor> \<or> \<lfloor>x\<rfloor> = \<lfloor>y\<rfloor>" using floor_mono by fastforce
  then show ?thesis
  proof
    assume "\<lfloor>x\<rfloor> < \<lfloor>y\<rfloor>"
    then have "\<lceil>x\<rceil> \<le> \<lfloor>y\<rfloor>" by (simp add: ceiling_le_iff le_floor_iff [symmetric] le_less_trans)
        (linarith)
    then show ?thesis using rne_bounds(2) [of x] rne_bounds(1) [of y] by linarith
  next
    assume "\<lfloor>x\<rfloor> = \<lfloor>y\<rfloor>"
    with xy show ?thesis by (auto simp: rne_def Let_def)
  qed
qed

lemma py_trunc_of_int [simp]: "py_trunc (of_int n) = n"
  by (simp add: py_trunc_def)

lemma py_trunc_nonneg: "0 \<le> q \<Longrightarrow> 0 \<le> py_trunc q"
  by (simp add: py_trunc_def)

lemma py_trunc_mono: "x \<le> y \<Longrightarrow> py_trunc x \<le> py_trunc y"
proof (cases "0 \<le> x \<or> y < 0")
  case True
  moreover assume "x \<le> y"
  ultimately show ?thesis by (auto simp: py_trunc_def floor_mono ceiling_mono)
next
  case False
  then have "\<lceil>x\<rceil> \<le> 0" "0 \<le> \<lfloor>y\<rfloor>" by (simp_all add: ceiling_le_iff le_floor_iff)
  then have "\<lceil>x\<rceil> \<le> \<lfloor>y\<rfloor>" by linarith
  with False show ?thesis by (simp add: py_trunc_def)
qed

section \<open>The exponent of a positive rational\<close>

definition flog2 :: "rat \<Rightarrow> int" where
  "flog2 q = (case quotient_of q of (n, d) \<Rightarrow>
     let k = bitlen n - bitlen d in if 2 powi k \<le> q then k else k - 1)"

lemma bitlen_powi: "0 < n \<Longrightarrow> 2 powi (bitlen n - 1) \<le> (of_int n :: rat) \<and> of_int n < (2 powi bitlen n :: rat)"
proof -
  assume n: "0 < n"
  then have b: "1 \<le> bitlen n" using bitlen_eq_zero_iff [of n] bitlen_nonneg [of n] by linarith
  have "2 ^ nat (bitlen n - 1) \<le> n" "n < 2 ^ nat (bitlen n)"
    using bitlen_bounds [OF n] by simp_all
  then have "(2::rat) ^ nat (bitlen n - 1) \<le> of_int n" "of_int n < (2::rat) ^ nat (bitlen n)"
    by (metis of_int_le_iff of_int_numeral of_int_power,
        metis of_int_less_iff of_int_numeral of_int_power)
  with b show ?thesis by (simp add: power_int_def)
qed

lemma flog2_bounds:
  assumes "0 < q"
  shows "2 powi flog2 q \<le> q" and "q < 2 powi (flog2 q + 1)"
proof -
  obtain n d where nd: "quotient_of q = (n, d)" by (cases "quotient_of q")
  have q: "q = of_int n / of_int d" and d: "0 < d"
    using quotient_of_div [OF nd] quotient_of_denom_pos [OF nd] by auto
  with assms have n: "0 < n" by (simp add: zero_less_divide_iff)
  let ?k = "bitlen n - bitlen d"
  note bn = bitlen_powi [OF n] and bd = bitlen_powi [OF d]
  have dpos: "(0::rat) < of_int d" using d by simp
  have "of_int n < (2::rat) powi (?k + 1) * of_int d"
  proof -
    have "of_int n < (2::rat) powi bitlen n" using bn by simp
    also have "\<dots> = 2 powi (?k + 1) * 2 powi (bitlen d - 1)"
      by (simp flip: power_int_add)
    also have "\<dots> \<le> 2 powi (?k + 1) * of_int d" using bd by simp
    finally show ?thesis .
  qed
  then have up: "q < 2 powi (?k + 1)" using dpos by (simp add: q divide_less_eq)
  have "(2::rat) powi (?k - 1) * of_int d < of_int n"
  proof -
    have "(2::rat) powi (?k - 1) * of_int d < 2 powi (?k - 1) * 2 powi bitlen d" using bd by simp
    also have "\<dots> = 2 powi (bitlen n - 1)" by (simp flip: power_int_add)
    also have "\<dots> \<le> of_int n" using bn by simp
    finally show ?thesis .
  qed
  then have lo: "2 powi (?k - 1) \<le> q" using dpos by (simp add: q pos_le_divide_eq)
  show "2 powi flog2 q \<le> q" and "q < 2 powi (flog2 q + 1)"
    using up lo by (auto simp: flog2_def nd Let_def)
qed

lemma powi2_less_iff: "(2::rat) powi a < 2 powi b \<longleftrightarrow> a < b"
  by (meson linorder_not_less one_less_numeral_iff power_int_increasing
      power_int_strict_increasing semiring_norm(76) less_imp_le)

lemma powi2_le_iff: "(2::rat) powi a \<le> 2 powi b \<longleftrightarrow> a \<le> b"
  using powi2_less_iff [of b a] by (simp flip: not_less)

lemma flog2_unique: "2 powi k \<le> q \<Longrightarrow> q < 2 powi (k + 1) \<Longrightarrow> flog2 q = k"
proof -
  assume k: "2 powi k \<le> q" "q < 2 powi (k + 1)"
  have q: "0 < q" using k(1) by (rule less_le_trans [rotated]) simp
  have "2 powi k < (2::rat) powi (flog2 q + 1)" "2 powi flog2 q < (2::rat) powi (k + 1)"
    using flog2_bounds [OF q] k by linarith+
  then show ?thesis by (simp add: powi2_less_iff)
qed

lemma flog2_mono: "0 < x \<Longrightarrow> x \<le> y \<Longrightarrow> flog2 x \<le> flog2 y"
proof -
  assume xy: "0 < x" "x \<le> y"
  then have "2 powi flog2 x < (2::rat) powi (flog2 y + 1)"
    using flog2_bounds(1) [of x] flog2_bounds(2) [of y] by linarith
  then show ?thesis by (simp add: powi2_less_iff)
qed

section \<open>Rounding to binary64\<close>

text \<open>\<open>ulp q\<close> is the spacing of the 53-bit numbers in the binade of \<open>q\<close>.\<close>

definition ulp :: "rat \<Rightarrow> rat" where
  "ulp q = 2 powi (flog2 \<bar>q\<bar> - 52)"

definition fl :: "rat \<Rightarrow> rat" where
  "fl q = (if q = 0 then 0 else of_int (rne (q / ulp q)) * ulp q)"

lemma ulp_pos [simp]: "0 < ulp q"
  by (simp add: ulp_def)

lemma fl_0 [simp]: "fl 0 = 0"
  by (simp add: fl_def)

lemma ulp_le: "k \<le> flog2 \<bar>q\<bar> - 52 \<Longrightarrow> 2 powi k \<le> ulp q"
  by (simp add: ulp_def powi2_le_iff)

text \<open>A multiple of the spacing is exact.\<close>

lemma fl_exact: "q = of_int m * ulp q \<Longrightarrow> fl q = q"
proof -
  assume *: "q = of_int m * ulp q"
  have "ulp q \<noteq> 0" using ulp_pos [of q] by linarith
  then have "q / ulp q = of_int m" using * by (metis nonzero_mult_div_cancel_right)
  then show ?thesis using * by (simp add: fl_def)
qed

lemma fl_powi [simp]: "fl (2 powi k) = 2 powi k"
proof (rule fl_exact)
  have "flog2 (2 powi k) = k" by (rule flog2_unique) (simp_all add: powi2_less_iff)
  then have "ulp (2 powi k) = 2 powi (k - 52)" by (simp add: ulp_def)
  then show "2 powi k = of_int (2 ^ 52) * ulp (2 powi k)"
    by (simp add: power_int_diff)
qed

lemma fl_of_int:
  assumes "\<bar>n\<bar> \<le> 2 ^ 53"
  shows "fl (of_int n) = of_int n"
proof (cases "n = 0")
  case False
  show ?thesis
  proof (cases "\<bar>n\<bar> = 2 ^ 53")
    case True
    have "flog2 \<bar>of_int n\<bar> = 53"
      by (rule flog2_unique) (simp_all add: True flip: of_int_abs)
    then have "ulp (of_int n) = 2" by (simp add: ulp_def)
    moreover have "even n" using True by (metis dvd_abs_iff dvd_power even_numeral pos2 zero_less_numeral)
    ultimately show ?thesis using fl_exact [of "of_int n" "n div 2"]
      by (metis dvd_div_mult_self of_int_mult of_int_numeral)
  next
    case small: False
    have pos: "(0::rat) < \<bar>of_int n\<bar>" using False by simp
    have "\<bar>of_int n\<bar> < (2::rat) powi 53"
      using small assms by (simp flip: of_int_abs)
    with flog2_bounds(1) [OF pos] have "flog2 \<bar>of_int n\<bar> < 53"
      by (metis le_less_trans powi2_less_iff)
    then have k: "flog2 \<bar>of_int n\<bar> - 52 \<le> 0" by simp
    show ?thesis
    proof (rule fl_exact)
      let ?e = "flog2 \<bar>of_int n\<bar> - 52"
      have "(2::rat) powi ?e * 2 ^ nat (- ?e) = 1"
        using k by (simp add: power_int_def field_simps)
      then show "of_int n = of_int (n * 2 ^ nat (- ?e)) * ulp (of_int n)"
        by (simp add: ulp_def mult.commute [of "2 ^ _"])
    qed
  qed
qed simp

lemma fl_numeral [simp]: "numeral n \<le> (2 ^ 53 :: int) \<Longrightarrow> fl (numeral n) = numeral n"
  using fl_of_int [of "numeral n"] by simp

lemma fl_bounds_pos:
  assumes "0 < q"
  shows "2 powi flog2 q \<le> fl q" and "fl q \<le> 2 powi (flog2 q + 1)"
proof -
  let ?u = "ulp q"
  have u: "?u = 2 powi (flog2 q - 52)" using assms by (simp add: ulp_def)
  have lo: "of_int (2 ^ 52) \<le> q / ?u"
    using flog2_bounds(1) [OF assms] assms by (simp add: u le_divide_eq power_int_diff)
  have hi: "q / ?u \<le> of_int (2 ^ 53)"
    using flog2_bounds(2) [OF assms] assms by (simp add: u divide_le_eq power_int_diff power_int_add)
  have "2 ^ 52 \<le> rne (q / ?u)" using rne_mono [OF lo] by (simp only: rne_of_int)
  moreover have "rne (q / ?u) \<le> 2 ^ 53" using rne_mono [OF hi] by (simp only: rne_of_int)
  ultimately have "of_int (2 ^ 52) \<le> (of_int (rne (q / ?u)) :: rat)"
    "(of_int (rne (q / ?u)) :: rat) \<le> of_int (2 ^ 53)"
    by (simp_all only: of_int_le_iff)
  then have *: "of_int (2 ^ 52) * ?u \<le> fl q" "fl q \<le> of_int (2 ^ 53) * ?u"
    using assms ulp_pos [of q] by (simp_all add: fl_def)
  show "2 powi flog2 q \<le> fl q" using *(1) by (simp add: u power_int_diff)
  show "fl q \<le> 2 powi (flog2 q + 1)" using *(2) by (simp add: u power_int_diff power_int_add)
qed

lemma rne_minus: "rne (- q) = - rne q"
proof (cases "q = of_int \<lfloor>q\<rfloor>")
  case True
  then show ?thesis by (metis rne_of_int of_int_minus)
next
  case False
  then have f: "\<lfloor>- q\<rfloor> = - \<lfloor>q\<rfloor> - 1" by (simp add: floor_minus ceiling_altdef)
  show ?thesis unfolding rne_def Let_def f by auto
qed

lemma fl_minus: "fl (- q) = - fl q"
  by (simp add: fl_def ulp_def rne_minus)

lemma fl_pos: "0 < q \<Longrightarrow> 0 < fl q"
  using fl_bounds_pos(1) [of q] by (meson less_le_trans zero_less_numeral zero_less_power_int)

lemma fl_nonneg: "0 \<le> q \<Longrightarrow> 0 \<le> fl q"
  using fl_pos [of q] by (cases "q = 0") auto

lemma fl_mono_pos:
  assumes "0 < x" "x \<le> y"
  shows "fl x \<le> fl y"
proof (cases "flog2 x = flog2 y")
  case True
  then have u: "ulp x = ulp y" using assms by (simp add: ulp_def)
  have "x / ulp y \<le> y / ulp y" using assms ulp_pos [of y] by (simp add: divide_right_mono less_imp_le)
  then have "rne (x / ulp y) \<le> rne (y / ulp y)" by (rule rne_mono)
  then show ?thesis using assms ulp_pos [of y] by (simp add: fl_def u)
next
  case False
  then have "flog2 x + 1 \<le> flog2 y" using flog2_mono [OF assms] by simp
  then have "(2::rat) powi (flog2 x + 1) \<le> 2 powi flog2 y" by (simp only: powi2_le_iff)
  then show ?thesis using fl_bounds_pos(2) [of x] fl_bounds_pos(1) [of y] assms by linarith
qed

lemma fl_mono: "x \<le> y \<Longrightarrow> fl x \<le> fl y"
proof -
  assume xy: "x \<le> y"
  consider "0 < x" | "x \<le> 0" "0 \<le> y" | "y < 0" by linarith
  then show ?thesis
  proof cases
    case 1 with xy show ?thesis by (rule fl_mono_pos [rotated, OF _])
  next
    case 2
    then have "0 \<le> fl (- x)" "0 \<le> fl y" by (simp_all add: fl_nonneg)
    then show ?thesis by (simp add: fl_minus)
  next
    case 3
    with xy have "fl (- y) \<le> fl (- x)" by (intro fl_mono_pos) auto
    then show ?thesis by (simp add: fl_minus)
  qed
qed

text \<open>Rounding never carries a value across an integer of at most 53 bits.\<close>

lemma fl_ge_int: "\<bar>n\<bar> \<le> 2 ^ 53 \<Longrightarrow> of_int n \<le> q \<Longrightarrow> of_int n \<le> fl q"
  using fl_mono [of "of_int n" q] by (simp add: fl_of_int)

lemma fl_le_int: "\<bar>n\<bar> \<le> 2 ^ 53 \<Longrightarrow> q \<le> of_int n \<Longrightarrow> fl q \<le> of_int n"
  using fl_mono [of q "of_int n"] by (simp add: fl_of_int)

lemma fl_error: "\<bar>fl q - q\<bar> \<le> ulp q / 2"
proof (cases "q = 0")
  case False
  have "\<bar>of_int (rne (q / ulp q)) - q / ulp q\<bar> * ulp q \<le> 1/2 * ulp q"
    by (rule mult_right_mono [OF rne_error]) (simp add: less_imp_le)
  moreover have "\<bar>of_int (rne (q / ulp q)) - q / ulp q\<bar> * ulp q = \<bar>fl q - q\<bar>"
  proof -
    have "ulp q \<noteq> 0" using ulp_pos [of q] by linarith
    then have "(of_int (rne (q / ulp q)) - q / ulp q) * ulp q = fl q - q"
      using False by (simp add: fl_def left_diff_distrib)
    then show ?thesis using ulp_pos [of q] by (metis abs_mult abs_of_pos)
  qed
  ultimately show ?thesis by simp
qed (simp add: less_imp_le)

section \<open>Dividing integers as floats\<close>

lemma ulp_rel: "0 < q \<Longrightarrow> ulp q \<le> q / 2 ^ 52"
proof -
  assume q: "0 < q"
  then have "2 powi (flog2 q) \<le> q" by (rule flog2_bounds)
  with q show ?thesis by (simp add: ulp_def power_int_diff divide_right_mono)
qed

lemma fl_le_rel: "0 \<le> q \<Longrightarrow> fl q \<le> q + q / 2 ^ 53"
proof (cases "q = 0")
  case False
  assume "0 \<le> q"
  moreover have "fl q - q \<le> ulp q / 2" using fl_error [of q] by linarith
  ultimately show ?thesis using False ulp_rel [of q] by simp
qed simp

text \<open>
  \<open>int(a / g)\<close> is \<open>a // g\<close> for integers a float holds exactly: the quotient of a non-multiple
  is far enough below the next integer not to be rounded up to it.
\<close>

lemma fl_div_less:
  assumes a: "0 \<le> a" "a < 2 ^ 53" and g: "0 < g"
  shows "fl (of_int a / of_int g) < of_int (a div g + 1)"
proof -
  let ?q = "of_int a / (of_int g :: rat)"
  have g': "0 < (of_int g :: rat)" using g by simp
  have q: "0 \<le> ?q" using a g' by simp
  have "(of_int a :: rat) < of_int (2 ^ 53)" using a(2) by (simp only: of_int_less_iff)
  then have small: "?q / 2 ^ 53 < 1 / of_int g" using g' by (simp add: field_simps)
  have "a = a div g * g + a mod g" "a mod g < g" using g by simp_all
  then have "a + 1 \<le> (a div g + 1) * g" by (simp only: distrib_right mult_1)
  then have "(of_int (a + 1) :: rat) \<le> of_int ((a div g + 1) * g)" by (simp only: of_int_le_iff)
  then have "?q + 1 / of_int g \<le> of_int (a div g + 1)" using g' by (simp add: field_simps)
  with small fl_le_rel [OF q] show ?thesis by linarith
qed

lemma fl_div_ge:
  assumes a: "0 \<le> a" "a < 2 ^ 53" and g: "0 < g"
  shows "of_int (a div g) \<le> fl (of_int a / of_int g)"
proof (rule fl_ge_int)
  have "a div g \<le> a" using a g zdiv_mono2 [of a 1 g] by simp
  moreover have "0 \<le> a div g" using a g by (simp add: pos_imp_zdiv_nonneg_iff)
  ultimately show "\<bar>a div g\<bar> \<le> 2 ^ 53" using a by simp
  show "(of_int (a div g) :: rat) \<le> of_int a / of_int g"
    using floor_divide_of_int_eq [of a g, where 'a = rat] of_int_floor_le by metis
qed

lemma floor_fl_div:
  assumes "0 \<le> a" "a < 2 ^ 53" "0 < g"
  shows "\<lfloor>fl (of_int a / of_int g)\<rfloor> = a div g"
  using fl_div_ge [OF assms] fl_div_less [OF assms] by (simp add: floor_eq_iff)

lemma trunc_fl_div:
  assumes "0 \<le> a" "a < 2 ^ 53" "0 < g"
  shows "py_trunc (fl (of_int a / of_int g)) = a div g"
proof -
  have "0 \<le> fl (of_int a / of_int g)" using assms by (intro fl_nonneg) simp
  then show ?thesis using floor_fl_div [OF assms] by (simp add: py_trunc_def)
qed

text \<open>\<open>math.ceil(a / g)\<close> of a multiple is exact.\<close>

lemma ceiling_fl_div:
  assumes "0 \<le> k" "k \<le> 2 ^ 53" "0 < g"
  shows "\<lceil>fl (of_int (k * g) / of_int g)\<rceil> = k"
  using assms by (simp add: fl_of_int)

text \<open>Comparing the float quotient with an integer is exact.\<close>

lemma int_le_fl_div:
  assumes "0 \<le> a" "a < 2 ^ 53" "0 < g"
  shows "of_int m \<le> fl (of_int a / of_int g) \<longleftrightarrow> m * g \<le> a"
proof -
  have "of_int m \<le> fl (of_int a / of_int g) \<longleftrightarrow> m \<le> a div g"
    using floor_fl_div [OF assms] le_floor_iff [of m "fl (of_int a / of_int g)"] by simp
  also have "\<dots> \<longleftrightarrow> m * g \<le> a"
  proof
    assume "m \<le> a div g"
    then have "m * g \<le> a div g * g" using assms(3) by (intro mult_right_mono) simp_all
    moreover have "0 \<le> a mod g" using assms(3) by simp
    ultimately show "m * g \<le> a" using div_mult_mod_eq [of a g] by linarith
  next
    assume "m * g \<le> a"
    then have "(m * g) div g \<le> a div g" by (rule zdiv_mono1) (rule assms(3))
    then show "m \<le> a div g" using assms(3) by simp
  qed
  finally show ?thesis .
qed

end
