(* ===== verification/Py_Text.thy ===== *)
theory Py_Text
  imports RV_Prelude
begin

text \<open>
  The text formatting the code uses in identifiers: decimal numerals, zero padding as in
  \<^verbatim>\<open>f"{i:04d}"\<close>, and the ISO form of a calendar date.  A string is a list of characters.
  The lemmas show that numerals can be read back, so identifiers built from them are
  distinct for distinct numbers.
\<close>

section \<open>Decimal numerals\<close>

definition digit_char :: "nat \<Rightarrow> char" where
  "digit_char d = char_of (48 + d)"

definition digit_value :: "char \<Rightarrow> nat" where
  "digit_value c = of_char c - 48"

lemma digit_value_char [simp]: "d < 10 \<Longrightarrow> digit_value (digit_char d) = d"
  by (simp add: digit_value_def digit_char_def)

fun nat_str :: "nat \<Rightarrow> string" where
  "nat_str n = (if n < 10 then [digit_char n] else nat_str (n div 10) @ [digit_char (n mod 10)])"

declare nat_str.simps [simp del]

definition int_str :: "int \<Rightarrow> string" where
  "int_str i = (if i < 0 then ''-'' @ nat_str (nat (- i)) else nat_str (nat i))"

text \<open>\<open>f"{n:0wd}"\<close> of a natural number.\<close>

definition zero_pad :: "nat \<Rightarrow> nat \<Rightarrow> string" where
  "zero_pad w n = (let s = nat_str n in replicate (w - length s) (CHR ''0'') @ s)"

definition numeral_value :: "string \<Rightarrow> nat" where
  "numeral_value s = foldl (\<lambda>v c. 10 * v + digit_value c) 0 s"

lemma numeral_value_snoc: "numeral_value (s @ [c]) = 10 * numeral_value s + digit_value c"
  by (simp add: numeral_value_def)

lemma numeral_value_nat_str [simp]: "numeral_value (nat_str n) = n"
proof (induction n rule: nat_str.induct)
  case (1 n)
  show ?case
  proof (cases "n < 10")
    case True
    then show ?thesis by (simp add: nat_str.simps [of n] numeral_value_def)
  next
    case False
    then have "numeral_value (nat_str (n div 10)) = n div 10" by (rule "1.IH")
    with False show ?thesis by (simp add: nat_str.simps [of n] numeral_value_snoc)
  qed
qed

lemma digit_value_zero [simp]: "digit_value (CHR ''0'') = 0"
  by (simp add: digit_value_def)

lemma numeral_value_zeros: "numeral_value (replicate k (CHR ''0'') @ s) = numeral_value s"
  by (induction k) (simp_all add: numeral_value_def)

lemma numeral_value_zero_pad [simp]: "numeral_value (zero_pad w n) = n"
  by (simp add: zero_pad_def Let_def numeral_value_zeros)

lemma zero_pad_inj: "zero_pad w m = zero_pad w n \<longleftrightarrow> m = n"
  using numeral_value_zero_pad by metis

lemma nat_str_inj: "nat_str m = nat_str n \<longleftrightarrow> m = n"
  using numeral_value_nat_str by metis

section \<open>The proleptic Gregorian calendar\<close>

text \<open>
  \<open>date.fromordinal\<close> of the standard library: year, month and day of the \<open>n\<close>-th day, day 1
  being 1 January of year 1.
\<close>

definition days_before_month :: "int \<Rightarrow> int" where
  "days_before_month m =
     [0, 0, 31, 59, 90, 120, 151, 181, 212, 243, 273, 304, 334] ! nat m"

definition days_in_month :: "int \<Rightarrow> int" where
  "days_in_month m = [0, 31, 28, 31, 30, 31, 30, 31, 31, 30, 31, 30, 31] ! nat m"

definition ord2ymd :: "int \<Rightarrow> int \<times> int \<times> int" where
  "ord2ymd ord =
     (let n = ord - 1;
          n400 = n div 146097; n = n mod 146097;
          n100 = n div 36524; n = n mod 36524;
          n4 = n div 1461; n = n mod 1461;
          n1 = n div 365; n = n mod 365;
          year = n400 * 400 + 1 + n100 * 100 + n4 * 4 + n1
      in if n1 = 4 \<or> n100 = 4 then (year - 1, 12, 31)
         else let leap = (n1 = 3 \<and> (n4 \<noteq> 24 \<or> n100 = 3));
                  month = (n + 50) div 32;
                  preceding = days_before_month month + (if 2 < month \<and> leap then 1 else 0)
              in if n < preceding
                 then (let month = month - 1;
                           preceding = preceding - (days_in_month month + (if month = 2 \<and> leap then 1 else 0))
                       in (year, month, n - preceding + 1))
                 else (year, month, n - preceding + 1))"

text \<open>\<open>d.isoformat()\<close> of the day \<open>d\<close> days after 1 January 1970.\<close>

definition iso_date :: "int \<Rightarrow> string" where
  "iso_date d = (case ord2ymd (d + 719163) of (y, m, dd) \<Rightarrow>
     zero_pad 4 (nat y) @ ''-'' @ zero_pad 2 (nat m) @ ''-'' @ zero_pad 2 (nat dd))"

lemma iso_date_epoch: "iso_date 0 = ''1970-01-01''"
  by code_simp

lemma iso_date_leap_day: "iso_date 19782 = ''2024-02-29''"
  by code_simp

section \<open>Numerals contain digits only\<close>

lemma digit_char_not_dash: "d < 10 \<Longrightarrow> digit_char d \<noteq> CHR ''-''"
proof
  assume d: "d < 10" and e: "digit_char d = CHR ''-''"
  have "48 + d = of_char (digit_char d)" using d by (simp add: digit_char_def)
  also have "\<dots> = 45" unfolding e by simp
  finally show False by simp
qed

lemma nat_str_no_dash: "CHR ''-'' \<notin> set (nat_str n)"
proof (induction n rule: nat_str.induct)
  case (1 n)
  then show ?case
    using digit_char_not_dash [of n] digit_char_not_dash [of "n mod 10"] nat_str.simps [of n] by auto
qed

lemma zero_pad_no_dash: "CHR ''-'' \<notin> set (zero_pad w n)"
  by (simp add: zero_pad_def Let_def nat_str_no_dash)

end
