(* ===== verification/Py_Time.thy ===== *)
theory Py_Time
  imports Py_Float Py_Text
begin

text \<open>
  Dates and times.  A \<open>date\<close> is its number of days since 1 January 1970, a \<open>time\<close> its
  microseconds since midnight, a \<open>datetime\<close> its microseconds since the epoch: naive values
  and values in UTC have the same number, as the code only ever attaches UTC or strips it.
  Conversions to and from \<open>float\<close> seconds round as the standard library does.  The main
  facts: whole seconds convert exactly, and between November 2004 and January 2038
  \<^verbatim>\<open>int(dt.timestamp() * 1000)\<close> is the exact number of elapsed milliseconds, although
  \<open>timestamp()\<close> itself is rounded.
\<close>

type_synonym date = int
type_synonym time_of_day = int
type_synonym datetime = int

definition us_per_hour :: int where "us_per_hour = 3600000000"
definition us_per_day :: int where "us_per_day = 86400000000"

lemmas us_defs = us_per_hour_def us_per_day_def

definition combine :: "date \<Rightarrow> time_of_day \<Rightarrow> datetime" where
  "combine d t = d * us_per_day + t"

definition date_of :: "datetime \<Rightarrow> date" where
  "date_of dt = dt div us_per_day"

definition time_of :: "datetime \<Rightarrow> time_of_day" where
  "time_of dt = dt mod us_per_day"

definition hour_of :: "time_of_day \<Rightarrow> int" where
  "hour_of t = t div us_per_hour"

definition minute_of :: "time_of_day \<Rightarrow> int" where
  "minute_of t = t div 60000000 mod 60"

definition second_of :: "time_of_day \<Rightarrow> int" where
  "second_of t = t div 1000000 mod 60"

definition valid_time :: "time_of_day \<Rightarrow> bool" where
  "valid_time t \<longleftrightarrow> 0 \<le> t \<and> t < us_per_day"

lemma time_of_combine [simp]: "valid_time t \<Longrightarrow> time_of (combine d t) = t"
  by (simp add: time_of_def combine_def valid_time_def us_defs)

lemma date_of_combine [simp]: "valid_time t \<Longrightarrow> date_of (combine d t) = d"
  by (simp add: date_of_def combine_def valid_time_def us_defs)

lemma combine_date_time [simp]: "combine (date_of dt) (time_of dt) = dt"
  by (simp add: combine_def date_of_def time_of_def)

lemma valid_time_of [simp]: "valid_time (time_of dt)"
  by (simp add: valid_time_def time_of_def us_defs)

lemma hour_of_range: "valid_time t \<Longrightarrow> 0 \<le> hour_of t \<and> hour_of t < 24"
  by (simp add: valid_time_def hour_of_def us_defs) linarith

section \<open>Seconds as floats\<close>

text \<open>\<open>timedelta.total_seconds()\<close>, and \<open>datetime.timestamp()\<close> of an instant.\<close>

definition total_seconds :: "int \<Rightarrow> rat" where
  "total_seconds us = fl (of_int us / 1000000)"

text \<open>
  \<open>timedelta(seconds=x)\<close> and \<open>datetime.fromtimestamp(x)\<close>: the integer part is exact, the
  fraction is scaled and rounded half to even.
\<close>

definition secs_to_us :: "rat \<Rightarrow> int" where
  "secs_to_us x = (let i = py_trunc x in i * 1000000 + rne (fl ((x - of_int i) * 1000000)))"

text \<open>\<open>int(dt.timestamp() * 1000)\<close> and \<open>datetime.fromtimestamp(ms / 1000.0)\<close>.\<close>

definition to_epoch_ms :: "datetime \<Rightarrow> ms" where
  "to_epoch_ms dt = py_trunc (fl (total_seconds dt * 1000))"

definition from_epoch_ms :: "ms \<Rightarrow> datetime" where
  "from_epoch_ms t = secs_to_us (fl (of_int t / 1000))"

lemma secs_to_us_of_int [simp]: "secs_to_us (of_int s) = s * 1000000"
proof -
  have "rne 0 = 0" using rne_of_int [of 0] by simp
  then show ?thesis by (simp add: secs_to_us_def)
qed

lemma secs_to_us_mono:
  assumes "0 \<le> x" "x \<le> y"
  shows "secs_to_us x \<le> secs_to_us y"
proof -
  let ?f = "\<lambda>z. rne (fl ((z - of_int \<lfloor>z\<rfloor>) * 1000000))"
  have r: "secs_to_us z = \<lfloor>z\<rfloor> * 1000000 + ?f z" if "0 \<le> z" for z
    using that by (simp add: secs_to_us_def py_trunc_def Let_def)
  have lo: "0 \<le> ?f z" for z
    using rne_mono [of 0 "fl ((z - of_int \<lfloor>z\<rfloor>) * 1000000)"] rne_of_int [of 0] fl_nonneg [of "(z - of_int \<lfloor>z\<rfloor>) * 1000000"]
    by simp
  have hi: "?f z \<le> 1000000" for z
  proof -
    have "(z - of_int \<lfloor>z\<rfloor>) * 1000000 \<le> of_int 1000000" by (simp add: le_diff_eq [symmetric]) linarith
    then have "?f z \<le> rne (fl (of_int 1000000))" by (intro rne_mono fl_mono)
    then show ?thesis using rne_of_int [of 1000000] fl_of_int [of 1000000] by simp
  qed
  show ?thesis
  proof (cases "\<lfloor>x\<rfloor> = \<lfloor>y\<rfloor>")
    case True
    have "?f x \<le> ?f y" unfolding True using assms(2) by (intro rne_mono fl_mono mult_right_mono) auto
    then show ?thesis using r [of x] r [of y] assms True by simp
  next
    case False
    then have "\<lfloor>x\<rfloor> + 1 \<le> \<lfloor>y\<rfloor>" using floor_mono [OF assms(2)] by linarith
    then show ?thesis using r [of x] r [of y] assms hi [of x] lo [of y] by linarith
  qed
qed

lemma from_epoch_ms_mono: "0 \<le> a \<Longrightarrow> a \<le> b \<Longrightarrow> from_epoch_ms a \<le> from_epoch_ms b"
  unfolding from_epoch_ms_def by (intro secs_to_us_mono fl_nonneg fl_mono divide_right_mono) auto

lemma total_seconds_whole:
  "\<bar>s\<bar> \<le> 2 ^ 53 \<Longrightarrow> total_seconds (s * 1000000) = of_int s"
  by (simp add: total_seconds_def fl_of_int)

lemma to_epoch_ms_whole: "\<bar>s\<bar> \<le> 2 ^ 43 \<Longrightarrow> to_epoch_ms (s * 1000000) = s * 1000"
proof -
  assume s: "\<bar>s\<bar> \<le> 2 ^ 43"
  have 1: "total_seconds (s * 1000000) = of_int s"
    by (rule total_seconds_whole) (use s in simp)
  have 2: "of_int s * 1000 = (of_int (s * 1000) :: rat)" by simp
  have "\<bar>s * 1000\<bar> \<le> 2 ^ 53" using s by (simp add: abs_mult)
  then show ?thesis unfolding to_epoch_ms_def 1 2 by (simp only: fl_of_int py_trunc_of_int)
qed

lemma to_epoch_ms_mono: "a \<le> b \<Longrightarrow> to_epoch_ms a \<le> to_epoch_ms b"
  unfolding to_epoch_ms_def total_seconds_def
  by (intro py_trunc_mono fl_mono mult_right_mono divide_right_mono) auto

lemma floor_total_seconds:
  assumes "\<bar>us\<bar> \<le> 2 ^ 52"
  shows "of_int (us div 1000000) \<le> total_seconds us"
  unfolding total_seconds_def
proof (rule fl_ge_int)
  show "\<bar>us div 1000000\<bar> \<le> 2 ^ 53" using assms by simp
  show "(of_int (us div 1000000) :: rat) \<le> of_int us / 1000000"
    using floor_divide_of_int_eq [of us 1000000] by (metis of_int_floor_le of_int_numeral)
qed

text \<open>
  In the binade of the present (\<open>2\<^sup>4\<^sup>0\<close> ms to \<open>2\<^sup>3\<^sup>1\<close> s) the two roundings cancel.
\<close>

lemma fl_present_seconds:
  assumes "2 ^ 30 \<le> q" "q < 2 ^ 31"
  shows "\<bar>fl q - q\<bar> \<le> 1 / 2 ^ 23"
proof -
  have "flog2 q = 30" by (rule flog2_unique) (use assms in simp_all)
  then have "ulp q = 2 powi (- 22)" using assms by (simp add: ulp_def)
  then show ?thesis using fl_error [of q] by (simp add: power_int_minus inverse_eq_divide)
qed

lemma fl_present_ms:
  assumes "2 ^ 40 \<le> q" "q < 2 ^ 41"
  shows "\<bar>fl q - q\<bar> \<le> 1 / 2 ^ 13"
proof -
  have "flog2 q = 40" by (rule flog2_unique) (use assms in simp_all)
  then have "ulp q = 2 powi (- 12)" using assms by (simp add: ulp_def)
  then show ?thesis using fl_error [of q] by (simp add: power_int_minus inverse_eq_divide)
qed

lemma fl_near_ms:
  assumes m: "2 ^ 40 < m" "m < 2 ^ 41" and near: "\<bar>q - of_int m\<bar> < 1 / 2 ^ 13"
  shows "fl q = of_int m"
proof -
  have "(of_int (2 ^ 40 + 1) :: rat) \<le> of_int m" "of_int (m + 1) \<le> (of_int (2 ^ 41) :: rat)"
    using m by (simp_all only: of_int_le_iff zless_imp_add1_zle)
  then have ge: "2 ^ 40 + 1 \<le> (of_int m :: rat)" "of_int m + 1 \<le> (2 ^ 41 :: rat)" by simp_all
  have "\<bar>q - of_int m\<bar> < 1" by (rule less_le_trans [OF near]) simp
  then have "of_int m - 1 < q" "q < of_int m + 1" by linarith+
  then have q: "2 ^ 40 \<le> q" "q < 2 ^ 41" "0 < q" using ge by simp_all
  have "flog2 q = 40" by (rule flog2_unique) (use q in simp_all)
  then have u: "ulp q = 1 / 4096" using q by (simp add: ulp_def power_int_minus inverse_eq_divide)
  have "\<bar>q * 4096 - of_int (m * 4096)\<bar> < 1 / 2" using near by (simp add: abs_if split: if_splits)
  then have "rne (q * 4096) = m * 4096"
  proof -
    assume close: "\<bar>q * 4096 - of_int (m * 4096)\<bar> < 1 / 2"
    have "\<bar>of_int (rne (q * 4096)) - q * 4096\<bar> \<le> 1 / 2" by (rule rne_error)
    with close have "\<bar>of_int (rne (q * 4096)) - (of_int (m * 4096) :: rat)\<bar> < 1" by linarith
    then have "\<bar>rne (q * 4096) - m * 4096\<bar> < 1" by (metis of_int_abs of_int_diff of_int_less_1_iff)
    then show ?thesis by simp
  qed
  then show ?thesis using q by (simp add: fl_def u)
qed

lemma to_epoch_ms_whole_ms:
  assumes "2 ^ 40 < m" "m < 1000 * 2 ^ 31"
  shows "to_epoch_ms (m * 1000) = m"
proof -
  let ?q = "of_int m / (1000 :: rat)"
  have "(of_int (2 ^ 40) :: rat) < of_int m" "of_int m < (of_int (1000 * 2 ^ 31) :: rat)"
    using assms by (simp_all only: of_int_less_iff)
  then have ge: "(2 ^ 40 :: rat) < of_int m" "of_int m < (1000 * 2 ^ 31 :: rat)" by simp_all
  have q: "2 ^ 30 \<le> ?q" "?q < 2 ^ 31" using ge by simp_all
  have ts: "total_seconds (m * 1000) = fl ?q" by (simp add: total_seconds_def)
  have "\<bar>fl ?q * 1000 - of_int m\<bar> \<le> 1000 / 2 ^ 23"
    using fl_present_seconds [OF q] by (simp add: abs_if field_simps split: if_splits)
  then have near: "\<bar>fl ?q * 1000 - of_int m\<bar> < 1 / 2 ^ 13" by simp
  have "fl (fl ?q * 1000) = of_int m"
    by (rule fl_near_ms [OF assms(1) _ near]) (use assms in simp)
  then show ?thesis unfolding to_epoch_ms_def ts by simp
qed

theorem to_epoch_ms_present:
  assumes lo: "1000 * (2 ^ 40 + 1) \<le> dt" and hi: "dt < 1000000 * (2 ^ 31 - 1)"
  shows "to_epoch_ms dt = dt div 1000"
proof -
  let ?m = "dt div 1000"
  have m: "2 ^ 40 < ?m" "?m + 1 < 1000 * 2 ^ 31" using lo hi by simp_all
  have dm: "?m * 1000 \<le> dt" "dt \<le> ?m * 1000 + 999" by simp_all
  have "?m = to_epoch_ms (?m * 1000)" using m by (simp add: to_epoch_ms_whole_ms)
  also have "\<dots> \<le> to_epoch_ms dt" by (rule to_epoch_ms_mono) (rule dm)
  finally have ge: "?m \<le> to_epoch_ms dt" .
  let ?q = "of_int dt / (1000000 :: rat)"
  have "of_int (1000 * (2 ^ 40 + 1)) \<le> (of_int dt :: rat)"
    "(of_int dt :: rat) < of_int (1000000 * (2 ^ 31 - 1))"
    "(of_int dt :: rat) \<le> of_int (?m * 1000 + 999)"
    using lo hi dm by (simp_all only: of_int_le_iff of_int_less_iff)
  then have r: "1000 * (2 ^ 40 + 1) \<le> (of_int dt :: rat)" "of_int dt < (1000000 * (2 ^ 31 - 1) :: rat)"
    "of_int dt \<le> of_int ?m * 1000 + (999 :: rat)"
    by simp_all
  have q: "2 ^ 30 \<le> ?q" "?q < 2 ^ 31" using r by simp_all
  have "fl ?q * 1000 \<le> ?q * 1000 + 1000 / 2 ^ 23"
    using fl_present_seconds [OF q] by (simp add: abs_if split: if_splits)
  also have "\<dots> \<le> of_int ?m + 999/1000 + 1000 / 2 ^ 23" using r(3) by simp
  finally have x: "fl ?q * 1000 \<le> of_int ?m + 999/1000 + 1000 / 2 ^ 23" .
  have xr: "2 ^ 40 \<le> fl ?q * 1000" "fl ?q * 1000 < 2 ^ 41"
    using fl_present_seconds [OF q] r by (simp_all add: abs_if split: if_splits)
  have "fl (fl ?q * 1000) < of_int ?m + 1"
    using fl_present_ms [OF xr] x by (simp add: abs_if split: if_splits)
  then have "\<lfloor>fl (fl ?q * 1000)\<rfloor> < ?m + 1" by (simp only: floor_less_iff of_int_add of_int_1)
  then have "to_epoch_ms dt < ?m + 1"
    using xr fl_nonneg [of "fl ?q * 1000"] by (simp add: to_epoch_ms_def total_seconds_def py_trunc_def)
  with ge show ?thesis by simp
qed

text \<open>\<open>datetime.fromtimestamp(ms / 1000.0)\<close> recovers the microseconds of every present instant.\<close>

lemma rne_near: "\<bar>q - of_int n\<bar> < 1 / 2 \<Longrightarrow> rne q = n"
proof -
  assume "\<bar>q - of_int n\<bar> < 1 / 2"
  with rne_error [of q] have "\<bar>of_int (rne q) - (of_int n :: rat)\<bar> < 1" by linarith
  then have "\<bar>rne q - n\<bar> < 1" by (metis of_int_abs of_int_diff of_int_less_1_iff)
  then show ?thesis by simp
qed

lemma fl_small_error:
  assumes "0 \<le> y" "y < 2 ^ 20"
  shows "\<bar>fl y - y\<bar> \<le> 1 / 2 ^ 33"
proof (cases "y = 0")
  case False
  then have "ulp y \<le> y / 2 ^ 52" using assms by (intro ulp_rel) simp
  then have "ulp y / 2 \<le> 1 / 2 ^ 33" using assms(2) by simp
  then show ?thesis using fl_error [of y] by linarith
qed simp

lemma from_epoch_ms_present:
  assumes "2 ^ 40 < m" "m < 1000 * (2 ^ 31 - 1)"
  shows "from_epoch_ms m = m * 1000"
proof -
  define x where "x = fl (of_int m / 1000)"
  have "(of_int (2 ^ 40) :: rat) < of_int m" "of_int m < (of_int (1000 * (2 ^ 31 - 1)) :: rat)"
    using assms by (simp_all only: of_int_less_iff)
  then have q: "2 ^ 30 \<le> of_int m / (1000 :: rat)" "of_int m / 1000 < (2 ^ 31 - 1 :: rat)"
    by simp_all
  have e: "\<bar>x - of_int m / 1000\<bar> \<le> 1 / 2 ^ 23"
    unfolding x_def by (rule fl_present_seconds) (use q in simp_all)
  then have x0: "0 \<le> x" using q by (simp add: abs_if split: if_splits)
  define i where "i = \<lfloor>x\<rfloor>"
  have i: "py_trunc x = i" using x0 by (simp add: py_trunc_def i_def)
  define y where "y = (x - of_int i) * 1000000"
  define n where "n = m * 1000 - i * 1000000"
  have fr: "0 \<le> x - of_int i" "x - of_int i < 1" unfolding i_def by linarith+
  then have y: "0 \<le> y" "y < 2 ^ 20" by (simp_all add: y_def)
  have "y - of_int n = (x - of_int m / 1000) * 1000000" by (simp add: y_def n_def field_simps)
  then have "\<bar>y - of_int n\<bar> = \<bar>x - of_int m / 1000\<bar> * 1000000" by (simp only: abs_mult abs_numeral)
  then have "\<bar>y - of_int n\<bar> \<le> 1 / 2 ^ 23 * 1000000" using mult_right_mono [OF e, of 1000000] by simp
  then have "\<bar>fl y - of_int n\<bar> < 1 / 2" using fl_small_error [OF y] by (simp add: abs_if split: if_splits)
  then have "rne (fl y) = n" by (rule rne_near)
  then show ?thesis
    unfolding from_epoch_ms_def secs_to_us_def Let_def x_def [symmetric] i y_def [symmetric]
    by (simp add: n_def)
qed

lemma epoch_ms_round_trip:
  assumes "2 ^ 40 < m" "m < 1000 * (2 ^ 31 - 1)"
  shows "to_epoch_ms (from_epoch_ms m) = m"
proof -
  have "to_epoch_ms (m * 1000) = m" by (rule to_epoch_ms_whole_ms) (use assms in simp_all)
  then show ?thesis by (simp only: from_epoch_ms_present [OF assms])
qed

text \<open>Outside that range it is not: one millisecond can be lost.\<close>

lemma to_epoch_ms_loses_ms: "to_epoch_ms 1001000 = 1000"
  by code_simp

section \<open>ISO text\<close>

text \<open>\<open>str(t)\<close> and \<open>t.isoformat()\<close> of a time; microseconds appear only when there are any.\<close>

definition iso_time :: "time_of_day \<Rightarrow> string" where
  "iso_time t =
     zero_pad 2 (nat (hour_of t)) @ '':'' @ zero_pad 2 (nat (minute_of t)) @ '':''
       @ zero_pad 2 (nat (second_of t))
       @ (if t mod 1000000 = 0 then [] else ''.'' @ zero_pad 6 (nat (t mod 1000000)))"

text \<open>\<open>dt.isoformat()\<close> of a value in UTC.\<close>

definition iso_datetime :: "datetime \<Rightarrow> string" where
  "iso_datetime dt = iso_date (date_of dt) @ ''T'' @ iso_time (time_of dt) @ ''+00:00''"

lemma iso_datetime_example: "iso_datetime 1709186400000000 = ''2024-02-29T06:00:00+00:00''"
  by code_simp

end
