(* ===== verification/Schedule_Types.thy ===== *)
theory Schedule_Types
  imports Py_Time
begin

text \<open>
  The data of the scheduling layer, \<^verbatim>\<open>runtime/schedule_types.py\<close>: references to content, slots,
  episodes and programs, resolved days and their events, EPG entries, the frame-indexed playout
  segments of the editorial layer and the millisecond-based blocks the execution layer consumes.
  A dataclass is a record; an optional field is an option; a duration in \<open>float\<close> seconds is the
  rational it denotes.  The derived properties of the classes are definitions, with the lemmas
  that hold of any value.
\<close>

section \<open>Editorial references and slots\<close>

datatype program_ref_type = PROGRAM | ASSET | FILE

record program_ref =
  ref_type :: program_ref_type
  ref_id :: string

record schedule_slot =
  slot_time :: time_of_day
  slot_ref :: program_ref
  slot_duration :: rat
  slot_label :: string

record episode =
  ep_id :: string
  ep_title :: string
  ep_path :: string
  ep_duration :: rat

record program =
  prog_id :: string
  prog_name :: string
  prog_play_mode :: string
  prog_episodes :: "episode list"

section \<open>Resolved content\<close>

record resolved_asset =
  ra_path :: string
  ra_asset_id :: "string option"
  ra_title :: string
  ra_episode_title :: "string option"
  ra_episode_id :: "string option"
  ra_duration :: rat

record resolved_slot =
  rs_time :: time_of_day
  rs_ref :: program_ref
  rs_asset :: resolved_asset
  rs_duration :: rat
  rs_label :: string

record sequence_state =
  sq_positions :: "(string \<times> int) list"
  sq_as_of :: "datetime option"

record program_event =
  pe_id :: string
  pe_program_id :: string
  pe_episode_id :: string
  pe_start_ms :: ms
  pe_duration_ms :: ms
  pe_span :: int
  pe_asset :: "resolved_asset option"

record resolved_day =
  rd_date :: date
  rd_slots :: "resolved_slot list"
  rd_timestamp :: datetime
  rd_sequence :: sequence_state
  rd_events :: "program_event list"
  rd_plan_id :: "string option"
  rd_override :: bool
  rd_supersedes :: "int option"

record epg_event =
  epg_channel :: string
  epg_start :: datetime
  epg_end :: datetime
  epg_title :: string
  epg_episode_title :: "string option"
  epg_episode_id :: "string option"
  epg_asset :: resolved_asset
  epg_date :: date

section \<open>Playout segments and program blocks (frame-indexed)\<close>

record playout_segment =
  ps_start :: datetime
  ps_end :: datetime
  ps_path :: "string option"
  ps_type :: string
  ps_allows_padding :: bool
  ps_seek :: rat
  ps_start_frame :: int
  ps_frame_count :: int
  ps_fps :: rat

text \<open>
  \<^verbatim>\<open>PlayoutSegment.from_time_based\<close>: a \<open>float\<close> times a \<open>Fraction\<close> is a \<open>float\<close> product with the
  fraction rounded first.
\<close>

definition from_time_based ::
  "datetime \<Rightarrow> datetime \<Rightarrow> string \<Rightarrow> rat \<Rightarrow> rat \<Rightarrow> string \<Rightarrow> bool \<Rightarrow> playout_segment" where
  "from_time_based start_utc end_utc path fps seek seg_type allows =
     (let duration = total_seconds (end_utc - start_utc);
          frame_count = py_trunc (fl (duration * fl fps));
          start_frame = py_trunc (fl (seek * fl fps))
      in \<lparr>ps_start = start_utc, ps_end = end_utc, ps_path = Some path, ps_type = seg_type,
          ps_allows_padding = allows, ps_seek = seek, ps_start_frame = start_frame,
          ps_frame_count = frame_count, ps_fps = fps\<rparr>)"

text \<open>\<^verbatim>\<open>PlayoutSegment.duration_seconds\<close>: frames over rate, an exact fraction made a float.\<close>

definition segment_duration_seconds :: "playout_segment \<Rightarrow> rat" where
  "segment_duration_seconds s =
     (if ps_fps s = 0 then 0
      else case quotient_of (ps_fps s) of (num, den) \<Rightarrow>
        fl (of_int (ps_frame_count s * den) / of_int num))"

record program_block =
  pb_start :: datetime
  pb_end :: datetime
  pb_segments :: "playout_segment list"
  pb_fps :: rat
  pb_padding_frames :: int

definition pb_duration_seconds :: "program_block \<Rightarrow> rat" where
  "pb_duration_seconds b = total_seconds (pb_end b - pb_start b)"

definition pb_content_frames :: "program_block \<Rightarrow> int" where
  "pb_content_frames b = sum_list (map ps_frame_count (pb_segments b))"

definition pb_total_frames :: "program_block \<Rightarrow> int" where
  "pb_total_frames b = sum_list (map ps_frame_count (pb_segments b)) + pb_padding_frames b"

definition pb_grid_frames :: "program_block \<Rightarrow> int" where
  "pb_grid_frames b = py_trunc (fl (pb_duration_seconds b * fl (pb_fps b)))"

lemma from_time_based_fields [simp]:
  "ps_start (from_time_based a b p f k t w) = a"
  "ps_end (from_time_based a b p f k t w) = b"
  "ps_path (from_time_based a b p f k t w) = Some p"
  "ps_type (from_time_based a b p f k t w) = t"
  "ps_seek (from_time_based a b p f k t w) = k"
  by (simp_all add: from_time_based_def Let_def)

lemma from_time_based_frames_nonneg:
  "a \<le> b \<Longrightarrow> 0 \<le> f \<Longrightarrow> 0 \<le> ps_frame_count (from_time_based a b p f k t w)"
  by (auto simp: from_time_based_def Let_def total_seconds_def intro!: py_trunc_nonneg fl_nonneg mult_nonneg_nonneg)

section \<open>Execution-layer blocks (millisecond-based)\<close>

datatype transition = TRANSITION_NONE | TRANSITION_FADE

record scheduled_segment =
  sg_type :: string
  sg_uri :: string
  sg_offset :: ms
  sg_duration :: ms
  sg_transition_in :: transition
  sg_transition_in_ms :: ms
  sg_transition_out :: transition
  sg_transition_out_ms :: ms
  sg_gain :: rat

text \<open>A segment with the default transition and gain fields.\<close>

definition plain_segment :: "string \<Rightarrow> string \<Rightarrow> ms \<Rightarrow> ms \<Rightarrow> scheduled_segment" where
  "plain_segment t uri off dur =
     \<lparr>sg_type = t, sg_uri = uri, sg_offset = off, sg_duration = dur,
      sg_transition_in = TRANSITION_NONE, sg_transition_in_ms = 0,
      sg_transition_out = TRANSITION_NONE, sg_transition_out_ms = 0, sg_gain = 0\<rparr>"

lemma plain_segment_fields [simp]:
  "sg_type (plain_segment t u f d) = t"
  "sg_uri (plain_segment t u f d) = u"
  "sg_offset (plain_segment t u f d) = f"
  "sg_duration (plain_segment t u f d) = d"
  by (simp_all add: plain_segment_def)

record scheduled_block =
  sb_id :: string
  sb_start :: ms
  sb_end :: ms
  sb_segments :: "scheduled_segment list"

definition sb_duration_ms :: "scheduled_block \<Rightarrow> ms" where
  "sb_duration_ms b = sb_end b - sb_start b"

definition total_duration :: "scheduled_segment list \<Rightarrow> ms" where
  "total_duration segs = sum_list (map sg_duration segs)"

lemma total_duration_simps [simp, rv_sums]:
  "total_duration [] = 0"
  "total_duration (s # segs) = sg_duration s + total_duration segs"
  "total_duration (xs @ ys) = total_duration xs + total_duration ys"
  by (simp_all add: total_duration_def)

end
