(* ===== verification/Asset_Library.thy ===== *)
theory Asset_Library
  imports Schedule_Types
begin

text \<open>
  The \<^verbatim>\<open>AssetLibrary\<close> protocol of \<^verbatim>\<open>runtime/planning_pipeline.py\<close> and its two file-free
  implementations: \<^verbatim>\<open>InMemoryAssetLibrary\<close> (planning_pipeline.py) and the JSON catalogue
  \<^verbatim>\<open>StaticAssetLibrary\<close> (catalog/static_asset_library.py), which answer queries by the same
  three methods.  The locale \<open>asset_library\<close> states what the planner relies on; it is
  interpreted on these methods for every library whose registered fillers have a positive
  length.
\<close>

record marker_info =
  mk_kind :: string
  mk_offset :: ms
  mk_label :: string

record filler_asset =
  fa_uri :: string
  fa_duration :: ms
  fa_type :: string

record asset_lib =
  lib_durations :: "string \<rightharpoonup> ms"
  lib_markers :: "string \<rightharpoonup> marker_info list"
  lib_fillers :: "filler_asset list"

definition empty_library :: asset_lib where
  "empty_library = \<lparr>lib_durations = Map.empty, lib_markers = Map.empty, lib_fillers = []\<rparr>"

definition register_asset :: "asset_lib \<Rightarrow> string \<Rightarrow> ms \<Rightarrow> marker_info list option \<Rightarrow> asset_lib" where
  "register_asset lib uri dur markers =
     (let lib = lib\<lparr>lib_durations := (lib_durations lib)(uri \<mapsto> dur)\<rparr>
      in case markers of
           None \<Rightarrow> lib
         | Some [] \<Rightarrow> lib
         | Some ms \<Rightarrow> lib\<lparr>lib_markers := (lib_markers lib)(uri \<mapsto> ms)\<rparr>)"

definition register_filler :: "asset_lib \<Rightarrow> string \<Rightarrow> ms \<Rightarrow> string \<Rightarrow> asset_lib" where
  "register_filler lib uri dur atype =
     lib\<lparr>lib_fillers := lib_fillers lib @ [\<lparr>fa_uri = uri, fa_duration = dur, fa_type = atype\<rparr>],
         lib_durations := (lib_durations lib)(uri \<mapsto> dur)\<rparr>"

definition get_markers :: "asset_lib \<Rightarrow> string \<Rightarrow> marker_info list" where
  "get_markers lib uri = (case lib_markers lib uri of None \<Rightarrow> [] | Some ms \<Rightarrow> ms)"

definition get_duration_ms :: "asset_lib \<Rightarrow> string \<Rightarrow> ms" where
  "get_duration_ms lib uri = (case lib_durations lib uri of None \<Rightarrow> 0 | Some d \<Rightarrow> d)"

definition get_filler_assets :: "asset_lib \<Rightarrow> ms \<Rightarrow> nat \<Rightarrow> filler_asset list" where
  "get_filler_assets lib max_duration_ms n =
     take n (filter (\<lambda>f. fa_duration f \<le> max_duration_ms) (lib_fillers lib))"

section \<open>The JSON catalogue\<close>

text \<open>One entry of the parsed catalogue file; \<open>asset_type\<close> may be absent.\<close>

record catalog_entry =
  ce_duration :: ms
  ce_markers :: "marker_info list"
  ce_type :: "string option"

definition load_entry :: "asset_lib \<Rightarrow> string \<Rightarrow> catalog_entry \<Rightarrow> asset_lib" where
  "load_entry lib uri e =
     \<lparr>lib_durations = (lib_durations lib)(uri \<mapsto> ce_duration e),
      lib_markers = (if ce_markers e \<noteq> [] then (lib_markers lib)(uri \<mapsto> ce_markers e)
                     else lib_markers lib),
      lib_fillers = lib_fillers lib @
        (if ce_type e = Some ''filler''
         then [\<lparr>fa_uri = uri, fa_duration = ce_duration e, fa_type = ''filler''\<rparr>] else [])\<rparr>"

fun load_catalog :: "asset_lib \<Rightarrow> (string \<times> catalog_entry) list \<Rightarrow> asset_lib" where
  "load_catalog lib [] = lib"
| "load_catalog lib ((uri, e) # es) = load_catalog (load_entry lib uri e) es"

definition static_asset_library :: "(string \<times> catalog_entry) list \<Rightarrow> asset_lib" where
  "static_asset_library entries = load_catalog empty_library entries"

section \<open>The interface\<close>

text \<open>
  What the break filler relies on: an answer fits the requested length, holds at most the
  requested number of items, and, in a well-formed library, no item of length zero or less.
\<close>

locale asset_library =
  fixes lib_ok :: "'l \<Rightarrow> bool"
    and fillers :: "'l \<Rightarrow> ms \<Rightarrow> nat \<Rightarrow> filler_asset list"
  assumes fillers_fit: "f \<in> set (fillers l m c) \<Longrightarrow> fa_duration f \<le> m"
    and fillers_count: "length (fillers l m c) \<le> c"
    and fillers_positive: "lib_ok l \<Longrightarrow> f \<in> set (fillers l m c) \<Longrightarrow> 0 < fa_duration f"

text \<open>The library is well formed when every registered filler has a positive length.\<close>

definition library_wf :: "asset_lib \<Rightarrow> bool" where
  "library_wf lib \<longleftrightarrow> (\<forall>f \<in> set (lib_fillers lib). 0 < fa_duration f)"

interpretation mem_lib: asset_library library_wf get_filler_assets
  by unfold_locales (auto simp: get_filler_assets_def library_wf_def dest: in_set_takeD)

lemma library_wf_empty [rv_inv]: "library_wf empty_library"
  by (simp add: library_wf_def empty_library_def)

lemma library_wf_register_asset [rv_inv]:
  "library_wf (register_asset lib uri dur ms) = library_wf lib"
  by (simp add: library_wf_def register_asset_def Let_def split: option.splits list.splits)

lemma library_wf_register_filler [rv_inv]:
  "library_wf (register_filler lib uri dur t) \<longleftrightarrow> library_wf lib \<and> 0 < dur"
  by (auto simp: library_wf_def register_filler_def)

lemma library_wf_load_entry [rv_inv]:
  "library_wf lib \<Longrightarrow> 0 < ce_duration e \<Longrightarrow> library_wf (load_entry lib uri e)"
  by (auto simp: library_wf_def load_entry_def)

lemma library_wf_load_catalog [rv_inv]:
  "library_wf lib \<Longrightarrow> \<forall>(uri, e) \<in> set es. 0 < ce_duration e \<Longrightarrow> library_wf (load_catalog lib es)"
  by (induction lib es rule: load_catalog.induct) (auto intro: library_wf_load_entry)

lemma get_duration_register_asset [simp]:
  "get_duration_ms (register_asset lib uri dur ms) uri' =
    (if uri' = uri then dur else get_duration_ms lib uri')"
  by (simp add: get_duration_ms_def register_asset_def Let_def split: option.splits list.splits)

lemma get_duration_register_filler [simp]:
  "get_duration_ms (register_filler lib uri dur t) uri' =
    (if uri' = uri then dur else get_duration_ms lib uri')"
  by (simp add: get_duration_ms_def register_filler_def)

text \<open>Loading a catalogue with distinct keys answers with the durations of the file.\<close>

lemma load_entry_durations [simp]:
  "lib_durations (load_entry lib uri e) = (lib_durations lib)(uri \<mapsto> ce_duration e)"
  by (simp add: load_entry_def)

lemma load_catalog_other:
  "uri \<notin> fst ` set es \<Longrightarrow> lib_durations (load_catalog lib es) uri = lib_durations lib uri"
  by (induction lib es rule: load_catalog.induct) auto

lemma load_catalog_duration:
  "distinct (map fst es) \<Longrightarrow> (uri, e) \<in> set es \<Longrightarrow>
    get_duration_ms (load_catalog lib es) uri = ce_duration e"
proof (induction lib es rule: load_catalog.induct)
  case (2 lib u e' es)
  show ?case
  proof (cases "(uri, e) \<in> set es")
    case True
    with "2.prems" show ?thesis by (auto intro: "2.IH")
  next
    case False
    with "2.prems" have "uri = u" "e = e'" "u \<notin> fst ` set es" by auto
    then show ?thesis by (simp add: get_duration_ms_def load_catalog_other)
  qed
qed simp

end
