(* ===== verification/Planning_Segment.thy ===== *)
theory Planning_Segment
  imports Asset_Library
begin

text \<open>
  Program segmentation, the stage of \<^verbatim>\<open>runtime/planning_pipeline.py\<close> that cuts each grid
  block's slice of an asset into content segments with breaks between them
  (\<^verbatim>\<open>segment_blocks\<close>, \<^verbatim>\<open>_segment_with_chapters\<close>, \<^verbatim>\<open>_segment_synthetic\<close>).  The lemmas show
  that a block is always filled exactly: content, breaks and trailing pad add up to the block
  length, the content segments are one gapless slice of the asset, and the blocks follow the
  slots of the resolved day one to one.
\<close>

record content_segment =
  cs_uri :: string
  cs_offset :: ms
  cs_duration :: ms

record break_spec =
  bs_index :: nat
  bs_duration :: ms

record segmented_block =
  sbk_slot_index :: nat
  sbk_slot :: resolved_slot
  sbk_segments :: "content_segment list"
  sbk_breaks :: "break_spec list"
  sbk_content_ms :: ms
  sbk_block_ms :: ms
  sbk_pad_ms :: ms
  sbk_event_id :: string
  sbk_index_in_event :: int

record break_profile =
  half_hour_block_segments :: int
  hour_block_segments :: int

definition default_break_profile :: break_profile where
  "default_break_profile = \<lparr>half_hour_block_segments = 3, hour_block_segments = 6\<rparr>"

definition get_segment_count :: "break_profile \<Rightarrow> int \<Rightarrow> int" where
  "get_segment_count p grid_block_minutes =
     (if 60 \<le> grid_block_minutes then hour_block_segments p else half_hour_block_segments p)"

definition total_content :: "content_segment list \<Rightarrow> ms" where
  "total_content segs = sum_list (map cs_duration segs)"

definition total_break :: "break_spec list \<Rightarrow> ms" where
  "total_break brks = sum_list (map bs_duration brks)"

lemma total_content_simps [simp, rv_sums]:
  "total_content [] = 0"
  "total_content (s # ss) = cs_duration s + total_content ss"
  "total_content (ss @ ts) = total_content ss + total_content ts"
  by (simp_all add: total_content_def)

lemma total_break_simps [simp, rv_sums]:
  "total_break [] = 0"
  "total_break (b # bs) = bs_duration b + total_break bs"
  by (simp_all add: total_break_def)

section \<open>Break inventory\<close>

text \<open>
  The loop both segmenters end with: the block's remaining time is divided over the gaps
  between content segments, the remainder one millisecond at a time from the front.
\<close>

definition make_breaks :: "ms \<Rightarrow> int \<Rightarrow> break_spec list" where
  "make_breaks inventory_ms num_breaks =
     (if 0 < num_breaks \<and> 0 < inventory_ms
      then map (\<lambda>i. \<lparr>bs_index = i, bs_duration = spread_front inventory_ms (nat num_breaks) i\<rparr>)
             [0..<nat num_breaks]
      else [])"

lemma total_make_breaks [simp]:
  "total_break (make_breaks inven n) = (if 0 < n \<and> 0 < inven then inven else 0)"
proof (cases "0 < n \<and> 0 < inven")
  case True
  then show ?thesis
    using sum_spread_front [of "nat n" inven] by (simp add: make_breaks_def total_break_def o_def)
qed (auto simp: make_breaks_def)

lemma make_breaks_nonneg: "b \<in> set (make_breaks inven n) \<Longrightarrow> 0 \<le> bs_duration b"
  by (auto simp: make_breaks_def spread_front_nonneg split: if_splits)

lemma make_breaks_none: "inven \<le> 0 \<Longrightarrow> make_breaks inven n = []"
  by (simp add: make_breaks_def)

lemma make_breaks_max0: "make_breaks (max 0 inven) n = make_breaks inven n"
  by (simp add: make_breaks_def max_def)

lemma length_make_breaks: "length (make_breaks inven n) = (if 0 < n \<and> 0 < inven then nat n else 0)"
  by (simp add: make_breaks_def)

section \<open>Segmentation at chapter markers\<close>

text \<open>The loop over neighbouring boundaries.\<close>

fun chapter_segments :: "string \<Rightarrow> ms \<Rightarrow> ms list \<Rightarrow> content_segment list" where
  "chapter_segments uri start_offset (start # stop # bs) =
     (if start < stop
      then \<lparr>cs_uri = uri, cs_offset = start + start_offset, cs_duration = stop - start\<rparr>
             # chapter_segments uri start_offset (stop # bs)
      else chapter_segments uri start_offset (stop # bs))"
| "chapter_segments uri start_offset _ = []"

definition segment_with_chapters ::
  "string \<Rightarrow> ms \<Rightarrow> marker_info list \<Rightarrow> ms \<Rightarrow> ms \<Rightarrow> content_segment list \<times> break_spec list" where
  "segment_with_chapters uri content_dur_ms chapter_markers block_duration_ms start_offset =
     (let boundaries = sorted_list_of_set
            (set ([0] @ map mk_offset chapter_markers @ [content_dur_ms]));
          segments = chapter_segments uri start_offset boundaries;
          inventory_ms = max 0 (block_duration_ms - total_content segments);
          num_breaks = max 0 (int (length segments) - 1)
      in (segments, make_breaks inventory_ms num_breaks))"

section \<open>Synthetic segmentation\<close>

text \<open>The loop over \<open>num_segments\<close>: equal shares, the offset accumulating.\<close>

fun synthetic_segments :: "string \<Rightarrow> ms \<Rightarrow> ms \<Rightarrow> ms list \<Rightarrow> content_segment list" where
  "synthetic_segments uri start_offset off [] = []"
| "synthetic_segments uri start_offset off (dur # durs) =
     \<lparr>cs_uri = uri, cs_offset = off + start_offset, cs_duration = dur\<rparr>
       # synthetic_segments uri start_offset (off + dur) durs"

definition segment_synthetic ::
  "string \<Rightarrow> ms \<Rightarrow> ms \<Rightarrow> int \<Rightarrow> ms \<Rightarrow> content_segment list \<times> break_spec list" where
  "segment_synthetic uri content_dur_ms block_duration_ms num_segments start_offset =
     (if block_duration_ms \<le> content_dur_ms \<or> num_segments \<le> 1
      then ([\<lparr>cs_uri = uri, cs_offset = start_offset, cs_duration = content_dur_ms\<rparr>], [])
      else let segments = synthetic_segments uri start_offset 0
                 (map (spread_front content_dur_ms (nat num_segments)) [0..<nat num_segments]);
               inventory_ms = max 0 (block_duration_ms - total_content segments);
               num_breaks = num_segments - 1
           in (segments, make_breaks inventory_ms num_breaks))"

section \<open>Blocks of a resolved day\<close>

text \<open>
  The loop that maps each block to its event: every event takes the next \<open>block_span_count\<close>
  slots, as long as there are slots.
\<close>

fun assign_event :: "string \<Rightarrow> nat \<Rightarrow> int list \<Rightarrow> nat \<Rightarrow> (nat \<times> string \<times> int) list \<times> nat" where
  "assign_event eid n_slots [] idx = ([], idx)"
| "assign_event eid n_slots (bi # bis) idx =
     (if idx < n_slots
      then (case assign_event eid n_slots bis (Suc idx) of
              (as, idx') \<Rightarrow> ((idx, eid, bi) # as, idx'))
      else assign_event eid n_slots bis idx)"

fun assign_blocks :: "program_event list \<Rightarrow> nat \<Rightarrow> nat \<Rightarrow> (nat \<times> string \<times> int) list" where
  "assign_blocks [] n_slots idx = []"
| "assign_blocks (pe # pes) n_slots idx =
     (case assign_event (pe_id pe) n_slots [0..pe_span pe - 1] idx of
        (as, idx') \<Rightarrow> as @ assign_blocks pes n_slots idx')"

definition segment_block ::
  "(string \<Rightarrow> ms) \<Rightarrow> (string \<Rightarrow> marker_info list) \<Rightarrow> int \<Rightarrow> break_profile \<Rightarrow> resolved_slot
    \<Rightarrow> nat \<times> string \<times> int \<Rightarrow> segmented_block" where
  "segment_block duration_ms markers_of grid_block_minutes profile slot = (\<lambda>(slot_idx, pe_id, bi).
     (let block_duration_ms = grid_block_minutes * 60 * 1000;
          uri = ra_path (rs_asset slot);
          full_content_dur_ms = duration_ms uri;
          chapter_markers = sort_key mk_offset (filter (\<lambda>m. mk_kind m = ''chapter'') (markers_of uri));
          event_offset_ms = bi * block_duration_ms;
          slice_end_ms = min (event_offset_ms + block_duration_ms) full_content_dur_ms;
          slice_dur_ms = max 0 (slice_end_ms - event_offset_ms);
          block_chapters = map (\<lambda>m. m\<lparr>mk_offset := mk_offset m - event_offset_ms\<rparr>)
            (filter (\<lambda>m. event_offset_ms < mk_offset m \<and> mk_offset m < slice_end_ms) chapter_markers);
          (segments, breaks) =
            (if block_chapters \<noteq> []
             then segment_with_chapters uri slice_dur_ms block_chapters block_duration_ms event_offset_ms
             else segment_synthetic uri slice_dur_ms block_duration_ms
                    (get_segment_count profile grid_block_minutes) event_offset_ms);
          pad_ms = max 0 (block_duration_ms - slice_dur_ms - total_break breaks)
      in \<lparr>sbk_slot_index = slot_idx, sbk_slot = slot, sbk_segments = segments, sbk_breaks = breaks,
          sbk_content_ms = slice_dur_ms, sbk_block_ms = block_duration_ms, sbk_pad_ms = pad_ms,
          sbk_event_id = pe_id, sbk_index_in_event = bi\<rparr>))"

definition segment_blocks ::
  "resolved_day \<Rightarrow> int \<Rightarrow> (string \<Rightarrow> ms) \<Rightarrow> (string \<Rightarrow> marker_info list) \<Rightarrow> break_profile option
    \<Rightarrow> segmented_block list" where
  "segment_blocks rd grid_block_minutes duration_ms markers_of break_profile =
     (let profile = (case break_profile of None \<Rightarrow> default_break_profile | Some p \<Rightarrow> p)
      in map (\<lambda>a. segment_block duration_ms markers_of grid_block_minutes profile (rd_slots rd ! fst a) a)
           (assign_blocks (rd_events rd) (length (rd_slots rd)) 0))"


section \<open>What segmentation guarantees\<close>

text \<open>The asset-relative interval a content segment plays.\<close>

definition cs_span :: "content_segment \<Rightarrow> ms \<times> ms" where
  "cs_span s = (cs_offset s, cs_offset s + cs_duration s)"

text \<open>
  \<open>plays uri a b segs\<close>: the segments play exactly the slice from \<open>a\<close> to \<open>b\<close> of the asset, in
  order, without gap or overlap, and none runs backwards.
\<close>

definition plays :: "string \<Rightarrow> ms \<Rightarrow> ms \<Rightarrow> content_segment list \<Rightarrow> bool" where
  "plays uri a b segs \<longleftrightarrow> segs \<noteq> [] \<and> (\<forall>s \<in> set segs. cs_uri s = uri \<and> 0 \<le> cs_duration s)
     \<and> chained (map cs_span segs) \<and> cs_offset (hd segs) = a \<and> snd (cs_span (last segs)) = b"

lemma plays_total: "plays uri a b segs \<Longrightarrow> total_content segs = b - a"
proof (induction segs arbitrary: a)
  case (Cons s segs)
  show ?case
  proof (cases segs)
    case Nil
    with Cons.prems show ?thesis by (auto simp: plays_def cs_span_def)
  next
    case (Cons s' segs')
    with Cons.prems have "plays uri (a + cs_duration s) b segs"
      by (auto simp: plays_def cs_span_def)
    then have "total_content segs = b - (a + cs_duration s)" by (rule Cons.IH)
    then show ?thesis by simp
  qed
qed (simp add: plays_def)

text \<open>The chapter loop over sorted boundaries.\<close>

lemma chapter_segments_plays:
  "sorted bs \<Longrightarrow> distinct bs \<Longrightarrow> 2 \<le> length bs \<Longrightarrow>
    plays uri (hd bs + off) (last bs + off) (chapter_segments uri off bs)
    \<and> length (chapter_segments uri off bs) = length bs - 1"
proof (induction uri off bs rule: chapter_segments.induct)
  case (1 uri off x y zs)
  then have "x < y" by auto
  show ?case
  proof (cases zs)
    case Nil
    with \<open>x < y\<close> show ?thesis by (simp add: plays_def cs_span_def)
  next
    case (Cons z zs')
    with "1.IH"(1) \<open>x < y\<close> "1.prems" show ?thesis by (auto simp: plays_def cs_span_def)
  qed
qed simp_all

lemma sorted_list_ends:
  assumes "finite A" "A \<noteq> {}"
  shows "hd (sorted_list_of_set A) = Min A" and "last (sorted_list_of_set A) = (Max A :: int)"
proof -
  let ?xs = "sorted_list_of_set A"
  have ne: "?xs \<noteq> []" and set: "set ?xs = A" and sorted: "sorted ?xs"
    using assms by simp_all
  have "hd ?xs \<in> A" "last ?xs \<in> A" using ne set hd_in_set last_in_set by metis+
  moreover have "\<forall>x \<in> A. hd ?xs \<le> x"
    using sorted ne set by (metis hd_Cons_tl list.set_cases set_ConsD sorted_simps(2) order_refl)
  moreover have "\<forall>x \<in> A. x \<le> last ?xs"
  proof
    fix x assume "x \<in> A"
    then obtain i where "i < length ?xs" "x = ?xs ! i" using set by (metis in_set_conv_nth)
    then show "x \<le> last ?xs" using sorted_nth_mono [OF sorted, of i "length ?xs - 1"] ne
      by (simp add: last_conv_nth)
  qed
  ultimately show "hd ?xs = Min A" "last ?xs = Max A"
    using assms(1) by (auto intro: Min_eqI [symmetric] Max_eqI [symmetric])
qed

lemma segment_with_chapters_correct:
  assumes inside: "\<forall>m \<in> set chs. 0 < mk_offset m \<and> mk_offset m < dur" and ne: "chs \<noteq> []"
    and res: "segment_with_chapters uri dur chs blk off = (segs, brks)"
  shows "plays uri off (dur + off) segs" and "2 \<le> length segs"
    and "brks = make_breaks (max 0 (blk - dur)) (int (length segs) - 1)"
proof -
  let ?A = "set ([0] @ map mk_offset chs @ [dur])"
  let ?bs = "sorted_list_of_set ?A"
  obtain m where m: "m \<in> set chs" using ne by (cases chs) auto
  then have mi: "0 < mk_offset m" "mk_offset m < dur" using inside by auto
  have "Min ?A = 0" by (rule Min_eqI) (use inside mi in \<open>auto intro: less_imp_le\<close>)
  moreover have "Max ?A = dur" by (rule Max_eqI) (use inside mi in \<open>auto intro: less_imp_le\<close>)
  ultimately have ends: "hd ?bs = 0" "last ?bs = dur"
    using sorted_list_ends [of ?A] by simp_all
  have "{0, mk_offset m, dur} \<subseteq> ?A" using m by auto
  then have "card {0, mk_offset m, dur} \<le> card ?A" by (intro card_mono) auto
  moreover have "card {0, mk_offset m, dur} = 3" using mi by simp
  ultimately have len: "3 \<le> length ?bs" by (simp only: length_sorted_list_of_set)
  have b: "plays uri (hd ?bs + off) (last ?bs + off) (chapter_segments uri off ?bs)
      \<and> length (chapter_segments uri off ?bs) = length ?bs - 1"
    by (rule chapter_segments_plays [OF sorted_sorted_list_of_set distinct_sorted_list_of_set])
      (rule order_trans [OF _ len], simp)
  have "segs = chapter_segments uri off ?bs
      \<and> brks = make_breaks (max 0 (blk - total_content segs)) (max 0 (int (length segs) - 1))"
    using res unfolding segment_with_chapters_def Let_def prod.inject by blast
  then have segs: "segs = chapter_segments uri off ?bs"
    and brks: "brks = make_breaks (max 0 (blk - total_content segs)) (max 0 (int (length segs) - 1))"
    by blast+
  show p: "plays uri off (dur + off) segs" using b by (simp only: segs ends add_0)
  show l: "2 \<le> length segs" using b len unfolding segs by linarith
  show "brks = make_breaks (max 0 (blk - dur)) (int (length segs) - 1)"
    using brks plays_total [OF p] l by simp
qed

lemma synthetic_plays:
  "durs \<noteq> [] \<Longrightarrow> \<forall>d \<in> set durs. 0 \<le> d \<Longrightarrow>
    plays uri (off + start) (off + start + sum_list durs) (synthetic_segments uri start off durs)"
proof (induction uri start off durs rule: synthetic_segments.induct)
  case (2 uri start off dur durs)
  then show ?case
    by (cases durs) (auto simp: plays_def cs_span_def algebra_simps)
qed simp

lemma length_synthetic_segments [simp]: "length (synthetic_segments uri start off durs) = length durs"
  by (induction uri start off durs rule: synthetic_segments.induct) auto

lemma segment_synthetic_correct:
  assumes dur: "0 \<le> dur" and res: "segment_synthetic uri dur blk n off = (segs, brks)"
  shows "plays uri off (dur + off) segs"
    and "brks = (if dur < blk \<and> 1 < n then make_breaks (blk - dur) (int (length segs) - 1) else [])"
proof -
  let ?durs = "map (spread_front dur (nat n)) [0..<nat n]"
  have *: "plays uri off (dur + off) segs \<and>
     brks = (if dur < blk \<and> 1 < n then make_breaks (blk - dur) (int (length segs) - 1) else [])"
  proof (cases "blk \<le> dur \<or> n \<le> 1")
    case True
    with res dur show ?thesis by (auto simp: segment_synthetic_def plays_def cs_span_def)
  next
    case False
    then have segs: "segs = synthetic_segments uri off 0 ?durs"
      and brks: "brks = make_breaks (max 0 (blk - total_content segs)) (n - 1)"
      using res by (auto simp: segment_synthetic_def Let_def)
    have sum: "sum_list ?durs = dur" using False by (intro sum_spread_front) auto
    have "plays uri off (off + sum_list ?durs) segs"
      using synthetic_plays [of ?durs uri 0 off] dur False
      by (auto simp: segs spread_front_nonneg)
    then have p: "plays uri off (dur + off) segs" unfolding sum by (simp add: add.commute)
    with brks False plays_total [OF p] show ?thesis by (simp add: segs)
  qed
  then show "plays uri off (dur + off) segs"
    and "brks = (if dur < blk \<and> 1 < n then make_breaks (blk - dur) (int (length segs) - 1) else [])"
    by simp_all
qed

text \<open>The result of one iteration of the block loop, for an event block starting \<open>bi\<close> blocks in.\<close>

lemma segment_block_fields [simp]:
  "sbk_slot_index (segment_block D M g p slot (i, e, bi)) = i"
  "sbk_slot (segment_block D M g p slot (i, e, bi)) = slot"
  "sbk_event_id (segment_block D M g p slot (i, e, bi)) = e"
  "sbk_index_in_event (segment_block D M g p slot (i, e, bi)) = bi"
  "sbk_block_ms (segment_block D M g p slot (i, e, bi)) = g * 60 * 1000"
  "sbk_content_ms (segment_block D M g p slot (i, e, bi)) =
    max 0 (min (bi * (g * 60 * 1000) + g * 60 * 1000) (D (ra_path (rs_asset slot))) - bi * (g * 60 * 1000))"
  unfolding segment_block_def Let_def case_prod_beta by (simp_all only: segmented_block.simps fst_conv snd_conv)

lemma segment_block_content_bounds:
  assumes "0 \<le> g"
  shows "0 \<le> sbk_content_ms (segment_block D M g p slot a)"
    and "sbk_content_ms (segment_block D M g p slot a) \<le> g * 60 * 1000"
  using assms by (cases a; simp)+

lemma segment_block_parts:
  fixes D M g p slot i e bi
  assumes g: "0 \<le> g"
  defines "b \<equiv> segment_block D M g p slot (i, e, bi)"
  shows "plays (ra_path (rs_asset slot)) (bi * (g * 60 * 1000))
           (sbk_content_ms b + bi * (g * 60 * 1000)) (sbk_segments b)"
    and "sbk_breaks b = [] \<or>
           sbk_breaks b = make_breaks (sbk_block_ms b - sbk_content_ms b) (int (length (sbk_segments b)) - 1)
           \<and> sbk_content_ms b < sbk_block_ms b \<and> 2 \<le> length (sbk_segments b)"
    and "sbk_pad_ms b = max 0 (sbk_block_ms b - sbk_content_ms b - total_break (sbk_breaks b))"
proof -
  let ?uri = "ra_path (rs_asset slot)"
  let ?blk = "g * 60 * 1000" let ?ev = "bi * ?blk"
  let ?stop = "min (?ev + ?blk) (D ?uri)" let ?dur = "max 0 (?stop - ?ev)"
  let ?chs = "map (\<lambda>m. m\<lparr>mk_offset := mk_offset m - ?ev\<rparr>)
    (filter (\<lambda>m. ?ev < mk_offset m \<and> mk_offset m < ?stop)
      (sort_key mk_offset (filter (\<lambda>m. mk_kind m = ''chapter'') (M ?uri))))"
  let ?sb = "if ?chs \<noteq> [] then segment_with_chapters ?uri ?dur ?chs ?blk ?ev
    else segment_synthetic ?uri ?dur ?blk (get_segment_count p g) ?ev"
  have content: "sbk_content_ms b = ?dur" and block: "sbk_block_ms b = ?blk"
    by (simp_all add: b_def)
  have parts: "(sbk_segments b, sbk_breaks b) = ?sb"
    unfolding b_def segment_block_def Let_def prod.case
    by (rule prod.exhaust [of ?sb]) simp
  show "sbk_pad_ms b = max 0 (sbk_block_ms b - sbk_content_ms b - total_break (sbk_breaks b))"
    unfolding b_def segment_block_def Let_def prod.case by (rule prod.exhaust [of ?sb]) simp
  have *: "plays ?uri ?ev (?dur + ?ev) (sbk_segments b) \<and>
    (sbk_breaks b = [] \<or> sbk_breaks b = make_breaks (?blk - ?dur) (int (length (sbk_segments b)) - 1)
      \<and> ?dur < ?blk \<and> 2 \<le> length (sbk_segments b))"
  proof (cases "?chs = []")
    case False
    have inside: "\<forall>m \<in> set ?chs. 0 < mk_offset m \<and> mk_offset m < ?dur" by auto
    have res: "segment_with_chapters ?uri ?dur ?chs ?blk ?ev = (sbk_segments b, sbk_breaks b)"
      using parts False by simp
    note c = segment_with_chapters_correct [OF inside False res]
    show ?thesis
    proof (cases "?blk - ?dur \<le> 0")
      case True
      from c(3) have "sbk_breaks b = []" unfolding make_breaks_max0 make_breaks_none [OF True] .
      with c(1) show ?thesis by blast
    next
      case False
      then have "?dur < ?blk" by linarith
      with c show ?thesis unfolding make_breaks_max0 by blast
    qed
  next
    case True
    then have res: "segment_synthetic ?uri ?dur ?blk (get_segment_count p g) ?ev
        = (sbk_segments b, sbk_breaks b)" using parts by simp
    note s = segment_synthetic_correct [OF _ res]
    have "make_breaks x (int (length (sbk_segments b)) - 1) = []" if "\<not> 2 \<le> length (sbk_segments b)" for x
      using that by (simp add: make_breaks_def)
    with s show ?thesis by (cases "2 \<le> length (sbk_segments b)") auto
  qed
  then show "plays ?uri ?ev (sbk_content_ms b + ?ev) (sbk_segments b)"
    and "sbk_breaks b = [] \<or>
           sbk_breaks b = make_breaks (sbk_block_ms b - sbk_content_ms b) (int (length (sbk_segments b)) - 1)
           \<and> sbk_content_ms b < sbk_block_ms b \<and> 2 \<le> length (sbk_segments b)"
    unfolding content block by auto
qed

lemma segment_block_filled:
  fixes D M g p slot i e bi
  assumes "0 \<le> g"
  defines "b \<equiv> segment_block D M g p slot (i, e, bi)"
  shows "total_content (sbk_segments b) = sbk_content_ms b"
    and "sbk_content_ms b + total_break (sbk_breaks b) + sbk_pad_ms b = sbk_block_ms b"
    and "sbk_breaks b = [] \<or> (length (sbk_breaks b) = length (sbk_segments b) - 1 \<and> sbk_pad_ms b = 0)"
    and "\<forall>k \<in> set (sbk_breaks b). 0 \<le> bs_duration k"
proof -
  note parts = segment_block_parts [OF assms(1), where D = D and M = M and p = p and slot = slot
      and i = i and e = e and bi = bi, folded b_def]
  have le: "sbk_content_ms b \<le> sbk_block_ms b" using assms(1) by (simp add: b_def)
  show "total_content (sbk_segments b) = sbk_content_ms b" using plays_total [OF parts(1)] by simp
  show "sbk_content_ms b + total_break (sbk_breaks b) + sbk_pad_ms b = sbk_block_ms b"
    using parts(2,3) le by auto
  show "sbk_breaks b = [] \<or> (length (sbk_breaks b) = length (sbk_segments b) - 1 \<and> sbk_pad_ms b = 0)"
    using parts(2,3) by (auto simp: length_make_breaks)
  show "\<forall>k \<in> set (sbk_breaks b). 0 \<le> bs_duration k"
    using parts(2) by (auto dest: make_breaks_nonneg)
qed

section \<open>Which slot a block comes from\<close>

lemma assign_event_slots:
  "assign_event eid n bis idx = (as, idx') \<Longrightarrow> idx \<le> n \<Longrightarrow>
    map fst as = [idx..<idx'] \<and> idx' = min n (idx + length bis) \<and>
    map (\<lambda>a. snd (snd a)) as = take (length as) bis \<and> (\<forall>a \<in> set as. fst (snd a) = eid)"
proof (induction eid n bis idx arbitrary: as idx' rule: assign_event.induct)
  case (2 eid n bi bis idx)
  show ?case
  proof (cases "idx < n")
    case True
    obtain as1 idx1 where r: "assign_event eid n bis (Suc idx) = (as1, idx1)" by fastforce
    with 2 True have IH: "map fst as1 = [Suc idx..<idx1]" "idx1 = min n (Suc idx + length bis)"
      "map (\<lambda>a. snd (snd a)) as1 = take (length as1) bis" "\<forall>a \<in> set as1. fst (snd a) = eid"
      by simp_all
    with 2 True r show ?thesis by (auto simp: upt_conv_Cons)
  next
    case False
    with 2 have "idx = n" by simp
    with False 2 have r: "assign_event eid n bis idx = (as, idx')" by simp
    from "2.IH"(2) [OF False r "2.prems"(2)] \<open>idx = n\<close>
    show ?thesis by auto
  qed
qed auto

lemma assign_blocks_slots:
  "idx \<le> n \<Longrightarrow>
    map fst (assign_blocks pes n idx) = [idx..<min n (idx + sum_list (map (\<lambda>pe. nat (pe_span pe)) pes))]"
proof (induction pes n idx rule: assign_blocks.induct)
  case (2 pe pes n idx)
  obtain as idx' where r: "assign_event (pe_id pe) n [0..pe_span pe - 1] idx = (as, idx')" by fastforce
  note a = assign_event_slots [OF r "2.prems"]
  then have "idx' = min n (idx + nat (pe_span pe))" "idx' \<le> n" "map fst as = [idx..<idx']" by auto
  moreover from this have "map fst (assign_blocks pes n idx') =
      [idx'..<min n (idx' + sum_list (map (\<lambda>pe. nat (pe_span pe)) pes))]"
    using "2.IH" [OF r [symmetric]] by simp
  moreover have "[idx..<b] @ [b..<c] = [idx..<c]" if "idx \<le> b" "b \<le> c" for b c :: nat
    using that by (metis le_add_diff_inverse upt_add_eq_append)
  ultimately show ?case using r "2.prems"
    by (cases "idx + nat (pe_span pe) \<le> n") (auto simp: add.assoc)
qed simp

lemma assign_blocks_index_nonneg: "a \<in> set (assign_blocks pes n idx) \<Longrightarrow> 0 \<le> snd (snd a)"
proof (induction pes n idx rule: assign_blocks.induct)
  case (2 pe pes n idx)
  have *: "a \<in> set (fst (assign_event eid n bis idx)) \<Longrightarrow> snd (snd a) \<in> set bis" for eid bis idx
    by (induction eid n bis idx rule: assign_event.induct) (auto split: prod.splits if_splits)
  obtain as idx' where r: "assign_event (pe_id pe) n [0..pe_span pe - 1] idx = (as, idx')" by fastforce
  with 2 * [of "pe_id pe" "[0..pe_span pe - 1]" idx] show ?case by auto
qed simp

lemma segment_blocks_mem:
  assumes "b \<in> set (segment_blocks rd g D M prof)"
  obtains p i e bi where "(i, e, bi) \<in> set (assign_blocks (rd_events rd) (length (rd_slots rd)) 0)"
    and "b = segment_block D M g p (rd_slots rd ! i) (i, e, bi)"
  using assms by (auto simp: segment_blocks_def Let_def)

text \<open>A day of one two-block event, for the worked examples.\<close>

definition demo_asset :: resolved_asset where
  "demo_asset = \<lparr>ra_path = ''film.mp4'', ra_asset_id = None, ra_title = ''Film'',
     ra_episode_title = None, ra_episode_id = None, ra_duration = 2500\<rparr>"

definition demo_slot :: "time_of_day \<Rightarrow> resolved_slot" where
  "demo_slot t = \<lparr>rs_time = t, rs_ref = \<lparr>ref_type = FILE, ref_id = ''film.mp4''\<rparr>,
     rs_asset = demo_asset, rs_duration = 1800, rs_label = ''film.mp4''\<rparr>"

definition demo_day :: resolved_day where
  "demo_day = \<lparr>rd_date = 20000,
     rd_slots = [demo_slot (6 * us_per_hour), demo_slot (6 * us_per_hour + 1800000000)],
     rd_timestamp = 0, rd_sequence = \<lparr>sq_positions = [], sq_as_of = None\<rparr>,
     rd_events = [\<lparr>pe_id = ''e0'', pe_program_id = ''film.mp4'', pe_episode_id = '''', pe_start_ms = 0,
       pe_duration_ms = 2500000, pe_span = 2, pe_asset = Some demo_asset\<rparr>],
     rd_plan_id = None, rd_override = False, rd_supersedes = None\<rparr>"

section \<open>Properties\<close>

text \<open>
  C23. Every block that segmentation produces is filled exactly: the content segments add up to
  the content length, and content, breaks and trailing pad together are the block length.  Breaks
  lie only between content segments, have no negative length, and leave no trailing pad.
\<close>

theorem segment_blocks_fill_exactly:
  assumes "0 \<le> g" and "b \<in> set (segment_blocks rd g D M prof)"
  shows "sbk_block_ms b = g * 60 * 1000
    \<and> total_content (sbk_segments b) = sbk_content_ms b
    \<and> sbk_content_ms b + total_break (sbk_breaks b) + sbk_pad_ms b = sbk_block_ms b
    \<and> (sbk_breaks b = [] \<or> length (sbk_breaks b) = length (sbk_segments b) - 1 \<and> sbk_pad_ms b = 0)
    \<and> (\<forall>k \<in> set (sbk_breaks b). 0 \<le> bs_duration k)"
proof -
  obtain p i e bi where b: "b = segment_block D M g p (rd_slots rd ! i) (i, e, bi)"
    using assms(2) by (rule segment_blocks_mem)
  note filled = segment_block_filled [OF assms(1), where D = D and M = M and p = p and
      slot = "rd_slots rd ! i" and i = i and e = e and bi = bi, folded b]
  have "sbk_block_ms b = g * 60 * 1000" by (simp add: b)
  with filled show ?thesis by blast
qed

theorem segment_blocks_fill_exactly_witness:
  "\<exists>b \<in> set (segment_blocks demo_day 30 (\<lambda>_. 2500000) (\<lambda>_. []) None).
     length (sbk_breaks b) = 2 \<and> sbk_content_ms b + total_break (sbk_breaks b) + sbk_pad_ms b = 1800000"
proof -
  let ?bs = "segment_blocks demo_day 30 (\<lambda>_. 2500000) (\<lambda>_. []) None"
  have m: "?bs ! 1 \<in> set ?bs" and l: "length (sbk_breaks (?bs ! 1)) = 2" by code_simp+
  show ?thesis
    by (rule bexI [OF _ m]) (use segment_blocks_fill_exactly [OF _ m] l in simp)
qed

text \<open>
  The block \<open>k\<close> blocks into its event plays, in order and without gap or overlap, exactly the
  asset from \<open>k\<close> block lengths on, up to the end of the block or of the asset, so the blocks of
  one event play consecutive slices of its asset.
\<close>

theorem segment_blocks_play_slices:
  assumes "0 \<le> g" and "b \<in> set (segment_blocks rd g D M prof)"
  shows "let uri = ra_path (rs_asset (sbk_slot b)); blk = g * 60 * 1000; start = sbk_index_in_event b * blk
    in 0 \<le> start
      \<and> plays uri start (max start (min (start + blk) (D uri))) (sbk_segments b)"
proof -
  obtain p i e bi where m: "(i, e, bi) \<in> set (assign_blocks (rd_events rd) (length (rd_slots rd)) 0)"
    and b: "b = segment_block D M g p (rd_slots rd ! i) (i, e, bi)"
    using assms(2) by (rule segment_blocks_mem)
  let ?uri = "ra_path (rs_asset (rd_slots rd ! i))" and ?ev = "bi * (g * 60 * 1000)"
  have "0 \<le> bi" using assign_blocks_index_nonneg [OF m] by simp
  then have ev: "0 \<le> ?ev" using assms(1) by simp
  have e: "max 0 (min (?ev + g * 60 * 1000) (D ?uri) - ?ev) + ?ev
      = max ?ev (min (?ev + g * 60 * 1000) (D ?uri))" by linarith
  have "plays ?uri ?ev (sbk_content_ms b + ?ev) (sbk_segments b)"
    unfolding b by (rule segment_block_parts(1) [OF assms(1)])
  moreover have "sbk_content_ms b = max 0 (min (?ev + g * 60 * 1000) (D ?uri) - ?ev)"
    "sbk_index_in_event b = bi" "sbk_slot b = rd_slots rd ! i"
    by (simp_all add: b)
  ultimately show ?thesis using ev by (simp only: e Let_def simp_thms)
qed

theorem segment_blocks_play_slices_witness:
  "plays ''film.mp4'' 1800000 2500000
     (sbk_segments (segment_blocks demo_day 30 (\<lambda>_. 2500000) (\<lambda>_. []) None ! 1))"
proof -
  let ?bs = "segment_blocks demo_day 30 (\<lambda>_. 2500000) (\<lambda>_. []) None"
  have m: "?bs ! 1 \<in> set ?bs" and l: "sbk_index_in_event (?bs ! 1) = 1"
    "ra_path (rs_asset (sbk_slot (?bs ! 1))) = ''film.mp4''" by code_simp+
  show ?thesis using segment_blocks_play_slices [OF _ m] by (simp add: Let_def l [unfolded One_nat_def])
qed

text \<open>
  Blocks follow the slots of the resolved day one to one and in order, as far as the program
  events reach: no slot is skipped or used twice, and no block lies outside the day.
\<close>

theorem segment_blocks_cover_slots:
  "map sbk_slot_index (segment_blocks rd g D M prof) =
     [0..<min (length (rd_slots rd)) (sum_list (map (\<lambda>pe. nat (pe_span pe)) (rd_events rd)))]
   \<and> map sbk_slot (segment_blocks rd g D M prof) =
     map (\<lambda>i. rd_slots rd ! i)
       [0..<min (length (rd_slots rd)) (sum_list (map (\<lambda>pe. nat (pe_span pe)) (rd_events rd)))]"
proof -
  let ?as = "assign_blocks (rd_events rd) (length (rd_slots rd)) 0"
  have fsts: "map fst ?as = [0..<min (length (rd_slots rd))
      (sum_list (map (\<lambda>pe. nat (pe_span pe)) (rd_events rd)))]"
    using assign_blocks_slots [of 0 "length (rd_slots rd)" "rd_events rd"] by simp
  have "map sbk_slot_index (segment_blocks rd g D M prof) = map fst ?as"
    by (auto simp: segment_blocks_def Let_def)
  moreover have "map sbk_slot (segment_blocks rd g D M prof) = map (\<lambda>i. rd_slots rd ! i) (map fst ?as)"
    by (auto simp: segment_blocks_def Let_def)
  ultimately show ?thesis unfolding fsts by simp
qed

end
