(* ===== verification/Planning_Fill.thy ===== *)
theory Planning_Fill
  imports Planning_Segment
begin

text \<open>
  Break filling, the stage of \<^verbatim>\<open>runtime/planning_pipeline.py\<close> that packs filler into the breaks of
  a segmented block (\<^verbatim>\<open>fill_breaks\<close>, \<^verbatim>\<open>_fill_one_break\<close>).  The packing loop need not end, so it
  is a partial function whose value \<open>None\<close> stands for not returning.  Inside the locale of asset
  libraries it is shown to end on well-formed libraries, to fit, and to leave a rest no filler
  fits; a zero-length filler makes it run forever.
\<close>

record break_fill_policy =
  bp_allow_repeat :: bool
  bp_preferred_type :: string

definition default_fill_policy :: break_fill_policy where
  "default_fill_policy = \<lparr>bp_allow_repeat = True, bp_preferred_type = ''filler''\<rparr>"

record break_item =
  bi_uri :: string
  bi_duration :: ms
  bi_type :: string

record filled_break =
  fbk_index :: nat
  fbk_allocated :: ms
  fbk_items :: "break_item list"

definition items_total :: "break_item list \<Rightarrow> ms" where
  "items_total items = sum_list (map bi_duration items)"

lemma items_total_simps [simp, rv_sums]:
  "items_total [] = 0"
  "items_total (i # is) = bi_duration i + items_total is"
  "items_total (is @ js) = items_total is + items_total js"
  by (simp_all add: items_total_def)

definition filled_ms :: "filled_break \<Rightarrow> ms" where
  "filled_ms b = items_total (fbk_items b)"

record filled_block =
  fb_slot_index :: nat
  fb_slot :: resolved_slot
  fb_segments :: "content_segment list"
  fb_breaks :: "filled_break list"
  fb_content_ms :: ms
  fb_block_ms :: ms
  fb_pad_ms :: ms
  fb_event_id :: string
  fb_index_in_event :: int

section \<open>The packing loop\<close>

text \<open>The inner \<open>for\<close>: the first filler that may be used and fits.\<close>

fun pick_filler :: "bool \<Rightarrow> string set \<Rightarrow> ms \<Rightarrow> filler_asset list \<Rightarrow> filler_asset option" where
  "pick_filler allow_repeat used remaining_ms [] = None"
| "pick_filler allow_repeat used remaining_ms (f # fs) =
     (if \<not> allow_repeat \<and> fa_uri f \<in> used then pick_filler allow_repeat used remaining_ms fs
      else if fa_duration f \<le> remaining_ms then Some f
      else pick_filler allow_repeat used remaining_ms fs)"

partial_function (option) fill_loop ::
  "(ms \<Rightarrow> nat \<Rightarrow> filler_asset list) \<Rightarrow> bool \<Rightarrow> ms \<Rightarrow> string set \<Rightarrow> break_item list
    \<Rightarrow> break_item list option" where
  "fill_loop get_fillers allow_repeat remaining_ms used items =
     (if remaining_ms \<le> 0 then Some items
      else case get_fillers remaining_ms 5 of
             [] \<Rightarrow> Some items
           | f # fs \<Rightarrow>
             (case pick_filler allow_repeat used remaining_ms (f # fs) of
                None \<Rightarrow> Some items
              | Some filler \<Rightarrow>
                fill_loop get_fillers allow_repeat (remaining_ms - fa_duration filler)
                  (insert (fa_uri filler) used)
                  (items @ [\<lparr>bi_uri = fa_uri filler, bi_duration = fa_duration filler,
                             bi_type = fa_type filler\<rparr>])))"

declare fill_loop.simps [code]

definition fill_one_break ::
  "(ms \<Rightarrow> nat \<Rightarrow> filler_asset list) \<Rightarrow> break_fill_policy \<Rightarrow> break_spec \<Rightarrow> filled_break option" where
  "fill_one_break get_fillers policy brk =
     map_option (\<lambda>items. \<lparr>fbk_index = bs_index brk, fbk_allocated = bs_duration brk, fbk_items = items\<rparr>)
       (fill_loop get_fillers (bp_allow_repeat policy) (bs_duration brk) {} [])"

text \<open>The loops over breaks and blocks: they return when every packing loop does.\<close>

fun map_opt :: "('a \<Rightarrow> 'b option) \<Rightarrow> 'a list \<Rightarrow> 'b list option" where
  "map_opt f [] = Some []"
| "map_opt f (x # xs) =
     (case f x of None \<Rightarrow> None | Some y \<Rightarrow> map_option (\<lambda>ys. y # ys) (map_opt f xs))"

definition fill_block ::
  "(ms \<Rightarrow> nat \<Rightarrow> filler_asset list) \<Rightarrow> break_fill_policy \<Rightarrow> segmented_block \<Rightarrow> filled_block option" where
  "fill_block get_fillers policy b =
     map_option (\<lambda>breaks.
       \<lparr>fb_slot_index = sbk_slot_index b, fb_slot = sbk_slot b, fb_segments = sbk_segments b,
        fb_breaks = breaks, fb_content_ms = sbk_content_ms b, fb_block_ms = sbk_block_ms b,
        fb_pad_ms = sbk_pad_ms b, fb_event_id = sbk_event_id b,
        fb_index_in_event = sbk_index_in_event b\<rparr>)
       (map_opt (fill_one_break get_fillers policy) (sbk_breaks b))"

definition fill_breaks ::
  "(ms \<Rightarrow> nat \<Rightarrow> filler_asset list) \<Rightarrow> break_fill_policy option \<Rightarrow> segmented_block list
    \<Rightarrow> filled_block list option" where
  "fill_breaks get_fillers policy blocks =
     (let policy = (case policy of None \<Rightarrow> default_fill_policy | Some p \<Rightarrow> p)
      in map_opt (fill_block get_fillers policy) blocks)"

section \<open>What every run satisfies\<close>

lemma map_opt_SomeD: "map_opt f xs = Some ys \<Longrightarrow> list_all2 (\<lambda>x y. f x = Some y) xs ys"
  by (induction xs arbitrary: ys) (auto split: option.splits)

lemma map_opt_total: "(\<And>x. x \<in> set xs \<Longrightarrow> \<exists>y. f x = Some y) \<Longrightarrow> \<exists>ys. map_opt f xs = Some ys"
proof (induction xs)
  case (Cons x xs)
  moreover from Cons.prems obtain y where "f x = Some y" by fastforce
  ultimately show ?case by auto
qed simp

lemma pick_fillerD:
  "pick_filler allow used m fs = Some f \<Longrightarrow>
    f \<in> set fs \<and> fa_duration f \<le> m \<and> (allow \<or> fa_uri f \<notin> used)"
  by (induction allow used m fs rule: pick_filler.induct) (auto split: if_splits)

lemma pick_filler_None_iff:
  "pick_filler allow used m fs = None \<longleftrightarrow>
    (\<forall>f \<in> set fs. m < fa_duration f \<or> (\<not> allow \<and> fa_uri f \<in> used))"
  by (induction allow used m fs rule: pick_filler.induct) auto

text \<open>One iteration, without the case analysis on the answer of the library.\<close>

lemma fill_loop_step:
  "fill_loop get allow m used items =
    (if m \<le> 0 then Some items
     else case pick_filler allow used m (get m 5) of
            None \<Rightarrow> Some items
          | Some f \<Rightarrow> fill_loop get allow (m - fa_duration f) (insert (fa_uri f) used)
              (items @ [\<lparr>bi_uri = fa_uri f, bi_duration = fa_duration f, bi_type = fa_type f\<rparr>]))"
  by (subst fill_loop.simps) (auto split: list.splits)

text \<open>
  Whatever the library, a run that returns appends items of total length at most the remaining
  time, drawn from answers of the library, and stops only when the time is used up or no offered
  filler can be placed.
\<close>

definition item_of :: "filler_asset \<Rightarrow> break_item" where
  "item_of f = \<lparr>bi_uri = fa_uri f, bi_duration = fa_duration f, bi_type = fa_type f\<rparr>"

lemma item_of_fields [simp]:
  "bi_uri (item_of f) = fa_uri f" "bi_duration (item_of f) = fa_duration f" "bi_type (item_of f) = fa_type f"
  by (simp_all add: item_of_def)

definition fill_outcome ::
  "(ms \<Rightarrow> nat \<Rightarrow> filler_asset list) \<Rightarrow> bool \<Rightarrow> ms \<Rightarrow> string set \<Rightarrow> break_item list \<Rightarrow> break_item list \<Rightarrow> bool" where
  "fill_outcome get allow m used items out \<longleftrightarrow>
    (\<exists>new. out = items @ new \<and> items_total new \<le> m
      \<and> (\<forall>i \<in> set new. \<exists>k. i \<in> item_of ` set (get k 5))
      \<and> (\<not> allow \<longrightarrow> distinct (map bi_uri new) \<and> bi_uri ` set new \<inter> used = {})
      \<and> (m - items_total new \<le> 0 \<or>
          pick_filler allow (used \<union> bi_uri ` set new) (m - items_total new)
            (get (m - items_total new) 5) = None))"

lemma fill_outcome_stop:
  "0 \<le> m \<Longrightarrow> m \<le> 0 \<or> pick_filler allow used m (get m 5) = None \<Longrightarrow>
    fill_outcome get allow m used items items"
  by (auto simp: fill_outcome_def)

lemma fill_outcome_step:
  assumes pick: "pick_filler allow used m (get m 5) = Some f"
    and rest: "fill_outcome get allow (m - fa_duration f) (insert (fa_uri f) used) (items @ [item_of f]) out"
  shows "fill_outcome get allow m used items out"
proof -
  obtain new where new: "out = (items @ [item_of f]) @ new" "items_total new \<le> m - fa_duration f"
      "\<forall>i \<in> set new. \<exists>k. i \<in> item_of ` set (get k 5)"
      "\<not> allow \<longrightarrow> distinct (map bi_uri new) \<and> bi_uri ` set new \<inter> insert (fa_uri f) used = {}"
      "m - fa_duration f - items_total new \<le> 0 \<or>
        pick_filler allow (insert (fa_uri f) used \<union> bi_uri ` set new) (m - fa_duration f - items_total new)
          (get (m - fa_duration f - items_total new) 5) = None"
    using rest unfolding fill_outcome_def by blast
  have f: "f \<in> set (get m 5)" "allow \<or> fa_uri f \<notin> used" using pick_fillerD [OF pick] by simp_all
  show ?thesis unfolding fill_outcome_def
    using new f by (intro exI [of _ "item_of f # new"]) (auto simp: diff_diff_eq)
qed

lemma fill_loop_result:
  assumes "fill_loop get allow m used items = Some out" "0 \<le> m"
  shows "fill_outcome get allow m used items out"
proof -
  have "0 \<le> m \<longrightarrow> fill_outcome get allow m used items out"
  proof (rule fill_loop.raw_induct [where P = "\<lambda>get allow m used items out.
      0 \<le> m \<longrightarrow> fill_outcome get allow m used items out", OF _ assms(1)], rule impI)
    fix fl get allow m used items out
    assume IH: "\<And>get allow m used items out. fl get allow m used items = Some out \<Longrightarrow>
        0 \<le> m \<longrightarrow> fill_outcome get allow m used items out"
      and step: "(if m \<le> 0 then Some items
         else case get m 5 of [] \<Rightarrow> Some items
           | f # fs \<Rightarrow> (case pick_filler allow used m (f # fs) of None \<Rightarrow> Some items
               | Some filler \<Rightarrow> fl get allow (m - fa_duration filler) (insert (fa_uri filler) used)
                   (items @ [\<lparr>bi_uri = fa_uri filler, bi_duration = fa_duration filler,
                     bi_type = fa_type filler\<rparr>]))) = Some out"
      and m: "0 \<le> m"
    show "fill_outcome get allow m used items out"
    proof (cases "m \<le> 0 \<or> pick_filler allow used m (get m 5) = None")
      case True
      then have "out = items" using step by (auto split: list.splits if_splits option.splits)
      with True m show ?thesis by (simp add: fill_outcome_stop)
    next
      case False
      then obtain f where f: "pick_filler allow used m (get m 5) = Some f" by auto
      then have "fl get allow (m - fa_duration f) (insert (fa_uri f) used) (items @ [item_of f]) = Some out"
        using step False by (auto simp: item_of_def split: list.splits)
      moreover have "0 \<le> m - fa_duration f" using pick_fillerD [OF f] by simp
      ultimately show ?thesis using IH fill_outcome_step [of allow used m get f, OF f] by blast
    qed
  qed
  with assms(2) show ?thesis by simp
qed

lemma fill_one_break_fields:
  "fill_one_break get p brk = Some fb \<Longrightarrow>
    fbk_index fb = bs_index brk \<and> fbk_allocated fb = bs_duration brk
    \<and> fill_loop get (bp_allow_repeat p) (bs_duration brk) {} [] = Some (fbk_items fb)"
  by (auto simp: fill_one_break_def)

lemma fill_block_fields:
  "fill_block get p b = Some fb \<Longrightarrow>
    fb_slot fb = sbk_slot b \<and> fb_segments fb = sbk_segments b \<and> fb_pad_ms fb = sbk_pad_ms b
    \<and> fb_block_ms fb = sbk_block_ms b \<and> fb_content_ms fb = sbk_content_ms b
    \<and> fb_slot_index fb = sbk_slot_index b \<and> fb_event_id fb = sbk_event_id b
    \<and> list_all2 (\<lambda>k fk. fill_one_break get p k = Some fk) (sbk_breaks b) (fb_breaks fb)"
  by (auto simp: fill_block_def dest: map_opt_SomeD)

lemma fill_breaks_blocks:
  assumes "fill_breaks get policy bs = Some fbs"
  obtains p where "list_all2 (\<lambda>b fb. fill_block get p b = Some fb) bs fbs"
    and "p = (case policy of None \<Rightarrow> default_fill_policy | Some p \<Rightarrow> p)"
  using assms by (auto simp: fill_breaks_def Let_def dest: map_opt_SomeD)

section \<open>Termination\<close>

text \<open>Without repeats the loop ends on any library that offers finitely many names.\<close>

lemma fill_loop_no_repeat_ends:
  assumes fin: "finite U" and offers: "\<And>k f. f \<in> set (get k 5) \<Longrightarrow> fa_uri f \<in> U"
  shows "\<exists>out. fill_loop get False m used items = Some out"
proof (induction "card (U - used)" arbitrary: m used items rule: less_induct)
  case less
  show ?case
  proof (cases "m \<le> 0 \<or> pick_filler False used m (get m 5) = None")
    case True
    then show ?thesis by (subst fill_loop_step) auto
  next
    case False
    then obtain f where f: "pick_filler False used m (get m 5) = Some f" by auto
    from pick_fillerD [OF f] offers have "fa_uri f \<in> U - used" by auto
    then have "card (U - insert (fa_uri f) used) < card (U - used)"
      using fin by (intro psubset_card_mono) auto
    from less [OF this] show ?thesis using f False by (subst fill_loop_step) simp
  qed
qed

context asset_library
begin

text \<open>On a well-formed library every iteration uses up time.\<close>

lemma loop_ends:
  assumes "lib_ok l"
  shows "\<exists>out. fill_loop (fillers l) allow m used items = Some out"
proof (induction "nat m" arbitrary: m used items rule: less_induct)
  case less
  show ?case
  proof (cases "m \<le> 0 \<or> pick_filler allow used m (fillers l m 5) = None")
    case True
    then show ?thesis by (subst fill_loop_step) auto
  next
    case False
    then obtain f where f: "pick_filler allow used m (fillers l m 5) = Some f" by auto
    have "0 < fa_duration f" using pick_fillerD [OF f] fillers_positive [OF assms] by blast
    then have "nat (m - fa_duration f) < nat m" using False by simp
    from less [OF this] show ?thesis using f False by (subst fill_loop_step) simp
  qed
qed

lemma break_ends: "lib_ok l \<Longrightarrow> \<exists>fb. fill_one_break (fillers l) p brk = Some fb"
  using loop_ends [of l "bp_allow_repeat p" "bs_duration brk" "{}" "[]"]
  by (auto simp: fill_one_break_def)

lemma block_ends: "lib_ok l \<Longrightarrow> \<exists>fb. fill_block (fillers l) p b = Some fb"
  using map_opt_total [of "sbk_breaks b" "fill_one_break (fillers l) p"] break_ends
  by (auto simp: fill_block_def)

lemma blocks_end: "lib_ok l \<Longrightarrow> \<exists>fbs. fill_breaks (fillers l) policy bs = Some fbs"
  unfolding fill_breaks_def Let_def by (rule map_opt_total) (rule block_ends)

text \<open>An answer always fits, so with repeats allowed only an empty answer stops the loop.\<close>

lemma pick_repeats: "pick_filler True used m (fillers l m c) = None \<longleftrightarrow> fillers l m c = []"
proof (cases "fillers l m c")
  case (Cons f fs)
  then have "f \<in> set (fillers l m c)" by simp
  then have "fa_duration f \<le> m" by (rule fillers_fit)
  with Cons show ?thesis by simp
qed simp

lemma break_packed:
  assumes "fill_one_break (fillers l) p brk = Some fb" "0 \<le> bs_duration brk"
  shows "filled_ms fb \<le> fbk_allocated fb"
    and "i \<in> set (fbk_items fb) \<Longrightarrow> \<exists>k. i \<in> item_of ` set (fillers l k 5)"
    and "bp_allow_repeat p \<Longrightarrow> filled_ms fb = fbk_allocated fb \<or> fillers l (fbk_allocated fb - filled_ms fb) 5 = []"
    and "\<not> bp_allow_repeat p \<Longrightarrow> distinct (map bi_uri (fbk_items fb))"
proof -
  have f: "fbk_allocated fb = bs_duration brk"
      "fill_loop (fillers l) (bp_allow_repeat p) (bs_duration brk) {} [] = Some (fbk_items fb)"
    using fill_one_break_fields [OF assms(1)] by simp_all
  have out: "items_total (fbk_items fb) \<le> bs_duration brk"
      "\<forall>i \<in> set (fbk_items fb). \<exists>k. i \<in> item_of ` set (fillers l k 5)"
      "\<not> bp_allow_repeat p \<longrightarrow> distinct (map bi_uri (fbk_items fb))"
      "bs_duration brk - items_total (fbk_items fb) \<le> 0 \<or>
        pick_filler (bp_allow_repeat p) (bi_uri ` set (fbk_items fb)) (bs_duration brk - items_total (fbk_items fb))
          (fillers l (bs_duration brk - items_total (fbk_items fb)) 5) = None"
    using fill_loop_result [OF f(2) assms(2)] by (auto simp: fill_outcome_def)
  show "filled_ms fb \<le> fbk_allocated fb" using out(1) f(1) by (simp add: filled_ms_def)
  show "i \<in> set (fbk_items fb) \<Longrightarrow> \<exists>k. i \<in> item_of ` set (fillers l k 5)" using out(2) by blast
  show "filled_ms fb = fbk_allocated fb \<or> fillers l (fbk_allocated fb - filled_ms fb) 5 = []"
    if "bp_allow_repeat p"
    using out(1,4) f(1) that by (auto simp: filled_ms_def pick_repeats)
  show "distinct (map bi_uri (fbk_items fb))" if "\<not> bp_allow_repeat p" using out(3) that by simp
qed

end

lemma no_filler_fits:
  "0 < c \<Longrightarrow> get_filler_assets lib m c = [] \<longleftrightarrow> (\<forall>f \<in> set (lib_fillers lib). m < fa_duration f)"
  by (auto simp: get_filler_assets_def filter_empty_conv not_le)

section \<open>Properties\<close>

definition demo_library :: asset_lib where
  "demo_library = register_filler (register_filler
     (register_asset empty_library ''film.mp4'' 2500000 None) ''promo.mp4'' 30000 ''promo'')
     ''long.mp4'' 120000 ''filler''"

lemma demo_library_wf: "library_wf demo_library"
  by (simp add: demo_library_def library_wf_register_filler library_wf_register_asset library_wf_empty)

text \<open>
  Filling the breaks of any list of blocks returns when every filler of the library has a
  positive length, and keeps the blocks in order with their slots, content and padding.
\<close>

theorem fill_breaks_terminates:
  assumes "library_wf lib"
  shows "\<exists>fbs. fill_breaks (get_filler_assets lib) policy blocks = Some fbs
    \<and> map fb_slot fbs = map sbk_slot blocks \<and> map fb_segments fbs = map sbk_segments blocks
    \<and> map fb_pad_ms fbs = map sbk_pad_ms blocks
    \<and> map (\<lambda>fb. map fbk_allocated (fb_breaks fb)) fbs = map (\<lambda>b. map bs_duration (sbk_breaks b)) blocks"
proof -
  obtain fbs where fbs: "fill_breaks (get_filler_assets lib) policy blocks = Some fbs"
    using mem_lib.blocks_end [OF assms] by blast
  obtain p where all: "list_all2 (\<lambda>b fb. fill_block (get_filler_assets lib) p b = Some fb) blocks fbs"
    using fbs by (rule fill_breaks_blocks)
  have brk: "list_all2 (\<lambda>k fk. fill_one_break g p k = Some fk) ks fks \<Longrightarrow>
      map fbk_allocated fks = map bs_duration ks" for g p ks fks
    by (induction rule: list_all2_induct) (auto dest: fill_one_break_fields)
  have "map fb_slot fbs = map sbk_slot blocks \<and> map fb_segments fbs = map sbk_segments blocks
    \<and> map fb_pad_ms fbs = map sbk_pad_ms blocks
    \<and> map (\<lambda>fb. map fbk_allocated (fb_breaks fb)) fbs = map (\<lambda>b. map bs_duration (sbk_breaks b)) blocks"
    using all
  proof (induction rule: list_all2_induct)
    case (Cons b bs fb fbs)
    then show ?case using fill_block_fields [OF Cons(1)] brk by auto
  qed simp
  with fbs show ?thesis by blast
qed

theorem fill_breaks_terminates_witness:
  "\<exists>fbs. fill_breaks (get_filler_assets demo_library) None
      (segment_blocks demo_day 30 (get_duration_ms demo_library) (get_markers demo_library) None) = Some fbs"
  using fill_breaks_terminates [OF demo_library_wf] by blast

text \<open>
  A filled break never exceeds its allocation and holds library fillers only.  With repeats
  allowed the packing is maximal: the time left over is shorter than every filler of the library.
  Without repeats no filler occurs twice.
\<close>

theorem fill_one_break_packs:
  assumes "fill_one_break (get_filler_assets lib) policy brk = Some fb" and "0 \<le> bs_duration brk"
  shows "filled_ms fb \<le> fbk_allocated fb \<and> fbk_allocated fb = bs_duration brk
    \<and> set (fbk_items fb) \<subseteq> item_of ` set (lib_fillers lib)
    \<and> (if bp_allow_repeat policy
       then filled_ms fb = fbk_allocated fb
         \<or> (\<forall>f \<in> set (lib_fillers lib). fbk_allocated fb - filled_ms fb < fa_duration f)
       else distinct (map bi_uri (fbk_items fb)))"
proof -
  note packed = mem_lib.break_packed [OF assms]
  have "set (fbk_items fb) \<subseteq> item_of ` set (lib_fillers lib)"
  proof
    fix i assume "i \<in> set (fbk_items fb)"
    then obtain k where "i \<in> item_of ` set (get_filler_assets lib k 5)" using packed(2) by blast
    then show "i \<in> item_of ` set (lib_fillers lib)"
      by (auto simp: get_filler_assets_def dest: in_set_takeD)
  qed
  then show ?thesis
    using packed(1,3,4) fill_one_break_fields [OF assms(1)] no_filler_fits [of 5 lib] by auto
qed

definition demo_break :: filled_break where
  "demo_break = the (fill_one_break (get_filler_assets demo_library) default_fill_policy
     \<lparr>bs_index = 0, bs_duration = 100000\<rparr>)"

lemma demo_break_run:
  "fill_one_break (get_filler_assets demo_library) default_fill_policy
     \<lparr>bs_index = 0, bs_duration = 100000\<rparr> = Some demo_break"
  using mem_lib.break_ends [OF demo_library_wf] by (auto simp: demo_break_def)

theorem fill_one_break_packs_witness:
  "filled_ms demo_break \<le> 100000 \<and> 100000 - filled_ms demo_break < 30000"
proof -
  have promo: "\<lparr>fa_uri = ''promo.mp4'', fa_duration = 30000, fa_type = ''promo''\<rparr> \<in> set (lib_fillers demo_library)"
    by code_simp
  show ?thesis using fill_one_break_packs [OF demo_break_run] promo
    by (auto simp: default_fill_policy_def)
qed

text \<open>
  A library whose first filler has length zero makes the packing loop of any break with time
  to fill run forever when repeats are allowed.
\<close>

theorem fill_one_break_zero_filler_diverges:
  assumes "lib_fillers lib = f # fs" "fa_duration f = 0" "bp_allow_repeat policy" "0 < bs_duration brk"
  shows "fill_one_break (get_filler_assets lib) policy brk = None"
proof -
  have pick: "\<exists>rest. get_filler_assets lib m 5 = f # rest" if "0 < m" for m
    using that assms(1,2) by (simp add: get_filler_assets_def)
  have False if "fill_loop (get_filler_assets lib) True m used items = Some out" "0 < m" for m used items out
  proof -
    have "get_filler_assets lib = get_filler_assets lib \<longrightarrow> True \<longrightarrow> 0 < m \<longrightarrow> False"
    proof (rule fill_loop.raw_induct [where P = "\<lambda>get allow m used items out.
        get = get_filler_assets lib \<longrightarrow> allow \<longrightarrow> 0 < m \<longrightarrow> False", OF _ that(1)], intro impI)
      fix fl get allow m used items out
      assume IH: "\<And>get allow m used items out. fl get allow m used items = Some out \<Longrightarrow>
          get = get_filler_assets lib \<longrightarrow> allow \<longrightarrow> 0 < m \<longrightarrow> False"
        and step: "(if m \<le> 0 then Some items
         else case get m 5 of [] \<Rightarrow> Some items
           | f # fs \<Rightarrow> (case pick_filler allow used m (f # fs) of None \<Rightarrow> Some items
               | Some filler \<Rightarrow> fl get allow (m - fa_duration filler) (insert (fa_uri filler) used)
                   (items @ [\<lparr>bi_uri = fa_uri filler, bi_duration = fa_duration filler,
                     bi_type = fa_type filler\<rparr>]))) = Some out"
        and c: "get = get_filler_assets lib" "allow" "0 < m"
      obtain rest where "get m 5 = f # rest" using pick c by auto
      with step c assms(2) have "fl get allow m (insert (fa_uri f) used) (items @ [item_of f]) = Some out"
        by (simp add: item_of_def)
      with IH c show False by blast
    qed
    with that(2) show False by simp
  qed
  then have "fill_loop (get_filler_assets lib) True (bs_duration brk) {} [] \<noteq> Some out" for out
    using assms(4) by blast
  then have "fill_loop (get_filler_assets lib) True (bs_duration brk) {} [] = None"
    by (cases "fill_loop (get_filler_assets lib) True (bs_duration brk) {} []") auto
  then show ?thesis using assms(3) by (simp add: fill_one_break_def)
qed

theorem fill_one_break_zero_filler_diverges_witness:
  "fill_one_break (get_filler_assets (register_filler empty_library ''bug.mp4'' 0 ''filler''))
     default_fill_policy \<lparr>bs_index = 0, bs_duration = 1\<rparr> = None"
  by (rule fill_one_break_zero_filler_diverges
      [where fs = "[]" and f = "\<lparr>fa_uri = ''bug.mp4'', fa_duration = 0, fa_type = ''filler''\<rparr>"])
    (simp_all add: register_filler_def empty_library_def default_fill_policy_def)

end
