(* ===== verification/Py_Hash.thy ===== *)
theory Py_Hash
  imports Py_Text "HOL-Library.Word"
begin

text \<open>
  \<^verbatim>\<open>hashlib.sha256\<close> on byte strings (FIPS 180-4), over 32-bit words, and the two readings of a
  digest the code takes: its hexadecimal form and the integer of its first eight bytes.  A
  character stands for one byte of the encoded string; the identifiers hashed here are ASCII.
\<close>

unbundle bit_operations_syntax

type_synonym w32 = "32 word"

definition sha_k :: "w32 list" where
  "sha_k =
   [1116352408, 1899447441, 3049323471, 3921009573, 961987163, 1508970993, 2453635748,
    2870763221, 3624381080, 310598401, 607225278, 1426881987, 1925078388, 2162078206,
    2614888103, 3248222580, 3835390401, 4022224774, 264347078, 604807628, 770255983,
    1249150122, 1555081692, 1996064986, 2554220882, 2821834349, 2952996808, 3210313671,
    3336571891, 3584528711, 113926993, 338241895, 666307205, 773529912, 1294757372, 1396182291,
    1695183700, 1986661051, 2177026350, 2456956037, 2730485921, 2820302411, 3259730800,
    3345764771, 3516065817, 3600352804, 4094571909, 275423344, 430227734, 506948616, 659060556,
    883997877, 958139571, 1322822218, 1537002063, 1747873779, 1955562222, 2024104815,
    2227730452, 2361852424, 2428436474, 2756734187, 3204031479, 3329325298]"

definition sha_h0 :: "w32 list" where
  "sha_h0 = [1779033703, 3144134277, 1013904242, 2773480762, 1359893119, 2600822924, 528734635, 1541459225]"

definition rotr :: "nat \<Rightarrow> w32 \<Rightarrow> w32" where
  "rotr n x = drop_bit n x OR push_bit (32 - n) x"

definition byte_of_char :: "char \<Rightarrow> int" where
  "byte_of_char c = of_char c"

text \<open>Padding to a multiple of 64 bytes: a one bit, zeros, and the length in bits on 64 bits.\<close>

definition be_bytes :: "nat \<Rightarrow> int \<Rightarrow> int list" where
  "be_bytes n v = map (\<lambda>i. v div 256 ^ (n - 1 - i) mod 256) [0..<n]"

definition sha_pad :: "int list \<Rightarrow> int list" where
  "sha_pad bs = bs @ [128] @ replicate ((119 - length bs mod 64) mod 64) 0 @ be_bytes 8 (8 * int (length bs))"

fun words_of_bytes :: "int list \<Rightarrow> w32 list" where
  "words_of_bytes (a # b # c # d # bs) =
     of_int (((a * 256 + b) * 256 + c) * 256 + d) # words_of_bytes bs"
| "words_of_bytes _ = []"

text \<open>The message schedule, newest word first.\<close>

fun sha_schedule :: "nat \<Rightarrow> w32 list \<Rightarrow> w32 list" where
  "sha_schedule 0 ws = rev ws"
| "sha_schedule (Suc n) ws =
     (let x = ws ! 14; y = ws ! 1;
          s0 = rotr 7 x XOR rotr 18 x XOR drop_bit 3 x;
          s1 = rotr 17 y XOR rotr 19 y XOR drop_bit 10 y
      in sha_schedule n ((ws ! 15 + s0 + ws ! 6 + s1) # ws))"

type_synonym sha_state = "w32 \<times> w32 \<times> w32 \<times> w32 \<times> w32 \<times> w32 \<times> w32 \<times> w32"

fun sha_round :: "sha_state \<Rightarrow> w32 \<times> w32 \<Rightarrow> sha_state" where
  "sha_round (a, b, c, d, e, f, g, h) (k, w) =
     (let s1 = rotr 6 e XOR rotr 11 e XOR rotr 25 e;
          ch = (e AND f) XOR (NOT e AND g);
          t1 = h + s1 + ch + k + w;
          s0 = rotr 2 a XOR rotr 13 a XOR rotr 22 a;
          maj = (a AND b) XOR (a AND c) XOR (b AND c);
          t2 = s0 + maj
      in (t1 + t2, a, b, c, d + t1, e, f, g))"

fun state_words :: "sha_state \<Rightarrow> w32 list" where
  "state_words (a, b, c, d, e, f, g, h) = [a, b, c, d, e, f, g, h]"

fun words_state :: "w32 list \<Rightarrow> sha_state" where
  "words_state [a, b, c, d, e, f, g, h] = (a, b, c, d, e, f, g, h)"
| "words_state _ = (0, 0, 0, 0, 0, 0, 0, 0)"

definition sha_block :: "w32 list \<Rightarrow> w32 list \<Rightarrow> w32 list" where
  "sha_block hs ws =
     map2 (+) hs (state_words (foldl sha_round (words_state hs)
       (zip sha_k (sha_schedule 48 (rev ws)))))"

text \<open>The blocks in turn; the number of blocks bounds the recursion.\<close>

fun sha_blocks :: "nat \<Rightarrow> w32 list \<Rightarrow> w32 list \<Rightarrow> w32 list" where
  "sha_blocks 0 hs ws = hs"
| "sha_blocks (Suc n) hs ws = sha_blocks n (sha_block hs (take 16 ws)) (drop 16 ws)"

definition sha256 :: "string \<Rightarrow> w32 list" where
  "sha256 s = (let ws = words_of_bytes (sha_pad (map byte_of_char s))
     in sha_blocks (length ws div 16) sha_h0 ws)"

definition hex_digit :: "int \<Rightarrow> char" where
  "hex_digit d = (if d < 10 then char_of (48 + d) else char_of (87 + d))"

definition hex_word :: "w32 \<Rightarrow> string" where
  "hex_word w = map (\<lambda>i. hex_digit (uint (drop_bit (28 - 4 * i) w AND 15))) [0..<8]"

definition sha256_hexdigest :: "string \<Rightarrow> string" where
  "sha256_hexdigest s = concat (map hex_word (sha256 s))"

text \<open>\<open>int.from_bytes(digest[:8], byteorder='big')\<close>.\<close>

definition sha256_int8 :: "string \<Rightarrow> int" where
  "sha256_int8 s = (let h = sha256 s in uint (h ! 0) * 2 ^ 32 + uint (h ! 1))"

lemma sha256_int8_nonneg: "0 \<le> sha256_int8 s"
  by (simp add: sha256_int8_def Let_def)

lemma length_sha_block: "length hs = 8 \<Longrightarrow> length (sha_block hs ws) = 8"
proof -
  have "length (state_words st) = 8" for st by (rule state_words.cases [of st]) simp
  then show "length hs = 8 \<Longrightarrow> ?thesis" by (simp add: sha_block_def)
qed

lemma length_sha_blocks: "length hs = 8 \<Longrightarrow> length (sha_blocks n hs ws) = 8"
  by (induction n arbitrary: hs ws) (simp_all add: length_sha_block)

lemma length_sha256_hexdigest: "length (sha256_hexdigest s) = 64"
proof -
  have l: "length (sha256 s) = 8" by (simp add: sha256_def Let_def length_sha_blocks sha_h0_def)
  have "length (concat (map hex_word xs)) = 8 * length xs" for xs
    by (induction xs) (simp_all add: hex_word_def)
  then show ?thesis by (simp add: sha256_hexdigest_def l)
qed

end
