(* ===== verification/Planning_Assemble.thy ===== *)
theory Planning_Assemble
  imports Planning_Fill Py_Hash
begin

text \<open>
  The transmission log of \<^verbatim>\<open>runtime/planning_pipeline.py\<close>: filled blocks are flattened into
  segment lists (\<^verbatim>\<open>_interleave_segments\<close>), placed on the wall clock
  (\<^verbatim>\<open>assemble_transmission_log\<close>, \<^verbatim>\<open>_slot_time_to_datetime\<close>) and locked once the validators of
  \<^verbatim>\<open>runtime/transmission_log_validator.py\<close> accept them (\<^verbatim>\<open>lock_transmission_log\<close>).  The lemmas
  give the exact length of a flattened block, the uniqueness of identifiers, and show that the
  validators accept exactly the gapless chains of grid blocks.
\<close>

record log_segment =
  ls_index :: "nat option"
  ls_uri :: "string option"
  ls_offset :: "ms option"
  ls_duration :: ms
  ls_type :: string
  ls_event_id :: "string option"

record log_entry =
  le_block_id :: string
  le_index :: nat
  le_start :: ms
  le_end :: ms
  le_segments :: "log_segment list"

text \<open>The keys of \<open>metadata\<close> that the pipeline writes.\<close>

record log_metadata =
  md_generation_time :: "string option"
  md_grid_minutes :: "int option"
  md_start_hour :: "int option"
  md_locked_at :: "string option"
  md_log_id :: "string option"

record transmission_log =
  tl_channel :: string
  tl_date :: date
  tl_entries :: "log_entry list"
  tl_locked :: bool
  tl_metadata :: log_metadata

section \<open>Flattening a block\<close>

definition log_total :: "log_segment list \<Rightarrow> ms" where
  "log_total segs = sum_list (map ls_duration segs)"

lemma log_total_simps [simp, rv_sums]:
  "log_total [] = 0"
  "log_total (s # ss) = ls_duration s + log_total ss"
  "log_total (ss @ ts) = log_total ss + log_total ts"
  by (simp_all add: log_total_def)

text \<open>\<open>for r in range(extra_ms): pad_sizes[num_items - 1 - r] += 1\<close>.\<close>

fun add_extras :: "nat \<Rightarrow> nat list \<Rightarrow> ms list \<Rightarrow> ms list" where
  "add_extras num_items [] pad_sizes = pad_sizes"
| "add_extras num_items (r # rs) pad_sizes =
     add_extras num_items rs
       (pad_sizes[num_items - 1 - r := pad_sizes ! (num_items - 1 - r) + 1])"

definition break_pad_sizes :: "filled_break \<Rightarrow> ms list" where
  "break_pad_sizes b =
     (let num_items = length (fbk_items b);
          break_gap_ms = fbk_allocated b - filled_ms b
      in if 0 < num_items \<and> 0 < break_gap_ms
         then (let base_pad_ms = break_gap_ms div int num_items;
                   extra_ms = break_gap_ms mod int num_items
               in add_extras num_items [0..<nat extra_ms] (replicate num_items base_pad_ms))
         else replicate (max num_items 1) 0)"

definition content_log_segment :: "nat \<Rightarrow> content_segment \<Rightarrow> log_segment" where
  "content_log_segment seg_index cs =
     \<lparr>ls_index = Some seg_index, ls_uri = Some (cs_uri cs), ls_offset = Some (cs_offset cs),
      ls_duration = cs_duration cs, ls_type = ''episode'', ls_event_id = None\<rparr>"

definition item_log_segment :: "nat \<Rightarrow> break_item \<Rightarrow> log_segment" where
  "item_log_segment seg_index item =
     \<lparr>ls_index = Some seg_index, ls_uri = Some (bi_uri item), ls_offset = Some 0,
      ls_duration = bi_duration item,
      ls_type = (if bi_type item \<in> {''filler'', ''promo'', ''ad''} then bi_type item else ''filler''),
      ls_event_id = None\<rparr>"

definition pad_log_segment :: "nat \<Rightarrow> ms \<Rightarrow> log_segment" where
  "pad_log_segment seg_index dur =
     \<lparr>ls_index = Some seg_index, ls_uri = None, ls_offset = None, ls_duration = dur, ls_type = ''pad'',
      ls_event_id = None\<rparr>"

lemma log_segment_fields [simp]:
  "ls_duration (content_log_segment n cs) = cs_duration cs" "ls_index (content_log_segment n cs) = Some n"
  "ls_duration (item_log_segment n i) = bi_duration i" "ls_index (item_log_segment n i) = Some n"
  "ls_duration (pad_log_segment n d) = d" "ls_index (pad_log_segment n d) = Some n"
  "ls_type (pad_log_segment n d) = ''pad''" "ls_type (content_log_segment n cs) = ''episode''"
  by (simp_all add: content_log_segment_def item_log_segment_def pad_log_segment_def)

text \<open>The loop over the items of a break, each followed by its share of the gap.\<close>

fun interleave_items :: "nat \<Rightarrow> break_item list \<Rightarrow> ms list \<Rightarrow> log_segment list" where
  "interleave_items seg_index (item # items) (pad # pads) =
     item_log_segment seg_index item
     # (if 0 < pad
        then pad_log_segment (seg_index + 1) pad # interleave_items (seg_index + 2) items pads
        else interleave_items (seg_index + 1) items pads)"
| "interleave_items seg_index _ _ = []"

text \<open>The loop over content segments; a break follows each but the last, while there are breaks.\<close>

fun interleave_loop :: "nat \<Rightarrow> content_segment list \<Rightarrow> filled_break list \<Rightarrow> log_segment list" where
  "interleave_loop seg_index [] breaks = []"
| "interleave_loop seg_index (cs # css) breaks =
     content_log_segment seg_index cs #
     (case breaks of
        [] \<Rightarrow> interleave_loop (seg_index + 1) css []
      | b # bs \<Rightarrow>
        if css \<noteq> []
        then (let items = interleave_items (seg_index + 1) (fbk_items b) (break_pad_sizes b)
              in items @ interleave_loop (seg_index + 1 + length items) css bs)
        else interleave_loop (seg_index + 1) css breaks)"

definition interleave_segments :: "filled_block \<Rightarrow> log_segment list" where
  "interleave_segments fb =
     (let flat = interleave_loop 0 (fb_segments fb) (fb_breaks fb)
      in if 0 < fb_pad_ms fb then flat @ [pad_log_segment (length flat) (fb_pad_ms fb)] else flat)"

section \<open>Placing blocks on the wall clock\<close>

definition slot_time_to_datetime :: "date \<Rightarrow> time_of_day \<Rightarrow> int \<Rightarrow> datetime" where
  "slot_time_to_datetime d t start_hour =
     combine d t + (if hour_of t < start_hour then us_per_day else 0)"

definition block_id_of :: "string \<Rightarrow> date \<Rightarrow> nat \<Rightarrow> string" where
  "block_id_of channel_id d block_idx =
     channel_id @ ''-'' @ iso_date d @ ''-'' @ zero_pad 4 block_idx"

definition event_id_of :: "string \<Rightarrow> nat \<Rightarrow> string" where
  "event_id_of block_id seg_index = block_id @ ''-S'' @ zero_pad 4 seg_index"

definition assemble_entry :: "string \<Rightarrow> date \<Rightarrow> int \<Rightarrow> nat \<Rightarrow> filled_block \<Rightarrow> log_entry" where
  "assemble_entry channel_id d start_hour block_idx fb =
     (let block_start_ms = to_epoch_ms (slot_time_to_datetime d (rs_time (fb_slot fb)) start_hour);
          block_id = block_id_of channel_id d block_idx
      in \<lparr>le_block_id = block_id, le_index = block_idx, le_start = block_start_ms,
          le_end = block_start_ms + fb_block_ms fb,
          le_segments = map (\<lambda>s. s\<lparr>ls_event_id := Some (event_id_of block_id (the (ls_index s)))\<rparr>)
            (interleave_segments fb)\<rparr>)"

definition assemble_transmission_log ::
  "string \<Rightarrow> date \<Rightarrow> filled_block list \<Rightarrow> int \<Rightarrow> int \<Rightarrow> datetime \<Rightarrow> transmission_log" where
  "assemble_transmission_log channel_id d filled start_hour grid_block_minutes generation_time =
     \<lparr>tl_channel = channel_id, tl_date = d,
      tl_entries = map (\<lambda>(i, fb). assemble_entry channel_id d start_hour i fb) (enumerate 0 filled),
      tl_locked = False,
      tl_metadata = \<lparr>md_generation_time = Some (iso_datetime generation_time),
        md_grid_minutes = Some grid_block_minutes, md_start_hour = Some start_hour,
        md_locked_at = None, md_log_id = None\<rparr>\<rparr>"

section \<open>Validation and locking\<close>

fun validate_seams :: "ms \<Rightarrow> log_entry list \<Rightarrow> unit res" where
  "validate_seams expected_dur [] = Inr ()"
| "validate_seams expected_dur (e # es) =
     (if le_end e \<le> le_start e then Inl (TransmissionLogSeamError ''INV-TL-SEAM-004'')
      else if le_end e - le_start e \<noteq> expected_dur
      then Inl (TransmissionLogSeamError ''INV-TL-SEAM-002'')
      else (case es of
              [] \<Rightarrow> validate_seams expected_dur es
            | e' # _ \<Rightarrow>
              if le_end e \<noteq> le_start e' then Inl (TransmissionLogSeamError ''INV-TL-SEAM-001'')
              else if le_start e' \<le> le_start e then Inl (TransmissionLogSeamError ''INV-TL-SEAM-003'')
              else validate_seams expected_dur es))"

definition validate_transmission_log_seams :: "transmission_log \<Rightarrow> int \<Rightarrow> unit res" where
  "validate_transmission_log_seams tlog grid_block_minutes =
     validate_seams (grid_block_minutes * 60 * 1000) (tl_entries tlog)"

definition check_entry_aligned :: "ms \<Rightarrow> log_entry \<Rightarrow> unit res" where
  "check_entry_aligned grid_ms e =
     for_check (\<lambda>v. if grid_ms = 0 then Inl ZeroDivisionError
       else if v mod grid_ms \<noteq> 0 then Inl (ValueError ''INV-TRANSMISSIONLOG-GRID-ALIGNMENT-001'')
       else Inr ()) [le_start e, le_end e]"

definition validate_transmission_log_grid_alignment :: "transmission_log \<Rightarrow> int \<Rightarrow> unit res" where
  "validate_transmission_log_grid_alignment tlog grid_block_minutes =
     for_check (check_entry_aligned (grid_block_minutes * 60 * 1000)) (tl_entries tlog)"

definition lock_transmission_log :: "transmission_log \<Rightarrow> datetime \<Rightarrow> transmission_log res" where
  "lock_transmission_log tlog lock_time =
     (case md_grid_minutes (tl_metadata tlog) of
        None \<Rightarrow> Inl (TransmissionLogSeamError ''lock_transmission_log'')
      | Some grid_min \<Rightarrow>
        bind_res (validate_transmission_log_seams tlog grid_min) (\<lambda>_.
          let seed = tl_channel tlog @ '':'' @ iso_date (tl_date tlog) @ '':'' @ iso_datetime lock_time
          in Inr (tlog\<lparr>tl_locked := True,
               tl_metadata := (tl_metadata tlog)\<lparr>md_locked_at := Some (iso_datetime lock_time),
                 md_log_id := Some (take 32 (sha256_hexdigest seed))\<rparr>\<rparr>)))"

section \<open>The length of a flattened block\<close>

lemma add_extras_length [simp]: "length (add_extras n rs pads) = length pads"
  by (induction n rs pads rule: add_extras.induct) auto

lemma sum_list_incr:
  "i < length xs \<Longrightarrow> sum_list (xs[i := xs ! i + 1]) = sum_list xs + (1::int)"
proof (induction xs arbitrary: i)
  case (Cons x xs)
  then show ?case by (cases i) auto
qed simp

lemma add_extras_sum:
  "length pads = n \<Longrightarrow> \<forall>r \<in> set rs. r < n \<Longrightarrow>
    sum_list (add_extras n rs pads) = sum_list pads + int (length rs)"
  by (induction n rs pads rule: add_extras.induct) (auto simp: sum_list_incr)

lemma add_extras_nonneg:
  "length pads = n \<Longrightarrow> \<forall>r \<in> set rs. r < n \<Longrightarrow> \<forall>p \<in> set pads. 0 \<le> p \<Longrightarrow>
    \<forall>p \<in> set (add_extras n rs pads). 0 \<le> p"
proof (induction n rs pads rule: add_extras.induct)
  case (2 n r rs pads)
  let ?pads = "pads[n - 1 - r := pads ! (n - 1 - r) + 1]"
  have "\<forall>p \<in> set ?pads. 0 \<le> p"
  proof
    fix p assume "p \<in> set ?pads"
    then have "p \<in> insert (pads ! (n - 1 - r) + 1) (set pads)" using set_update_subset_insert by fast
    moreover have "0 \<le> pads ! (n - 1 - r)" using "2.prems" by simp
    ultimately show "0 \<le> p" using "2.prems"(3) by auto
  qed
  with "2.IH" "2.prems" show ?case by simp
qed simp

lemma break_pad_sizes_length: "fbk_items b \<noteq> [] \<Longrightarrow> length (break_pad_sizes b) = length (fbk_items b)"
  by (simp add: break_pad_sizes_def Let_def Suc_leI)

lemma spread_back_sum:
  assumes "0 < n" "0 < gap"
  shows "sum_list (add_extras n [0..<nat (gap mod int n)] (replicate n (gap div int n))) = gap"
    and "\<forall>p \<in> set (add_extras n [0..<nat (gap mod int n)] (replicate n (gap div int n))). 0 \<le> p"
proof -
  define m where "m = gap mod int n"
  have m: "m < int n" "0 \<le> m" using assms(1) by (simp_all add: m_def)
  have small: "\<forall>r \<in> set [0..<nat m]. r < n" using m(1) by auto
  have q: "0 \<le> gap div int n" using assms by (simp add: pos_imp_zdiv_nonneg_iff)
  have "int n * (gap div int n) + m = gap" by (simp add: m_def)
  then show "sum_list (add_extras n [0..<nat (gap mod int n)] (replicate n (gap div int n))) = gap"
    using add_extras_sum [OF length_replicate small] m(2) by (simp add: sum_list_replicate flip: m_def)
  show "\<forall>p \<in> set (add_extras n [0..<nat (gap mod int n)] (replicate n (gap div int n))). 0 \<le> p"
    unfolding m_def [symmetric] by (rule add_extras_nonneg [OF length_replicate small]) (simp add: q)
qed

lemma break_pad_sizes_sum:
  assumes "fbk_items b \<noteq> []" "filled_ms b \<le> fbk_allocated b"
  shows "sum_list (break_pad_sizes b) = fbk_allocated b - filled_ms b"
    and "\<forall>p \<in> set (break_pad_sizes b). 0 \<le> p"
  using assms spread_back_sum [of "length (fbk_items b)" "fbk_allocated b - filled_ms b"]
  by (auto simp: break_pad_sizes_def Let_def sum_list_replicate)

lemma interleave_items_total:
  "length items = length pads \<Longrightarrow> \<forall>p \<in> set pads. 0 \<le> p \<Longrightarrow>
    log_total (interleave_items n items pads) = items_total items + sum_list pads"
  by (induction n items pads rule: interleave_items.induct) auto

lemma interleave_items_break_total:
  assumes "filled_ms b \<le> fbk_allocated b"
  shows "log_total (interleave_items n (fbk_items b) (break_pad_sizes b)) =
    (if fbk_items b = [] then 0 else fbk_allocated b)"
proof (cases "fbk_items b = []")
  case False
  then have "log_total (interleave_items n (fbk_items b) (break_pad_sizes b)) =
      items_total (fbk_items b) + (fbk_allocated b - filled_ms b)"
    using break_pad_sizes_sum [OF False assms] break_pad_sizes_length
    by (simp add: interleave_items_total)
  with False show ?thesis by (simp add: filled_ms_def)
qed simp

text \<open>The time the breaks with at least one item account for.\<close>

definition filled_break_time :: "filled_break list \<Rightarrow> ms" where
  "filled_break_time bs = sum_list (map fbk_allocated (filter (\<lambda>b. fbk_items b \<noteq> []) bs))"

lemma filled_break_time_simps [simp]:
  "filled_break_time [] = 0"
  "filled_break_time (b # bs) = (if fbk_items b = [] then 0 else fbk_allocated b) + filled_break_time bs"
  by (simp_all add: filled_break_time_def)

lemma interleave_loop_total:
  "\<forall>b \<in> set bs. filled_ms b \<le> fbk_allocated b \<Longrightarrow>
    log_total (interleave_loop n css bs) =
      total_content css + filled_break_time (take (length css - 1) bs)"
proof (induction n css bs rule: interleave_loop.induct)
  case (2 n cs css bs)
  show ?case
  proof (cases bs)
    case Nil
    then show ?thesis using "2.IH"(1) [OF Nil] by simp
  next
    case (Cons b bs')
    show ?thesis
    proof (cases css)
      case Nil
      with Cons show ?thesis by simp
    next
      case (Cons c css')
      with \<open>bs = b # bs'\<close> "2.prems" show ?thesis
        using "2.IH"(2) [OF \<open>bs = b # bs'\<close> _ refl] interleave_items_break_total [of b]
        by (simp add: Let_def)
    qed
  qed
qed simp

lemma interleave_segments_total:
  assumes "\<forall>b \<in> set (fb_breaks fb). filled_ms b \<le> fbk_allocated b"
  shows "log_total (interleave_segments fb) = total_content (fb_segments fb)
     + filled_break_time (take (length (fb_segments fb) - 1) (fb_breaks fb)) + max 0 (fb_pad_ms fb)"
  using interleave_loop_total [OF assms, of 0 "fb_segments fb"]
  by (simp add: interleave_segments_def Let_def)

text \<open>Segments are numbered from zero without gaps.\<close>

definition numbered :: "nat \<Rightarrow> log_segment list \<Rightarrow> bool" where
  "numbered n segs \<longleftrightarrow> (\<forall>i < length segs. ls_index (segs ! i) = Some (n + i))"

lemma numbered_simps [simp]:
  "numbered n []"
  "numbered n (s # ss) \<longleftrightarrow> ls_index s = Some n \<and> numbered (Suc n) ss"
  by (auto simp: numbered_def All_less_Suc2)

lemma numbered_append [simp]:
  "numbered n (xs @ ys) \<longleftrightarrow> numbered n xs \<and> numbered (n + length xs) ys"
  by (induction xs arbitrary: n) auto

lemma interleave_items_numbered: "numbered n (interleave_items n items pads)"
  by (induction n items pads rule: interleave_items.induct) auto

lemma interleave_loop_numbered: "numbered n (interleave_loop n css bs)"
proof (induction n css bs rule: interleave_loop.induct)
  case (2 n cs css bs)
  then show ?case
    using interleave_items_numbered [of "n + 1"] by (auto simp: Let_def split: list.split)
qed simp

lemma interleave_segments_numbered: "numbered 0 (interleave_segments fb)"
  using interleave_loop_numbered [of 0 "fb_segments fb" "fb_breaks fb"]
  by (simp add: interleave_segments_def Let_def)

section \<open>Identifiers\<close>

lemma block_id_inj: "block_id_of c d i = block_id_of c d j \<longleftrightarrow> i = j"
  by (simp add: block_id_of_def zero_pad_inj)

lemma append_sep_eq:
  "c \<notin> set xs \<Longrightarrow> c \<notin> set ys \<Longrightarrow> xs @ c # us = ys @ c # vs \<longleftrightarrow> xs = ys \<and> us = vs"
proof (induction xs arbitrary: ys)
  case Nil
  then show ?case by (cases ys) auto
next
  case (Cons x xs)
  then show ?case by (cases ys) auto
qed

lemma event_id_inj:
  "event_id_of (block_id_of c d i) m = event_id_of (block_id_of c d j) n \<longleftrightarrow> i = j \<and> m = n"
proof -
  have "zero_pad 4 i @ ''-S'' @ zero_pad 4 m = zero_pad 4 j @ ''-S'' @ zero_pad 4 n \<longleftrightarrow> i = j \<and> m = n"
    using zero_pad_no_dash [of 4 i] zero_pad_no_dash [of 4 j]
    by (simp add: append_sep_eq zero_pad_inj)
  then show ?thesis by (simp add: event_id_of_def block_id_of_def)
qed

lemma assemble_entry_fields [simp]:
  "le_block_id (assemble_entry c d h i fb) = block_id_of c d i"
  "le_index (assemble_entry c d h i fb) = i"
  "le_start (assemble_entry c d h i fb) = to_epoch_ms (slot_time_to_datetime d (rs_time (fb_slot fb)) h)"
  "le_end (assemble_entry c d h i fb) =
    to_epoch_ms (slot_time_to_datetime d (rs_time (fb_slot fb)) h) + fb_block_ms fb"
  by (simp_all add: assemble_entry_def Let_def)

lemma assemble_entry_event_ids:
  "map ls_event_id (le_segments (assemble_entry c d h i fb)) =
    map (\<lambda>n. Some (event_id_of (block_id_of c d i) n)) [0..<length (interleave_segments fb)]"
  using interleave_segments_numbered [of fb]
  by (intro nth_equalityI) (auto simp: assemble_entry_def Let_def numbered_def)

lemma assemble_entries_nth:
  "tl_entries (assemble_transmission_log c d fbs h g t) =
    map (\<lambda>i. assemble_entry c d h i (fbs ! i)) [0..<length fbs]"
  by (intro nth_equalityI) (simp_all add: assemble_transmission_log_def nth_enumerate_eq)

section \<open>Validation\<close>

definition entry_span :: "log_entry \<Rightarrow> ms \<times> ms" where
  "entry_span e = (le_start e, le_end e)"

lemma validate_seams_iff:
  "validate_seams dur es = Inr () \<longleftrightarrow>
    (\<forall>e \<in> set es. le_start e < le_end e \<and> le_end e - le_start e = dur)
    \<and> chained (map entry_span es)"
proof (induction dur es rule: validate_seams.induct)
  case (2 dur e es)
  show ?case
  proof (cases es)
    case Nil
    then show ?thesis by (auto simp: entry_span_def)
  next
    case (Cons e' es')
    then show ?thesis using 2 by (auto simp: entry_span_def)
  qed
qed simp

lemma check_entry_aligned_iff:
  "check_entry_aligned g e = Inr () \<longleftrightarrow> g \<noteq> 0 \<and> g dvd le_start e \<and> g dvd le_end e"
  by (auto simp: check_entry_aligned_def for_check_ok_iff mod_eq_0_iff_dvd split: if_splits)

lemma chained_entries_span:
  "chained (map entry_span es) \<Longrightarrow> \<forall>e \<in> set es. le_end e - le_start e = dur \<Longrightarrow> es \<noteq> [] \<Longrightarrow>
    le_end (last es) = le_start (hd es) + int (length es) * dur"
proof (induction es)
  case (Cons e es)
  show ?case
  proof (cases es)
    case Nil
    with Cons.prems show ?thesis by simp
  next
    case (Cons e' es')
    with Cons.IH Cons.prems have "le_end (last es) = le_start e' + int (length es) * dur"
      "le_end e = le_start e'" "le_end e - le_start e = dur"
      by (simp_all add: entry_span_def)
    then show ?thesis using Cons by (simp add: algebra_simps)
  qed
qed simp

lemma chained_entries_start:
  "chained (map entry_span es) \<Longrightarrow> \<forall>e \<in> set es. le_end e - le_start e = dur \<Longrightarrow> i < length es \<Longrightarrow>
    le_start (es ! i) = le_start (hd es) + int i * dur"
proof (induction i)
  case 0
  then show ?case by (cases es) auto
next
  case (Suc i)
  then have "le_end (es ! i) = le_start (es ! Suc i)"
    by (simp add: chained_nth entry_span_def)
  moreover have "le_end (es ! i) - le_start (es ! i) = dur" using Suc.prems by simp
  moreover have "le_start (es ! i) = le_start (hd es) + int i * dur" using Suc by simp
  ultimately show ?case by (simp add: algebra_simps)
qed

section \<open>Breaks of a filled block\<close>

lemma fill_one_break_fits:
  assumes "fill_one_break get p brk = Some fb" "0 \<le> bs_duration brk"
  shows "filled_ms fb \<le> fbk_allocated fb"
proof -
  note f = fill_one_break_fields [OF assms(1)]
  then have "fill_loop get (bp_allow_repeat p) (bs_duration brk) {} [] = Some (fbk_items fb)" by simp
  from fill_loop_result [OF this assms(2)] f show ?thesis
    by (auto simp: filled_ms_def fill_outcome_def)
qed

definition empty_break_time :: "filled_break list \<Rightarrow> ms" where
  "empty_break_time bs = sum_list (map fbk_allocated (filter (\<lambda>b. fbk_items b = []) bs))"

lemma filled_empty_break_time:
  "filled_break_time bs + empty_break_time bs = sum_list (map fbk_allocated bs)"
  by (induction bs) (auto simp: empty_break_time_def)

lemma filled_breaks_allocated:
  "list_all2 (\<lambda>k fk. fill_one_break get p k = Some fk) ks fks \<Longrightarrow>
    sum_list (map fbk_allocated fks) = total_break ks \<and> length fks = length ks"
  by (induction rule: list_all2_induct) (auto dest: fill_one_break_fields)

lemma filled_breaks_fit:
  "list_all2 (\<lambda>k fk. fill_one_break get p k = Some fk) ks fks \<Longrightarrow>
    \<forall>k \<in> set ks. 0 \<le> bs_duration k \<Longrightarrow> \<forall>fk \<in> set fks. filled_ms fk \<le> fbk_allocated fk"
  by (induction rule: list_all2_induct) (auto intro: fill_one_break_fits)

lemma interleave_filled_block:
  assumes g: "0 \<le> g" and b: "b = segment_block D M g q slot (i, e, bi)"
    and fb: "fill_block get p b = Some fb"
  shows "log_total (interleave_segments fb) = fb_block_ms fb - empty_break_time (fb_breaks fb)"
proof -
  note f = fill_block_fields [OF fb]
  note s = segment_block_filled [OF g, where D = D and M = M and p = q and slot = slot
      and i = i and e = e and bi = bi, folded b]
  have all: "list_all2 (\<lambda>k fk. fill_one_break get p k = Some fk) (sbk_breaks b) (fb_breaks fb)"
    using f by simp
  note a = filled_breaks_allocated [OF all]
  have "take (length (fb_segments fb) - 1) (fb_breaks fb) = fb_breaks fb"
    using s(3) a f by auto
  then have "log_total (interleave_segments fb) =
      total_content (fb_segments fb) + filled_break_time (fb_breaks fb) + max 0 (fb_pad_ms fb)"
    using interleave_segments_total [of fb] filled_breaks_fit [OF all s(4)] by simp
  moreover have "0 \<le> fb_pad_ms fb"
    using f segment_block_parts(3) [OF g, of D M q slot i e bi] by (simp add: b)
  ultimately show ?thesis
    using filled_empty_break_time [of "fb_breaks fb"] a f s(1,2) by simp
qed

section \<open>Properties\<close>

text \<open>
  The flat segment list of a block made by segmentation and break filling is numbered from
  zero without gaps, and its length is the block length less the breaks for which no filler was
  found at all: a break with at least one item is padded to its full allocation, an empty one
  contributes nothing.
\<close>

theorem interleave_fills_block:
  assumes "0 \<le> g" and "b \<in> set (segment_blocks rd g D M prof)"
    and "fill_block get_fillers policy b = Some fb"
  shows "numbered 0 (interleave_segments fb)
    \<and> fb_block_ms fb = g * 60 * 1000
    \<and> log_total (interleave_segments fb) = fb_block_ms fb - empty_break_time (fb_breaks fb)"
proof -
  obtain q i e bi where b: "b = segment_block D M g q (rd_slots rd ! i) (i, e, bi)"
    using assms(2) by (rule segment_blocks_mem)
  show ?thesis
    using interleave_filled_block [OF assms(1) b assms(3)] interleave_segments_numbered
      fill_block_fields [OF assms(3)] by (simp add: b)
qed

theorem interleave_fills_block_witness:
  "\<exists>fb. fill_block (get_filler_assets demo_library) default_fill_policy
      (segment_blocks demo_day 30 (\<lambda>_. 2500000) (\<lambda>_. []) None ! 1) = Some fb
    \<and> log_total (interleave_segments fb) = 1800000 - empty_break_time (fb_breaks fb)"
proof -
  let ?bs = "segment_blocks demo_day 30 (\<lambda>_. 2500000) (\<lambda>_. []) None"
  have m: "?bs ! 1 \<in> set ?bs" by code_simp
  obtain fb where fb: "fill_block (get_filler_assets demo_library) default_fill_policy (?bs ! 1) = Some fb"
    using mem_lib.block_ends [OF demo_library_wf] by blast
  show ?thesis using interleave_fills_block [OF _ m fb] fb by auto
qed

lemma distinct_concat_indexed:
  assumes inj: "\<And>i j m n. f i m = f j n \<longleftrightarrow> i = j \<and> m = (n::nat)"
  shows "distinct (concat (map (\<lambda>i. map (f i) [0..<L i]) [0..<N]))"
proof (induction N)
  case (Suc N)
  have "distinct (map (f N) [0..<L N])" by (auto simp: distinct_map inj_on_def inj)
  with Suc show ?case by (auto simp: inj)
qed simp

lemma event_ids_of_log:
  "map ls_event_id (concat (map le_segments (tl_entries (assemble_transmission_log c d fbs h g t)))) =
    concat (map (\<lambda>i. map (\<lambda>n. Some (event_id_of (block_id_of c d i) n))
      [0..<length (interleave_segments (fbs ! i))]) [0..<length fbs])"
  by (simp add: assemble_entries_nth map_concat o_def assemble_entry_event_ids)

text \<open>
  In an assembled transmission log no two entries share a block id and no two segments of the
  whole log share an event id.
\<close>

theorem assemble_ids_distinct:
  "distinct (map le_block_id (tl_entries (assemble_transmission_log c d fbs h g t)))
   \<and> distinct (map ls_event_id (concat (map le_segments
       (tl_entries (assemble_transmission_log c d fbs h g t)))))"
proof
  show "distinct (map le_block_id (tl_entries (assemble_transmission_log c d fbs h g t)))"
    by (auto simp: assemble_entries_nth distinct_map inj_on_def block_id_inj)
  show "distinct (map ls_event_id (concat (map le_segments
      (tl_entries (assemble_transmission_log c d fbs h g t)))))"
    unfolding event_ids_of_log by (rule distinct_concat_indexed) (simp add: event_id_inj)
qed

text \<open>
  The seam validator accepts a log exactly when every entry has the length of a grid block,
  that length is positive, and each entry ends where the next one starts.
\<close>

theorem validate_transmission_log_seams_iff:
  "validate_transmission_log_seams tlog g = Inr () \<longleftrightarrow>
    (\<forall>e \<in> set (tl_entries tlog). le_start e < le_end e \<and> le_end e - le_start e = g * 60 * 1000)
    \<and> chained (map entry_span (tl_entries tlog))"
  by (simp add: validate_transmission_log_seams_def validate_seams_iff)

definition demo_log :: transmission_log where
  "demo_log = \<lparr>tl_channel = ''ch'', tl_date = 20000,
     tl_entries = [\<lparr>le_block_id = ''b0'', le_index = 0, le_start = 0, le_end = 1800000, le_segments = []\<rparr>,
       \<lparr>le_block_id = ''b1'', le_index = 1, le_start = 1800000, le_end = 3600000, le_segments = []\<rparr>],
     tl_locked = False, tl_metadata = \<lparr>md_generation_time = None, md_grid_minutes = Some 30,
       md_start_hour = Some 6, md_locked_at = None, md_log_id = None\<rparr>\<rparr>"

theorem validate_transmission_log_seams_iff_witness:
  "chained (map entry_span (tl_entries demo_log))"
proof -
  have "validate_transmission_log_seams demo_log 30 = Inr ()" by code_simp
  then show ?thesis using validate_transmission_log_seams_iff [of demo_log 30] by simp
qed

text \<open>
  In a log the seam validator accepts, every instant from the first start to the last end is
  in exactly one entry, the one grid arithmetic names: there is no dead air and no double booking.
\<close>

theorem validated_log_covers_once:
  assumes "validate_transmission_log_seams tlog g = Inr ()" and "tl_entries tlog \<noteq> []"
    and "le_start (hd (tl_entries tlog)) \<le> t" and "t < le_end (last (tl_entries tlog))"
  shows "let es = tl_entries tlog; i = nat ((t - le_start (hd es)) div (g * 60 * 1000))
    in i < length es \<and> le_start (es ! i) \<le> t \<and> t < le_end (es ! i)
      \<and> {j. j < length es \<and> le_start (es ! j) \<le> t \<and> t < le_end (es ! j)} = {i}"
proof -
  let ?es = "tl_entries tlog"
  define D where "D = g * 60 * 1000"
  have ok: "\<forall>e \<in> set ?es. le_start e < le_end e \<and> le_end e - le_start e = D" "chained (map entry_span ?es)"
    using assms(1) unfolding validate_transmission_log_seams_def validate_seams_iff D_def by blast+
  have "hd ?es \<in> set ?es" using assms(2) by (rule hd_in_set)
  then have D: "0 < D" using ok(1) by fastforce
  have dur: "\<forall>e \<in> set ?es. le_end e - le_start e = D" using ok(1) by blast
  define s where "s = le_start (hd ?es)"
  have st: "le_start (?es ! j) = s + int j * D" "le_end (?es ! j) = s + int j * D + D" if "j < length ?es" for j
  proof -
    show st: "le_start (?es ! j) = s + int j * D"
      unfolding s_def by (rule chained_entries_start [OF ok(2) dur that])
    have "le_end (?es ! j) - le_start (?es ! j) = D" using dur nth_mem [OF that] by blast
    with st show "le_end (?es ! j) = s + int j * D + D" by linarith
  qed
  have ts: "s \<le> t" "t < s + int (length ?es) * D"
    using chained_entries_span [OF ok(2) dur assms(2)] assms(3,4) unfolding s_def by linarith+
  define i where "i = nat ((t - s) div D)"
  note cell = grid_cell [OF D ts, folded i_def]
  have only: "j = i" if "j < length ?es" "le_start (?es ! j) \<le> t" "t < le_end (?es ! j)" for j
    using cell(4) [of j] that(2,3) unfolding st [OF that(1)] by blast
  have at: "le_start (?es ! i) \<le> t" "t < le_end (?es ! i)"
    using cell(2,3) unfolding st [OF cell(1)] by blast+
  have "{j. j < length ?es \<and> le_start (?es ! j) \<le> t \<and> t < le_end (?es ! j)} = {i}"
    using only at cell(1) by blast
  then show ?thesis using cell(1) at
    unfolding Let_def s_def [symmetric] D_def [symmetric] i_def [symmetric] by blast
qed

theorem validated_log_covers_once_witness:
  "{j. j < 2 \<and> le_start (tl_entries demo_log ! j) \<le> 2000000 \<and> 2000000 < le_end (tl_entries demo_log ! j)} = {1}"
proof -
  have v: "validate_transmission_log_seams demo_log 30 = Inr ()" by code_simp
  have e: "tl_entries demo_log \<noteq> []" "le_start (hd (tl_entries demo_log)) = 0"
    "le_end (last (tl_entries demo_log)) = 3600000" "length (tl_entries demo_log) = 2" by code_simp+
  show ?thesis using validated_log_covers_once [OF v e(1), of 2000000] by (simp add: e Let_def)
qed

text \<open>
  Locking succeeds exactly when the metadata names a grid and the seam validator accepts the
  log; the locked log differs from the original only in its lock flag and metadata.
\<close>

theorem lock_transmission_log_iff:
  "(\<exists>l. lock_transmission_log tlog t = Inr l \<and> tl_locked l \<and> tl_entries l = tl_entries tlog
      \<and> tl_channel l = tl_channel tlog \<and> tl_date l = tl_date tlog
      \<and> md_grid_minutes (tl_metadata l) = md_grid_minutes (tl_metadata tlog)
      \<and> map_option length (md_log_id (tl_metadata l)) = Some 32)
   \<longleftrightarrow> (\<exists>g. md_grid_minutes (tl_metadata tlog) = Some g
          \<and> validate_transmission_log_seams tlog g = Inr ())"
proof (cases "md_grid_minutes (tl_metadata tlog)")
  case (Some g)
  then show ?thesis
    by (cases "validate_transmission_log_seams tlog g")
      (auto simp: lock_transmission_log_def Let_def length_sha256_hexdigest)
qed (simp add: lock_transmission_log_def)

end
