(* ===== verification/Execution_Window.thy ===== *)
theory Execution_Window
  imports Override_Store Planning_Assemble
begin

text \<open>
  The execution window, \<^verbatim>\<open>runtime/execution_window_store.py\<close>: the entries the horizon manager
  writes and playout reads.  Entries are kept in the order of their start; a locked window and
  per-entry locks restrict changes; a publish replaces a range under a new generation.  Entry
  objects are values here, so a caller that keeps and mutates one outside the store is not
  modelled.  The clock is an argument of the calls that read it (\<open>None\<close> when none is configured).
\<close>

record execution_entry =
  xe_block_id :: string
  xe_index :: nat
  xe_start :: ms
  xe_end :: ms
  xe_segments :: "log_segment list"
  xe_channel :: string
  xe_date :: "date option"
  xe_locked :: bool
  xe_log_ref :: "string option"
  xe_override :: bool
  xe_gen :: int

record window_snapshot =
  ws_gen :: int
  ws_entries :: "execution_entry list"

record publish_result =
  pr_ok :: bool
  pr_gen :: int
  pr_error :: "string option"

record exec_store =
  xs_entries :: "execution_entry list"
  xs_enforce :: bool
  xs_max_gen :: int
  xs_locked_window :: "ms option"
  xs_overrides :: "override_store option"

definition empty_exec_store :: "bool \<Rightarrow> ms option \<Rightarrow> override_store option \<Rightarrow> exec_store" where
  "empty_exec_store enforce locked_window overrides =
     \<lparr>xs_entries = [], xs_enforce = enforce, xs_max_gen = 0, xs_locked_window = locked_window,
      xs_overrides = overrides\<rparr>"

section \<open>Writing\<close>

definition check_lineage :: "bool \<Rightarrow> execution_entry \<Rightarrow> unit res" where
  "check_lineage enforce e =
     (if enforce \<and> \<not> xe_override e \<and> xe_log_ref e = None
      then Inl (ValueError ''INV-EXECUTIONENTRY-DERIVED-FROM-TRANSMISSIONLOG-001'')
      else if xe_channel e = [] \<or> xe_date e = None
      then Inl (ValueError ''INV-EXECUTION-DERIVED-FROM-SCHEDULEDAY-001'')
      else Inr ())"

definition add_entries :: "exec_store \<Rightarrow> execution_entry list \<Rightarrow> exec_store \<times> unit res" where
  "add_entries st entries =
     (case for_check (check_lineage (xs_enforce st)) entries of
        Inl e \<Rightarrow> (st, Inl e)
      | Inr _ \<Rightarrow>
        (let existing_ids = xe_block_id ` set (xs_entries st);
             new = filter (\<lambda>e. xe_block_id e \<notin> existing_ids) entries
         in if new = [] then (st, Inr ())
            else (st\<lparr>xs_entries := sort_key xe_start (xs_entries st @ new)\<rparr>, Inr ())))"

section \<open>Reading\<close>

definition get_next_entry :: "exec_store \<Rightarrow> ms \<Rightarrow> execution_entry option" where
  "get_next_entry st after = find (\<lambda>e. after < xe_start e) (xs_entries st)"

definition get_window_start :: "exec_store \<Rightarrow> ms" where
  "get_window_start st = (case xs_entries st of [] \<Rightarrow> 0 | e # _ \<Rightarrow> xe_start e)"

definition get_window_end :: "exec_store \<Rightarrow> ms" where
  "get_window_end st = (if xs_entries st = [] then 0 else xe_end (last (xs_entries st)))"

definition get_entry_at :: "exec_store \<Rightarrow> ms \<Rightarrow> bool \<Rightarrow> execution_entry option" where
  "get_entry_at st t locked_only =
     (case find (\<lambda>e. xe_start e \<le> t \<and> t < xe_end e) (xs_entries st) of
        None \<Rightarrow> None
      | Some e \<Rightarrow> if locked_only \<and> \<not> xe_locked e then None else Some e)"

definition has_entries_for :: "exec_store \<Rightarrow> string \<Rightarrow> date \<Rightarrow> bool" where
  "has_entries_for st channel d =
     list_ex (\<lambda>e. xe_channel e = channel \<and> xe_date e = Some d) (xs_entries st)"

section \<open>Locking\<close>

fun lock_first :: "string \<Rightarrow> execution_entry list \<Rightarrow> execution_entry list \<times> bool" where
  "lock_first bid [] = ([], False)"
| "lock_first bid (e # es) =
     (if xe_block_id e = bid then (e\<lparr>xe_locked := True\<rparr> # es, True)
      else case lock_first bid es of (es', found) \<Rightarrow> (e # es', found))"

definition mark_locked :: "exec_store \<Rightarrow> string \<Rightarrow> exec_store \<times> bool" where
  "mark_locked st bid =
     (case lock_first bid (xs_entries st) of (es, found) \<Rightarrow> (st\<lparr>xs_entries := es\<rparr>, found))"

fun lock_loop :: "execution_entry list \<Rightarrow> execution_entry list \<times> nat" where
  "lock_loop [] = ([], 0)"
| "lock_loop (e # es) =
     (case lock_loop es of (es', n) \<Rightarrow>
        if \<not> xe_locked e then (e\<lparr>xe_locked := True\<rparr> # es', Suc n) else (e # es', n))"

definition lock_all :: "exec_store \<Rightarrow> exec_store \<times> nat" where
  "lock_all st = (case lock_loop (xs_entries st) of (es, n) \<Rightarrow> (st\<lparr>xs_entries := es\<rparr>, n))"

section \<open>Atomic publish\<close>

definition locked_window_end_ms :: "ms \<Rightarrow> ms \<Rightarrow> ms" where
  "locked_window_end_ms now_ms locked_window_ms = now_ms + locked_window_ms"

definition overlaps_range :: "ms \<Rightarrow> ms \<Rightarrow> execution_entry \<Rightarrow> bool" where
  "overlaps_range a b e \<longleftrightarrow> xe_start e < b \<and> a < xe_end e"

definition read_window_snapshot :: "exec_store \<Rightarrow> ms \<Rightarrow> ms \<Rightarrow> window_snapshot" where
  "read_window_snapshot st a b =
     (let matching = filter (overlaps_range a b) (xs_entries st)
      in if matching = [] then \<lparr>ws_gen = 0, ws_entries = []\<rparr>
         else \<lparr>ws_gen = foldl (\<lambda>g e. max g (xe_gen e)) (xe_gen (hd matching)) (tl matching),
               ws_entries = matching\<rparr>)"

definition publish_blocked :: "exec_store \<Rightarrow> ms option \<Rightarrow> ms \<Rightarrow> ms \<Rightarrow> bool \<Rightarrow> bool" where
  "publish_blocked st clock a b operator_override =
     (case (clock, xs_locked_window st) of
        (Some now_ms, Some w) \<Rightarrow>
          0 < w \<and> \<not> operator_override \<and> a < locked_window_end_ms now_ms w \<and> now_ms < b
      | _ \<Rightarrow> False)"

definition range_text :: "ms \<Rightarrow> ms \<Rightarrow> string" where
  "range_text a b = ''range['' @ int_str a @ '','' @ int_str b @ '')''"

text \<open>The override record is written first; \<open>False\<close> when writing it failed.\<close>

definition publish_record ::
  "exec_store \<Rightarrow> ms option \<Rightarrow> ms \<Rightarrow> ms \<Rightarrow> string \<Rightarrow> bool \<Rightarrow> exec_store \<times> bool" where
  "publish_record st clock a b reason operator_override =
     (case xs_overrides st of
        None \<Rightarrow> (st, True)
      | Some os \<Rightarrow>
        if \<not> operator_override then (st, True)
        else (case persist os ''ExecutionWindowStore'' (range_text a b) reason
                     (case clock of None \<Rightarrow> 0 | Some now_ms \<Rightarrow> now_ms) of
                (os', Inl _) \<Rightarrow> (st\<lparr>xs_overrides := Some os'\<rparr>, False)
              | (os', Inr _) \<Rightarrow> (st\<lparr>xs_overrides := Some os'\<rparr>, True)))"

definition stamp :: "int \<Rightarrow> bool \<Rightarrow> execution_entry \<Rightarrow> execution_entry" where
  "stamp gen operator_override e =
     e\<lparr>xe_gen := gen, xe_override := xe_override e \<or> operator_override\<rparr>"

definition publish_atomic_replace ::
  "exec_store \<Rightarrow> ms option \<Rightarrow> ms \<Rightarrow> ms \<Rightarrow> execution_entry list \<Rightarrow> int \<Rightarrow> string \<Rightarrow> bool
    \<Rightarrow> exec_store \<times> publish_result" where
  "publish_atomic_replace st clock a b new_entries gen reason operator_override =
     (if publish_blocked st clock a b operator_override
      then (st, \<lparr>pr_ok = False, pr_gen = gen, pr_error = Some ''INV-HORIZON-LOCKED-IMMUTABLE-001''\<rparr>)
      else case publish_record st clock a b reason operator_override of (st', recorded) \<Rightarrow>
        if \<not> recorded
        then (st', \<lparr>pr_ok = False, pr_gen = gen, pr_error = Some ''OVERRIDE_RECORD_PERSIST_FAILED''\<rparr>)
        else if gen \<le> xs_max_gen st'
        then (st', \<lparr>pr_ok = False, pr_gen = gen, pr_error = Some ''INV-HORIZON-ATOMIC-PUBLISH-001''\<rparr>)
        else (st'\<lparr>xs_entries := sort_key xe_start
                    (filter (\<lambda>e. \<not> overlaps_range a b e) (xs_entries st')
                      @ map (stamp gen operator_override) new_entries),
                  xs_max_gen := gen\<rparr>,
              \<lparr>pr_ok = True, pr_gen = gen, pr_error = None\<rparr>))"

section \<open>Replacing one entry\<close>

fun index_of_block :: "string \<Rightarrow> execution_entry list \<Rightarrow> nat option" where
  "index_of_block bid [] = None"
| "index_of_block bid (e # es) =
     (if xe_block_id e = bid then Some 0 else map_option Suc (index_of_block bid es))"

definition replace_entry ::
  "exec_store \<Rightarrow> string \<Rightarrow> execution_entry \<Rightarrow> ms \<Rightarrow> string option \<Rightarrow> exec_store \<times> unit res" where
  "replace_entry st bid new_entry now_ms override_record_id =
     (case index_of_block bid (xs_entries st) of
        None \<Rightarrow> (st, Inl (ValueError ''not found in store''))
      | Some idx \<Rightarrow>
        let existing = xs_entries st ! idx
        in if xe_end existing \<le> now_ms
           then (st, Inl (ValueError ''INV-EXECUTIONENTRY-LOCKED-IMMUTABLE-001 past''))
           else if xe_locked existing \<and> override_record_id = None
           then (st, Inl (ValueError ''INV-EXECUTIONENTRY-LOCKED-IMMUTABLE-001 locked''))
           else (st\<lparr>xs_entries := sort_key xe_start ((xs_entries st)[idx := new_entry])\<rparr>, Inr ()))"

section \<open>Contiguity of a list of entries\<close>

fun check_contiguous :: "execution_entry list \<Rightarrow> unit res" where
  "check_contiguous (e # e' # es) =
     (if xe_end e \<noteq> xe_start e' then Inl (ValueError ''INV-EXECUTIONENTRY-NO-GAPS-001'')
      else check_contiguous (e' # es))"
| "check_contiguous _ = Inr ()"

definition validate_execution_entry_contiguity :: "execution_entry list \<Rightarrow> unit res" where
  "validate_execution_entry_contiguity entries =
     (if length entries \<le> 1 then Inr () else check_contiguous (sort_key xe_start entries))"

section \<open>The order of the entries\<close>

definition window_ok :: "exec_store \<Rightarrow> bool" where
  "window_ok st \<longleftrightarrow> sorted (map xe_start (xs_entries st))"

lemma window_ok_empty [rv_inv]: "window_ok (empty_exec_store b w os)"
  by (simp add: window_ok_def empty_exec_store_def)

lemma window_ok_add [rv_inv]: "window_ok st \<Longrightarrow> window_ok (fst (add_entries st es))"
  by (auto simp: window_ok_def add_entries_def Let_def split: sum.splits)

lemma lock_first_frame:
  "lock_first bid es = (es', found) \<Longrightarrow>
    map (\<lambda>e. e\<lparr>xe_locked := True\<rparr>) es' = map (\<lambda>e. e\<lparr>xe_locked := True\<rparr>) es
    \<and> found = (bid \<in> xe_block_id ` set es)
    \<and> list_all2 (\<lambda>e e'. xe_locked e \<longrightarrow> xe_locked e') es es'
    \<and> map xe_start es' = map xe_start es"
proof (induction es arbitrary: es' found)
  case (Cons e es)
  obtain es1 f1 where r: "lock_first bid es = (es1, f1)" by fastforce
  with Cons show ?case by (auto simp: list_all2_refl split: if_splits)
qed simp

lemma lock_loop_result:
  "lock_loop es = (es', n) \<Longrightarrow>
    es' = map (\<lambda>e. e\<lparr>xe_locked := True\<rparr>) es \<and> n = length (filter (\<lambda>e. \<not> xe_locked e) es)"
proof (induction es arbitrary: es' n)
  case (Cons e es)
  obtain es1 n1 where r: "lock_loop es = (es1, n1)" by fastforce
  with Cons show ?case by (auto split: if_splits)
qed simp

lemma window_ok_mark_locked [rv_inv]: "window_ok st \<Longrightarrow> window_ok (fst (mark_locked st bid))"
  by (auto simp: window_ok_def mark_locked_def split: prod.splits dest: lock_first_frame)

lemma window_ok_lock_all [rv_inv]: "window_ok st \<Longrightarrow> window_ok (fst (lock_all st))"
  by (auto simp: window_ok_def lock_all_def o_def split: prod.splits dest!: lock_loop_result)

lemma publish_record_frame [rv_frame]:
  "publish_record st c a b r ov = (st', ok) \<Longrightarrow>
    xs_entries st' = xs_entries st \<and> xs_max_gen st' = xs_max_gen st
    \<and> xs_locked_window st' = xs_locked_window st \<and> xs_enforce st' = xs_enforce st"
  by (auto simp: publish_record_def split: option.splits if_splits prod.splits sum.splits)

lemma publish_outcome:
  assumes "publish_atomic_replace st c a b new gen r ov = (st', res)"
  shows "if pr_ok res
    then xs_max_gen st < gen \<and> xs_max_gen st' = gen \<and> \<not> publish_blocked st c a b ov
      \<and> xs_entries st' = sort_key xe_start (filter (\<lambda>e. \<not> overlaps_range a b e) (xs_entries st)
          @ map (stamp gen ov) new)
    else xs_entries st' = xs_entries st \<and> xs_max_gen st' = xs_max_gen st"
  using assms publish_record_frame [of st c a b r ov]
  by (auto simp: publish_atomic_replace_def split: if_splits prod.splits)

lemma window_ok_publish [rv_inv]:
  "window_ok st \<Longrightarrow> window_ok (fst (publish_atomic_replace st c a b new gen r ov))"
proof -
  assume st: "window_ok st"
  obtain st' res where p: "publish_atomic_replace st c a b new gen r ov = (st', res)" by fastforce
  show ?thesis
  proof (cases "pr_ok res")
    case True
    then have "xs_entries st' = sort_key xe_start (filter (\<lambda>e. \<not> overlaps_range a b e) (xs_entries st)
        @ map (stamp gen ov) new)" using publish_outcome [OF p] by simp
    then have "window_ok st'" by (simp only: window_ok_def sorted_sort_key)
    then show ?thesis by (simp add: p)
  next
    case False
    then have "xs_entries st' = xs_entries st" using publish_outcome [OF p] by simp
    then show ?thesis using st by (simp add: p window_ok_def)
  qed
qed

lemma window_ok_replace_entry [rv_inv]:
  "window_ok st \<Longrightarrow> window_ok (fst (replace_entry st bid e now ov))"
  by (auto simp: window_ok_def replace_entry_def Let_def split: option.splits)

section \<open>The window as a collection of entries\<close>

text \<open>
  What the horizon manager relies on when it adds the entries of a day: they are kept in order,
  entries whose block is already there are ignored, and nothing is lost.
\<close>

locale entry_window =
  fixes ok :: "'s \<Rightarrow> bool"
    and contents :: "'s \<Rightarrow> execution_entry list"
    and add :: "'s \<Rightarrow> execution_entry list \<Rightarrow> 's \<times> unit res"
  assumes contents_sorted: "ok s \<Longrightarrow> sorted (map xe_start (contents s))"
    and add_keeps_ok: "ok s \<Longrightarrow> ok (fst (add s es))"
    and add_refused: "snd (add s es) = Inl e \<Longrightarrow> contents (fst (add s es)) = contents s"
    and add_done: "snd (add s es) = Inr () \<Longrightarrow>
      mset (contents (fst (add s es))) =
        mset (contents s) + mset (filter (\<lambda>e. xe_block_id e \<notin> xe_block_id ` set (contents s)) es)"
begin

lemma entries_kept: "set (contents s) \<subseteq> set (contents (fst (add s es)))"
proof (cases "snd (add s es)")
  case (Inl e)
  then show ?thesis by (simp add: add_refused)
next
  case (Inr u)
  then have "mset (contents s) \<subseteq># mset (contents (fst (add s es)))" by (simp add: add_done)
  then show ?thesis by (metis set_mset_mono set_mset_mset)
qed

lemma blocks_present:
  assumes "snd (add s es) = Inr ()"
  shows "xe_block_id ` set (contents (fst (add s es))) = xe_block_id ` set (contents s) \<union> xe_block_id ` set es"
proof -
  have "set (contents (fst (add s es))) =
      set (contents s) \<union> {e \<in> set es. xe_block_id e \<notin> xe_block_id ` set (contents s)}"
    using arg_cong [OF add_done [OF assms], of set_mset] by auto
  then show ?thesis by auto
qed

text \<open>Adding the same entries again changes nothing.\<close>

lemma add_idempotent:
  assumes "snd (add s es) = Inr ()" and "snd (add (fst (add s es)) es) = Inr ()"
  shows "mset (contents (fst (add (fst (add s es)) es))) = mset (contents (fst (add s es)))"
proof -
  have "\<forall>e \<in> set es. xe_block_id e \<in> xe_block_id ` set (contents (fst (add s es)))"
    using blocks_present [OF assms(1)] by auto
  then have "filter (\<lambda>e. xe_block_id e \<notin> xe_block_id ` set (contents (fst (add s es)))) es = []"
    by (auto simp: filter_empty_conv)
  then show ?thesis using add_done [OF assms(2)] by simp
qed

end

interpretation window: entry_window window_ok xs_entries add_entries
proof unfold_locales
  show "window_ok st \<Longrightarrow> sorted (map xe_start (xs_entries st))" for st by (simp add: window_ok_def)
  show "window_ok st \<Longrightarrow> window_ok (fst (add_entries st es))" for st es by (rule window_ok_add)
  show "snd (add_entries st es) = Inl e \<Longrightarrow> xs_entries (fst (add_entries st es)) = xs_entries st"
    for st es e by (auto simp: add_entries_def Let_def split: sum.splits if_splits)
  show "snd (add_entries st es) = Inr () \<Longrightarrow> mset (xs_entries (fst (add_entries st es))) =
      mset (xs_entries st) + mset (filter (\<lambda>e. xe_block_id e \<notin> xe_block_id ` set (xs_entries st)) es)"
    for st es by (auto simp: add_entries_def Let_def filter_empty_conv split: sum.splits if_splits)
qed

section \<open>Lookups\<close>

lemma find_sorted_first:
  "sorted (map f xs) \<Longrightarrow> find (\<lambda>x. t < f x) xs = Some x \<Longrightarrow>
    x \<in> set xs \<and> t < f x \<and> (\<forall>y \<in> set xs. t < f y \<longrightarrow> f x \<le> f y)"
  for f :: "'a \<Rightarrow> int"
  by (induction xs) (auto split: if_splits)

lemma find_None_set: "find P xs = None \<longleftrightarrow> (\<forall>x \<in> set xs. \<not> P x)"
  by (induction xs) auto

lemma find_SomeD: "find P xs = Some x \<Longrightarrow> x \<in> set xs \<and> P x"
  by (induction xs) (auto split: if_splits)

lemma get_entry_at_iff_disjoint:
  assumes disj: "\<And>e e'. e \<in> set (xs_entries st) \<Longrightarrow> e' \<in> set (xs_entries st) \<Longrightarrow>
      xe_start e \<le> t \<Longrightarrow> t < xe_end e \<Longrightarrow> xe_start e' \<le> t \<Longrightarrow> t < xe_end e' \<Longrightarrow> e = e'"
  shows "get_entry_at st t locked = Some e \<longleftrightarrow>
    e \<in> set (xs_entries st) \<and> xe_start e \<le> t \<and> t < xe_end e \<and> (locked \<longrightarrow> xe_locked e)"
proof (cases "find (\<lambda>e. xe_start e \<le> t \<and> t < xe_end e) (xs_entries st)")
  case None
  then have "get_entry_at st t locked = None" by (simp only: get_entry_at_def option.case)
  moreover have "\<forall>e \<in> set (xs_entries st). \<not> (xe_start e \<le> t \<and> t < xe_end e)"
    using None unfolding find_None_set .
  ultimately show ?thesis by auto
next
  case (Some e')
  with find_SomeD [OF Some] disj show ?thesis by (auto simp: get_entry_at_def)
qed

lemma snapshot_entries [simp]:
  "ws_entries (read_window_snapshot st a b) = filter (overlaps_range a b) (xs_entries st)"
  by (simp add: read_window_snapshot_def Let_def)

lemma foldl_max_const: "\<forall>e \<in> set es. xe_gen e = g \<Longrightarrow> foldl (\<lambda>m e. max m (xe_gen e)) g es = g"
  by (induction es) auto

lemma snapshot_gen:
  assumes "\<forall>e \<in> set (ws_entries (read_window_snapshot st a b)). xe_gen e = g"
    and "ws_entries (read_window_snapshot st a b) \<noteq> []"
  shows "ws_gen (read_window_snapshot st a b) = g"
proof -
  let ?m = "filter (overlaps_range a b) (xs_entries st)"
  have m: "?m \<noteq> []" "\<forall>e \<in> set ?m. xe_gen e = g" using assms by simp_all
  then have "xe_gen (hd ?m) = g" "\<forall>e \<in> set (tl ?m). xe_gen e = g"
    using hd_in_set [OF m(1)] by (blast, metis list.set_sel(2) m)
  then show ?thesis using m(1) foldl_max_const [of "tl ?m" g]
    unfolding read_window_snapshot_def Let_def by simp
qed

lemma stamp_fields [simp]:
  "xe_gen (stamp g ov e) = g" "xe_start (stamp g ov e) = xe_start e" "xe_end (stamp g ov e) = xe_end e"
  "xe_block_id (stamp g ov e) = xe_block_id e"
  by (simp_all add: stamp_def)

lemma filter_overlaps_stamp:
  "filter (overlaps_range a b) (map (stamp g ov) es) = map (stamp g ov) (filter (overlaps_range a b) es)"
  by (induction es) (auto simp: overlaps_range_def)

lemma publish_keeps_enforce:
  "publish_atomic_replace st clk a b es g rs ov = (st', res) \<Longrightarrow> xs_enforce st' = xs_enforce st"
  by (auto simp: publish_atomic_replace_def publish_record_def split: if_splits prod.splits option.splits sum.splits)

section \<open>Contiguity\<close>

definition xe_span :: "execution_entry \<Rightarrow> ms \<times> ms" where
  "xe_span e = (xe_start e, xe_end e)"

lemma check_contiguous_iff: "check_contiguous es = Inr () \<longleftrightarrow> chained (map xe_span es)"
  by (induction es rule: check_contiguous.induct) (auto simp: xe_span_def)

lemma validate_execution_entry_contiguity_iff:
  "validate_execution_entry_contiguity es = Inr () \<longleftrightarrow> chained (map xe_span (sort_key xe_start es))"
proof (cases "length es \<le> 1")
  case True
  then have "es = [] \<or> (\<exists>e. es = [e])" by (cases es) auto
  then show ?thesis by (auto simp: validate_execution_entry_contiguity_def)
qed (simp add: validate_execution_entry_contiguity_def check_contiguous_iff)

section \<open>Worked examples\<close>

definition demo_entry :: "string \<Rightarrow> ms \<Rightarrow> ms \<Rightarrow> bool \<Rightarrow> execution_entry" where
  "demo_entry bid a b locked =
     \<lparr>xe_block_id = bid, xe_index = 0, xe_start = a, xe_end = b, xe_segments = [], xe_channel = ''ch'',
      xe_date = Some 20000, xe_locked = locked, xe_log_ref = None, xe_override = False, xe_gen = 0\<rparr>"

definition demo_window :: exec_store where
  "demo_window = \<lparr>xs_entries = [demo_entry ''b0'' 0 100 True, demo_entry ''b1'' 100 200 False],
     xs_enforce = False, xs_max_gen = 0, xs_locked_window = Some 150, xs_overrides = None\<rparr>"

section \<open>Properties\<close>

text \<open>
  Adding entries either changes nothing and reports the first entry without lineage, or keeps
  the window sorted, keeps every entry that was there and adds exactly the entries whose block is
  new; then every block handed in is present.
\<close>

theorem add_entries_extends:
  assumes "window_ok st" and "add_entries st es = (st', r)"
  shows "window_ok st' \<and> set (xs_entries st) \<subseteq> set (xs_entries st')
    \<and> (case r of
         Inl _ \<Rightarrow> st' = st \<and> (\<exists>e \<in> set es. check_lineage (xs_enforce st) e \<noteq> Inr ())
       | Inr _ \<Rightarrow> xe_block_id ` set (xs_entries st') = xe_block_id ` set (xs_entries st) \<union> xe_block_id ` set es
           \<and> mset (xs_entries st') = mset (xs_entries st)
               + mset (filter (\<lambda>e. xe_block_id e \<notin> xe_block_id ` set (xs_entries st)) es))"
proof -
  have "(\<exists>e \<in> set es. check_lineage (xs_enforce st) e \<noteq> Inr ()) \<and> st' = st" if "r = Inl x" for x
    using assms(2) that for_check_ok_iff [of "check_lineage (xs_enforce st)" es]
    by (auto simp: add_entries_def Let_def split: sum.splits if_splits)
  then show ?thesis
    using window.add_keeps_ok [OF assms(1), of es] window.entries_kept [of st es]
      window.blocks_present [of st es] window.add_done [of st es] assms(2)
    by (cases r) auto
qed

theorem add_entries_extends_witness:
  "xe_block_id ` set (xs_entries (fst (add_entries demo_window [demo_entry ''b2'' 200 300 True])))
     = {''b0'', ''b1'', ''b2''}"
proof -
  have ok: "window_ok demo_window" by code_simp
  have r: "add_entries demo_window [demo_entry ''b2'' 200 300 True] =
    (fst (add_entries demo_window [demo_entry ''b2'' 200 300 True]), Inr ())" by code_simp
  show ?thesis using add_entries_extends [OF ok r] by (auto simp: demo_window_def demo_entry_def)
qed

text \<open>
  C32. A publish is all or nothing.  When it succeeds its generation is larger than every earlier
  one, and reading the published range back yields exactly the new entries that reach into it, in
  order and all of the new generation, while entries outside the range are untouched.  When it
  fails no entry changes and the generation counter stays.
\<close>

theorem publish_atomic:
  assumes "publish_atomic_replace st clock a b new gen reason ov = (st', res)"
  shows "if pr_ok res
    then xs_max_gen st < gen \<and> xs_max_gen st' = gen
      \<and> ws_entries (read_window_snapshot st' a b) =
          sort_key xe_start (map (stamp gen ov) (filter (overlaps_range a b) new))
      \<and> (ws_entries (read_window_snapshot st' a b) \<noteq> [] \<longrightarrow> ws_gen (read_window_snapshot st' a b) = gen)
      \<and> (\<forall>e \<in> set (xs_entries st). \<not> overlaps_range a b e \<longrightarrow> e \<in> set (xs_entries st'))
    else xs_entries st' = xs_entries st \<and> xs_max_gen st' = xs_max_gen st"
proof (cases "pr_ok res")
  case True
  note out = publish_outcome [OF assms, unfolded if_P [OF True]]
  have "filter (overlaps_range a b) (filter (\<lambda>e. \<not> overlaps_range a b e) (xs_entries st)) = []"
    by (simp add: filter_empty_conv)
  then have ws: "ws_entries (read_window_snapshot st' a b) =
      sort_key xe_start (map (stamp gen ov) (filter (overlaps_range a b) new))"
    using out by (simp add: filter_sort filter_overlaps_stamp del: filter_filter)
  have "\<forall>e \<in> set (ws_entries (read_window_snapshot st' a b)). xe_gen e = gen" unfolding ws by auto
  then have "ws_entries (read_window_snapshot st' a b) \<noteq> [] \<longrightarrow> ws_gen (read_window_snapshot st' a b) = gen"
    by (intro impI snapshot_gen)
  moreover have "\<forall>e \<in> set (xs_entries st). \<not> overlaps_range a b e \<longrightarrow> e \<in> set (xs_entries st')"
    using out by simp
  ultimately show ?thesis using True ws out by simp
next
  case False
  then show ?thesis using publish_outcome [OF assms] by simp
qed

theorem publish_atomic_witness:
  "ws_entries (read_window_snapshot
     (fst (publish_atomic_replace demo_window (Some 0) 200 300 [demo_entry ''b2'' 200 300 True] 1 ''r'' False)) 200 300)
   = [stamp 1 False (demo_entry ''b2'' 200 300 True)]"
proof -
  obtain st' res where p: "publish_atomic_replace demo_window (Some 0) 200 300
      [demo_entry ''b2'' 200 300 True] 1 ''r'' False = (st', res)" by fastforce
  have "pr_ok (snd (publish_atomic_replace demo_window (Some 0) 200 300
      [demo_entry ''b2'' 200 300 True] 1 ''r'' False))" by code_simp
  then have ok: "pr_ok res" by (simp add: p)
  have f: "sort_key xe_start (map (stamp 1 False)
      (filter (overlaps_range 200 300) [demo_entry ''b2'' 200 300 True]))
    = [stamp 1 False (demo_entry ''b2'' 200 300 True)]" by (simp add: overlaps_range_def demo_entry_def)
  show ?thesis using publish_atomic [OF p] ok f by (simp add: p)
qed

text \<open>
  A publish without an operator override never removes an entry that lies inside the locked
  window: such an entry is still in the store afterwards, whatever range is published.
\<close>

theorem publish_keeps_locked_window:
  assumes "publish_atomic_replace st (Some now) a b new gen reason False = (st', res)"
    and "xs_locked_window st = Some w" and "0 < w" and "e \<in> set (xs_entries st)"
    and "now \<le> xe_start e" and "xe_end e \<le> locked_window_end_ms now w"
  shows "e \<in> set (xs_entries st')"
proof (cases "pr_ok res")
  case True
  note out = publish_outcome [OF assms(1), unfolded if_P [OF True]]
  then have "locked_window_end_ms now w \<le> a \<or> b \<le> now"
    using assms(2,3) by (auto simp: publish_blocked_def)
  then have "\<not> overlaps_range a b e" using assms(5,6) by (auto simp: overlaps_range_def)
  then show ?thesis using out assms(4) by simp
next
  case False
  then show ?thesis using publish_outcome [OF assms(1)] assms(4) by simp
qed

theorem publish_keeps_locked_window_witness:
  "demo_entry ''b0'' 0 100 True \<in>
     set (xs_entries (fst (publish_atomic_replace demo_window (Some 0) 150 300 [] 1 ''r'' False)))"
proof -
  obtain st' res where p: "publish_atomic_replace demo_window (Some 0) 150 300 [] 1 ''r'' False = (st', res)"
    by fastforce
  have "demo_entry ''b0'' 0 100 True \<in> set (xs_entries st')"
    by (rule publish_keeps_locked_window [OF p, where w = 150])
      (simp_all add: demo_window_def demo_entry_def locked_window_end_ms_def)
  then show ?thesis by (simp add: p)
qed

text \<open>
  The guard compares only the published range with the locked window, so an entry that starts
  inside the locked window and ends after it can be removed by a publish without an override.
\<close>

theorem publish_drops_straddling_entry:
  "\<exists>st now a b gen e. let (st', res) = publish_atomic_replace st (Some now) a b [] gen ''r'' False in
     xs_locked_window st = Some 150 \<and> pr_ok res \<and> e \<in> set (xs_entries st) \<and> xe_locked e
     \<and> now \<le> xe_start e \<and> xe_start e < locked_window_end_ms now 150 \<and> e \<notin> set (xs_entries st')"
proof -
  let ?st = "demo_window\<lparr>xs_entries := [demo_entry ''b1'' 100 200 True]\<rparr>"
  have "let (st', res) = publish_atomic_replace ?st (Some 0) 150 300 [] 1 ''r'' False in
     xs_locked_window ?st = Some 150 \<and> pr_ok res \<and> demo_entry ''b1'' 100 200 True \<in> set (xs_entries ?st)
     \<and> xe_locked (demo_entry ''b1'' 100 200 True) \<and> 0 \<le> xe_start (demo_entry ''b1'' 100 200 True)
     \<and> xe_start (demo_entry ''b1'' 100 200 True) < locked_window_end_ms 0 150
     \<and> demo_entry ''b1'' 100 200 True \<notin> set (xs_entries st')"
    by code_simp
  then show ?thesis by blast
qed

text \<open>
  Replacing an entry never touches an entry that has already aired, and without an override
  record none that is locked: all of them are still in the store, whether the call succeeds or
  raises.
\<close>

theorem replace_entry_immutable:
  assumes "replace_entry st bid new now ov = (st', r)" and "e \<in> set (xs_entries st)"
    and "xe_end e \<le> now \<or> (xe_locked e \<and> ov = None)"
  shows "e \<in> set (xs_entries st')"
proof (cases "index_of_block bid (xs_entries st)")
  case None
  then show ?thesis using assms by (simp add: replace_entry_def)
next
  case (Some idx)
  let ?old = "xs_entries st ! idx"
  show ?thesis
  proof (cases "xe_end ?old \<le> now \<or> (xe_locked ?old \<and> ov = None)")
    case True
    then show ?thesis using assms(1,2) Some by (auto simp: replace_entry_def Let_def split: if_splits)
  next
    case False
    then have "e \<noteq> ?old" using assms(3) by auto
    moreover obtain j where j: "j < length (xs_entries st)" "e = xs_entries st ! j"
      using assms(2) by (metis in_set_conv_nth)
    ultimately have "e = (xs_entries st)[idx := new] ! j" "j < length ((xs_entries st)[idx := new])"
      by (cases "j = idx"; simp)+
    then have "e \<in> set ((xs_entries st)[idx := new])" by (metis nth_mem)
    moreover have "st' = st\<lparr>xs_entries := sort_key xe_start ((xs_entries st)[idx := new])\<rparr>"
      using assms(1) Some False by (auto simp: replace_entry_def Let_def split: if_splits)
    ultimately show ?thesis by simp
  qed
qed

theorem replace_entry_immutable_witness:
  "demo_entry ''b0'' 0 100 True \<in>
     set (xs_entries (fst (replace_entry demo_window ''b0'' (demo_entry ''b0'' 0 50 True) 10 None)))"
proof -
  obtain st' r where p: "replace_entry demo_window ''b0'' (demo_entry ''b0'' 0 50 True) 10 None = (st', r)"
    by fastforce
  have "demo_entry ''b0'' 0 100 True \<in> set (xs_entries st')"
    by (rule replace_entry_immutable [OF p]) (simp_all add: demo_window_def demo_entry_def)
  then show ?thesis by (simp add: p)
qed

text \<open>Locking all entries reports how many were unlocked, and leaves nothing else changed.\<close>

lemma lock_all_result:
  "lock_all st = (st\<lparr>xs_entries := map (\<lambda>e. e\<lparr>xe_locked := True\<rparr>) (xs_entries st)\<rparr>,
     length (filter (\<lambda>e. \<not> xe_locked e) (xs_entries st)))"
  by (auto simp: lock_all_def split: prod.splits dest!: lock_loop_result)

text \<open>Duplicates inside one batch are not ignored: only blocks already in the store are.\<close>

lemma add_entries_keeps_batch_duplicates:
  "length (xs_entries (fst (add_entries (empty_exec_store False None None)
     [demo_entry ''b'' 0 100 True, demo_entry ''b'' 0 100 True]))) = 2"
  by code_simp

end
