(* ===== verification/Resolved_Store.thy ===== *)
theory Resolved_Store
  imports Execution_Window
begin

text \<open>
  The in-memory stores of \<^verbatim>\<open>runtime/schedule_manager_service.py\<close> and the checks on resolved days
  they enforce: sequence positions per channel and program (\<^verbatim>\<open>InMemorySequenceStore\<close>), resolved
  days per channel and date (\<^verbatim>\<open>InMemoryResolvedStore\<close>), contiguity of a day, the seam between two
  days, derivation traceability and lead time.  A dictionary of dictionaries is a map of maps; an
  operation that may raise returns the store it leaves behind together with its result.
\<close>

section \<open>Sequence positions\<close>

type_synonym sequence_store = "string \<rightharpoonup> (string \<rightharpoonup> int)"

definition get_position :: "sequence_store \<Rightarrow> string \<Rightarrow> string \<Rightarrow> int" where
  "get_position st channel prog =
     (case st channel of
        None \<Rightarrow> 0
      | Some positions \<Rightarrow> (case positions prog of None \<Rightarrow> 0 | Some i \<Rightarrow> i))"

definition set_position :: "sequence_store \<Rightarrow> string \<Rightarrow> string \<Rightarrow> int \<Rightarrow> sequence_store" where
  "set_position st channel prog i =
     st(channel \<mapsto> (case st channel of None \<Rightarrow> Map.empty | Some positions \<Rightarrow> positions)(prog \<mapsto> i))"

locale position_store =
  fixes get :: "'s \<Rightarrow> string \<Rightarrow> string \<Rightarrow> int"
    and put :: "'s \<Rightarrow> string \<Rightarrow> string \<Rightarrow> int \<Rightarrow> 's"
  assumes get_put: "get (put s c p i) c' p' = (if c' = c \<and> p' = p then i else get s c' p')"
begin

lemma get_put_same [simp]: "get (put s c p i) c p = i"
  by (simp add: get_put)

text \<open>A round robin over \<open>n\<close> episodes: \<open>k\<close> advances from a valid position.\<close>

primrec advance :: "'s \<Rightarrow> string \<Rightarrow> string \<Rightarrow> int \<Rightarrow> nat \<Rightarrow> 's" where
  "advance s c p n 0 = s"
| "advance s c p n (Suc k) = (let s' = advance s c p n k in put s' c p ((get s' c p + 1) mod n))"

lemma advance_position:
  "0 < n \<Longrightarrow> 0 \<le> get s c p \<Longrightarrow> get s c p < n \<Longrightarrow> get (advance s c p n k) c p = (get s c p + int k) mod n"
proof (induction k)
  case (Suc k)
  have "((get s c p + int k) mod n + 1) mod n = (get s c p + int (Suc k)) mod n"
    by (simp add: mod_add_right_eq algebra_simps)
  with Suc show ?case by (simp add: Let_def)
qed simp

lemma advance_other: "c' \<noteq> c \<or> p' \<noteq> p \<Longrightarrow> get (advance s c p n k) c' p' = get s c' p'"
  by (induction k) (auto simp: Let_def get_put)

end

interpretation positions: position_store get_position set_position
  by unfold_locales (auto simp: get_position_def set_position_def split: option.splits)

section \<open>Checks on a resolved day\<close>

definition rs_start :: "date \<Rightarrow> int \<Rightarrow> resolved_slot \<Rightarrow> datetime" where
  "rs_start d start_hour s =
     combine d (rs_time s) + (if hour_of (rs_time s) < start_hour then us_per_day else 0)"

definition rs_end :: "date \<Rightarrow> int \<Rightarrow> resolved_slot \<Rightarrow> datetime" where
  "rs_end d start_hour s = rs_start d start_hour s + secs_to_us (rs_duration s)"

definition rs_interval :: "date \<Rightarrow> int \<Rightarrow> resolved_slot \<Rightarrow> datetime \<times> datetime" where
  "rs_interval d start_hour s = (rs_start d start_hour s, rs_end d start_hour s)"

definition broadcast_start :: "date \<Rightarrow> int \<Rightarrow> datetime" where
  "broadcast_start d start_hour = combine d (start_hour * us_per_hour)"

fun check_intervals :: "(datetime \<times> datetime) list \<Rightarrow> unit res" where
  "check_intervals (p # q # ps) =
     (if snd p < fst q then Inl (ValueError ''INV-SCHEDULEDAY-NO-GAPS-001 gap'')
      else if fst q < snd p then Inl (ValueError ''INV-SCHEDULEDAY-NO-GAPS-001 overlap'')
      else check_intervals (q # ps))"
| "check_intervals _ = Inr ()"

definition validate_scheduleday_contiguity ::
  "resolved_day \<Rightarrow> int \<Rightarrow> datetime option \<Rightarrow> unit res" where
  "validate_scheduleday_contiguity rd start_hour effective_start =
     (let d = rd_date rd;
          b_start = broadcast_start d start_hour;
          b_end = b_start + us_per_day;
          actual_start = (case effective_start of None \<Rightarrow> b_start | Some t \<Rightarrow> t);
          intervals = sort_key fst (map (rs_interval d start_hour) (rd_slots rd))
      in if rd_slots rd = [] then Inl (ValueError ''INV-SCHEDULEDAY-NO-GAPS-001 no slots'')
         else if fst (hd intervals) \<noteq> actual_start
         then Inl (ValueError ''INV-SCHEDULEDAY-NO-GAPS-001 first slot'')
         else bind_res (check_intervals intervals) (\<lambda>_.
           if snd (last intervals) < b_end then Inl (ValueError ''INV-SCHEDULEDAY-NO-GAPS-001 last slot'')
           else Inr ()))"

definition enforce_derivation_traceability :: "resolved_day \<Rightarrow> unit res" where
  "enforce_derivation_traceability rd =
     (if \<not> rd_override rd \<and> rd_plan_id rd = None
      then Inl (ValueError ''INV-SCHEDULEDAY-DERIVATION-TRACEABLE-001'') else Inr ())"

text \<open>
  Sorting by \<open>(hour, minute)\<close>; the pair is ordered as minutes since midnight.
\<close>

definition clock_minutes :: "resolved_slot \<Rightarrow> int" where
  "clock_minutes s = hour_of (rs_time s) * 60 + minute_of (rs_time s)"

text \<open>
  The end of the last slot in clock order, and the start of the first one; here a slot belongs to
  the next calendar day when its time is before the programming-day start.
\<close>

definition slot_abs_start :: "date \<Rightarrow> int \<Rightarrow> resolved_slot \<Rightarrow> datetime" where
  "slot_abs_start d start_hour s =
     combine d (rs_time s) + (if rs_time s < start_hour * us_per_hour then us_per_day else 0)"

definition carry_in_end_of :: "resolved_day \<Rightarrow> int \<Rightarrow> datetime" where
  "carry_in_end_of rd start_hour =
     (let s = last (sort_key clock_minutes (rd_slots rd))
      in slot_abs_start (rd_date rd) start_hour s + secs_to_us (rs_duration s))"

definition validate_scheduleday_seam ::
  "resolved_day \<Rightarrow> resolved_day option \<Rightarrow> int \<Rightarrow> unit res" where
  "validate_scheduleday_seam new_day preceding start_hour =
     (case preceding of
        None \<Rightarrow> Inr ()
      | Some prev \<Rightarrow>
        if rd_slots prev = [] \<or> rd_slots new_day = [] then Inr ()
        else let boundary = broadcast_start (rd_date new_day) start_hour;
                 carry_in_end = carry_in_end_of prev start_hour
             in if carry_in_end \<le> boundary then Inr ()
                else let first = hd (sort_key clock_minutes (rd_slots new_day))
                     in if slot_abs_start (rd_date new_day) start_hour first < carry_in_end
                        then Inl (ValueError ''INV-SCHEDULEDAY-SEAM-NO-OVERLAP-001'')
                        else Inr ())"

definition compute_effective_start :: "resolved_day option \<Rightarrow> date \<Rightarrow> int \<Rightarrow> datetime option" where
  "compute_effective_start preceding new_date start_hour =
     (case preceding of
        None \<Rightarrow> None
      | Some prev \<Rightarrow>
        if rd_slots prev = [] then None
        else if broadcast_start new_date start_hour < carry_in_end_of prev start_hour
        then Some (carry_in_end_of prev start_hour) else None)"

section \<open>The store of resolved days\<close>

record resolved_store =
  rst_days :: "string \<rightharpoonup> (date \<rightharpoonup> resolved_day)"
  rst_start_hour :: "int option"
  rst_enforce :: bool
  rst_overrides :: "override_store option"

definition empty_resolved_store :: "int option \<Rightarrow> bool \<Rightarrow> override_store option \<Rightarrow> resolved_store" where
  "empty_resolved_store start_hour enforce overrides =
     \<lparr>rst_days = Map.empty, rst_start_hour = start_hour, rst_enforce = enforce, rst_overrides = overrides\<rparr>"

definition channel_days :: "resolved_store \<Rightarrow> string \<Rightarrow> (date \<rightharpoonup> resolved_day)" where
  "channel_days st channel = (case rst_days st channel of None \<Rightarrow> Map.empty | Some m \<Rightarrow> m)"

definition get_day :: "resolved_store \<Rightarrow> string \<Rightarrow> date \<Rightarrow> resolved_day option" where
  "get_day st channel d = channel_days st channel d"

definition day_exists :: "resolved_store \<Rightarrow> string \<Rightarrow> date \<Rightarrow> bool" where
  "day_exists st channel d = (channel_days st channel d \<noteq> None)"

definition put_day :: "resolved_store \<Rightarrow> string \<Rightarrow> resolved_day \<Rightarrow> resolved_store" where
  "put_day st channel rd =
     st\<lparr>rst_days := (rst_days st)(channel \<mapsto> (channel_days st channel)(rd_date rd \<mapsto> rd))\<rparr>"

text \<open>The validation block \<open>store\<close> and \<open>force_replace\<close> share.\<close>

definition validate_against_preceding :: "resolved_store \<Rightarrow> string \<Rightarrow> resolved_day \<Rightarrow> unit res" where
  "validate_against_preceding st channel rd =
     (case rst_start_hour st of
        None \<Rightarrow> Inr ()
      | Some h \<Rightarrow>
        let preceding = channel_days st channel (rd_date rd - 1)
        in bind_res (validate_scheduleday_seam rd preceding h) (\<lambda>_.
             validate_scheduleday_contiguity rd h (compute_effective_start preceding (rd_date rd) h)))"

definition traceability_check :: "resolved_store \<Rightarrow> resolved_day \<Rightarrow> unit res" where
  "traceability_check st rd = (if rst_enforce st then enforce_derivation_traceability rd else Inr ())"

definition store_day :: "resolved_store \<Rightarrow> string \<Rightarrow> resolved_day \<Rightarrow> resolved_store \<times> unit res" where
  "store_day st channel rd =
     (case traceability_check st rd of
        Inl e \<Rightarrow> (st, Inl e)
      | Inr _ \<Rightarrow>
        let st' = (if rst_days st channel = None
                   then st\<lparr>rst_days := (rst_days st)(channel \<mapsto> Map.empty)\<rparr> else st)
        in if channel_days st' channel (rd_date rd) \<noteq> None
           then (st', Inl (ValueError ''INV-SCHEDULEDAY-ONE-PER-DATE-001''))
           else (case validate_against_preceding st' channel rd of
                   Inl e \<Rightarrow> (st', Inl e)
                 | Inr _ \<Rightarrow> (put_day st' channel rd, Inr ())))"

definition force_replace :: "resolved_store \<Rightarrow> string \<Rightarrow> resolved_day \<Rightarrow> resolved_store \<times> unit res" where
  "force_replace st channel rd =
     (case traceability_check st rd of
        Inl e \<Rightarrow> (st, Inl e)
      | Inr _ \<Rightarrow>
        if channel_days st channel (rd_date rd) = None
        then (st, Inl (ValueError ''force_replace nothing to replace''))
        else (case validate_against_preceding st channel rd of
                Inl e \<Rightarrow> (st, Inl e)
              | Inr _ \<Rightarrow> (put_day st channel rd, Inr ())))"

text \<open>\<open>delete\<close> consults the execution store when the store has one.\<close>

definition delete_day ::
  "resolved_store \<Rightarrow> exec_store option \<Rightarrow> string \<Rightarrow> date \<Rightarrow> resolved_store \<times> unit res" where
  "delete_day st exec channel d =
     (if (case exec of None \<Rightarrow> False | Some xs \<Rightarrow> has_entries_for xs channel d)
      then (st, Inl (ValueError ''INV-DERIVATION-ANCHOR-PROTECTED-001''))
      else (case rst_days st channel of
              None \<Rightarrow> (st, Inr ())
            | Some m \<Rightarrow> (st\<lparr>rst_days := (rst_days st)(channel \<mapsto> m(d := None))\<rparr>, Inr ())))"

definition update_day ::
  "resolved_store \<Rightarrow> string \<Rightarrow> date \<Rightarrow> string list \<Rightarrow> resolved_store \<times> unit res" where
  "update_day st channel d field_names = (st, Inl (ValueError ''INV-SCHEDULEDAY-IMMUTABLE-001''))"

text \<open>
  The clock is an argument, \<open>None\<close> when no \<open>clock_fn\<close> is configured; \<open>original_id\<close> stands for the
  identity \<open>id(original)\<close> of the replaced object.
\<close>

definition operator_override ::
  "resolved_store \<Rightarrow> ms option \<Rightarrow> int \<Rightarrow> string \<Rightarrow> resolved_day \<Rightarrow> resolved_store \<times> resolved_day res" where
  "operator_override st clock original_id channel rd =
     (case channel_days st channel (rd_date rd) of
        None \<Rightarrow> (st, Inl (ValueError ''operator_override nothing to override''))
      | Some original \<Rightarrow>
        let override = \<lparr>rd_date = rd_date rd, rd_slots = rd_slots rd, rd_timestamp = rd_timestamp rd,
              rd_sequence = rd_sequence rd, rd_events = rd_events rd, rd_plan_id = None,
              rd_override = True, rd_supersedes = Some original_id\<rparr>
        in (case rst_overrides st of
              None \<Rightarrow> (put_day st channel override, Inr override)
            | Some os \<Rightarrow>
              (case persist os ''ScheduleDay'' (channel @ ''/'' @ iso_date (rd_date rd)) ''OPERATOR_OVERRIDE''
                      (case clock of None \<Rightarrow> 0 | Some now_ms \<Rightarrow> now_ms) of
                 (os', Inl e) \<Rightarrow> (st\<lparr>rst_overrides := Some os'\<rparr>, Inl e)
               | (os', Inr _) \<Rightarrow>
                 (put_day (st\<lparr>rst_overrides := Some os'\<rparr>) channel override, Inr override))))"

definition check_scheduleday_lead_time ::
  "resolved_store \<Rightarrow> string \<Rightarrow> date \<Rightarrow> datetime \<Rightarrow> int \<Rightarrow> int \<Rightarrow> unit res" where
  "check_scheduleday_lead_time st channel target_date now_utc min_lead_days start_hour =
     (let deadline = combine (target_date - min_lead_days) (start_hour * us_per_hour)
      in if now_utc \<le> deadline then Inr ()
         else if day_exists st channel target_date then Inr ()
         else Inl (ValueError ''INV-SCHEDULEDAY-LEAD-TIME-001''))"

section \<open>The store as a map that only grows\<close>

text \<open>
  What resolution relies on: storing succeeds only on a free date, adds that one day, and a
  refused call leaves every answer as it was.
\<close>

locale day_store =
  fixes look :: "'s \<Rightarrow> string \<Rightarrow> date \<Rightarrow> resolved_day option"
    and insert_day :: "'s \<Rightarrow> string \<Rightarrow> resolved_day \<Rightarrow> 's \<times> unit res"
  assumes insert_done: "snd (insert_day s c rd) = Inr () \<Longrightarrow>
      look s c (rd_date rd) = None \<and>
      look (fst (insert_day s c rd)) c' d' =
        (if c' = c \<and> d' = rd_date rd then Some rd else look s c' d')"
    and insert_refused: "snd (insert_day s c rd) = Inl e \<Longrightarrow> look (fst (insert_day s c rd)) = look s"
begin

lemma day_kept: "look s c d = Some x \<Longrightarrow> look (fst (insert_day s c' rd)) c d = Some x"
proof (cases "snd (insert_day s c' rd)")
  case (Inl e)
  then show "look s c d = Some x \<Longrightarrow> ?thesis" by (simp add: insert_refused)
next
  case (Inr u)
  then have "snd (insert_day s c' rd) = Inr ()" by simp
  from insert_done [OF this, of c d] show "look s c d = Some x \<Longrightarrow> ?thesis" by auto
qed

lemma stored_day_found: "snd (insert_day s c rd) = Inr () \<Longrightarrow> look (fst (insert_day s c rd)) c (rd_date rd) = Some rd"
  using insert_done [of s c rd c "rd_date rd"] by simp

lemma taken_date_refused: "look s c (rd_date rd) = Some x \<Longrightarrow> \<exists>e. snd (insert_day s c rd) = Inl e"
  using insert_done [of s c rd c "rd_date rd"] by (cases "snd (insert_day s c rd)") auto

end

lemma channel_days_empty_channel:
  "rst_days st c = None \<Longrightarrow>
    channel_days (st\<lparr>rst_days := (rst_days st)(c \<mapsto> Map.empty)\<rparr>) = channel_days st"
  by (auto simp: channel_days_def fun_eq_iff)

lemma get_day_put_day:
  "get_day (put_day st c rd) c' d' = (if c' = c \<and> d' = rd_date rd then Some rd else get_day st c' d')"
  by (simp add: get_day_def put_day_def channel_days_def)

lemma put_day_empty_channel:
  "put_day (st\<lparr>rst_days := (rst_days st)(c \<mapsto> Map.empty)\<rparr>) c rd = put_day st c rd
    \<or> rst_days st c \<noteq> None"
  by (auto simp: put_day_def channel_days_def)

lemma store_day_cases:
  obtains (refused) e st' where "store_day st c rd = (st', Inl e)" "get_day st' = get_day st"
  | (stored) "store_day st c rd = (put_day st c rd, Inr ())" "get_day st c (rd_date rd) = None"
      "traceability_check st rd = Inr ()" "validate_against_preceding st c rd = Inr ()"
proof -
  let ?st = "if rst_days st c = None then st\<lparr>rst_days := (rst_days st)(c \<mapsto> Map.empty)\<rparr> else st"
  have ch: "channel_days ?st = channel_days st" using channel_days_empty_channel by auto
  have v: "validate_against_preceding ?st c rd = validate_against_preceding st c rd"
    unfolding validate_against_preceding_def ch by simp
  have g: "get_day ?st = get_day st" by (simp add: fun_eq_iff get_day_def ch)
  have p: "put_day ?st c rd = put_day st c rd" using put_day_empty_channel [of st c rd] by auto
  have s: "store_day st c rd = (case traceability_check st rd of Inl e \<Rightarrow> (st, Inl e)
      | Inr _ \<Rightarrow> if get_day st c (rd_date rd) \<noteq> None
          then (?st, Inl (ValueError ''INV-SCHEDULEDAY-ONE-PER-DATE-001''))
          else (case validate_against_preceding st c rd of
                  Inl e \<Rightarrow> (?st, Inl e) | Inr _ \<Rightarrow> (put_day st c rd, Inr ())))"
    unfolding store_day_def Let_def ch v p get_day_def by simp
  show thesis
  proof (cases "traceability_check st rd")
    case (Inl e)
    then show thesis using s by (intro refused [of st e]) simp_all
  next
    case t: (Inr u)
    show thesis
    proof (cases "get_day st c (rd_date rd)")
      case (Some x)
      then show thesis using s t g by (intro refused [of ?st]) simp_all
    next
      case None
      show thesis
      proof (cases "validate_against_preceding st c rd")
        case (Inl e)
        then show thesis using s t g None by (intro refused [of ?st]) simp_all
      next
        case (Inr u')
        then show thesis using s t None by (intro stored) simp_all
      qed
    qed
  qed
qed

interpretation days: day_store get_day store_day
proof unfold_locales
  fix s c rd c' d'
  assume ok: "snd (store_day s c rd) = Inr ()"
  show "get_day s c (rd_date rd) = None \<and> get_day (fst (store_day s c rd)) c' d' =
      (if c' = c \<and> d' = rd_date rd then Some rd else get_day s c' d')"
    using ok by (rule_tac store_day_cases [of s c rd]) (simp_all add: get_day_put_day)
next
  fix s c rd e
  assume "snd (store_day s c rd) = Inl e"
  then show "get_day (fst (store_day s c rd)) = get_day s"
    by (rule_tac store_day_cases [of s c rd]) simp_all
qed

text \<open>Every day is stored under its own date.\<close>

definition days_keyed :: "resolved_store \<Rightarrow> bool" where
  "days_keyed st \<longleftrightarrow> (\<forall>c d rd. get_day st c d = Some rd \<longrightarrow> rd_date rd = d)"

lemma days_keyed_empty [rv_inv]: "days_keyed (empty_resolved_store h b os)"
  by (simp add: days_keyed_def empty_resolved_store_def get_day_def channel_days_def)

lemma days_keyed_put [rv_inv]: "days_keyed st \<Longrightarrow> days_keyed (put_day st c rd)"
  by (auto simp: days_keyed_def get_day_put_day)

lemma days_keyed_store [rv_inv]: "days_keyed st \<Longrightarrow> days_keyed (fst (store_day st c rd))"
proof -
  assume k: "days_keyed st"
  show ?thesis
  proof (rule store_day_cases [of st c rd])
    fix st' e assume "store_day st c rd = (st', Inl e)" "get_day st' = get_day st"
    with k show ?thesis by (simp add: days_keyed_def)
  next
    assume "store_day st c rd = (put_day st c rd, Inr ())"
    with k show ?thesis by (simp add: days_keyed_put)
  qed
qed

section \<open>What the contiguity check accepts\<close>

lemma check_intervals_iff: "check_intervals ps = Inr () \<longleftrightarrow> chained ps"
  by (induction ps rule: check_intervals.induct) auto

lemma validate_scheduleday_contiguity_iff:
  "validate_scheduleday_contiguity rd h eff = Inr () \<longleftrightarrow>
    (let ps = sort_key fst (map (rs_interval (rd_date rd) h) (rd_slots rd)) in
      rd_slots rd \<noteq> [] \<and> chained ps
      \<and> fst (hd ps) = (case eff of None \<Rightarrow> broadcast_start (rd_date rd) h | Some t \<Rightarrow> t)
      \<and> broadcast_start (rd_date rd) h + us_per_day \<le> snd (last ps))"
  by (auto simp: validate_scheduleday_contiguity_def Let_def bind_res_Inr_iff check_intervals_iff
      split: if_splits)

text \<open>
  The chain of slots behind an accepted day, from its effective start to past the day's end.
\<close>

lemma contiguous_day_covers:
  assumes ok: "validate_scheduleday_contiguity rd h eff = Inr ()"
    and pos: "\<forall>s \<in> set (rd_slots rd). 0 \<le> secs_to_us (rs_duration s)"
    and lo: "(case eff of None \<Rightarrow> broadcast_start (rd_date rd) h | Some u \<Rightarrow> u) \<le> t"
    and hi: "t < broadcast_start (rd_date rd) h + us_per_day"
  shows "length (filter (\<lambda>s. rs_start (rd_date rd) h s \<le> t \<and> t < rs_end (rd_date rd) h s) (rd_slots rd)) = 1"
proof -
  let ?iv = "rs_interval (rd_date rd) h" and ?P = "\<lambda>p. fst p \<le> t \<and> t < snd p"
  let ?ps = "sort_key fst (map ?iv (rd_slots rd))"
  have c: "rd_slots rd \<noteq> []" "chained ?ps" "fst (hd ?ps) \<le> t" "t < snd (last ?ps)"
    using ok lo hi by (simp_all add: validate_scheduleday_contiguity_iff Let_def)
  have "?ps \<noteq> []" using c(1) by (metis length_0_conv length_map length_sort)
  moreover have "fst p \<le> snd p" if "p \<in> set ?ps" for p
    using that pos by (auto simp: rs_interval_def rs_end_def)
  ultimately have "length (filter ?P ?ps) = 1" using c by (intro chained_covers_once)
  then have "length (filter ?P (map ?iv (rd_slots rd))) = 1" by (simp only: length_filter_sort_key)
  then show ?thesis by (simp add: filter_map o_def rs_interval_def)
qed

section \<open>Reachable stores\<close>

inductive rst_step :: "resolved_store \<Rightarrow> resolved_store \<Rightarrow> bool" where
  Store: "store_day st c rd = (st', r) \<Longrightarrow> rst_step st st'"
| Replace: "force_replace st c rd = (st', r) \<Longrightarrow> rst_step st st'"
| Delete: "delete_day st xs c d = (st', r) \<Longrightarrow> rst_step st st'"
| Update: "update_day st c d fs = (st', r) \<Longrightarrow> rst_step st st'"
| Override: "operator_override st clk oid c rd = (st', r2) \<Longrightarrow> rst_step st st'"

inductive rst_reachable :: "int option \<Rightarrow> bool \<Rightarrow> override_store option \<Rightarrow> resolved_store \<Rightarrow> bool" where
  Init: "rst_reachable h enforce os (empty_resolved_store h enforce os)"
| Step: "rst_reachable h enforce os st \<Longrightarrow> rst_step st st' \<Longrightarrow> rst_reachable h enforce os st'"

definition traceable :: "resolved_day \<Rightarrow> bool" where
  "traceable rd \<longleftrightarrow> rd_override rd \<or> rd_plan_id rd \<noteq> None"

lemma enforce_derivation_traceability_iff: "enforce_derivation_traceability rd = Inr () \<longleftrightarrow> traceable rd"
  by (auto simp: enforce_derivation_traceability_def traceable_def)

definition rst_inv :: "bool \<Rightarrow> resolved_store \<Rightarrow> bool" where
  "rst_inv enforce st \<longleftrightarrow> rst_enforce st = enforce \<and>
    (\<forall>c d rd. get_day st c d = Some rd \<longrightarrow> rd_date rd = d \<and> (enforce \<longrightarrow> traceable rd))"

lemma rst_inv_same: "rst_inv b st \<Longrightarrow> get_day st' = get_day st \<Longrightarrow> rst_enforce st' = rst_enforce st \<Longrightarrow> rst_inv b st'"
  by (simp add: rst_inv_def)

lemma rst_inv_put:
  "rst_inv b st \<Longrightarrow> (b \<Longrightarrow> traceable rd) \<Longrightarrow> rst_inv b (put_day st c rd)"
  by (simp add: rst_inv_def get_day_put_day) (simp add: put_day_def)

lemma rst_enforce_store_day [rv_frame]: "rst_enforce (fst (store_day st c rd)) = rst_enforce st"
  by (auto simp: store_day_def put_day_def Let_def split: sum.splits)

lemma get_day_overrides_frame [rv_frame]: "get_day (st\<lparr>rst_overrides := os\<rparr>) = get_day st"
  by (simp add: fun_eq_iff get_day_def channel_days_def)

lemma operator_override_cases:
  obtains (refused) e st' where "operator_override st clk oid c rd = (st', Inl e)"
      "get_day st' = get_day st" "rst_enforce st' = rst_enforce st"
  | (overridden) st1 ov where "operator_override st clk oid c rd = (put_day st1 c ov, Inr ov)"
      "get_day st c (rd_date rd) \<noteq> None" "get_day st1 = get_day st" "rst_enforce st1 = rst_enforce st"
      "rd_override ov" "rd_date ov = rd_date rd" "rd_slots ov = rd_slots rd" "rd_supersedes ov = Some oid"
      "map_option (\<lambda>os. length (os_records os)) (rst_overrides st1) =
        map_option (\<lambda>os. Suc (length (os_records os))) (rst_overrides st)"
proof -
  let ?ov = "\<lparr>rd_date = rd_date rd, rd_slots = rd_slots rd, rd_timestamp = rd_timestamp rd,
    rd_sequence = rd_sequence rd, rd_events = rd_events rd, rd_plan_id = None,
    rd_override = True, rd_supersedes = Some oid\<rparr>"
  show thesis
  proof (cases "channel_days st c (rd_date rd)")
    case None
    then show thesis by (intro refused [of st]) (simp_all add: operator_override_def)
  next
    case (Some orig)
    then have g: "get_day st c (rd_date rd) \<noteq> None" by (simp add: get_day_def)
    show thesis
    proof (cases "rst_overrides st")
      case None
      with Some g show thesis by (intro overridden [of st ?ov]) (simp_all add: operator_override_def Let_def)
    next
      case (Some os)
      let ?p = "persist os ''ScheduleDay'' (c @ ''/'' @ iso_date (rd_date rd)) ''OPERATOR_OVERRIDE''
        (case clk of None \<Rightarrow> 0 | Some now_ms \<Rightarrow> now_ms)"
      obtain os' r where p: "?p = (os', r)" by fastforce
      show thesis
      proof (cases r)
        case (Inl e)
        with p Some \<open>channel_days st c (rd_date rd) = Some orig\<close> show thesis
          by (intro refused [of "st\<lparr>rst_overrides := Some os'\<rparr>"])
            (simp_all add: operator_override_def Let_def get_day_overrides_frame)
      next
        case (Inr rec)
        have "os_records os' = os_records os @ [rec]"
          using overrides.write_adds [of os _ _ _ _ rec] p Inr by (metis fst_conv snd_conv)
        with p Some Inr g \<open>channel_days st c (rd_date rd) = Some orig\<close> show thesis
          by (intro overridden [of "st\<lparr>rst_overrides := Some os'\<rparr>" ?ov])
            (simp_all add: operator_override_def Let_def get_day_overrides_frame)
      qed
    qed
  qed
qed

lemma force_replace_cases:
  "(\<exists>e. force_replace st c rd = (st, Inl e)) \<or>
    force_replace st c rd = (put_day st c rd, Inr ()) \<and> traceability_check st rd = Inr ()
    \<and> get_day st c (rd_date rd) \<noteq> None \<and> validate_against_preceding st c rd = Inr ()"
  unfolding force_replace_def get_day_def
  by (cases "traceability_check st rd"; cases "validate_against_preceding st c rd") auto

lemma get_day_delete:
  assumes "delete_day st xs c d = (st', r)"
  shows "get_day st' c' d' = (if r = Inr () \<and> c' = c \<and> d' = d then None else get_day st c' d')"
    and "rst_enforce st' = rst_enforce st"
    and "r = Inr () \<Longrightarrow> xs = Some x \<Longrightarrow> \<not> has_entries_for x c d"
proof -
  have "get_day st' c' d' = (if r = Inr () \<and> c' = c \<and> d' = d then None else get_day st c' d')
    \<and> rst_enforce st' = rst_enforce st \<and> (r = Inr () \<longrightarrow> xs = Some x \<longrightarrow> \<not> has_entries_for x c d)"
  proof (cases "case xs of None \<Rightarrow> False | Some xs \<Rightarrow> has_entries_for xs c d")
    case True
    then have "st' = st" "r \<noteq> Inr ()" using assms by (auto simp: delete_day_def)
    then show ?thesis by simp
  next
    case False
    then have del: "(st', r) = (case rst_days st c of None \<Rightarrow> (st, Inr ())
        | Some m \<Rightarrow> (st\<lparr>rst_days := (rst_days st)(c \<mapsto> m(d := None))\<rparr>, Inr ()))"
      using assms by (simp add: delete_day_def)
    have "xs = Some x \<longrightarrow> \<not> has_entries_for x c d" using False by auto
    with del show ?thesis
      by (cases "rst_days st c") (simp_all add: get_day_def channel_days_def)
  qed
  then show "get_day st' c' d' = (if r = Inr () \<and> c' = c \<and> d' = d then None else get_day st c' d')"
    and "rst_enforce st' = rst_enforce st"
    and "r = Inr () \<Longrightarrow> xs = Some x \<Longrightarrow> \<not> has_entries_for x c d" by auto
qed

lemma traceability_check_ok:
  "rst_inv b st \<Longrightarrow> traceability_check st rd = Inr () \<Longrightarrow> b \<Longrightarrow> traceable rd"
  by (simp add: traceability_check_def enforce_derivation_traceability_iff rst_inv_def)

lemma rst_inv_store_day [rv_inv]:
  assumes "rst_inv b st"
  shows "rst_inv b (fst (store_day st c rd))"
proof (rule store_day_cases [of st c rd])
  fix st1 e assume "store_day st c rd = (st1, Inl e)" "get_day st1 = get_day st"
  with assms rst_enforce_store_day [of st c rd] show ?thesis by (simp add: rst_inv_def)
next
  assume a: "store_day st c rd = (put_day st c rd, Inr ())" "traceability_check st rd = Inr ()"
  have "rst_inv b (put_day st c rd)"
    using traceability_check_ok [OF assms a(2)] by (rule rst_inv_put [OF assms])
  with a show ?thesis by simp
qed

lemma rst_inv_force_replace [rv_inv]:
  assumes "rst_inv b st"
  shows "rst_inv b (fst (force_replace st c rd))"
  using force_replace_cases [of st c rd]
proof
  assume "\<exists>e. force_replace st c rd = (st, Inl e)"
  then obtain e where "force_replace st c rd = (st, Inl e)" ..
  with assms show ?thesis by simp
next
  assume a: "force_replace st c rd = (put_day st c rd, Inr ()) \<and> traceability_check st rd = Inr ()
    \<and> get_day st c (rd_date rd) \<noteq> None \<and> validate_against_preceding st c rd = Inr ()"
  then have "rst_inv b (put_day st c rd)"
    using traceability_check_ok [OF assms, of rd] by (intro rst_inv_put [OF assms]) blast
  with a show ?thesis by simp
qed

lemma rst_inv_delete_day:
  assumes "rst_inv b st" and del: "delete_day st xs c d = (st', r)"
  shows "rst_inv b st'"
proof -
  have "get_day st c' d' = Some rd" if "get_day st' c' d' = Some rd" for c' d' rd
    using that unfolding get_day_delete(1) [OF del] by (simp split: if_splits)
  then show ?thesis using assms(1) get_day_delete(2) [OF del] unfolding rst_inv_def by metis
qed

lemma rst_inv_override [rv_inv]:
  assumes "rst_inv b st"
  shows "rst_inv b (fst (operator_override st clk oid c rd))"
proof (rule operator_override_cases [of st clk oid c rd])
  fix st1 e assume "operator_override st clk oid c rd = (st1, Inl e)" "get_day st1 = get_day st"
    "rst_enforce st1 = rst_enforce st"
  with assms show ?thesis by (simp add: rst_inv_def)
next
  fix st1 ov assume a: "operator_override st clk oid c rd = (put_day st1 c ov, Inr ov)"
    "get_day st1 = get_day st" "rst_enforce st1 = rst_enforce st" "rd_override ov"
  then have "rst_inv b st1" using assms by (simp add: rst_inv_def)
  then have "rst_inv b (put_day st1 c ov)" using a(4) by (intro rst_inv_put) (simp_all add: traceable_def)
  with a show ?thesis by simp
qed

lemma rst_step_inv: "rst_step st st' \<Longrightarrow> rst_inv b st \<Longrightarrow> rst_inv b st'"
proof (induction rule: rst_step.induct)
  case (Store st c rd st' r)
  then show ?case using rst_inv_store_day [of b st c rd] by simp
next
  case (Replace st c rd st' r)
  then show ?case using rst_inv_force_replace [of b st c rd] by simp
next
  case (Delete st xs c d st' r)
  then show ?case by (blast intro: rst_inv_delete_day)
next
  case (Update st c d fs st' r)
  then show ?case by (simp add: update_day_def)
next
  case (Override st clk oid c rd st' r)
  then show ?case using rst_inv_override [of b st clk oid c rd] by simp
qed

lemma rst_reachable_inv: "rst_reachable h enforce os st \<Longrightarrow> rst_inv enforce st"
proof (induction rule: rst_reachable.induct)
  case (Init h enforce os)
  show ?case by (simp add: rst_inv_def empty_resolved_store_def get_day_def channel_days_def)
next
  case (Step h enforce os st st')
  then show ?case by (blast intro: rst_step_inv)
qed

section \<open>Worked examples\<close>

text \<open>Slots over a programming day that starts at 06:00, by hour and length in hours.\<close>

definition demo_rs :: "int \<Rightarrow> rat \<Rightarrow> resolved_slot" where
  "demo_rs hour hours = (demo_slot (hour * us_per_hour))\<lparr>rs_duration := hours * 3600\<rparr>"

definition demo_rd :: "date \<Rightarrow> resolved_slot list \<Rightarrow> resolved_day" where
  "demo_rd d slots = \<lparr>rd_date = d, rd_slots = slots, rd_timestamp = 0,
     rd_sequence = \<lparr>sq_positions = [], sq_as_of = None\<rparr>, rd_events = [], rd_plan_id = Some ''plan'',
     rd_override = False, rd_supersedes = None\<rparr>"

section \<open>Properties\<close>

text \<open>
  Storing a resolved day succeeds only on a free date whose checks pass; then exactly that day
  is added under its date and every other answer is as before.  A refused call changes no answer,
  and a second day for the same channel and date is always refused.
\<close>

theorem store_day_one_per_date:
  "(case store_day st c rd of
      (st', Inl _) \<Rightarrow> get_day st' = get_day st
    | (st', Inr _) \<Rightarrow> get_day st c (rd_date rd) = None
        \<and> traceability_check st rd = Inr () \<and> validate_against_preceding st c rd = Inr ()
        \<and> get_day st' = (get_day st)(c := (get_day st c)(rd_date rd := Some rd))
        \<and> (\<exists>e. snd (store_day st' c (rd'\<lparr>rd_date := rd_date rd\<rparr>)) = Inl e))"
proof (rule store_day_cases [of st c rd])
  fix e st' assume "store_day st c rd = (st', Inl e)" "get_day st' = get_day st"
  then show ?thesis by simp
next
  assume a: "store_day st c rd = (put_day st c rd, Inr ())" "get_day st c (rd_date rd) = None"
    "traceability_check st rd = Inr ()" "validate_against_preceding st c rd = Inr ()"
  have "get_day (put_day st c rd) c (rd_date (rd'\<lparr>rd_date := rd_date rd\<rparr>)) = Some rd"
    by (simp add: get_day_put_day)
  from days.taken_date_refused [OF this] a show ?thesis
    by (auto simp: get_day_put_day fun_eq_iff)
qed

text \<open>
  In a day that the contiguity check accepts (with slots that do not run backwards) every
  instant from the effective start to the end of the broadcast day belongs to exactly one slot.
\<close>

theorem contiguous_day_covers_once:
  assumes "validate_scheduleday_contiguity rd h eff = Inr ()"
    and "\<forall>s \<in> set (rd_slots rd). 0 \<le> secs_to_us (rs_duration s)"
    and "(case eff of None \<Rightarrow> broadcast_start (rd_date rd) h | Some u \<Rightarrow> u) \<le> t"
    and "t < broadcast_start (rd_date rd) h + us_per_day"
  shows "length (filter (\<lambda>s. rs_start (rd_date rd) h s \<le> t \<and> t < rs_end (rd_date rd) h s) (rd_slots rd)) = 1"
  using assms by (rule contiguous_day_covers)

theorem contiguous_day_covers_once_witness:
  "length (filter (\<lambda>s. rs_start 20000 6 s \<le> 1728090000000000 \<and> 1728090000000000 < rs_end 20000 6 s)
     [demo_rs 6 18, demo_rs 0 6]) = 1"
proof -
  let ?rd = "demo_rd 20000 [demo_rs 6 18, demo_rs 0 6]"
  have 1: "validate_scheduleday_contiguity ?rd 6 None = Inr ()" by code_simp
  have 2: "\<forall>s \<in> set (rd_slots ?rd). 0 \<le> secs_to_us (rs_duration s)" by code_simp
  have 3: "(case None of None \<Rightarrow> broadcast_start (rd_date ?rd) 6 | Some u \<Rightarrow> u) \<le> 1728090000000000" by code_simp
  have 4: "1728090000000000 < broadcast_start (rd_date ?rd) 6 + us_per_day" by code_simp
  show ?thesis using contiguous_day_covers_once [OF 1 2 3 4] by (simp add: demo_rd_def)
qed

text \<open>
  The seam check takes the last slot in clock order for the last one of the programming day,
  so a carry-in from an after-midnight slot is missed: with validation on, a day whose last slot
  runs past the boundary and a next day that starts on it are both stored, and overlap.
\<close>

theorem seam_check_misses_overnight_carry_in:
  "\<exists>prev new. \<exists>s \<in> set (rd_slots prev). \<exists>s' \<in> set (rd_slots new).
     (let (st1, r1) = store_day (empty_resolved_store (Some 6) True None) ''ch'' prev;
          (st2, r2) = store_day st1 ''ch'' new
      in r1 = Inr () \<and> r2 = Inr () \<and> rd_date new = rd_date prev + 1
        \<and> rs_start (rd_date new) 6 s' < rs_end (rd_date prev) 6 s)"
proof -
  let ?prev = "demo_rd 20000 [demo_rs 6 18, demo_rs 0 7]" and ?new = "demo_rd 20001 [demo_rs 6 24]"
  have m: "demo_rs 0 7 \<in> set (rd_slots ?prev)" "demo_rs 6 24 \<in> set (rd_slots ?new)"
    by (simp_all add: demo_rd_def)
  have "let (st1, r1) = store_day (empty_resolved_store (Some 6) True None) ''ch'' ?prev;
          (st2, r2) = store_day st1 ''ch'' ?new
      in r1 = Inr () \<and> r2 = Inr () \<and> rd_date ?new = rd_date ?prev + 1
        \<and> rs_start (rd_date ?new) 6 (demo_rs 6 24) < rs_end (rd_date ?prev) 6 (demo_rs 0 7)"
    by code_simp
  with m show ?thesis by blast
qed

text \<open>
  In every store reachable through the operations, a day is filed under its own date, and when
  traceability is enforced every stored day names its plan or is an operator override.
\<close>

theorem reachable_days_traceable:
  assumes "rst_reachable h enforce os st" and "get_day st c d = Some rd"
  shows "rd_date rd = d \<and> (enforce \<longrightarrow> rd_override rd \<or> rd_plan_id rd \<noteq> None)"
  using rst_reachable_inv [OF assms(1)] assms(2) by (auto simp: rst_inv_def traceable_def)

theorem reachable_days_traceable_witness:
  "rd_plan_id (the (get_day (fst (store_day (empty_resolved_store (Some 6) True None) ''ch''
     (demo_rd 20000 [demo_rs 6 24]))) ''ch'' 20000)) \<noteq> None"
proof -
  let ?st = "fst (store_day (empty_resolved_store (Some 6) True None) ''ch'' (demo_rd 20000 [demo_rs 6 24]))"
  have "rst_reachable (Some 6) True None ?st"
    by (rule rst_reachable.Step [OF rst_reachable.Init rst_step.Store [OF surjective_pairing]])
  moreover have "get_day ?st ''ch'' 20000 = Some (demo_rd 20000 [demo_rs 6 24])" by code_simp
  ultimately have "True \<longrightarrow> rd_override (demo_rd 20000 [demo_rs 6 24]) \<or> rd_plan_id (demo_rd 20000 [demo_rs 6 24]) \<noteq> None"
    and g: "get_day ?st ''ch'' 20000 = Some (demo_rd 20000 [demo_rs 6 24])"
    using reachable_days_traceable by blast+
  then show ?thesis by (simp add: demo_rd_def)
qed

text \<open>
  An operator override writes its record before it touches the day: if the record cannot be
  written nothing is replaced, and if it is, exactly one record is added, the day is replaced by
  the override (marked as such and pointing at the original), and no other day changes.
\<close>

theorem operator_override_atomic:
  "(case operator_override st clk oid c rd of
      (st', Inl _) \<Rightarrow> get_day st' = get_day st
    | (st', Inr ov) \<Rightarrow> get_day st c (rd_date rd) \<noteq> None
        \<and> get_day st' = (get_day st)(c := (get_day st c)(rd_date rd := Some ov))
        \<and> rd_override ov \<and> rd_slots ov = rd_slots rd \<and> rd_supersedes ov = Some oid
        \<and> map_option (\<lambda>os. length (os_records os)) (rst_overrides st') =
            map_option (\<lambda>os. Suc (length (os_records os))) (rst_overrides st))"
proof (rule operator_override_cases [of st clk oid c rd])
  fix e st' assume "operator_override st clk oid c rd = (st', Inl e)" "get_day st' = get_day st"
  then show ?thesis by simp
next
  fix st1 ov assume a: "operator_override st clk oid c rd = (put_day st1 c ov, Inr ov)"
      "get_day st c (rd_date rd) \<noteq> None" "get_day st1 = get_day st" "rd_override ov"
      "rd_date ov = rd_date rd" "rd_slots ov = rd_slots rd" "rd_supersedes ov = Some oid"
      "map_option (\<lambda>os. length (os_records os)) (rst_overrides st1) =
        map_option (\<lambda>os. Suc (length (os_records os))) (rst_overrides st)"
  moreover have "rst_overrides (put_day st1 c ov) = rst_overrides st1" by (simp add: put_day_def)
  moreover have "get_day (put_day st1 c ov) = (get_day st)(c := (get_day st c)(rd_date rd := Some ov))"
    using a by (simp add: fun_eq_iff get_day_put_day)
  ultimately show ?thesis by simp
qed

text \<open>
  A stored day leaves no execution entries behind when it is deleted: with an execution store
  configured, deletion succeeds only when no entry refers to the day.
\<close>

lemma delete_day_anchored:
  "delete_day st (Some xs) c d = (st', Inr ()) \<Longrightarrow> \<not> has_entries_for xs c d \<and> get_day st' c d = None"
  using get_day_delete by auto

end
