(* ===== verification/Schedule_Manager.thy ===== *)
theory Schedule_Manager
  imports Resolved_Store
begin

text \<open>
  The schedule manager, \<^verbatim>\<open>runtime/schedule_manager.py\<close>.  Editorial resolution turns the slots of a
  day into program events and resolved slots, choosing one episode per event
  (\<^verbatim>\<open>resolve_schedule_day\<close>, \<^verbatim>\<open>_resolve_program_ref\<close>, \<^verbatim>\<open>_select_episode\<close>); structural expansion
  projects a resolved day onto the grid block around an instant (\<^verbatim>\<open>get_program_at\<close>,
  \<^verbatim>\<open>get_next_program\<close>, \<^verbatim>\<open>_build_segments\<close>, \<^verbatim>\<open>_find_resolved_slot_at\<close>); \<^verbatim>\<open>get_epg_events\<close> lists
  events in a range.  The program catalogue, a protocol of \<^verbatim>\<open>runtime/schedule_types.py\<close>, is an
  argument.  All instants are in UTC or all naive, so attaching and stripping the zone is the
  identity.  The resolution loop is partial: \<open>None\<close> is a loop that makes no progress, which needs
  a grid of no minutes.
\<close>

record sm_config =
  cfg_grid_minutes :: int
  cfg_filler_path :: string
  cfg_filler_duration :: rat
  cfg_start_hour :: int

type_synonym catalog = "string \<Rightarrow> program option"

record sched_state =
  ss_sequence :: sequence_store
  ss_resolved :: resolved_store

section \<open>Episode selection\<close>

definition random_seed :: "string \<Rightarrow> string \<Rightarrow> date \<Rightarrow> time_of_day \<Rightarrow> string" where
  "random_seed channel program_id d t =
     channel @ '':'' @ program_id @ '':'' @ iso_date d @ '':'' @ iso_time t"

definition deterministic_random_select :: "string \<Rightarrow> string \<Rightarrow> date \<Rightarrow> time_of_day \<Rightarrow> int \<Rightarrow> int" where
  "deterministic_random_select channel program_id d t episode_count =
     sha256_int8 (random_seed channel program_id d t) mod episode_count"

definition select_episode ::
  "sequence_store \<Rightarrow> string \<Rightarrow> program \<Rightarrow> date \<Rightarrow> time_of_day \<Rightarrow> sequence_store \<times> episode res" where
  "select_episode seq channel prog d t =
     (let n = int (length (prog_episodes prog))
      in if prog_episodes prog = [] then (seq, Inl (ScheduleError ''has no episodes''))
         else if prog_play_mode prog = ''sequential''
         then (let current_index = get_position seq channel (prog_id prog);
                   ep = prog_episodes prog ! nat (current_index mod n);
                   next_index = (current_index + 1) mod n
               in (set_position seq channel (prog_id prog) next_index, Inr ep))
         else if prog_play_mode prog = ''random''
         then (seq, Inr (prog_episodes prog ! nat (deterministic_random_select channel (prog_id prog) d t n)))
         else if prog_play_mode prog = ''manual''
         then (seq, Inr (prog_episodes prog ! 0))
         else (seq, Inl (ScheduleError ''Unknown play_mode'')))"

definition resolve_program_ref ::
  "sm_config \<Rightarrow> catalog \<Rightarrow> sequence_store \<Rightarrow> string \<Rightarrow> program_ref \<Rightarrow> date \<Rightarrow> time_of_day
    \<Rightarrow> sequence_store \<times> resolved_asset res" where
  "resolve_program_ref cfg cat seq channel ref d t =
     (case ref_type ref of
        FILE \<Rightarrow> (seq, Inr \<lparr>ra_path = ref_id ref, ra_asset_id = None, ra_title = ref_id ref,
          ra_episode_title = None, ra_episode_id = None, ra_duration = 0\<rparr>)
      | ASSET \<Rightarrow> (seq, Inr \<lparr>ra_path = ''/media/assets/'' @ ref_id ref @ ''.mp4'',
          ra_asset_id = Some (ref_id ref), ra_title = ref_id ref, ra_episode_title = None,
          ra_episode_id = None, ra_duration = 0\<rparr>)
      | PROGRAM \<Rightarrow>
        (case cat (ref_id ref) of
           None \<Rightarrow> (seq, Inr \<lparr>ra_path = cfg_filler_path cfg, ra_asset_id = None,
             ra_title = ''Unknown Program'', ra_episode_title = None, ra_episode_id = None, ra_duration = 0\<rparr>)
         | Some prog \<Rightarrow>
           (case select_episode seq channel prog d t of
              (seq', Inl e) \<Rightarrow> (seq', Inl e)
            | (seq', Inr ep) \<Rightarrow>
              (seq', Inr \<lparr>ra_path = ep_path ep, ra_asset_id = Some (ep_id ep), ra_title = prog_name prog,
                ra_episode_title = Some (ep_title ep), ra_episode_id = Some (ep_id ep),
                ra_duration = ep_duration ep\<rparr>))))"

section \<open>Resolution of a day\<close>

definition sm_slot_to_datetime :: "sm_config \<Rightarrow> date \<Rightarrow> time_of_day \<Rightarrow> datetime" where
  "sm_slot_to_datetime cfg d t =
     combine d t + (if hour_of t < cfg_start_hour cfg then us_per_day else 0)"

text \<open>\<open>math.ceil(content_duration / grid_seconds)\<close>, or one block for content of unknown length.\<close>

definition block_span_of :: "sm_config \<Rightarrow> rat \<Rightarrow> int res" where
  "block_span_of cfg content_duration =
     (let grid_seconds = cfg_grid_minutes cfg * 60
      in if 0 < content_duration
         then (if grid_seconds = 0 then Inl ZeroDivisionError
               else Inr \<lceil>fl (content_duration / fl (of_int grid_seconds))\<rceil>)
         else Inr 1)"

definition make_event ::
  "sm_config \<Rightarrow> string \<Rightarrow> date \<Rightarrow> nat \<Rightarrow> schedule_slot \<Rightarrow> resolved_asset \<Rightarrow> int \<Rightarrow> program_event" where
  "make_event cfg channel d slot_idx slot asset block_span =
     \<lparr>pe_id = channel @ ''-'' @ iso_date d @ ''-evt'' @ zero_pad 4 slot_idx,
      pe_program_id = ref_id (slot_ref slot),
      pe_episode_id = (case ra_episode_id asset of None \<Rightarrow> [] | Some e \<Rightarrow> e),
      pe_start_ms = to_epoch_ms (sm_slot_to_datetime cfg d (slot_time slot)),
      pe_duration_ms = py_trunc (fl (ra_duration asset * 1000)),
      pe_span = block_span, pe_asset = Some asset\<rparr>"

definition make_resolved_slot ::
  "sm_config \<Rightarrow> schedule_slot \<Rightarrow> resolved_asset \<Rightarrow> int \<Rightarrow> schedule_slot \<Rightarrow> resolved_slot" where
  "make_resolved_slot cfg slot asset block_span s =
     \<lparr>rs_time = slot_time s, rs_ref = slot_ref slot, rs_asset = asset,
      rs_duration = of_int (block_span * (cfg_grid_minutes cfg * 60)), rs_label = slot_label slot\<rparr>"

partial_function (option) resolve_loop ::
  "sm_config \<Rightarrow> catalog \<Rightarrow> string \<Rightarrow> date \<Rightarrow> schedule_slot list \<Rightarrow> nat \<Rightarrow> sequence_store
    \<Rightarrow> resolved_slot list \<Rightarrow> program_event list
    \<Rightarrow> (sequence_store \<times> (resolved_slot list \<times> program_event list) res) option" where
  "resolve_loop cfg cat channel d slots slot_idx seq rslots events =
     (if length slots \<le> slot_idx then Some (seq, Inr (rslots, events))
      else let slot = slots ! slot_idx;
               (seq', r) = resolve_program_ref cfg cat seq channel (slot_ref slot) d (slot_time slot)
           in case r of
                Inl e \<Rightarrow> Some (seq', Inl e)
              | Inr asset \<Rightarrow>
                (case block_span_of cfg (ra_duration asset) of
                   Inl e \<Rightarrow> Some (seq', Inl e)
                 | Inr block_span \<Rightarrow>
                   (let consumed = nat (min block_span (int (length slots - slot_idx)))
                    in resolve_loop cfg cat channel d slots (slot_idx + consumed) seq'
                         (rslots @ map (make_resolved_slot cfg slot asset block_span)
                                     (take consumed (drop slot_idx slots)))
                         (events @ [make_event cfg channel d slot_idx slot asset block_span]))))"

declare resolve_loop.simps [code]

definition resolve_schedule_day ::
  "sm_config \<Rightarrow> catalog \<Rightarrow> sched_state \<Rightarrow> string \<Rightarrow> date \<Rightarrow> schedule_slot list \<Rightarrow> datetime
    \<Rightarrow> (sched_state \<times> resolved_day res) option" where
  "resolve_schedule_day cfg cat st channel d slots resolution_time =
     (case get_day (ss_resolved st) channel d of
        Some existing \<Rightarrow> Some (st, Inr existing)
      | None \<Rightarrow>
        (case resolve_loop cfg cat channel d slots 0 (ss_sequence st) [] [] of
           None \<Rightarrow> None
         | Some (seq, Inl e) \<Rightarrow> Some (st\<lparr>ss_sequence := seq\<rparr>, Inl e)
         | Some (seq, Inr (rslots, events)) \<Rightarrow>
           (let resolved = \<lparr>rd_date = d, rd_slots = rslots, rd_timestamp = resolution_time,
                  rd_sequence = \<lparr>sq_positions = [], sq_as_of = Some resolution_time\<rparr>,
                  rd_events = events, rd_plan_id = None, rd_override = False, rd_supersedes = None\<rparr>
            in case store_day (ss_resolved st) channel resolved of
                 (rst, Inl e) \<Rightarrow> Some (st\<lparr>ss_sequence := seq, ss_resolved := rst\<rparr>, Inl e)
               | (rst, Inr _) \<Rightarrow> Some (st\<lparr>ss_sequence := seq, ss_resolved := rst\<rparr>, Inr resolved))))"

section \<open>Grid arithmetic\<close>

definition programming_day_start :: "sm_config \<Rightarrow> datetime \<Rightarrow> datetime" where
  "programming_day_start cfg t =
     (let day_start = combine (date_of t) (cfg_start_hour cfg * us_per_hour)
      in if t < day_start then day_start - us_per_day else day_start)"

definition programming_day_date :: "sm_config \<Rightarrow> datetime \<Rightarrow> date" where
  "programming_day_date cfg t =
     (if hour_of (time_of t) < cfg_start_hour cfg then date_of t - 1 else date_of t)"

text \<open>Floor division of floats is the floor of the exact quotient.\<close>

definition floor_to_grid_boundary :: "sm_config \<Rightarrow> datetime \<Rightarrow> datetime" where
  "floor_to_grid_boundary cfg t =
     (let day_start = programming_day_start cfg t;
          seconds = total_seconds (t - day_start);
          grid_seconds = cfg_grid_minutes cfg * 60;
          floored = fl (of_int \<lfloor>seconds / of_int grid_seconds\<rfloor> * of_int grid_seconds)
      in day_start + secs_to_us floored)"

definition ceil_to_grid_boundary :: "sm_config \<Rightarrow> datetime \<Rightarrow> datetime" where
  "ceil_to_grid_boundary cfg t =
     (let floored = floor_to_grid_boundary cfg t
      in if floored = t then t else floored + cfg_grid_minutes cfg * 60000000)"

section \<open>Structural expansion\<close>

fun find_slot_in :: "sm_config \<Rightarrow> date \<Rightarrow> datetime \<Rightarrow> resolved_slot list \<Rightarrow> (resolved_slot \<times> datetime) option" where
  "find_slot_in cfg d block_start [] = None"
| "find_slot_in cfg d block_start (s # ss) =
     (let slot_start = sm_slot_to_datetime cfg d (rs_time s);
          slot_end = slot_start + secs_to_us (rs_duration s)
      in if slot_start \<le> block_start \<and> block_start < slot_end then Some (s, slot_start)
         else find_slot_in cfg d block_start ss)"

fun find_in_days ::
  "sm_config \<Rightarrow> resolved_store \<Rightarrow> string \<Rightarrow> datetime \<Rightarrow> date list \<Rightarrow> (resolved_slot \<times> datetime) option" where
  "find_in_days cfg rst channel block_start [] = None"
| "find_in_days cfg rst channel block_start (d # ds) =
     (case get_day rst channel d of
        None \<Rightarrow> find_in_days cfg rst channel block_start ds
      | Some rd \<Rightarrow>
        (case find_slot_in cfg d block_start (rd_slots rd) of
           Some r \<Rightarrow> Some r
         | None \<Rightarrow> find_in_days cfg rst channel block_start ds))"

definition find_resolved_slot_at ::
  "sm_config \<Rightarrow> resolved_store \<Rightarrow> string \<Rightarrow> datetime \<Rightarrow> (resolved_slot \<times> datetime) option" where
  "find_resolved_slot_at cfg rst channel block_start =
     (let current_day_start = programming_day_start cfg block_start
      in find_in_days cfg rst channel block_start
           [date_of current_day_start, date_of (current_day_start - us_per_day)])"

definition build_segments ::
  "sm_config \<Rightarrow> resolved_store \<Rightarrow> string \<Rightarrow> datetime \<Rightarrow> datetime \<Rightarrow> playout_segment list" where
  "build_segments cfg rst channel block_start block_end =
     (let fps = 30
      in case find_resolved_slot_at cfg rst channel block_start of
           None \<Rightarrow> [from_time_based block_start block_end (cfg_filler_path cfg) fps 0 ''filler'' False]
         | Some (slot, slot_start) \<Rightarrow>
           (let content_duration = (if ra_duration (rs_asset slot) \<noteq> 0 then ra_duration (rs_asset slot)
                                    else rs_duration slot);
                slot_end = slot_start + secs_to_us content_duration;
                segment_end = min slot_end block_end;
                seek_offset = total_seconds (block_start - slot_start);
                content = from_time_based block_start segment_end (ra_path (rs_asset slot)) fps seek_offset
                  ''content'' False
            in if slot_end < block_end
               then [content, from_time_based slot_end block_end (cfg_filler_path cfg) fps 0 ''filler'' False]
               else [content]))"

definition grid_block :: "sm_config \<Rightarrow> resolved_store \<Rightarrow> string \<Rightarrow> datetime \<Rightarrow> program_block" where
  "grid_block cfg rst channel block_start =
     (let block_end = block_start + cfg_grid_minutes cfg * 60000000
      in \<lparr>pb_start = block_start, pb_end = block_end,
          pb_segments = build_segments cfg rst channel block_start block_end,
          pb_fps = 30, pb_padding_frames = 0\<rparr>)"

definition get_program_at :: "sm_config \<Rightarrow> resolved_store \<Rightarrow> string \<Rightarrow> datetime \<Rightarrow> program_block" where
  "get_program_at cfg rst channel at_time = grid_block cfg rst channel (floor_to_grid_boundary cfg at_time)"

definition get_next_program :: "sm_config \<Rightarrow> resolved_store \<Rightarrow> string \<Rightarrow> datetime \<Rightarrow> program_block" where
  "get_next_program cfg rst channel after_time =
     grid_block cfg rst channel (ceil_to_grid_boundary cfg after_time)"

section \<open>EPG events in a range\<close>

definition epg_of :: "string \<Rightarrow> date \<Rightarrow> datetime \<Rightarrow> datetime \<Rightarrow> resolved_asset \<Rightarrow> epg_event" where
  "epg_of channel d a b asset =
     \<lparr>epg_channel = channel, epg_start = a, epg_end = b, epg_title = ra_title asset,
      epg_episode_title = ra_episode_title asset, epg_episode_id = ra_episode_id asset,
      epg_asset = asset, epg_date = d\<rparr>"

text \<open>The loop over the events of a day; \<open>slot_idx\<close> runs ahead by whole spans.\<close>

fun epg_of_events ::
  "sm_config \<Rightarrow> string \<Rightarrow> date \<Rightarrow> resolved_slot list \<Rightarrow> datetime \<Rightarrow> datetime \<Rightarrow> program_event list \<Rightarrow> int
    \<Rightarrow> epg_event list res" where
  "epg_of_events cfg channel d slots a b [] slot_idx = Inr []"
| "epg_of_events cfg channel d slots a b (pe # pes) slot_idx =
     (if int (length slots) \<le> slot_idx then Inl IndexError
      else let first_slot = slots ! nat slot_idx;
               event_start = sm_slot_to_datetime cfg d (rs_time first_slot);
               event_end = event_start + pe_span pe * (cfg_grid_minutes cfg * 60) * 1000000;
               asset = (case pe_asset pe of None \<Rightarrow> rs_asset first_slot | Some x \<Rightarrow> x)
           in bind_res (epg_of_events cfg channel d slots a b pes (slot_idx + pe_span pe)) (\<lambda>evs.
                Inr (if event_start < b \<and> a < event_end
                     then epg_of channel d event_start event_end asset # evs else evs)))"

fun epg_of_slots ::
  "sm_config \<Rightarrow> string \<Rightarrow> date \<Rightarrow> datetime \<Rightarrow> datetime \<Rightarrow> resolved_slot list \<Rightarrow> epg_event list" where
  "epg_of_slots cfg channel d a b [] = []"
| "epg_of_slots cfg channel d a b (s # ss) =
     (let slot_start = sm_slot_to_datetime cfg d (rs_time s);
          slot_end = slot_start + secs_to_us (rs_duration s);
          evs = epg_of_slots cfg channel d a b ss
      in if slot_start < b \<and> a < slot_end
         then epg_of channel d slot_start slot_end (rs_asset s) # evs else evs)"

text \<open>\<open>while current < end_time: \<dots>; current += timedelta(days=1)\<close>.\<close>

function day_steps :: "datetime \<Rightarrow> datetime \<Rightarrow> datetime list" where
  "day_steps current end_time =
     (if current < end_time then current # day_steps (current + us_per_day) end_time else [])"
  by auto
termination by (relation "measure (\<lambda>(c, e). nat (e - c))") (auto simp: us_defs)

declare day_steps.simps [simp del]

definition epg_of_day ::
  "sm_config \<Rightarrow> resolved_store \<Rightarrow> string \<Rightarrow> datetime \<Rightarrow> datetime \<Rightarrow> datetime \<Rightarrow> epg_event list res" where
  "epg_of_day cfg rst channel a b current =
     (let d = programming_day_date cfg current
      in case get_day rst channel d of
           None \<Rightarrow> Inr []
         | Some rd \<Rightarrow>
           if rd_events rd \<noteq> []
           then epg_of_events cfg channel d (rd_slots rd) a b (rd_events rd) 0
           else Inr (epg_of_slots cfg channel d a b (rd_slots rd)))"

definition get_epg_events ::
  "sm_config \<Rightarrow> resolved_store \<Rightarrow> string \<Rightarrow> datetime \<Rightarrow> datetime \<Rightarrow> epg_event list res" where
  "get_epg_events cfg rst channel start_time end_time =
     map_sum id concat (map_res (epg_of_day cfg rst channel start_time end_time)
       (day_steps start_time end_time))"

section \<open>The resolution loop\<close>

lemma block_span_positive:
  assumes "0 < cfg_grid_minutes cfg" "block_span_of cfg dur = Inr n"
  shows "1 \<le> n"
proof -
  have "0 < fl (of_int (cfg_grid_minutes cfg * 60))" using assms(1) by (intro fl_pos) simp
  then have "0 < dur \<Longrightarrow> 0 < fl (dur / fl (of_int (cfg_grid_minutes cfg * 60)))" by (intro fl_pos) simp
  then have "0 < dur \<Longrightarrow> 0 < \<lceil>fl (dur / fl (of_int (cfg_grid_minutes cfg * 60)))\<rceil>" by simp
  then show ?thesis using assms by (auto simp: block_span_of_def Let_def split: if_splits)
qed

text \<open>One iteration.\<close>

lemma resolve_loop_done:
  "length slots \<le> i \<Longrightarrow> resolve_loop cfg cat c d slots i seq rs evs = Some (seq, Inr (rs, evs))"
  by (subst resolve_loop.simps) simp

lemma resolve_loop_step:
  assumes "i < length slots"
    and ref: "resolve_program_ref cfg cat seq c (slot_ref (slots ! i)) d (slot_time (slots ! i)) = (seq', r)"
  shows "resolve_loop cfg cat c d slots i seq rs evs =
    (case r of Inl e \<Rightarrow> Some (seq', Inl e)
     | Inr asset \<Rightarrow> (case block_span_of cfg (ra_duration asset) of Inl e \<Rightarrow> Some (seq', Inl e)
       | Inr n \<Rightarrow> let k = nat (min n (int (length slots - i))) in
           resolve_loop cfg cat c d slots (i + k) seq'
             (rs @ map (make_resolved_slot cfg (slots ! i) asset n) (take k (drop i slots)))
             (evs @ [make_event cfg c d i (slots ! i) asset n])))"
  using assms by (subst resolve_loop.simps) (simp add: Let_def)

text \<open>
  Events and resolved slots are produced in lockstep: each event owns the next slots, as many as
  it spans or as are left, and they all carry its asset.
\<close>

fun lockstep :: "program_event list \<Rightarrow> resolved_slot list \<Rightarrow> bool" where
  "lockstep [] rs \<longleftrightarrow> rs = []"
| "lockstep (e # es) rs \<longleftrightarrow> rs \<noteq> [] \<and> 1 \<le> pe_span e
     \<and> (\<forall>s \<in> set (take (nat (pe_span e)) rs). pe_asset e = Some (rs_asset s))
     \<and> lockstep es (drop (nat (pe_span e)) rs)"

lemma make_resolved_slot_fields [simp]:
  "rs_time (make_resolved_slot cfg slot asset n s) = slot_time s"
  "rs_asset (make_resolved_slot cfg slot asset n s) = asset"
  "rs_ref (make_resolved_slot cfg slot asset n s) = slot_ref slot"
  by (simp_all add: make_resolved_slot_def)

lemma make_event_fields [simp]:
  "pe_span (make_event cfg c d i slot asset n) = n"
  "pe_asset (make_event cfg c d i slot asset n) = Some asset"
  "pe_program_id (make_event cfg c d i slot asset n) = ref_id (slot_ref slot)"
  "pe_episode_id (make_event cfg c d i slot asset n) =
    (case ra_episode_id asset of None \<Rightarrow> [] | Some e \<Rightarrow> e)"
  by (simp_all add: make_event_def)

lemma lockstep_spans: "lockstep es rs \<Longrightarrow> length rs \<le> sum_list (map (\<lambda>e. nat (pe_span e)) es)"
proof (induction es arbitrary: rs)
  case (Cons e es)
  have "lockstep es (drop (nat (pe_span e)) rs)" using Cons.prems by simp
  from Cons.IH [OF this] show ?case by simp
qed simp

text \<open>
  On a grid of positive length the loop returns; what it appended is one resolved slot per slot,
  in order and at its time, in lockstep with the events.
\<close>

lemma resolve_loop_result:
  assumes g: "0 < cfg_grid_minutes cfg" and i: "i \<le> length slots"
  shows "\<exists>seq' r. resolve_loop cfg cat c d slots i seq rs evs = Some (seq', r)
    \<and> (\<forall>rs' evs'. r = Inr (rs', evs') \<longrightarrow>
        (\<exists>nrs nevs. rs' = rs @ nrs \<and> evs' = evs @ nevs
          \<and> map rs_time nrs = map slot_time (drop i slots) \<and> lockstep nevs nrs))"
  using i
proof (induction "length slots - i" arbitrary: i seq rs evs rule: less_induct)
  case less
  show ?case
  proof (cases "i < length slots")
    case False
    then show ?thesis using less.prems by (simp add: resolve_loop_done)
  next
    case True
    obtain seq1 r1 where ref: "resolve_program_ref cfg cat seq c (slot_ref (slots ! i)) d
        (slot_time (slots ! i)) = (seq1, r1)" by fastforce
    note step = resolve_loop_step [OF True ref, of rs evs]
    show ?thesis
    proof (cases r1)
      case (Inl e)
      then show ?thesis using step by simp
    next
      case r1: (Inr asset)
      show ?thesis
      proof (cases "block_span_of cfg (ra_duration asset)")
        case (Inl e)
        then show ?thesis using step r1 by simp
      next
        case (Inr n)
        have n: "1 \<le> n" by (rule block_span_positive [OF g Inr])
        define k where "k = nat (min n (int (length slots - i)))"
        have k: "0 < k" "i + k \<le> length slots" "k = min (nat n) (length slots - i)"
          using True n by (auto simp: k_def)
        let ?rs1 = "map (make_resolved_slot cfg (slots ! i) asset n) (take k (drop i slots))"
        let ?ev = "make_event cfg c d i (slots ! i) asset n"
        have st: "resolve_loop cfg cat c d slots i seq rs evs =
            resolve_loop cfg cat c d slots (i + k) seq1 (rs @ ?rs1) (evs @ [?ev])"
          using step r1 Inr by (simp add: k_def Let_def)
        have "length slots - (i + k) < length slots - i" using True k(1) by simp
        from less.hyps [OF this k(2), of seq1 "rs @ ?rs1" "evs @ [?ev]"]
        obtain seq' r where rec: "resolve_loop cfg cat c d slots (i + k) seq1 (rs @ ?rs1) (evs @ [?ev])
            = Some (seq', r)"
          and res: "\<forall>rs' evs'. r = Inr (rs', evs') \<longrightarrow> (\<exists>nrs nevs. rs' = (rs @ ?rs1) @ nrs
            \<and> evs' = (evs @ [?ev]) @ nevs \<and> map rs_time nrs = map slot_time (drop (i + k) slots)
            \<and> lockstep nevs nrs)" by blast
        have "\<exists>nrs nevs. rs' = rs @ nrs \<and> evs' = evs @ nevs
            \<and> map rs_time nrs = map slot_time (drop i slots) \<and> lockstep nevs nrs"
          if r: "r = Inr (rs', evs')" for rs' evs'
        proof -
          obtain nrs nevs where n': "rs' = (rs @ ?rs1) @ nrs" "evs' = (evs @ [?ev]) @ nevs"
            "map rs_time nrs = map slot_time (drop (i + k) slots)" "lockstep nevs nrs"
            using res r by blast
          have len: "length nrs = length slots - (i + k)" using arg_cong [OF n'(3), of length] by simp
          have rs1: "length ?rs1 = k" using k(2) by simp
          have "map rs_time (?rs1 @ nrs) = map slot_time (drop i slots)"
          proof -
            have "take k (drop i slots) @ drop (i + k) slots = drop i slots"
              by (metis add.commute append_take_drop_id drop_drop)
            then have "map slot_time (take k (drop i slots)) @ map slot_time (drop (i + k) slots)
                = map slot_time (drop i slots)" by (metis map_append)
            moreover have "map rs_time ?rs1 = map slot_time (take k (drop i slots))" by (simp add: o_def)
            ultimately show ?thesis using n'(3) by (simp only: map_append)
          qed
          moreover have "lockstep (?ev # nevs) (?rs1 @ nrs)"
          proof (cases "nat n \<le> length slots - i")
            case True
            then have "k = nat n" using k(3) by simp
            with rs1 n n'(4) k(1) show ?thesis by auto
          next
            case False
            then have "nrs = []" using len k(3) by simp
            with rs1 n n'(4) k(1,3) False show ?thesis by auto
          qed
          ultimately show ?thesis using n'(1,2) by (intro exI [of _ "?rs1 @ nrs"] exI [of _ "?ev # nevs"]) simp
        qed
        with st rec show ?thesis by auto
      qed
    qed
  qed
qed

section \<open>Sequential selection\<close>

text \<open>
  The catalogue knows programs by their own identifiers, and the slots that name \<open>pid\<close> name a
  program.
\<close>

definition sequential_setup :: "catalog \<Rightarrow> string \<Rightarrow> program \<Rightarrow> schedule_slot list \<Rightarrow> bool" where
  "sequential_setup cat pid prog slots \<longleftrightarrow>
     (\<forall>r p. cat r = Some p \<longrightarrow> prog_id p = r) \<and> cat pid = Some prog
     \<and> prog_play_mode prog = ''sequential'' \<and> prog_episodes prog \<noteq> []
     \<and> (\<forall>s \<in> set slots. ref_id (slot_ref s) = pid \<longrightarrow> ref_type (slot_ref s) = PROGRAM)"

lemma select_episode_position:
  assumes "select_episode seq c p d t = (seq', r)"
  shows "get_position seq' c' q =
    (if prog_episodes p \<noteq> [] \<and> prog_play_mode p = ''sequential'' \<and> c' = c \<and> q = prog_id p
     then (get_position seq c q + 1) mod int (length (prog_episodes p)) else get_position seq c' q)"
proof (cases "prog_episodes p \<noteq> [] \<and> prog_play_mode p = ''sequential''")
  case True
  then have "seq' = set_position seq c (prog_id p)
      ((get_position seq c (prog_id p) + 1) mod int (length (prog_episodes p)))"
    using assms unfolding select_episode_def Let_def by simp
  with True show ?thesis by (simp add: positions.get_put)
next
  case False
  then have "seq' = seq" using assms unfolding select_episode_def Let_def
    by (simp split: if_splits)
  with False show ?thesis by auto
qed

lemma resolve_ref_position:
  assumes su: "sequential_setup cat pid prog slots" and s: "s \<in> set slots"
    and ref: "resolve_program_ref cfg cat seq c (slot_ref s) d t = (seq', Inr asset)"
  shows "if ref_id (slot_ref s) = pid
    then get_position seq' c pid = (get_position seq c pid + 1) mod int (length (prog_episodes prog))
      \<and> ra_episode_id asset =
          Some (ep_id (prog_episodes prog ! nat (get_position seq c pid mod int (length (prog_episodes prog)))))
    else get_position seq' c pid = get_position seq c pid"
proof (cases "ref_id (slot_ref s) = pid")
  case True
  then have "ref_type (slot_ref s) = PROGRAM" "cat (ref_id (slot_ref s)) = Some prog"
    "prog_play_mode prog = ''sequential''" "prog_episodes prog \<noteq> []" "prog_id prog = pid"
    using su s by (auto simp: sequential_setup_def)
  then have "resolve_program_ref cfg cat seq c (slot_ref s) d t =
      (set_position seq c pid ((get_position seq c pid + 1) mod int (length (prog_episodes prog))),
       Inr (let ep = prog_episodes prog ! nat (get_position seq c pid mod int (length (prog_episodes prog)))
         in \<lparr>ra_path = ep_path ep, ra_asset_id = Some (ep_id ep), ra_title = prog_name prog,
            ra_episode_title = Some (ep_title ep), ra_episode_id = Some (ep_id ep), ra_duration = ep_duration ep\<rparr>))"
    unfolding resolve_program_ref_def select_episode_def Let_def by simp
  with True ref show ?thesis by (auto simp: positions.get_put Let_def)
next
  case False
  show ?thesis
  proof (cases "ref_type (slot_ref s) = PROGRAM \<and> cat (ref_id (slot_ref s)) \<noteq> None")
    case True
    then obtain p where p: "cat (ref_id (slot_ref s)) = Some p" "prog_id p \<noteq> pid" "prog_id p = ref_id (slot_ref s)"
      using su False by (auto simp: sequential_setup_def)
    obtain seq1 r1 where sel: "select_episode seq c p d t = (seq1, r1)" by fastforce
    have "seq' = seq1" using ref True p sel by (auto simp: resolve_program_ref_def split: sum.splits)
    with select_episode_position [OF sel, of c pid] p False show ?thesis by simp
  next
    case other: False
    then have "seq' = seq" using ref
      by (auto simp: resolve_program_ref_def split: program_ref_type.splits option.splits)
    with False show ?thesis by simp
  qed
qed

lemma resolve_loop_sequential:
  assumes g: "0 < cfg_grid_minutes cfg" and su: "sequential_setup cat pid prog slots"
    and n: "n = int (length (prog_episodes prog))"
    and run: "resolve_loop cfg cat c d slots i seq rs evs = Some (seq', Inr (rs', evs'))"
    and pos: "0 \<le> get_position seq c pid" "get_position seq c pid < n"
  shows "\<exists>nevs. evs' = evs @ nevs
    \<and> get_position seq' c pid =
        (get_position seq c pid + int (length (filter (\<lambda>e. pe_program_id e = pid) nevs))) mod n
    \<and> map pe_episode_id (filter (\<lambda>e. pe_program_id e = pid) nevs) =
        map (\<lambda>k. ep_id (prog_episodes prog ! nat ((get_position seq c pid + int k) mod n)))
          [0..<length (filter (\<lambda>e. pe_program_id e = pid) nevs)]"
  using run pos
proof (induction "length slots - i" arbitrary: i seq rs evs rule: less_induct)
  case less
  let ?F = "filter (\<lambda>e. pe_program_id e = pid)"
  show ?case
  proof (cases "i < length slots")
    case False
    then have "seq' = seq" "evs' = evs" using less.prems(1) by (simp_all add: resolve_loop_done)
    then show ?thesis using less.prems(2,3) by (intro exI [of _ "[]"]) simp
  next
    case True
    obtain seq1 r1 where ref: "resolve_program_ref cfg cat seq c (slot_ref (slots ! i)) d
        (slot_time (slots ! i)) = (seq1, r1)" by fastforce
    note step = resolve_loop_step [OF True ref, of rs evs]
    obtain asset where r1: "r1 = Inr asset" using step less.prems(1) by (cases r1) auto
    obtain m where m: "block_span_of cfg (ra_duration asset) = Inr m"
      using step less.prems(1) r1 by (cases "block_span_of cfg (ra_duration asset)") auto
    have m1: "1 \<le> m" by (rule block_span_positive [OF g m])
    define k where "k = nat (min m (int (length slots - i)))"
    have k: "0 < k" using True m1 by (auto simp: k_def)
    let ?ev = "make_event cfg c d i (slots ! i) asset m"
    obtain rs1 where rec: "resolve_loop cfg cat c d slots (i + k) seq1 rs1 (evs @ [?ev]) = Some (seq', Inr (rs', evs'))"
      using step less.prems(1) r1 m by (auto simp: k_def Let_def)
    have si: "slots ! i \<in> set slots" using True by simp
    note pos1 = resolve_ref_position [OF su si ref [unfolded r1]]
    have lt: "length slots - (i + k) < length slots - i" using True k by simp
    have n0: "0 < n" using less.prems by linarith
    let ?p = "get_position seq c pid" and ?p1 = "get_position seq1 c pid"
    have b: "0 \<le> ?p1" "?p1 < n" using pos1 less.prems(2,3) n n0 by (auto split: if_splits)
    obtain nevs where nevs: "evs' = (evs @ [?ev]) @ nevs"
      "get_position seq' c pid = (?p1 + int (length (?F nevs))) mod n"
      "map pe_episode_id (?F nevs) = map (\<lambda>k. ep_id (prog_episodes prog ! nat ((?p1 + int k) mod n))) [0..<length (?F nevs)]"
      using less.hyps [OF lt rec b] by blast
    show ?thesis
    proof (cases "ref_id (slot_ref (slots ! i)) = pid")
      case True
      then have p1: "?p1 = (?p + 1) mod n" "pe_episode_id ?ev = ep_id (prog_episodes prog ! nat (?p mod n))"
        using pos1 n by simp_all
      have sh: "(?p1 + int j) mod n = (?p + int (Suc j)) mod n" for j
        by (simp add: p1 mod_simps algebra_simps)
      have "map pe_episode_id (?F (?ev # nevs)) =
          map (\<lambda>k. ep_id (prog_episodes prog ! nat ((?p + int k) mod n))) [0..<length (?F (?ev # nevs))]"
        using nevs(3) True p1(2) by (simp add: sh upt_conv_Cons map_Suc_upt [symmetric] o_def del: upt_Suc)
      moreover have "get_position seq' c pid = (?p + int (length (?F (?ev # nevs)))) mod n"
        using nevs(2) True sh [of "length (?F nevs)"] by simp
      ultimately show ?thesis using nevs(1) by (intro exI [of _ "?ev # nevs"]) simp
    next
      case False
      then have "?p1 = ?p" using pos1 by simp
      then show ?thesis using nevs False by (intro exI [of _ "?ev # nevs"]) simp
    qed
  qed
qed

section \<open>Grid arithmetic is exact\<close>

lemma programming_day_start_bounds:
  assumes "0 \<le> cfg_start_hour cfg" "cfg_start_hour cfg < 24"
  shows "programming_day_start cfg t \<le> t" and "t < programming_day_start cfg t + us_per_day"
proof -
  have t: "t = date_of t * us_per_day + time_of t" "0 \<le> time_of t" "time_of t < us_per_day"
    using combine_date_time [of t] valid_time_of [of t] by (simp_all add: combine_def valid_time_def)
  show "programming_day_start cfg t \<le> t" "t < programming_day_start cfg t + us_per_day"
    using t assms by (auto simp: programming_day_start_def combine_def us_defs Let_def)
qed

lemma floor_seconds_grid:
  assumes us: "0 \<le> us" "us < us_per_day" and g: "0 < g"
  shows "\<lfloor>total_seconds us / of_int (g * 60)\<rfloor> = us div (g * 60000000)"
proof -
  define n where "n = us div (g * 60000000)"
  have G: "0 < g * 60000000" using g by simp
  have "us = n * (g * 60000000) + us mod (g * 60000000)"
    unfolding n_def by (rule div_mult_mod_eq [symmetric])
  moreover have "0 \<le> us mod (g * 60000000)" "us mod (g * 60000000) < g * 60000000" using G by simp_all
  ultimately have b: "n * (g * 60000000) \<le> us" "us + 1 \<le> (n + 1) * (g * 60000000)"
    by (linarith, simp add: algebra_simps)
  have n0: "0 \<le> n" using us G by (simp add: n_def pos_imp_zdiv_nonneg_iff)
  let ?q = "of_int us / (1000000 :: rat)"
  have "(of_int (n * (g * 60000000)) :: rat) \<le> of_int us" "(of_int (us + 1) :: rat) \<le> of_int ((n + 1) * (g * 60000000))"
    using b by (simp_all only: of_int_le_iff)
  then have q: "of_int (n * (g * 60)) \<le> ?q" "?q + 1 / 1000000 \<le> of_int ((n + 1) * (g * 60))"
    by (simp_all add: field_simps)
  define m where "m = n * g"
  have m: "m * 60000000 \<le> us" "0 \<le> m" "n * (g * 60) = m * 60"
    using b(1) n0 g by (simp_all add: m_def algebra_simps)
  then have "m \<le> 1440" using us by (simp add: us_defs)
  then have "\<bar>n * (g * 60)\<bar> \<le> 2 ^ 53" using m(2) by (simp add: m(3))
  then have lo: "of_int (n * (g * 60)) \<le> total_seconds us" unfolding total_seconds_def using q(1) by (rule fl_ge_int)
  have "(of_int us :: rat) < of_int us_per_day" using us by (simp only: of_int_less_iff)
  then have small: "?q / 2 ^ 53 < 1 / 1000000" by (simp add: us_defs)
  have "0 \<le> ?q" using us by simp
  from fl_le_rel [OF this] small q(2) have hi: "total_seconds us < of_int ((n + 1) * (g * 60))"
    unfolding total_seconds_def by linarith
  have g': "0 < (of_int (g * 60) :: rat)" using g by simp
  have "of_int n \<le> total_seconds us / of_int (g * 60)" "total_seconds us / of_int (g * 60) < of_int n + 1"
    using lo hi g' by (simp_all add: pos_le_divide_eq pos_divide_less_eq del: of_int_mult)
      (simp_all add: algebra_simps)
  then show ?thesis unfolding n_def [symmetric] by (simp add: floor_eq_iff)
qed

lemma floor_to_grid_exact:
  fixes t :: datetime
  assumes h: "0 \<le> cfg_start_hour cfg" "cfg_start_hour cfg < 24" and g: "0 < cfg_grid_minutes cfg"
  defines "s \<equiv> programming_day_start cfg t" and "G \<equiv> cfg_grid_minutes cfg * 60000000"
  shows "floor_to_grid_boundary cfg t = s + (t - s) div G * G"
proof -
  have us: "0 \<le> t - s" "t - s < us_per_day" using programming_day_start_bounds [OF h, of t] by (simp_all add: s_def)
  let ?g = "cfg_grid_minutes cfg" and ?n = "(t - s) div G"
  have f: "\<lfloor>total_seconds (t - s) / of_int (?g * 60)\<rfloor> = ?n"
    using floor_seconds_grid [OF us g] by (simp add: G_def)
  have G0: "0 < G" using g by (simp add: G_def)
  have "t - s = ?n * G + (t - s) mod G" by (rule div_mult_mod_eq [symmetric])
  moreover have "0 \<le> (t - s) mod G" using G0 by simp
  ultimately have "?n * G \<le> t - s" by linarith
  moreover have "0 \<le> ?n" using us G0 by (simp add: pos_imp_zdiv_nonneg_iff)
  moreover define m where "m = ?n * ?g"
  ultimately have m: "m * 60000000 \<le> t - s" "0 \<le> m" "?n * (?g * 60) = m * 60"
    using g by (simp_all add: G_def)
  then have "m \<le> 1440" using us by (simp add: us_defs)
  then have "\<bar>?n * (?g * 60)\<bar> \<le> 2 ^ 53" using m(2) by (simp add: m(3))
  then have "fl (of_int (?n * (?g * 60))) = of_int (?n * (?g * 60))" by (rule fl_of_int)
  then have "secs_to_us (fl (of_int ?n * of_int (?g * 60))) = ?n * (?g * 60) * 1000000"
    by (metis of_int_mult secs_to_us_of_int)
  then show ?thesis unfolding floor_to_grid_boundary_def Let_def s_def [symmetric] f
    by (simp add: G_def)
qed

lemma floor_to_grid_bounds:
  assumes "0 \<le> cfg_start_hour cfg" "cfg_start_hour cfg < 24" "0 < cfg_grid_minutes cfg"
  shows "floor_to_grid_boundary cfg t \<le> t" and "t < floor_to_grid_boundary cfg t + cfg_grid_minutes cfg * 60000000"
proof -
  define s where "s = programming_day_start cfg t"
  define G where "G = cfg_grid_minutes cfg * 60000000"
  have "t - s = (t - s) div G * G + (t - s) mod G" by simp
  moreover have "0 \<le> (t - s) mod G" "(t - s) mod G < G" using assms(3) by (simp_all add: G_def)
  ultimately show "floor_to_grid_boundary cfg t \<le> t"
    "t < floor_to_grid_boundary cfg t + cfg_grid_minutes cfg * 60000000"
    unfolding floor_to_grid_exact [OF assms] s_def [symmetric] G_def [symmetric] by linarith+
qed

section \<open>Segments of a block\<close>

definition seg_span :: "playout_segment \<Rightarrow> datetime \<times> datetime" where
  "seg_span s = (ps_start s, ps_end s)"

lemma build_segments_chain:
  "build_segments cfg rst c a b \<noteq> []
   \<and> chained (map seg_span (build_segments cfg rst c a b))
   \<and> ps_start (hd (build_segments cfg rst c a b)) = a
   \<and> ps_end (last (build_segments cfg rst c a b)) = b"
  by (auto simp: build_segments_def Let_def seg_span_def split: option.splits)

lemma store_day_overrides: "store_day st c rd = (st', Inr u) \<Longrightarrow> get_day st' c (rd_date rd) = Some rd"
  using days.stored_day_found [of st c rd] by (cases u) simp

lemma resolve_fresh_cases:
  assumes "get_day (ss_resolved st) c d = None"
    and "resolve_schedule_day cfg cat st c d slots t = Some (st', Inr rd)"
  obtains rs evs seq rst where "resolve_loop cfg cat c d slots 0 (ss_sequence st) [] [] = Some (seq, Inr (rs, evs))"
    and "rd_slots rd = rs" "rd_events rd = evs" "rd_date rd = d" "rd_plan_id rd = None" "\<not> rd_override rd"
    and "store_day (ss_resolved st) c rd = (rst, Inr ())"
    and "st' = st\<lparr>ss_sequence := seq, ss_resolved := rst\<rparr>"
proof -
  obtain seq r where run: "resolve_loop cfg cat c d slots 0 (ss_sequence st) [] [] = Some (seq, r)"
    using assms by (auto simp: resolve_schedule_day_def split: option.splits)
  obtain rs evs where r: "r = Inr (rs, evs)"
    using assms run by (cases r) (auto simp: resolve_schedule_day_def)
  let ?rd = "\<lparr>rd_date = d, rd_slots = rs, rd_timestamp = t,
    rd_sequence = \<lparr>sq_positions = [], sq_as_of = Some t\<rparr>,
    rd_events = evs, rd_plan_id = None, rd_override = False, rd_supersedes = None\<rparr>"
  obtain rst u where s: "store_day (ss_resolved st) c ?rd = (rst, u)" by fastforce
  have "rd = ?rd" "u = Inr ()" "st' = st\<lparr>ss_sequence := seq, ss_resolved := rst\<rparr>"
    using assms run r s by (auto simp: resolve_schedule_day_def Let_def split: sum.splits)
  then show thesis using run r s by (intro that [of seq rs evs rst]) simp_all
qed

section \<open>Worked examples\<close>

lemma run_succeeds:
  "(case x of Some (s, Inr r) \<Rightarrow> P s r | _ \<Rightarrow> False) \<Longrightarrow> \<exists>s r. x = Some (s, Inr r) \<and> P s r"
  by (cases x) (auto split: sum.splits)

definition demo_cfg :: sm_config where
  "demo_cfg = \<lparr>cfg_grid_minutes = 30, cfg_filler_path = ''filler.mp4'', cfg_filler_duration = 0, cfg_start_hour = 6\<rparr>"

definition demo_episode :: "string \<Rightarrow> rat \<Rightarrow> episode" where
  "demo_episode i dur = \<lparr>ep_id = i, ep_title = i, ep_path = i @ ''.mp4'', ep_duration = dur\<rparr>"

definition demo_catalog :: catalog where
  "demo_catalog r =
     (if r = ''film'' then Some \<lparr>prog_id = ''film'', prog_name = ''Film'', prog_play_mode = ''sequential'',
        prog_episodes = [demo_episode ''f1'' 3600, demo_episode ''f2'' 3600]\<rparr>
      else if r = ''show'' then Some \<lparr>prog_id = ''show'', prog_name = ''Show'', prog_play_mode = ''sequential'',
        prog_episodes = [demo_episode ''s1'' 1800]\<rparr>
      else None)"

definition demo_sched_slot :: "int \<Rightarrow> string \<Rightarrow> schedule_slot" where
  "demo_sched_slot m r = \<lparr>slot_time = 6 * us_per_hour + m * 60000000,
     slot_ref = \<lparr>ref_type = PROGRAM, ref_id = r\<rparr>, slot_duration = 1800, slot_label = r\<rparr>"

definition demo_sched_slots :: "schedule_slot list" where
  "demo_sched_slots = [demo_sched_slot 0 ''film'', demo_sched_slot 30 ''film'', demo_sched_slot 60 ''show'']"

definition demo_sched_state :: sched_state where
  "demo_sched_state = \<lparr>ss_sequence = Map.empty, ss_resolved = empty_resolved_store None False None\<rparr>"

definition demo_resolved :: "(sched_state \<times> resolved_day res) option" where
  "demo_resolved = resolve_schedule_day demo_cfg demo_catalog demo_sched_state ''ch'' 20000 demo_sched_slots 0"

lemma demo_resolved_ok:
  "(case demo_resolved of Some (_, Inr rd) \<Rightarrow> map pe_episode_id (rd_events rd) = [''f1'', ''s1''] | _ \<Rightarrow> False)"
  by code_simp

lemma demo_resolved_cases:
  obtains st' rd where "resolve_schedule_day demo_cfg demo_catalog demo_sched_state ''ch'' 20000 demo_sched_slots 0
    = Some (st', Inr rd)" and "map pe_episode_id (rd_events rd) = [''f1'', ''s1'']"
  using demo_resolved_ok that by (auto simp: demo_resolved_def split: option.splits sum.splits)

section \<open>Properties\<close>

text \<open>
  On a grid of positive length, resolving a day returns (with the day or with an exception),
  whatever the slots, the catalogue and the stores are.
\<close>

theorem resolve_schedule_day_returns:
  assumes "0 < cfg_grid_minutes cfg"
  shows "\<exists>st' r. resolve_schedule_day cfg cat st c d slots t = Some (st', r)"
proof (cases "get_day (ss_resolved st) c d")
  case None
  obtain seq r where "resolve_loop cfg cat c d slots 0 (ss_sequence st) [] [] = Some (seq, r)"
    using resolve_loop_result [OF assms, of 0 slots cat c d "ss_sequence st" "[]" "[]"] by auto
  with None show ?thesis
    by (cases r) (auto simp: resolve_schedule_day_def Let_def split: prod.splits sum.splits)
qed (simp add: resolve_schedule_day_def)

theorem resolve_schedule_day_returns_witness:
  "\<exists>st' r. resolve_schedule_day demo_cfg demo_catalog demo_sched_state ''ch'' 20000 demo_sched_slots 0 = Some (st', r)"
  by (rule resolve_schedule_day_returns) (simp add: demo_cfg_def)

text \<open>
  Resolution is idempotent: after a day has been resolved it is in the store, and resolving it
  again, even with other slots, another catalogue or at another time, returns the same day and
  changes no store and no cursor.
\<close>

theorem resolve_schedule_day_idempotent:
  assumes "resolve_schedule_day cfg cat st c d slots t = Some (st', Inr rd)"
  shows "get_day (ss_resolved st') c d = Some rd
    \<and> resolve_schedule_day cfg' cat' st' c d slots' t' = Some (st', Inr rd)"
proof -
  have "get_day (ss_resolved st') c d = Some rd"
  proof (cases "get_day (ss_resolved st) c d")
    case None
    from None assms show ?thesis
      by (rule resolve_fresh_cases) (auto dest: store_day_overrides)
  next
    case (Some rd0)
    with assms show ?thesis by (simp add: resolve_schedule_day_def)
  qed
  then show ?thesis by (simp add: resolve_schedule_day_def)
qed

theorem resolve_schedule_day_idempotent_witness:
  "\<exists>st' rd. resolve_schedule_day demo_cfg demo_catalog demo_sched_state ''ch'' 20000 demo_sched_slots 0 = Some (st', Inr rd)
    \<and> resolve_schedule_day demo_cfg Map.empty st' ''ch'' 20000 [] 7 = Some (st', Inr rd)"
proof (rule demo_resolved_cases)
  fix st' rd
  assume r: "resolve_schedule_day demo_cfg demo_catalog demo_sched_state ''ch'' 20000 demo_sched_slots 0 = Some (st', Inr rd)"
  with resolve_schedule_day_idempotent [OF r] show ?thesis by blast
qed

text \<open>
  A newly resolved day has one resolved slot per scheduled slot, at the same time and in the
  same order, and its events go in lockstep with them: every event owns the next slots, as many as
  it spans (at least one) or as are left, and they carry its asset.
\<close>

theorem resolve_schedule_day_lockstep:
  assumes "0 < cfg_grid_minutes cfg" and "get_day (ss_resolved st) c d = None"
    and "resolve_schedule_day cfg cat st c d slots t = Some (st', Inr rd)"
  shows "map rs_time (rd_slots rd) = map slot_time slots \<and> lockstep (rd_events rd) (rd_slots rd)"
  using assms(2,3)
proof (rule resolve_fresh_cases)
  fix rs evs seq rst
  assume "resolve_loop cfg cat c d slots 0 (ss_sequence st) [] [] = Some (seq, Inr (rs, evs))"
    and "rd_slots rd = rs" "rd_events rd = evs"
  then show ?thesis
    using resolve_loop_result [OF assms(1), of 0 slots cat c d "ss_sequence st" "[]" "[]"] by auto
qed

theorem resolve_schedule_day_lockstep_witness:
  "\<exists>st' rd. resolve_schedule_day demo_cfg demo_catalog demo_sched_state ''ch'' 20000 demo_sched_slots 0 = Some (st', Inr rd)
    \<and> length (rd_slots rd) = 3 \<and> lockstep (rd_events rd) (rd_slots rd)"
proof (rule demo_resolved_cases)
  fix st' rd
  assume r: "resolve_schedule_day demo_cfg demo_catalog demo_sched_state ''ch'' 20000 demo_sched_slots 0 = Some (st', Inr rd)"
  have "get_day (ss_resolved demo_sched_state) ''ch'' 20000 = None" "0 < cfg_grid_minutes demo_cfg" by code_simp+
  from resolve_schedule_day_lockstep [OF this(2,1) r]
  have "map rs_time (rd_slots rd) = map slot_time demo_sched_slots" "lockstep (rd_events rd) (rd_slots rd)" by simp_all
  moreover from arg_cong [OF this(1), of length] have "length (rd_slots rd) = 3" by (simp add: demo_sched_slots_def)
  ultimately show ?thesis using r by blast
qed

text \<open>
  A sequential program goes through its episodes in order, one per event and not one per
  block: the \<open>k\<close>-th event of the day that shows it has the \<open>k\<close>-th next episode, cyclically, and
  afterwards the cursor has advanced by the number of those events.
\<close>

theorem sequential_episodes_in_order:
  assumes "0 < cfg_grid_minutes cfg" and "get_day (ss_resolved st) c d = None"
    and "resolve_schedule_day cfg cat st c d slots t = Some (st', Inr rd)"
    and "sequential_setup cat pid prog slots"
    and "0 \<le> get_position (ss_sequence st) c pid"
    and "get_position (ss_sequence st) c pid < int (length (prog_episodes prog))"
  shows "let n = int (length (prog_episodes prog)); p = get_position (ss_sequence st) c pid;
      evs = filter (\<lambda>e. pe_program_id e = pid) (rd_events rd)
    in map pe_episode_id evs = map (\<lambda>k. ep_id (prog_episodes prog ! nat ((p + int k) mod n))) [0..<length evs]
      \<and> get_position (ss_sequence st') c pid = (p + int (length evs)) mod n"
  using assms(2,3)
proof (rule resolve_fresh_cases)
  fix rs evs seq rst
  assume run: "resolve_loop cfg cat c d slots 0 (ss_sequence st) [] [] = Some (seq, Inr (rs, evs))"
    and "rd_events rd = evs" "st' = st\<lparr>ss_sequence := seq, ss_resolved := rst\<rparr>"
  then show ?thesis
    using resolve_loop_sequential [OF assms(1,4) refl run assms(5,6)] by (simp add: Let_def)
qed

theorem sequential_episodes_in_order_witness:
  "\<exists>st' rd. resolve_schedule_day demo_cfg demo_catalog demo_sched_state ''ch'' 20000 demo_sched_slots 0 = Some (st', Inr rd)
    \<and> get_position (ss_sequence st') ''ch'' ''film'' = 1"
proof (rule demo_resolved_cases)
  fix st' rd
  assume r: "resolve_schedule_day demo_cfg demo_catalog demo_sched_state ''ch'' 20000 demo_sched_slots 0 = Some (st', Inr rd)"
  have fresh: "get_day (ss_resolved demo_sched_state) ''ch'' 20000 = None" and g: "0 < cfg_grid_minutes demo_cfg" by code_simp+
  let ?film = "\<lparr>prog_id = ''film'', prog_name = ''Film'', prog_play_mode = ''sequential'',
        prog_episodes = [demo_episode ''f1'' 3600, demo_episode ''f2'' 3600]\<rparr>"
  have su: "sequential_setup demo_catalog ''film'' ?film demo_sched_slots"
    by (auto simp: sequential_setup_def demo_catalog_def demo_sched_slots_def demo_sched_slot_def split: if_splits)
  have p: "get_position (ss_sequence demo_sched_state) ''ch'' ''film'' = 0" by code_simp
  have e: "map pe_program_id (rd_events rd) = [''film'', ''show'']"
  proof -
    have "(case demo_resolved of Some (_, Inr rd) \<Rightarrow> map pe_program_id (rd_events rd) = [''film'', ''show''] | _ \<Rightarrow> False)"
      by code_simp
    then show ?thesis by (simp add: demo_resolved_def r)
  qed
  have "length (filter (\<lambda>e. pe_program_id e = ''film'') (rd_events rd)) =
      length (filter (\<lambda>i. i = ''film'') (map pe_program_id (rd_events rd)))" by (simp add: filter_map o_def)
  also have "\<dots> = 1" unfolding e by simp
  finally have l: "length (filter (\<lambda>e. pe_program_id e = ''film'') (rd_events rd)) = 1" .
  have "get_position (ss_sequence st') ''ch'' ''film'' = 1"
    using sequential_episodes_in_order [OF g fresh r su] p l by (simp add: Let_def)
  with r show ?thesis by blast
qed

text \<open>
  The block returned for an instant is the grid block around it: it starts at or before the
  instant and ends after it, it is one grid step long, it starts a whole number of steps after the
  programming-day start, and its segments cover it from end to end without gap or overlap.
\<close>

theorem get_program_at_block:
  assumes "0 \<le> cfg_start_hour cfg" "cfg_start_hour cfg < 24" and "0 < cfg_grid_minutes cfg"
  shows "let b = get_program_at cfg rst c t; G = cfg_grid_minutes cfg * 60000000
    in pb_start b \<le> t \<and> t < pb_end b \<and> pb_end b - pb_start b = G
      \<and> G dvd pb_start b - programming_day_start cfg t
      \<and> pb_segments b \<noteq> [] \<and> chained (map seg_span (pb_segments b))
      \<and> ps_start (hd (pb_segments b)) = pb_start b \<and> ps_end (last (pb_segments b)) = pb_end b"
proof -
  have "cfg_grid_minutes cfg * 60000000 dvd floor_to_grid_boundary cfg t - programming_day_start cfg t"
    unfolding floor_to_grid_exact [OF assms] by simp
  then show ?thesis
    using floor_to_grid_bounds [OF assms, of t] build_segments_chain [of cfg rst c "floor_to_grid_boundary cfg t"]
    by (simp add: get_program_at_def grid_block_def Let_def)
qed

theorem get_program_at_block_witness:
  "pb_start (get_program_at demo_cfg (empty_resolved_store None False None) ''ch'' 1728079200000001) \<le> 1728079200000001"
  using get_program_at_block [of demo_cfg "empty_resolved_store None False None" "''ch''" 1728079200000001]
  by (simp add: demo_cfg_def Let_def)

text \<open>
  After an event of several blocks the block lookup can answer with the wrong program: every
  slot of the event is given the length of the whole event, so the event's second slot also
  covers the block after the event and comes first in the search.
\<close>

theorem block_after_long_event_plays_wrong_program:
  "\<exists>st' rd. resolve_schedule_day demo_cfg demo_catalog demo_sched_state ''ch'' 20000 demo_sched_slots 0 = Some (st', Inr rd)
    \<and> map (\<lambda>s. (rs_time s, ra_path (rs_asset s))) (rd_slots rd) =
        [(6 * us_per_hour, ''f1.mp4''), (6 * us_per_hour + 1800000000, ''f1.mp4''), (7 * us_per_hour, ''s1.mp4'')]
    \<and> map ps_path (pb_segments (get_program_at demo_cfg (ss_resolved st') ''ch'' (combine 20000 (7 * us_per_hour))))
        = [Some ''f1.mp4'']"
proof -
  have "(case demo_resolved of
      Some (st', Inr rd) \<Rightarrow> map (\<lambda>s. (rs_time s, ra_path (rs_asset s))) (rd_slots rd) =
          [(6 * us_per_hour, ''f1.mp4''), (6 * us_per_hour + 1800000000, ''f1.mp4''), (7 * us_per_hour, ''s1.mp4'')]
        \<and> map ps_path (pb_segments (get_program_at demo_cfg (ss_resolved st') ''ch'' (combine 20000 (7 * us_per_hour))))
          = [Some ''f1.mp4'']
    | _ \<Rightarrow> False)"
    by code_simp
  from run_succeeds [OF this] show ?thesis unfolding demo_resolved_def .
qed

text \<open>
  A guide query that crosses a programming-day boundary within one day only looks at the
  programming day it starts in: an event of the next programming day that lies in the queried
  range is left out.
\<close>

theorem epg_query_misses_next_day:
  "\<exists>st' rd. resolve_schedule_day demo_cfg demo_catalog demo_sched_state ''ch'' 20000 demo_sched_slots 0 = Some (st', Inr rd)
    \<and> rd_events rd \<noteq> []
    \<and> pe_start_ms (hd (rd_events rd)) = to_epoch_ms (combine 20000 (6 * us_per_hour))
    \<and> get_epg_events demo_cfg (ss_resolved st') ''ch''
        (combine 20000 (5 * us_per_hour)) (combine 20000 (7 * us_per_hour)) = Inr []"
proof -
  have "(case demo_resolved of
      Some (st', Inr rd) \<Rightarrow> rd_events rd \<noteq> []
        \<and> pe_start_ms (hd (rd_events rd)) = to_epoch_ms (combine 20000 (6 * us_per_hour))
        \<and> get_epg_events demo_cfg (ss_resolved st') ''ch''
            (combine 20000 (5 * us_per_hour)) (combine 20000 (7 * us_per_hour)) = Inr []
    | _ \<Rightarrow> False)"
    by code_simp
  from run_succeeds [OF this] show ?thesis unfolding demo_resolved_def .
qed

text \<open>
  Resolution never records the plan a day comes from, so a store that enforces derivation
  traceability refuses every newly resolved day.
\<close>

theorem resolve_refused_under_traceability:
  assumes "rst_enforce (ss_resolved st)" and "get_day (ss_resolved st) c d = None"
  shows "resolve_schedule_day cfg cat st c d slots t \<noteq> Some (st', Inr rd)"
proof
  assume r: "resolve_schedule_day cfg cat st c d slots t = Some (st', Inr rd)"
  from assms(2) r show False
  proof (rule resolve_fresh_cases)
    fix rs evs seq rst
    assume rd: "rd_plan_id rd = None" "\<not> rd_override rd"
      and s: "store_day (ss_resolved st) c rd = (rst, Inr ())"
    have "traceability_check (ss_resolved st) rd \<noteq> Inr ()"
      using rd assms(1) by (simp add: traceability_check_def enforce_derivation_traceability_def)
    with s show False by (rule_tac store_day_cases [of "ss_resolved st" c rd]) auto
  qed
qed

theorem resolve_refused_under_traceability_witness:
  "\<forall>st' rd. resolve_schedule_day demo_cfg demo_catalog
     \<lparr>ss_sequence = Map.empty, ss_resolved = empty_resolved_store None True None\<rparr> ''ch'' 20000 demo_sched_slots 0
   \<noteq> Some (st', Inr rd)"
  by (intro allI, rule resolve_refused_under_traceability)
    (simp_all add: empty_resolved_store_def get_day_def channel_days_def)

end
