(* ===== verification/Planning_Plan.thy ===== *)
theory Planning_Plan
  imports Schedule_Types
begin

text \<open>
  The editorial end of \<^verbatim>\<open>runtime/planning_pipeline.py\<close>: a planning directive is captured as a
  date-independent plan (\<^verbatim>\<open>build_schedule_plan\<close>) whose zones are expanded into grid slots for
  one date (\<^verbatim>\<open>_zone_to_slots\<close>, the zone loop of \<^verbatim>\<open>resolve_schedule_day\<close>).  The lemmas give the
  slots of a zone in closed form and show that they tile it.
\<close>

record zone_directive =
  zd_start :: time_of_day
  zd_end :: time_of_day
  zd_programs :: "program_ref list"
  zd_label :: string
  zd_day_filter :: "string list option"

record planning_directive =
  pd_channel_id :: string
  pd_grid_minutes :: int
  pd_day_start_hour :: int
  pd_zones :: "zone_directive list"

record schedule_plan =
  spl_channel_id :: string
  spl_grid_minutes :: int
  spl_day_start_hour :: int
  spl_zones :: "zone_directive list"
  spl_all_refs :: "program_ref list"

section \<open>Directive to plan\<close>

text \<open>The two loops over zones and references; \<open>seen\<close> is the set of keys.\<close>

fun collect_refs :: "program_ref list \<Rightarrow> program_ref list \<Rightarrow> (program_ref_type \<times> string) set
    \<Rightarrow> program_ref list \<times> (program_ref_type \<times> string) set" where
  "collect_refs [] all_refs seen = (all_refs, seen)"
| "collect_refs (ref # refs) all_refs seen =
     (let key = (ref_type ref, ref_id ref)
      in if key \<notin> seen then collect_refs refs (all_refs @ [ref]) (insert key seen)
         else collect_refs refs all_refs seen)"

fun collect_zone_refs :: "zone_directive list \<Rightarrow> program_ref list \<Rightarrow> (program_ref_type \<times> string) set
    \<Rightarrow> program_ref list" where
  "collect_zone_refs [] all_refs seen = all_refs"
| "collect_zone_refs (z # zs) all_refs seen =
     (case collect_refs (zd_programs z) all_refs seen of
        (all_refs', seen') \<Rightarrow> collect_zone_refs zs all_refs' seen')"

definition build_schedule_plan :: "planning_directive \<Rightarrow> schedule_plan" where
  "build_schedule_plan d =
     \<lparr>spl_channel_id = pd_channel_id d, spl_grid_minutes = pd_grid_minutes d,
      spl_day_start_hour = pd_day_start_hour d, spl_zones = pd_zones d,
      spl_all_refs = collect_zone_refs (pd_zones d) [] {}\<rparr>"

section \<open>Zones to slots\<close>

text \<open>The window of a zone on a date, with the day and midnight wraps.\<close>

definition zone_window :: "zone_directive \<Rightarrow> int \<Rightarrow> date \<Rightarrow> datetime \<times> datetime" where
  "zone_window z start_hour d =
     (let zone_start = combine d (zd_start z)
            + (if hour_of (zd_start z) < start_hour then us_per_day else 0);
          zone_end = combine d (zd_end z)
            + (if hour_of (zd_end z) < start_hour then us_per_day else 0)
      in (zone_start, if zone_end \<le> zone_start then zone_end + us_per_day else zone_end))"

text \<open>The slot loop; \<open>i\<close> counts slots and is also \<open>program_idx\<close>.\<close>

fun zone_slot_loop :: "zone_directive \<Rightarrow> int \<Rightarrow> datetime \<Rightarrow> nat \<Rightarrow> nat \<Rightarrow> schedule_slot list res" where
  "zone_slot_loop z grid_seconds zone_start i 0 = Inr []"
| "zone_slot_loop z grid_seconds zone_start i (Suc n) =
     (if zd_programs z = [] then Inl ZeroDivisionError
      else let slot_dt = zone_start + int i * grid_seconds * 1000000;
               ref = zd_programs z ! (i mod length (zd_programs z))
           in bind_res (zone_slot_loop z grid_seconds zone_start (Suc i) n) (\<lambda>slots.
                Inr (\<lparr>slot_time = time_of slot_dt, slot_ref = ref,
                      slot_duration = fl (of_int grid_seconds),
                      slot_label = (if zd_label z \<noteq> [] then zd_label z else ref_id ref)\<rparr> # slots)))"

definition zone_to_slots :: "zone_directive \<Rightarrow> int \<Rightarrow> int \<Rightarrow> date \<Rightarrow> schedule_slot list res" where
  "zone_to_slots z grid_block_minutes start_hour d =
     (let grid_seconds = grid_block_minutes * 60;
          (zone_start, zone_end) = zone_window z start_hour d;
          zone_duration_seconds = total_seconds (zone_end - zone_start)
      in if grid_seconds = 0 then Inl ZeroDivisionError
         else zone_slot_loop z grid_seconds zone_start 0
                (nat (py_trunc (fl (zone_duration_seconds / fl (of_int grid_seconds))))))"

text \<open>The zone loop of \<^verbatim>\<open>resolve_schedule_day\<close>; \<open>all_slots.extend\<close> in zone order.\<close>

definition plan_slots :: "schedule_plan \<Rightarrow> date \<Rightarrow> schedule_slot list res" where
  "plan_slots plan d =
     map_sum id concat
       (map_res (\<lambda>z. zone_to_slots z (spl_grid_minutes plan) (spl_day_start_hour plan) d)
         (spl_zones plan))"

section \<open>References of a plan\<close>

lemma program_ref_key: "(ref_type (r :: program_ref), ref_id r) = (ref_type s, ref_id s) \<longleftrightarrow> r = s"
  by (cases r, cases s) auto

lemma collect_refs_inv:
  "seen = (\<lambda>r. (ref_type r, ref_id r)) ` set acc \<Longrightarrow> distinct acc \<Longrightarrow>
    collect_refs refs acc seen = (acc', seen') \<Longrightarrow>
    distinct acc' \<and> set acc' = set acc \<union> set refs
    \<and> seen' = (\<lambda>r. (ref_type r, ref_id r)) ` set acc'"
proof (induction refs acc seen arbitrary: acc' seen' rule: collect_refs.induct)
  case (2 r refs acc seen)
  have mem: "(ref_type r, ref_id r) \<in> seen \<longleftrightarrow> r \<in> set acc"
    using "2.prems"(1) program_ref_key by (auto simp: image_iff)
  show ?case
  proof (cases "r \<in> set acc")
    case True
    with "2.prems"(3) mem have "collect_refs refs acc seen = (acc', seen')" by (simp add: Let_def)
    from "2.IH"(2) [OF refl _ "2.prems"(1,2) this] mem True show ?thesis by (simp add: insert_absorb)
  next
    case False
    have "collect_refs refs (acc @ [r]) (insert (ref_type r, ref_id r) seen) = (acc', seen')"
      using "2.prems"(3) mem False by (simp add: Let_def)
    from "2.IH"(1) [OF refl _ _ _ this] mem False "2.prems"(1,2) show ?thesis by simp
  qed
qed auto

lemma collect_zone_refs_inv:
  "distinct acc \<Longrightarrow>
    distinct (collect_zone_refs zs acc ((\<lambda>r. (ref_type r, ref_id r)) ` set acc)) \<and>
    set (collect_zone_refs zs acc ((\<lambda>r. (ref_type r, ref_id r)) ` set acc)) =
      set acc \<union> (\<Union>z \<in> set zs. set (zd_programs z))"
proof (induction zs arbitrary: acc)
  case (Cons z zs)
  obtain acc' seen' where r: "collect_refs (zd_programs z) acc ((\<lambda>r. (ref_type r, ref_id r)) ` set acc)
    = (acc', seen')" by fastforce
  note c = collect_refs_inv [OF refl Cons.prems r]
  then show ?case using Cons.IH [of acc'] r by auto
qed simp

section \<open>Slots of a zone\<close>

text \<open>The \<open>i\<close>-th slot.\<close>

definition zone_slot :: "zone_directive \<Rightarrow> int \<Rightarrow> datetime \<Rightarrow> nat \<Rightarrow> schedule_slot" where
  "zone_slot z grid_seconds zone_start i =
     (let ref = zd_programs z ! (i mod length (zd_programs z))
      in \<lparr>slot_time = time_of (zone_start + int i * grid_seconds * 1000000), slot_ref = ref,
          slot_duration = fl (of_int grid_seconds),
          slot_label = (if zd_label z \<noteq> [] then zd_label z else ref_id ref)\<rparr>)"

lemma zone_slot_loop_ok:
  "zd_programs z \<noteq> [] \<Longrightarrow>
    zone_slot_loop z g start i n = Inr (map (zone_slot z g start) [i..<i + n])"
proof (induction n arbitrary: i)
  case (Suc n)
  then show ?case by (simp add: Let_def zone_slot_def upt_conv_Cons del: upt_Suc)
qed simp

lemma zone_slot_loop_empty:
  "zd_programs z = [] \<Longrightarrow>
    zone_slot_loop z g start i n = (if n = 0 then Inr [] else Inl ZeroDivisionError)"
  by (cases n) auto

text \<open>A zone's window is never empty and, on a valid grid, at most two days long.\<close>

lemma zone_window_bounds:
  assumes "valid_time (zd_start z)" "valid_time (zd_end z)" "0 \<le> h" "h < 24"
    and w: "zone_window z h d = (a, b)"
  shows "a < b" and "b - a \<le> us_per_day"
proof -
  have v: "0 \<le> zd_start z" "zd_start z < us_per_day" "0 \<le> zd_end z" "zd_end z < us_per_day"
    using assms by (simp_all add: valid_time_def)
  have mono: "zd_end z < zd_start z" if "hour_of (zd_end z) < h" "\<not> hour_of (zd_start z) < h"
  proof -
    have "hour_of (zd_end z) < hour_of (zd_start z)" using that by simp
    then show ?thesis unfolding hour_of_def
      by (metis not_less zdiv_mono1 us_per_hour_def zero_less_numeral)
  qed
  have mono2: "zd_start z < zd_end z" if "\<not> hour_of (zd_end z) < h" "hour_of (zd_start z) < h"
  proof -
    have "hour_of (zd_start z) < hour_of (zd_end z)" using that by simp
    then show ?thesis unfolding hour_of_def
      by (metis not_less zdiv_mono1 us_per_hour_def zero_less_numeral)
  qed
  show "a < b" "b - a \<le> us_per_day"
    using w v mono mono2 by (auto simp: zone_window_def combine_def Let_def split: if_splits)
qed

text \<open>With whole-second times the float division counts the slots exactly.\<close>

lemma zone_to_slots_whole:
  assumes w: "zone_window z h d = (a, a + s * 1000000)" and s: "0 \<le> s" "s < 2 ^ 53"
    and g: "0 < g" "g < 2 ^ 40" and ne: "zd_programs z \<noteq> []"
  shows "zone_to_slots z g h d = Inr (map (zone_slot z (g * 60) a) [0..<nat (s div (g * 60))])"
proof -
  have "total_seconds (s * 1000000) = of_int s" using s by (simp add: total_seconds_whole)
  moreover have "fl (of_int (g * 60)) = of_int (g * 60)" using g by (intro fl_of_int) simp
  moreover have "py_trunc (fl (of_int s / of_int (g * 60))) = s div (g * 60)"
    using s g by (intro trunc_fl_div) simp_all
  ultimately show ?thesis
    using g by (simp add: zone_to_slots_def w zone_slot_loop_ok [OF ne] Let_def del: of_int_mult)
qed

section \<open>Properties\<close>

definition demo_zone :: zone_directive where
  "demo_zone = \<lparr>zd_start = 22 * us_per_hour, zd_end = 2 * us_per_hour,
     zd_programs = [\<lparr>ref_type = PROGRAM, ref_id = ''a''\<rparr>, \<lparr>ref_type = PROGRAM, ref_id = ''b''\<rparr>],
     zd_label = [], zd_day_filter = None\<rparr>"

text \<open>
  The plan keeps the directive's zones and grid as they are and lists each program reference
  of the zones exactly once.
\<close>

theorem build_schedule_plan_captures:
  "spl_zones (build_schedule_plan d) = pd_zones d
   \<and> spl_grid_minutes (build_schedule_plan d) = pd_grid_minutes d
   \<and> distinct (spl_all_refs (build_schedule_plan d))
   \<and> set (spl_all_refs (build_schedule_plan d)) = (\<Union>z \<in> set (pd_zones d). set (zd_programs z))"
  using collect_zone_refs_inv [of "[]" "pd_zones d"] by (simp add: build_schedule_plan_def)

text \<open>
  A zone with programs whose times are whole seconds is expanded into as many slots as whole
  grid blocks fit its window (which wraps past midnight and past the programming-day start); slot
  \<open>i\<close> starts \<open>i\<close> blocks after the window does, lasts one block and takes the programs in turn.
\<close>

theorem zone_to_slots_tiles_zone:
  assumes "zd_programs z \<noteq> []" and "0 < g" "g < 2 ^ 40"
    and "valid_time (zd_start z)" "valid_time (zd_end z)" and "0 \<le> h" "h < 24"
    and "zone_window z h d = (a, b)" and "1000000 dvd b - a"
  shows "\<exists>slots. zone_to_slots z g h d = Inr slots
    \<and> int (length slots) = (b - a) div (g * 60000000)
    \<and> (\<forall>i < length slots. slot_time (slots ! i) = time_of (a + int i * (g * 60000000))
        \<and> slot_duration (slots ! i) = of_int (g * 60)
        \<and> slot_ref (slots ! i) = zd_programs z ! (i mod length (zd_programs z))
        \<and> slot_label (slots ! i) = (if zd_label z \<noteq> [] then zd_label z else ref_id (slot_ref (slots ! i))))"
proof -
  obtain s where s: "b - a = 1000000 * s" using assms(9) by blast
  have ab: "a < b" "b - a \<le> us_per_day" using zone_window_bounds [OF assms(4-8)] by auto
  then have sb: "0 \<le> s" "s < 2 ^ 53" using s by (simp_all add: us_defs)
  have w: "zone_window z h d = (a, a + s * 1000000)" using assms(8) s by simp
  have d: "(b - a) div (g * 60000000) = s div (g * 60)"
    using s by (simp add: div_mult2_eq [symmetric] mult.commute [of g] zdiv_zmult2_eq)
  have n: "0 \<le> s div (g * 60)" using sb assms(2) by (simp add: pos_imp_zdiv_nonneg_iff)
  have f: "fl (of_int (g * 60)) = of_int (g * 60)" using assms(2,3) by (intro fl_of_int) simp
  show ?thesis
    by (rule exI, rule conjI [OF zone_to_slots_whole [OF w sb assms(2,3,1)]])
      (use n f in \<open>simp add: d zone_slot_def Let_def mult.assoc\<close>)
qed

theorem zone_to_slots_tiles_zone_witness:
  "\<exists>slots. zone_to_slots demo_zone 30 6 20000 = Inr slots \<and> length slots = 8
    \<and> slot_time (slots ! 5) = 1800000000 \<and> ref_id (slot_ref (slots ! 5)) = ''b''"
proof -
  have w: "zone_window demo_zone 6 20000 = (1728079200000000, 1728093600000000)" by code_simp
  have z: "zd_programs demo_zone \<noteq> []" "valid_time (zd_start demo_zone)" "valid_time (zd_end demo_zone)"
    by code_simp+
  have p: "zd_programs demo_zone ! (5 mod length (zd_programs demo_zone)) = \<lparr>ref_type = PROGRAM, ref_id = ''b''\<rparr>"
    by code_simp
  have t: "time_of (1728079200000000 + int 5 * (30 * 60000000)) = 1800000000" by code_simp
  obtain slots where s: "zone_to_slots demo_zone 30 6 20000 = Inr slots"
      "int (length slots) = (1728093600000000 - 1728079200000000) div (30 * 60000000)"
    and i: "\<forall>i < length slots. slot_time (slots ! i) = time_of (1728079200000000 + int i * (30 * 60000000))
        \<and> slot_ref (slots ! i) = zd_programs demo_zone ! (i mod length (zd_programs demo_zone))"
    using zone_to_slots_tiles_zone [OF z(1) _ _ z(2,3) _ _ w, of 30] by auto
  have l: "length slots = 8" using s(2) by simp
  show ?thesis using s(1) l i [rule_format, of 5] t p by auto
qed

text \<open>A zone without programs fails as soon as one slot fits, like the \<open>%\<close> of the source.\<close>

lemma zone_to_slots_no_programs:
  "zd_programs z = [] \<Longrightarrow> zone_to_slots z g h d = Inr slots \<Longrightarrow> slots = []"
  by (auto simp: zone_to_slots_def Let_def zone_slot_loop_empty split: prod.splits if_splits)

text \<open>
  A zone that ends at the sentinel 23:59:59.999999, which the zone commands store for 24:00, has
  one slot less than the day has blocks.
\<close>

lemma zone_to_slots_end_of_day:
  "map_sum id length (zone_to_slots (demo_zone\<lparr>zd_end := us_per_day - 1\<rparr>) 30 6 20000) = Inr 3"
  by code_simp

end
