(* ===== verification/Planning_Pipeline.thy ===== *)
theory Planning_Pipeline
  imports Schedule_Manager Planning_Plan
begin

text \<open>
  The planning run of \<^verbatim>\<open>runtime/planning_pipeline.py\<close> end to end (\<^verbatim>\<open>resolve_schedule_day\<close>,
  \<^verbatim>\<open>derive_epg\<close>, \<^verbatim>\<open>lock_for_execution\<close>, \<^verbatim>\<open>run_planning_pipeline\<close>) with the artifact writer of
  \<^verbatim>\<open>planning/transmission_log_artifact_writer.py\<close>.  The file system is the map from channel and
  date to the artifact that exists; the rows of the JSON side file are kept as records, its
  text encoding is not modelled.  The display time zone is an argument, the offset from UTC it
  has at an instant.  The main result is that a day planned from zones that follow each other
  without gap yields a transmission log the validators accept.
\<close>

section \<open>The EPG of a day\<close>

fun derive_epg_loop ::
  "string \<Rightarrow> resolved_day \<Rightarrow> int \<Rightarrow> int \<Rightarrow> program_event list \<Rightarrow> int \<Rightarrow> epg_event list res" where
  "derive_epg_loop channel rd grid_block_minutes start_hour [] slot_idx = Inr []"
| "derive_epg_loop channel rd grid_block_minutes start_hour (pe # pes) slot_idx =
     (if int (length (rd_slots rd)) \<le> slot_idx then Inl IndexError
      else let slot = rd_slots rd ! nat slot_idx;
               start_dt = slot_time_to_datetime (rd_date rd) (rs_time slot) start_hour;
               end_dt = start_dt + pe_span pe * (grid_block_minutes * 60) * 1000000;
               asset = (case pe_asset pe of None \<Rightarrow> rs_asset slot | Some x \<Rightarrow> x)
           in bind_res (derive_epg_loop channel rd grid_block_minutes start_hour pes (slot_idx + pe_span pe))
                (\<lambda>evs. Inr (epg_of channel (rd_date rd) start_dt end_dt asset # evs)))"

definition derive_epg :: "string \<Rightarrow> resolved_day \<Rightarrow> int \<Rightarrow> int \<Rightarrow> epg_event list res" where
  "derive_epg channel rd start_hour grid_block_minutes =
     derive_epg_loop channel rd grid_block_minutes start_hour (rd_events rd) 0"

section \<open>Artifacts\<close>

record artifact_row =
  ar_time :: string
  ar_dur :: string
  ar_type :: string
  ar_event_id :: string
  ar_title :: string
  ar_block_id :: string
  ar_start_utc :: string
  ar_duration :: ms
  ar_uri :: "string option"

record artifact =
  af_lines :: "string list"
  af_rows :: "artifact_row list"

type_synonym artifact_store = "(string \<times> date) \<Rightarrow> artifact option"

definition hms :: "int \<Rightarrow> int \<Rightarrow> int \<Rightarrow> string" where
  "hms h m s = zero_pad 2 (nat h) @ '':'' @ zero_pad 2 (nat m) @ '':'' @ zero_pad 2 (nat s)"

definition ms_to_hhmmss :: "ms \<Rightarrow> string" where
  "ms_to_hhmmss ms = (let s = (if ms < 0 then 0 else ms) div 1000; r = s mod 3600
     in hms (s div 3600) (r div 60) (r mod 60))"

definition clock_hms :: "datetime \<Rightarrow> string" where
  "clock_hms dt = hms (hour_of (time_of dt)) (minute_of (time_of dt)) (second_of (time_of dt))"

definition ms_to_iso8601_utc :: "ms \<Rightarrow> string" where
  "ms_to_iso8601_utc ms =
     (let dt = from_epoch_ms ms in iso_date (date_of dt) @ ''T'' @ clock_hms dt @ ''Z'')"

definition segment_type_to_tlog_type :: "string \<Rightarrow> string" where
  "segment_type_to_tlog_type t =
     (if t = ''episode'' then ''PROGRAM'' else if t = ''ad'' then ''AD'' else if t = ''promo'' then ''PROMO''
      else if t = ''filler'' then ''PROMO'' else if t = ''pad'' then ''PROGRAM'' else ''PROGRAM'')"

text \<open>\<open>Path(p).name\<close> and \<open>str.strip\<close>.\<close>

fun path_parts :: "string \<Rightarrow> string \<Rightarrow> string list" where
  "path_parts acc [] = [rev acc]"
| "path_parts acc (c # cs) = (if c = CHR ''/'' then rev acc # path_parts [] cs else path_parts (c # acc) cs)"

definition path_name :: "string \<Rightarrow> string" where
  "path_name p = (let ps = filter (\<lambda>s. s \<noteq> [] \<and> s \<noteq> ''.'') (path_parts [] p)
     in if ps = [] then [] else last ps)"

definition is_space :: "char \<Rightarrow> bool" where
  "is_space c \<longleftrightarrow> c \<in> {CHR '' '', CHR 0x09, CHR 0x0A, CHR 0x0B, CHR 0x0C, CHR 0x0D}"

definition strip :: "string \<Rightarrow> string" where
  "strip s = rev (dropWhile is_space (rev (dropWhile is_space s)))"

definition or_dash :: "string \<Rightarrow> string" where
  "or_dash s = (if s = [] then ''-'' else s)"

definition local_hms :: "(datetime \<Rightarrow> int) \<Rightarrow> ms \<Rightarrow> string" where
  "local_hms tz_offset t = (let dt = from_epoch_ms t in clock_hms (dt + tz_offset dt))"

definition block_row :: "(datetime \<Rightarrow> int) \<Rightarrow> log_entry \<Rightarrow> artifact_row" where
  "block_row tz e =
     \<lparr>ar_time = local_hms tz (le_start e), ar_dur = ms_to_hhmmss (le_end e - le_start e),
      ar_type = ''BLOCK'', ar_event_id = le_block_id e,
      ar_title = le_block_id e @ '' UTC_START='' @ ms_to_iso8601_utc (le_start e)
        @ '' UTC_END='' @ ms_to_iso8601_utc (le_end e),
      ar_block_id = le_block_id e, ar_start_utc = ms_to_iso8601_utc (le_start e),
      ar_duration = le_end e - le_start e, ar_uri = None\<rparr>"

definition fence_row :: "(datetime \<Rightarrow> int) \<Rightarrow> log_entry \<Rightarrow> artifact_row" where
  "fence_row tz e =
     \<lparr>ar_time = local_hms tz (le_end e), ar_dur = ''00:00:00'', ar_type = ''FENCE'',
      ar_event_id = le_block_id e @ ''-FENCE'', ar_title = ''UTC_END='' @ ms_to_iso8601_utc (le_end e),
      ar_block_id = le_block_id e, ar_start_utc = ms_to_iso8601_utc (le_end e), ar_duration = 0,
      ar_uri = None\<rparr>"

fun segment_rows :: "(datetime \<Rightarrow> int) \<Rightarrow> string \<Rightarrow> ms \<Rightarrow> nat \<Rightarrow> log_segment list \<Rightarrow> artifact_row list" where
  "segment_rows tz bid seg_start i [] = []"
| "segment_rows tz bid seg_start i (s # ss) =
     (let uri = (case ls_uri s of Some (c # cs) \<Rightarrow> Some (c # cs) | _ \<Rightarrow> None);
          title = take 80 (case uri of Some u \<Rightarrow> or_dash (strip (path_name u))
                           | None \<Rightarrow> or_dash (strip (ls_type s)))
      in \<lparr>ar_time = local_hms tz seg_start, ar_dur = ms_to_hhmmss (ls_duration s),
          ar_type = segment_type_to_tlog_type (ls_type s), ar_event_id = event_id_of bid i,
          ar_title = title, ar_block_id = bid, ar_start_utc = ms_to_iso8601_utc seg_start,
          ar_duration = ls_duration s, ar_uri = uri\<rparr>
         # segment_rows tz bid (seg_start + ls_duration s) (Suc i) ss)"

definition build_rows :: "(datetime \<Rightarrow> int) \<Rightarrow> transmission_log \<Rightarrow> artifact_row list" where
  "build_rows tz tlog = concat (map (\<lambda>e.
     block_row tz e # segment_rows tz (le_block_id e) (le_start e) 0 (le_segments e) @ [fence_row tz e])
     (tl_entries tlog))"

definition ljust :: "nat \<Rightarrow> string \<Rightarrow> string" where
  "ljust w s = s @ replicate (w - length s) (CHR '' '')"

definition row_line :: "artifact_row \<Rightarrow> string" where
  "row_line r = ljust 8 (ar_time r) @ '' '' @ ljust 8 (ar_dur r) @ '' '' @ ljust 8 (ar_type r) @ '' ''
     @ ljust 32 (take 32 (ar_event_id r)) @ '' '' @ ar_title r"

definition header_lines ::
  "string \<Rightarrow> date \<Rightarrow> int option \<Rightarrow> string \<Rightarrow> datetime \<Rightarrow> string \<Rightarrow> string list" where
  "header_lines channel d day_start_hour timezone_display now tl_id =
     [''# RETROVUE TRANSMISSION LOG'', ''# CHANNEL: '' @ channel, ''# DATE: '' @ iso_date d]
     @ (case day_start_hour of None \<Rightarrow> []
        | Some h \<Rightarrow> [''# BROADCAST_DAY_START: '' @ zero_pad 2 (nat h) @ '':00:00'',
                     ''# BROADCAST_DAY_END: '' @ zero_pad 2 (nat h) @ '':00:00''])
     @ [''# TIMEZONE_DISPLAY: '' @ timezone_display,
      ''# GENERATED_UTC: '' @ iso_date (date_of now) @ ''T'' @ clock_hms now @ ''Z'',
      ''# TRANSMISSION_LOG_ID: '' @ tl_id, ''# VERSION: 1'', [],
      ljust 8 ''TIME'' @ '' '' @ ljust 8 ''DUR'' @ '' '' @ ljust 8 ''TYPE'' @ '' '' @ ljust 32 ''EVENT_ID''
        @ '' TITLE / ASSET'',
      ''-------- -------- -------- ------------------------------------ ''
        @ ''--------------------------------------------'']"

text \<open>The writer: it refuses to overwrite.  \<open>fresh_id\<close> stands for \<open>uuid4\<close>.\<close>

definition write_artifact ::
  "artifact_store \<Rightarrow> string \<Rightarrow> date \<Rightarrow> transmission_log \<Rightarrow> string \<Rightarrow> (datetime \<Rightarrow> int) \<Rightarrow> datetime \<Rightarrow> string
    \<Rightarrow> artifact_store \<times> unit res" where
  "write_artifact fs channel d tlog timezone_display tz now fresh_id =
     (if fs (channel, d) \<noteq> None then (fs, Inl TransmissionLogArtifactExistsError)
      else let tl_id = (case md_log_id (tl_metadata tlog) of Some (c # cs) \<Rightarrow> c # cs | _ \<Rightarrow> fresh_id);
               rows = build_rows tz tlog
           in (fs((channel, d) \<mapsto> \<lparr>af_lines = header_lines channel d (md_start_hour (tl_metadata tlog))
                     timezone_display now tl_id @ map row_line rows, af_rows = rows\<rparr>), Inr ()))"

section \<open>The run\<close>

definition lock_for_execution ::
  "artifact_store \<Rightarrow> transmission_log \<Rightarrow> datetime \<Rightarrow> string \<Rightarrow> (datetime \<Rightarrow> int) \<Rightarrow> string
    \<Rightarrow> artifact_store \<times> transmission_log res" where
  "lock_for_execution fs tlog lock_time timezone_display tz fresh_id =
     (case lock_transmission_log tlog lock_time of
        Inl e \<Rightarrow> (fs, Inl e)
      | Inr locked \<Rightarrow>
        (case write_artifact fs (tl_channel locked) (tl_date locked) locked timezone_display tz lock_time fresh_id of
           (fs', Inl e) \<Rightarrow> (fs', Inl e)
         | (fs', Inr _) \<Rightarrow> (fs', Inr locked)))"

record run_request =
  rr_directive :: planning_directive
  rr_date :: date
  rr_resolution_time :: datetime

definition plan_resolve_schedule_day ::
  "sm_config \<Rightarrow> catalog \<Rightarrow> sched_state \<Rightarrow> schedule_plan \<Rightarrow> run_request
    \<Rightarrow> (sched_state \<times> resolved_day res) option" where
  "plan_resolve_schedule_day cfg cat st plan rr =
     (case plan_slots plan (rr_date rr) of
        Inl e \<Rightarrow> Some (st, Inl e)
      | Inr slots \<Rightarrow> resolve_schedule_day cfg cat st (spl_channel_id plan) (rr_date rr) slots
                     (rr_resolution_time rr))"

definition run_planning_pipeline ::
  "sm_config \<Rightarrow> catalog \<Rightarrow> asset_lib \<Rightarrow> (datetime \<Rightarrow> int) \<Rightarrow> string \<Rightarrow> run_request \<Rightarrow> datetime option
    \<Rightarrow> break_profile option \<Rightarrow> break_fill_policy option \<Rightarrow> sched_state \<Rightarrow> artifact_store
    \<Rightarrow> (sched_state \<times> artifact_store \<times> transmission_log res) option" where
  "run_planning_pipeline cfg cat lib tz fresh_id rr lock_time profile policy st fs =
     (let dir = rr_directive rr; plan = build_schedule_plan dir
      in case plan_resolve_schedule_day cfg cat st plan rr of
           None \<Rightarrow> None
         | Some (st', Inl e) \<Rightarrow> Some (st', fs, Inl e)
         | Some (st', Inr rd) \<Rightarrow>
           (case derive_epg (pd_channel_id dir) rd (pd_day_start_hour dir) (pd_grid_minutes dir) of
              Inl e \<Rightarrow> Some (st', fs, Inl e)
            | Inr _ \<Rightarrow>
              (case fill_breaks (get_filler_assets lib) policy
                      (segment_blocks rd (pd_grid_minutes dir) (get_duration_ms lib) (get_markers lib) profile) of
                 None \<Rightarrow> None
               | Some filled \<Rightarrow>
                 (let tlog = assemble_transmission_log (pd_channel_id dir) (rr_date rr) filled
                        (pd_day_start_hour dir) (pd_grid_minutes dir) (rr_resolution_time rr)
                  in case lock_time of
                       None \<Rightarrow> Some (st', fs, Inr tlog)
                     | Some t \<Rightarrow> (case lock_for_execution fs tlog t ''UTC'' tz fresh_id of
                                    (fs', r) \<Rightarrow> Some (st', fs', r))))))"

section \<open>EPG of a resolved day\<close>

lemma derive_epg_loop_total:
  "lockstep es (drop k (rd_slots rd)) \<Longrightarrow>
    \<exists>evs. derive_epg_loop c rd g h es (int k) = Inr evs \<and> length evs = length es
      \<and> map (\<lambda>e. epg_end e - epg_start e) evs = map (\<lambda>e. pe_span e * (g * 60) * 1000000) es
      \<and> map (\<lambda>x. Some (epg_asset x)) evs = map pe_asset es"
proof (induction es arbitrary: k)
  case (Cons e es)
  let ?n = "nat (pe_span e)"
  have k: "k < length (rd_slots rd)" and n: "1 \<le> pe_span e" using Cons.prems by simp_all
  have "lockstep es (drop (k + ?n) (rd_slots rd))" using Cons.prems by (simp add: add.commute)
  from Cons.IH [OF this] obtain evs where evs: "derive_epg_loop c rd g h es (int (k + ?n)) = Inr evs"
    "length evs = length es"
    "map (\<lambda>e. epg_end e - epg_start e) evs = map (\<lambda>e. pe_span e * (g * 60) * 1000000) es"
    "map (\<lambda>x. Some (epg_asset x)) evs = map pe_asset es" by blast
  have "rd_slots rd ! k \<in> set (take ?n (drop k (rd_slots rd)))"
    using k n by (subst Cons_nth_drop_Suc [symmetric]) (simp_all add: take_Cons' )
  then have a: "pe_asset e = Some (rs_asset (rd_slots rd ! k))" using Cons.prems by simp
  have "int (k + ?n) = int k + pe_span e" using n by simp
  with evs k a show ?case by (auto simp: Let_def epg_of_def)
qed simp

section \<open>From gapless zones to a valid log\<close>

text \<open>The zones of a day follow each other from \<open>a\<close> to \<open>b\<close>, each a whole number of blocks long.\<close>

fun zones_chain :: "int \<Rightarrow> int \<Rightarrow> date \<Rightarrow> datetime \<Rightarrow> zone_directive list \<Rightarrow> datetime \<Rightarrow> bool" where
  "zones_chain g h d a [] b \<longleftrightarrow> a = b"
| "zones_chain g h d a (z # zs) b \<longleftrightarrow>
     (\<exists>m. zone_window z h d = (a, m) \<and> a \<le> m \<and> m - a < 1000000 * 2 ^ 53 \<and> g * 60000000 dvd m - a
        \<and> zd_programs z \<noteq> [] \<and> zones_chain g h d m zs b)"

text \<open>The times of day of \<open>n\<close> grid steps of length \<open>G\<close> from \<open>a\<close> on.\<close>

definition grid_times :: "datetime \<Rightarrow> int \<Rightarrow> nat \<Rightarrow> time_of_day list" where
  "grid_times a G n = map (\<lambda>i. time_of (a + int i * G)) [0..<n]"

lemma grid_times_append: "grid_times a G n @ grid_times (a + int n * G) G n' = grid_times a G (n + n')"
proof (rule nth_equalityI)
  fix i assume i: "i < length (grid_times a G n @ grid_times (a + int n * G) G n')"
  show "(grid_times a G n @ grid_times (a + int n * G) G n') ! i = grid_times a G (n + n') ! i"
  proof (cases "i < n")
    case False
    then have "i - n < n'" using i by (simp add: grid_times_def)
    moreover have "i < n + n'" using i by (simp add: grid_times_def)
    ultimately show ?thesis using False
      by (simp add: grid_times_def nth_append of_nat_diff left_diff_distrib del: upt_Suc)
  qed (simp add: grid_times_def nth_append)
qed (simp add: grid_times_def)

lemma zone_slots_on_grid:
  assumes w: "zone_window z h d = (a, m)" and le: "a \<le> m" "m - a < 1000000 * 2 ^ 53"
    and dvd: "g * 60000000 dvd m - a" and ne: "zd_programs z \<noteq> []" and g: "0 < g" "g < 2 ^ 40"
  shows "\<exists>slots n. zone_to_slots z g h d = Inr slots \<and> m = a + int n * (g * 60000000)
    \<and> map slot_time slots = grid_times a (g * 60000000) n"
proof -
  obtain k where k: "m - a = g * 60000000 * k" using dvd by blast
  have k0: "0 \<le> k"
  proof (rule ccontr)
    assume "\<not> 0 \<le> k"
    then have "g * 60000000 * k < 0" using g(1) by (intro mult_pos_neg) simp_all
    with k le(1) show False by linarith
  qed
  let ?s = "g * 60 * k"
  have s: "zone_window z h d = (a, a + ?s * 1000000)" using w k by simp
  have "0 \<le> ?s" using k0 g by simp
  moreover have "?s < 2 ^ 53" using k le(2) by simp
  moreover have "?s div (g * 60) = k" using g by simp
  ultimately have z: "zone_to_slots z g h d = Inr (map (zone_slot z (g * 60) a) [0..<nat k])"
    using zone_to_slots_whole [OF s _ _ g ne] by simp
  have "map slot_time (map (zone_slot z (g * 60) a) [0..<nat k]) =
      grid_times a (g * 60000000) (nat k)"
    by (simp add: grid_times_def zone_slot_def Let_def mult.assoc)
  then show ?thesis using z k k0 by (intro exI conjI) (auto simp: algebra_simps)
qed

lemma zones_on_grid:
  assumes "zones_chain g h d a zs b" and g: "0 < g" "g < 2 ^ 40"
  shows "\<exists>slotss n. map_res (\<lambda>z. zone_to_slots z g h d) zs = Inr slotss \<and> b = a + int n * (g * 60000000)
    \<and> map slot_time (concat slotss) = grid_times a (g * 60000000) n"
  using assms(1)
proof (induction zs arbitrary: a)
  case Nil
  then show ?case by (intro exI [of _ "[]"] exI [of _ 0]) (simp add: grid_times_def)
next
  case (Cons z zs)
  define G where "G = g * 60000000"
  from Cons.prems obtain m where m: "zone_window z h d = (a, m)" "a \<le> m" "m - a < 1000000 * 2 ^ 53"
      "g * 60000000 dvd m - a" "zd_programs z \<noteq> []" "zones_chain g h d m zs b"
    unfolding zones_chain.simps by blast
  obtain slots n where z: "zone_to_slots z g h d = Inr slots" "m = a + int n * G"
      "map slot_time slots = grid_times a G n"
    using zone_slots_on_grid [OF m(1-5) g] unfolding G_def by blast
  obtain slotss n' where r: "map_res (\<lambda>z. zone_to_slots z g h d) zs = Inr slotss" "b = m + int n' * G"
      "map slot_time (concat slotss) = grid_times m G n'"
    using Cons.IH [OF m(6)] unfolding G_def by blast
  have "map slot_time (concat (slots # slotss)) = grid_times a G (n + n')"
    using z(3) r(3) grid_times_append [of a G n n'] by (simp add: z(2))
  moreover have "b = a + int (n + n') * G" unfolding r(2) z(2) by (simp add: distrib_right)
  moreover have "map_res (\<lambda>z. zone_to_slots z g h d) (z # zs) = Inr (slots # slotss)" using z(1) r(1) by simp
  ultimately show ?case unfolding G_def by blast
qed

text \<open>Within the programming day a slot's time of day determines its instant.\<close>

lemma slot_time_round_trip:
  assumes h: "0 \<le> h" "h < 24" and t: "combine d (h * us_per_hour) \<le> t" "t < combine d (h * us_per_hour) + us_per_day"
  shows "slot_time_to_datetime d (time_of t) h = t"
proof -
  have t': "t = date_of t * us_per_day + time_of t" "0 \<le> time_of t" "time_of t < us_per_day"
    using combine_date_time [of t] valid_time_of [of t] by (simp_all add: combine_def valid_time_def)
  have hour: "hour_of (time_of t) < h \<longleftrightarrow> time_of t < h * us_per_hour"
    unfolding hour_of_def by (simp add: us_per_hour_def) linarith
  have "d * us_per_day \<le> t" "t < (d + 2) * us_per_day"
    using t h by (simp_all add: combine_def us_defs)
  then have "date_of t = d \<or> date_of t = d + 1" using t' by (simp add: us_defs) linarith
  then show ?thesis
    using t t' h unfolding slot_time_to_datetime_def hour combine_def
    by (auto simp: us_defs algebra_simps)
qed

lemma to_epoch_whole_us:
  assumes "1000000 dvd t" "\<bar>t\<bar> \<le> 2 ^ 60"
  shows "to_epoch_ms t = t div 1000"
proof -
  obtain s where s: "t = 1000000 * s" using assms(1) by blast
  then have "\<bar>s\<bar> \<le> 2 ^ 43" using assms(2) by simp
  then show ?thesis using to_epoch_ms_whole [of s] s by (simp add: mult.commute)
qed

lemma fill_breaks_slots:
  assumes "fill_breaks get policy bs = Some fbs"
  shows "map fb_slot fbs = map sbk_slot bs \<and> map fb_block_ms fbs = map sbk_block_ms bs"
proof -
  obtain p where "list_all2 (\<lambda>b fb. fill_block get p b = Some fb) bs fbs"
    using assms by (rule fill_breaks_blocks)
  then show ?thesis by (induction rule: list_all2_induct) (auto dest: fill_block_fields)
qed

lemma abs_plus_bound:
  fixes a x :: int
  assumes "\<bar>a\<bar> \<le> 2 ^ 59" "w \<le> 2 ^ 59" "0 \<le> x" "x < w"
  shows "\<bar>a + x\<bar> \<le> 2 ^ 60"
  using assms by simp

text \<open>Blocks whose slots lie on the grid of the day are placed one after the other.\<close>

lemma assembled_on_grid:
  assumes h: "0 \<le> h" "h < 24" and g: "0 < g" and d: "\<bar>d\<bar> \<le> 2 ^ 20"
    and times: "map (\<lambda>fb. rs_time (fb_slot fb)) fbs = grid_times (combine d (h * us_per_hour)) (g * 60000000) n"
    and len: "int n * (g * 60000000) \<le> us_per_day"
    and durs: "\<forall>fb \<in> set fbs. fb_block_ms fb = g * 60 * 1000"
    and es: "es = tl_entries (assemble_transmission_log c d fbs h g t)" and k: "k < n"
  shows "length es = n \<and> le_start (es ! k) = d * 86400000 + h * 3600000 + int k * (g * 60000)
    \<and> le_end (es ! k) = d * 86400000 + h * 3600000 + int k * (g * 60000) + g * 60000"
proof -
  let ?a = "combine d (h * us_per_hour)" and ?t = "combine d (h * us_per_hour) + int k * (g * 60000000)"
  have lf: "length fbs = n" using arg_cong [OF times, of length] by (simp add: grid_times_def)
  have tk: "rs_time (fb_slot (fbs ! k)) = time_of ?t"
    using arg_cong [OF times, of "\<lambda>xs. xs ! k"] k lf by (simp add: grid_times_def)
  have kg: "0 \<le> int k * (g * 60000000)" using g by simp
  have "int k * (g * 60000000) < int n * (g * 60000000)" using k g by (intro mult_strict_right_mono) simp_all
  then have lt: "int k * (g * 60000000) < us_per_day" using len by linarith
  have rt: "slot_time_to_datetime d (time_of ?t) h = ?t"
    using kg lt by (intro slot_time_round_trip [OF h]) simp_all
  have a: "?t = 1000 * (d * 86400000 + h * 3600000 + int k * (g * 60000))"
    by (simp add: combine_def us_defs)
  have "1000000 dvd 1000 * (d * 86400000 + h * 3600000 + int k * (g * 60000))"
  proof -
    have "1000 * (d * 86400000 + h * 3600000 + int k * (g * 60000))
        = 1000000 * (d * 86400 + h * 3600 + int k * (g * 60))" by simp
    then show ?thesis by (metis dvd_triv_left)
  qed
  then have dv: "1000000 dvd ?t" unfolding a .
  have "\<bar>?a\<bar> \<le> 2 ^ 59" using d h by (simp add: combine_def us_defs abs_if split: if_splits)
  moreover have "us_per_day \<le> 2 ^ 59" by (simp add: us_defs)
  ultimately have "\<bar>?t\<bar> \<le> 2 ^ 60" using kg lt by (rule abs_plus_bound)
  from to_epoch_whole_us [OF dv this]
  have "to_epoch_ms ?t = d * 86400000 + h * 3600000 + int k * (g * 60000)" unfolding a by simp
  then show ?thesis
    using k lf durs by (simp add: es assemble_entries_nth tk rt)
qed

lemma assembled_log_valid:
  fixes c :: string and t :: datetime and h g d :: int
  assumes h: "0 \<le> h" "h < 24" and g: "0 < g" and d: "\<bar>d\<bar> \<le> 2 ^ 20"
    and times: "map (\<lambda>fb. rs_time (fb_slot fb)) fbs = grid_times (combine d (h * us_per_hour)) (g * 60000000) n"
    and len: "int n * (g * 60000000) \<le> us_per_day"
    and durs: "\<forall>fb \<in> set fbs. fb_block_ms fb = g * 60 * 1000"
  defines "tlog \<equiv> assemble_transmission_log c d fbs h g t"
  shows "validate_transmission_log_seams tlog g = Inr ()"
    and "length (tl_entries tlog) = n"
    and "k < n \<Longrightarrow> le_start (tl_entries tlog ! k) = d * 86400000 + h * 3600000 + int k * (g * 60000)"
    and "g dvd 60 \<Longrightarrow> validate_transmission_log_grid_alignment tlog g = Inr ()"
proof -
  let ?es = "tl_entries tlog"
  note at = assembled_on_grid [OF h g d times len durs, of ?es c t, unfolded tlog_def, OF refl, folded tlog_def]
  have "length fbs = n" using arg_cong [OF times, of length] by (simp add: grid_times_def)
  then show l: "length ?es = n" by (simp add: tlog_def assemble_entries_nth)
  have span: "\<forall>e \<in> set ?es. \<exists>k < n. e = ?es ! k" unfolding l [symmetric] by (auto simp: in_set_conv_nth)
  have "le_start e < le_end e \<and> le_end e - le_start e = g * 60 * 1000" if e: "e \<in> set ?es" for e
  proof -
    obtain k where "k < n" "e = ?es ! k" using bspec [OF span e] by (elim exE conjE)
    then show ?thesis using at [of k] g by simp
  qed
  moreover have "chained (map entry_span ?es)"
    unfolding chained_nth
  proof (intro allI impI)
    fix i assume i: "Suc i < length (map entry_span ?es)"
    then have "i < n" "Suc i < n" using l by simp_all
    then have "le_end (?es ! i) = le_start (?es ! Suc i)" using at [of i] at [of "Suc i"]
      by (simp add: distrib_right)
    then show "snd (map entry_span ?es ! i) = fst (map entry_span ?es ! Suc i)"
      using i by (simp add: entry_span_def)
  qed
  ultimately show "validate_transmission_log_seams tlog g = Inr ()"
    by (simp add: validate_transmission_log_seams_def validate_seams_iff)
  show "k < n \<Longrightarrow> le_start (?es ! k) = d * 86400000 + h * 3600000 + int k * (g * 60000)" using at by simp
  assume "g dvd 60"
  then obtain q where q: "60 = g * q" by blast
  have "g * 60 * 1000 dvd le_start e \<and> g * 60 * 1000 dvd le_end e" if e: "e \<in> set ?es" for e
  proof -
    obtain k where k: "k < n" "e = ?es ! k" using bspec [OF span e] by (elim exE conjE)
    have "d * 86400000 + h * 3600000 + int k * (g * 60000) = g * 60 * 1000 * (q * (d * 24 + h) + int k)"
    proof -
      have "g * 60 * 1000 * (q * (d * 24 + h) + int k) = (g * q) * (60000 * (d * 24 + h)) + int k * (g * 60000)"
        by (simp only: distrib_left distrib_right mult_ac)
      then show ?thesis unfolding q [symmetric] by simp
    qed
    then have s: "g * 60 * 1000 dvd le_start e" using at [OF k(1)] k(2) by (metis dvd_triv_left)
    moreover have "le_end e = le_start e + g * 60 * 1000" using at [OF k(1)] k(2) by simp
    ultimately show ?thesis by simp
  qed
  then show "validate_transmission_log_grid_alignment tlog g = Inr ()"
    using g by (simp add: validate_transmission_log_grid_alignment_def for_check_ok_iff check_entry_aligned_iff)
qed

section \<open>The run\<close>

text \<open>What a run without locking went through when it returned a log.\<close>

lemma unlocked_run:
  assumes "run_planning_pipeline cfg cat lib tz fid rr None profile policy st fs = Some (st', fs', Inr tlog)"
  obtains slots rd filled where
    "plan_slots (build_schedule_plan (rr_directive rr)) (rr_date rr) = Inr slots"
    "resolve_schedule_day cfg cat st (pd_channel_id (rr_directive rr)) (rr_date rr) slots
       (rr_resolution_time rr) = Some (st', Inr rd)"
    "fill_breaks (get_filler_assets lib) policy (segment_blocks rd (pd_grid_minutes (rr_directive rr))
       (get_duration_ms lib) (get_markers lib) profile) = Some filled"
    "tlog = assemble_transmission_log (pd_channel_id (rr_directive rr)) (rr_date rr) filled
       (pd_day_start_hour (rr_directive rr)) (pd_grid_minutes (rr_directive rr)) (rr_resolution_time rr)"
    "fs' = fs"
proof -
  let ?plan = "build_schedule_plan (rr_directive rr)"
  obtain r where r: "plan_resolve_schedule_day cfg cat st ?plan rr = Some r"
    using assms by (auto simp: run_planning_pipeline_def Let_def split: option.splits)
  obtain rd where rd: "r = (st', Inr rd)"
    using assms r by (cases r; cases "snd r")
      (auto simp: run_planning_pipeline_def Let_def split: sum.splits option.splits)
  obtain slots where slots: "plan_slots ?plan (rr_date rr) = Inr slots"
    using r rd by (auto simp: plan_resolve_schedule_day_def split: sum.splits)
  then have res: "resolve_schedule_day cfg cat st (pd_channel_id (rr_directive rr)) (rr_date rr) slots
       (rr_resolution_time rr) = Some (st', Inr rd)"
    using r rd by (simp add: plan_resolve_schedule_day_def build_schedule_plan_def)
  obtain filled where filled: "fill_breaks (get_filler_assets lib) policy
      (segment_blocks rd (pd_grid_minutes (rr_directive rr)) (get_duration_ms lib) (get_markers lib) profile)
      = Some filled"
    using assms r rd by (auto simp: run_planning_pipeline_def Let_def split: sum.splits option.splits)
  show thesis
    using assms r rd filled by (intro that [OF slots res filled])
      (auto simp: run_planning_pipeline_def Let_def split: sum.splits option.splits)
qed

text \<open>A resolved day of the run has a block for every slot.\<close>

lemma blocks_of_lockstep:
  assumes "lockstep (rd_events rd) (rd_slots rd)"
  shows "map sbk_slot (segment_blocks rd g D M prof) = rd_slots rd"
proof -
  let ?n = "length (rd_slots rd)"
  let ?as = "assign_blocks (rd_events rd) ?n 0"
  have "map fst ?as = [0..<?n]"
    using assign_blocks_slots [of 0 ?n "rd_events rd"] lockstep_spans [OF assms] by (simp add: min_def)
  moreover have "map sbk_slot (segment_blocks rd g D M prof) = map (\<lambda>i. rd_slots rd ! i) (map fst ?as)"
    by (auto simp: segment_blocks_def Let_def)
  ultimately show ?thesis by (simp add: map_nth)
qed

lemma fresh_day_lockstep:
  assumes "0 < cfg_grid_minutes cfg" and "get_day (ss_resolved st) c d = None"
    and "resolve_schedule_day cfg cat st c d slots t = Some (st', Inr rd)"
  shows "map rs_time (rd_slots rd) = map slot_time slots" and "lockstep (rd_events rd) (rd_slots rd)"
proof -
  obtain rs evs seq rst where
    "resolve_loop cfg cat c d slots 0 (ss_sequence st) [] [] = Some (seq, Inr (rs, evs))"
    "rd_slots rd = rs" "rd_events rd = evs"
    using assms(2,3) by (rule resolve_fresh_cases)
  then show "map rs_time (rd_slots rd) = map slot_time slots" "lockstep (rd_events rd) (rd_slots rd)"
    using resolve_loop_result [OF assms(1), of 0 slots cat c d "ss_sequence st" "[]" "[]"] by auto
qed

definition demo_run_directive :: planning_directive where
  "demo_run_directive = \<lparr>pd_channel_id = ''ch'', pd_grid_minutes = 30, pd_day_start_hour = 6,
     pd_zones = [\<lparr>zd_start = 6 * us_per_hour, zd_end = 7 * us_per_hour,
       zd_programs = [\<lparr>ref_type = FILE, ref_id = ''film.mp4''\<rparr>], zd_label = [], zd_day_filter = None\<rparr>]\<rparr>"

definition demo_request :: run_request where
  "demo_request = \<lparr>rr_directive = demo_run_directive, rr_date = 20000, rr_resolution_time = 0\<rparr>"

section \<open>Properties\<close>

text \<open>
  C37. A planning run returns, with a transmission log or with an exception, whenever every filler
  of the library has a positive length and the schedule manager's grid is positive.
\<close>

theorem planning_run_returns:
  assumes "0 < cfg_grid_minutes cfg" and "library_wf lib"
  shows "run_planning_pipeline cfg cat lib tz fid rr lock_time profile policy st fs \<noteq> None"
proof -
  let ?dir = "rr_directive rr"
  have res: "plan_resolve_schedule_day cfg cat st (build_schedule_plan ?dir) rr \<noteq> None"
  proof (cases "plan_slots (build_schedule_plan ?dir) (rr_date rr)")
    case (Inr slots)
    let ?c = "spl_channel_id (build_schedule_plan ?dir)"
    show ?thesis
    proof (cases "get_day (ss_resolved st) ?c (rr_date rr)")
      case None
      obtain seq r where "resolve_loop cfg cat ?c (rr_date rr) slots 0 (ss_sequence st) [] [] = Some (seq, r)"
        using resolve_loop_result [OF assms(1), of 0 slots cat ?c "rr_date rr" "ss_sequence st" "[]" "[]"] by auto
      with None Inr show ?thesis
        by (cases r) (auto simp: plan_resolve_schedule_day_def resolve_schedule_day_def Let_def
            split: prod.splits sum.splits)
    qed (simp add: plan_resolve_schedule_day_def resolve_schedule_day_def Inr)
  qed (simp add: plan_resolve_schedule_day_def)
  from res obtain st' r where r: "plan_resolve_schedule_day cfg cat st (build_schedule_plan ?dir) rr = Some (st', r)"
    by auto
  show ?thesis
  proof (cases r)
    case (Inr rd)
    obtain filled where "fill_breaks (get_filler_assets lib) policy (segment_blocks rd (pd_grid_minutes ?dir)
        (get_duration_ms lib) (get_markers lib) profile) = Some filled"
      using mem_lib.blocks_end [OF assms(2)] by blast
    with r Inr show ?thesis
      by (simp add: run_planning_pipeline_def Let_def split: option.split prod.split sum.split)
  qed (simp add: run_planning_pipeline_def r)
qed

theorem planning_run_returns_witness:
  "run_planning_pipeline demo_cfg demo_catalog demo_library (\<lambda>_. 0) ''id'' demo_request None None None
     demo_sched_state Map.empty \<noteq> None"
  by (rule planning_run_returns [OF _ demo_library_wf]) (simp add: demo_cfg_def)

text \<open>
  C1. A day planned from zones that follow each other without gap from the programming-day start,
  each a whole number of grid blocks long and none past the end of the day, yields a transmission
  log of exactly the blocks of the zones: entry \<open>k\<close> starts \<open>k\<close> blocks after the day does, the seam
  validator accepts the log, and so does the grid validator when the grid divides the hour.
\<close>

theorem planned_day_log_valid:
  assumes "run_planning_pipeline cfg cat lib tz fid rr None profile policy st fs = Some (st', fs', Inr tlog)"
    and "g = pd_grid_minutes (rr_directive rr)" "h = pd_day_start_hour (rr_directive rr)" "d = rr_date rr"
    and "0 < g" "g < 2 ^ 40" "0 \<le> h" "h < 24" "\<bar>d\<bar> \<le> 2 ^ 20" and "0 < cfg_grid_minutes cfg"
    and "zones_chain g h d (combine d (h * us_per_hour)) (pd_zones (rr_directive rr)) b"
    and "b \<le> combine d (h * us_per_hour) + us_per_day"
    and "get_day (ss_resolved st) (pd_channel_id (rr_directive rr)) d = None"
  shows "validate_transmission_log_seams tlog g = Inr ()
    \<and> (g dvd 60 \<longrightarrow> validate_transmission_log_grid_alignment tlog g = Inr ())
    \<and> combine d (h * us_per_hour) + int (length (tl_entries tlog)) * (g * 60000000) = b
    \<and> (\<forall>k < length (tl_entries tlog).
        le_start (tl_entries tlog ! k) = d * 86400000 + h * 3600000 + int k * (g * 60000))"
  using assms(1)
proof (rule unlocked_run)
  fix slots rd filled
  let ?dir = "rr_directive rr" and ?a = "combine d (h * us_per_hour)"
  assume slots: "plan_slots (build_schedule_plan ?dir) (rr_date rr) = Inr slots"
    and res: "resolve_schedule_day cfg cat st (pd_channel_id ?dir) (rr_date rr) slots (rr_resolution_time rr)
      = Some (st', Inr rd)"
    and filled: "fill_breaks (get_filler_assets lib) policy (segment_blocks rd (pd_grid_minutes ?dir)
       (get_duration_ms lib) (get_markers lib) profile) = Some filled"
    and tlog: "tlog = assemble_transmission_log (pd_channel_id ?dir) (rr_date rr) filled
       (pd_day_start_hour ?dir) (pd_grid_minutes ?dir) (rr_resolution_time rr)"
  obtain slotss n where z: "map_res (\<lambda>z. zone_to_slots z g h d) (pd_zones ?dir) = Inr slotss"
    "b = ?a + int n * (g * 60000000)" "map slot_time (concat slotss) = grid_times ?a (g * 60000000) n"
    using zones_on_grid [OF assms(11,5,6)] by blast
  have "slots = concat slotss"
    using slots z(1) assms(2-4) by (simp add: plan_slots_def build_schedule_plan_def)
  moreover note day = fresh_day_lockstep [OF assms(10) _ res] 
  ultimately have times: "map rs_time (rd_slots rd) = grid_times ?a (g * 60000000) n"
    and ls: "lockstep (rd_events rd) (rd_slots rd)" using z(3) assms(4,13) by auto
  let ?bs = "segment_blocks rd g (get_duration_ms lib) (get_markers lib) profile"
  have f: "map fb_slot filled = rd_slots rd" "map fb_block_ms filled = map sbk_block_ms ?bs"
    using fill_breaks_slots [OF filled] blocks_of_lockstep [OF ls] assms(2) by simp_all
  have "map (\<lambda>fb. rs_time (fb_slot fb)) filled = map rs_time (map fb_slot filled)" by simp
  then have t: "map (\<lambda>fb. rs_time (fb_slot fb)) filled = grid_times ?a (g * 60000000) n"
    unfolding f(1) times .
  have "sbk_block_ms s = g * 60 * 1000" if "s \<in> set ?bs" for s
    using that by (elim segment_blocks_mem) simp
  then have "\<forall>m \<in> set (map fb_block_ms filled). m = g * 60 * 1000" unfolding f(2) by auto
  then have durs: "\<forall>fb \<in> set filled. fb_block_ms fb = g * 60 * 1000" by simp
  have len: "int n * (g * 60000000) \<le> us_per_day" using z(2) assms(12) by simp
  note valid = assembled_log_valid [OF assms(7,8,5,9) t len durs, where c = "pd_channel_id ?dir" and t = "rr_resolution_time rr"]
  show ?thesis using valid z(2) assms(2-4) by (simp add: tlog)
qed

theorem planned_day_log_valid_witness:
  "\<exists>st' fs' tlog. run_planning_pipeline demo_cfg demo_catalog demo_library (\<lambda>_. 0) ''id'' demo_request None None None
     demo_sched_state Map.empty = Some (st', fs', Inr tlog)
    \<and> validate_transmission_log_seams tlog 30 = Inr () \<and> length (tl_entries tlog) = 2"
proof -
  have "(case run_planning_pipeline demo_cfg demo_catalog demo_library (\<lambda>_. 0) ''id'' demo_request None None None
     demo_sched_state Map.empty of Some (st', fs', Inr tlog) \<Rightarrow> True | _ \<Rightarrow> False)"
    by code_simp
  then obtain st' fs' tlog where run: "run_planning_pipeline demo_cfg demo_catalog demo_library (\<lambda>_. 0) ''id''
      demo_request None None None demo_sched_state Map.empty = Some (st', fs', Inr tlog)"
    by (auto split: option.splits sum.splits) (metis obj_sumE)
  have w: "zone_window \<lparr>zd_start = 6 * us_per_hour, zd_end = 7 * us_per_hour,
       zd_programs = [\<lparr>ref_type = FILE, ref_id = ''film.mp4''\<rparr>], zd_label = [], zd_day_filter = None\<rparr> 6 20000
    = (combine 20000 (6 * us_per_hour), combine 20000 (7 * us_per_hour))" by code_simp
  have z: "zones_chain 30 6 20000 (combine 20000 (6 * us_per_hour)) (pd_zones (rr_directive demo_request))
      (combine 20000 (7 * us_per_hour))"
    using w by (simp add: demo_request_def demo_run_directive_def combine_def us_defs)
  have f: "get_day (ss_resolved demo_sched_state) (pd_channel_id (rr_directive demo_request)) 20000 = None"
    by code_simp
  have "validate_transmission_log_seams tlog 30 = Inr ()
      \<and> (30 dvd (60::int) \<longrightarrow> validate_transmission_log_grid_alignment tlog 30 = Inr ())
      \<and> combine 20000 (6 * us_per_hour) + int (length (tl_entries tlog)) * (30 * 60000000)
        = combine 20000 (7 * us_per_hour)
      \<and> (\<forall>k < length (tl_entries tlog).
          le_start (tl_entries tlog ! k) = 20000 * 86400000 + 6 * 3600000 + int k * (30 * 60000))"
    by (rule planned_day_log_valid [OF run _ _ _ _ _ _ _ _ _ z _ f])
      (simp_all add: demo_request_def demo_run_directive_def demo_cfg_def combine_def us_defs)
  moreover from this have "length (tl_entries tlog) = 2" by (simp add: combine_def us_defs)
  ultimately show ?thesis using run by blast
qed

end
