(* ===== verification/Schedule_Service.thy ===== *)
theory Schedule_Service
  imports Planning_Pipeline
begin

text \<open>
  The schedule service around the schedule manager,
  \<^verbatim>\<open>ScheduleManagerBackedScheduleService\<close> of \<^verbatim>\<open>runtime/schedule_manager_service.py\<close>: it loads the
  slots of a channel from a file, primes days, and answers what plays at an instant, as a playout
  item, as a block or as guide events.  A file is what \<open>json.load\<close> makes of it: missing, malformed,
  or a list of slot objects whose keys may be absent.  Instants are in UTC.  Strings are ASCII,
  so that \<open>int(text)\<close> is the grammar of the language for ASCII digits.
\<close>

section \<open>Reading a clock time\<close>

definition is_digit :: "char \<Rightarrow> bool" where
  "is_digit c \<longleftrightarrow> 48 \<le> (of_char c :: nat) \<and> (of_char c :: nat) \<le> 57"

text \<open>\<open>int(s)\<close>: digits with single underscores between them, a sign, blanks around.\<close>

fun parse_digits :: "bool \<Rightarrow> nat \<Rightarrow> string \<Rightarrow> nat option" where
  "parse_digits after_digit acc [] = (if after_digit then Some acc else None)"
| "parse_digits after_digit acc (c # cs) =
     (if is_digit c then parse_digits True (10 * acc + digit_value c) cs
      else if c = CHR ''_'' \<and> after_digit then parse_digits False acc cs
      else None)"

definition py_int :: "string \<Rightarrow> int option" where
  "py_int s =
     (case strip s of
        [] \<Rightarrow> None
      | c # cs \<Rightarrow>
        if c = CHR ''-'' then map_option (\<lambda>n. - int n) (parse_digits False 0 cs)
        else if c = CHR ''+'' then map_option int (parse_digits False 0 cs)
        else map_option int (parse_digits False 0 (c # cs)))"

fun split_on :: "char \<Rightarrow> string \<Rightarrow> string list" where
  "split_on c [] = [[]]"
| "split_on c (x # xs) =
     (if x = c then [] # split_on c xs
      else case split_on c xs of s # ss \<Rightarrow> (x # s) # ss | [] \<Rightarrow> [[x]])"

definition py_int_res :: "string \<Rightarrow> int res" where
  "py_int_res s = (case py_int s of None \<Rightarrow> Inl (ValueError ''int'') | Some n \<Rightarrow> Inr n)"

text \<open>\<open>time(hour=hour, minute=minute)\<close>\<close>

definition make_time :: "int \<Rightarrow> int \<Rightarrow> time_of_day res" where
  "make_time hour minute =
     (if 0 \<le> hour \<and> hour \<le> 23 \<and> 0 \<le> minute \<and> minute \<le> 59
      then Inr (hour * us_per_hour + minute * 60000000) else Inl (ValueError ''time''))"

section \<open>Loading a schedule\<close>

record slot_json =
  sj_slot_time :: "string option"
  sj_ref_type :: "string option"
  sj_ref_id :: "string option"
  sj_duration :: "rat option"
  sj_label :: "string option"

datatype schedule_file = MissingFile | MalformedFile | SlotFile "slot_json list"

definition parse_clock :: "string \<Rightarrow> (int \<times> int) res" where
  "parse_clock s =
     (let parts = split_on (CHR '':'') s
      in bind_res (py_int_res (parts ! 0)) (\<lambda>hour.
         bind_res (if 1 < length parts then py_int_res (parts ! 1) else Inr 0) (\<lambda>minute.
         Inr (hour, minute))))"

definition parse_slot :: "slot_json \<Rightarrow> schedule_slot res" where
  "parse_slot j =
     (case sj_slot_time j of
        None \<Rightarrow> Inl KeyError
      | Some s \<Rightarrow>
        bind_res (parse_clock s) (\<lambda>(hour, minute).
          let ref_type_str = (case sj_ref_type j of None \<Rightarrow> ''file'' | Some t \<Rightarrow> t);
              rtype = (if ref_type_str = ''program'' then PROGRAM
                       else if ref_type_str = ''asset'' then ASSET else FILE);
              rid = (case sj_ref_id j of None \<Rightarrow> [] | Some i \<Rightarrow> i)
          in bind_res (make_time hour minute) (\<lambda>t.
               Inr \<lparr>slot_time = t, slot_ref = \<lparr>ref_type = rtype, ref_id = rid\<rparr>,
                    slot_duration = (case sj_duration j of None \<Rightarrow> 1800 | Some d \<Rightarrow> d),
                    slot_label = (case sj_label j of None \<Rightarrow> [] | Some l \<Rightarrow> l)\<rparr>)))"

record schedule_service =
  sv_cfg :: sm_config
  sv_catalog :: catalog
  sv_state :: sched_state
  sv_schedules :: "string \<rightharpoonup> schedule_slot list"

definition init_service :: "sm_config \<Rightarrow> catalog \<Rightarrow> schedule_service" where
  "init_service cfg cat =
     \<lparr>sv_cfg = cfg, sv_catalog = cat,
      sv_state = \<lparr>ss_sequence = Map.empty, ss_resolved = empty_resolved_store None False None\<rparr>,
      sv_schedules = Map.empty\<rparr>"

definition load_schedule ::
  "schedule_service \<Rightarrow> (string \<Rightarrow> schedule_file) \<Rightarrow> string \<Rightarrow> schedule_service \<times> bool \<times> string option" where
  "load_schedule sv files channel =
     (case files channel of
        MissingFile \<Rightarrow> (sv, False, Some ''Schedule file not found'')
      | MalformedFile \<Rightarrow> (sv, False, Some (''Failed to load schedule for '' @ channel))
      | SlotFile js \<Rightarrow>
        (case map_res parse_slot js of
           Inl _ \<Rightarrow> (sv, False, Some (''Failed to load schedule for '' @ channel))
         | Inr slots \<Rightarrow> (sv\<lparr>sv_schedules := (sv_schedules sv)(channel \<mapsto> slots)\<rparr>, True, None)))"

definition loaded_slots :: "schedule_service \<Rightarrow> string \<Rightarrow> schedule_slot list" where
  "loaded_slots sv channel = (case sv_schedules sv channel of None \<Rightarrow> [] | Some ss \<Rightarrow> ss)"

definition clock_key :: "schedule_slot \<Rightarrow> int" where
  "clock_key s = hour_of (slot_time s) * 60 + minute_of (slot_time s)"

definition get_schedule_slots :: "schedule_service \<Rightarrow> string \<Rightarrow> schedule_slot list" where
  "get_schedule_slots sv channel =
     (let slots = loaded_slots sv channel in if slots = [] then [] else sort_key clock_key slots)"

section \<open>Resolving days\<close>

text \<open>\<open>None\<close> when the resolution does not return (on a grid that is not positive).\<close>

definition prime_schedule_day ::
  "schedule_service \<Rightarrow> string \<Rightarrow> date \<Rightarrow> datetime \<Rightarrow> (schedule_service \<times> unit res) option" where
  "prime_schedule_day sv channel d resolution_time =
     (let slots = loaded_slots sv channel
      in if slots = [] then Some (sv, Inr ())
         else map_option (\<lambda>(st, r). (sv\<lparr>sv_state := st\<rparr>, map_sum id (\<lambda>_. ()) r))
                (resolve_schedule_day (sv_cfg sv) (sv_catalog sv) (sv_state sv) channel d slots resolution_time))"

definition day_resolved :: "schedule_service \<Rightarrow> string \<Rightarrow> date \<Rightarrow> bool" where
  "day_resolved sv channel d = day_exists (ss_resolved (sv_state sv)) channel d"

definition ensure_day_resolved :: "schedule_service \<Rightarrow> string \<Rightarrow> datetime \<Rightarrow> unit res" where
  "ensure_day_resolved sv channel at_dt =
     (if loaded_slots sv channel = [] then Inr ()
      else if day_resolved sv channel (programming_day_date (sv_cfg sv) at_dt) then Inr ()
      else Inl HorizonNoScheduleDataError)"

section \<open>What plays now\<close>

record playout_item =
  pi_asset_path :: "string option"
  pi_start_pts :: ms
  pi_duration :: rat
  pi_start_utc :: string
  pi_end_utc :: string
  pi_grid_minutes :: int

definition playout_item_of :: "schedule_service \<Rightarrow> datetime \<Rightarrow> playout_segment \<Rightarrow> playout_item" where
  "playout_item_of sv now s =
     (let total_seek = (if ps_start s < now then fl (ps_seek s + total_seconds (now - ps_start s)) else ps_seek s)
      in \<lparr>pi_asset_path = ps_path s, pi_start_pts = py_trunc (fl (total_seek * 1000)),
          pi_duration = segment_duration_seconds s, pi_start_utc = iso_datetime (ps_start s),
          pi_end_utc = iso_datetime (ps_end s), pi_grid_minutes = cfg_grid_minutes (sv_cfg sv)\<rparr>)"

text \<open>The loop over the segments stops at the first one that has not ended.\<close>

definition get_playout_plan_now :: "schedule_service \<Rightarrow> string \<Rightarrow> datetime \<Rightarrow> playout_item list res" where
  "get_playout_plan_now sv channel now =
     (if loaded_slots sv channel = [] then Inr []
      else if \<not> day_resolved sv channel (programming_day_date (sv_cfg sv) now)
      then Inl HorizonNoScheduleDataError
      else let block = get_program_at (sv_cfg sv) (ss_resolved (sv_state sv)) channel now
           in if pb_segments block = [] then Inr []
              else Inr (case find (\<lambda>s. now < ps_end s) (pb_segments block) of
                          None \<Rightarrow> [] | Some s \<Rightarrow> [playout_item_of sv now s]))"

definition scheduled_segment_of :: "playout_segment \<Rightarrow> scheduled_segment" where
  "scheduled_segment_of s =
     plain_segment (ps_type s) (case ps_path s of None \<Rightarrow> [] | Some p \<Rightarrow> p)
       (py_trunc (fl (ps_seek s * 1000))) (to_epoch_ms (ps_end s - ps_start s))"

definition get_block_at :: "schedule_service \<Rightarrow> string \<Rightarrow> ms \<Rightarrow> scheduled_block option res" where
  "get_block_at sv channel utc_ms =
     (let at_dt = from_epoch_ms utc_ms
      in bind_res (ensure_day_resolved sv channel at_dt) (\<lambda>_.
           let block = get_program_at (sv_cfg sv) (ss_resolved (sv_state sv)) channel at_dt
           in if pb_segments block = [] then Inr None
              else let start_utc_ms = to_epoch_ms (pb_start block); end_utc_ms = to_epoch_ms (pb_end block)
                   in Inr (Some \<lparr>sb_id = ''BLOCK-'' @ channel @ ''-'' @ int_str start_utc_ms,
                        sb_start = start_utc_ms, sb_end = end_utc_ms,
                        sb_segments = map scheduled_segment_of (pb_segments block)\<rparr>)))"

section \<open>The guide\<close>

record epg_json =
  ej_channel :: string
  ej_start :: string
  ej_end :: string
  ej_title :: string
  ej_episode_title :: "string option"
  ej_episode_id :: "string option"
  ej_date :: string
  ej_path :: string
  ej_asset_id :: "string option"
  ej_duration :: rat

definition epg_json_of :: "epg_event \<Rightarrow> epg_json" where
  "epg_json_of e =
     \<lparr>ej_channel = epg_channel e, ej_start = iso_datetime (epg_start e), ej_end = iso_datetime (epg_end e),
      ej_title = epg_title e, ej_episode_title = epg_episode_title e, ej_episode_id = epg_episode_id e,
      ej_date = iso_date (epg_date e), ej_path = ra_path (epg_asset e),
      ej_asset_id = ra_asset_id (epg_asset e), ej_duration = ra_duration (epg_asset e)\<rparr>"

definition service_epg_events ::
  "schedule_service \<Rightarrow> string \<Rightarrow> datetime \<Rightarrow> datetime \<Rightarrow> epg_json list res" where
  "service_epg_events sv channel start_time end_time =
     (if loaded_slots sv channel = [] then Inr []
      else bind_res (for_check (\<lambda>current.
               if day_resolved sv channel (programming_day_date (sv_cfg sv) current) then Inr ()
               else Inl HorizonNoScheduleDataError) (day_steps start_time end_time)) (\<lambda>_.
             map_sum id (map epg_json_of)
               (get_epg_events (sv_cfg sv) (ss_resolved (sv_state sv)) channel start_time end_time)))"

section \<open>Numerals read back\<close>

lemma is_digit_char [simp]: "d < 10 \<Longrightarrow> is_digit (digit_char d)"
  by (simp add: is_digit_def digit_char_def)

lemma digit_not_special: "is_digit c \<Longrightarrow> \<not> is_space c \<and> c \<noteq> CHR ''-'' \<and> c \<noteq> CHR ''+'' \<and> c \<noteq> CHR '':''"
  by (auto simp: is_digit_def is_space_def)

lemma parse_digits_all:
  "\<forall>c \<in> set s. is_digit c \<Longrightarrow> s \<noteq> [] \<or> p \<Longrightarrow>
    parse_digits p acc s = Some (foldl (\<lambda>v c. 10 * v + digit_value c) acc s)"
  by (induction s arbitrary: p acc) auto

lemma dropWhile_none: "\<forall>c \<in> set s. \<not> P c \<Longrightarrow> dropWhile P s = s"
  by (cases s) auto

lemma py_int_digits:
  assumes "\<forall>c \<in> set s. is_digit c" "s \<noteq> []"
  shows "py_int s = Some (int (numeral_value s))"
proof -
  have "\<forall>c \<in> set s. \<not> is_space c" "\<forall>c \<in> set (rev s). \<not> is_space c" using assms(1) digit_not_special by auto
  then have st: "strip s = s" unfolding strip_def by (simp add: dropWhile_none)
  obtain c cs where s: "s = c # cs" using assms(2) by (cases s) auto
  have "c \<noteq> CHR ''-''" "c \<noteq> CHR ''+''" using assms(1) s digit_not_special by auto
  moreover have "parse_digits False 0 (c # cs) = Some (numeral_value (c # cs))"
    unfolding numeral_value_def by (rule parse_digits_all) (use assms s in auto)
  ultimately show ?thesis unfolding py_int_def st unfolding s by simp
qed

lemma nat_str_digits: "c \<in> set (nat_str n) \<Longrightarrow> is_digit c"
proof (induction n rule: nat_str.induct)
  case (1 n)
  then show ?case by (subst (asm) (2) nat_str.simps) (auto split: if_splits)
qed

lemma nat_str_not_empty [simp]: "nat_str n \<noteq> []"
  by (subst nat_str.simps) simp

lemma zero_pad_digits: "c \<in> set (zero_pad w n) \<Longrightarrow> is_digit c"
  by (auto simp: zero_pad_def Let_def is_digit_def dest: nat_str_digits)

lemma zero_pad_not_empty [simp]: "zero_pad w n \<noteq> []"
  by (simp add: zero_pad_def Let_def)

lemma py_int_zero_pad [simp]: "py_int_res (zero_pad w n) = Inr (int n)"
  using py_int_digits [of "zero_pad w n"] zero_pad_digits by (auto simp: py_int_res_def)

lemma split_on_absent: "c \<notin> set s \<Longrightarrow> split_on c s = [s]"
  by (induction s) auto

lemma split_on_append: "c \<notin> set s \<Longrightarrow> split_on c (s @ c # t) = s # split_on c t"
  by (induction s) auto

lemma parse_clock_printed: "parse_clock (zero_pad 2 h @ '':'' @ zero_pad 2 m) = Inr (int h, int m)"
proof -
  have "CHR '':'' \<notin> set (zero_pad 2 h)" "CHR '':'' \<notin> set (zero_pad 2 m)"
    using zero_pad_digits digit_not_special by blast+
  then have "split_on (CHR '':'') (zero_pad 2 h @ CHR '':'' # zero_pad 2 m) = [zero_pad 2 h, zero_pad 2 m]"
    by (simp add: split_on_append split_on_absent)
  then show ?thesis by (simp add: parse_clock_def Let_def)
qed

section \<open>Slots as they are written\<close>

definition ref_type_text :: "program_ref_type \<Rightarrow> string" where
  "ref_type_text t = (case t of PROGRAM \<Rightarrow> ''program'' | ASSET \<Rightarrow> ''asset'' | FILE \<Rightarrow> ''file'')"

text \<open>The object a schedule file holds for a slot.\<close>

definition slot_to_json :: "schedule_slot \<Rightarrow> slot_json" where
  "slot_to_json s =
     \<lparr>sj_slot_time = Some (zero_pad 2 (nat (hour_of (slot_time s))) @ '':'' @ zero_pad 2 (nat (minute_of (slot_time s)))),
      sj_ref_type = Some (ref_type_text (ref_type (slot_ref s))), sj_ref_id = Some (ref_id (slot_ref s)),
      sj_duration = Some (slot_duration s), sj_label = Some (slot_label s)\<rparr>"

lemma clock_decompose:
  assumes "valid_time t" and "60000000 dvd t"
  shows "t = hour_of t * us_per_hour + minute_of t * 60000000 \<and> 0 \<le> hour_of t \<and> hour_of t \<le> 23
    \<and> 0 \<le> minute_of t \<and> minute_of t \<le> 59"
proof -
  obtain k where k: "t = 60000000 * k" using assms(2) by blast
  then have r: "0 \<le> k" "k < 1440" using assms(1) by (simp_all add: valid_time_def us_defs)
  have "hour_of t = k div 60" "minute_of t = k mod 60"
    using k by (simp_all add: hour_of_def minute_of_def us_per_hour_def)
  moreover have "60000000 * k = k div 60 * us_per_hour + k mod 60 * 60000000"
    unfolding us_per_hour_def by arith
  moreover have "0 \<le> k div 60" "k div 60 \<le> 23" "0 \<le> k mod 60" "k mod 60 \<le> 59" using r by simp_all
  ultimately show ?thesis using k by simp
qed

lemma parse_printed_slot:
  assumes "valid_time (slot_time s)" and "60000000 dvd slot_time s"
  shows "parse_slot (slot_to_json s) = Inr s"
proof -
  note c = clock_decompose [OF assms]
  have "make_time (hour_of (slot_time s)) (minute_of (slot_time s)) = Inr (slot_time s)"
    using c by (simp add: make_time_def)
  moreover have "(if ref_type_text x = ''program'' then PROGRAM
      else if ref_type_text x = ''asset'' then ASSET else FILE) = x" for x
    by (cases x) (simp_all add: ref_type_text_def)
  ultimately show ?thesis using c
    by (simp add: parse_slot_def slot_to_json_def parse_clock_printed [simplified] Let_def)
qed

lemma map_res_printed:
  "\<forall>s \<in> set ss. valid_time (slot_time s) \<and> 60000000 dvd slot_time s \<Longrightarrow>
    map_res parse_slot (map slot_to_json ss) = Inr ss"
  by (induction ss) (simp_all add: parse_printed_slot)

lemma parsed_slot_time:
  assumes "parse_slot j = Inr s"
  shows "valid_time (slot_time s) \<and> 60000000 dvd slot_time s"
proof -
  obtain h m where "make_time h m = Inr (slot_time s)"
    using assms unfolding parse_slot_def
    by (auto simp: bind_res_Inr_iff Let_def split: option.splits prod.splits)
  then have r: "0 \<le> h" "h \<le> 23" "0 \<le> m" "m \<le> 59" "slot_time s = h * us_per_hour + m * 60000000"
    by (auto simp: make_time_def split: if_splits)
  then have "slot_time s = 60000000 * (h * 60 + m)" by (simp add: us_per_hour_def)
  then have "60000000 dvd slot_time s" by (rule dvdI)
  then show ?thesis using r by (simp add: valid_time_def us_defs)
qed

section \<open>What plays now\<close>

lemma find_first: "find P xs = Some x \<Longrightarrow> \<exists>i < length xs. xs ! i = x \<and> P x \<and> (\<forall>j < i. \<not> P (xs ! j))"
proof (induction xs)
  case (Cons y ys)
  show ?case
  proof (cases "P y")
    case False
    with Cons obtain i where "i < length ys \<and> ys ! i = x \<and> P x \<and> (\<forall>j < i. \<not> P (ys ! j))" by auto
    then show ?thesis using False by (intro exI [of _ "Suc i"]) (auto simp: less_Suc_eq_0_disj)
  qed (use Cons.prems in auto)
qed simp

text \<open>In a chain of segments that has begun, the first one that has not ended is on air.\<close>

lemma first_open_segment:
  assumes "chained (map seg_span ss)" "ss \<noteq> []" "ps_start (hd ss) \<le> t" "t < ps_end (last ss)"
  shows "\<exists>s. find (\<lambda>s. t < ps_end s) ss = Some s \<and> s \<in> set ss \<and> ps_start s \<le> t \<and> t < ps_end s"
proof -
  have "find (\<lambda>s. t < ps_end s) ss \<noteq> None"
    unfolding find_None_set using last_in_set [OF assms(2)] assms(4) by (intro notI) (drule (1) bspec, simp)
  then obtain s where s: "find (\<lambda>s. t < ps_end s) ss = Some s" by (auto simp del: find_None_iff find_None_iff2)
  from find_first [OF s] obtain i where i: "i < length ss" "ss ! i = s" "t < ps_end s"
    "\<forall>j < i. \<not> t < ps_end (ss ! j)" by (elim exE conjE)
  have "ps_start s \<le> t"
  proof (cases i)
    case 0
    then show ?thesis using i(2) assms(2,3) by (simp add: hd_conv_nth)
  next
    case (Suc j)
    then have "snd (map seg_span ss ! j) = fst (map seg_span ss ! Suc j)"
      using assms(1) i(1) unfolding chained_nth by simp
    then have "ps_end (ss ! j) = ps_start s" using i(1,2) Suc by (simp add: seg_span_def)
    moreover have "\<not> t < ps_end (ss ! j)" using i(4) Suc by simp
    ultimately show ?thesis by simp
  qed
  moreover have "s \<in> set ss" using i(1,2) nth_mem by blast
  ultimately show ?thesis using s i(3) by (intro exI [of _ s] conjI)
qed

lemma program_block_on_air:
  assumes "0 \<le> cfg_start_hour cfg" "cfg_start_hour cfg < 24" "0 < cfg_grid_minutes cfg"
  shows "\<exists>s. find (\<lambda>s. t < ps_end s) (pb_segments (get_program_at cfg rst c t)) = Some s
    \<and> s \<in> set (pb_segments (get_program_at cfg rst c t)) \<and> ps_start s \<le> t \<and> t < ps_end s"
proof (rule first_open_segment)
  let ?a = "floor_to_grid_boundary cfg t"
  note c = build_segments_chain [of cfg rst c ?a "?a + cfg_grid_minutes cfg * 60000000"]
  note f = floor_to_grid_bounds [OF assms, of t]
  show "chained (map seg_span (pb_segments (get_program_at cfg rst c t)))"
    "pb_segments (get_program_at cfg rst c t) \<noteq> []"
    "ps_start (hd (pb_segments (get_program_at cfg rst c t))) \<le> t"
    "t < ps_end (last (pb_segments (get_program_at cfg rst c t)))"
    using c f by (simp_all add: get_program_at_def grid_block_def Let_def)
qed

section \<open>Whole milliseconds of a span\<close>

text \<open>Truncating a span of at most a day to milliseconds never adds time.\<close>

lemma span_ms_le:
  assumes "0 \<le> us" "us \<le> us_per_day"
  shows "0 \<le> to_epoch_ms us" and "to_epoch_ms us \<le> us div 1000"
proof -
  define q :: rat where "q = of_int us / 1000000"
  have "(of_int us :: rat) \<le> of_int us_per_day" using assms(2) by (simp only: of_int_le_iff)
  then have q: "0 \<le> q" "q \<le> 86400" using assms(1) by (simp_all add: q_def us_defs)
  have x: "0 \<le> fl q" "fl q \<le> q + q / 2 ^ 53" using fl_nonneg [OF q(1)] fl_le_rel [OF q(1)] by simp_all
  define y where "y = fl (fl q * 1000)"
  have y: "0 \<le> y" "y \<le> fl q * 1000 + fl q * 1000 / 2 ^ 53"
    using fl_nonneg [of "fl q * 1000"] fl_le_rel [of "fl q * 1000"] x(1) by (simp_all add: y_def)
  have t: "to_epoch_ms us = \<lfloor>y\<rfloor>"
    using y(1) by (simp add: to_epoch_ms_def total_seconds_def q_def [symmetric] y_def [symmetric] py_trunc_def)
  show "0 \<le> to_epoch_ms us" using y(1) by (simp add: t)
  have "us = us div 1000 * 1000 + us mod 1000" "us mod 1000 \<le> 999" by simp_all
  then have "us \<le> us div 1000 * 1000 + 999" by linarith
  then have "(of_int us :: rat) \<le> of_int (us div 1000 * 1000 + 999)" by (simp only: of_int_le_iff)
  then have "q * 1000 \<le> of_int (us div 1000) + 999 / 1000" by (simp add: q_def)
  moreover have "fl q * 1000 \<le> q * 1000 + 1 / 10000" using x(2) q by simp
  moreover have "fl q * 1000 / 2 ^ 53 \<le> 1 / 10000" using x(2) q by simp
  ultimately have "y < of_int (us div 1000) + 1" using y(2) by linarith
  then show "to_epoch_ms us \<le> us div 1000" unfolding t by linarith
qed

lemma total_spans_le:
  assumes "chained (map seg_span ss)" "ss \<noteq> []" "\<forall>s \<in> set ss. ps_start s \<le> ps_end s"
    and "ps_end (last ss) - ps_start (hd ss) \<le> us_per_day"
    and f: "\<And>s. s \<in> set ss \<Longrightarrow> ps_end s - ps_start s \<le> us_per_day \<Longrightarrow> f s * 1000 \<le> ps_end s - ps_start s"
  shows "ps_start (hd ss) \<le> ps_end (last ss)
    \<and> sum_list (map f ss) * 1000 \<le> ps_end (last ss) - ps_start (hd ss)"
  using assms
proof (induction ss)
  case (Cons s ss)
  show ?case
  proof (cases "ss = []")
    case False
    have join: "ps_end s = ps_start (hd ss)"
      using Cons.prems(1) False by (cases ss) (simp_all add: seg_span_def)
    have c: "chained (map seg_span ss)" using Cons.prems(1) by (auto simp: chained_Cons)
    have s: "ps_start s \<le> ps_end s" using Cons.prems(3) by simp
    have "ps_end (last ss) - ps_start (hd ss) \<le> us_per_day"
      using Cons.prems(4) False join s by simp
    then have IH: "ps_start (hd ss) \<le> ps_end (last ss)
        \<and> sum_list (map f ss) * 1000 \<le> ps_end (last ss) - ps_start (hd ss)"
      using Cons.prems False c by (intro Cons.IH) auto
    have "f s * 1000 \<le> ps_end s - ps_start s"
      using Cons.prems(4) IH join False by (intro Cons.prems(5)) auto
    then show ?thesis using IH join False s by (simp add: distrib_right)
  qed (use Cons.prems in simp)
qed simp

lemma sum_scheduled_durations:
  "total_duration (map scheduled_segment_of ss) = sum_list (map (\<lambda>s. to_epoch_ms (ps_end s - ps_start s)) ss)"
  by (induction ss) (simp_all add: scheduled_segment_of_def)

lemma grid_start_whole:
  assumes "0 \<le> cfg_start_hour cfg" "cfg_start_hour cfg < 24" "0 < cfg_grid_minutes cfg"
  shows "1000000 dvd floor_to_grid_boundary cfg t"
proof -
  have "1000000 dvd programming_day_start cfg t"
    by (simp add: programming_day_start_def Let_def combine_def us_defs)
  moreover have "1000000 dvd cfg_grid_minutes cfg * 60000000" by simp
  ultimately show ?thesis unfolding floor_to_grid_exact [OF assms] by (meson dvd_add dvd_mult)
qed

definition demo_file_slot :: schedule_slot where
  "demo_file_slot = \<lparr>slot_time = 6 * us_per_hour, slot_ref = \<lparr>ref_type = FILE, ref_id = ''film.mp4''\<rparr>,
     slot_duration = 1800, slot_label = []\<rparr>"

definition demo_service :: schedule_service where
  "demo_service = (init_service demo_cfg demo_catalog)
     \<lparr>sv_schedules := [''ch'' \<mapsto> [demo_file_slot]],
      sv_state := \<lparr>ss_sequence = Map.empty,
        ss_resolved = put_day (empty_resolved_store None False None) ''ch'' demo_day\<rparr>\<rparr>"

lemma prime_schedule_day_keeps:
  "prime_schedule_day sv c d t = Some (sv', r) \<Longrightarrow>
    sv_cfg sv' = sv_cfg sv \<and> sv_schedules sv' = sv_schedules sv \<and> sv_catalog sv' = sv_catalog sv"
  by (auto simp: prime_schedule_day_def Let_def split: if_splits)

section \<open>Properties\<close>

text \<open>
  Loading a schedule is all or nothing: a file that is missing, malformed, lacks a time or
  names one that is no clock time leaves the service as it was and is reported; otherwise exactly
  the slots of that channel are replaced, and every one of them starts on a minute of the day.
\<close>

theorem load_schedule_atomic:
  "case load_schedule sv files c of
     (sv', False, msg) \<Rightarrow> sv' = sv \<and> msg \<noteq> None
       \<and> (\<forall>js. files c = SlotFile js \<longrightarrow> (\<exists>e. map_res parse_slot js = Inl e))
   | (sv', True, msg) \<Rightarrow> msg = None \<and> sv_state sv' = sv_state sv
       \<and> (\<forall>c'. c' \<noteq> c \<longrightarrow> loaded_slots sv' c' = loaded_slots sv c')
       \<and> (\<exists>js. files c = SlotFile js \<and> map_res parse_slot js = Inr (loaded_slots sv' c))
       \<and> (\<forall>s \<in> set (loaded_slots sv' c). valid_time (slot_time s) \<and> 60000000 dvd slot_time s)"
proof (cases "files c")
  case (SlotFile js)
  show ?thesis
  proof (cases "map_res parse_slot js")
    case (Inr slots)
    have "valid_time (slot_time s) \<and> 60000000 dvd slot_time s" if "s \<in> set slots" for s
    proof -
      obtain i where "i < length slots" "slots ! i = s" using \<open>s \<in> set slots\<close> by (auto simp: in_set_conv_nth)
      then have "parse_slot (js ! i) = Inr s" using list_all2_nthD2 [OF map_res_InrD [OF Inr], of i] by simp
      then show ?thesis by (rule parsed_slot_time)
    qed
    with SlotFile Inr show ?thesis by (simp add: load_schedule_def loaded_slots_def)
  qed (simp add: load_schedule_def SlotFile)
qed (simp_all add: load_schedule_def)

theorem load_schedule_atomic_witness:
  "fst (load_schedule (init_service demo_cfg demo_catalog)
     (\<lambda>_. SlotFile [slot_to_json (demo_sched_slot 0 ''film''), (slot_to_json (demo_sched_slot 0 ''film''))
        \<lparr>sj_slot_time := Some ''24:00''\<rparr>]) ''ch'') = init_service demo_cfg demo_catalog"
proof -
  let ?r = "load_schedule (init_service demo_cfg demo_catalog)
     (\<lambda>_. SlotFile [slot_to_json (demo_sched_slot 0 ''film''), (slot_to_json (demo_sched_slot 0 ''film''))
        \<lparr>sj_slot_time := Some ''24:00''\<rparr>]) ''ch''"
  have "fst (snd ?r) = False" by code_simp
  then show ?thesis
    using load_schedule_atomic [where sv = "init_service demo_cfg demo_catalog" and c = "''ch''"
        and files = "\<lambda>_. SlotFile [slot_to_json (demo_sched_slot 0 ''film''),
          (slot_to_json (demo_sched_slot 0 ''film''))\<lparr>sj_slot_time := Some ''24:00''\<rparr>]"]
    by (auto split: prod.splits bool.splits)
qed

text \<open>
  Loading reads back what a schedule file says: a file holding the written form of slots that
  start on whole minutes loads, and the service then holds exactly those slots.
\<close>

theorem load_schedule_round_trip:
  assumes "\<forall>s \<in> set ss. valid_time (slot_time s) \<and> 60000000 dvd slot_time s"
    and "files c = SlotFile (map slot_to_json ss)"
  shows "load_schedule sv files c = (sv\<lparr>sv_schedules := (sv_schedules sv)(c \<mapsto> ss)\<rparr>, True, None)"
  using map_res_printed [OF assms(1)] assms(2) by (simp add: load_schedule_def)

theorem load_schedule_round_trip_witness:
  "load_schedule (init_service demo_cfg demo_catalog) (\<lambda>_. SlotFile (map slot_to_json demo_sched_slots)) ''ch''
     = ((init_service demo_cfg demo_catalog)\<lparr>sv_schedules := [''ch'' \<mapsto> demo_sched_slots]\<rparr>, True, None)"
  using load_schedule_round_trip [of demo_sched_slots "\<lambda>_. SlotFile (map slot_to_json demo_sched_slots)" "''ch''"
      "init_service demo_cfg demo_catalog"]
  by (simp add: demo_sched_slots_def demo_sched_slot_def valid_time_def us_defs init_service_def)

text \<open>
  Asking what plays now never resolves anything: for a channel with slots it raises exactly
  when the programming day of the instant has not been resolved, and otherwise returns exactly one
  item, made of a segment that is on air at that instant.
\<close>

theorem playout_plan_on_air:
  assumes "0 \<le> cfg_start_hour (sv_cfg sv)" "cfg_start_hour (sv_cfg sv) < 24" "0 < cfg_grid_minutes (sv_cfg sv)"
    and "loaded_slots sv c \<noteq> []"
  shows "if day_resolved sv c (programming_day_date (sv_cfg sv) now)
    then (\<exists>s \<in> set (pb_segments (get_program_at (sv_cfg sv) (ss_resolved (sv_state sv)) c now)).
      ps_start s \<le> now \<and> now < ps_end s \<and> get_playout_plan_now sv c now = Inr [playout_item_of sv now s])
    else get_playout_plan_now sv c now = Inl HorizonNoScheduleDataError"
proof -
  let ?b = "get_program_at (sv_cfg sv) (ss_resolved (sv_state sv)) c now"
  obtain s where s: "find (\<lambda>s. now < ps_end s) (pb_segments ?b) = Some s" "s \<in> set (pb_segments ?b)"
    "ps_start s \<le> now" "now < ps_end s"
    using program_block_on_air [OF assms(1-3), of now "ss_resolved (sv_state sv)" c] by (elim exE conjE)
  then have "pb_segments ?b \<noteq> []" by auto
  then have "get_playout_plan_now sv c now =
    (if day_resolved sv c (programming_day_date (sv_cfg sv) now) then Inr [playout_item_of sv now s]
     else Inl HorizonNoScheduleDataError)"
    using assms(4) s(1) unfolding get_playout_plan_now_def Let_def by simp
  then show ?thesis using s(2-4) by auto
qed


theorem playout_plan_on_air_witness:
  "\<exists>s. get_playout_plan_now demo_service ''ch'' (combine 20000 (6 * us_per_hour + 600000000)) =
      Inr [playout_item_of demo_service (combine 20000 (6 * us_per_hour + 600000000)) s]
    \<and> ps_start s \<le> combine 20000 (6 * us_per_hour + 600000000)"
proof -
  have "0 \<le> cfg_start_hour (sv_cfg demo_service)" "cfg_start_hour (sv_cfg demo_service) < 24"
    "0 < cfg_grid_minutes (sv_cfg demo_service)" "loaded_slots demo_service ''ch'' \<noteq> []"
    "day_resolved demo_service ''ch'' (programming_day_date (sv_cfg demo_service)
       (combine 20000 (6 * us_per_hour + 600000000)))"
    by code_simp+
  with playout_plan_on_air [OF this(1-4), of "combine 20000 (6 * us_per_hour + 600000000)"] show ?thesis by auto
qed

text \<open>The block of an instant is the grid cell that holds it.\<close>

lemma block_at_cell:
  assumes "0 \<le> cfg_start_hour (sv_cfg sv)" "cfg_start_hour (sv_cfg sv) < 24"
    and "0 < cfg_grid_minutes (sv_cfg sv)" "cfg_grid_minutes (sv_cfg sv) \<le> 1440"
    and "2 ^ 40 < t" "t < 1000 * (2 ^ 31 - 1)" and "get_block_at sv c t = Inr ob"
  shows "\<exists>q b. ob = Some b \<and> floor_to_grid_boundary (sv_cfg sv) (t * 1000) = q * 1000000
    \<and> sb_start b = q * 1000 \<and> sb_end b = q * 1000 + cfg_grid_minutes (sv_cfg sv) * 60000
    \<and> sb_segments b = map scheduled_segment_of (build_segments (sv_cfg sv) (ss_resolved (sv_state sv)) c (q * 1000000)
        (q * 1000000 + cfg_grid_minutes (sv_cfg sv) * 60000000))"
proof -
  let ?cfg = "sv_cfg sv" and ?rst = "ss_resolved (sv_state sv)"
  define G where "G = cfg_grid_minutes ?cfg * 60000000"
  define a where "a = floor_to_grid_boundary ?cfg (t * 1000)"
  define ss where "ss = build_segments ?cfg ?rst c a (a + G)"
  have blk: "get_program_at ?cfg ?rst c (t * 1000) =
      \<lparr>pb_start = a, pb_end = a + G, pb_segments = ss, pb_fps = 30, pb_padding_frames = 0\<rparr>"
    by (simp add: get_program_at_def grid_block_def Let_def a_def G_def ss_def)
  have at: "a \<le> t * 1000" "t * 1000 < a + G"
    using floor_to_grid_bounds [OF assms(1-3), of "t * 1000"] by (simp_all add: a_def G_def)
  obtain q where q: "a = q * 1000000" using grid_start_whole [OF assms(1-3), of "t * 1000"]
    unfolding a_def by (metis dvdE mult.commute)
  have G: "0 < G" "G \<le> us_per_day" using assms(3,4) by (simp_all add: G_def us_per_day_def)
  have qb: "\<bar>q\<bar> \<le> 2 ^ 43" using at q G assms(5,6) by (simp add: us_per_day_def abs_le_iff)
  have s: "to_epoch_ms a = q * 1000" unfolding q by (rule to_epoch_ms_whole [OF qb])
  let ?q' = "q + cfg_grid_minutes ?cfg * 60"
  have "\<bar>?q'\<bar> \<le> 2 ^ 43" using at q G assms(5,6) by (simp add: us_per_day_def G_def abs_le_iff)
  from to_epoch_ms_whole [OF this] have e: "to_epoch_ms (a + G) = q * 1000 + cfg_grid_minutes ?cfg * 60000"
    by (simp add: q G_def distrib_right mult.commute)
  note c = build_segments_chain [of ?cfg ?rst c a "a + G", folded ss_def]
  have "ob = Some \<lparr>sb_id = ''BLOCK-'' @ c @ ''-'' @ int_str (to_epoch_ms a), sb_start = to_epoch_ms a,
      sb_end = to_epoch_ms (a + G), sb_segments = map scheduled_segment_of ss\<rparr>"
    using assms(7) c from_epoch_ms_present [OF assms(5,6)]
    by (auto simp: get_block_at_def Let_def blk bind_res_Inr_iff)
  then show ?thesis using s e
    by (intro exI [of _ q]) (simp add: q a_def [symmetric] ss_def G_def [symmetric])
qed

text \<open>When the grid divides the day, the end of a cell is the start of the next, across days too.\<close>

lemma floor_next_cell:
  assumes "0 \<le> cfg_start_hour cfg" "cfg_start_hour cfg < 24" "0 < cfg_grid_minutes cfg" "cfg_grid_minutes cfg dvd 1440"
  defines "G \<equiv> cfg_grid_minutes cfg * 60000000"
  shows "floor_to_grid_boundary cfg (floor_to_grid_boundary cfg t + G) = floor_to_grid_boundary cfg t + G"
proof -
  define x where "x = floor_to_grid_boundary cfg t + G"
  have "G dvd 1440 * 60000000" unfolding G_def using assms(4) by (rule mult_dvd_mono) simp
  then have day: "G dvd us_per_day" by (simp add: us_per_day_def)
  have same: "us_per_day dvd programming_day_start cfg u - cfg_start_hour cfg * us_per_hour" for u
    by (auto simp: programming_day_start_def Let_def combine_def)
  have "us_per_day dvd programming_day_start cfg t - programming_day_start cfg x"
    using dvd_diff [OF same [of t] same [of x]] by simp
  then have "G dvd programming_day_start cfg t - programming_day_start cfg x" using day dvd_trans by blast
  moreover have "G dvd x - programming_day_start cfg t"
    unfolding x_def floor_to_grid_exact [OF assms(1-3)] G_def [symmetric] by simp
  ultimately have "G dvd x - programming_day_start cfg x" by (metis dvd_add diff_add_cancel add_diff_eq)
  then show ?thesis unfolding x_def [symmetric] floor_to_grid_exact [OF assms(1-3), of x] G_def [symmetric]
    by (simp add: dvd_div_mult_self)
qed

text \<open>
  The block returned for an instant of the present holds it, starts and ends on whole
  milliseconds exactly one grid step apart, and its segments, when none runs backwards, never
  fill more time than the block has.
\<close>

theorem block_at_covers:
  assumes "0 \<le> cfg_start_hour (sv_cfg sv)" "cfg_start_hour (sv_cfg sv) < 24"
    and "0 < cfg_grid_minutes (sv_cfg sv)" "cfg_grid_minutes (sv_cfg sv) \<le> 1440"
    and "2 ^ 40 < t" "t < 1000 * (2 ^ 31 - 1)" and "get_block_at sv c t = Inr ob"
  shows "\<exists>b. ob = Some b \<and> sb_start b \<le> t \<and> t < sb_end b
    \<and> sb_end b - sb_start b = cfg_grid_minutes (sv_cfg sv) * 60000 \<and> sb_segments b \<noteq> []
    \<and> ((\<forall>s \<in> set (pb_segments (get_program_at (sv_cfg sv) (ss_resolved (sv_state sv)) c (t * 1000))).
          ps_start s \<le> ps_end s) \<longrightarrow> total_duration (sb_segments b) \<le> sb_end b - sb_start b)"
proof -
  let ?cfg = "sv_cfg sv" and ?rst = "ss_resolved (sv_state sv)"
  define G where "G = cfg_grid_minutes ?cfg * 60000000"
  define a where "a = floor_to_grid_boundary ?cfg (t * 1000)"
  define ss where "ss = build_segments ?cfg ?rst c a (a + G)"
  have blk: "pb_segments (get_program_at ?cfg ?rst c (t * 1000)) = ss"
    by (simp add: get_program_at_def grid_block_def Let_def a_def G_def ss_def)
  have at: "a \<le> t * 1000" "t * 1000 < a + G"
    using floor_to_grid_bounds [OF assms(1-3), of "t * 1000"] by (simp_all add: a_def G_def)
  have G: "0 < G" "G \<le> us_per_day" using assms(3,4) by (simp_all add: G_def us_per_day_def)
  note c = build_segments_chain [of ?cfg ?rst c a "a + G", folded ss_def]
  obtain q b where ob: "ob = Some b" "a = q * 1000000" "sb_start b = q * 1000"
    "sb_end b = q * 1000 + cfg_grid_minutes ?cfg * 60000" "sb_segments b = map scheduled_segment_of ss"
    using block_at_cell [OF assms] by (auto simp: a_def ss_def G_def)
  have "sum_list (map (\<lambda>s. to_epoch_ms (ps_end s - ps_start s)) ss) * 1000 \<le> G"
    if mono: "\<forall>s \<in> set ss. ps_start s \<le> ps_end s"
  proof -
    have f: "to_epoch_ms (ps_end s - ps_start s) * 1000 \<le> ps_end s - ps_start s"
      if "s \<in> set ss" "ps_end s - ps_start s \<le> us_per_day" for s
    proof -
      define u where "u = ps_end s - ps_start s"
      have u: "to_epoch_ms u \<le> u div 1000" using span_ms_le(2) [of u] mono that by (simp add: u_def)
      have "u div 1000 * 1000 \<le> u" by simp
      with u show ?thesis unfolding u_def [symmetric] by linarith
    qed
    have "ps_end (last ss) - ps_start (hd ss) \<le> us_per_day" using c G by simp
    with c mono have "sum_list (map (\<lambda>s. to_epoch_ms (ps_end s - ps_start s)) ss) * 1000
        \<le> ps_end (last ss) - ps_start (hd ss)"
      by (intro conjunct2 [OF total_spans_le]) (auto intro: f)
    then show ?thesis using c by simp
  qed
  then have tot: "total_duration (map scheduled_segment_of ss) \<le> cfg_grid_minutes ?cfg * 60000"
    if "\<forall>s \<in> set ss. ps_start s \<le> ps_end s"
    using that by (simp add: sum_scheduled_durations G_def)
  have "q * 1000 \<le> t" "t < q * 1000 + cfg_grid_minutes ?cfg * 60000"
    using at by (simp_all add: ob(2) G_def)
  then show ?thesis using ob c tot by (simp add: blk)
qed

lemma demo_service_facts:
  "0 \<le> cfg_start_hour (sv_cfg demo_service)" "cfg_start_hour (sv_cfg demo_service) < 24"
  "cfg_grid_minutes (sv_cfg demo_service) = 30" "loaded_slots demo_service ''ch'' \<noteq> []"
  "day_resolved demo_service ''ch'' (programming_day_date (sv_cfg demo_service) 1728022200000000)"
  by code_simp+

theorem block_at_covers_witness:
  "\<exists>b. get_block_at demo_service ''ch'' 1728022200000 = Inr (Some b) \<and> sb_start b \<le> 1728022200000
    \<and> 1728022200000 < sb_end b \<and> sb_end b - sb_start b = 1800000"
proof -
  note f = demo_service_facts
  have at: "from_epoch_ms 1728022200000 = 1728022200000000"
    using from_epoch_ms_present [of 1728022200000] by simp
  have "ensure_day_resolved demo_service ''ch'' 1728022200000000 = Inr ()"
    using f(4,5) by (simp add: ensure_day_resolved_def)
  then have "\<exists>ob. get_block_at demo_service ''ch'' 1728022200000 = Inr ob"
    by (simp add: get_block_at_def at Let_def)
  then obtain ob where ob: "get_block_at demo_service ''ch'' 1728022200000 = Inr ob" by (elim exE)
  have "\<exists>b. ob = Some b \<and> sb_start b \<le> 1728022200000 \<and> 1728022200000 < sb_end b
    \<and> sb_end b - sb_start b = cfg_grid_minutes (sv_cfg demo_service) * 60000"
    using block_at_covers [OF f(1,2) _ _ _ _ ob] by (simp add: f(3)) blast
  then show ?thesis using ob f(3) by (elim exE conjE) simp
qed

end
