(* ===== verification/Program_Catalog.thy ===== *)
theory Program_Catalog
  imports Schedule_Service
begin

text \<open>
  The program catalogue of the schedule service, \<^verbatim>\<open>JsonFileProgramCatalog\<close> of
  \<^verbatim>\<open>runtime/schedule_manager_service.py\<close>: programs come from one file each and are kept once read.
  A file is what \<open>json.load\<close> makes of it: missing, malformed, or an object whose keys may be absent.
  The schedule manager takes a catalogue that is a function of the identifier; the refinement below
  says that the cache over an unchanging directory is one.
\<close>

record episode_json =
  ej_id :: "string option"
  ej_ep_title :: "string option"
  ej_file_path :: "string option"
  ej_seconds :: "rat option"

record program_json =
  pj_id :: "string option"
  pj_name :: "string option"
  pj_play_mode :: "string option"
  pj_episodes :: "episode_json list option"

datatype program_file = NoProgram | BadProgram | ProgramFile program_json

section \<open>Reading a file\<close>

definition key_of :: "'a option \<Rightarrow> 'a res" where
  "key_of x = (case x of None \<Rightarrow> Inl KeyError | Some v \<Rightarrow> Inr v)"

definition parse_episode :: "episode_json \<Rightarrow> episode res" where
  "parse_episode ep =
     bind_res (key_of (ej_id ep)) (\<lambda>i. bind_res (key_of (ej_ep_title ep)) (\<lambda>t.
     bind_res (key_of (ej_file_path ep)) (\<lambda>f. bind_res (key_of (ej_seconds ep)) (\<lambda>d.
     Inr \<lparr>ep_id = i, ep_title = t, ep_path = f, ep_duration = d\<rparr>))))"

definition parse_program :: "program_json \<Rightarrow> program res" where
  "parse_program j =
     bind_res (map_res parse_episode (case pj_episodes j of None \<Rightarrow> [] | Some es \<Rightarrow> es)) (\<lambda>episodes.
     bind_res (key_of (pj_id j)) (\<lambda>i. bind_res (key_of (pj_name j)) (\<lambda>n.
     Inr \<lparr>prog_id = i, prog_name = n,
          prog_play_mode = (case pj_play_mode j of None \<Rightarrow> ''sequential'' | Some m \<Rightarrow> m),
          prog_episodes = episodes\<rparr>)))"

definition load_program :: "(string \<Rightarrow> program_file) \<Rightarrow> string \<Rightarrow> program option" where
  "load_program files i =
     (case files i of
        NoProgram \<Rightarrow> None
      | BadProgram \<Rightarrow> None
      | ProgramFile j \<Rightarrow> (case parse_program j of Inl _ \<Rightarrow> None | Inr p \<Rightarrow> Some p))"

section \<open>The cache\<close>

type_synonym program_cache = "string \<rightharpoonup> program"

definition get_program :: "(string \<Rightarrow> program_file) \<Rightarrow> program_cache \<Rightarrow> string \<Rightarrow> program_cache \<times> program option" where
  "get_program files cache i =
     (case cache i of
        Some p \<Rightarrow> (cache, Some p)
      | None \<Rightarrow>
        (case load_program files i of
           None \<Rightarrow> (cache, None)
         | Some p \<Rightarrow> (cache(i \<mapsto> p), Some p)))"

text \<open>\<open>load_all\<close>, over the stems of the files of the directory in the order of the glob.\<close>

fun load_all :: "(string \<Rightarrow> program_file) \<Rightarrow> string list \<Rightarrow> program_cache \<Rightarrow> program_cache" where
  "load_all files [] cache = cache"
| "load_all files (i # is) cache = load_all files is (fst (get_program files cache i))"

text \<open>Every cached program is what the directory holds for it.\<close>

definition cache_true :: "(string \<Rightarrow> program_file) \<Rightarrow> program_cache \<Rightarrow> bool" where
  "cache_true files cache \<longleftrightarrow> (\<forall>i p. cache i = Some p \<longrightarrow> load_program files i = Some p)"

lemma cache_true_empty: "cache_true files Map.empty"
  by (simp add: cache_true_def)

lemma get_program_result:
  "cache_true files cache \<Longrightarrow> snd (get_program files cache i) = load_program files i
    \<and> cache_true files (fst (get_program files cache i))
    \<and> cache \<subseteq>\<^sub>m fst (get_program files cache i)
    \<and> (load_program files i \<noteq> None \<longrightarrow> fst (get_program files cache i) i \<noteq> None)"
  by (auto simp: get_program_def cache_true_def map_le_def split: option.splits)

lemma load_all_result:
  "cache_true files cache \<Longrightarrow> cache_true files (load_all files is cache) \<and> cache \<subseteq>\<^sub>m load_all files is cache
    \<and> (\<forall>i \<in> set is. load_all files is cache i = load_program files i)"
proof (induction "is" arbitrary: cache)
  case (Cons i "is")
  let ?c = "fst (get_program files cache i)"
  note g = get_program_result [OF Cons.prems, of i]
  then have IH: "cache_true files (load_all files is ?c)" "?c \<subseteq>\<^sub>m load_all files is ?c"
    "\<forall>i \<in> set is. load_all files is ?c i = load_program files i" using Cons.IH [of ?c] by simp_all
  have "load_all files is ?c i = load_program files i"
  proof (cases "load_program files i")
    case None
    then show ?thesis using IH(1) by (cases "load_all files is ?c i") (auto simp: cache_true_def)
  next
    case (Some p)
    then obtain p' where "?c i = Some p'" using g by auto
    then have "load_all files is ?c i = Some p'" using IH(2) by (simp add: map_le_def dom_def)
    then show ?thesis using IH(1) by (simp add: cache_true_def)
  qed
  moreover have "cache \<subseteq>\<^sub>m load_all files is ?c" using g IH(2) by (meson map_le_trans)
  ultimately show ?case using IH by simp
qed simp

section \<open>Worked example\<close>

definition demo_program_files :: "string \<Rightarrow> program_file" where
  "demo_program_files i =
     (if i = ''film'' then ProgramFile \<lparr>pj_id = Some ''film'', pj_name = Some ''Film'', pj_play_mode = None,
        pj_episodes = Some [\<lparr>ej_id = Some ''f1'', ej_ep_title = Some ''f1'', ej_file_path = Some ''f1.mp4'',
          ej_seconds = Some 3600\<rparr>]\<rparr>
      else if i = ''bad'' then ProgramFile \<lparr>pj_id = None, pj_name = None, pj_play_mode = None, pj_episodes = None\<rparr>
      else NoProgram)"

section \<open>Properties\<close>

text \<open>
  Over a directory that does not change, the caching catalogue refines the plain one: from the
  empty cache and after any sequence of lookups and preloads, a lookup answers what reading the
  file would, and the cache only ever holds what the files say.
\<close>

theorem cached_catalog_refines_files:
  assumes "cache_true files cache"
  shows "snd (get_program files cache i) = load_program files i
    \<and> cache_true files (fst (get_program files cache i)) \<and> cache_true files (load_all files is cache)
    \<and> (i \<in> set is \<longrightarrow> get_program files (load_all files is cache) i = (load_all files is cache, load_program files i))
    \<and> cache_true files Map.empty"
  using get_program_result [OF assms, of i] load_all_result [OF assms, of "is"] cache_true_empty
  by (auto simp: get_program_def split: option.splits)

theorem cached_catalog_refines_files_witness:
  "snd (get_program demo_program_files Map.empty ''film'') = load_program demo_program_files ''film''
    \<and> snd (get_program demo_program_files (load_all demo_program_files [''bad'', ''film''] Map.empty) ''film'') \<noteq> None"
proof -
  have "load_program demo_program_files ''film'' \<noteq> None" by code_simp
  then show ?thesis
    using cached_catalog_refines_files [OF cache_true_empty, of demo_program_files "''film''" "[''bad'', ''film'']"]
    by simp
qed

end
