(* ===== verification/Horizon_Manager.thy ===== *)
theory Horizon_Manager
  imports Execution_Window
begin

text \<open>
  The horizon manager, \<^verbatim>\<open>runtime/horizon_manager.py\<close>: at every evaluation it compares the depth of
  the guide and of the execution window with their minimums, asks the planning layers for further
  broadcast days, checks the block at the current instant and the seams of the window, and keeps a
  log of every attempt.  The planning layers are reached through two protocols; they are arguments
  here (\<open>horizon_env\<close>), acting on a state \<open>'w\<close> of their own.  An attempt that fails is an answer
  with its error code, and an exception that the code does not catch is the result of the call.
  The evaluation thread (\<^verbatim>\<open>start\<close>, \<^verbatim>\<open>stop\<close>, \<^verbatim>\<open>_run_loop\<close>) repeats \<open>evaluate_once\<close> and drops
  its exceptions.
\<close>

section \<open>Interfaces and state\<close>

text \<open>What \<^verbatim>\<open>extend_execution_day\<close> returns: the end alone, or the end and the entries.\<close>

datatype day_answer = LegacyEnd ms | DayResult ms "execution_entry list"

record 'w horizon_env =
  he_epg_day_exists :: "'w \<Rightarrow> date \<Rightarrow> 'w \<times> bool res"
  he_extend_epg_day :: "'w \<Rightarrow> date \<Rightarrow> 'w \<times> unit res"
  he_extend_execution_day :: "'w \<Rightarrow> date \<Rightarrow> 'w \<times> (string + day_answer)"

record extension_attempt =
  ea_id :: string
  ea_now :: ms
  ea_before :: ms
  ea_after :: ms
  ea_reason :: string
  ea_triggered_by :: string
  ea_success :: bool
  ea_error :: "string option"

record seam_violation =
  sv_left :: string
  sv_left_end :: ms
  sv_right :: string
  sv_right_start :: ms
  sv_delta :: ms

record hm_config =
  hc_min_epg_days :: int
  hc_min_execution_hours :: int
  hc_interval :: int
  hc_start_hour :: int
  hc_locked_window :: ms
  hc_proactive_threshold :: ms

record hm_state =
  hm_epg_farthest :: "date option"
  hm_window_end :: ms
  hm_last_evaluation :: ms
  hm_next_block_ok :: bool
  hm_coverage_ok :: bool
  hm_violations :: "seam_violation list"
  hm_proactive :: bool
  hm_next_generation :: int
  hm_attempts :: nat
  hm_successes :: nat
  hm_forbidden :: nat
  hm_log :: "extension_attempt list"
  hm_store :: "exec_store option"

definition init_horizon :: "exec_store option \<Rightarrow> hm_state" where
  "init_horizon store =
     \<lparr>hm_epg_farthest = None, hm_window_end = 0, hm_last_evaluation = 0, hm_next_block_ok = True,
      hm_coverage_ok = True, hm_violations = [], hm_proactive = False, hm_next_generation = 0,
      hm_attempts = 0, hm_successes = 0, hm_forbidden = 0, hm_log = [], hm_store = store\<rparr>"

section \<open>Broadcast days\<close>

definition broadcast_date_for :: "int \<Rightarrow> datetime \<Rightarrow> date" where
  "broadcast_date_for start_hour dt =
     (if hour_of (time_of dt) < start_hour then date_of (dt - us_per_day) else date_of dt)"

definition day_end_utc_ms :: "int \<Rightarrow> date \<Rightarrow> ms" where
  "day_end_utc_ms start_hour d = to_epoch_ms (combine d (start_hour * us_per_hour) + us_per_day)"

definition epg_window_end_utc_ms :: "hm_config \<Rightarrow> hm_state \<Rightarrow> ms" where
  "epg_window_end_utc_ms cfg st =
     (case hm_epg_farthest st of None \<Rightarrow> 0 | Some d \<Rightarrow> day_end_utc_ms (hc_start_hour cfg) d)"

text \<open>The first broadcast day the execution window does not cover yet.\<close>

definition next_execution_date :: "hm_config \<Rightarrow> hm_state \<Rightarrow> date \<Rightarrow> date" where
  "next_execution_date cfg st current_bd =
     (if 0 < hm_window_end st
      then let next_date = broadcast_date_for (hc_start_hour cfg) (from_epoch_ms (hm_window_end st))
           in if day_end_utc_ms (hc_start_hour cfg) next_date \<le> hm_window_end st
              then next_date + 1 else next_date
      else current_bd)"

section \<open>Depth and health\<close>

text \<open>Hours as a float, from an end and a reading of the clock.\<close>

definition depth_hours :: "ms \<Rightarrow> ms \<Rightarrow> rat" where
  "depth_hours end_ms now_ms =
     (if end_ms \<le> now_ms then 0 else fl (of_int (end_ms - now_ms) / 3600000))"

definition get_epg_depth_hours :: "hm_config \<Rightarrow> hm_state \<Rightarrow> datetime \<Rightarrow> rat" where
  "get_epg_depth_hours cfg st now = depth_hours (epg_window_end_utc_ms cfg st) (to_epoch_ms now)"

definition get_execution_depth_hours :: "hm_state \<Rightarrow> datetime \<Rightarrow> rat" where
  "get_execution_depth_hours st now = depth_hours (hm_window_end st) (to_epoch_ms now)"

definition is_healthy :: "hm_config \<Rightarrow> hm_state \<Rightarrow> datetime \<Rightarrow> datetime \<Rightarrow> bool" where
  "is_healthy cfg st now now' \<longleftrightarrow>
     fl (of_int (hc_min_epg_days cfg) * 24) \<le> get_epg_depth_hours cfg st now
     \<and> of_int (hc_min_execution_hours cfg) \<le> get_execution_depth_hours st now'"

text \<open>\<open>round(x, 2)\<close>\<close>

definition round2 :: "rat \<Rightarrow> rat" where
  "round2 x = fl (of_int (rne (x * 100)) / 100)"

record health_report =
  hr_epg_depth :: rat
  hr_execution_depth :: rat
  hr_min_epg_days :: int
  hr_min_execution_hours :: int
  hr_epg_farthest :: "string option"
  hr_window_end :: ms
  hr_last_evaluation :: ms
  hr_healthy :: bool
  hr_epg_ok :: bool
  hr_execution_ok :: bool
  hr_next_block_ok :: bool
  hr_coverage_ok :: bool
  hr_proactive :: bool
  hr_interval :: int
  hr_store_count :: nat

text \<open>The report reads the clock four times: \<open>n0\<close> to \<open>n3\<close>.\<close>

definition get_health_report ::
  "hm_config \<Rightarrow> hm_state \<Rightarrow> datetime \<Rightarrow> datetime \<Rightarrow> datetime \<Rightarrow> datetime \<Rightarrow> health_report" where
  "get_health_report cfg st n0 n1 n2 n3 =
     (let epg_h = get_epg_depth_hours cfg st n0; exec_h = get_execution_depth_hours st n1
      in \<lparr>hr_epg_depth = round2 epg_h, hr_execution_depth = round2 exec_h,
          hr_min_epg_days = hc_min_epg_days cfg, hr_min_execution_hours = hc_min_execution_hours cfg,
          hr_epg_farthest = map_option iso_date (hm_epg_farthest st),
          hr_window_end = hm_window_end st, hr_last_evaluation = hm_last_evaluation st,
          hr_healthy = is_healthy cfg st n2 n3,
          hr_epg_ok = (fl (of_int (hc_min_epg_days cfg) * 24) \<le> epg_h),
          hr_execution_ok = (of_int (hc_min_execution_hours cfg) \<le> exec_h),
          hr_next_block_ok = hm_next_block_ok st, hr_coverage_ok = hm_coverage_ok st,
          hr_proactive = hm_proactive st, hr_interval = hc_interval cfg,
          hr_store_count = (case hm_store st of None \<Rightarrow> 0 | Some xs \<Rightarrow> length (xs_entries xs))\<rparr>)"

section \<open>The attempt log\<close>

definition make_attempt :: "nat \<Rightarrow> ms \<Rightarrow> ms \<Rightarrow> ms \<Rightarrow> string option \<Rightarrow> extension_attempt" where
  "make_attempt n now_ms before after error_code =
     \<lparr>ea_id = ''ext-'' @ nat_str n, ea_now = now_ms, ea_before = before, ea_after = after,
      ea_reason = ''REASON_TIME_THRESHOLD'', ea_triggered_by = ''SCHED_MGR_POLICY'',
      ea_success = (error_code = None), ea_error = error_code\<rparr>"

definition count_attempt :: "hm_state \<Rightarrow> hm_state" where
  "count_attempt st = st\<lparr>hm_attempts := Suc (hm_attempts st)\<rparr>"

text \<open>The entry is numbered by the attempt counter, which \<open>count_attempt\<close> has already raised.\<close>

definition log_failure :: "ms \<Rightarrow> ms \<Rightarrow> string \<Rightarrow> hm_state \<Rightarrow> hm_state" where
  "log_failure now_ms before error_code st =
     st\<lparr>hm_log := hm_log st @ [make_attempt (hm_attempts st) now_ms before (hm_window_end st) (Some error_code)]\<rparr>"

definition log_success :: "ms \<Rightarrow> ms \<Rightarrow> hm_state \<Rightarrow> hm_state" where
  "log_success now_ms before st =
     st\<lparr>hm_successes := Suc (hm_successes st),
        hm_log := hm_log st @ [make_attempt (hm_attempts st) now_ms before (hm_window_end st) None]\<rparr>"

definition raise_window_end :: "ms \<Rightarrow> hm_state \<Rightarrow> hm_state" where
  "raise_window_end end_ms st = (if hm_window_end st < end_ms then st\<lparr>hm_window_end := end_ms\<rparr> else st)"

fun answer_end :: "day_answer \<Rightarrow> ms" where
  "answer_end (LegacyEnd e) = e"
| "answer_end (DayResult e es) = e"

text \<open>Entries of a rich answer go into the store, when there is one.\<close>

fun ingest :: "day_answer \<Rightarrow> hm_state \<Rightarrow> hm_state \<times> unit res" where
  "ingest (LegacyEnd e) st = (st, Inr ())"
| "ingest (DayResult e es) st =
     (case hm_store st of
        None \<Rightarrow> (st, Inr ())
      | Some xs \<Rightarrow> (case add_entries xs es of (xs', r) \<Rightarrow> (st\<lparr>hm_store := Some xs'\<rparr>, r)))"

section \<open>Extension\<close>

definition max_extension_days :: nat where "max_extension_days = 30"

fun extend_epg_loop ::
  "'w horizon_env \<Rightarrow> hm_config \<Rightarrow> ms \<Rightarrow> nat \<Rightarrow> date \<Rightarrow> hm_state \<Rightarrow> 'w \<Rightarrow> hm_state \<times> 'w \<times> unit res" where
  "extend_epg_loop env cfg target 0 next_date st w = (st, w, Inr ())"
| "extend_epg_loop env cfg target (Suc n) next_date st w =
     (if target \<le> epg_window_end_utc_ms cfg st then (st, w, Inr ())
      else case he_epg_day_exists env w next_date of
        (w', Inl e) \<Rightarrow> (st, w', Inl e)
      | (w', Inr ex) \<Rightarrow>
        (case (if ex then (w', Inr ()) else he_extend_epg_day env w' next_date) of
           (w'', Inl e) \<Rightarrow> (st, w'', Inl e)
         | (w'', Inr _) \<Rightarrow>
             extend_epg_loop env cfg target n (next_date + 1) (st\<lparr>hm_epg_farthest := Some next_date\<rparr>) w''))"

definition extend_epg ::
  "'w horizon_env \<Rightarrow> hm_config \<Rightarrow> date \<Rightarrow> ms \<Rightarrow> hm_state \<Rightarrow> 'w \<Rightarrow> hm_state \<times> 'w \<times> unit res" where
  "extend_epg env cfg current_bd now_ms st w =
     extend_epg_loop env cfg (now_ms + hc_min_epg_days cfg * 24 * 3600000) max_extension_days
       (case hm_epg_farthest st of Some d \<Rightarrow> d + 1 | None \<Rightarrow> current_bd) st w"

text \<open>The body of the execution loop; the flag tells whether the loop goes on.\<close>

definition extend_one_day ::
  "'w horizon_env \<Rightarrow> ms \<Rightarrow> date \<Rightarrow> hm_state \<Rightarrow> 'w \<Rightarrow> hm_state \<times> 'w \<times> bool res" where
  "extend_one_day env now_ms next_date st0 w =
     (let before = hm_window_end st0; st = count_attempt st0
      in case he_extend_execution_day env w next_date of
           (w', Inl err) \<Rightarrow> (log_failure now_ms before err st, w', Inr False)
         | (w', Inr ans) \<Rightarrow>
           (case ingest ans st of
              (st', Inl e) \<Rightarrow> (st', w', Inl e)
            | (st', Inr _) \<Rightarrow>
                (log_success now_ms before (raise_window_end (answer_end ans) st'), w', Inr True)))"

fun extend_execution_loop ::
  "'w horizon_env \<Rightarrow> ms \<Rightarrow> ms \<Rightarrow> nat \<Rightarrow> date \<Rightarrow> hm_state \<Rightarrow> 'w \<Rightarrow> hm_state \<times> 'w \<times> unit res" where
  "extend_execution_loop env target now_ms 0 next_date st w = (st, w, Inr ())"
| "extend_execution_loop env target now_ms (Suc n) next_date st w =
     (if target \<le> hm_window_end st then (st, w, Inr ())
      else case extend_one_day env now_ms next_date st w of
        (st', w', Inl e) \<Rightarrow> (st', w', Inl e)
      | (st', w', Inr False) \<Rightarrow> (st', w', Inr ())
      | (st', w', Inr True) \<Rightarrow> extend_execution_loop env target now_ms n (next_date + 1) st' w')"

definition extend_execution ::
  "'w horizon_env \<Rightarrow> hm_config \<Rightarrow> date \<Rightarrow> ms \<Rightarrow> hm_state \<Rightarrow> 'w \<Rightarrow> hm_state \<times> 'w \<times> unit res" where
  "extend_execution env cfg current_bd now_ms st w =
     extend_execution_loop env (now_ms + hc_min_execution_hours cfg * 3600000) now_ms max_extension_days
       (next_execution_date cfg st current_bd) st w"

section \<open>Checks\<close>

definition set_next_block :: "bool \<Rightarrow> hm_state \<Rightarrow> hm_state" where
  "set_next_block ok st = st\<lparr>hm_next_block_ok := ok\<rparr>"

definition check_next_block_ready ::
  "'w horizon_env \<Rightarrow> hm_config \<Rightarrow> ms \<Rightarrow> date \<Rightarrow> exec_store \<Rightarrow> hm_state \<Rightarrow> 'w \<Rightarrow> hm_state \<times> 'w \<times> unit res" where
  "check_next_block_ready env cfg now_ms current_bd xs st0 w =
     (let before = hm_window_end st0; st = count_attempt st0
      in if get_entry_at xs now_ms False \<noteq> None then (set_next_block True st0, w, Inr ())
         else if 0 < hc_locked_window cfg
         then (set_next_block False
                 (log_failure now_ms before ''INV-HORIZON-LOCKED-IMMUTABLE-001-VIOLATED'' st), w, Inr ())
         else case he_extend_execution_day env w current_bd of
           (w', Inl err) \<Rightarrow>
             (set_next_block False (log_failure now_ms before ''PIPELINE_EXHAUSTED'' st), w', Inr ())
         | (w', Inr ans) \<Rightarrow>
           (case ingest ans st of
              (st1, Inl e) \<Rightarrow> (st1, w', Inl e)
            | (st1, Inr _) \<Rightarrow>
              (let st2 = raise_window_end (answer_end ans) st1
               in if (case hm_store st2 of None \<Rightarrow> False | Some xs' \<Rightarrow> get_entry_at xs' now_ms False \<noteq> None)
                  then (set_next_block True (log_success now_ms before st2), w', Inr ())
                  else (set_next_block False (log_failure now_ms before ''PIPELINE_EXHAUSTED'' st2), w', Inr ()))))"

text \<open>The loop over neighbours.\<close>

definition seam_of :: "execution_entry \<Rightarrow> execution_entry \<Rightarrow> seam_violation" where
  "seam_of l r = \<lparr>sv_left = xe_block_id l, sv_left_end = xe_end l, sv_right = xe_block_id r,
     sv_right_start = xe_start r, sv_delta = xe_start r - xe_end l\<rparr>"

fun seam_violations :: "execution_entry list \<Rightarrow> seam_violation list" where
  "seam_violations (l # r # es) =
     (let delta = xe_start r - xe_end l
      in (if delta \<noteq> 0 then [seam_of l r] else []) @ seam_violations (r # es))"
| "seam_violations _ = []"

definition check_seam_contiguity :: "exec_store \<Rightarrow> hm_state \<Rightarrow> hm_state" where
  "check_seam_contiguity xs st =
     (if length (xs_entries xs) < 2 then st\<lparr>hm_coverage_ok := True, hm_violations := []\<rparr>
      else let vs = seam_violations (xs_entries xs)
           in st\<lparr>hm_violations := vs, hm_coverage_ok := (length vs = 0)\<rparr>)"

definition allocate_generation_id :: "hm_state \<Rightarrow> hm_state \<times> int" where
  "allocate_generation_id st =
     (let g = hm_next_generation st + 1 in (st\<lparr>hm_next_generation := g\<rparr>, g))"

text \<open>The publish of a proactive extension: \<open>Some\<close> error code when it is rejected.\<close>

fun publish_answer :: "ms option \<Rightarrow> day_answer \<Rightarrow> hm_state \<Rightarrow> hm_state \<times> string option" where
  "publish_answer clk (LegacyEnd e) st = (st, None)"
| "publish_answer clk (DayResult e es) st =
     (case (hm_store st, es) of
        (Some xs, e0 # _) \<Rightarrow>
          (case allocate_generation_id st of (st', gen) \<Rightarrow>
             (case publish_atomic_replace xs clk (xe_start e0) e es gen ''REASON_TIME_THRESHOLD'' False of
                (xs', pub) \<Rightarrow> (st'\<lparr>hm_store := Some xs'\<rparr>, if pr_ok pub then None else pr_error pub)))
      | _ \<Rightarrow> (st, None))"

definition check_proactive_extend ::
  "'w horizon_env \<Rightarrow> hm_config \<Rightarrow> ms option \<Rightarrow> ms \<Rightarrow> date \<Rightarrow> hm_state \<Rightarrow> 'w \<Rightarrow> hm_state \<times> 'w" where
  "check_proactive_extend env cfg clk now_ms current_bd st w =
     (if hc_proactive_threshold cfg \<le> 0 then (st, w)
      else if hc_proactive_threshold cfg < hm_window_end st - now_ms then (st, w)
      else let before = hm_window_end st;
               next_date = next_execution_date cfg st current_bd;
               st1 = count_attempt (st\<lparr>hm_proactive := True\<rparr>)
           in case he_extend_execution_day env w next_date of
                (w', Inl err) \<Rightarrow> (log_failure now_ms before err st1, w')
              | (w', Inr ans) \<Rightarrow>
                (case publish_answer clk ans st1 of
                   (st2, Some err) \<Rightarrow> (log_failure now_ms before err st2, w')
                 | (st2, None) \<Rightarrow> (log_success now_ms before (raise_window_end (answer_end ans) st2), w')))"

section \<open>One evaluation\<close>

text \<open>Sequencing of steps that may raise.\<close>

definition then_step ::
  "hm_state \<times> 'w \<times> unit res \<Rightarrow> (hm_state \<Rightarrow> 'w \<Rightarrow> hm_state \<times> 'w \<times> unit res) \<Rightarrow> hm_state \<times> 'w \<times> unit res" where
  "then_step r f = (case r of (st, w, Inl e) \<Rightarrow> (st, w, Inl e) | (st, w, Inr _) \<Rightarrow> f st w)"

definition depth_below :: "ms \<Rightarrow> ms \<Rightarrow> rat \<Rightarrow> bool" where
  "depth_below end_ms now_ms minimum \<longleftrightarrow> max 0 (fl (of_int (end_ms - now_ms) / 3600000)) < minimum"

definition evaluate_once ::
  "'w horizon_env \<Rightarrow> hm_config \<Rightarrow> ms option \<Rightarrow> datetime \<Rightarrow> hm_state \<Rightarrow> 'w \<Rightarrow> hm_state \<times> 'w \<times> unit res" where
  "evaluate_once env cfg clk now st0 w0 =
     (let now_ms = to_epoch_ms now;
          current_bd = broadcast_date_for (hc_start_hour cfg) now;
          st = st0\<lparr>hm_last_evaluation := now_ms, hm_proactive := False\<rparr>
      in then_step
           (if depth_below (epg_window_end_utc_ms cfg st) now_ms (fl (of_int (hc_min_epg_days cfg) * 24))
            then extend_epg env cfg current_bd now_ms st w0 else (st, w0, Inr ())) (\<lambda>st w.
         then_step
           (if depth_below (hm_window_end st) now_ms (of_int (hc_min_execution_hours cfg))
            then extend_execution env cfg current_bd now_ms st w else (st, w, Inr ())) (\<lambda>st w.
         then_step
           (case hm_store st of None \<Rightarrow> (st, w, Inr ())
            | Some xs \<Rightarrow> check_next_block_ready env cfg now_ms current_bd xs st w) (\<lambda>st w.
         let st = (case hm_store st of None \<Rightarrow> st | Some xs \<Rightarrow> check_seam_contiguity xs st)
         in case check_proactive_extend env cfg clk now_ms current_bd st w of (st, w) \<Rightarrow> (st, w, Inr ())))))"

section \<open>The log is the history of the window\<close>

definition attempt_span :: "extension_attempt \<Rightarrow> ms \<times> ms" where
  "attempt_span a = (ea_before a, ea_after a)"

text \<open>
  One entry per counted attempt, numbered in order; the successes are counted; each entry takes the
  window end from where its predecessor left it, never backwards, from 0 to the current end.
\<close>

definition hm_audit :: "hm_state \<Rightarrow> bool" where
  "hm_audit st \<longleftrightarrow>
     hm_attempts st = length (hm_log st)
     \<and> hm_successes st = length (filter ea_success (hm_log st))
     \<and> map ea_id (hm_log st) = map (\<lambda>i. ''ext-'' @ nat_str (Suc i)) [0..<length (hm_log st)]
     \<and> (\<forall>a \<in> set (hm_log st). ea_before a \<le> ea_after a)
     \<and> chained ((0, 0) # map attempt_span (hm_log st) @ [(hm_window_end st, hm_window_end st)])"

lemma init_audit: "hm_audit (init_horizon store)"
  by (simp add: hm_audit_def init_horizon_def)

lemma attempt_fields [simp]:
  "ea_id (make_attempt n t b a e) = ''ext-'' @ nat_str n" "ea_before (make_attempt n t b a e) = b"
  "ea_after (make_attempt n t b a e) = a" "ea_success (make_attempt n t b a e) = (e = None)"
  "attempt_span (make_attempt n t b a e) = (b, a)"
  by (simp_all add: make_attempt_def attempt_span_def)

lemma audit_step:
  assumes "hm_audit st"
    and "hm_log st' = hm_log st @ [make_attempt (Suc (hm_attempts st)) t (hm_window_end st) (hm_window_end st') err]"
    and "hm_attempts st' = Suc (hm_attempts st)"
    and "hm_successes st' = hm_successes st + (if err = None then 1 else 0)"
    and "hm_window_end st \<le> hm_window_end st'"
  shows "hm_audit st'"
  using assms unfolding hm_audit_def
  by (simp add: chained_snoc last_map flip: append_assoc append_Cons)

lemma audit_cong:
  "hm_log st' = hm_log st \<Longrightarrow> hm_attempts st' = hm_attempts st \<Longrightarrow> hm_successes st' = hm_successes st
    \<Longrightarrow> hm_window_end st' = hm_window_end st \<Longrightarrow> hm_audit st' = hm_audit st"
  by (simp add: hm_audit_def)

lemma count_attempt_fields [simp]:
  "hm_attempts (count_attempt st) = Suc (hm_attempts st)" "hm_log (count_attempt st) = hm_log st"
  "hm_successes (count_attempt st) = hm_successes st" "hm_window_end (count_attempt st) = hm_window_end st"
  "hm_store (count_attempt st) = hm_store st" "hm_epg_farthest (count_attempt st) = hm_epg_farthest st"
  by (simp_all add: count_attempt_def)

lemma raise_window_fields [simp]:
  "hm_window_end (raise_window_end e st) = max (hm_window_end st) e"
  "hm_attempts (raise_window_end e st) = hm_attempts st" "hm_log (raise_window_end e st) = hm_log st"
  "hm_successes (raise_window_end e st) = hm_successes st" "hm_store (raise_window_end e st) = hm_store st"
  "hm_epg_farthest (raise_window_end e st) = hm_epg_farthest st"
  by (auto simp: raise_window_end_def)

lemma set_next_block_fields [simp]:
  "hm_window_end (set_next_block ok st) = hm_window_end st" "hm_attempts (set_next_block ok st) = hm_attempts st"
  "hm_log (set_next_block ok st) = hm_log st" "hm_successes (set_next_block ok st) = hm_successes st"
  "hm_store (set_next_block ok st) = hm_store st" "hm_next_block_ok (set_next_block ok st) = ok"
  "hm_epg_farthest (set_next_block ok st) = hm_epg_farthest st"
  by (simp_all add: set_next_block_def)

lemma log_fields [simp]:
  "hm_window_end (log_failure t b e st) = hm_window_end st" "hm_window_end (log_success t b st) = hm_window_end st"
  "hm_store (log_failure t b e st) = hm_store st" "hm_store (log_success t b st) = hm_store st"
  "hm_attempts (log_failure t b e st) = hm_attempts st" "hm_attempts (log_success t b st) = hm_attempts st"
  "hm_epg_farthest (log_failure t b e st) = hm_epg_farthest st"
  "hm_epg_farthest (log_success t b st) = hm_epg_farthest st"
  "hm_successes (log_failure t b e st) = hm_successes st"
  "hm_successes (log_success t b st) = Suc (hm_successes st)"
  "hm_log (log_failure t b e st) = hm_log st @ [make_attempt (hm_attempts st) t b (hm_window_end st) (Some e)]"
  "hm_log (log_success t b st) = hm_log st @ [make_attempt (hm_attempts st) t b (hm_window_end st) None]"
  by (simp_all add: log_failure_def log_success_def)

text \<open>Whatever happens to the store, the audited fields are left alone.\<close>

lemma ingest_fields:
  "ingest ans st = (st', r) \<Longrightarrow> hm_attempts st' = hm_attempts st \<and> hm_log st' = hm_log st
    \<and> hm_successes st' = hm_successes st \<and> hm_window_end st' = hm_window_end st
    \<and> hm_epg_farthest st' = hm_epg_farthest st"
  by (cases ans) (auto split: option.splits prod.splits)

lemma publish_answer_fields:
  "publish_answer clk ans st = (st', r) \<Longrightarrow> hm_attempts st' = hm_attempts st \<and> hm_log st' = hm_log st
    \<and> hm_successes st' = hm_successes st \<and> hm_window_end st' = hm_window_end st
    \<and> hm_epg_farthest st' = hm_epg_farthest st"
  by (cases ans) (auto simp: allocate_generation_id_def Let_def split: option.splits list.splits prod.splits)

section \<open>What every step keeps\<close>

text \<open>
  The window end never moves back and the log only grows.  A call that returns keeps the log complete; one
  that raises may leave the counter one ahead of a log that is complete otherwise.
\<close>

definition counted_not_logged :: "hm_state \<Rightarrow> bool" where
  "counted_not_logged st \<longleftrightarrow> 0 < hm_attempts st \<and> hm_audit (st\<lparr>hm_attempts := hm_attempts st - 1\<rparr>)"

definition grows :: "hm_state \<Rightarrow> hm_state \<Rightarrow> 'a res \<Rightarrow> bool" where
  "grows st st' r \<longleftrightarrow> hm_window_end st \<le> hm_window_end st'
     \<and> (\<exists>as. hm_log st' = hm_log st @ as)
     \<and> (hm_audit st \<longrightarrow> hm_audit st' \<or> (\<exists>e. r = Inl e) \<and> counted_not_logged st')"

lemma grows_refl: "grows st st r"
  by (simp add: grows_def)

lemma grows_counted:
  assumes "hm_log st' = hm_log st" "hm_attempts st' = Suc (hm_attempts st)" "hm_successes st' = hm_successes st"
    "hm_window_end st' = hm_window_end st"
  shows "grows st st' (Inl e)"
  using assms by (simp add: grows_def counted_not_logged_def hm_audit_def)

lemma grows_trans: "grows st st1 (Inr x) \<Longrightarrow> grows st1 st2 r \<Longrightarrow> grows st st2 r"
  by (auto simp: grows_def)

lemma grows_step:
  assumes "hm_log st' = hm_log st @ [make_attempt (Suc (hm_attempts st)) t (hm_window_end st) (hm_window_end st') err]"
    and "hm_attempts st' = Suc (hm_attempts st)"
    and "hm_successes st' = hm_successes st + (if err = None then 1 else 0)"
    and "hm_window_end st \<le> hm_window_end st'"
  shows "grows st st' r"
  unfolding grows_def using audit_step [OF _ assms] assms(1,4) by blast

lemma grows_other:
  "hm_log st' = hm_log st \<Longrightarrow> hm_attempts st' = hm_attempts st \<Longrightarrow> hm_successes st' = hm_successes st
    \<Longrightarrow> hm_window_end st' = hm_window_end st \<Longrightarrow> grows st st' r"
  using audit_cong [of st' st] by (simp add: grows_def)

lemma extend_one_day_grows: "extend_one_day env t d st w = (st', w', r) \<Longrightarrow> grows st st' r"
proof -
  assume run: "extend_one_day env t d st w = (st', w', r)"
  obtain w1 a where a: "he_extend_execution_day env w d = (w1, a)" by fastforce
  show ?thesis
  proof (cases a)
    case (Inl err)
    with run a have "st' = log_failure t (hm_window_end st) err (count_attempt st)"
      by (simp add: extend_one_day_def Let_def)
    then show ?thesis by (intro grows_step [where err = "Some err" and t = t]) simp_all
  next
    case (Inr ans)
    obtain st1 q where i: "ingest ans (count_attempt st) = (st1, q)" by fastforce
    note f = ingest_fields [OF i]
    show ?thesis
    proof (cases q)
      case (Inl e)
      with run a Inr i have "st' = st1" "r = Inl e" by (simp_all add: extend_one_day_def Let_def)
      then show ?thesis using f by (simp add: grows_counted)
    next
      case (Inr u)
      with run a i \<open>a = Inr ans\<close>
      have "st' = log_success t (hm_window_end st) (raise_window_end (answer_end ans) st1)"
        by (simp add: extend_one_day_def Let_def)
      then show ?thesis using f by (intro grows_step [where err = None and t = t]) simp_all
    qed
  qed
qed

lemma extend_execution_loop_grows:
  "extend_execution_loop env target t n d st w = (st', w', r) \<Longrightarrow> grows st st' r"
proof (induction env target t n d st w rule: extend_execution_loop.induct)
  case (2 env target t n d st w)
  show ?case
  proof (cases "target \<le> hm_window_end st")
    case False
    obtain st1 w1 q where one: "extend_one_day env t d st w = (st1, w1, q)" by (metis prod_cases3)
    note g = extend_one_day_grows [OF one]
    show ?thesis
    proof (cases q)
      case (Inl e)
      then show ?thesis using 2(2) False one g by (auto simp: grows_def)
    next
      case (Inr more)
      then have g': "grows st st1 (Inr more)" using g by simp
      show ?thesis
      proof (cases more)
        case True
        with 2(2) False one Inr have "extend_execution_loop env target t n (d + 1) st1 w1 = (st', w', r)" by simp
        from 2(1) [OF False one [symmetric] refl _ _ this] Inr True have "grows st1 st' r" by simp
        with g' show ?thesis by (rule grows_trans)
      next
        case False
        with 2(2) \<open>\<not> target \<le> hm_window_end st\<close> one Inr have "st' = st1" "r = Inr ()" by simp_all
        with g' show ?thesis by (auto simp: grows_def)
      qed
    qed
  qed (use 2(2) in \<open>auto simp: grows_refl\<close>)
qed (auto simp: grows_refl)

lemma extend_epg_loop_grows:
  "extend_epg_loop env cfg target n d st w = (st', w', r) \<Longrightarrow> grows st st' r \<and> hm_store st' = hm_store st
    \<and> hm_window_end st' = hm_window_end st \<and> hm_log st' = hm_log st"
proof (induction n arbitrary: d st w)
  case (Suc n)
  let ?st = "st\<lparr>hm_epg_farthest := Some d\<rparr>"
  have o: "grows st ?st (Inr ())" by (rule grows_other) simp_all
  from Suc.prems show ?case
    by (auto simp: grows_refl split: if_splits prod.splits sum.splits
        dest!: Suc.IH intro: grows_trans [OF o])
qed (auto simp: grows_refl)

lemma check_next_block_grows:
  assumes "check_next_block_ready env cfg t d xs st w = (st', w', r)"
  shows "grows st st' r"
proof (cases "get_entry_at xs t False \<noteq> None")
  case True
  then have "st' = set_next_block True st" using assms by (auto simp: check_next_block_ready_def Let_def)
  then show ?thesis by (intro grows_other) simp_all
next
  case no: False
  show ?thesis
  proof (cases "0 < hc_locked_window cfg")
    case True
    then have "st' = set_next_block False (log_failure t (hm_window_end st)
        ''INV-HORIZON-LOCKED-IMMUTABLE-001-VIOLATED'' (count_attempt st))"
      using assms no unfolding check_next_block_ready_def Let_def by simp
    then show ?thesis
      by (intro grows_step [where err = "Some ''INV-HORIZON-LOCKED-IMMUTABLE-001-VIOLATED''" and t = t]) simp_all
  next
    case False
    obtain w1 a where a: "he_extend_execution_day env w d = (w1, a)" by fastforce
    show ?thesis
    proof (cases a)
      case (Inl err)
      then have "st' = set_next_block False (log_failure t (hm_window_end st) ''PIPELINE_EXHAUSTED'' (count_attempt st))"
        using assms no False a unfolding check_next_block_ready_def Let_def by simp
      then show ?thesis by (intro grows_step [where err = "Some ''PIPELINE_EXHAUSTED''" and t = t]) simp_all
    next
      case ans: (Inr ans)
      obtain st1 q where i: "ingest ans (count_attempt st) = (st1, q)" by fastforce
      note f = ingest_fields [OF i]
      show ?thesis
      proof (cases q)
        case (Inl e)
        then have "st' = st1" "r = Inl e"
          using assms no False a ans i unfolding check_next_block_ready_def Let_def by simp_all
        then show ?thesis using f by (simp add: grows_counted)
      next
        case (Inr u)
        let ?st2 = "raise_window_end (answer_end ans) st1"
        have "st' = set_next_block True (log_success t (hm_window_end st) ?st2)
            \<or> st' = set_next_block False (log_failure t (hm_window_end st) ''PIPELINE_EXHAUSTED'' ?st2)"
          using assms no False a ans i Inr unfolding check_next_block_ready_def Let_def by (auto split: if_splits)
        then show ?thesis
        proof
          assume "st' = set_next_block True (log_success t (hm_window_end st) ?st2)"
          then show ?thesis using f by (intro grows_step [where err = None and t = t]) simp_all
        next
          assume "st' = set_next_block False (log_failure t (hm_window_end st) ''PIPELINE_EXHAUSTED'' ?st2)"
          then show ?thesis using f by (intro grows_step [where err = "Some ''PIPELINE_EXHAUSTED''" and t = t]) simp_all
        qed
      qed
    qed
  qed
qed

lemma check_proactive_grows:
  assumes "check_proactive_extend env cfg clk t d st w = (st', w')"
  shows "grows st st' r"
proof (cases "hc_proactive_threshold cfg \<le> 0 \<or> hc_proactive_threshold cfg < hm_window_end st - t")
  case True
  then have "st' = st" using assms unfolding check_proactive_extend_def by (auto split: if_splits)
  then show ?thesis by (simp add: grows_refl)
next
  case False
  define nd where "nd = next_execution_date cfg st d"
  let ?st1 = "count_attempt (st\<lparr>hm_proactive := True\<rparr>)"
  obtain w1 a where a: "he_extend_execution_day env w nd = (w1, a)" by fastforce
  show ?thesis
  proof (cases a)
    case (Inl err)
    then have "st' = log_failure t (hm_window_end st) err ?st1"
      using assms False a unfolding check_proactive_extend_def Let_def nd_def by simp
    then show ?thesis by (intro grows_step [where err = "Some err" and t = t]) simp_all
  next
    case (Inr ans)
    obtain st2 e where p: "publish_answer clk ans ?st1 = (st2, e)" by fastforce
    note f = publish_answer_fields [OF p]
    show ?thesis
    proof (cases e)
      case (Some err)
      then have "st' = log_failure t (hm_window_end st) err st2"
        using assms False a Inr p unfolding check_proactive_extend_def Let_def nd_def by simp
      then show ?thesis using f by (intro grows_step [where err = "Some err" and t = t]) simp_all
    next
      case None
      then have "st' = log_success t (hm_window_end st) (raise_window_end (answer_end ans) st2)"
        using assms False a Inr p unfolding check_proactive_extend_def Let_def nd_def by simp
      then show ?thesis using f by (intro grows_step [where err = None and t = t]) simp_all
    qed
  qed
qed

lemma seam_check_fields [simp]:
  "hm_window_end (check_seam_contiguity xs st) = hm_window_end st"
  "hm_attempts (check_seam_contiguity xs st) = hm_attempts st"
  "hm_log (check_seam_contiguity xs st) = hm_log st" "hm_successes (check_seam_contiguity xs st) = hm_successes st"
  "hm_store (check_seam_contiguity xs st) = hm_store st"
  "hm_epg_farthest (check_seam_contiguity xs st) = hm_epg_farthest st"
  by (simp_all add: check_seam_contiguity_def Let_def)

section \<open>The evaluation as a whole\<close>

lemma then_step_grows:
  assumes "then_step (st1, w1, r1) f = (st', w', r)" and "grows st st1 r1"
    and "\<And>st' w' r. f st1 w1 = (st', w', r) \<Longrightarrow> grows st1 st' r"
  shows "grows st st' r"
proof (cases r1)
  case (Inl e)
  then show ?thesis using assms(1,2) by (auto simp: then_step_def grows_def)
next
  case (Inr u)
  then have "grows st st1 (Inr ())" using assms(2) by simp
  moreover have "grows st1 st' r" using assms(1,3) Inr by (simp add: then_step_def)
  ultimately show ?thesis by (rule grows_trans)
qed

text \<open>The four stages of an evaluation.\<close>

definition epg_stage ::
  "'w horizon_env \<Rightarrow> hm_config \<Rightarrow> datetime \<Rightarrow> hm_state \<Rightarrow> 'w \<Rightarrow> hm_state \<times> 'w \<times> unit res" where
  "epg_stage env cfg now st w =
     (if depth_below (epg_window_end_utc_ms cfg st) (to_epoch_ms now) (fl (of_int (hc_min_epg_days cfg) * 24))
      then extend_epg env cfg (broadcast_date_for (hc_start_hour cfg) now) (to_epoch_ms now) st w
      else (st, w, Inr ()))"

definition execution_stage ::
  "'w horizon_env \<Rightarrow> hm_config \<Rightarrow> datetime \<Rightarrow> hm_state \<Rightarrow> 'w \<Rightarrow> hm_state \<times> 'w \<times> unit res" where
  "execution_stage env cfg now st w =
     (if depth_below (hm_window_end st) (to_epoch_ms now) (of_int (hc_min_execution_hours cfg))
      then extend_execution env cfg (broadcast_date_for (hc_start_hour cfg) now) (to_epoch_ms now) st w
      else (st, w, Inr ()))"

definition next_block_stage ::
  "'w horizon_env \<Rightarrow> hm_config \<Rightarrow> datetime \<Rightarrow> hm_state \<Rightarrow> 'w \<Rightarrow> hm_state \<times> 'w \<times> unit res" where
  "next_block_stage env cfg now st w =
     (case hm_store st of None \<Rightarrow> (st, w, Inr ())
      | Some xs \<Rightarrow> check_next_block_ready env cfg (to_epoch_ms now)
          (broadcast_date_for (hc_start_hour cfg) now) xs st w)"

definition seam_stage :: "hm_state \<Rightarrow> hm_state" where
  "seam_stage st = (case hm_store st of None \<Rightarrow> st | Some xs \<Rightarrow> check_seam_contiguity xs st)"

definition begin_evaluation :: "datetime \<Rightarrow> hm_state \<Rightarrow> hm_state" where
  "begin_evaluation now st = st\<lparr>hm_last_evaluation := to_epoch_ms now, hm_proactive := False\<rparr>"

lemma begin_fields [simp]:
  "hm_window_end (begin_evaluation now st) = hm_window_end st"
  "hm_attempts (begin_evaluation now st) = hm_attempts st" "hm_log (begin_evaluation now st) = hm_log st"
  "hm_successes (begin_evaluation now st) = hm_successes st" "hm_store (begin_evaluation now st) = hm_store st"
  "hm_epg_farthest (begin_evaluation now st) = hm_epg_farthest st"
  by (simp_all add: begin_evaluation_def)

definition last_stages ::
  "'w horizon_env \<Rightarrow> hm_config \<Rightarrow> ms option \<Rightarrow> datetime \<Rightarrow> hm_state \<Rightarrow> 'w \<Rightarrow> hm_state \<times> 'w \<times> unit res" where
  "last_stages env cfg clk now st w =
     (case check_proactive_extend env cfg clk (to_epoch_ms now)
             (broadcast_date_for (hc_start_hour cfg) now) (seam_stage st) w of
        (st, w) \<Rightarrow> (st, w, Inr ()))"

definition stages_from_next_block ::
  "'w horizon_env \<Rightarrow> hm_config \<Rightarrow> ms option \<Rightarrow> datetime \<Rightarrow> hm_state \<Rightarrow> 'w \<Rightarrow> hm_state \<times> 'w \<times> unit res" where
  "stages_from_next_block env cfg clk now st w =
     then_step (next_block_stage env cfg now st w) (last_stages env cfg clk now)"

definition stages_from_execution ::
  "'w horizon_env \<Rightarrow> hm_config \<Rightarrow> ms option \<Rightarrow> datetime \<Rightarrow> hm_state \<Rightarrow> 'w \<Rightarrow> hm_state \<times> 'w \<times> unit res" where
  "stages_from_execution env cfg clk now st w =
     then_step (execution_stage env cfg now st w) (stages_from_next_block env cfg clk now)"

lemma evaluate_stages:
  "evaluate_once env cfg clk now st w =
     then_step (epg_stage env cfg now (begin_evaluation now st) w) (stages_from_execution env cfg clk now)"
  by (simp add: evaluate_once_def Let_def epg_stage_def execution_stage_def next_block_stage_def
      seam_stage_def begin_evaluation_def stages_from_execution_def [abs_def]
      stages_from_next_block_def [abs_def] last_stages_def [abs_def])

lemma epg_stage_grows:
  "epg_stage env cfg now st w = (st', w', r) \<Longrightarrow> grows st st' r \<and> hm_store st' = hm_store st
    \<and> hm_window_end st' = hm_window_end st \<and> hm_log st' = hm_log st"
  by (auto simp: epg_stage_def extend_epg_def grows_refl split: if_splits dest: extend_epg_loop_grows)

lemma execution_stage_grows: "execution_stage env cfg now st w = (st', w', r) \<Longrightarrow> grows st st' r"
  by (auto simp: execution_stage_def extend_execution_def grows_refl split: if_splits
      dest: extend_execution_loop_grows)

lemma next_block_stage_grows: "next_block_stage env cfg now st w = (st', w', r) \<Longrightarrow> grows st st' r"
  by (auto simp: next_block_stage_def grows_refl split: option.splits dest: check_next_block_grows)

lemma seam_stage_grows: "grows st (seam_stage st) r"
  by (rule grows_other) (simp_all add: seam_stage_def split: option.splits)

lemma last_stages_grows: "last_stages env cfg clk now st w = (st', w', r) \<Longrightarrow> grows st st' r"
  by (auto simp: last_stages_def split: prod.splits
      intro: grows_trans [OF seam_stage_grows [where r = "Inr ()"]] dest: check_proactive_grows)

lemma from_next_block_grows:
  assumes "stages_from_next_block env cfg clk now st w = (st', w', r)"
  shows "grows st st' r"
proof -
  obtain s1 v1 q1 where c: "next_block_stage env cfg now st w = (s1, v1, q1)" by (metis prod_cases3)
  show ?thesis using assms unfolding stages_from_next_block_def c
    by (rule then_step_grows [OF _ next_block_stage_grows [OF c] last_stages_grows])
qed

lemma from_execution_grows:
  assumes "stages_from_execution env cfg clk now st w = (st', w', r)"
  shows "grows st st' r"
proof -
  obtain s1 v1 q1 where c: "execution_stage env cfg now st w = (s1, v1, q1)" by (metis prod_cases3)
  show ?thesis using assms unfolding stages_from_execution_def c
    by (rule then_step_grows [OF _ execution_stage_grows [OF c] from_next_block_grows])
qed

lemma evaluate_grows:
  assumes "evaluate_once env cfg clk now st w = (st', w', r)"
  shows "grows st st' r"
proof -
  obtain s1 v1 q1 where c: "epg_stage env cfg now (begin_evaluation now st) w = (s1, v1, q1)"
    by (metis prod_cases3)
  have b: "grows st (begin_evaluation now st) (Inr ())" by (rule grows_other) simp_all
  have "grows (begin_evaluation now st) s1 q1" using epg_stage_grows [OF c] by simp
  then have g: "grows st s1 q1" by (rule grows_trans [OF b])
  show ?thesis using assms unfolding evaluate_stages c
    by (rule then_step_grows [OF _ g from_execution_grows])
qed

section \<open>Seams\<close>

lemma seam_violations_iff: "seam_violations es = [] \<longleftrightarrow> chained (map xe_span es)"
  by (induction es rule: seam_violations.induct) (auto simp: xe_span_def Let_def)

lemma coverage_iff:
  "hm_coverage_ok (check_seam_contiguity xs st) \<longleftrightarrow> chained (map xe_span (xs_entries xs))"
proof (cases "length (xs_entries xs) < 2")
  case True
  then have "xs_entries xs = [] \<or> (\<exists>e. xs_entries xs = [e])" by (cases "xs_entries xs") (auto simp: Suc_le_eq)
  then show ?thesis by (auto simp: check_seam_contiguity_def)
qed (simp add: check_seam_contiguity_def Let_def seam_violations_iff)

text \<open>The violations are exactly the neighbours that do not meet.\<close>

lemma violations_are_seams:
  "seam_violations es =
     map (\<lambda>(l, r). seam_of l r) (filter (\<lambda>(l, r). xe_end l \<noteq> xe_start r) (zip es (tl es)))"
  by (induction es rule: seam_violations.induct) (auto simp: Let_def)

section \<open>The block at the current instant\<close>

lemma next_block_flag:
  assumes "check_next_block_ready env cfg t d xs st w = (st', w', Inr ())" and "hm_store st = Some xs"
  shows "hm_next_block_ok st' \<longleftrightarrow> (\<exists>xs'. hm_store st' = Some xs' \<and> get_entry_at xs' t False \<noteq> None)"
proof (cases "get_entry_at xs t False \<noteq> None")
  case True
  then show ?thesis using assms unfolding check_next_block_ready_def Let_def by auto
next
  case no: False
  show ?thesis
  proof (cases "0 < hc_locked_window cfg")
    case True
    then show ?thesis using assms no unfolding check_next_block_ready_def Let_def by auto
  next
    case False
    obtain w1 a where a: "he_extend_execution_day env w d = (w1, a)" by fastforce
    show ?thesis
    proof (cases a)
      case (Inl err)
      then show ?thesis using assms no False a unfolding check_next_block_ready_def Let_def by auto
    next
      case ans: (Inr ans)
      obtain st1 q where i: "ingest ans (count_attempt st) = (st1, q)" by fastforce
      then show ?thesis using assms no False a ans unfolding check_next_block_ready_def Let_def
        by (auto split: sum.splits if_splits option.splits)
    qed
  qed
qed

section \<open>Broadcast days in milliseconds\<close>

lemma day_end_exact:
  assumes "0 \<le> h" "h < 24" "\<bar>d\<bar> \<le> 2 ^ 21"
  shows "day_end_utc_ms h d = (d + 1) * 86400000 + h * 3600000"
proof -
  let ?s = "(d + 1) * 86400 + h * 3600"
  have "\<bar>?s\<bar> \<le> 2 ^ 43" using assms by (simp add: abs_if split: if_splits)
  then have "to_epoch_ms (?s * 1000000) = ?s * 1000" by (rule to_epoch_ms_whole)
  moreover have "combine d (h * us_per_hour) + us_per_day = ?s * 1000000" by (simp add: combine_def us_defs)
  ultimately show ?thesis by (simp add: day_end_utc_ms_def)
qed

lemma broadcast_date_bounds:
  assumes "0 \<le> h" "h < 24"
  shows "combine (broadcast_date_for h dt) (h * us_per_hour) \<le> dt"
    and "dt < combine (broadcast_date_for h dt) (h * us_per_hour) + us_per_day"
proof -
  have dt: "dt = date_of dt * us_per_day + time_of dt" "0 \<le> time_of dt" "time_of dt < us_per_day"
    using combine_date_time [of dt] valid_time_of [of dt] by (simp_all add: combine_def valid_time_def)
  have hour: "hour_of (time_of dt) < h \<longleftrightarrow> time_of dt < h * us_per_hour"
    unfolding hour_of_def by (simp add: us_per_hour_def) linarith
  have prev: "date_of (dt - us_per_day) = date_of dt - 1"
    by (simp add: date_of_def us_per_day_def)
  have hh: "0 \<le> h * us_per_hour" "h * us_per_hour < us_per_day" using assms by (simp_all add: us_defs)
  show "combine (broadcast_date_for h dt) (h * us_per_hour) \<le> dt"
    using dt hour prev hh by (simp add: broadcast_date_for_def combine_def us_defs split: if_splits)
  show "dt < combine (broadcast_date_for h dt) (h * us_per_hour) + us_per_day"
    using dt hour prev hh by (simp add: broadcast_date_for_def combine_def us_defs split: if_splits)
qed

lemma now_before_day_end:
  assumes "0 \<le> h" "h < 24"
  shows "to_epoch_ms now \<le> day_end_utc_ms h (broadcast_date_for h now)"
  unfolding day_end_utc_ms_def by (rule to_epoch_ms_mono) (use broadcast_date_bounds [OF assms, of now] in simp)

text \<open>Comparing the float depth with a whole number of hours is exact.\<close>

lemma depth_below_exact:
  assumes "end_ms - now_ms < 2 ^ 53" and "0 < m"
  shows "depth_below end_ms now_ms (of_int m) \<longleftrightarrow> end_ms < now_ms + m * 3600000"
proof (cases "0 \<le> end_ms - now_ms")
  case True
  define x where "x = fl (of_int (end_ms - now_ms) / of_int 3600000)"
  have i: "of_int m \<le> x \<longleftrightarrow> m * 3600000 \<le> end_ms - now_ms"
    unfolding x_def by (rule int_le_fl_div) (use assms True in simp_all)
  have x0: "0 \<le> x" unfolding x_def by (rule fl_nonneg) (use True in simp)
  have "depth_below end_ms now_ms (of_int m) \<longleftrightarrow> x < of_int m"
    using x0 assms(2) by (simp add: depth_below_def x_def max_def)
  then show ?thesis using i by (auto simp: not_less [symmetric])
next
  case False
  then have "fl (of_int (end_ms - now_ms) / 3600000) \<le> 0"
    using fl_mono [of "of_int (end_ms - now_ms) / 3600000" 0] by (simp add: divide_le_0_iff)
  then have "depth_below end_ms now_ms (of_int m)" using assms(2) by (simp add: depth_below_def)
  moreover have "end_ms < now_ms + m * 3600000" using False assms(2) by simp
  ultimately show ?thesis by simp
qed

text \<open>Only the guide stage moves the guide.\<close>

lemma extend_one_day_epg: "extend_one_day env t d st w = (st', w', r) \<Longrightarrow> hm_epg_farthest st' = hm_epg_farthest st"
  by (auto simp: extend_one_day_def Let_def split: prod.splits sum.splits dest: ingest_fields)

lemma execution_loop_epg:
  "extend_execution_loop env target t n d st w = (st', w', r) \<Longrightarrow> hm_epg_farthest st' = hm_epg_farthest st"
proof (induction n arbitrary: d st w)
  case (Suc n)
  show ?case
  proof (cases "target \<le> hm_window_end st")
    case False
    obtain st1 w1 q where one: "extend_one_day env t d st w = (st1, w1, q)" by (metis prod_cases3)
    have "hm_epg_farthest st' = hm_epg_farthest st1"
      using Suc False one by (auto split: sum.splits bool.splits)
    then show ?thesis using extend_one_day_epg [OF one] by simp
  qed (use Suc.prems in simp)
qed simp

lemma next_block_epg:
  assumes "check_next_block_ready env cfg t d xs st w = (st', w', r)"
  shows "hm_epg_farthest st' = hm_epg_farthest st"
proof (cases "get_entry_at xs t False \<noteq> None \<or> 0 < hc_locked_window cfg")
  case True
  then show ?thesis using assms unfolding check_next_block_ready_def Let_def by (auto split: if_splits)
next
  case False
  obtain w1 a where a: "he_extend_execution_day env w d = (w1, a)" by fastforce
  show ?thesis
  proof (cases a)
    case (Inr ans)
    obtain st1 q where i: "ingest ans (count_attempt st) = (st1, q)" by fastforce
    show ?thesis using assms False a Inr i ingest_fields [OF i] unfolding check_next_block_ready_def Let_def
      by (auto split: sum.splits if_splits)
  qed (use assms False a in \<open>auto simp: check_next_block_ready_def Let_def split: if_splits\<close>)
qed

lemma proactive_epg:
  assumes "check_proactive_extend env cfg clk t d st w = (st', w')"
  shows "hm_epg_farthest st' = hm_epg_farthest st"
proof (cases "hc_proactive_threshold cfg \<le> 0 \<or> hc_proactive_threshold cfg < hm_window_end st - t")
  case True
  then show ?thesis using assms unfolding check_proactive_extend_def by (auto split: if_splits)
next
  case False
  obtain w1 a where a: "he_extend_execution_day env w (next_execution_date cfg st d) = (w1, a)" by fastforce
  show ?thesis
  proof (cases a)
    case (Inr ans)
    obtain st2 e where p: "publish_answer clk ans (count_attempt (st\<lparr>hm_proactive := True\<rparr>)) = (st2, e)"
      by fastforce
    show ?thesis using assms False a Inr p publish_answer_fields [OF p]
      unfolding check_proactive_extend_def Let_def by (auto split: option.splits if_splits)
  qed (use assms False a in \<open>auto simp: check_proactive_extend_def Let_def split: if_splits\<close>)
qed

lemma then_step_epg:
  assumes "then_step (st1, w1, r1) f = (st', w', r)"
    and "\<And>st' w' r. f st1 w1 = (st', w', r) \<Longrightarrow> hm_epg_farthest st' = hm_epg_farthest st1"
  shows "hm_epg_farthest st' = hm_epg_farthest st1"
  using assms by (cases r1) (auto simp: then_step_def)

lemma last_stages_epg: "last_stages env cfg clk now st w = (st', w', r) \<Longrightarrow> hm_epg_farthest st' = hm_epg_farthest st"
  by (auto simp: last_stages_def seam_stage_def split: prod.splits option.splits dest: proactive_epg)

lemma from_next_block_epg:
  assumes "stages_from_next_block env cfg clk now st w = (st', w', r)"
  shows "hm_epg_farthest st' = hm_epg_farthest st"
proof -
  obtain s1 v1 q1 where c: "next_block_stage env cfg now st w = (s1, v1, q1)" by (metis prod_cases3)
  then have "hm_epg_farthest s1 = hm_epg_farthest st"
    by (auto simp: next_block_stage_def split: option.splits dest: next_block_epg)
  moreover have "hm_epg_farthest st' = hm_epg_farthest s1"
    using assms unfolding stages_from_next_block_def c by (rule then_step_epg) (rule last_stages_epg)
  ultimately show ?thesis by simp
qed

lemma from_execution_epg:
  assumes "stages_from_execution env cfg clk now st w = (st', w', r)"
  shows "hm_epg_farthest st' = hm_epg_farthest st"
proof -
  obtain s1 v1 q1 where c: "execution_stage env cfg now st w = (s1, v1, q1)" by (metis prod_cases3)
  then have "hm_epg_farthest s1 = hm_epg_farthest st"
    by (auto simp: execution_stage_def extend_execution_def split: if_splits dest: execution_loop_epg)
  moreover have "hm_epg_farthest st' = hm_epg_farthest s1"
    using assms unfolding stages_from_execution_def c by (rule then_step_epg) (rule from_next_block_epg)
  ultimately show ?thesis by simp
qed

section \<open>The contract of the planning layers\<close>

text \<open>
  What the manager needs of its providers, on the states \<open>ok\<close> of theirs: the guide calls do not
  raise, a successful day ends at or after the end of that broadcast day, and its entries carry
  their schedule lineage.
\<close>

definition store_open :: "hm_state \<Rightarrow> bool" where
  "store_open st \<longleftrightarrow> (\<forall>xs. hm_store st = Some xs \<longrightarrow> \<not> xs_enforce xs)"

definition new_attempts :: "hm_state \<Rightarrow> hm_state \<Rightarrow> extension_attempt list" where
  "new_attempts st st' = drop (length (hm_log st)) (hm_log st')"

definition reached :: "ms \<Rightarrow> hm_state \<Rightarrow> hm_state \<Rightarrow> bool" where
  "reached target st st' \<longleftrightarrow>
     target \<le> hm_window_end st' \<or> (\<exists>a \<in> set (new_attempts st st'). \<not> ea_success a)"

lemma reached_mono:
  "reached target st st1 \<Longrightarrow> grows st st1 q \<Longrightarrow> grows st1 st2 r \<Longrightarrow> reached target st st2"
  by (auto simp: reached_def grows_def new_attempts_def)

lemma reached_later: "reached target st1 st2 \<Longrightarrow> grows st st1 q \<Longrightarrow> grows st1 st2 r \<Longrightarrow> reached target st st2"
  by (auto simp: reached_def grows_def new_attempts_def)

lemma add_entries_open:
  assumes "\<not> xs_enforce xs" and "\<And>x. x \<in> set es \<Longrightarrow> check_lineage False x = Inr ()"
  shows "snd (add_entries xs es) = Inr ()" and "\<not> xs_enforce (fst (add_entries xs es))"
proof -
  have "for_check (check_lineage (xs_enforce xs)) es = Inr ()" using assms by (simp add: for_check_ok_iff)
  then show "snd (add_entries xs es) = Inr ()" "\<not> xs_enforce (fst (add_entries xs es))"
    using assms(1) by (simp_all add: add_entries_def Let_def)
qed

locale day_planner =
  fixes env :: "'w horizon_env" and ok :: "'w \<Rightarrow> bool" and h :: int
  assumes exists_ok: "ok w \<Longrightarrow> he_epg_day_exists env w d = (w', b) \<Longrightarrow> ok w' \<and> (\<exists>x. b = Inr x)"
    and extend_ok: "ok w \<Longrightarrow> he_extend_epg_day env w d = (w', u) \<Longrightarrow> ok w' \<and> u = Inr ()"
    and answer_ok: "ok w \<Longrightarrow> he_extend_execution_day env w d = (w', a) \<Longrightarrow> ok w'"
    and day_covered: "ok w \<Longrightarrow> he_extend_execution_day env w d = (w', Inr ans) \<Longrightarrow> \<bar>d\<bar> \<le> 2 ^ 22
      \<Longrightarrow> day_end_utc_ms h d \<le> answer_end ans"
    and lineage: "ok w \<Longrightarrow> he_extend_execution_day env w d = (w', Inr (DayResult e es)) \<Longrightarrow> x \<in> set es
      \<Longrightarrow> check_lineage False x = Inr ()"
begin

lemma ingest_ok:
  assumes "ok w" and "he_extend_execution_day env w d = (w', Inr ans)" and "store_open st"
    and "ingest ans st = (st', r)"
  shows "r = Inr () \<and> store_open st'"
proof (cases ans)
  case (DayResult e es)
  show ?thesis
  proof (cases "hm_store st")
    case (Some xs)
    have lin: "check_lineage False x = Inr ()" if "x \<in> set es" for x
      using lineage [OF assms(1) assms(2) [unfolded DayResult] that] .
    obtain xs' q where add: "add_entries xs es = (xs', q)" by fastforce
    have "\<not> xs_enforce xs" using assms(3) Some by (simp add: store_open_def)
    from add_entries_open [of xs es, OF this lin] add have "q = Inr ()" "\<not> xs_enforce xs'" by simp_all
    then show ?thesis using assms(4) DayResult Some add by (auto simp: store_open_def)
  qed (use assms DayResult in \<open>auto simp: store_open_def\<close>)
qed (use assms in auto)

lemma one_day:
  assumes "ok w" "store_open st" "extend_one_day env t d st w = (st', w', r)"
  shows "ok w' \<and> store_open st' \<and> (\<exists>b. r = Inr b
    \<and> (b \<and> \<bar>d\<bar> \<le> 2 ^ 22 \<longrightarrow> day_end_utc_ms h d \<le> hm_window_end st')
    \<and> (\<not> b \<longrightarrow> (\<exists>a \<in> set (new_attempts st st'). \<not> ea_success a)))"
proof -
  obtain w1 a where a: "he_extend_execution_day env w d = (w1, a)" by fastforce
  note w1 = answer_ok [OF assms(1) a]
  show ?thesis
  proof (cases a)
    case (Inl err)
    then have "st' = log_failure t (hm_window_end st) err (count_attempt st)" "w' = w1" "r = Inr False"
      using assms(3) a by (simp_all add: extend_one_day_def Let_def)
    then show ?thesis using assms(2) w1
      by (intro conjI exI [of _ False]) (simp_all add: store_open_def new_attempts_def)
  next
    case (Inr ans)
    obtain st1 q where i: "ingest ans (count_attempt st) = (st1, q)" by fastforce
    have "store_open (count_attempt st)" using assms(2) by (simp add: store_open_def)
    from ingest_ok [OF assms(1) a [unfolded Inr] this i] have "q = Inr ()" "store_open st1" by simp_all
    moreover have "\<bar>d\<bar> \<le> 2 ^ 22 \<longrightarrow> day_end_utc_ms h d \<le> answer_end ans" using assms(1) a Inr day_covered by blast
    moreover have "st' = log_success t (hm_window_end st) (raise_window_end (answer_end ans) st1)"
        "w' = w1" "r = Inr True"
      using assms(3) a Inr i \<open>q = Inr ()\<close> by (simp_all add: extend_one_day_def Let_def)
    ultimately show ?thesis using w1
      by (intro conjI exI [of _ True]) (simp_all add: store_open_def le_max_iff_disj)
  qed
qed

lemma execution_loop:
  assumes "ok w" "store_open st" "extend_execution_loop env target t n d st w = (st', w', r)"
  shows "ok w' \<and> store_open st' \<and> r = Inr ()
    \<and> (target \<le> hm_window_end st
        \<or> (0 < n \<and> \<bar>d + int n - 1\<bar> \<le> 2 ^ 22 \<and> target \<le> day_end_utc_ms h (d + int n - 1)) \<longrightarrow> reached target st st')"
  using assms
proof (induction n arbitrary: d st w)
  case (Suc n)
  show ?case
  proof (cases "target \<le> hm_window_end st")
    case low: False
    obtain st1 w1 q where one: "extend_one_day env t d st w = (st1, w1, q)" by (metis prod_cases3)
    note g = extend_one_day_grows [OF one]
    from one_day [OF Suc.prems(1,2) one] obtain b where b: "ok w1" "store_open st1" "q = Inr b"
      "b \<and> \<bar>d\<bar> \<le> 2 ^ 22 \<longrightarrow> day_end_utc_ms h d \<le> hm_window_end st1"
      "\<not> b \<longrightarrow> (\<exists>a \<in> set (new_attempts st st1). \<not> ea_success a)" by blast
    show ?thesis
    proof (cases b)
      case True
      have run: "extend_execution_loop env target t n (d + 1) st1 w1 = (st', w', r)"
        using Suc.prems(3) low one b(3) True by simp
      note IH = Suc.IH [OF b(1,2) run]
      have "reached target st1 st'"
        if "target \<le> day_end_utc_ms h (d + int (Suc n) - 1)" "\<bar>d + int (Suc n) - 1\<bar> \<le> 2 ^ 22"
      proof (cases n)
        case 0
        then have "target \<le> hm_window_end st1" using that b(4) True by simp
        then show ?thesis using IH by blast
      next
        case (Suc m)
        then show ?thesis using IH that by (simp add: algebra_simps)
      qed
      moreover have "grows st1 st' r" by (rule extend_execution_loop_grows [OF run])
      ultimately show ?thesis using IH g low reached_later by blast
    next
      case False
      then have "st' = st1" "w' = w1" "r = Inr ()" using Suc.prems(3) low one b(3) by simp_all
      then show ?thesis using b False by (auto simp: reached_def)
    qed
  qed (use Suc.prems in \<open>auto simp: reached_def\<close>)
qed (auto simp: reached_def)

lemma epg_loop:
  assumes "ok w" "h = hc_start_hour cfg" "extend_epg_loop env cfg target n d st w = (st', w', r)"
  shows "ok w' \<and> r = Inr () \<and> (target \<le> epg_window_end_utc_ms cfg st
      \<or> (0 < n \<and> target \<le> day_end_utc_ms h (d + int n - 1)) \<longrightarrow> target \<le> epg_window_end_utc_ms cfg st')"
  using assms
proof (induction n arbitrary: d st w)
  case (Suc n)
  show ?case
  proof (cases "target \<le> epg_window_end_utc_ms cfg st")
    case low: False
    let ?st = "st\<lparr>hm_epg_farthest := Some d\<rparr>"
    obtain w1 b where e: "he_epg_day_exists env w d = (w1, b)" by fastforce
    then obtain x where x: "ok w1" "b = Inr x" using exists_ok [OF Suc.prems(1)] by blast
    obtain w2 where w2: "(if x then (w1, Inr ()) else he_extend_epg_day env w1 d) = (w2, Inr ())" "ok w2"
    proof (cases x)
      case False
      obtain w2 u where "he_extend_epg_day env w1 d = (w2, u)" by fastforce
      then show ?thesis using that [of w2] extend_ok [OF x(1)] False by auto
    qed (use x that in simp)
    have run: "extend_epg_loop env cfg target n (d + 1) ?st w2 = (st', w', r)"
      using Suc.prems(3) low e x(2) w2(1) by (simp split: if_splits)
    note IH = Suc.IH [OF w2(2) Suc.prems(2) run]
    have "epg_window_end_utc_ms cfg ?st = day_end_utc_ms h d"
      using Suc.prems(2) by (simp add: epg_window_end_utc_ms_def)
    then have "target \<le> epg_window_end_utc_ms cfg st'" if "target \<le> day_end_utc_ms h (d + int (Suc n) - 1)"
      using IH that by (cases n) (simp_all add: algebra_simps)
    then show ?thesis using IH low by blast
  qed (use Suc.prems in auto)
qed auto

lemma next_block_ok:
  assumes "ok w" "store_open st" "hm_store st = Some xs"
    "check_next_block_ready env cfg t d xs st w = (st', w', r)"
  shows "ok w' \<and> store_open st' \<and> r = Inr ()"
proof (cases "get_entry_at xs t False \<noteq> None \<or> 0 < hc_locked_window cfg")
  case True
  then show ?thesis using assms unfolding check_next_block_ready_def Let_def
    by (auto simp: store_open_def split: if_splits)
next
  case False
  obtain w1 a where a: "he_extend_execution_day env w d = (w1, a)" by fastforce
  note w1 = answer_ok [OF assms(1) a]
  show ?thesis
  proof (cases a)
    case (Inl err)
    then show ?thesis using assms False a w1 unfolding check_next_block_ready_def Let_def
      by (auto simp: store_open_def)
  next
    case (Inr ans)
    obtain st1 q where i: "ingest ans (count_attempt st) = (st1, q)" by fastforce
    have "store_open (count_attempt st)" using assms(2) by (simp add: store_open_def)
    from ingest_ok [OF assms(1) a [unfolded Inr] this i] have "q = Inr ()" "store_open st1" by simp_all
    then show ?thesis using assms False a Inr i w1 unfolding check_next_block_ready_def Let_def
      by (auto simp: store_open_def split: if_splits)
  qed
qed

lemma publish_answer_open: "store_open st \<Longrightarrow> publish_answer clk ans st = (st', e) \<Longrightarrow> store_open st'"
  by (cases ans) (auto simp: store_open_def allocate_generation_id_def Let_def
      split: option.splits list.splits prod.splits dest: publish_keeps_enforce)

lemma proactive_ok:
  assumes "ok w" "store_open st" "check_proactive_extend env cfg clk t d st w = (st', w')"
  shows "ok w' \<and> store_open st'"
proof (cases "hc_proactive_threshold cfg \<le> 0 \<or> hc_proactive_threshold cfg < hm_window_end st - t")
  case True
  then show ?thesis using assms unfolding check_proactive_extend_def by (auto split: if_splits)
next
  case False
  obtain w1 a where a: "he_extend_execution_day env w (next_execution_date cfg st d) = (w1, a)" by fastforce
  note w1 = answer_ok [OF assms(1) a]
  let ?st1 = "count_attempt (st\<lparr>hm_proactive := True\<rparr>)"
  have o: "store_open ?st1" using assms(2) by (simp add: store_open_def)
  show ?thesis
  proof (cases a)
    case (Inl err)
    then show ?thesis using assms False a w1 unfolding check_proactive_extend_def Let_def
      by (auto simp: store_open_def)
  next
    case (Inr ans)
    obtain st2 e where p: "publish_answer clk ans ?st1 = (st2, e)" by fastforce
    have "store_open st2" using publish_answer_open [OF o p] .
    then show ?thesis using assms False a Inr p w1 unfolding check_proactive_extend_def Let_def
      by (auto simp: store_open_def split: option.splits)
  qed
qed

lemma execution_stage_ok:
  assumes "ok w" "store_open st" "execution_stage env cfg now st w = (st', w', r)"
  shows "ok w' \<and> store_open st' \<and> r = Inr ()"
  using assms execution_loop [OF assms(1,2)] unfolding execution_stage_def extend_execution_def
  by (auto split: if_splits)

lemma epg_stage_ok:
  assumes "ok w" "store_open st" "h = hc_start_hour cfg" "epg_stage env cfg now st w = (st', w', r)"
  shows "ok w' \<and> store_open st' \<and> r = Inr ()"
proof -
  have "hm_store st' = hm_store st" using epg_stage_grows [OF assms(4)] by simp
  then have "store_open st'" using assms(2) by (simp add: store_open_def)
  then show ?thesis using assms epg_loop [OF assms(1,3)] unfolding epg_stage_def extend_epg_def
    by (auto split: if_splits)
qed

lemma next_block_stage_ok:
  assumes "ok w" "store_open st" "next_block_stage env cfg now st w = (st', w', r)"
  shows "ok w' \<and> store_open st' \<and> r = Inr ()"
proof (cases "hm_store st")
  case (Some xs)
  then show ?thesis using assms next_block_ok [OF assms(1,2) Some] by (simp add: next_block_stage_def)
qed (use assms in \<open>simp add: next_block_stage_def\<close>)

text \<open>With such providers no evaluation raises, and its stages run one after the other.\<close>

lemma evaluation:
  assumes "ok w" "store_open st" "h = hc_start_hour cfg" "evaluate_once env cfg clk now st w = (st', w', r)"
  obtains s1 w1 s2 w2 where "r = Inr ()" "ok w'" "store_open st'"
    and "epg_stage env cfg now (begin_evaluation now st) w = (s1, w1, Inr ())" "ok w1" "store_open s1"
    and "execution_stage env cfg now s1 w1 = (s2, w2, Inr ())" "ok w2" "store_open s2"
    and "stages_from_next_block env cfg clk now s2 w2 = (st', w', Inr ())"
    and "hm_epg_farthest st' = hm_epg_farthest s1"
proof -
  have o: "store_open (begin_evaluation now st)" using assms(2) by (simp add: store_open_def)
  obtain s1 w1 r1 where 1: "epg_stage env cfg now (begin_evaluation now st) w = (s1, w1, r1)" by (metis prod_cases3)
  note ok1 = epg_stage_ok [OF assms(1) o assms(3) 1]
  obtain s2 w2 r2 where 2: "execution_stage env cfg now s1 w1 = (s2, w2, r2)" by (metis prod_cases3)
  have ok2: "ok w2 \<and> store_open s2 \<and> r2 = Inr ()" using execution_stage_ok [OF _ _ 2] ok1 by blast
  obtain s3 w3 r3 where 3: "next_block_stage env cfg now s2 w2 = (s3, w3, r3)" by (metis prod_cases3)
  have ok3: "ok w3 \<and> store_open s3 \<and> r3 = Inr ()" using next_block_stage_ok [OF _ _ 3] ok2 by blast
  have run: "stages_from_execution env cfg clk now s1 w1 = (st', w', r)"
    using assms(4) ok1 by (simp add: evaluate_stages 1 then_step_def)
  then have run2: "stages_from_next_block env cfg clk now s2 w2 = (st', w', r)"
    using ok2 by (simp add: stages_from_execution_def 2 then_step_def)
  then have last: "last_stages env cfg clk now s3 w3 = (st', w', r)"
    using ok3 by (simp add: stages_from_next_block_def 3 then_step_def)
  have o3: "store_open (seam_stage s3)" using ok3 by (simp add: store_open_def seam_stage_def split: option.splits)
  obtain s4 w4 where 4: "check_proactive_extend env cfg clk (to_epoch_ms now)
      (broadcast_date_for (hc_start_hour cfg) now) (seam_stage s3) w3 = (s4, w4)" by fastforce
  have e: "st' = s4" "w' = w4" "r = Inr ()" using last by (simp_all add: last_stages_def 4)
  have ok4: "ok w4 \<and> store_open s4" using proactive_ok [OF _ o3 4] ok3 by blast
  have q: "r1 = Inr ()" "r2 = Inr ()" using ok1 ok2 by simp_all
  show thesis
  proof (rule that)
    show "epg_stage env cfg now (begin_evaluation now st) w = (s1, w1, Inr ())" using 1 q by simp
    show "execution_stage env cfg now s1 w1 = (s2, w2, Inr ())" using 2 q by simp
    show "stages_from_next_block env cfg clk now s2 w2 = (st', w', Inr ())" using run2 e by simp
    show "hm_epg_farthest st' = hm_epg_farthest s1" by (rule from_execution_epg [OF run])
  qed (use ok1 ok2 ok4 e in simp_all)
qed

text \<open>
  How far the thirty days of one evaluation carry: minimum depths of at most 29 days are reached
  from an empty horizon or from one that has not fallen behind the present.
\<close>

lemma epg_restored:
  assumes "ok w" "h = hc_start_hour cfg" "0 \<le> h" "h < 24"
    and now: "1000 * (2 ^ 40 + 1) \<le> now" "now < 1000000 * (2 ^ 31 - 1)"
    and m: "0 < hc_min_epg_days cfg" "hc_min_epg_days cfg \<le> 29"
    and f: "\<And>f. hm_epg_farthest st = Some f \<Longrightarrow> broadcast_date_for h now \<le> f + 1 \<and> f \<le> 2 ^ 20"
    and stage: "epg_stage env cfg now st w = (st', w', r)"
  shows "to_epoch_ms now + hc_min_epg_days cfg * 24 * 3600000 \<le> epg_window_end_utc_ms cfg st'"
proof -
  let ?bd = "broadcast_date_for h now" and ?m = "hc_min_epg_days cfg * 24"
  have bd: "0 \<le> ?bd" "?bd \<le> 2 ^ 20"
    using broadcast_date_bounds [OF assms(3,4), of now] now assms(3,4) by (simp_all add: combine_def us_defs)
  have nm: "to_epoch_ms now = now div 1000" by (rule to_epoch_ms_present [OF now])
  have nb: "to_epoch_ms now \<le> (?bd + 1) * 86400000 + h * 3600000"
    using now_before_day_end [OF assms(3,4), of now] day_end_exact [OF assms(3,4), of ?bd] bd by simp
  have efl: "fl (of_int (hc_min_epg_days cfg) * 24) = of_int ?m"
    using fl_of_int [of ?m] m by simp
  have small: "epg_window_end_utc_ms cfg st - to_epoch_ms now < 2 ^ 53"
  proof (cases "hm_epg_farthest st")
    case (Some d)
    then have "\<bar>d\<bar> \<le> 2 ^ 21" using f [OF Some] bd by (simp add: abs_le_iff)
    then show ?thesis using day_end_exact [OF assms(3,4), of d] f [OF Some] now assms(2,4) Some nm
      by (simp add: epg_window_end_utc_ms_def)
  qed (use now nm in \<open>simp add: epg_window_end_utc_ms_def\<close>)
  have "0 < ?m" using m by simp
  from depth_below_exact [OF small this]
  have below: "depth_below (epg_window_end_utc_ms cfg st) (to_epoch_ms now) (fl (of_int (hc_min_epg_days cfg) * 24))
      \<longleftrightarrow> epg_window_end_utc_ms cfg st < to_epoch_ms now + ?m * 3600000"
    unfolding efl .
  show ?thesis
  proof (cases "epg_window_end_utc_ms cfg st < to_epoch_ms now + ?m * 3600000")
    case False
    then have "st' = st" using stage below by (simp add: epg_stage_def)
    then show ?thesis using False by simp
  next
    case True
    define d where "d = (case hm_epg_farthest st of Some d \<Rightarrow> d + 1 | None \<Rightarrow> ?bd)"
    have d: "?bd \<le> d" "d \<le> 2 ^ 20 + 1" using f bd unfolding d_def by (auto split: option.splits)
    have run: "extend_epg_loop env cfg (to_epoch_ms now + ?m * 3600000) max_extension_days d st w = (st', w', r)"
      using stage below True unfolding epg_stage_def extend_epg_def d_def assms(2) by simp
    have "day_end_utc_ms h (d + 29) = (d + 30) * 86400000 + h * 3600000"
      using day_end_exact [OF assms(3,4), of "d + 29"] d bd by simp
    moreover have "?m * 3600000 \<le> 29 * 86400000" using m by simp
    ultimately have "to_epoch_ms now + ?m * 3600000 \<le> day_end_utc_ms h (d + 29)"
      using nb d(1) by simp
    then have "to_epoch_ms now + ?m * 3600000 \<le> day_end_utc_ms h (d + int max_extension_days - 1)"
      by (simp add: max_extension_days_def add.commute)
    moreover have "0 < max_extension_days" by (simp add: max_extension_days_def)
    ultimately show ?thesis using epg_loop [OF assms(1,2) run] by blast
  qed
qed

lemma execution_restored:
  assumes "ok w" "store_open st" "h = hc_start_hour cfg" "0 \<le> h" "h < 24"
    and now: "1000 * (2 ^ 40 + 1) \<le> now" "now < 1000000 * (2 ^ 31 - 1)"
    and m: "0 < hc_min_execution_hours cfg" "hc_min_execution_hours cfg \<le> 29 * 24"
    and e: "hm_window_end st = 0 \<or> to_epoch_ms now \<le> hm_window_end st \<and> hm_window_end st < 1000 * (2 ^ 31 - 1)"
    and stage: "execution_stage env cfg now st w = (st', w', r)"
  shows "reached (to_epoch_ms now + hc_min_execution_hours cfg * 3600000) st st'"
proof -
  let ?bd = "broadcast_date_for h now" and ?m = "hc_min_execution_hours cfg" and ?e = "hm_window_end st"
  let ?d = "next_execution_date cfg st ?bd"
  have bd: "0 \<le> ?bd" "?bd \<le> 2 ^ 20"
    using broadcast_date_bounds [OF assms(4,5), of now] now assms(4,5) by (simp_all add: combine_def us_defs)
  have nm: "to_epoch_ms now = now div 1000" by (rule to_epoch_ms_present [OF now])
  then have n40: "2 ^ 40 < to_epoch_ms now" using now by simp
  have "?e - to_epoch_ms now < 2 ^ 53" using e n40 by auto
  from depth_below_exact [OF this m(1)]
  have below: "depth_below ?e (to_epoch_ms now) (of_int ?m) \<longleftrightarrow> ?e < to_epoch_ms now + ?m * 3600000" .
  show ?thesis
  proof (cases "?e < to_epoch_ms now + ?m * 3600000")
    case False
    then have "st' = st" using stage below by (simp add: execution_stage_def)
    then show ?thesis using False by (simp add: reached_def)
  next
    case True
    have d: "to_epoch_ms now \<le> day_end_utc_ms h ?d \<and> \<bar>?d\<bar> \<le> 2 ^ 20 + 1"
    proof (cases "?e = 0")
      case True
      then have "?d = ?bd" by (simp add: next_execution_date_def)
      then show ?thesis using now_before_day_end [OF assms(4,5), of now] bd by simp
    next
      case False
      then have r: "2 ^ 40 < ?e" "?e < 1000 * (2 ^ 31 - 1)" "to_epoch_ms now \<le> ?e" using e n40 by auto
      let ?nd = "broadcast_date_for h (?e * 1000)"
      have b: "combine ?nd (h * us_per_hour) \<le> ?e * 1000" "?e * 1000 < combine ?nd (h * us_per_hour) + us_per_day"
        by (rule broadcast_date_bounds [OF assms(4,5)])+
      then have nd: "0 \<le> ?nd" "?nd \<le> 2 ^ 20" using r assms(4,5) by (simp_all add: combine_def us_defs)
      have D: "day_end_utc_ms h ?nd = (?nd + 1) * 86400000 + h * 3600000"
        using day_end_exact [OF assms(4,5), of ?nd] nd by simp
      have "?e < day_end_utc_ms h ?nd" using b(2) unfolding D by (simp add: combine_def us_defs)
      moreover have "?d = ?nd"
        using False r calculation assms(3) from_epoch_ms_present [OF r(1,2)]
        by (simp add: next_execution_date_def Let_def)
      ultimately show ?thesis using r(3) nd by simp
    qed
    have run: "extend_execution_loop env (to_epoch_ms now + ?m * 3600000) (to_epoch_ms now) max_extension_days ?d st w
        = (st', w', r)"
      using stage below True assms(3) unfolding execution_stage_def extend_execution_def by simp
    have "\<bar>?d + 29\<bar> \<le> 2 ^ 21" using d by (simp add: abs_le_iff)
    then have "day_end_utc_ms h (?d + 29) = day_end_utc_ms h ?d + 29 * 86400000"
      using day_end_exact [OF assms(4,5), of "?d + 29"] day_end_exact [OF assms(4,5), of ?d] d by simp
    moreover have "?m * 3600000 \<le> 29 * 86400000" using m by simp
    ultimately have "to_epoch_ms now + ?m * 3600000 \<le> day_end_utc_ms h (?d + 29)" using d by linarith
    then have "to_epoch_ms now + ?m * 3600000 \<le> day_end_utc_ms h (?d + int max_extension_days - 1)"
      by (simp add: max_extension_days_def add.commute)
    moreover have "0 < max_extension_days" "\<bar>?d + int max_extension_days - 1\<bar> \<le> 2 ^ 22"
      using \<open>\<bar>?d + 29\<bar> \<le> 2 ^ 21\<close> by (simp_all add: max_extension_days_def add.commute abs_le_iff)
    ultimately show ?thesis using execution_loop [OF assms(1,2) run] by blast
  qed
qed

lemma depth_stages:
  assumes "ok w" "store_open st" "h = hc_start_hour cfg" "0 \<le> h" "h < 24"
    and "1000 * (2 ^ 40 + 1) \<le> now" "now < 1000000 * (2 ^ 31 - 1)"
    and "0 < hc_min_epg_days cfg" "hc_min_epg_days cfg \<le> 29"
    and "0 < hc_min_execution_hours cfg" "hc_min_execution_hours cfg \<le> 29 * 24"
    and "\<And>f. hm_epg_farthest st = Some f \<Longrightarrow> broadcast_date_for h now \<le> f + 1 \<and> f \<le> 2 ^ 20"
    and "hm_window_end st = 0 \<or> to_epoch_ms now \<le> hm_window_end st \<and> hm_window_end st < 1000 * (2 ^ 31 - 1)"
    and run: "evaluate_once env cfg clk now st w = (st', w', r)"
  obtains s1 w1 s2 w2 where "r = Inr ()"
    and "to_epoch_ms now + hc_min_epg_days cfg * 24 * 3600000 \<le> epg_window_end_utc_ms cfg st'"
    and "execution_stage env cfg now s1 w1 = (s2, w2, Inr ())" "ok w1" "store_open s1"
    and "hm_log s1 = hm_log st" "hm_window_end s1 = hm_window_end st" "grows s2 st' (Inr () :: unit res)"
    and "reached (to_epoch_ms now + hc_min_execution_hours cfg * 3600000) s1 s2"
  using assms(1-3) run
proof (rule evaluation)
  fix s1 w1 s2 w2
  assume r: "r = Inr ()" and 1: "epg_stage env cfg now (begin_evaluation now st) w = (s1, w1, Inr ())" "ok w1" "store_open s1"
    and 2: "execution_stage env cfg now s1 w1 = (s2, w2, Inr ())"
    and 3: "stages_from_next_block env cfg clk now s2 w2 = (st', w', Inr ())"
    and far: "hm_epg_farthest st' = hm_epg_farthest s1"
  have g1: "hm_window_end s1 = hm_window_end st" "hm_log s1 = hm_log st" using epg_stage_grows [OF 1(1)] by simp_all
  have "to_epoch_ms now + hc_min_epg_days cfg * 24 * 3600000 \<le> epg_window_end_utc_ms cfg s1"
    by (rule epg_restored [OF assms(1,3-9) _ 1(1)]) (use assms(12) in simp)
  then have e: "to_epoch_ms now + hc_min_epg_days cfg * 24 * 3600000 \<le> epg_window_end_utc_ms cfg st'"
    using far by (simp add: epg_window_end_utc_ms_def)
  have "reached (to_epoch_ms now + hc_min_execution_hours cfg * 3600000) s1 s2"
    by (rule execution_restored [OF 1(2,3) assms(3-7,10,11) _ 2]) (use assms(13) g1 in simp)
  with r e 2 1(2,3) g1(2,1) from_next_block_grows [OF 3] show thesis by (rule that)
qed

end

text \<open>Providers that never fail a day.\<close>

locale reliable_planner = day_planner +
  assumes answers: "ok w \<Longrightarrow> he_extend_execution_day env w d = (w', a) \<Longrightarrow> \<exists>ans. a = Inr ans"
begin

lemma one_day_succeeds:
  assumes "ok w" "store_open st" "extend_one_day env t d st w = (st', w', r)"
  shows "r = Inr True \<and> (\<exists>a. hm_log st' = hm_log st @ [a] \<and> ea_success a)"
proof -
  obtain w1 a where a: "he_extend_execution_day env w d = (w1, a)" by fastforce
  then obtain ans where ans: "a = Inr ans" using answers [OF assms(1)] by blast
  obtain st1 q where i: "ingest ans (count_attempt st) = (st1, q)" by fastforce
  have "store_open (count_attempt st)" using assms(2) by (simp add: store_open_def)
  from ingest_ok [OF assms(1) a [unfolded ans] this i] have "q = Inr ()" by simp
  then have "st' = log_success t (hm_window_end st) (raise_window_end (answer_end ans) st1)" "r = Inr True"
    using assms(3) a ans i by (simp_all add: extend_one_day_def Let_def)
  then show ?thesis using ingest_fields [OF i] by simp
qed

lemma execution_loop_succeeds:
  assumes "ok w" "store_open st" "extend_execution_loop env target t n d st w = (st', w', r)"
  shows "\<exists>as. hm_log st' = hm_log st @ as \<and> (\<forall>a \<in> set as. ea_success a)"
  using assms
proof (induction n arbitrary: d st w)
  case (Suc n)
  show ?case
  proof (cases "target \<le> hm_window_end st")
    case False
    obtain st1 w1 q where one: "extend_one_day env t d st w = (st1, w1, q)" by (metis prod_cases3)
    note s = one_day_succeeds [OF Suc.prems(1,2) one]
    have k: "ok w1" "store_open st1" using one_day [OF Suc.prems(1,2) one] by simp_all
    have "extend_execution_loop env target t n (d + 1) st1 w1 = (st', w', r)" using Suc.prems(3) False one s by simp
    from Suc.IH [OF k this] s show ?thesis by (elim exE conjE) simp
  qed (use Suc.prems(3) in simp)
qed simp

text \<open>With such providers one evaluation restores both horizons.\<close>

lemma depth_restored:
  assumes "ok w" "store_open st" "h = hc_start_hour cfg" "0 \<le> h" "h < 24"
    and "1000 * (2 ^ 40 + 1) \<le> now" "now < 1000000 * (2 ^ 31 - 1)"
    and "0 < hc_min_epg_days cfg" "hc_min_epg_days cfg \<le> 29"
    and "0 < hc_min_execution_hours cfg" "hc_min_execution_hours cfg \<le> 29 * 24"
    and "\<And>f. hm_epg_farthest st = Some f \<Longrightarrow> broadcast_date_for h now \<le> f + 1 \<and> f \<le> 2 ^ 20"
    and "hm_window_end st = 0 \<or> to_epoch_ms now \<le> hm_window_end st \<and> hm_window_end st < 1000 * (2 ^ 31 - 1)"
    and run: "evaluate_once env cfg clk now st w = (st', w', r)"
  shows "r = Inr () \<and> to_epoch_ms now + hc_min_epg_days cfg * 24 * 3600000 \<le> epg_window_end_utc_ms cfg st'
    \<and> to_epoch_ms now + hc_min_execution_hours cfg * 3600000 \<le> hm_window_end st'"
  using assms
proof (rule depth_stages)
  fix s1 w1 s2 w2
  let ?target = "to_epoch_ms now + hc_min_execution_hours cfg * 3600000"
  assume r: "r = Inr ()" and e: "to_epoch_ms now + hc_min_epg_days cfg * 24 * 3600000 \<le> epg_window_end_utc_ms cfg st'"
    and x: "execution_stage env cfg now s1 w1 = (s2, w2, Inr ())" "ok w1" "store_open s1"
    and g: "grows s2 st' (Inr () :: unit res)" and reach: "reached ?target s1 s2"
  have "\<exists>as. hm_log s2 = hm_log s1 @ as \<and> (\<forall>a \<in> set as. ea_success a)"
    using x(1) execution_loop_succeeds [OF x(2,3)]
    by (auto simp: execution_stage_def extend_execution_def split: if_splits)
  then have "?target \<le> hm_window_end s2" using reach by (auto simp: reached_def new_attempts_def)
  then show ?thesis using r e g by (simp add: grows_def)
qed

end


section \<open>Worked example\<close>

text \<open>Providers that know every guide day and fail every execution day.\<close>

definition failing_env :: "unit horizon_env" where
  "failing_env = \<lparr>he_epg_day_exists = (\<lambda>w d. (w, Inr True)), he_extend_epg_day = (\<lambda>w d. (w, Inr ())),
     he_extend_execution_day = (\<lambda>w d. (w, Inl ''NO_SCHEDULE''))\<rparr>"

text \<open>Providers whose entries name no channel.\<close>

definition anonymous_env :: "unit horizon_env" where
  "anonymous_env = failing_env\<lparr>he_extend_execution_day :=
     (\<lambda>w d. (w, Inr (DayResult 100 [(demo_entry ''b'' 0 100 False)\<lparr>xe_channel := []\<rparr>])))\<rparr>"

definition demo_horizon_config :: hm_config where
  "demo_horizon_config = \<lparr>hc_min_epg_days = 3, hc_min_execution_hours = 6, hc_interval = 3600,
     hc_start_hour = 6, hc_locked_window = 0, hc_proactive_threshold = 0\<rparr>"

section \<open>Properties\<close>

text \<open>
  C22. Whatever the planning layers answer, an evaluation never moves the end of the execution window back
  and only appends to the attempt log.  From a complete log, an evaluation that returns leaves a complete
  account of the window: one numbered entry per attempt, the successes counted, and every entry taking the
  window end from where its predecessor left it, from 0 to the current end.  An evaluation that raises
  leaves either such a log, or one in which only the attempt that raised is missing: it was counted, and the
  counter is one ahead of a log that is complete otherwise.
\<close>

theorem evaluation_keeps_audit:
  assumes "hm_audit st" and "evaluate_once env cfg clk now st w = (st', w', r)"
  shows "hm_window_end st \<le> hm_window_end st' \<and> (\<exists>as. hm_log st' = hm_log st @ as)
    \<and> (case r of
         Inr _ \<Rightarrow> hm_audit st'
       | Inl _ \<Rightarrow> hm_audit st'
           \<or> 0 < hm_attempts st' \<and> hm_audit (st'\<lparr>hm_attempts := hm_attempts st' - 1\<rparr>))"
  using evaluate_grows [OF assms(2)] assms(1) by (auto simp: grows_def counted_not_logged_def split: sum.split)

theorem evaluation_keeps_audit_witness:
  "(\<exists>st'. evaluate_once failing_env demo_horizon_config None 1728022200000000 (init_horizon None) () = (st', (), Inr ())
      \<and> hm_log st' \<noteq> [] \<and> hm_audit st')
    \<and> (\<exists>st' e. evaluate_once anonymous_env demo_horizon_config None 1728022200000000
        (init_horizon (Some (empty_exec_store False None None))) () = (st', (), Inl e)
      \<and> hm_audit (st'\<lparr>hm_attempts := hm_attempts st' - 1\<rparr>))"
proof -
  let ?run = "\<lambda>env st. evaluate_once env demo_horizon_config None 1728022200000000 st ()"
  let ?st = "init_horizon (Some (empty_exec_store False None None))"
  have ok: "snd (snd (?run failing_env (init_horizon None))) = Inr () \<and> hm_log (fst (?run failing_env (init_horizon None))) \<noteq> []"
    by code_simp
  have bad: "(case snd (snd (?run anonymous_env ?st)) of Inl _ \<Rightarrow> True | Inr _ \<Rightarrow> False)
      \<and> hm_attempts (fst (?run anonymous_env ?st)) = 1 \<and> hm_log (fst (?run anonymous_env ?st)) = []"
    by code_simp
  obtain st1 where 1: "?run failing_env (init_horizon None) = (st1, (), Inr ())" "hm_log st1 \<noteq> []"
    using ok by (metis prod.collapse unit.exhaust)
  obtain st2 e where 2: "?run anonymous_env ?st = (st2, (), Inl e)" "hm_attempts st2 = 1" "hm_log st2 = []"
    using bad by (cases "?run anonymous_env ?st") (auto split: sum.splits)
  have "\<not> hm_audit st2" using 2 by (simp add: hm_audit_def)
  then show ?thesis using 1 2(1) evaluation_keeps_audit [OF init_audit 1(1)] evaluation_keeps_audit [OF init_audit 2(1)]
    by auto
qed

text \<open>
  When the store refuses the entries of a day, the exception leaves the loop after the attempt
  has been counted and before it is logged: from a complete log, the counter then runs one ahead of
  the log, which stays so.
\<close>

theorem refused_day_is_not_logged:
  assumes "hm_audit st" and "extend_one_day env now_ms d st w = (st', w', Inl e)"
  shows "hm_log st' = hm_log st \<and> hm_attempts st' = Suc (length (hm_log st')) \<and> \<not> hm_audit st'"
proof -
  obtain w1 a where a: "he_extend_execution_day env w d = (w1, a)" by fastforce
  show ?thesis
  proof (cases a)
    case (Inr ans)
    obtain st1 q where i: "ingest ans (count_attempt st) = (st1, q)" by fastforce
    have "st' = st1" using assms(2) a Inr i by (cases q) (simp_all add: extend_one_day_def Let_def)
    then show ?thesis using ingest_fields [OF i] assms(1) by (simp add: hm_audit_def)
  qed (use assms(2) a in \<open>simp add: extend_one_day_def Let_def\<close>)
qed

theorem refused_day_is_not_logged_witness:
  "\<exists>st'. extend_one_day anonymous_env 0 20000 (init_horizon (Some (empty_exec_store False None None))) ()
      = (st', (), Inl (ValueError ''INV-EXECUTION-DERIVED-FROM-SCHEDULEDAY-001''))
    \<and> hm_attempts st' = Suc (length (hm_log st'))"
proof -
  let ?st = "init_horizon (Some (empty_exec_store False None None))"
  have "\<exists>st'. extend_one_day anonymous_env 0 20000 ?st () =
      (st', (), Inl (ValueError ''INV-EXECUTION-DERIVED-FROM-SCHEDULEDAY-001''))"
    by (simp add: extend_one_day_def Let_def anonymous_env_def count_attempt_def init_horizon_def
        empty_exec_store_def add_entries_def demo_entry_def check_lineage_def)
  then obtain st' where run: "extend_one_day anonymous_env 0 20000 ?st () =
      (st', (), Inl (ValueError ''INV-EXECUTION-DERIVED-FROM-SCHEDULEDAY-001''))" by (elim exE)
  from refused_day_is_not_logged [OF init_audit run] run show ?thesis by blast
qed

text \<open>
  The compliance flags tell the truth: after the check of the next block, its flag is set
  exactly when the store holds an entry for the instant, and after the seam check the coverage flag
  is set exactly when the entries follow each other without gap or overlap, the recorded violations
  being exactly the neighbours that do not meet.
\<close>

theorem compliance_flags_exact:
  assumes "check_next_block_ready env cfg now_ms d xs st w = (st', w', Inr ())" and "hm_store st = Some xs"
  shows "(hm_next_block_ok st' \<longleftrightarrow> (\<exists>xs'. hm_store st' = Some xs' \<and> get_entry_at xs' now_ms False \<noteq> None))
    \<and> (hm_coverage_ok (check_seam_contiguity ys st) \<longleftrightarrow> chained (map xe_span (xs_entries ys)))
    \<and> hm_violations (check_seam_contiguity ys st) = map (\<lambda>(l, r). seam_of l r)
        (filter (\<lambda>(l, r). xe_end l \<noteq> xe_start r) (zip (xs_entries ys) (tl (xs_entries ys))))"
proof (intro conjI next_block_flag [OF assms] coverage_iff)
  show "hm_violations (check_seam_contiguity ys st) = map (\<lambda>(l, r). seam_of l r)
      (filter (\<lambda>(l, r). xe_end l \<noteq> xe_start r) (zip (xs_entries ys) (tl (xs_entries ys))))"
  proof (cases "length (xs_entries ys) < 2")
    case True
    then have "xs_entries ys = [] \<or> (\<exists>e. xs_entries ys = [e])" by (cases "xs_entries ys") (auto simp: Suc_le_eq)
    then show ?thesis by (auto simp: check_seam_contiguity_def)
  qed (simp add: check_seam_contiguity_def Let_def violations_are_seams)
qed

theorem compliance_flags_exact_witness:
  "\<exists>st'. check_next_block_ready failing_env demo_horizon_config 50 0 demo_window (init_horizon (Some demo_window)) ()
      = (st', (), Inr ()) \<and> hm_next_block_ok st'"
proof -
  let ?st = "init_horizon (Some demo_window)"
  have "get_entry_at demo_window 50 False \<noteq> None" by code_simp
  then have run: "check_next_block_ready failing_env demo_horizon_config 50 0 demo_window ?st ()
      = (set_next_block True ?st, (), Inr ())" by (simp add: check_next_block_ready_def Let_def)
  from compliance_flags_exact [OF this] have "hm_next_block_ok (set_next_block True ?st)"
    using \<open>get_entry_at demo_window 50 False \<noteq> None\<close> by (simp add: init_horizon_def)
  with run show ?thesis by blast
qed

end
