(* ===== verification/Horizon_Extenders.thy ===== *)
theory Horizon_Extenders
  imports Horizon_Manager Schedule_Service
begin

text \<open>
  The providers of the horizon manager, \<^verbatim>\<open>_EpgHorizonExtender\<close> and \<^verbatim>\<open>_ExecutionHorizonExtender\<close> of
  \<^verbatim>\<open>runtime/program_director.py\<close>: the first resolves days of a channel through the schedule service,
  the second turns a resolved day into execution entries, block by block, and writes the
  transmission log artifact of the day.  They share one state, the service and the artifacts on
  disk.  The loop over the day returns on a grid of positive length; a call that would not return
  is \<open>None\<close>.  \<open>describe\<close> is \<open>str(exc)\<close>, \<open>tz\<close> the offset of the display time zone, \<open>fresh_id\<close> stands
  for \<open>uuid4\<close>.
\<close>

section \<open>Resolving days for the horizon\<close>

record horizon_world =
  hw_service :: schedule_service
  hw_artifacts :: artifact_store

definition horizon_resolution_time :: "date \<Rightarrow> datetime" where
  "horizon_resolution_time d = combine d (5 * us_per_hour)"

definition epg_day_exists :: "schedule_service \<Rightarrow> string \<Rightarrow> date \<Rightarrow> bool" where
  "epg_day_exists sv channel d = day_exists (ss_resolved (sv_state sv)) channel d"

definition extend_epg_day ::
  "schedule_service \<Rightarrow> string \<Rightarrow> date \<Rightarrow> (schedule_service \<times> unit res) option" where
  "extend_epg_day sv channel d =
     (let slots = loaded_slots sv channel
      in if slots = [] then Some (sv, Inr ())
         else map_option (\<lambda>(st, r). (sv\<lparr>sv_state := st\<rparr>, map_sum id (\<lambda>_. ()) r))
                (resolve_schedule_day (sv_cfg sv) (sv_catalog sv) (sv_state sv) channel d slots
                   (horizon_resolution_time d)))"

text \<open>The first part of \<^verbatim>\<open>extend_execution_day\<close>.\<close>

definition resolve_if_absent ::
  "schedule_service \<Rightarrow> string \<Rightarrow> date \<Rightarrow> (schedule_service \<times> unit res) option" where
  "resolve_if_absent sv channel d =
     (if epg_day_exists sv channel d then Some (sv, Inr ()) else extend_epg_day sv channel d)"

section \<open>Execution entries of a day\<close>

definition extender_segment :: "playout_segment \<Rightarrow> log_segment" where
  "extender_segment s =
     \<lparr>ls_index = None, ls_uri = ps_path s, ls_offset = Some (py_trunc (fl (ps_seek s * 1000))),
      ls_duration = py_trunc (fl (segment_duration_seconds s * 1000)), ls_type = ''episode'',
      ls_event_id = None\<rparr>"

definition extender_pad :: "ms \<Rightarrow> log_segment" where
  "extender_pad pad_ms =
     \<lparr>ls_index = None, ls_uri = None, ls_offset = None, ls_duration = pad_ms, ls_type = ''pad'',
      ls_event_id = None\<rparr>"

definition extender_segments :: "ms \<Rightarrow> program_block \<Rightarrow> log_segment list" where
  "extender_segments block_dur_ms block =
     (let segments = map extender_segment (pb_segments block);
          pad_ms = block_dur_ms - log_total segments
      in if 0 < pad_ms then segments @ [extender_pad pad_ms] else segments)"

definition extender_entry ::
  "sm_config \<Rightarrow> resolved_store \<Rightarrow> string \<Rightarrow> date \<Rightarrow> nat \<Rightarrow> datetime \<Rightarrow> execution_entry" where
  "extender_entry cfg rst channel d block_idx current =
     (let block = get_program_at cfg rst channel current;
          start_ms = to_epoch_ms current;
          block_dur_ms = cfg_grid_minutes cfg * 60 * 1000
      in \<lparr>xe_block_id = channel @ ''-'' @ iso_date d @ ''-b'' @ zero_pad 4 block_idx,
          xe_index = block_idx, xe_start = start_ms, xe_end = start_ms + block_dur_ms,
          xe_segments = extender_segments block_dur_ms block, xe_channel = channel, xe_date = Some d,
          xe_locked = True, xe_log_ref = None, xe_override = False, xe_gen = 0\<rparr>)"

partial_function (option) entry_loop ::
  "sm_config \<Rightarrow> resolved_store \<Rightarrow> string \<Rightarrow> date \<Rightarrow> datetime \<Rightarrow> nat \<Rightarrow> datetime \<Rightarrow> execution_entry list
    \<Rightarrow> execution_entry list option" where
  "entry_loop cfg rst channel d day_end block_idx current entries =
     (if current < day_end
      then entry_loop cfg rst channel d day_end (Suc block_idx) (current + cfg_grid_minutes cfg * 60000000)
             (entries @ [extender_entry cfg rst channel d block_idx current])
      else Some entries)"

declare entry_loop.simps [code]

definition day_entries ::
  "sm_config \<Rightarrow> resolved_store \<Rightarrow> string \<Rightarrow> date \<Rightarrow> execution_entry list option" where
  "day_entries cfg rst channel d =
     (let day_start = combine d (cfg_start_hour cfg * us_per_hour)
      in entry_loop cfg rst channel d (day_start + us_per_day) 0 day_start [])"

definition log_entry_of :: "execution_entry \<Rightarrow> log_entry" where
  "log_entry_of e =
     \<lparr>le_block_id = xe_block_id e, le_index = xe_index e, le_start = xe_start e, le_end = xe_end e,
      le_segments = xe_segments e\<rparr>"

definition extender_log :: "sm_config \<Rightarrow> string \<Rightarrow> date \<Rightarrow> execution_entry list \<Rightarrow> transmission_log" where
  "extender_log cfg channel d entries =
     \<lparr>tl_channel = channel, tl_date = d, tl_entries = map log_entry_of entries, tl_locked = True,
      tl_metadata = \<lparr>md_generation_time = None, md_grid_minutes = Some (cfg_grid_minutes cfg),
        md_start_hour = None, md_locked_at = Some (iso_datetime (horizon_resolution_time d)),
        md_log_id = None\<rparr>\<rparr>"

text \<open>An artifact that exists is left alone.\<close>

definition write_day_artifact ::
  "string \<Rightarrow> (datetime \<Rightarrow> int) \<Rightarrow> (date \<Rightarrow> string) \<Rightarrow> sm_config \<Rightarrow> artifact_store \<Rightarrow> string \<Rightarrow> date
    \<Rightarrow> execution_entry list \<Rightarrow> artifact_store \<times> unit res" where
  "write_day_artifact timezone_display tz fresh_id cfg fs channel d entries =
     (case write_artifact fs channel d (extender_log cfg channel d entries) timezone_display tz
             (horizon_resolution_time d) (fresh_id d) of
        (fs', Inl TransmissionLogArtifactExistsError) \<Rightarrow> (fs', Inr ())
      | (fs', r) \<Rightarrow> (fs', r))"

definition extend_execution_day ::
  "string \<Rightarrow> (datetime \<Rightarrow> int) \<Rightarrow> (date \<Rightarrow> string) \<Rightarrow> string \<Rightarrow> horizon_world \<Rightarrow> date
    \<Rightarrow> (horizon_world \<times> day_answer res) option" where
  "extend_execution_day timezone_display tz fresh_id channel w d =
     (case resolve_if_absent (hw_service w) channel d of
        None \<Rightarrow> None
      | Some (sv, Inl e) \<Rightarrow> Some (w\<lparr>hw_service := sv\<rparr>, Inl e)
      | Some (sv, Inr _) \<Rightarrow>
        (case day_entries (sv_cfg sv) (ss_resolved (sv_state sv)) channel d of
           None \<Rightarrow> None
         | Some entries \<Rightarrow>
           (let end_ms = (if entries = [] then 0 else xe_end (last entries));
                (fs, r) = (if entries = [] then (hw_artifacts w, Inr ())
                           else write_day_artifact timezone_display tz fresh_id (sv_cfg sv) (hw_artifacts w)
                                  channel d entries)
            in Some (\<lparr>hw_service = sv, hw_artifacts = fs\<rparr>,
                     map_sum id (\<lambda>_. DayResult end_ms entries) r))))"

text \<open>
  The two extenders as the manager sees them.  A call that does not return has no value; the
  results below are about services whose grid is positive, where every call returns.
\<close>

definition extender_env ::
  "(exn \<Rightarrow> string) \<Rightarrow> string \<Rightarrow> (datetime \<Rightarrow> int) \<Rightarrow> (date \<Rightarrow> string) \<Rightarrow> string \<Rightarrow> horizon_world horizon_env" where
  "extender_env describe timezone_display tz fresh_id channel =
     \<lparr>he_epg_day_exists = (\<lambda>w d. (w, Inr (epg_day_exists (hw_service w) channel d))),
      he_extend_epg_day = (\<lambda>w d. case the (extend_epg_day (hw_service w) channel d) of
        (sv, r) \<Rightarrow> (w\<lparr>hw_service := sv\<rparr>, r)),
      he_extend_execution_day = (\<lambda>w d. case the (extend_execution_day timezone_display tz fresh_id channel w d) of
        (w', r) \<Rightarrow> (w', map_sum describe id r))\<rparr>"


section \<open>The loop over the day\<close>

lemma entry_loop_result:
  assumes "i \<le> n" "\<forall>j < n. a + int j * G < e" "e \<le> a + int n * G" "G = cfg_grid_minutes cfg * 60000000"
  shows "entry_loop cfg rst c d e i (a + int i * G) acc =
    Some (acc @ map (\<lambda>i. extender_entry cfg rst c d i (a + int i * G)) [i..<n])"
  using assms(1)
proof (induction "n - i" arbitrary: i acc)
  case 0
  then have "i = n" by simp
  then show ?case using assms(3) by (subst entry_loop.simps) simp
next
  case (Suc k)
  then have i: "i < n" and k: "k = n - Suc i" by simp_all
  have next_start: "a + int i * G + cfg_grid_minutes cfg * 60000000 = a + int (Suc i) * G"
    by (simp add: assms(4) distrib_right)
  have "entry_loop cfg rst c d e i (a + int i * G) acc =
      entry_loop cfg rst c d e (Suc i) (a + int (Suc i) * G)
        (acc @ [extender_entry cfg rst c d i (a + int i * G)])"
    using i assms(2) by (subst entry_loop.simps) (simp add: next_start del: of_nat_Suc)
  also have "\<dots> = Some ((acc @ [extender_entry cfg rst c d i (a + int i * G)])
      @ map (\<lambda>i. extender_entry cfg rst c d i (a + int i * G)) [Suc i..<n])"
    using Suc.hyps(1) [OF k] i by simp
  finally show ?case using i by (simp add: upt_conv_Cons)
qed

definition blocks_per_day :: "int \<Rightarrow> nat" where
  "blocks_per_day g = nat ((1440 + g - 1) div g)"

lemma blocks_per_day_bounds:
  assumes "0 < g"
  shows "0 < blocks_per_day g" and "us_per_day \<le> int (blocks_per_day g) * (g * 60000000)"
    and "j < blocks_per_day g \<Longrightarrow> int j * (g * 60000000) < us_per_day"
proof -
  let ?n = "(1440 + g - 1) div g"
  have "1440 + g - 1 = ?n * g + (1440 + g - 1) mod g" by (rule div_mult_mod_eq [symmetric])
  moreover have "0 \<le> (1440 + g - 1) mod g" "(1440 + g - 1) mod g < g" using assms by simp_all
  ultimately have n: "1440 \<le> ?n * g" "?n * g \<le> 1439 + g" by linarith+
  have "0 < ?n"
  proof (rule ccontr)
    assume "\<not> 0 < ?n"
    then have "?n * g \<le> 0" using assms by (intro mult_nonpos_nonneg) simp_all
    with n(1) show False by simp
  qed
  then show "0 < blocks_per_day g" by (simp add: blocks_per_day_def)
  have int_n: "int (blocks_per_day g) = ?n" using \<open>0 < ?n\<close> by (simp add: blocks_per_day_def)
  show "us_per_day \<le> int (blocks_per_day g) * (g * 60000000)"
    unfolding int_n using n(1) by (simp add: us_per_day_def mult.commute)
  assume "j < blocks_per_day g"
  then have "int j + 1 \<le> ?n" using int_n by linarith
  then have "(int j + 1) * g \<le> ?n * g" using assms by (intro mult_right_mono) simp_all
  then have "int j * g < 1440" using n(2) by (simp add: distrib_right)
  then show "int j * (g * 60000000) < us_per_day" by (simp add: us_per_day_def mult.commute)
qed

lemma day_entries_result:
  assumes "0 < cfg_grid_minutes cfg"
  defines "a \<equiv> \<lambda>d. combine d (cfg_start_hour cfg * us_per_hour)"
  shows "day_entries cfg rst c d =
    Some (map (\<lambda>i. extender_entry cfg rst c d i (a d + int i * (cfg_grid_minutes cfg * 60000000)))
           [0..<blocks_per_day (cfg_grid_minutes cfg)])"
proof -
  note b = blocks_per_day_bounds [OF assms(1)]
  show ?thesis
    using entry_loop_result [of 0 "blocks_per_day (cfg_grid_minutes cfg)" "a d" "cfg_grid_minutes cfg * 60000000"
        "a d + us_per_day" cfg rst c d "[]"] b
    by (simp add: day_entries_def Let_def a_def)
qed

section \<open>Milliseconds of the segments\<close>

text \<open>Counting frames and turning them into milliseconds never adds time to a span within a day.\<close>

lemma frames_le:
  assumes "0 \<le> us" "us \<le> us_per_day"
  shows "0 \<le> py_trunc (fl (total_seconds us * 30))" "py_trunc (fl (total_seconds us * 30)) * 100000 \<le> us * 3"
proof -
  define q :: rat where "q = of_int us / 1000000"
  have "(of_int us :: rat) \<le> of_int us_per_day" using assms(2) by (simp only: of_int_le_iff)
  then have q: "0 \<le> q" "q \<le> 86400" using assms(1) by (simp_all add: q_def us_defs)
  have x: "0 \<le> fl q" "fl q \<le> q + q / 2 ^ 53" using fl_nonneg [OF q(1)] fl_le_rel [OF q(1)] by simp_all
  define y where "y = fl (fl q * 30)"
  have y: "0 \<le> y" "y \<le> fl q * 30 + fl q * 30 / 2 ^ 53"
    using fl_nonneg [of "fl q * 30"] fl_le_rel [of "fl q * 30"] x(1) by (simp_all add: y_def)
  have t: "py_trunc (fl (total_seconds us * 30)) = \<lfloor>y\<rfloor>"
    using y(1) by (simp add: total_seconds_def q_def [symmetric] y_def [symmetric] py_trunc_def)
  show "0 \<le> py_trunc (fl (total_seconds us * 30))" using y(1) by (simp add: t)
  have "fl q * 30 \<le> q * 30 + 1 / 1000000" using x(2) q by simp
  moreover have "fl q * 30 / 2 ^ 53 \<le> 1 / 1000000" using x(2) q by simp
  ultimately have "y \<le> q * 30 + 2 / 1000000" using y(2) by linarith
  then have "of_int \<lfloor>y\<rfloor> \<le> q * 30 + 2 / 1000000" using of_int_floor_le [of y] by linarith
  then have "of_int (\<lfloor>y\<rfloor> * 100000) < (of_int (us * 3 + 1) :: rat)" by (simp add: q_def)
  then have "\<lfloor>y\<rfloor> * 100000 < us * 3 + 1" by (simp only: of_int_less_iff)
  then show "py_trunc (fl (total_seconds us * 30)) * 100000 \<le> us * 3" unfolding t by simp
qed

lemma frames_ms_le:
  assumes "0 \<le> n" "n \<le> 2592000"
  shows "0 \<le> py_trunc (fl (fl (of_int n / 30) * 1000))" "py_trunc (fl (fl (of_int n / 30) * 1000)) * 3 \<le> n * 100"
proof -
  define q :: rat where "q = of_int n / 30"
  have "(of_int n :: rat) \<le> of_int 2592000" using assms(2) by (simp only: of_int_le_iff)
  then have q: "0 \<le> q" "q \<le> 86400" using assms(1) by (simp_all add: q_def)
  have x: "0 \<le> fl q" "fl q \<le> q + q / 2 ^ 53" using fl_nonneg [OF q(1)] fl_le_rel [OF q(1)] by simp_all
  define y where "y = fl (fl q * 1000)"
  have y: "0 \<le> y" "y \<le> fl q * 1000 + fl q * 1000 / 2 ^ 53"
    using fl_nonneg [of "fl q * 1000"] fl_le_rel [of "fl q * 1000"] x(1) by (simp_all add: y_def)
  have t: "py_trunc (fl (fl (of_int n / 30) * 1000)) = \<lfloor>y\<rfloor>"
    using y(1) by (simp add: q_def [symmetric] y_def [symmetric] py_trunc_def)
  show "0 \<le> py_trunc (fl (fl (of_int n / 30) * 1000))" using y(1) by (simp add: t)
  have "fl q * 1000 \<le> q * 1000 + 1 / 100" using x(2) q by simp
  moreover have "fl q * 1000 / 2 ^ 53 \<le> 1 / 100" using x(2) q by simp
  ultimately have "y \<le> q * 1000 + 2 / 100" using y(2) by linarith
  then have "of_int \<lfloor>y\<rfloor> \<le> q * 1000 + 2 / 100" using of_int_floor_le [of y] by linarith
  then have "of_int (\<lfloor>y\<rfloor> * 3) < (of_int (n * 100 + 1) :: rat)" by (simp add: q_def)
  then have "\<lfloor>y\<rfloor> * 3 < n * 100 + 1" by (simp only: of_int_less_iff)
  then show "py_trunc (fl (fl (of_int n / 30) * 1000)) * 3 \<le> n * 100" unfolding t by simp
qed

lemma block_segments_frames:
  assumes "s \<in> set (build_segments cfg rst c a b)"
  shows "ps_fps s = 30" "ps_frame_count s = py_trunc (fl (total_seconds (ps_end s - ps_start s) * 30))"
  using assms by (auto simp: build_segments_def Let_def from_time_based_def split: option.splits if_splits)

lemma extender_segment_le:
  assumes "s \<in> set (build_segments cfg rst c a b)" "ps_start s \<le> ps_end s" "ps_end s - ps_start s \<le> us_per_day"
  shows "0 \<le> ls_duration (extender_segment s)" "ls_duration (extender_segment s) * 1000 \<le> ps_end s - ps_start s"
proof -
  note f = block_segments_frames [OF assms(1)]
  let ?u = "ps_end s - ps_start s"
  have u: "0 \<le> ?u" using assms(2) by simp
  note n = frames_le [OF u assms(3)]
  have n2: "0 \<le> ps_frame_count s" "ps_frame_count s * 100000 \<le> ?u * 3" using n by (simp_all add: f(2))
  then have "ps_frame_count s \<le> 2592000" using assms(3) by (simp add: us_per_day_def)
  note m = frames_ms_le [OF n2(1) this]
  have d: "ls_duration (extender_segment s) = py_trunc (fl (fl (of_int (ps_frame_count s) / 30) * 1000))"
    by (simp add: extender_segment_def segment_duration_seconds_def f(1) quotient_of_number)
  show "0 \<le> ls_duration (extender_segment s)" using m(1) by (simp add: d)
  show "ls_duration (extender_segment s) * 1000 \<le> ?u" using m(2) n2(2) unfolding d by simp
qed


lemma chained_span_within:
  "chained (map seg_span ss) \<Longrightarrow> \<forall>s \<in> set ss. ps_start s \<le> ps_end s \<Longrightarrow> s \<in> set ss \<Longrightarrow>
    ps_start (hd ss) \<le> ps_start s \<and> ps_end s \<le> ps_end (last ss)"
proof (induction ss arbitrary: s)
  case (Cons x ss)
  show ?case
  proof (cases "ss = []")
    case False
    have join: "ps_end x = ps_start (hd ss)" using Cons.prems(1) False by (cases ss) (simp_all add: seg_span_def)
    have c: "chained (map seg_span ss)" using Cons.prems(1) by (auto simp: chained_Cons)
    have IH: "ps_start (hd ss) \<le> ps_start y \<and> ps_end y \<le> ps_end (last ss)" if "y \<in> set ss" for y
      using Cons.IH [OF c _ that] Cons.prems(2) by simp
    have h: "ps_start (hd ss) \<le> ps_end (hd ss)" "ps_end (hd ss) \<le> ps_end (last ss)"
      using IH [of "hd ss"] Cons.prems(2) False by simp_all
    have x: "ps_start x \<le> ps_end x" using Cons.prems(2) by simp
    show ?thesis
    proof (cases "s = x")
      case True
      then show ?thesis using h x join False by simp
    next
      case no: False
      then have "s \<in> set ss" using Cons.prems(3) by simp
      from IH [OF this] show ?thesis using x join False by simp
    qed
  qed (use Cons.prems in simp)
qed simp

text \<open>The segments of an entry fill its block, padded where the program ends early.\<close>

lemma entry_segments_fill:
  assumes "0 \<le> cfg_start_hour cfg" "cfg_start_hour cfg < 24" "0 < cfg_grid_minutes cfg" "cfg_grid_minutes cfg \<le> 1440"
    and fwd: "\<forall>s \<in> set (pb_segments (get_program_at cfg rst c t)). ps_start s \<le> ps_end s"
  shows "log_total (xe_segments (extender_entry cfg rst c d i t)) = cfg_grid_minutes cfg * 60000"
    and "\<forall>s \<in> set (xe_segments (extender_entry cfg rst c d i t)). 0 \<le> ls_duration s"
proof -
  define G where "G = cfg_grid_minutes cfg * 60000000"
  define a where "a = floor_to_grid_boundary cfg t"
  define ss where "ss = build_segments cfg rst c a (a + G)"
  have blk: "pb_segments (get_program_at cfg rst c t) = ss"
    by (simp add: get_program_at_def grid_block_def Let_def a_def G_def ss_def)
  note c = build_segments_chain [of cfg rst c a "a + G", folded ss_def]
  have G: "0 < G" "G \<le> us_per_day" using assms(3,4) by (simp_all add: G_def us_per_day_def)
  have seg: "0 \<le> ls_duration (extender_segment s) \<and> ls_duration (extender_segment s) * 1000 \<le> ps_end s - ps_start s"
    if "s \<in> set ss" "ps_end s - ps_start s \<le> us_per_day" for s
    using extender_segment_le [of s cfg rst c a "a + G"] that fwd unfolding ss_def [symmetric] blk by simp
  have len: "ps_end (last ss) - ps_start (hd ss) \<le> us_per_day" using c G by simp
  have "sum_list (map (\<lambda>s. ls_duration (extender_segment s)) ss) * 1000 \<le> ps_end (last ss) - ps_start (hd ss)"
    using c fwd len blk seg by (intro conjunct2 [OF total_spans_le]) auto
  then have tot: "log_total (map extender_segment ss) \<le> cfg_grid_minutes cfg * 60000"
    using c by (simp add: log_total_def o_def G_def)
  have within: "ps_end s - ps_start s \<le> us_per_day" if "s \<in> set ss" for s
    using chained_span_within [of ss s] c fwd blk len that by simp
  have e: "xe_segments (extender_entry cfg rst c d i t) = extender_segments (cfg_grid_minutes cfg * 60 * 1000)
      (get_program_at cfg rst c t)" by (simp add: extender_entry_def Let_def)
  show "log_total (xe_segments (extender_entry cfg rst c d i t)) = cfg_grid_minutes cfg * 60000"
    using tot by (auto simp: e extender_segments_def Let_def blk extender_pad_def)
  show "\<forall>s \<in> set (xe_segments (extender_entry cfg rst c d i t)). 0 \<le> ls_duration s"
    using seg within by (auto simp: e extender_segments_def Let_def blk extender_pad_def)
qed

lemma extender_entry_fields [simp]:
  "xe_start (extender_entry cfg rst c d i t) = to_epoch_ms t"
  "xe_end (extender_entry cfg rst c d i t) = to_epoch_ms t + cfg_grid_minutes cfg * 60000"
  "xe_channel (extender_entry cfg rst c d i t) = c" "xe_date (extender_entry cfg rst c d i t) = Some d"
  "xe_index (extender_entry cfg rst c d i t) = i" "xe_log_ref (extender_entry cfg rst c d i t) = None"
  by (simp_all add: extender_entry_def Let_def)

lemma step_epoch_ms:
  assumes "0 \<le> h" "h < 24" "\<bar>d\<bar> \<le> 2 ^ 22" "0 \<le> x" "x < us_per_day" "x = int i * (g * 60000000)"
  shows "to_epoch_ms (combine d (h * us_per_hour) + x) = d * 86400000 + h * 3600000 + int i * (g * 60000)"
proof -
  define k where "k = int i * g"
  let ?s = "d * 86400 + h * 3600 + k * 60"
  have x: "x = k * 60000000" using assms(6) by (simp add: k_def)
  then have k: "0 \<le> k" "k < 1440" using assms(4,5) by (simp_all add: us_per_day_def)
  then have "\<bar>?s\<bar> \<le> 2 ^ 43" using assms(1-3) by (simp add: abs_le_iff)
  then have "to_epoch_ms (?s * 1000000) = ?s * 1000" by (rule to_epoch_ms_whole)
  moreover have "combine d (h * us_per_hour) + x = ?s * 1000000" by (simp add: combine_def us_defs x)
  ultimately show ?thesis by (simp add: k_def)
qed

section \<open>Resolving never fails for a ready catalogue\<close>

text \<open>Every program has episodes and a known way to pick one.\<close>

definition catalog_ready :: "catalog \<Rightarrow> bool" where
  "catalog_ready cat \<longleftrightarrow> (\<forall>r p. cat r = Some p \<longrightarrow> prog_episodes p \<noteq> []
     \<and> prog_play_mode p \<in> {''sequential'', ''random'', ''manual''})"

lemma resolve_ref_ready:
  assumes "catalog_ready cat" and "resolve_program_ref cfg cat seq c ref d t = (seq', r)"
  shows "\<exists>asset. r = Inr asset"
proof (cases "ref_type ref")
  case PROGRAM
  show ?thesis
  proof (cases "cat (ref_id ref)")
    case (Some p)
    then have p: "prog_episodes p \<noteq> []"
      "prog_play_mode p = ''sequential'' \<or> prog_play_mode p = ''random'' \<or> prog_play_mode p = ''manual''"
      using assms(1) by (auto simp: catalog_ready_def)
    then obtain seq1 ep where "select_episode seq c p d t = (seq1, Inr ep)"
      unfolding select_episode_def Let_def by (cases "prog_play_mode p = ''sequential''") auto
    then show ?thesis using assms(2) PROGRAM Some by (auto simp: resolve_program_ref_def)
  qed (use assms(2) PROGRAM in \<open>auto simp: resolve_program_ref_def\<close>)
qed (use assms(2) in \<open>auto simp: resolve_program_ref_def\<close>)

lemma resolve_loop_ready:
  assumes "catalog_ready cat" and g: "0 < cfg_grid_minutes cfg" and "i \<le> length slots"
  shows "\<exists>seq' rs' evs'. resolve_loop cfg cat c d slots i seq rs evs = Some (seq', Inr (rs', evs'))"
  using assms(3)
proof (induction "length slots - i" arbitrary: i seq rs evs rule: less_induct)
  case less
  show ?case
  proof (cases "i < length slots")
    case True
    obtain seq1 r where ref: "resolve_program_ref cfg cat seq c (slot_ref (slots ! i)) d (slot_time (slots ! i)) = (seq1, r)"
      by fastforce
    obtain asset where r: "r = Inr asset" using resolve_ref_ready [OF assms(1) ref] by blast
    obtain n where n: "block_span_of cfg (ra_duration asset) = Inr n"
      using g by (cases "0 < ra_duration asset") (simp_all add: block_span_of_def Let_def)
    then have "1 \<le> n" by (rule block_span_positive [OF g])
    then have "0 < nat (min n (int (length slots - i)))" "i + nat (min n (int (length slots - i))) \<le> length slots"
      using True by simp_all
    moreover from this True have "length slots - (i + nat (min n (int (length slots - i)))) < length slots - i" by simp
    ultimately show ?thesis using resolve_loop_step [OF True ref, of rs evs] r n less.hyps by (simp add: Let_def)
  qed (use less.prems in \<open>simp add: resolve_loop_done\<close>)
qed

definition service_ready :: "int \<Rightarrow> schedule_service \<Rightarrow> bool" where
  "service_ready h sv \<longleftrightarrow> 0 < cfg_grid_minutes (sv_cfg sv) \<and> cfg_start_hour (sv_cfg sv) = h
     \<and> 0 \<le> h \<and> h < 24 \<and> catalog_ready (sv_catalog sv)
     \<and> rst_start_hour (ss_resolved (sv_state sv)) = None \<and> \<not> rst_enforce (ss_resolved (sv_state sv))"

lemma store_day_unchecked:
  assumes "rst_start_hour st = None" "\<not> rst_enforce st" "get_day st c (rd_date rd) = None"
  shows "store_day st c rd = (put_day st c rd, Inr ())"
proof (cases rule: store_day_cases [of st c rd])
  case (refused e st')
  have "traceability_check st rd = Inr ()" "\<And>st'. rst_start_hour st' = None \<Longrightarrow> validate_against_preceding st' c rd = Inr ()"
    using assms by (simp_all add: traceability_check_def validate_against_preceding_def)
  then show ?thesis using assms(1,3) refused put_day_empty_channel [of st c rd] channel_days_empty_channel [of st c]
    by (auto simp: store_day_def Let_def get_day_def split: if_splits)
qed

lemma put_day_fields [simp]:
  "rst_start_hour (put_day st c rd) = rst_start_hour st" "rst_enforce (put_day st c rd) = rst_enforce st"
  by (simp_all add: put_day_def)

lemma extend_epg_ready:
  assumes "service_ready h sv"
  shows "\<exists>sv'. extend_epg_day sv c d = Some (sv', Inr ()) \<and> service_ready h sv' \<and> sv_cfg sv' = sv_cfg sv
    \<and> (loaded_slots sv c \<noteq> [] \<longrightarrow> epg_day_exists sv' c d)"
proof (cases "loaded_slots sv c = []")
  case False
  let ?st = "sv_state sv" and ?slots = "loaded_slots sv c"
  show ?thesis
  proof (cases "get_day (ss_resolved ?st) c d")
    case (Some rd)
    then show ?thesis using assms False
      by (simp add: extend_epg_day_def Let_def resolve_schedule_day_def epg_day_exists_def day_exists_def get_day_def)
  next
    case None
    obtain seq rs evs where run: "resolve_loop (sv_cfg sv) (sv_catalog sv) c d ?slots 0 (ss_sequence ?st) [] [] =
        Some (seq, Inr (rs, evs))"
      using resolve_loop_ready [of "sv_catalog sv" "sv_cfg sv" 0 ?slots c d "ss_sequence ?st" "[]" "[]"] assms
      by (auto simp: service_ready_def)
    define rd where "rd = \<lparr>rd_date = d, rd_slots = rs, rd_timestamp = horizon_resolution_time d,
      rd_sequence = \<lparr>sq_positions = [], sq_as_of = Some (horizon_resolution_time d)\<rparr>,
      rd_events = evs, rd_plan_id = None, rd_override = False, rd_supersedes = None\<rparr>"
    have "store_day (ss_resolved ?st) c rd = (put_day (ss_resolved ?st) c rd, Inr ())"
      using assms None by (intro store_day_unchecked) (simp_all add: service_ready_def rd_def)
    then have "extend_epg_day sv c d = Some (sv\<lparr>sv_state := ?st\<lparr>ss_sequence := seq,
        ss_resolved := put_day (ss_resolved ?st) c rd\<rparr>\<rparr>, Inr ())"
      using False None run by (simp add: extend_epg_day_def Let_def resolve_schedule_day_def rd_def)
    then show ?thesis using assms
      by (simp add: service_ready_def epg_day_exists_def day_exists_def put_day_def channel_days_def rd_def)
  qed
qed (use assms in \<open>simp add: extend_epg_day_def\<close>)

lemma resolve_if_absent_ready:
  assumes "service_ready h sv"
  shows "\<exists>sv'. resolve_if_absent sv c d = Some (sv', Inr ()) \<and> service_ready h sv' \<and> sv_cfg sv' = sv_cfg sv
    \<and> (loaded_slots sv c \<noteq> [] \<longrightarrow> epg_day_exists sv' c d)"
  using extend_epg_ready [OF assms, of c d] assms by (auto simp: resolve_if_absent_def)


section \<open>A generated day\<close>

definition entries_of_day :: "sm_config \<Rightarrow> resolved_store \<Rightarrow> string \<Rightarrow> date \<Rightarrow> execution_entry list" where
  "entries_of_day cfg rst c d =
     map (\<lambda>i. extender_entry cfg rst c d i
            (combine d (cfg_start_hour cfg * us_per_hour) + int i * (cfg_grid_minutes cfg * 60000000)))
       [0..<blocks_per_day (cfg_grid_minutes cfg)]"

lemma write_day_artifact_ok: "snd (write_day_artifact td tz fi cfg fs c d es) = Inr ()"
  by (auto simp: write_day_artifact_def write_artifact_def Let_def split: prod.splits sum.splits exn.splits)

lemma extend_execution_ready:
  assumes "service_ready h (hw_service w)"
  obtains w' where "extend_execution_day td tz fi c w d =
      Some (w', Inr (DayResult (xe_end (last (entries_of_day (sv_cfg (hw_service w')) (ss_resolved (sv_state (hw_service w'))) c d)))
        (entries_of_day (sv_cfg (hw_service w')) (ss_resolved (sv_state (hw_service w'))) c d)))"
    and "service_ready h (hw_service w')" and "sv_cfg (hw_service w') = sv_cfg (hw_service w)"
    and "hw_artifacts w' (c, d) \<noteq> None"
    and "\<forall>k. hw_artifacts w k \<noteq> None \<or> k \<noteq> (c, d) \<longrightarrow> hw_artifacts w' k = hw_artifacts w k"
proof -
  obtain sv where sv: "resolve_if_absent (hw_service w) c d = Some (sv, Inr ())" "service_ready h sv"
    "sv_cfg sv = sv_cfg (hw_service w)"
    using resolve_if_absent_ready [OF assms, of c d] by blast
  have g: "0 < cfg_grid_minutes (sv_cfg sv)" using sv(2) by (simp add: service_ready_def)
  let ?es = "entries_of_day (sv_cfg sv) (ss_resolved (sv_state sv)) c d"
  have es: "day_entries (sv_cfg sv) (ss_resolved (sv_state sv)) c d = Some ?es"
    using day_entries_result [OF g] by (simp add: entries_of_day_def)
  have ne: "?es \<noteq> []" using blocks_per_day_bounds(1) [OF g] by (simp add: entries_of_day_def)
  obtain fs r where wr: "write_day_artifact td tz fi (sv_cfg sv) (hw_artifacts w) c d ?es = (fs, r)" by fastforce
  then have r: "r = Inr ()" using write_day_artifact_ok [of td tz fi "sv_cfg sv" "hw_artifacts w" c d ?es] by simp
  have fs: "fs (c, d) \<noteq> None" "\<forall>k. hw_artifacts w k \<noteq> None \<or> k \<noteq> (c, d) \<longrightarrow> fs k = hw_artifacts w k"
    using wr by (auto simp: write_day_artifact_def write_artifact_def Let_def split: if_splits)
  show thesis
  proof (rule that)
    show "extend_execution_day td tz fi c w d = Some (\<lparr>hw_service = sv, hw_artifacts = fs\<rparr>,
        Inr (DayResult (xe_end (last (entries_of_day
          (sv_cfg (hw_service \<lparr>hw_service = sv, hw_artifacts = fs\<rparr>))
          (ss_resolved (sv_state (hw_service \<lparr>hw_service = sv, hw_artifacts = fs\<rparr>))) c d)))
          (entries_of_day (sv_cfg (hw_service \<lparr>hw_service = sv, hw_artifacts = fs\<rparr>))
          (ss_resolved (sv_state (hw_service \<lparr>hw_service = sv, hw_artifacts = fs\<rparr>))) c d)))"
      using sv(1) es ne wr r by (simp add: extend_execution_day_def)
  qed (use sv fs in simp_all)
qed

lemma day_end_in_range:
  assumes "0 \<le> h" "h < 24" "\<bar>d\<bar> \<le> 2 ^ 22"
  shows "day_end_utc_ms h d = (d + 1) * 86400000 + h * 3600000"
proof -
  let ?s = "(d + 1) * 86400 + h * 3600"
  have "\<bar>?s\<bar> \<le> 2 ^ 43" using assms by (simp add: abs_le_iff)
  then have "to_epoch_ms (?s * 1000000) = ?s * 1000" by (rule to_epoch_ms_whole)
  moreover have "combine d (h * us_per_hour) + us_per_day = ?s * 1000000" by (simp add: combine_def us_defs)
  ultimately show ?thesis by (simp add: day_end_utc_ms_def)
qed

lemma last_entry_end:
  assumes g: "0 < cfg_grid_minutes cfg" and h: "0 \<le> cfg_start_hour cfg" "cfg_start_hour cfg < 24" "\<bar>d\<bar> \<le> 2 ^ 22"
  shows "day_end_utc_ms (cfg_start_hour cfg) d \<le> xe_end (last (entries_of_day cfg rst c d))"
proof -
  let ?g = "cfg_grid_minutes cfg" and ?h = "cfg_start_hour cfg"
  note b = blocks_per_day_bounds [OF g]
  obtain m where m: "blocks_per_day ?g = Suc m" using b(1) by (cases "blocks_per_day ?g") auto
  define x where "x = int m * (?g * 60000000)"
  have l: "last (entries_of_day cfg rst c d) = extender_entry cfg rst c d m (combine d (?h * us_per_hour) + x)"
    by (simp add: entries_of_day_def m x_def)
  have x: "0 \<le> x" "x < us_per_day" using b(3) [of m] g m by (simp_all add: x_def)
  have "us_per_day \<le> (int m + 1) * (?g * 60000000)" using b(2) m by (simp add: add.commute)
  then have "us_per_day \<le> x + ?g * 60000000" by (simp only: x_def distrib_right mult_1)
  then have "86400000 \<le> int m * (?g * 60000) + ?g * 60000" unfolding x_def us_per_day_def by linarith
  moreover have "xe_end (last (entries_of_day cfg rst c d)) =
      d * 86400000 + ?h * 3600000 + int m * (?g * 60000) + ?g * 60000"
    using step_epoch_ms [OF h x x_def] by (simp only: l extender_entry_fields)
  ultimately have "d * 86400000 + ?h * 3600000 + 86400000 \<le> xe_end (last (entries_of_day cfg rst c d))"
    by (simp only: add.assoc add_le_cancel_left)
  then show ?thesis unfolding day_end_in_range [OF h] by simp
qed

definition extender_ok :: "int \<Rightarrow> string \<Rightarrow> horizon_world \<Rightarrow> bool" where
  "extender_ok h c w \<longleftrightarrow> service_ready h (hw_service w) \<and> c \<noteq> []"

lemma extender_env_execution:
  assumes "extender_ok h c w" "he_extend_execution_day (extender_env ds td tz fi c) w d = (w', a)"
  shows "extender_ok h c w' \<and> a = Inr (DayResult (xe_end (last (entries_of_day (sv_cfg (hw_service w'))
      (ss_resolved (sv_state (hw_service w'))) c d)))
      (entries_of_day (sv_cfg (hw_service w')) (ss_resolved (sv_state (hw_service w'))) c d))"
proof (rule extend_execution_ready [of h w td tz fi c d])
  show "service_ready h (hw_service w)" using assms(1) by (simp add: extender_ok_def)
qed (use assms in \<open>auto simp: extender_env_def extender_ok_def\<close>)

interpretation hx: reliable_planner "extender_env ds td tz fi c" "extender_ok h c" h
  for ds td tz fi c h
proof
  fix w d w' b
  assume "extender_ok h c w" "he_epg_day_exists (extender_env ds td tz fi c) w d = (w', b)"
  then show "extender_ok h c w' \<and> (\<exists>x. b = Inr x)" by (auto simp: extender_env_def)
next
  fix w d w' u
  assume "extender_ok h c w" "he_extend_epg_day (extender_env ds td tz fi c) w d = (w', u)"
  then show "extender_ok h c w' \<and> u = Inr ()"
    using extend_epg_ready [of h "hw_service w" c d] by (auto simp: extender_env_def extender_ok_def)
next
  fix w d w' a
  assume "extender_ok h c w" "he_extend_execution_day (extender_env ds td tz fi c) w d = (w', a)"
  then show "extender_ok h c w'" using extender_env_execution by blast
next
  fix w d w' ans
  assume "extender_ok h c w" "he_extend_execution_day (extender_env ds td tz fi c) w d = (w', Inr ans)"
    and d: "\<bar>d\<bar> \<le> 2 ^ 22"
  from extender_env_execution [OF this(1,2)] show "day_end_utc_ms h d \<le> answer_end ans"
    using last_entry_end [OF _ _ _ d] by (auto simp: extender_ok_def service_ready_def)
next
  fix w d w' e es x
  assume "extender_ok h c w" "he_extend_execution_day (extender_env ds td tz fi c) w d = (w', Inr (DayResult e es))"
    and x: "x \<in> set es"
  from extender_env_execution [OF this(1,2)] x show "check_lineage False x = Inr ()"
    by (auto simp: extender_ok_def entries_of_day_def check_lineage_def)
next
  fix w d w' a
  assume "extender_ok h c w" "he_extend_execution_day (extender_env ds td tz fi c) w d = (w', a)"
  then show "\<exists>ans. a = Inr ans" using extender_env_execution by blast
qed


section \<open>Worked example\<close>

definition demo_world :: horizon_world where
  "demo_world = \<lparr>hw_service = demo_service, hw_artifacts = Map.empty\<rparr>"

definition demo_hm_config :: hm_config where
  "demo_hm_config = \<lparr>hc_min_epg_days = 3, hc_min_execution_hours = 6, hc_interval = 3600, hc_start_hour = 6,
     hc_locked_window = 0, hc_proactive_threshold = 0\<rparr>"

abbreviation demo_env :: "horizon_world horizon_env" where
  "demo_env \<equiv> extender_env (\<lambda>_. ''error'') ''UTC'' (\<lambda>_. 0) (\<lambda>_. ''id'') ''ch''"

lemma demo_world_ready: "extender_ok 6 ''ch'' demo_world"
  by (auto simp: extender_ok_def service_ready_def demo_world_def demo_service_def init_service_def demo_cfg_def
      catalog_ready_def demo_catalog_def demo_episode_def empty_resolved_store_def)

section \<open>Properties\<close>

text \<open>
  On a service whose grid divides time into positive steps and whose catalogue is ready,
  generating a broadcast day returns, and the entries tile the day: entry \<open>i\<close> starts \<open>i\<close> grid steps
  after the start of the day and lasts one, the last one ends at or after the end of the day, and
  wherever the program of the step has no segment that runs backwards, the durations of the
  entry's segments are not negative and add up to the block exactly.  The artifact of the day is on
  disk afterwards and no other artifact has changed.
\<close>

theorem extend_execution_day_tiles:
  assumes "service_ready h (hw_service w)" "cfg_grid_minutes (sv_cfg (hw_service w)) \<le> 1440" "\<bar>d\<bar> \<le> 2 ^ 22"
  shows "\<exists>w' es. extend_execution_day td tz fi c w d = Some (w', Inr (DayResult (xe_end (last es)) es))
    \<and> length es = blocks_per_day (cfg_grid_minutes (sv_cfg (hw_service w)))
    \<and> day_end_utc_ms h d \<le> xe_end (last es)
    \<and> (\<forall>i < length es. xe_start (es ! i) =
          d * 86400000 + h * 3600000 + int i * (cfg_grid_minutes (sv_cfg (hw_service w)) * 60000)
        \<and> xe_end (es ! i) = xe_start (es ! i) + cfg_grid_minutes (sv_cfg (hw_service w)) * 60000
        \<and> ((\<forall>s \<in> set (pb_segments (get_program_at (sv_cfg (hw_service w)) (ss_resolved (sv_state (hw_service w')))
              c (xe_start (es ! i) * 1000))). ps_start s \<le> ps_end s) \<longrightarrow>
            log_total (xe_segments (es ! i)) = xe_end (es ! i) - xe_start (es ! i)
            \<and> (\<forall>s \<in> set (xe_segments (es ! i)). 0 \<le> ls_duration s)))
    \<and> hw_artifacts w' (c, d) \<noteq> None
    \<and> (\<forall>k. hw_artifacts w k \<noteq> None \<or> k \<noteq> (c, d) \<longrightarrow> hw_artifacts w' k = hw_artifacts w k)"
  using assms(1)
proof (rule extend_execution_ready [of h w td tz fi c d])
  fix w' :: horizon_world
  let ?cfg = "sv_cfg (hw_service w)" and ?rst = "ss_resolved (sv_state (hw_service w'))"
  let ?es = "entries_of_day ?cfg ?rst c d" and ?g = "cfg_grid_minutes (sv_cfg (hw_service w))"
  assume run: "extend_execution_day td tz fi c w d = Some (w', Inr (DayResult (xe_end (last (entries_of_day
      (sv_cfg (hw_service w')) ?rst c d))) (entries_of_day (sv_cfg (hw_service w')) ?rst c d)))"
    and cfg: "sv_cfg (hw_service w') = ?cfg"
    and art: "hw_artifacts w' (c, d) \<noteq> None"
      "\<forall>k. hw_artifacts w k \<noteq> None \<or> k \<noteq> (c, d) \<longrightarrow> hw_artifacts w' k = hw_artifacts w k"
  have r: "0 < ?g" "cfg_start_hour ?cfg = h" "0 \<le> h" "h < 24" using assms(1) by (simp_all add: service_ready_def)
  have entry: "xe_start (?es ! i) = d * 86400000 + h * 3600000 + int i * (?g * 60000)
      \<and> xe_end (?es ! i) = xe_start (?es ! i) + ?g * 60000
      \<and> ((\<forall>s \<in> set (pb_segments (get_program_at ?cfg ?rst c (xe_start (?es ! i) * 1000))). ps_start s \<le> ps_end s) \<longrightarrow>
          log_total (xe_segments (?es ! i)) = xe_end (?es ! i) - xe_start (?es ! i)
          \<and> (\<forall>s \<in> set (xe_segments (?es ! i)). 0 \<le> ls_duration s))" if i: "i < length ?es" for i
  proof -
    define t where "t = combine d (h * us_per_hour) + int i * (?g * 60000000)"
    have e: "?es ! i = extender_entry ?cfg ?rst c d i t" using i r(2) by (simp add: entries_of_day_def t_def)
    have "i < blocks_per_day ?g" using i by (simp add: entries_of_day_def)
    then have "0 \<le> int i * (?g * 60000000)" "int i * (?g * 60000000) < us_per_day"
      using blocks_per_day_bounds(3) [OF r(1)] r(1) by simp_all
    from step_epoch_ms [OF r(3,4) assms(3) this refl]
    have ms: "to_epoch_ms t = d * 86400000 + h * 3600000 + int i * (?g * 60000)" by (simp only: t_def)
    have us: "to_epoch_ms t * 1000 = t" unfolding ms by (simp add: t_def combine_def us_defs)
    have fill: "log_total (xe_segments (?es ! i)) = ?g * 60000 \<and> (\<forall>s \<in> set (xe_segments (?es ! i)). 0 \<le> ls_duration s)"
      if fwd: "\<forall>s \<in> set (pb_segments (get_program_at ?cfg ?rst c t)). ps_start s \<le> ps_end s"
      unfolding e using entry_segments_fill [OF _ _ _ _ fwd, where d = d and i = i] r assms(2) by simp
    have "xe_start (?es ! i) = to_epoch_ms t" "xe_end (?es ! i) = to_epoch_ms t + ?g * 60000" by (simp_all add: e)
    then show ?thesis using ms us fill by simp
  qed
  have "day_end_utc_ms h d \<le> xe_end (last ?es)" using last_entry_end [of ?cfg d ?rst c] r assms(3) by simp
  then show ?thesis
    by (intro exI [of _ w'] exI [of _ ?es] conjI allI impI entry run [unfolded cfg] art)
      (simp_all add: entries_of_day_def art del: last_map)
qed

theorem extend_execution_day_tiles_witness:
  "\<exists>w' es. extend_execution_day ''UTC'' (\<lambda>_. 0) (\<lambda>_. ''id'') ''ch'' demo_world 20000 =
      Some (w', Inr (DayResult (xe_end (last es)) es))
    \<and> length es = 48 \<and> xe_start (es ! 1) = 1728023400000 \<and> hw_artifacts w' (''ch'', 20000) \<noteq> None"
proof -
  have r: "service_ready 6 (hw_service demo_world)" using demo_world_ready by (simp add: extender_ok_def)
  have g: "cfg_grid_minutes (sv_cfg (hw_service demo_world)) = 30"
    using demo_service_facts(3) by (simp add: demo_world_def)
  have n: "blocks_per_day 30 = 48" by code_simp
  have b: "cfg_grid_minutes (sv_cfg (hw_service demo_world)) \<le> 1440" "\<bar>20000 :: int\<bar> \<le> 2 ^ 22" by (simp_all add: g)
  from extend_execution_day_tiles [OF r b, of "''UTC''" "\<lambda>_. 0" "\<lambda>_. ''id''" "''ch''"]
  show ?thesis
  proof (elim exE conjE)
    fix w' es
    assume run: "extend_execution_day ''UTC'' (\<lambda>_. 0) (\<lambda>_. ''id'') ''ch'' demo_world 20000 =
        Some (w', Inr (DayResult (xe_end (last es)) es))" and a: "hw_artifacts w' (''ch'', 20000) \<noteq> None"
      and l: "length es = blocks_per_day (cfg_grid_minutes (sv_cfg (hw_service demo_world)))"
    assume "\<forall>i < length es. xe_start (es ! i) =
          20000 * 86400000 + 6 * 3600000 + int i * (cfg_grid_minutes (sv_cfg (hw_service demo_world)) * 60000)
        \<and> xe_end (es ! i) = xe_start (es ! i) + cfg_grid_minutes (sv_cfg (hw_service demo_world)) * 60000
        \<and> ((\<forall>s \<in> set (pb_segments (get_program_at (sv_cfg (hw_service demo_world)) (ss_resolved (sv_state (hw_service w')))
              ''ch'' (xe_start (es ! i) * 1000))). ps_start s \<le> ps_end s) \<longrightarrow>
            log_total (xe_segments (es ! i)) = xe_end (es ! i) - xe_start (es ! i)
            \<and> (\<forall>s \<in> set (xe_segments (es ! i)). 0 \<le> ls_duration s))"
    then have "xe_start (es ! 1) = 20000 * 86400000 + 6 * 3600000 + int 1 * (30 * 60000)"
      using l unfolding g n by (elim allE [of _ 1]) linarith
    with run l a g n show ?thesis by (intro exI [of _ w'] exI [of _ es]) simp
  qed
qed

text \<open>
  C8. One evaluation restores both horizons: with the extenders of a ready service, at an instant
  of the present, for minimums of up to 29 days, and from a state that is empty or has not fallen
  behind the present, the evaluation raises nothing and leaves the guide and the execution window
  at least as deep as their minimums.
\<close>

theorem evaluate_restores_horizons:
  assumes "extender_ok h c w" "store_open st" "h = hc_start_hour cfg" "0 \<le> h" "h < 24"
    and "1000 * (2 ^ 40 + 1) \<le> now" "now < 1000000 * (2 ^ 31 - 1)"
    and "0 < hc_min_epg_days cfg" "hc_min_epg_days cfg \<le> 29"
    and "0 < hc_min_execution_hours cfg" "hc_min_execution_hours cfg \<le> 29 * 24"
    and "\<forall>f. hm_epg_farthest st = Some f \<longrightarrow> broadcast_date_for h now \<le> f + 1 \<and> f \<le> 2 ^ 20"
    and "hm_window_end st = 0 \<or> to_epoch_ms now \<le> hm_window_end st \<and> hm_window_end st < 1000 * (2 ^ 31 - 1)"
    and "evaluate_once (extender_env ds td tz fi c) cfg clk now st w = (st', w', r)"
  shows "r = Inr () \<and> to_epoch_ms now + hc_min_epg_days cfg * 24 * 3600000 \<le> epg_window_end_utc_ms cfg st'
    \<and> to_epoch_ms now + hc_min_execution_hours cfg * 3600000 \<le> hm_window_end st'"
  by (rule hx.depth_restored [OF assms(1-11) _ assms(13,14)]) (use assms(12) in blast)+

theorem evaluate_restores_horizons_witness:
  "\<exists>st' w'. evaluate_once demo_env demo_hm_config None 1728022200000000 (init_horizon (Some demo_window)) demo_world
      = (st', w', Inr ()) \<and> 1728022200000 + 6 * 3600000 \<le> hm_window_end st'"
proof -
  let ?st = "init_horizon (Some demo_window)" and ?t = "1728022200000000 :: int"
  obtain st' w' r where run: "evaluate_once demo_env demo_hm_config None ?t ?st demo_world = (st', w', r)"
    by (metis prod_cases3)
  have ms: "to_epoch_ms ?t = 1728022200000" using to_epoch_ms_whole [of 1728022200] by simp
  have "r = Inr () \<and> to_epoch_ms ?t + hc_min_epg_days demo_hm_config * 24 * 3600000 \<le> epg_window_end_utc_ms demo_hm_config st'
      \<and> to_epoch_ms ?t + hc_min_execution_hours demo_hm_config * 3600000 \<le> hm_window_end st'"
    by (rule evaluate_restores_horizons [OF demo_world_ready _ _ _ _ _ _ _ _ _ _ _ _ run])
      (simp_all add: demo_hm_config_def store_open_def init_horizon_def demo_window_def)
  then show ?thesis using run ms by (simp add: demo_hm_config_def)
qed

end
