(* ===== verification/Traffic_Library.thy ===== *)
theory Traffic_Library
  imports Asset_Library Py_Time
begin

text \<open>
  The asset library of a running channel, \<^verbatim>\<open>catalog/db_asset_library.py\<close>: assets, markers and the
  log of played spots live in the database, the traffic policy (allowed types, cooldowns, daily
  cap) in the channel configuration.  The tables are lists of rows in the order a query returns
  them; a filter keeps the rows with the stated conditions.  The clock and \<open>random.shuffle\<close> are
  read anew by every call, so they are sequences indexed by the number of calls made.  The traffic
  sections of the two configuration files are what the YAML loader returns for them.
\<close>

section \<open>Traffic policy\<close>

record traffic_policy =
  tp_allowed :: "string list"
  tp_cooldown :: rat
  tp_type_cooldowns :: "(string \<times> rat) list"
  tp_cap :: int

text \<open>The keys a \<open>traffic\<close> section may set.\<close>

record traffic_section =
  ts_allowed :: "string list option"
  ts_cooldown :: "rat option"
  ts_type_cooldowns :: "(string \<times> rat) list option"
  ts_cap :: "int option"

definition default_traffic_policy :: traffic_policy where
  "default_traffic_policy =
     \<lparr>tp_allowed = [''commercial'', ''promo'', ''station_id'', ''psa'', ''stinger'', ''bumper'', ''filler''],
      tp_cooldown = 3600, tp_type_cooldowns = [], tp_cap = 0\<rparr>"

definition override_key :: "'a \<Rightarrow> 'a option \<Rightarrow> 'a" where
  "override_key old new = (case new of None \<Rightarrow> old | Some v \<Rightarrow> v)"

definition policy_update :: "traffic_policy \<Rightarrow> traffic_section \<Rightarrow> traffic_policy" where
  "policy_update p s =
     \<lparr>tp_allowed = override_key (tp_allowed p) (ts_allowed s),
      tp_cooldown = override_key (tp_cooldown p) (ts_cooldown s),
      tp_type_cooldowns = override_key (tp_type_cooldowns p) (ts_type_cooldowns s),
      tp_cap = override_key (tp_cap p) (ts_cap s)\<rparr>"

text \<open>\<open>None\<close> when the file does not exist or has no \<open>traffic\<close> key.\<close>

definition load_channel_traffic_policy ::
  "traffic_section option \<Rightarrow> (string \<Rightarrow> traffic_section option) \<Rightarrow> string \<Rightarrow> traffic_policy" where
  "load_channel_traffic_policy defaults channel_config slug =
     (let p = default_traffic_policy;
          p = (case defaults of None \<Rightarrow> p | Some s \<Rightarrow> policy_update p s)
      in case channel_config slug of None \<Rightarrow> p | Some s \<Rightarrow> policy_update p s)"

section \<open>Tables\<close>

record db_asset =
  da_uuid :: string
  da_canonical_uri :: string
  da_uri :: string
  da_duration :: "ms option"
  da_collection :: string
  da_ready :: bool
  da_interstitial_type :: "string option"
  da_markers :: "(ms \<times> string \<times> string) list"

record play_row =
  pl_channel :: string
  pl_uuid :: string
  pl_uri :: string
  pl_type :: string
  pl_at :: datetime
  pl_break :: "int option"
  pl_block :: "string option"
  pl_duration :: ms

record traffic_db =
  db_collections :: "(string \<times> string) list"
  db_assets :: "db_asset list"
  db_plays :: "play_row list"

record db_library =
  dl_slug :: "string option"
  dl_collection_name :: string
  dl_collection :: "string option"
  dl_policy :: "traffic_policy option"

definition new_db_library :: "string option \<Rightarrow> string \<Rightarrow> db_library" where
  "new_db_library slug name =
     \<lparr>dl_slug = slug, dl_collection_name = name, dl_collection = None, dl_policy = None\<rparr>"

definition has_slug :: "db_library \<Rightarrow> bool" where
  "has_slug lib \<longleftrightarrow> dl_slug lib \<noteq> None \<and> dl_slug lib \<noteq> Some []"

section \<open>Lookups\<close>

definition get_interstitial_collection :: "traffic_db \<Rightarrow> db_library \<Rightarrow> db_library \<times> string option" where
  "get_interstitial_collection db lib =
     (case dl_collection lib of
        Some u \<Rightarrow> (lib, Some u)
      | None \<Rightarrow>
        (case find (\<lambda>(name, u). name = dl_collection_name lib) (db_collections db) of
           None \<Rightarrow> (lib, None)
         | Some (name, u) \<Rightarrow> (lib\<lparr>dl_collection := Some u\<rparr>, Some u)))"

definition get_channel_policy ::
  "traffic_section option \<Rightarrow> (string \<Rightarrow> traffic_section option) \<Rightarrow> db_library \<Rightarrow> db_library \<times> traffic_policy" where
  "get_channel_policy defaults channel_config lib =
     (case dl_policy lib of
        Some p \<Rightarrow> (lib, p)
      | None \<Rightarrow>
        (let p = (if has_slug lib then load_channel_traffic_policy defaults channel_config (the (dl_slug lib))
                  else default_traffic_policy)
         in (lib\<lparr>dl_policy := Some p\<rparr>, p)))"

definition find_asset :: "traffic_db \<Rightarrow> string \<Rightarrow> db_asset option" where
  "find_asset db uri =
     (case find (\<lambda>a. da_canonical_uri a = uri) (db_assets db) of
        Some a \<Rightarrow> Some a
      | None \<Rightarrow> find (\<lambda>a. da_uri a = uri) (db_assets db))"

definition db_get_duration_ms :: "traffic_db \<Rightarrow> string \<Rightarrow> ms" where
  "db_get_duration_ms db uri =
     (case find_asset db uri of
        None \<Rightarrow> 0
      | Some a \<Rightarrow> (case da_duration a of None \<Rightarrow> 0 | Some d \<Rightarrow> d))"

definition db_get_markers :: "traffic_db \<Rightarrow> string \<Rightarrow> marker_info list" where
  "db_get_markers db uri =
     (case find (\<lambda>a. da_canonical_uri a = uri) (db_assets db) of
        None \<Rightarrow> []
      | Some a \<Rightarrow> map (\<lambda>(start, kind, title). \<lparr>mk_kind = kind, mk_offset = start, mk_label = title\<rparr>)
                   (sort_key fst (da_markers a)))"

section \<open>Cooldowns and caps\<close>

definition cooldown_of :: "traffic_policy \<Rightarrow> string \<Rightarrow> rat" where
  "cooldown_of p t = (case map_of (tp_type_cooldowns p) t of None \<Rightarrow> tp_cooldown p | Some c \<Rightarrow> c)"

definition max_cooldown :: "traffic_policy \<Rightarrow> rat" where
  "max_cooldown p =
     max (tp_cooldown p)
       (case map snd (tp_type_cooldowns p) of [] \<Rightarrow> 0 | c # cs \<Rightarrow> foldl max c cs)"

text \<open>\<open>n0\<close> and \<open>n1\<close> are the two readings of the clock.\<close>

definition get_cooled_down_uris ::
  "traffic_db \<Rightarrow> db_library \<Rightarrow> traffic_policy \<Rightarrow> datetime \<Rightarrow> datetime \<Rightarrow> string set" where
  "get_cooled_down_uris db lib p n0 n1 =
     (if \<not> has_slug lib then {}
      else if max_cooldown p \<le> 0 then {}
      else let cutoff = n0 - secs_to_us (max_cooldown p);
               recent_plays = filter (\<lambda>r. Some (pl_channel r) = dl_slug lib \<and> cutoff \<le> pl_at r) (db_plays db)
           in pl_uri ` set (filter (\<lambda>r. total_seconds (n1 - pl_at r) < cooldown_of p (pl_type r)) recent_plays))"

definition get_daily_capped_uuids ::
  "traffic_db \<Rightarrow> db_library \<Rightarrow> traffic_policy \<Rightarrow> datetime \<Rightarrow> string set" where
  "get_daily_capped_uuids db lib p now =
     (if \<not> has_slug lib then {}
      else if tp_cap p \<le> 0 then {}
      else let today_start = combine (date_of now) 0;
               plays = filter (\<lambda>r. Some (pl_channel r) = dl_slug lib \<and> today_start \<le> pl_at r) (db_plays db)
           in {u \<in> set (map pl_uuid plays). tp_cap p \<le> int (length (filter (\<lambda>r. pl_uuid r = u) plays))})"

section \<open>Candidates\<close>

text \<open>What a call sees: the configuration, the database, and the clock and shuffle of each call.\<close>

record traffic_world =
  tw_defaults :: "traffic_section option"
  tw_config :: "string \<Rightarrow> traffic_section option"
  tw_db :: traffic_db
  tw_clock :: "nat \<Rightarrow> datetime"
  tw_shuffle :: "nat \<Rightarrow> filler_asset list \<Rightarrow> filler_asset list"
  tw_calls :: nat
  tw_lib :: db_library

definition spot_type :: "db_asset \<Rightarrow> string" where
  "spot_type a = (case da_interstitial_type a of None \<Rightarrow> ''filler'' | Some t \<Rightarrow> t)"

definition fitting_rows :: "traffic_db \<Rightarrow> string \<Rightarrow> ms \<Rightarrow> db_asset list" where
  "fitting_rows db coll max_duration_ms =
     filter (\<lambda>a. da_collection a = coll \<and> da_ready a
        \<and> (case da_duration a of None \<Rightarrow> False | Some d \<Rightarrow> 0 < d \<and> d \<le> max_duration_ms)) (db_assets db)"

definition spot_of :: "db_asset \<Rightarrow> filler_asset" where
  "spot_of a = \<lparr>fa_uri = da_canonical_uri a, fa_duration = the (da_duration a), fa_type = spot_type a\<rparr>"

definition db_get_filler_assets :: "traffic_world \<Rightarrow> ms \<Rightarrow> nat \<Rightarrow> traffic_world \<times> filler_asset list" where
  "db_get_filler_assets w max_duration_ms n =
     (let db = tw_db w; k = tw_calls w
      in case get_interstitial_collection db (tw_lib w) of
           (lib, None) \<Rightarrow> (w\<lparr>tw_lib := lib\<rparr>, [])
         | (lib, Some coll) \<Rightarrow>
           if coll = [] then (w\<lparr>tw_lib := lib\<rparr>, [])
           else case get_channel_policy (tw_defaults w) (tw_config w) lib of
             (lib', p) \<Rightarrow>
               let cooled = get_cooled_down_uris db lib' p (tw_clock w (3 * k)) (tw_clock w (3 * k + 1));
                   capped = get_daily_capped_uuids db lib' p (tw_clock w (3 * k + 2));
                   rows = fitting_rows db coll max_duration_ms;
                   w' = w\<lparr>tw_lib := lib', tw_calls := Suc k\<rparr>
               in if rows = [] then (w', [])
                  else (w', take n (tw_shuffle w k (map spot_of (filter (\<lambda>a.
                    spot_type a \<in> set (tp_allowed p) \<and> da_canonical_uri a \<notin> cooled \<and> da_uuid a \<notin> capped) rows)))))"

definition log_play ::
  "db_library \<Rightarrow> datetime \<Rightarrow> string \<Rightarrow> string \<Rightarrow> string \<Rightarrow> ms \<Rightarrow> int option \<Rightarrow> string option \<Rightarrow> datetime option
    \<Rightarrow> traffic_db \<Rightarrow> traffic_db" where
  "log_play lib now uri u atype dur break_index block_id played_at db =
     (if \<not> has_slug lib then db
      else db\<lparr>db_plays := db_plays db @
        [\<lparr>pl_channel = the (dl_slug lib), pl_uuid = u, pl_uri = uri, pl_type = atype,
          pl_at = (case played_at of None \<Rightarrow> now | Some t \<Rightarrow> t), pl_break = break_index, pl_block = block_id,
          pl_duration = dur\<rparr>]\<rparr>)"

section \<open>What a candidate is\<close>

lemma library_frames [simp]:
  "tw_db (fst (db_get_filler_assets w m n)) = tw_db w"
  "tw_shuffle (fst (db_get_filler_assets w m n)) = tw_shuffle w"
  "tw_clock (fst (db_get_filler_assets w m n)) = tw_clock w"
  by (auto simp: db_get_filler_assets_def Let_def split: prod.splits option.splits)

definition shuffles :: "traffic_world \<Rightarrow> bool" where
  "shuffles w \<longleftrightarrow> (\<forall>k xs. mset (tw_shuffle w k xs) = mset xs)"

lemma shuffles_kept: "shuffles w \<Longrightarrow> shuffles (fst (db_get_filler_assets w m n))"
  by (simp add: shuffles_def)

lemma set_shuffle: "shuffles w \<Longrightarrow> set (tw_shuffle w k xs) = set xs"
  unfolding shuffles_def by (metis set_mset_mset)

text \<open>The policy a call works with: the one already loaded, or the one the configuration gives.\<close>

definition policy_in_force :: "traffic_world \<Rightarrow> traffic_policy" where
  "policy_in_force w = snd (get_channel_policy (tw_defaults w) (tw_config w) (tw_lib w))"

lemma collection_frames:
  "get_interstitial_collection db lib = (lib', c) \<Longrightarrow> dl_slug lib' = dl_slug lib \<and> dl_policy lib' = dl_policy lib"
  by (auto simp: get_interstitial_collection_def split: option.splits)

lemma policy_frames:
  "get_channel_policy d c lib = (lib', p) \<Longrightarrow> dl_slug lib' = dl_slug lib"
  by (auto simp: get_channel_policy_def Let_def split: option.splits if_splits)

lemma policy_cong:
  "dl_slug lib' = dl_slug lib \<Longrightarrow> dl_policy lib' = dl_policy lib \<Longrightarrow>
    snd (get_channel_policy d c lib') = snd (get_channel_policy d c lib)"
  by (simp add: get_channel_policy_def has_slug_def Let_def split: option.splits)

lemma candidate_cases:
  assumes "shuffles w" "f \<in> set (snd (db_get_filler_assets w m n))"
  obtains a where "a \<in> set (db_assets (tw_db w))" "f = spot_of a" "da_ready a"
    "da_duration a = Some (fa_duration f)" "0 < fa_duration f" "fa_duration f \<le> m"
    "spot_type a \<in> set (tp_allowed (policy_in_force w))"
    "da_canonical_uri a \<notin> get_cooled_down_uris (tw_db w) (tw_lib w) (policy_in_force w)
      (tw_clock w (3 * tw_calls w)) (tw_clock w (3 * tw_calls w + 1))"
    "da_uuid a \<notin> get_daily_capped_uuids (tw_db w) (tw_lib w) (policy_in_force w) (tw_clock w (3 * tw_calls w + 2))"
proof -
  obtain lib c where c: "get_interstitial_collection (tw_db w) (tw_lib w) = (lib, c)" by fastforce
  obtain lib' p where p: "get_channel_policy (tw_defaults w) (tw_config w) lib = (lib', p)" by fastforce
  obtain coll where coll: "c = Some coll" "coll \<noteq> []"
  proof (cases c)
    case (Some u)
    then show ?thesis using assms(2) c that by (cases "u = []") (simp_all add: db_get_filler_assets_def Let_def)
  qed (use assms(2) c in \<open>simp add: db_get_filler_assets_def Let_def\<close>)
  have p': "p = policy_in_force w"
    unfolding policy_in_force_def using policy_cong collection_frames [OF c] p by (metis snd_conv)
  have slug: "has_slug lib' = has_slug (tw_lib w)" "dl_slug lib' = dl_slug (tw_lib w)"
    using collection_frames [OF c] policy_frames [OF p] by (simp_all add: has_slug_def)
  have cool: "get_cooled_down_uris db lib' = get_cooled_down_uris db (tw_lib w)"
    "get_daily_capped_uuids db lib' = get_daily_capped_uuids db (tw_lib w)" for db
    by (simp_all add: fun_eq_iff get_cooled_down_uris_def get_daily_capped_uuids_def slug)
  let ?k = "tw_calls w"
  let ?ok = "\<lambda>a. spot_type a \<in> set (tp_allowed p)
    \<and> da_canonical_uri a \<notin> get_cooled_down_uris (tw_db w) (tw_lib w) p (tw_clock w (3 * ?k)) (tw_clock w (3 * ?k + 1))
    \<and> da_uuid a \<notin> get_daily_capped_uuids (tw_db w) (tw_lib w) p (tw_clock w (3 * ?k + 2))"
  have "f \<in> set (take n (tw_shuffle w ?k (map spot_of (filter ?ok (fitting_rows (tw_db w) coll m)))))"
    using assms(2) c coll p by (simp add: db_get_filler_assets_def Let_def cool split: if_splits)
  then have "f \<in> set (tw_shuffle w ?k (map spot_of (filter ?ok (fitting_rows (tw_db w) coll m))))"
    by (rule in_set_takeD)
  then obtain a where a: "a \<in> set (fitting_rows (tw_db w) coll m)" "?ok a" "f = spot_of a"
    using set_shuffle [OF assms(1)] by auto
  show thesis
    by (rule that [of a]) (use a p' in \<open>auto simp: fitting_rows_def spot_of_def split: option.splits\<close>)
qed


section \<open>The interface of the traffic manager\<close>

text \<open>What filling a break relies on: a spot that is offered has a positive length and fits.\<close>

locale spot_source =
  fixes get_spots :: "'s \<Rightarrow> ms \<Rightarrow> 's \<times> filler_asset list" and source_ok :: "'s \<Rightarrow> bool"
  assumes keeps: "source_ok s \<Longrightarrow> get_spots s m = (s', cs) \<Longrightarrow> source_ok s'"
    and fits: "source_ok s \<Longrightarrow> get_spots s m = (s', cs) \<Longrightarrow> f \<in> set cs \<Longrightarrow> 0 < fa_duration f \<and> fa_duration f \<le> m"

interpretation db_spots: spot_source "\<lambda>w m. db_get_filler_assets w m 5" shuffles
proof
  fix s m s' cs
  assume "shuffles s" "db_get_filler_assets s m 5 = (s', cs)"
  then show "shuffles s'" using shuffles_kept [of s m 5] by simp
next
  fix s m s' cs f
  assume s: "shuffles s" and "db_get_filler_assets s m 5 = (s', cs)" "f \<in> set cs"
  then have "f \<in> set (snd (db_get_filler_assets s m 5))" by simp
  with s show "0 < fa_duration f \<and> fa_duration f \<le> m" by (rule candidate_cases) simp
qed

section \<open>Cooldowns\<close>

lemma foldl_max_ge: "x \<le> foldl max (x :: rat) xs \<and> (\<forall>y \<in> set xs. y \<le> foldl max x xs)"
proof (induction xs arbitrary: x)
  case (Cons y ys)
  show ?case using Cons.IH [of "max x y"] by auto
qed simp

lemma cooldown_le_max: "cooldown_of p t \<le> max_cooldown p"
proof (cases "map_of (tp_type_cooldowns p) t")
  case (Some c)
  then have "c \<in> set (map snd (tp_type_cooldowns p))" by (force dest: map_of_SomeD)
  then have "c \<le> max_cooldown p" unfolding max_cooldown_def
    by (cases "map snd (tp_type_cooldowns p)") (auto simp: foldl_max_ge le_max_iff_disj)
  then show ?thesis using Some by (simp add: cooldown_of_def)
qed (simp add: cooldown_of_def max_cooldown_def)

text \<open>The range the query asks for loses no play that still cools down.\<close>

lemma cooled_iff:
  assumes "has_slug lib" "n0 \<le> n1" "max_cooldown p = of_int c" "\<bar>c\<bar> \<le> 2 ^ 53"
  shows "u \<in> get_cooled_down_uris db lib p n0 n1 \<longleftrightarrow> 0 < c
    \<and> (\<exists>r \<in> set (db_plays db). pl_uri r = u \<and> Some (pl_channel r) = dl_slug lib
        \<and> total_seconds (n1 - pl_at r) < cooldown_of p (pl_type r))"
proof -
  have "n0 - secs_to_us (max_cooldown p) \<le> pl_at r"
    if "total_seconds (n1 - pl_at r) < cooldown_of p (pl_type r)" for r
  proof -
    have "total_seconds (n1 - pl_at r) < of_int c" using that cooldown_le_max [of p "pl_type r"] assms(3) by simp
    then have "\<not> of_int c \<le> fl (of_int (n1 - pl_at r) / 1000000)" by (simp add: total_seconds_def)
    then have "of_int (n1 - pl_at r) / 1000000 < (of_int c :: rat)" by (meson fl_ge_int [OF assms(4)] not_le_imp_less)
    then have "of_int (n1 - pl_at r) < (of_int (c * 1000000) :: rat)" by simp
    then have "n1 - pl_at r < c * 1000000" by (simp only: of_int_less_iff)
    then show ?thesis using assms(2) by (simp add: assms(3))
  qed
  then show ?thesis using assms(1,3) by (auto simp: get_cooled_down_uris_def Let_def)
qed

section \<open>Worked example\<close>

definition demo_spot :: "string \<Rightarrow> ms \<Rightarrow> db_asset" where
  "demo_spot u d = \<lparr>da_uuid = u, da_canonical_uri = u @ ''.mp4'', da_uri = u, da_duration = Some d,
     da_collection = ''int'', da_ready = True, da_interstitial_type = Some ''promo'', da_markers = []\<rparr>"

definition demo_play :: "string \<Rightarrow> datetime \<Rightarrow> play_row" where
  "demo_play u t = \<lparr>pl_channel = ''retro'', pl_uuid = u, pl_uri = u @ ''.mp4'', pl_type = ''promo'', pl_at = t,
     pl_break = None, pl_block = None, pl_duration = 30000\<rparr>"

definition demo_traffic :: traffic_world where
  "demo_traffic = \<lparr>tw_defaults = None, tw_config = (\<lambda>_. None),
     tw_db = \<lparr>db_collections = [(''Interstitials'', ''int'')], db_assets = [demo_spot ''a'' 30000, demo_spot ''b'' 15000],
       db_plays = [demo_play ''a'' 1000000000]\<rparr>,
     tw_clock = (\<lambda>_. 2000000000), tw_shuffle = (\<lambda>_ xs. rev xs), tw_calls = 0,
     tw_lib = new_db_library (Some ''retro'') ''Interstitials''\<rparr>"

lemma demo_traffic_shuffles: "shuffles demo_traffic"
  by (simp add: shuffles_def demo_traffic_def)

section \<open>Properties\<close>

text \<open>
  C33. Every spot the library offers is a ready asset of the channel's interstitials that fits the
  requested length, is of an allowed type and, on a channel with a name, rests long enough: no play
  of it on that channel lies within the cooldown of its type, and it has been played today fewer
  times than the daily cap allows, when there is one.
\<close>

theorem offered_spots_respect_policy:
  assumes "shuffles w" "f \<in> set (snd (db_get_filler_assets w max_ms n))" "has_slug (tw_lib w)"
    and "tw_clock w (3 * tw_calls w) \<le> tw_clock w (3 * tw_calls w + 1)"
    and "max_cooldown (policy_in_force w) = of_int c" "0 < c" "c \<le> 2 ^ 53"
  shows "\<exists>a \<in> set (db_assets (tw_db w)). f = spot_of a \<and> da_ready a \<and> 0 < fa_duration f \<and> fa_duration f \<le> max_ms
    \<and> fa_type f \<in> set (tp_allowed (policy_in_force w))
    \<and> (\<forall>r \<in> set (db_plays (tw_db w)). pl_uri r = fa_uri f \<and> Some (pl_channel r) = dl_slug (tw_lib w) \<longrightarrow>
        cooldown_of (policy_in_force w) (pl_type r) \<le> total_seconds (tw_clock w (3 * tw_calls w + 1) - pl_at r))
    \<and> (0 < tp_cap (policy_in_force w) \<longrightarrow>
        int (length (filter (\<lambda>r. pl_uuid r = da_uuid a \<and> Some (pl_channel r) = dl_slug (tw_lib w)
          \<and> combine (date_of (tw_clock w (3 * tw_calls w + 2))) 0 \<le> pl_at r) (db_plays (tw_db w))))
        < tp_cap (policy_in_force w))"
  using assms(1,2)
proof (rule candidate_cases)
  fix a
  let ?p = "policy_in_force w" and ?now = "tw_clock w (3 * tw_calls w + 2)"
  let ?today = "\<lambda>r. Some (pl_channel r) = dl_slug (tw_lib w) \<and> combine (date_of ?now) 0 \<le> pl_at r"
  assume a: "a \<in> set (db_assets (tw_db w))" "f = spot_of a" "da_ready a" "0 < fa_duration f" "fa_duration f \<le> max_ms"
    "spot_type a \<in> set (tp_allowed ?p)"
    and cool: "da_canonical_uri a \<notin> get_cooled_down_uris (tw_db w) (tw_lib w) ?p
      (tw_clock w (3 * tw_calls w)) (tw_clock w (3 * tw_calls w + 1))"
    and cap: "da_uuid a \<notin> get_daily_capped_uuids (tw_db w) (tw_lib w) ?p ?now"
  have f: "fa_type f = spot_type a" "fa_uri f = da_canonical_uri a" using a(2) by (simp_all add: spot_of_def)
  have abs: "\<bar>c\<bar> \<le> 2 ^ 53" using assms(6,7) by simp
  have rest: "cooldown_of ?p (pl_type r) \<le> total_seconds (tw_clock w (3 * tw_calls w + 1) - pl_at r)"
    if "r \<in> set (db_plays (tw_db w))" "pl_uri r = fa_uri f" "Some (pl_channel r) = dl_slug (tw_lib w)" for r
    using cool that assms(6) unfolding cooled_iff [OF assms(3,4,5) abs] f(2) by (meson not_le_imp_less)
  have plays: "filter (\<lambda>r. pl_uuid r = da_uuid a \<and> ?today r) (db_plays (tw_db w))
      = filter (\<lambda>r. pl_uuid r = da_uuid a) (filter ?today (db_plays (tw_db w)))"
    by (simp add: conj_commute)
  have "int (length (filter (\<lambda>r. pl_uuid r = da_uuid a \<and> ?today r) (db_plays (tw_db w)))) < tp_cap ?p"
    if "0 < tp_cap ?p"
  proof (cases "da_uuid a \<in> set (map pl_uuid (filter ?today (db_plays (tw_db w))))")
    case True
    then show ?thesis using cap that assms(3) unfolding plays get_daily_capped_uuids_def Let_def by auto
  next
    case False
    have "filter (\<lambda>r. pl_uuid r = u) rs = []" if "u \<notin> set (map pl_uuid rs)" for u :: string and rs
      using that by (induction rs) auto
    from this [OF False] have "filter (\<lambda>r. pl_uuid r = da_uuid a) (filter ?today (db_plays (tw_db w))) = []" .
    then show ?thesis unfolding plays using that by simp
  qed
  then show ?thesis using a f rest by (intro bexI [of _ a] conjI ballI impI) simp_all
qed

theorem offered_spots_respect_policy_witness:
  "snd (db_get_filler_assets demo_traffic 60000 5) = [spot_of (demo_spot ''b'' 15000)]
    \<and> (\<exists>a \<in> set (db_assets (tw_db demo_traffic)). spot_of (demo_spot ''b'' 15000) = spot_of a \<and> da_ready a)"
proof -
  have e: "snd (db_get_filler_assets demo_traffic 60000 5) = [spot_of (demo_spot ''b'' 15000)]" by code_simp
  have "has_slug (tw_lib demo_traffic)" "max_cooldown (policy_in_force demo_traffic) = of_int 3600" by code_simp+
  from offered_spots_respect_policy [OF demo_traffic_shuffles _ this(1) _ this(2), of "spot_of (demo_spot ''b'' 15000)" 60000 5]
  show ?thesis using e by (auto simp: demo_traffic_def)
qed

end
