(* ===== verification/Playout_Expansion.thy ===== *)
theory Playout_Expansion
  imports Traffic_Library Py_Hash
begin

text \<open>
  From a program to the segments that play: \<^verbatim>\<open>runtime/playout_log_expander.py\<close> cuts an episode into
  acts and leaves placeholders for advertisements, \<^verbatim>\<open>runtime/traffic_manager.py\<close> fills the
  placeholders with spots.  The packing loop of a break asks the library again after every spot;
  it is a partial function, \<open>None\<close> when it does not return.  The spot library is an argument with a
  state of its own; the interface \<open>spot_source\<close> is what is needed of it.
\<close>

section \<open>Expansion\<close>

definition make_block_id :: "string \<Rightarrow> ms \<Rightarrow> string" where
  "make_block_id asset_id start_utc_ms =
     ''blk-'' @ take 12 (sha256_hexdigest (asset_id @ '':'' @ int_str start_utc_ms))"

definition act_segment ::
  "string \<Rightarrow> rat \<Rightarrow> ms \<Rightarrow> ms \<Rightarrow> ms \<Rightarrow> bool \<Rightarrow> bool \<Rightarrow> scheduled_segment" where
  "act_segment uri gain fade_ms off dur fade_in fade_out =
     \<lparr>sg_type = ''content'', sg_uri = uri, sg_offset = off, sg_duration = dur,
      sg_transition_in = (if fade_in then TRANSITION_FADE else TRANSITION_NONE),
      sg_transition_in_ms = (if fade_in then fade_ms else 0),
      sg_transition_out = (if fade_out then TRANSITION_FADE else TRANSITION_NONE),
      sg_transition_out_ms = (if fade_out then fade_ms else 0), sg_gain = gain\<rparr>"

definition placeholder :: "ms \<Rightarrow> scheduled_segment" where
  "placeholder dur = plain_segment ''filler'' [] 0 dur"

definition expanded_block :: "string \<Rightarrow> ms \<Rightarrow> ms \<Rightarrow> scheduled_segment list \<Rightarrow> scheduled_block" where
  "expanded_block asset_id start_utc_ms slot_ms segs =
     \<lparr>sb_id = make_block_id asset_id start_utc_ms, sb_start = start_utc_ms, sb_end = start_utc_ms + slot_ms,
      sb_segments = segs\<rparr>"

definition expand_movie :: "string \<Rightarrow> string \<Rightarrow> ms \<Rightarrow> ms \<Rightarrow> ms \<Rightarrow> rat \<Rightarrow> scheduled_block" where
  "expand_movie asset_id uri start_utc_ms slot_ms episode_ms gain =
     (let remaining_ms = max 0 (slot_ms - episode_ms)
      in expanded_block asset_id start_utc_ms slot_ms
           (act_segment uri gain 0 0 episode_ms False False
            # (if 0 < remaining_ms then [placeholder remaining_ms] else [])))"

text \<open>Break points with the set of those that were computed (second class).\<close>

definition computed_breaks :: "ms \<Rightarrow> int \<Rightarrow> ms list" where
  "computed_breaks episode_ms num_breaks =
     (if num_breaks \<le> 0 then []
      else let interval = fl (of_int episode_ms / of_int (num_breaks + 1))
           in map (\<lambda>i. py_trunc (fl (interval * of_int (int i + 1)))) [0..<nat num_breaks])"

definition break_points_of :: "ms \<Rightarrow> ms list option \<Rightarrow> int \<Rightarrow> ms list \<times> ms set" where
  "break_points_of episode_ms chapter_markers num_breaks =
     (case chapter_markers of
        Some (m # ms) \<Rightarrow> (sort (filter (\<lambda>bp. 0 < bp \<and> bp < episode_ms) (m # ms)), {})
      | _ \<Rightarrow> (computed_breaks episode_ms num_breaks, set (computed_breaks episode_ms num_breaks)))"

definition ad_share :: "ms \<Rightarrow> nat \<Rightarrow> nat \<Rightarrow> ms" where
  "ad_share total_ad_ms n i =
     (let ad_block_ms = total_ad_ms div int n; ad_remainder = total_ad_ms - ad_block_ms * int n
      in ad_block_ms + (if int i < ad_remainder then 1 else 0))"

text \<open>The loop over the break points; it hands on the last break and the pending fade.\<close>

fun network_loop ::
  "string \<Rightarrow> rat \<Rightarrow> ms \<Rightarrow> ms \<Rightarrow> nat \<Rightarrow> ms set \<Rightarrow> nat \<Rightarrow> ms \<Rightarrow> bool \<Rightarrow> ms list
    \<Rightarrow> scheduled_segment list \<times> ms \<times> bool" where
  "network_loop uri gain fade_ms total_ad n second i prev pending [] = ([], prev, pending)"
| "network_loop uri gain fade_ms total_ad n second i prev pending (bp # bps) =
     (let this_ad = ad_share total_ad n i;
          (segs, last_break, fade) =
            network_loop uri gain fade_ms total_ad n second (Suc i) bp (bp \<in> second \<and> 0 < this_ad) bps
      in (act_segment uri gain fade_ms prev (bp - prev) pending (bp \<in> second)
          # (if 0 < this_ad then [placeholder this_ad] else []) @ segs, last_break, fade))"

definition expand_network ::
  "string \<Rightarrow> string \<Rightarrow> ms \<Rightarrow> ms \<Rightarrow> ms \<Rightarrow> ms list option \<Rightarrow> int \<Rightarrow> ms \<Rightarrow> rat \<Rightarrow> scheduled_block" where
  "expand_network asset_id uri start_utc_ms slot_ms episode_ms chapter_markers num_breaks fade_ms gain =
     (let total_ad_ms = max 0 (slot_ms - episode_ms);
          (break_points, second) = break_points_of episode_ms chapter_markers num_breaks;
          (segs, prev_break, pending) =
            network_loop uri gain fade_ms total_ad_ms (length break_points) second 0 0 False break_points;
          final_act_ms = episode_ms - prev_break
      in expanded_block asset_id start_utc_ms slot_ms
           (segs @ (if 0 < final_act_ms
                    then [act_segment uri gain fade_ms prev_break final_act_ms pending False] else [])))"

definition expand_program_block ::
  "string \<Rightarrow> string \<Rightarrow> ms \<Rightarrow> ms \<Rightarrow> ms \<Rightarrow> ms list option \<Rightarrow> int \<Rightarrow> ms \<Rightarrow> string \<Rightarrow> rat \<Rightarrow> scheduled_block" where
  "expand_program_block asset_id uri start_utc_ms slot_ms episode_ms chapter_markers num_breaks fade_ms
     channel_type gain =
     (if channel_type = ''movie'' then expand_movie asset_id uri start_utc_ms slot_ms episode_ms gain
      else expand_network asset_id uri start_utc_ms slot_ms episode_ms chapter_markers num_breaks fade_ms gain)"

section \<open>Filling the breaks\<close>

partial_function (option) pick_spots ::
  "('s \<Rightarrow> ms \<Rightarrow> 's \<times> filler_asset list) \<Rightarrow> 's \<Rightarrow> ms \<Rightarrow> filler_asset list \<Rightarrow> ('s \<times> filler_asset list) option" where
  "pick_spots get_spots s remaining_ms picks =
     (if 0 < remaining_ms
      then (case get_spots s remaining_ms of
              (s', []) \<Rightarrow> Some (s', picks)
            | (s', pick # _) \<Rightarrow> pick_spots get_spots s' (remaining_ms - fa_duration pick) (picks @ [pick]))
      else Some (s, picks))"

declare pick_spots.simps [code]

definition spots_total :: "filler_asset list \<Rightarrow> ms" where
  "spots_total picks = sum_list (map fa_duration picks)"

text \<open>The remainder of the gap goes to the last pads.\<close>

definition pad_size :: "ms \<Rightarrow> nat \<Rightarrow> nat \<Rightarrow> ms" where
  "pad_size gap_ms n i =
     (if 0 < gap_ms \<and> 0 < n
      then gap_ms div int n + (if int n - gap_ms mod int n \<le> int i then 1 else 0) else 0)"

definition spot_segment :: "filler_asset \<Rightarrow> scheduled_segment" where
  "spot_segment f =
     plain_segment (if fa_type f \<in> {''filler'', ''promo'', ''ad'', ''commercial''} then fa_type f else ''filler'')
       (fa_uri f) 0 (fa_duration f)"

definition pad_segment :: "ms \<Rightarrow> scheduled_segment" where
  "pad_segment dur = plain_segment ''pad'' [] 0 dur"

fun spot_segments :: "ms \<Rightarrow> nat \<Rightarrow> nat \<Rightarrow> filler_asset list \<Rightarrow> scheduled_segment list" where
  "spot_segments gap_ms n i [] = []"
| "spot_segments gap_ms n i (f # fs) =
     spot_segment f # (if 0 < pad_size gap_ms n i then [pad_segment (pad_size gap_ms n i)] else [])
       @ spot_segments gap_ms n (Suc i) fs"

definition fill_break_with_interstitials ::
  "('s \<Rightarrow> ms \<Rightarrow> 's \<times> filler_asset list) \<Rightarrow> 's \<Rightarrow> ms \<Rightarrow> ('s \<times> scheduled_segment list option res) option" where
  "fill_break_with_interstitials get_spots s break_ms =
     (case pick_spots get_spots s break_ms [] of
        None \<Rightarrow> None
      | Some (s', picks) \<Rightarrow>
        (if picks = [] then Some (s', Inr None)
         else let gap_ms = break_ms - spots_total picks;
                  segs = spot_segments gap_ms (length picks) 0 picks
              in if total_duration segs = break_ms then Some (s', Inr (Some segs))
                 else Some (s', Inl (AssertionError ''INV-BREAK-PAD-EXACT-001''))))"

definition is_placeholder :: "scheduled_segment \<Rightarrow> bool" where
  "is_placeholder seg \<longleftrightarrow> sg_type seg = ''filler'' \<and> sg_uri seg = []"

definition static_filler :: "string \<Rightarrow> ms \<Rightarrow> scheduled_segment \<Rightarrow> scheduled_segment list res" where
  "static_filler filler_uri filler_ms seg =
     (if filler_ms < sg_duration seg then Inl (ValueError ''Ad break duration exceeds filler duration'')
      else Inr [plain_segment ''filler'' filler_uri 0 (sg_duration seg)])"

definition fill_segment ::
  "('s \<Rightarrow> ms \<Rightarrow> 's \<times> filler_asset list) option \<Rightarrow> string \<Rightarrow> ms \<Rightarrow> 's \<Rightarrow> scheduled_segment
    \<Rightarrow> ('s \<times> scheduled_segment list res) option" where
  "fill_segment library filler_uri filler_ms s seg =
     (if is_placeholder seg
      then (case library of
              None \<Rightarrow> Some (s, static_filler filler_uri filler_ms seg)
            | Some get_spots \<Rightarrow>
              (case fill_break_with_interstitials get_spots s (sg_duration seg) of
                 None \<Rightarrow> None
               | Some (s', Inl e) \<Rightarrow> Some (s', Inl e)
               | Some (s', Inr (Some filled)) \<Rightarrow>
                   Some (s', if filled \<noteq> [] then Inr filled else static_filler filler_uri filler_ms seg)
               | Some (s', Inr None) \<Rightarrow> Some (s', static_filler filler_uri filler_ms seg)))
      else Some (s, Inr [seg]))"

fun fill_segments ::
  "('s \<Rightarrow> ms \<Rightarrow> 's \<times> filler_asset list) option \<Rightarrow> string \<Rightarrow> ms \<Rightarrow> 's \<Rightarrow> scheduled_segment list
    \<Rightarrow> ('s \<times> scheduled_segment list res) option" where
  "fill_segments library filler_uri filler_ms s [] = Some (s, Inr [])"
| "fill_segments library filler_uri filler_ms s (seg # segs) =
     (case fill_segment library filler_uri filler_ms s seg of
        None \<Rightarrow> None
      | Some (s', Inl e) \<Rightarrow> Some (s', Inl e)
      | Some (s', Inr new) \<Rightarrow>
        (case fill_segments library filler_uri filler_ms s' segs of
           None \<Rightarrow> None
         | Some (s'', r) \<Rightarrow> Some (s'', map_sum id ((@) new) r)))"

definition fill_ad_blocks ::
  "('s \<Rightarrow> ms \<Rightarrow> 's \<times> filler_asset list) option \<Rightarrow> string \<Rightarrow> ms \<Rightarrow> 's \<Rightarrow> scheduled_block
    \<Rightarrow> ('s \<times> scheduled_block res) option" where
  "fill_ad_blocks library filler_uri filler_ms s block =
     (if filler_ms \<le> 0 then Some (s, Inl (ValueError ''filler_duration_ms must be positive''))
      else map_option (\<lambda>(s', r). (s', map_sum id (\<lambda>segs. block\<lparr>sb_segments := segs\<rparr>) r))
             (fill_segments library filler_uri filler_ms s (sb_segments block)))"


section \<open>Acts and advertisements\<close>

definition is_content :: "scheduled_segment \<Rightarrow> bool" where
  "is_content s \<longleftrightarrow> sg_type s = ''content''"

definition play_span :: "scheduled_segment \<Rightarrow> ms \<times> ms" where
  "play_span s = (sg_offset s, sg_offset s + sg_duration s)"

definition content_spans :: "scheduled_segment list \<Rightarrow> (ms \<times> ms) list" where
  "content_spans segs = map play_span (filter is_content segs)"

lemma segment_kinds [simp]:
  "is_content (act_segment u g f off dur a b)" "sg_duration (act_segment u g f off dur a b) = dur"
  "play_span (act_segment u g f off dur a b) = (off, off + dur)"
  "\<not> is_placeholder (act_segment u g f off dur a b)"
  "\<not> is_content (placeholder dur)" "sg_duration (placeholder dur) = dur" "is_placeholder (placeholder dur)"
  by (simp_all add: is_content_def act_segment_def play_span_def placeholder_def is_placeholder_def)

lemma content_spans_simps [simp]:
  "content_spans [] = []"
  "content_spans (s # ss) = (if is_content s then [play_span s] else []) @ content_spans ss"
  "content_spans (ss @ ts) = content_spans ss @ content_spans ts"
  by (simp_all add: content_spans_def)

lemma ad_share_spread: "0 < n \<Longrightarrow> ad_share amount n i = spread_front amount n i"
  by (simp add: ad_share_def spread_front_def Let_def minus_div_mult_eq_mod)

lemma ad_share_nonneg: "0 \<le> amount \<Longrightarrow> 0 < n \<Longrightarrow> 0 \<le> ad_share amount n i"
  by (simp add: ad_share_spread spread_front_nonneg)

lemma sum_ad_shares: "0 < n \<Longrightarrow> sum_list (map (ad_share amount n) [0..<n]) = amount"
proof -
  assume n: "0 < n"
  have "map (ad_share amount n) [0..<n] = map (spread_front amount n) [0..<n]"
    using n by (simp add: ad_share_spread)
  then show ?thesis using sum_spread_front [OF n] by metis
qed

lemma network_loop_result:
  assumes "0 \<le> amount" "0 < n"
  shows "network_loop u g f amount n second i prev pending bps = (segs, last_break, fade) \<Longrightarrow>
    last_break = last (prev # bps)
    \<and> total_duration segs = last_break - prev + sum_list (map (ad_share amount n) [i..<i + length bps])
    \<and> chained ((prev, prev) # content_spans segs @ [(last_break, last_break)])
    \<and> (sorted (prev # bps) \<longrightarrow> (\<forall>s \<in> set segs. 0 \<le> sg_duration s))
    \<and> (\<forall>s \<in> set segs. is_content s \<or> is_placeholder s)"
proof (induction bps arbitrary: i prev pending segs)
  case (Cons bp bps)
  let ?ad = "ad_share amount n i"
  obtain ss where rest: "network_loop u g f amount n second (Suc i) bp (bp \<in> second \<and> 0 < ?ad) bps = (ss, last_break, fade)"
    and segs: "segs = act_segment u g f prev (bp - prev) pending (bp \<in> second)
      # (if 0 < ?ad then [placeholder ?ad] else []) @ ss"
    using Cons.prems by (auto simp: Let_def split: prod.splits)
  note IH = Cons.IH [OF rest]
  have ad: "0 \<le> ?ad" using assms by (rule ad_share_nonneg)
  have pl: "total_duration (if 0 < ?ad then [placeholder ?ad] else []) = ?ad"
    "content_spans (if 0 < ?ad then [placeholder ?ad] else []) = []" using ad by auto
  have sum: "map (ad_share amount n) [i..<i + length (bp # bps)] = ?ad # map (ad_share amount n) [Suc i..<Suc i + length bps]"
    by (subst upt_conv_Cons) (simp_all del: upt_Suc)
  show ?case
  proof (intro conjI)
    show "last_break = last (prev # bp # bps)" using IH by simp
    show "total_duration segs = last_break - prev + sum_list (map (ad_share amount n) [i..<i + length (bp # bps)])"
      unfolding sum using IH pl by (simp add: segs)
    show "chained ((prev, prev) # content_spans segs @ [(last_break, last_break)])"
    proof -
      have "chained ((bp, bp) # content_spans ss @ [(last_break, last_break)])" using IH by (elim conjE)
      moreover have "content_spans segs = (prev, bp) # content_spans ss" unfolding segs using pl(2) by simp
      ultimately show ?thesis by (simp add: chained_Cons)
    qed
    show "sorted (prev # bp # bps) \<longrightarrow> (\<forall>s \<in> set segs. 0 \<le> sg_duration s)" using IH ad by (auto simp: segs)
    show "\<forall>s \<in> set segs. is_content s \<or> is_placeholder s" using IH by (auto simp: segs)
  qed
qed (auto simp: Let_def)

lemma computed_breaks_sorted:
  assumes "0 \<le> e" "e \<le> 2 ^ 53" "0 < n" "n \<le> 2 ^ 53"
  shows "sorted (0 # computed_breaks e n)" "\<forall>bp \<in> set (computed_breaks e n). bp \<le> e"
    "length (computed_breaks e n) = nat n"
proof -
  define q :: rat where "q = of_int e / of_int (n + 1)"
  define x where "x = fl q"
  have q: "0 \<le> q" "q * of_int (n + 1) = of_int e" using assms by (simp_all add: q_def)
  have x: "0 \<le> x" "x \<le> q + q / 2 ^ 53" using fl_nonneg [OF q(1)] fl_le_rel [OF q(1)] by (simp_all add: x_def)
  define b where "b = (\<lambda>i :: nat. py_trunc (fl (x * of_int (int i + 1))))"
  have cb: "computed_breaks e n = map b [0..<nat n]"
    using assms(3) by (simp add: computed_breaks_def Let_def b_def x_def q_def)
  then show "length (computed_breaks e n) = nat n" by simp
  have mono: "b i \<le> b j" if "i \<le> j" for i j
    unfolding b_def using that x(1) by (intro py_trunc_mono fl_mono mult_left_mono) simp_all
  have nonneg: "0 \<le> b i" for i
    unfolding b_def using x(1) by (intro py_trunc_nonneg fl_nonneg mult_nonneg_nonneg) simp_all
  have "sorted (map b [0..<k])" for k by (rule sorted_map_mono [of _ b]) (auto simp: mono_on_def mono)
  then show "sorted (0 # computed_breaks e n)" using nonneg by (auto simp: cb)
  have "b i \<le> e" if "i < nat n" for i
  proof -
    have i: "int i + 1 \<le> n" using that by linarith
    then have "(of_int (int i + 1) :: rat) \<le> of_int n" by (simp only: of_int_le_iff)
    then have "x * of_int (int i + 1) \<le> x * of_int n" using x(1) by (rule mult_left_mono)
    also have "\<dots> \<le> (q + q / 2 ^ 53) * of_int n" using x(2) assms(3) by (intro mult_right_mono) simp_all
    also have "\<dots> = q * of_int n + q * (of_int n / 2 ^ 53)" by (simp add: distrib_right)
    also have "\<dots> \<le> q * of_int n + q"
    proof -
      have "(of_int n :: rat) \<le> of_int (2 ^ 53)" using assms(4) by (simp only: of_int_le_iff)
      then have "of_int n / 2 ^ 53 \<le> (1 :: rat)" by simp
      then have "q * (of_int n / 2 ^ 53) \<le> q * 1" using q(1) by (rule mult_left_mono)
      then show ?thesis by simp
    qed
    also have "\<dots> = of_int e" using q(2) by (simp add: distrib_left)
    finally have "fl (x * of_int (int i + 1)) \<le> of_int e" using assms(1,2) by (intro fl_le_int) simp_all
    then have "py_trunc (fl (x * of_int (int i + 1))) \<le> py_trunc (of_int e)" by (rule py_trunc_mono)
    then show ?thesis by (simp add: b_def)
  qed
  then show "\<forall>bp \<in> set (computed_breaks e n). bp \<le> e" by (auto simp: cb)
qed

lemma break_points_sorted:
  assumes "0 \<le> e" "e \<le> 2 ^ 53" "n \<le> 2 ^ 53"
  shows "sorted (0 # fst (break_points_of e ms n))" "\<forall>bp \<in> set (fst (break_points_of e ms n)). bp \<le> e"
proof -
  have c: "sorted (0 # computed_breaks e n) \<and> (\<forall>bp \<in> set (computed_breaks e n). bp \<le> e)"
    using computed_breaks_sorted [of e n] assms by (cases "0 < n") (auto simp: computed_breaks_def)
  show "sorted (0 # fst (break_points_of e ms n))" "\<forall>bp \<in> set (fst (break_points_of e ms n)). bp \<le> e"
    using c by (auto simp: break_points_of_def split: option.splits list.splits)
qed

lemma expand_network_result:
  fixes g :: rat and f slot t :: ms and u a :: string
  assumes e: "0 \<le> e" "e \<le> 2 ^ 53" "n \<le> 2 ^ 53" and ne: "fst (break_points_of e ms n) \<noteq> []"
  defines "segs \<equiv> sb_segments (expand_network a u t slot e ms n f g)"
  shows "total_duration segs = max slot e" "chained ((0, 0) # content_spans segs @ [(e, e)])"
    "\<forall>s \<in> set segs. 0 \<le> sg_duration s" "\<forall>s \<in> set segs. is_content s \<or> is_placeholder s"
proof -
  define amount where "amount = max 0 (slot - e)"
  obtain bps second where bp: "break_points_of e ms n = (bps, second)" by fastforce
  have ne': "bps \<noteq> []" "0 < length bps" using ne bp by simp_all
  have srt: "sorted (0 # bps)" "\<forall>b \<in> set bps. b \<le> e" using break_points_sorted [OF e, of ms] bp by simp_all
  obtain ss lb fade where run: "network_loop u g f amount (length bps) second 0 0 False bps = (ss, lb, fade)"
    by (metis prod_cases3)
  have am: "0 \<le> amount" by (simp add: amount_def)
  note r = network_loop_result [OF am ne'(2) run]
  have lb: "lb \<le> e" using r srt(2) ne' by simp
  have sg: "segs = ss @ (if 0 < e - lb then [act_segment u g f lb (e - lb) fade False] else [])"
    using run bp by (simp add: segs_def expand_network_def expanded_block_def Let_def amount_def)
  have "total_duration ss = lb + amount" using r sum_ad_shares [OF ne'(2), of amount] by simp
  then show "total_duration segs = max slot e" using lb by (auto simp: sg amount_def)
  have "chained ((0, 0) # content_spans ss @ [(lb, lb)])" using r by (elim conjE)
  then have c: "chained (((0, 0) # content_spans ss) @ [(lb, lb)])" by (simp only: append_Cons)
  show "chained ((0, 0) # content_spans segs @ [(e, e)])"
  proof (cases "lb = e")
    case False
    from c have "chained (((0, 0) # content_spans ss) @ [(lb, e)])" unfolding chained_snoc by simp
    then have "chained ((((0, 0) # content_spans ss) @ [(lb, e)]) @ [(e, e)])" unfolding chained_snoc by simp
    then show ?thesis using lb False by (simp add: sg)
  next
    case True
    then show ?thesis using c by (simp only: sg append_Cons) simp
  qed
  show "\<forall>s \<in> set segs. 0 \<le> sg_duration s" "\<forall>s \<in> set segs. is_content s \<or> is_placeholder s"
    using r srt by (auto simp: sg)
qed


section \<open>Packing a break\<close>

lemma spots_total_simps [simp]:
  "spots_total [] = 0" "spots_total (f # fs) = fa_duration f + spots_total fs"
  "spots_total (fs @ gs) = spots_total fs + spots_total gs"
  by (simp_all add: spots_total_def)

lemma sum_back_extra: "m \<le> n \<Longrightarrow> sum_list (map (\<lambda>i. if n - m \<le> i then 1 else 0) [0..<n]) = (int m)"
proof -
  assume m: "m \<le> n"
  have "sum_list (map (\<lambda>i. if n - m \<le> i then 1 else (0::int)) ([0..<n - m] @ [n - m..<n])) = int m"
  proof -
    have "map (\<lambda>i. if n - m \<le> i then 1 else (0::int)) [0..<n - m] = map (\<lambda>_. 0) [0..<n - m]"
      "map (\<lambda>i. if n - m \<le> i then 1 else (0::int)) [n - m..<n] = map (\<lambda>_. 1) [n - m..<n]" by auto
    then show ?thesis using m by (simp add: sum_list_triv del: map_eq_conv)
  qed
  moreover have "[0..<n - m] @ [n - m..<n] = [0..<n]" using upt_add_eq_append [of 0 "n - m" m] m by simp
  ultimately show ?thesis by simp
qed

lemma sum_pad_sizes:
  assumes "0 \<le> gap" "0 < n"
  shows "sum_list (map (pad_size gap n) [0..<n]) = gap"
proof (cases "gap = 0")
  case False
  then have g: "0 < gap" using assms by simp
  define m where "m = nat (gap mod int n)"
  have m: "int m = gap mod int n" "m \<le> n" using assms(2) by (simp_all add: m_def nat_le_iff less_imp_le)
  have "pad_size gap n i = gap div int n + (if n - m \<le> i then 1 else 0)" for i
    using g assms(2) m by (auto simp: pad_size_def)
  then have e: "pad_size gap n = (\<lambda>i. gap div int n + (if n - m \<le> i then 1 else 0))" by (simp add: fun_eq_iff)
  have "sum_list (map (pad_size gap n) [0..<n]) = int n * (gap div int n) + int m"
    unfolding e sum_list_addf using sum_back_extra [OF m(2)] by (simp add: sum_list_triv)
  then show ?thesis using m(1) by simp
next
  case True
  then have "pad_size gap n = (\<lambda>_. 0)" by (simp add: pad_size_def fun_eq_iff)
  then show ?thesis using True by (simp add: sum_list_triv)
qed

lemma pad_size_nonneg: "0 \<le> pad_size gap n i"
  by (auto simp: pad_size_def pos_imp_zdiv_nonneg_iff)

lemma spot_segments_total:
  "total_duration (spot_segments gap n i fs) = spots_total fs + sum_list (map (pad_size gap n) [i..<i + length fs])"
proof (induction fs arbitrary: i)
  case (Cons f fs)
  have "map (pad_size gap n) [i..<i + length (f # fs)] = pad_size gap n i # map (pad_size gap n) [Suc i..<Suc i + length fs]"
    by (subst upt_conv_Cons) (simp_all del: upt_Suc)
  then show ?case using Cons.IH [of "Suc i"] pad_size_nonneg [of gap n i]
    by (simp add: spot_segment_def pad_segment_def del: upt_Suc)
qed simp

lemma spot_segments_kinds: "s \<in> set (spot_segments gap n i fs) \<Longrightarrow>
    (\<exists>f \<in> set fs. s = spot_segment f) \<or> sg_type s = ''pad''"
  by (induction fs arbitrary: i) (auto simp: pad_segment_def split: if_splits)

text \<open>
  What fills a block, without the loops: a break takes the first spot offered for the time that is left, then
  the first offered for the rest, until nothing is offered or no time is left; its replacement plays these
  spots in this order with pads between them, or the static filler when there is none.  The segments of a
  block are replaced one after the other, each asking the library as the one before has left it.
\<close>

fun drawn :: "('s \<Rightarrow> ms \<Rightarrow> 's \<times> filler_asset list) \<Rightarrow> 's \<Rightarrow> ms \<Rightarrow> filler_asset list \<Rightarrow> 's \<Rightarrow> bool" where
  "drawn get_spots s m [] s' \<longleftrightarrow> (if 0 < m then get_spots s m = (s', []) else s' = s)"
| "drawn get_spots s m (f # fs) s' \<longleftrightarrow> 0 < m
     \<and> (\<exists>s1 cs. get_spots s m = (s1, f # cs) \<and> drawn get_spots s1 (m - fa_duration f) fs s')"

definition is_pad :: "scheduled_segment \<Rightarrow> bool" where
  "is_pad x \<longleftrightarrow> sg_type x = ''pad''"

definition replaced ::
  "('s \<Rightarrow> ms \<Rightarrow> 's \<times> filler_asset list) \<Rightarrow> string \<Rightarrow> 's \<Rightarrow> scheduled_segment \<Rightarrow> scheduled_segment list \<Rightarrow> 's \<Rightarrow> bool" where
  "replaced get_spots filler_uri s seg part s' \<longleftrightarrow> total_duration part = sg_duration seg
     \<and> (if is_placeholder seg
        then \<exists>spots. drawn get_spots s (sg_duration seg) spots s'
          \<and> (if spots = [] then part = [plain_segment ''filler'' filler_uri 0 (sg_duration seg)]
             else filter (\<lambda>x. \<not> is_pad x) part = map spot_segment spots
               \<and> (\<forall>x \<in> set part. is_pad x \<longrightarrow> sg_uri x = [] \<and> 0 < sg_duration x))
        else part = [seg] \<and> s' = s)"

fun all_replaced ::
  "('s \<Rightarrow> ms \<Rightarrow> 's \<times> filler_asset list) \<Rightarrow> string \<Rightarrow> 's \<Rightarrow> scheduled_segment list \<Rightarrow> scheduled_segment list list
    \<Rightarrow> 's \<Rightarrow> bool" where
  "all_replaced get_spots filler_uri s [] [] s' \<longleftrightarrow> s' = s"
| "all_replaced get_spots filler_uri s (seg # segs) (part # parts) s' \<longleftrightarrow>
     (\<exists>s1. replaced get_spots filler_uri s seg part s1 \<and> all_replaced get_spots filler_uri s1 segs parts s')"
| "all_replaced get_spots filler_uri s _ _ s' \<longleftrightarrow> False"

lemma spot_segments_shape:
  "filter (\<lambda>x. \<not> is_pad x) (spot_segments gap n i fs) = map spot_segment fs
    \<and> (\<forall>x \<in> set (spot_segments gap n i fs). is_pad x \<longrightarrow> sg_uri x = [] \<and> 0 < sg_duration x)"
proof -
  have "\<not> is_pad (spot_segment f)" for f by (auto simp: is_pad_def spot_segment_def)
  moreover have "is_pad (pad_segment d)" "sg_uri (pad_segment d) = []" "sg_duration (pad_segment d) = d" for d
    by (simp_all add: is_pad_def pad_segment_def)
  ultimately show ?thesis by (induction fs arbitrary: i) auto
qed

context spot_source
begin

text \<open>Every round takes a spot of positive length that fits, so the loop ends within the break.\<close>

lemma pick_spots_result:
  assumes "source_ok s"
  shows "\<exists>s' new. pick_spots get_spots s m picks = Some (s', picks @ new) \<and> source_ok s'
    \<and> (0 \<le> m \<longrightarrow> spots_total new \<le> m) \<and> (m \<le> 0 \<longrightarrow> new = []) \<and> (\<forall>f \<in> set new. 0 < fa_duration f)
    \<and> drawn get_spots s m new s'"
  using assms
proof (induction "nat m" arbitrary: m s picks rule: less_induct)
  case less
  show ?case
  proof (cases "0 < m")
    case True
    obtain s1 cs where g: "get_spots s m = (s1, cs)" by fastforce
    note k = keeps [OF less.prems g]
    show ?thesis
    proof (cases cs)
      case Nil
      then show ?thesis using True g k by (subst pick_spots.simps) simp
    next
      case (Cons f fs)
      have f: "0 < fa_duration f" "fa_duration f \<le> m" using fits [OF less.prems g, of f] Cons by simp_all
      then have "nat (m - fa_duration f) < nat m" using True by simp
      from less.hyps [OF this k, of "picks @ [f]"] obtain s' new where
        r: "pick_spots get_spots s1 (m - fa_duration f) (picks @ [f]) = Some (s', (picks @ [f]) @ new)" "source_ok s'"
        "0 \<le> m - fa_duration f \<longrightarrow> spots_total new \<le> m - fa_duration f" "\<forall>f \<in> set new. 0 < fa_duration f"
        "drawn get_spots s1 (m - fa_duration f) new s'" by blast
      have "pick_spots get_spots s m picks = Some (s', picks @ f # new)"
        using True g Cons r(1) by (subst pick_spots.simps) simp
      then show ?thesis using r f True g Cons by (intro exI [of _ s'] exI [of _ "f # new"]) auto
    qed
  qed (use less.prems in \<open>subst pick_spots.simps, simp\<close>)
qed

text \<open>The assertion of the code never fails.\<close>

lemma fill_break_result:
  assumes "source_ok s"
  shows "\<exists>s' o'. fill_break_with_interstitials get_spots s m = Some (s', Inr o') \<and> source_ok s'
    \<and> (\<forall>segs. o' = Some segs \<longrightarrow> segs \<noteq> [] \<and> total_duration segs = m
        \<and> (\<exists>spots. drawn get_spots s m spots s' \<and> spots \<noteq> [] \<and> filter (\<lambda>x. \<not> is_pad x) segs = map spot_segment spots
          \<and> (\<forall>x \<in> set segs. is_pad x \<longrightarrow> sg_uri x = [] \<and> 0 < sg_duration x)))
    \<and> (o' = None \<longrightarrow> drawn get_spots s m [] s')"
proof -
  obtain s' new where r: "pick_spots get_spots s m [] = Some (s', new)" "source_ok s'"
    "0 \<le> m \<longrightarrow> spots_total new \<le> m" "m \<le> 0 \<longrightarrow> new = []" "drawn get_spots s m new s'"
    using pick_spots_result [OF assms, of m "[]"] by auto
  show ?thesis
  proof (cases "new = []")
    case False
    let ?gap = "m - spots_total new"
    have "0 \<le> ?gap" "0 < length new" using r(3,4) False by auto
    from sum_pad_sizes [OF this] have t: "total_duration (spot_segments ?gap (length new) 0 new) = m"
      by (simp add: spot_segments_total)
    have ne: "spot_segments ?gap (length new) 0 new \<noteq> []" using False by (cases new) simp_all
    have "\<exists>o'. fill_break_with_interstitials get_spots s m = Some (s', Inr o') \<and> o' = Some (spot_segments ?gap (length new) 0 new)"
      using r(1) False t by (simp add: fill_break_with_interstitials_def Let_def)
    then show ?thesis using r(2,5) False t ne spot_segments_shape [of ?gap "length new" 0 new] by auto
  qed (use r in \<open>simp add: fill_break_with_interstitials_def\<close>)
qed

lemma fill_segment_result:
  assumes "source_ok s"
  shows "\<exists>s' r. fill_segment (Some get_spots) uri fms s seg = Some (s', r) \<and> source_ok s'
    \<and> (\<forall>new. r = Inr new \<longrightarrow> replaced get_spots uri s seg new s')
    \<and> (\<forall>e. r = Inl e \<longrightarrow> is_placeholder seg \<and> fms < sg_duration seg)"
proof (cases "is_placeholder seg")
  case True
  obtain s' o' where f: "fill_break_with_interstitials get_spots s (sg_duration seg) = Some (s', Inr o')" "source_ok s'"
    "\<forall>segs. o' = Some segs \<longrightarrow> segs \<noteq> [] \<and> total_duration segs = sg_duration seg
        \<and> (\<exists>spots. drawn get_spots s (sg_duration seg) spots s' \<and> spots \<noteq> []
          \<and> filter (\<lambda>x. \<not> is_pad x) segs = map spot_segment spots
          \<and> (\<forall>x \<in> set segs. is_pad x \<longrightarrow> sg_uri x = [] \<and> 0 < sg_duration x))"
    "o' = None \<longrightarrow> drawn get_spots s (sg_duration seg) [] s'"
    using fill_break_result [OF assms, of "sg_duration seg"] by blast
  show ?thesis
  proof (cases o')
    case None
    then have "replaced get_spots uri s seg [plain_segment ''filler'' uri 0 (sg_duration seg)] s'"
      using True f(4) by (auto simp: replaced_def intro: exI [of _ "[]"])
    then show ?thesis using True f(1,2) None by (simp add: fill_segment_def static_filler_def)
  next
    case (Some segs)
    then have "replaced get_spots uri s seg segs s'" using True f(3) unfolding replaced_def by auto
    then show ?thesis using True f Some by (simp add: fill_segment_def)
  qed
qed (use assms in \<open>simp add: fill_segment_def replaced_def\<close>)

lemma fill_segments_result:
  assumes "source_ok s"
  shows "\<exists>s' r. fill_segments (Some get_spots) uri fms s segs = Some (s', r) \<and> source_ok s'
    \<and> (\<forall>out. r = Inr out \<longrightarrow> (\<exists>parts. out = concat parts \<and> all_replaced get_spots uri s segs parts s'))
    \<and> (\<forall>e. r = Inl e \<longrightarrow> (\<exists>seg \<in> set segs. is_placeholder seg \<and> fms < sg_duration seg))"
  using assms
proof (induction segs arbitrary: s)
  case Nil
  then show ?case by (auto intro: exI [of _ "[]"])
next
  case (Cons seg segs)
  obtain s1 r1 where 1: "fill_segment (Some get_spots) uri fms s seg = Some (s1, r1)" "source_ok s1"
    "\<forall>new. r1 = Inr new \<longrightarrow> replaced get_spots uri s seg new s1"
    "\<forall>e. r1 = Inl e \<longrightarrow> is_placeholder seg \<and> fms < sg_duration seg"
    using fill_segment_result [OF Cons.prems, of uri fms seg] by blast
  show ?case
  proof (cases r1)
    case (Inl e)
    then show ?thesis using 1 by auto
  next
    case (Inr new)
    obtain s2 r2 where 2: "fill_segments (Some get_spots) uri fms s1 segs = Some (s2, r2)" "source_ok s2"
      "\<forall>out. r2 = Inr out \<longrightarrow> (\<exists>parts. out = concat parts \<and> all_replaced get_spots uri s1 segs parts s2)"
      "\<forall>e. r2 = Inl e \<longrightarrow> (\<exists>seg \<in> set segs. is_placeholder seg \<and> fms < sg_duration seg)"
      using Cons.IH [OF 1(2)] by blast
    show ?thesis
    proof (cases r2)
      case (Inl e)
      then show ?thesis using 1 2 Inr by auto
    next
      case r2: (Inr out)
      then obtain parts where "out = concat parts" "all_replaced get_spots uri s1 segs parts s2" using 2(3) by blast
      then have "new @ out = concat (new # parts) \<and> all_replaced get_spots uri s (seg # segs) (new # parts) s2"
        using 1(3) Inr by auto
      then have "\<exists>ps. new @ out = concat ps \<and> all_replaced get_spots uri s (seg # segs) ps s2" by (rule exI)
      moreover have "fill_segments (Some get_spots) uri fms s (seg # segs) = Some (s2, Inr (new @ out))"
        using 1(1) 2(1) Inr r2 by simp
      ultimately show ?thesis using 2(2) by (intro exI [of _ s2] exI [of _ "Inr (new @ out)"]) simp
    qed
  qed
qed

end

text \<open>The parts keep their times, and whatever is not a placeholder stays.\<close>

lemma all_replaced_parts:
  "all_replaced get_spots uri s segs parts s' \<Longrightarrow> list_all2 (\<lambda>seg p. total_duration p = sg_duration seg
      \<and> (\<not> is_placeholder seg \<longrightarrow> p = [seg])) segs parts"
  by (induction get_spots uri s segs parts s' rule: all_replaced.induct) (auto simp: replaced_def)

lemma parts_total:
  "list_all2 (\<lambda>seg p. total_duration p = sg_duration seg \<and> Q seg p) segs parts \<Longrightarrow>
    total_duration (concat parts) = total_duration segs"
  by (induction rule: list_all2_induct) simp_all

context spot_source
begin

lemma fill_ad_blocks_filled:
  assumes "source_ok s" "0 < fms"
  shows "\<exists>s' r. fill_ad_blocks (Some get_spots) uri fms s block = Some (s', r) \<and> source_ok s'
    \<and> (\<forall>b. r = Inr b \<longrightarrow> sb_id b = sb_id block \<and> sb_start b = sb_start block \<and> sb_end b = sb_end block
        \<and> total_duration (sb_segments b) = total_duration (sb_segments block)
        \<and> (\<exists>parts. sb_segments b = concat parts \<and> all_replaced get_spots uri s (sb_segments block) parts s'))
    \<and> (\<forall>e. r = Inl e \<longrightarrow> (\<exists>seg \<in> set (sb_segments block). is_placeholder seg \<and> fms < sg_duration seg))"
proof -
  obtain s' r where f: "fill_segments (Some get_spots) uri fms s (sb_segments block) = Some (s', r)" "source_ok s'"
    "\<forall>out. r = Inr out \<longrightarrow> (\<exists>parts. out = concat parts \<and> all_replaced get_spots uri s (sb_segments block) parts s')"
    "\<forall>e. r = Inl e \<longrightarrow> (\<exists>seg \<in> set (sb_segments block). is_placeholder seg \<and> fms < sg_duration seg)"
    using fill_segments_result [OF assms(1), of uri fms "sb_segments block"] by blast
  show ?thesis
  proof (cases r)
    case (Inr out)
    then obtain parts where p: "out = concat parts" "all_replaced get_spots uri s (sb_segments block) parts s'"
      using f(3) by blast
    then show ?thesis using f(1,2) Inr assms(2) parts_total [OF all_replaced_parts [OF p(2)]]
      by (auto simp: fill_ad_blocks_def intro!: exI [of _ parts])
  qed (use f assms(2) in \<open>auto simp: fill_ad_blocks_def\<close>)
qed

end

section \<open>Worked example\<close>

definition demo_block :: scheduled_block where
  "demo_block = expand_program_block ''show'' ''show.mp4'' 0 1800000 1320000 None 3 500 ''network'' 0"

lemma demo_block_time:
  "total_duration (sb_segments demo_block) = 1800000"
  "\<forall>seg \<in> set (sb_segments demo_block). \<not> 1800000 < sg_duration seg"
proof -
  have ne: "fst (break_points_of 1320000 None 3) \<noteq> []" by code_simp
  have b: "sb_segments demo_block = sb_segments (expand_network ''show'' ''show.mp4'' 0 1800000 1320000 None 3 500 0)"
    by (simp add: demo_block_def expand_program_block_def)
  note r = expand_network_result [of 1320000 3, OF _ _ _ ne, of "''show''" "''show.mp4''" 0 1800000 500 0]
  show t: "total_duration (sb_segments demo_block) = 1800000" using r(1) by (simp add: b)
  have "0 \<le> sg_duration s" if "s \<in> set (sb_segments demo_block)" for s using r(3) that by (simp add: b)
  then have "sg_duration s \<le> 1800000" if "s \<in> set (sb_segments demo_block)" for s
    using sum_list_member_le [of "sb_segments demo_block" sg_duration s] that t by (simp add: total_duration_def)
  then show "\<forall>seg \<in> set (sb_segments demo_block). \<not> 1800000 < sg_duration seg" by (simp add: not_less)
qed

section \<open>Properties\<close>

text \<open>
  C30. An expanded block fills its slot: for an episode that is not longer than the slot, on a movie
  channel or with at least one break point, the durations of the segments are not negative and add
  up to the slot exactly, every segment is content or a placeholder, and the content segments play
  the episode once from beginning to end, one after the other.
\<close>

theorem expanded_block_fills_slot:
  assumes "0 \<le> episode_ms" "episode_ms \<le> slot_ms" "episode_ms \<le> 2 ^ 53" "num_breaks \<le> 2 ^ 53"
    and "channel_type \<noteq> ''movie'' \<longrightarrow> fst (break_points_of episode_ms markers num_breaks) \<noteq> []"
    and "b = expand_program_block asset_id uri start_ms slot_ms episode_ms markers num_breaks fade_ms channel_type gain"
  shows "total_duration (sb_segments b) = slot_ms \<and> sb_start b = start_ms \<and> sb_end b = start_ms + slot_ms
    \<and> (\<forall>s \<in> set (sb_segments b). 0 \<le> sg_duration s \<and> (is_content s \<or> is_placeholder s))
    \<and> chained ((0, 0) # content_spans (sb_segments b) @ [(episode_ms, episode_ms)])"
proof (cases "channel_type = ''movie''")
  case True
  then show ?thesis using assms(1,2) unfolding assms(6)
    by (auto simp: expand_program_block_def expand_movie_def expanded_block_def Let_def)
next
  case False
  then have "fst (break_points_of episode_ms markers num_breaks) \<noteq> []" using assms(5) by simp
  from expand_network_result [OF assms(1,3,4) this, of asset_id uri start_ms slot_ms fade_ms gain]
  show ?thesis using False assms(2) unfolding assms(6)
    by (simp add: expand_program_block_def max_def expand_network_def expanded_block_def Let_def split: prod.splits)
qed

theorem expanded_block_fills_slot_witness:
  "total_duration (sb_segments demo_block) = 1800000
    \<and> chained ((0, 0) # content_spans (sb_segments demo_block) @ [(1320000, 1320000)])"
proof -
  have "fst (break_points_of 1320000 None 3) \<noteq> []" by code_simp
  then show ?thesis
    using expanded_block_fills_slot [of 1320000 1800000 3 "''network''" None demo_block "''show''" "''show.mp4''" 0 500 0]
    by (simp add: demo_block_def)
qed

text \<open>
  A network block without a break point is short: when no breaks are asked for, or every chapter
  marker lies outside the episode, the time the slot has beyond the episode is in no segment.
\<close>

theorem network_block_without_breaks_is_short:
  assumes "fst (break_points_of episode_ms markers num_breaks) = []" "channel_type \<noteq> ''movie''" "0 < episode_ms"
  shows "total_duration (sb_segments (expand_program_block asset_id uri start_ms slot_ms episode_ms markers num_breaks
      fade_ms channel_type gain)) = episode_ms"
  using assms by (auto simp: expand_program_block_def expand_network_def expanded_block_def Let_def
      act_segment_def split: prod.splits)

theorem network_block_without_breaks_is_short_witness:
  "total_duration (sb_segments (expand_program_block ''show'' ''show.mp4'' 0 1800000 1320000 (Some [1320000]) 3 500
      ''network'' 0)) = 1320000"
proof -
  have "fst (break_points_of 1320000 (Some [1320000]) 3) = []" by code_simp
  then show ?thesis by (rule network_block_without_breaks_is_short) simp_all
qed

text \<open>
  C24. Filling the advertisements of a block with the channel's spots returns, keeps the block's identity
  and times, and replaces every placeholder by segments of exactly its length, touching no other segment.
  A replacement plays the spots drawn from the library for that break, in the order drawn: each is the first
  the library offers for the time that is left, drawing ends when nothing is offered or no time is left,
  and every break draws from the library as the one before left it.  Only silent pads of positive length
  stand beside the spots; a break for which nothing is offered plays the static filler.  Filling fails only
  when a placeholder is longer than the static filler; the assertion on the length of a filled break never.
\<close>

theorem fill_ad_blocks_plays_offers:
  assumes "shuffles w" "0 < filler_ms"
  shows "\<exists>w' r. fill_ad_blocks (Some (\<lambda>w m. db_get_filler_assets w m 5)) filler_uri filler_ms w block = Some (w', r)
    \<and> (\<forall>b. r = Inr b \<longrightarrow> sb_id b = sb_id block \<and> sb_start b = sb_start block \<and> sb_end b = sb_end block
        \<and> total_duration (sb_segments b) = total_duration (sb_segments block)
        \<and> (\<exists>parts. sb_segments b = concat parts
            \<and> all_replaced (\<lambda>w m. db_get_filler_assets w m 5) filler_uri w (sb_segments block) parts w'))
    \<and> (\<forall>e. r = Inl e \<longrightarrow> (\<exists>seg \<in> set (sb_segments block). is_placeholder seg \<and> filler_ms < sg_duration seg))"
  using db_spots.fill_ad_blocks_filled [OF assms, of filler_uri block] by blast

theorem fill_ad_blocks_plays_offers_witness:
  "\<exists>w' b. fill_ad_blocks (Some (\<lambda>w m. db_get_filler_assets w m 5)) ''filler.mp4'' 1800000 demo_traffic demo_block
      = Some (w', Inr b) \<and> total_duration (sb_segments b) = 1800000"
proof -
  have "0 < (1800000 :: int)" by simp
  from fill_ad_blocks_plays_offers [OF demo_traffic_shuffles this, of "''filler.mp4''" demo_block]
  obtain w' r where run: "fill_ad_blocks (Some (\<lambda>w m. db_get_filler_assets w m 5)) ''filler.mp4'' 1800000 demo_traffic
      demo_block = Some (w', r)"
    and ok: "\<forall>b. r = Inr b \<longrightarrow> total_duration (sb_segments b) = total_duration (sb_segments demo_block)"
    and err: "\<forall>e. r = Inl e \<longrightarrow> (\<exists>seg \<in> set (sb_segments demo_block). is_placeholder seg \<and> 1800000 < sg_duration seg)"
    by blast
  show ?thesis
  proof (cases r)
    case (Inl e)
    then show ?thesis using err demo_block_time(2) by simp
  next
    case (Inr b)
    then show ?thesis using run ok demo_block_time(1) by simp
  qed
qed

end
