(* ===== verification/AsRun_Reconcile.thy ===== *)
theory AsRun_Reconcile
  imports Planning_Assemble
begin

text \<open>
  Reconciliation of a plan with what aired: the as-run types of \<^verbatim>\<open>runtime/asrun_types.py\<close> and
  \<^verbatim>\<open>reconcile_transmission_log\<close> of \<^verbatim>\<open>runtime/asrun_reconciler.py\<close>.  The report of the code is two
  lists it appends to; here the checks produce, in the order of the code, the notes these appends
  stem from, each with the classification it belongs to, and the report is read off the notes.  An
  error is a value with the data its message is formatted from.
\<close>

record asrun_segment =
  as_type :: string
  as_uri :: "string option"
  as_offset :: "ms option"
  as_duration :: ms
  as_recovery :: bool
  as_degradation :: bool

record asrun_block =
  ab_id :: string
  ab_start :: ms
  ab_end :: ms
  ab_segments :: "asrun_segment list"

record asrun_log =
  al_channel :: string
  al_date :: date
  al_blocks :: "asrun_block list"

type_synonym segment_key = "string \<times> string option \<times> ms option \<times> ms"

datatype asrun_error =
    MissingBlock string
  | ExtraBlock string
  | DuplicateBlock string
  | StartMismatch string ms ms
  | EndMismatch string ms ms
  | PhantomSegment string string
  | SequenceMismatch string nat segment_key segment_key
  | MissingSegments string nat

datatype rnote = Fault asrun_error string | Mark string

record reconciliation_report =
  rp_success :: bool
  rp_errors :: "asrun_error list"
  rp_classification :: "string list"

section \<open>Keys\<close>

definition planned_segment_key :: "log_segment \<Rightarrow> segment_key" where
  "planned_segment_key s =
     (ls_type s, (case ls_uri s of Some (c # cs) \<Rightarrow> Some (c # cs) | _ \<Rightarrow> None), ls_offset s, ls_duration s)"

definition asrun_segment_key :: "asrun_segment \<Rightarrow> segment_key" where
  "asrun_segment_key s = (as_type s, as_uri s, as_offset s, as_duration s)"

section \<open>The checks\<close>

text \<open>\<open>{e.block_id: e for e in entries}\<close>, and the blocks of each identifier in the order of first sight.\<close>

definition plan_by_id :: "log_entry list \<Rightarrow> (string \<times> log_entry) list" where
  "plan_by_id entries = foldl (\<lambda>d e. dict_set (le_block_id e) e d) [] entries"

definition blocks_of :: "asrun_block list \<Rightarrow> string \<Rightarrow> asrun_block list" where
  "blocks_of blocks bid = filter (\<lambda>b. ab_id b = bid) blocks"

fun ids_seen :: "string list \<Rightarrow> string list \<Rightarrow> string list" where
  "ids_seen acc [] = acc"
| "ids_seen acc (i # is) = ids_seen (if i \<in> set acc then acc else acc @ [i]) is"

definition coverage_notes :: "(string \<times> log_entry) list \<Rightarrow> asrun_block list \<Rightarrow> rnote list" where
  "coverage_notes plan blocks =
     (let seen = ids_seen [] (map ab_id blocks)
      in concat (map (\<lambda>(bid, _). if bid \<notin> set seen then [Fault (MissingBlock bid) ''MISSING_BLOCK''] else []) plan)
         @ concat (map (\<lambda>bid.
             if bid \<notin> set (map fst plan) then [Fault (ExtraBlock bid) ''EXTRA_BLOCK'']
             else if 1 < length (blocks_of blocks bid) then [Fault (DuplicateBlock bid) ''EXTRA_BLOCK'']
             else []) seen))"

definition matched_blocks ::
  "(string \<times> log_entry) list \<Rightarrow> asrun_block list \<Rightarrow> (string \<times> log_entry \<times> asrun_block) list" where
  "matched_blocks plan blocks =
     concat (map (\<lambda>(bid, e). case blocks_of blocks bid of [b] \<Rightarrow> [(bid, e, b)] | _ \<Rightarrow> []) plan)"

definition timing_notes :: "string \<times> log_entry \<times> asrun_block \<Rightarrow> rnote list" where
  "timing_notes m = (case m of (bid, e, b) \<Rightarrow>
     (if ab_start b \<noteq> le_start e
      then [Fault (StartMismatch bid (le_start e) (ab_start b)) ''BLOCK_TIME_MISMATCH''] else [])
     @ (if ab_end b \<noteq> le_end e
        then [Fault (EndMismatch bid (le_end e) (ab_end b)) ''BLOCK_TIME_MISMATCH''] else []))"

text \<open>The walk along the plan; a segment beyond its end is a phantom.\<close>

fun compare_segments :: "string \<Rightarrow> nat \<Rightarrow> segment_key list \<Rightarrow> asrun_segment list \<Rightarrow> rnote list" where
  "compare_segments bid idx [] [] = []"
| "compare_segments bid idx planned [] =
     [Fault (MissingSegments bid (length planned)) ''SEGMENT_SEQUENCE_MISMATCH'']"
| "compare_segments bid idx [] (a # as) =
     Fault (PhantomSegment bid (as_type a)) ''PHANTOM_SEGMENT'' # compare_segments bid idx [] as"
| "compare_segments bid idx (p # ps) (a # as) =
     (if asrun_segment_key a \<noteq> p
      then [Fault (SequenceMismatch bid idx p (asrun_segment_key a)) ''SEGMENT_SEQUENCE_MISMATCH''] else [])
     @ compare_segments bid (Suc idx) ps as"

definition segment_notes :: "string \<times> log_entry \<times> asrun_block \<Rightarrow> rnote list" where
  "segment_notes m = (case m of (bid, e, b) \<Rightarrow>
     (if filter as_recovery (ab_segments b) \<noteq> [] then [Mark ''RUNTIME_RECOVERY''] else [])
     @ (if filter (\<lambda>s. as_recovery s \<and> as_degradation s) (ab_segments b) \<noteq> []
        then [Mark ''RUNWAY_DEGRADATION''] else [])
     @ compare_segments bid 0 (map planned_segment_key (le_segments e))
         (filter (\<lambda>s. \<not> as_recovery s) (ab_segments b)))"

definition reconcile_notes :: "transmission_log \<Rightarrow> asrun_log \<Rightarrow> rnote list" where
  "reconcile_notes tlog arlog =
     (let plan = plan_by_id (tl_entries tlog); blocks = al_blocks arlog; matched = matched_blocks plan blocks
      in coverage_notes plan blocks @ concat (map timing_notes matched) @ concat (map segment_notes matched))"

section \<open>The report\<close>

fun errors_of :: "rnote list \<Rightarrow> asrun_error list" where
  "errors_of [] = []"
| "errors_of (Fault e c # ns) = e # errors_of ns"
| "errors_of (Mark c # ns) = errors_of ns"

fun class_of :: "rnote \<Rightarrow> string" where
  "class_of (Fault e c) = c"
| "class_of (Mark c) = c"

definition reconcile_transmission_log :: "transmission_log \<Rightarrow> asrun_log \<Rightarrow> reconciliation_report" where
  "reconcile_transmission_log tlog arlog =
     (let notes = reconcile_notes tlog arlog; errors = errors_of notes
      in \<lparr>rp_success = (length errors = 0), rp_errors = errors,
          rp_classification = ids_seen [] (map class_of notes)\<rparr>)"

section \<open>Lemmas\<close>

lemma set_ids_seen [simp]: "set (ids_seen acc is) = set acc \<union> set is"
  by (induction acc "is" rule: ids_seen.induct) auto

lemma errors_append [simp]: "errors_of (ns @ ms) = errors_of ns @ errors_of ms"
  by (induction ns rule: errors_of.induct) auto

lemma errors_concat: "errors_of (concat (map f xs)) = [] \<longleftrightarrow> (\<forall>x \<in> set xs. errors_of (f x) = [])"
  by (induction xs) auto

lemma no_errors_iff: "errors_of ns = [] \<longleftrightarrow> (\<forall>n \<in> set ns. \<exists>c. n = Mark c)"
  by (induction ns rule: errors_of.induct) auto

lemma compare_segments_ok: "errors_of (compare_segments bid idx ps as) = [] \<longleftrightarrow> map asrun_segment_key as = ps"
  by (induction bid idx ps as rule: compare_segments.induct) auto

lemma plan_by_id_snoc: "plan_by_id (es @ [e]) = dict_set (le_block_id e) e (plan_by_id es)"
  by (simp add: plan_by_id_def)

lemma plan_by_id_facts:
  "set (map fst (plan_by_id es)) = set (map le_block_id es) \<and> distinct (map fst (plan_by_id es))
    \<and> (\<forall>(i, e) \<in> set (plan_by_id es). e \<in> set es \<and> le_block_id e = i)"
proof (induction es rule: rev_induct)
  case (snoc e es)
  have "\<forall>(i, x) \<in> set (dict_set (le_block_id e) e d). x \<in> set (es @ [e]) \<and> le_block_id x = i"
    if "\<forall>(i, x) \<in> set d. x \<in> set es \<and> le_block_id x = i" for d
    using that by (induction d) auto
  from this [of "plan_by_id es"] show ?case using snoc
    unfolding plan_by_id_snoc keys_dict_set by (simp add: distinct_dict_set)
qed (simp add: plan_by_id_def)

lemma plan_by_id_distinct:
  "distinct (map le_block_id es) \<Longrightarrow> plan_by_id es = map (\<lambda>e. (le_block_id e, e)) es"
proof (induction es rule: rev_induct)
  case (snoc e es)
  have new: "dict_set k v d = d @ [(k, v)]" if "k \<notin> set (map fst d)" for k and v :: log_entry and d
    using that by (induction d) auto
  have es: "plan_by_id es = map (\<lambda>e. (le_block_id e, e)) es" using snoc by simp
  then have "le_block_id e \<notin> set (map fst (plan_by_id es))" using snoc.prems by (simp add: image_image)
  from new [OF this] show ?case by (simp add: plan_by_id_snoc es)
qed (simp add: plan_by_id_def)

lemma blocks_of_once:
  "distinct (map ab_id bs) \<longleftrightarrow> (\<forall>i \<in> set (map ab_id bs). length (blocks_of bs i) = 1)"
proof (induction bs)
  case (Cons b bs)
  have "length (blocks_of (b # bs) i) = (if ab_id b = i then Suc else id) (length (blocks_of bs i))" for i
    by (simp add: blocks_of_def)
  moreover have "blocks_of bs i = [] \<longleftrightarrow> i \<notin> set (map ab_id bs)" for i
    by (auto simp: blocks_of_def filter_empty_conv)
  ultimately show ?case using Cons by auto
qed simp

lemma coverage_ok:
  "errors_of (coverage_notes plan bs) = [] \<longleftrightarrow>
    set (map fst plan) = set (map ab_id bs) \<and> (\<forall>i \<in> set (map ab_id bs). \<not> 1 < length (blocks_of bs i))"
proof -
  let ?ids = "set (map ab_id bs)"
  have 1: "errors_of (case p of (bid, _) \<Rightarrow> if bid \<notin> ?ids then [Fault (MissingBlock bid) ''MISSING_BLOCK''] else [])
      = [] \<longleftrightarrow> fst p \<in> ?ids" for p :: "string \<times> log_entry"
    by (cases p) simp
  have 2: "errors_of (if bid \<notin> set (map fst plan) then [Fault (ExtraBlock bid) ''EXTRA_BLOCK'']
      else if 1 < length (blocks_of bs bid) then [Fault (DuplicateBlock bid) ''EXTRA_BLOCK''] else []) = []
      \<longleftrightarrow> bid \<in> set (map fst plan) \<and> \<not> 1 < length (blocks_of bs bid)" for bid
    by simp
  have "set (ids_seen [] (map ab_id bs)) = ?ids" by simp
  then have "errors_of (coverage_notes plan bs) = [] \<longleftrightarrow> (\<forall>p \<in> set plan. fst p \<in> ?ids)
      \<and> (\<forall>i \<in> ?ids. i \<in> set (map fst plan) \<and> \<not> 1 < length (blocks_of bs i))"
    unfolding coverage_notes_def Let_def errors_append append_is_Nil_conv errors_concat 2 by (simp only: 1)
  moreover have "(\<forall>p \<in> set plan. fst p \<in> ?ids) \<longleftrightarrow> set (map fst plan) \<subseteq> ?ids" by auto
  ultimately show ?thesis by blast
qed


lemma timing_ok:
  "errors_of (timing_notes (bid, e, b)) = [] \<longleftrightarrow> ab_start b = le_start e \<and> ab_end b = le_end e"
  by (simp add: timing_notes_def)

lemma segments_ok:
  "errors_of (segment_notes (bid, e, b)) = [] \<longleftrightarrow>
    map asrun_segment_key (filter (\<lambda>s. \<not> as_recovery s) (ab_segments b)) = map planned_segment_key (le_segments e)"
  by (simp add: segment_notes_def compare_segments_ok)

lemma matched_iff:
  "(bid, e, b) \<in> set (matched_blocks plan bs) \<longleftrightarrow> (bid, e) \<in> set plan \<and> blocks_of bs bid = [b]"
  by (auto simp: matched_blocks_def split: list.splits)

definition aired_as_planned :: "log_entry \<Rightarrow> asrun_block \<Rightarrow> bool" where
  "aired_as_planned e b \<longleftrightarrow> ab_start b = le_start e \<and> ab_end b = le_end e
     \<and> map asrun_segment_key (filter (\<lambda>s. \<not> as_recovery s) (ab_segments b)) = map planned_segment_key (le_segments e)"

lemma matched_ok:
  "errors_of (concat (map timing_notes ms)) = [] \<and> errors_of (concat (map segment_notes ms)) = [] \<longleftrightarrow>
    (\<forall>(bid, e, b) \<in> set ms. aired_as_planned e b)"
  unfolding errors_concat by (auto simp: aired_as_planned_def timing_ok segments_ok)

lemma reconcile_ok:
  assumes "distinct (map le_block_id (tl_entries tlog))"
  shows "errors_of (reconcile_notes tlog arlog) = [] \<longleftrightarrow>
    distinct (map ab_id (al_blocks arlog))
    \<and> set (map le_block_id (tl_entries tlog)) = set (map ab_id (al_blocks arlog))
    \<and> (\<forall>e \<in> set (tl_entries tlog). \<forall>b \<in> set (al_blocks arlog). ab_id b = le_block_id e \<longrightarrow> aired_as_planned e b)"
proof -
  let ?es = "tl_entries tlog" and ?bs = "al_blocks arlog"
  let ?plan = "map (\<lambda>e. (le_block_id e, e)) ?es"
  have shape: "reconcile_notes tlog arlog = coverage_notes ?plan ?bs
      @ concat (map timing_notes (matched_blocks ?plan ?bs)) @ concat (map segment_notes (matched_blocks ?plan ?bs))"
    using plan_by_id_distinct [OF assms] by (simp add: reconcile_notes_def Let_def)
  have keys: "set (map fst ?plan) = set (map le_block_id ?es)" by (simp add: image_image)
  have once: "(\<forall>i \<in> set (map ab_id ?bs). \<not> 1 < length (blocks_of ?bs i)) \<longleftrightarrow> distinct (map ab_id ?bs)"
  proof -
    have "0 < length (blocks_of ?bs i)" if "i \<in> set (map ab_id ?bs)" for i
      using that by (auto simp: blocks_of_def filter_empty_conv)
    then show ?thesis unfolding blocks_of_once by (metis One_nat_def Suc_lessI less_irrefl)
  qed
  have match: "(\<forall>(bid, e, b) \<in> set (matched_blocks ?plan ?bs). aired_as_planned e b) \<longleftrightarrow>
      (\<forall>e \<in> set ?es. \<forall>b \<in> set ?bs. ab_id b = le_block_id e \<longrightarrow> aired_as_planned e b)"
    if d: "distinct (map ab_id ?bs)"
  proof -
    have "blocks_of ?bs i = [b] \<longleftrightarrow> b \<in> set ?bs \<and> ab_id b = i" for i b
    proof
      assume b: "b \<in> set ?bs \<and> ab_id b = i"
      then have "length (blocks_of ?bs i) = 1" using d unfolding blocks_of_once by auto
      moreover have "b \<in> set (blocks_of ?bs i)" using b by (simp add: blocks_of_def)
      ultimately show "blocks_of ?bs i = [b]" by (auto simp: length_Suc_conv)
    next
      assume "blocks_of ?bs i = [b]"
      then have "b \<in> set (blocks_of ?bs i)" by simp
      then show "b \<in> set ?bs \<and> ab_id b = i" by (simp add: blocks_of_def)
    qed
    then have m: "(bid, e, b) \<in> set (matched_blocks ?plan ?bs) \<longleftrightarrow>
        e \<in> set ?es \<and> bid = le_block_id e \<and> b \<in> set ?bs \<and> ab_id b = bid" for bid e b
      by (auto simp: matched_iff)
    show ?thesis
    proof (intro iffI ballI impI)
      fix e b
      assume all: "\<forall>(bid, e, b) \<in> set (matched_blocks ?plan ?bs). aired_as_planned e b"
        and "e \<in> set ?es" "b \<in> set ?bs" "ab_id b = le_block_id e"
      then have "(le_block_id e, e, b) \<in> set (matched_blocks ?plan ?bs)" unfolding m by simp
      from bspec [OF all this] show "aired_as_planned e b" by simp
    next
      fix p
      assume all: "\<forall>e \<in> set ?es. \<forall>b \<in> set ?bs. ab_id b = le_block_id e \<longrightarrow> aired_as_planned e b"
        and p: "p \<in> set (matched_blocks ?plan ?bs)"
      obtain bid e b where "p = (bid, e, b)" by (cases p) auto
      then show "case p of (bid, e, b) \<Rightarrow> aired_as_planned e b" using all p m by simp
    qed
  qed
  show ?thesis
    unfolding shape errors_append append_is_Nil_conv coverage_ok keys once matched_ok using match by blast
qed

text \<open>Every fault carries a classification of its own kind.\<close>

definition fault_classes :: "string set" where
  "fault_classes = {''MISSING_BLOCK'', ''EXTRA_BLOCK'', ''BLOCK_TIME_MISMATCH'', ''PHANTOM_SEGMENT'',
     ''SEGMENT_SEQUENCE_MISMATCH''}"

definition note_ok :: "rnote \<Rightarrow> bool" where
  "note_ok n = (case n of Fault e c \<Rightarrow> c \<in> fault_classes | Mark c \<Rightarrow> c \<notin> fault_classes)"

lemma compare_notes_ok: "\<forall>n \<in> set (compare_segments bid idx ps as). note_ok n"
  by (induction bid idx ps as rule: compare_segments.induct) (auto simp: note_ok_def fault_classes_def)

lemma reconcile_notes_ok: "n \<in> set (reconcile_notes tlog arlog) \<Longrightarrow> note_ok n"
  using compare_notes_ok
  by (auto simp: reconcile_notes_def Let_def coverage_notes_def timing_notes_def segment_notes_def
      note_ok_def fault_classes_def split: if_splits)

lemma classification_faults:
  "errors_of (reconcile_notes tlog arlog) = [] \<longleftrightarrow>
    set (map class_of (reconcile_notes tlog arlog)) \<inter> fault_classes = {}"
proof -
  have "errors_of ns = [] \<longleftrightarrow> set (map class_of ns) \<inter> fault_classes = {}" if "\<forall>n \<in> set ns. note_ok n" for ns
    using that by (induction ns rule: errors_of.induct) (auto simp: note_ok_def)
  then show ?thesis using reconcile_notes_ok by blast
qed

lemma distinct_ids_seen: "distinct acc \<Longrightarrow> distinct (ids_seen acc is)"
  by (induction acc "is" rule: ids_seen.induct) auto

lemma report_faults:
  "rp_errors (reconcile_transmission_log tlog arlog) \<noteq> [] \<longleftrightarrow>
    (\<exists>c \<in> set (rp_classification (reconcile_transmission_log tlog arlog)). c \<in> fault_classes)"
  using classification_faults [of tlog arlog]
  by (simp add: reconcile_transmission_log_def Let_def disjoint_iff)

section \<open>Worked example\<close>

definition demo_planned :: transmission_log where
  "demo_planned = \<lparr>tl_channel = ''ch'', tl_date = 20000,
     tl_entries = [\<lparr>le_block_id = ''b0'', le_index = 0, le_start = 0, le_end = 60000,
       le_segments = [\<lparr>ls_index = Some 0, ls_uri = Some ''a.mp4'', ls_offset = Some 0, ls_duration = 60000,
         ls_type = ''episode'', ls_event_id = None\<rparr>]\<rparr>],
     tl_locked = True, tl_metadata = \<lparr>md_generation_time = None, md_grid_minutes = Some 1, md_start_hour = None,
       md_locked_at = None, md_log_id = None\<rparr>\<rparr>"

definition demo_aired :: asrun_log where
  "demo_aired = \<lparr>al_channel = ''ch'', al_date = 20000,
     al_blocks = [\<lparr>ab_id = ''b0'', ab_start = 0, ab_end = 60000,
       ab_segments = [\<lparr>as_type = ''filler'', as_uri = None, as_offset = None, as_duration = 500,
           as_recovery = True, as_degradation = False\<rparr>,
         \<lparr>as_type = ''episode'', as_uri = Some ''a.mp4'', as_offset = Some 0, as_duration = 60000,
           as_recovery = False, as_degradation = False\<rparr>]\<rparr>]\<rparr>"

section \<open>Properties\<close>

text \<open>
  C31. Reconciliation succeeds exactly on what was planned: for a plan whose blocks have distinct
  identifiers, it reports success if and only if every planned block aired exactly once, nothing
  else aired, and every block has its planned start and end, also when it holds recovery segments, and,
  recovery segments aside, its planned segments in order with their asset, offset and duration.  The
  contract (INV-ASRUN-002) exempts recovery from the strict times; the code does not.
\<close>

theorem reconcile_succeeds_iff:
  assumes "distinct (map le_block_id (tl_entries tlog))"
  shows "rp_success (reconcile_transmission_log tlog arlog) \<longleftrightarrow>
    distinct (map ab_id (al_blocks arlog))
    \<and> set (map le_block_id (tl_entries tlog)) = set (map ab_id (al_blocks arlog))
    \<and> (\<forall>e \<in> set (tl_entries tlog). \<forall>b \<in> set (al_blocks arlog). ab_id b = le_block_id e \<longrightarrow>
        ab_start b = le_start e \<and> ab_end b = le_end e
        \<and> map asrun_segment_key (filter (\<lambda>s. \<not> as_recovery s) (ab_segments b))
          = map planned_segment_key (le_segments e))"
  using reconcile_ok [OF assms, of arlog]
  by (simp add: reconcile_transmission_log_def Let_def aired_as_planned_def)

theorem reconcile_succeeds_iff_witness:
  "rp_success (reconcile_transmission_log demo_planned demo_aired)
    \<and> \<not> rp_success (reconcile_transmission_log demo_planned (demo_aired\<lparr>al_blocks := []\<rparr>))"
proof -
  have d: "distinct (map le_block_id (tl_entries demo_planned))" by (simp add: demo_planned_def)
  show ?thesis unfolding reconcile_succeeds_iff [OF d]
    by (simp add: demo_planned_def demo_aired_def asrun_segment_key_def planned_segment_key_def)
qed

text \<open>
  The classification of a report explains its errors: there is an error exactly when one of the
  fault classes is listed, recovery and degradation alone never fail a report, and no class is
  listed twice.
\<close>

theorem reconcile_classification:
  "(rp_errors (reconcile_transmission_log tlog arlog) \<noteq> [] \<longleftrightarrow>
      (\<exists>c \<in> set (rp_classification (reconcile_transmission_log tlog arlog)). c \<in> fault_classes))
    \<and> (rp_success (reconcile_transmission_log tlog arlog) \<longleftrightarrow>
        rp_errors (reconcile_transmission_log tlog arlog) = [])
    \<and> distinct (rp_classification (reconcile_transmission_log tlog arlog))"
  unfolding report_faults by (simp add: distinct_ids_seen reconcile_transmission_log_def Let_def)

end
