(* ===== verification/Join_In_Progress.thy ===== *)
theory Join_In_Progress
  imports Schedule_Types
begin

text \<open>
  Joining a block in progress, from \<^verbatim>\<open>runtime/channel_manager.py\<close>: the segment dictionaries of a
  \<^verbatim>\<open>BlockPlan\<close> as records (a key that may be absent is an option), \<^verbatim>\<open>_apply_jip_to_segments\<close>, which
  drops what has already played and pads the block to its end, and \<^verbatim>\<open>compute_jip_position\<close>, the
  position in a cyclic plan.  What a list of segments shows at an instant is stated by \<open>on_air\<close>.
\<close>

section \<open>Segments of a block plan\<close>

record plan_segment =
  bg_index :: "nat option"
  bg_type :: string
  bg_uri :: "string option"
  bg_offset :: "ms option"
  bg_duration :: ms
  bg_in :: "(transition \<times> ms) option"
  bg_out :: "(transition \<times> ms) option"
  bg_gain :: "rat option"

definition plan_total :: "plan_segment list \<Rightarrow> ms" where
  "plan_total segs = sum_list (map bg_duration segs)"

lemma plan_total_simps [simp, rv_sums]:
  "plan_total [] = 0"
  "plan_total (s # segs) = bg_duration s + plan_total segs"
  "plan_total (xs @ ys) = plan_total xs + plan_total ys"
  by (simp_all add: plan_total_def)

definition has_uri :: "plan_segment \<Rightarrow> bool" where
  "has_uri s \<longleftrightarrow> (case bg_uri s of None \<Rightarrow> False | Some u \<Rightarrow> u \<noteq> [])"

text \<open>The trim of the segment that is on air; \<open>get("asset_start_offset_ms", 0)\<close>.\<close>

definition trim_segment :: "ms \<Rightarrow> plan_segment \<Rightarrow> plan_segment" where
  "trim_segment remaining s =
     (if has_uri s
      then s\<lparr>bg_offset := Some ((case bg_offset s of None \<Rightarrow> 0 | Some off \<Rightarrow> off) + remaining),
             bg_duration := bg_duration s - remaining\<rparr>
      else s\<lparr>bg_duration := bg_duration s - remaining\<rparr>)"

text \<open>The loop; \<open>remaining\<close> is the part of the offset still to be dropped.\<close>

fun skip_elapsed :: "ms \<Rightarrow> plan_segment list \<Rightarrow> plan_segment list" where
  "skip_elapsed remaining [] = []"
| "skip_elapsed remaining (s # segs) =
     (if bg_duration s \<le> remaining then skip_elapsed (remaining - bg_duration s) segs
      else if 0 < remaining then trim_segment remaining s # skip_elapsed 0 segs
      else s # skip_elapsed remaining segs)"

definition jip_pad :: "ms \<Rightarrow> plan_segment" where
  "jip_pad gap = \<lparr>bg_index = None, bg_type = ''pad'', bg_uri = None, bg_offset = None, bg_duration = gap,
     bg_in = None, bg_out = None, bg_gain = None\<rparr>"

fun extend_last_pad :: "ms \<Rightarrow> plan_segment list \<Rightarrow> plan_segment list" where
  "extend_last_pad gap [] = [jip_pad gap]"
| "extend_last_pad gap [s] =
     (if bg_type s = ''pad'' then [s\<lparr>bg_duration := bg_duration s + gap\<rparr>] else [s, jip_pad gap])"
| "extend_last_pad gap (s # s' # segs) = s # extend_last_pad gap (s' # segs)"

definition apply_jip_to_segments :: "plan_segment list \<Rightarrow> ms \<Rightarrow> ms \<Rightarrow> plan_segment list" where
  "apply_jip_to_segments segs jip_offset_ms block_dur_ms =
     (let result = skip_elapsed jip_offset_ms segs;
          gap = block_dur_ms - plan_total result
      in if 0 < gap then extend_last_pad gap result else result)"

section \<open>The position in a cyclic plan\<close>

text \<open>\<open>enumerate\<close>; past the last entry, the code's fallback.\<close>

fun find_entry :: "ms \<Rightarrow> ms \<Rightarrow> nat \<Rightarrow> ms list \<Rightarrow> (nat \<times> ms) option" where
  "find_entry elapsed acc i [] = None"
| "find_entry elapsed acc i (d # ds) =
     (if elapsed < acc + d then Some (i, elapsed - acc) else find_entry elapsed (acc + d) (Suc i) ds)"

text \<open>An entry of the plan is the value of its \<open>duration_ms\<close>, when it has one.\<close>

definition compute_jip_position :: "ms option list \<Rightarrow> ms \<Rightarrow> ms \<Rightarrow> ms \<Rightarrow> nat \<times> ms" where
  "compute_jip_position plan block_ms origin_ms now_ms =
     (if plan = [] then (0, 0)
      else let durations = map (\<lambda>e. case e of None \<Rightarrow> block_ms | Some d \<Rightarrow> d) plan;
               cycle_ms = sum_list durations
           in if cycle_ms \<le> 0 then (0, 0)
              else let elapsed_ms = (now_ms - origin_ms) mod cycle_ms
                   in case find_entry elapsed_ms 0 0 durations of
                        Some pos \<Rightarrow> pos
                      | None \<Rightarrow> let last_entry = length durations - 1
                                in (last_entry, elapsed_ms - sum_list (take last_entry durations)))"

section \<open>What is on air\<close>

text \<open>The media a segment shows \<open>t\<close> milliseconds after its start: its type, its asset and the position in it.\<close>

definition media_at :: "plan_segment \<Rightarrow> ms \<Rightarrow> string \<times> (string \<times> ms) option" where
  "media_at s t =
     (bg_type s, if has_uri s
                 then Some (the (bg_uri s), (case bg_offset s of None \<Rightarrow> 0 | Some off \<Rightarrow> off) + t) else None)"

fun on_air :: "plan_segment list \<Rightarrow> ms \<Rightarrow> (string \<times> (string \<times> ms) option) option" where
  "on_air [] t = None"
| "on_air (s # segs) t = (if t < bg_duration s then Some (media_at s t) else on_air segs (t - bg_duration s))"

lemma media_trim: "media_at (trim_segment r s) t = media_at s (r + t)"
  by (simp add: media_at_def trim_segment_def has_uri_def split: option.splits)

lemma trim_duration [simp]: "bg_duration (trim_segment r s) = bg_duration s - r"
  by (simp add: trim_segment_def)

lemma skip_zero: "(\<And>s. s \<in> set segs \<Longrightarrow> 0 \<le> bg_duration s) \<Longrightarrow> 0 \<le> t \<Longrightarrow>
    on_air (skip_elapsed 0 segs) t = on_air segs t \<and> plan_total (skip_elapsed 0 segs) = plan_total segs"
proof (induction segs arbitrary: t)
  case (Cons s segs)
  have "0 \<le> bg_duration s" using Cons.prems by simp
  moreover have "on_air (skip_elapsed 0 segs) u = on_air segs u \<and> plan_total (skip_elapsed 0 segs) = plan_total segs"
    if "0 \<le> u" for u using Cons that by simp
  ultimately show ?case using Cons.prems(2) by (cases "bg_duration s = 0") auto
qed simp

lemma skip_elapsed_spec:
  "(\<And>s. s \<in> set segs \<Longrightarrow> 0 \<le> bg_duration s) \<Longrightarrow> 0 \<le> r \<Longrightarrow> 0 \<le> t \<Longrightarrow>
    on_air (skip_elapsed r segs) t = on_air segs (r + t)
    \<and> plan_total (skip_elapsed r segs) = max 0 (plan_total segs - r)"
proof (induction segs arbitrary: r)
  case (Cons s segs)
  have tot: "0 \<le> plan_total segs" unfolding plan_total_def by (rule sum_list_nonneg_int) (simp add: Cons.prems)
  have d: "0 \<le> bg_duration s" using Cons.prems by simp
  show ?case
  proof (cases "bg_duration s \<le> r")
    case True
    then have "on_air (skip_elapsed (r - bg_duration s) segs) t = on_air segs (r - bg_duration s + t)
        \<and> plan_total (skip_elapsed (r - bg_duration s) segs) = max 0 (plan_total segs - (r - bg_duration s))"
      using Cons by simp
    then show ?thesis using True Cons.prems d by (simp add: algebra_simps)
  next
    case False
    have z: "on_air (skip_elapsed 0 segs) u = on_air segs u" "plan_total (skip_elapsed 0 segs) = plan_total segs"
      if "0 \<le> u" for u using skip_zero [of segs u] Cons.prems that by simp_all
    show ?thesis using False Cons.prems tot z(1) [of "r + t - bg_duration s"] z(2) [of 0]
      by (cases "r = 0") (auto simp: media_trim algebra_simps)
  qed
qed simp

lemma extend_last_pad_total [simp]: "plan_total (extend_last_pad g segs) = plan_total segs + g"
  by (induction g segs rule: extend_last_pad.induct) (auto simp: jip_pad_def)

lemma on_air_none:
  "(\<And>s. s \<in> set segs \<Longrightarrow> 0 \<le> bg_duration s) \<Longrightarrow> 0 \<le> t \<Longrightarrow> on_air segs t = None \<longleftrightarrow> plan_total segs \<le> t"
proof (induction segs arbitrary: t)
  case (Cons s segs)
  have tot: "0 \<le> plan_total segs" unfolding plan_total_def by (rule sum_list_nonneg_int) (simp add: Cons.prems)
  then show ?case using Cons by auto
qed simp

lemma on_air_extend:
  "(\<And>s. s \<in> set segs \<Longrightarrow> 0 \<le> bg_duration s) \<Longrightarrow> 0 \<le> t \<Longrightarrow> 0 < g \<Longrightarrow>
    (\<And>s. s \<in> set segs \<Longrightarrow> bg_type s = ''pad'' \<Longrightarrow> \<not> has_uri s) \<Longrightarrow>
    on_air (extend_last_pad g segs) t =
      (if t < plan_total segs then on_air segs t else if t < plan_total segs + g then Some (''pad'', None) else None)"
proof (induction g segs arbitrary: t rule: extend_last_pad.induct)
  case (1 gap)
  then show ?case by (simp add: jip_pad_def media_at_def has_uri_def)
next
  case (2 gap s)
  have "\<not> has_uri s" if "bg_type s = ''pad''" using 2(4) that by simp
  then show ?case using 2(1,2,3) by (auto simp: jip_pad_def media_at_def has_uri_def)
next
  case (3 gap s s' segs)
  have tot: "0 \<le> plan_total (s' # segs)" unfolding plan_total_def
    by (rule sum_list_nonneg_int) (use 3 in auto)
  have d: "0 \<le> bg_duration s" using 3 by simp
  show ?case
  proof (cases "t < bg_duration s")
    case True
    then show ?thesis using tot by simp
  next
    case False
    then have "on_air (extend_last_pad gap (s' # segs)) (t - bg_duration s) =
      (if t - bg_duration s < plan_total (s' # segs) then on_air (s' # segs) (t - bg_duration s)
       else if t - bg_duration s < plan_total (s' # segs) + gap then Some (''pad'', None) else None)"
      using 3 by (intro "3.IH") auto
    with False show ?thesis by (auto simp: algebra_simps)
  qed
qed

lemma skip_elapsed_sub:
  "(\<And>s. s \<in> set segs \<Longrightarrow> 0 \<le> bg_duration s) \<Longrightarrow> 0 \<le> r \<Longrightarrow> x \<in> set (skip_elapsed r segs) \<Longrightarrow>
    0 \<le> bg_duration x \<and> (\<exists>s \<in> set segs. bg_type x = bg_type s \<and> has_uri x = has_uri s)"
proof (induction segs arbitrary: r)
  case (Cons s segs)
  have d: "0 \<le> bg_duration s" using Cons.prems(1) by simp
  have t: "has_uri (trim_segment q s) = has_uri s" "bg_type (trim_segment q s) = bg_type s" for q
    by (simp_all add: trim_segment_def has_uri_def)
  have ih: "0 \<le> bg_duration x \<and> (\<exists>s \<in> set segs. bg_type x = bg_type s \<and> has_uri x = has_uri s)"
    if "0 \<le> q" "x \<in> set (skip_elapsed q segs)" for q using Cons.IH [of q] Cons.prems(1) that by simp
  show ?case
  proof (cases "bg_duration s \<le> r")
    case True
    then show ?thesis using ih [of "r - bg_duration s"] Cons.prems(3) by auto
  next
    case False
    then consider "x = trim_segment r s" "0 < r" | "x = s" | "x \<in> set (skip_elapsed 0 segs)" | "x \<in> set (skip_elapsed r segs)"
      using Cons.prems(3) by (auto split: if_splits)
    then show ?thesis using ih [of 0] ih [of r] d False t Cons.prems(2) by cases auto
  qed
qed simp

lemma extend_last_pad_nonneg:
  "(\<And>s. s \<in> set segs \<Longrightarrow> 0 \<le> bg_duration s) \<Longrightarrow> 0 < g \<Longrightarrow> x \<in> set (extend_last_pad g segs) \<Longrightarrow> 0 \<le> bg_duration x"
  by (induction g segs rule: extend_last_pad.induct) (auto simp: jip_pad_def split: if_splits)

text \<open>
  Joining in progress plays what is on: for segments without negative durations whose pads
  carry no asset, and a block that ends no earlier than its content, what the joined block shows
  at an instant is what the whole block shows at that instant plus the offset; after the content
  it shows padding, to the exact end of the block and not beyond.
\<close>

theorem jip_plays_what_is_on:
  assumes "\<And>s. s \<in> set segs \<Longrightarrow> 0 \<le> bg_duration s \<and> (bg_type s = ''pad'' \<longrightarrow> \<not> has_uri s)"
    and "0 \<le> offset" "0 \<le> dur" "plan_total segs - offset \<le> dur" "0 \<le> t"
  shows "plan_total (apply_jip_to_segments segs offset dur) = dur
    \<and> on_air (apply_jip_to_segments segs offset dur) t =
        (if dur \<le> t then None
         else if offset + t < plan_total segs then on_air segs (offset + t) else Some (''pad'', None))
    \<and> (\<forall>s \<in> set (apply_jip_to_segments segs offset dur). 0 \<le> bg_duration s)"
proof -
  define res where "res = skip_elapsed offset segs"
  have spec: "on_air res t = on_air segs (offset + t)" "plan_total res = max 0 (plan_total segs - offset)"
    using skip_elapsed_spec [of segs offset t] assms by (simp_all add: res_def)
  have sub: "0 \<le> bg_duration x" "bg_type x = ''pad'' \<Longrightarrow> \<not> has_uri x" if "x \<in> set res" for x
    using skip_elapsed_sub [of segs offset x] assms(1,2) that by (auto simp: res_def)
  have none: "on_air segs (offset + t) = None \<longleftrightarrow> plan_total segs \<le> offset + t"
    using assms by (intro on_air_none) auto
  define gap where "gap = dur - plan_total res"
  show ?thesis
  proof (cases "0 < gap")
    case True
    have "on_air (extend_last_pad gap res) t =
      (if t < plan_total res then on_air res t else if t < plan_total res + gap then Some (''pad'', None) else None)"
      using sub assms(5) True by (intro on_air_extend) auto
    then show ?thesis using True assms spec sub extend_last_pad_nonneg [of res gap]
      by (auto simp: apply_jip_to_segments_def Let_def res_def [symmetric] gap_def)
  next
    case False
    then have "plan_total res = dur" using spec(2) assms(3,4) by (simp add: gap_def max_def split: if_splits)
    then show ?thesis using False assms spec sub none
      by (auto simp: apply_jip_to_segments_def Let_def res_def [symmetric] gap_def)
  qed
qed

definition demo_show :: plan_segment where
  "demo_show = \<lparr>bg_index = Some 0, bg_type = ''content'', bg_uri = Some ''/show.mp4'', bg_offset = Some 100,
     bg_duration = 1000, bg_in = None, bg_out = None, bg_gain = None\<rparr>"

theorem jip_plays_what_is_on_witness:
  "on_air (apply_jip_to_segments [demo_show] 300 900) 50 = Some (''content'', Some (''/show.mp4'', 450))
    \<and> plan_total (apply_jip_to_segments [demo_show] 300 900) = 900"
proof -
  have "on_air (apply_jip_to_segments [demo_show] 300 900) 50 = on_air [demo_show] 350
      \<and> plan_total (apply_jip_to_segments [demo_show] 300 900) = 900"
    using jip_plays_what_is_on [of "[demo_show]" 300 900 50] by (simp add: demo_show_def has_uri_def)
  then show ?thesis by (simp add: demo_show_def media_at_def has_uri_def)
qed

section \<open>Lemmas on the cyclic position\<close>

lemma find_entry_spec:
  "\<forall>d \<in> set ds. 0 \<le> d \<Longrightarrow> acc \<le> e \<Longrightarrow> e < acc + sum_list ds \<Longrightarrow>
    \<exists>k < length ds. find_entry e acc i ds = Some (i + k, e - (acc + sum_list (take k ds)))
      \<and> acc + sum_list (take k ds) \<le> e \<and> e < acc + sum_list (take k ds) + ds ! k"
proof (induction ds arbitrary: acc i)
  case (Cons d ds)
  show ?case
  proof (cases "e < acc + d")
    case True
    then show ?thesis using Cons.prems(2) by (intro exI [of _ 0]) simp
  next
    case False
    have "\<exists>k < length ds. find_entry e (acc + d) (Suc i) ds = Some (Suc i + k, e - (acc + d + sum_list (take k ds)))
        \<and> acc + d + sum_list (take k ds) \<le> e \<and> e < acc + d + sum_list (take k ds) + ds ! k"
      using Cons.IH [of "acc + d" "Suc i"] Cons.prems False by simp
    then obtain k where "k < length ds" "find_entry e (acc + d) (Suc i) ds = Some (Suc i + k, e - (acc + d + sum_list (take k ds)))"
      "acc + d + sum_list (take k ds) \<le> e" "e < acc + d + sum_list (take k ds) + ds ! k" by (elim exE conjE)
    then show ?thesis using False by (intro exI [of _ "Suc k"]) (simp add: add.assoc)
  qed
qed simp

text \<open>
  The position of a join is exact: for entries without negative durations and a cycle that
  takes time, the entry exists, the offset lies inside it, the entries before it and the offset
  add up to the time since the origin modulo the cycle, and one cycle later the position is the
  same.
\<close>

theorem jip_position_exact:
  fixes plan :: "ms option list" and block_ms :: ms
  defines "durations \<equiv> map (\<lambda>e. case e of None \<Rightarrow> block_ms | Some d \<Rightarrow> d) plan"
  assumes "\<forall>d \<in> set durations. 0 \<le> d" "0 < sum_list durations"
    and "compute_jip_position plan block_ms origin now = (i, off)"
  shows "i < length plan \<and> 0 \<le> off \<and> off < durations ! i
    \<and> sum_list (take i durations) + off = (now - origin) mod sum_list durations
    \<and> compute_jip_position plan block_ms origin (now + sum_list durations) = (i, off)"
proof -
  let ?e = "(now - origin) mod sum_list durations"
  have plan: "plan \<noteq> []" using assms(3) by (auto simp: durations_def)
  have "0 \<le> ?e" "?e < 0 + sum_list durations" using assms(3) by simp_all
  from find_entry_spec [OF assms(2) this, of 0]
  obtain k where k: "k < length durations" "find_entry ?e 0 0 durations = Some (k, ?e - sum_list (take k durations))"
    "sum_list (take k durations) \<le> ?e" "?e < sum_list (take k durations) + durations ! k" by auto
  have pos: "compute_jip_position plan block_ms origin n = (k, ?e - sum_list (take k durations))"
    if "(n - origin) mod sum_list durations = ?e" for n
    using plan assms(3) k(2) that
    by (simp add: compute_jip_position_def durations_def [symmetric] Let_def)
  have "(now + sum_list durations - origin) mod sum_list durations = ?e"
    by (metis add.commute add_diff_eq mod_add_self1)
  then show ?thesis using pos [of now] pos [of "now + sum_list durations"] assms(4) k
    by (auto simp: durations_def)
qed

theorem jip_position_exact_witness:
  "compute_jip_position [Some 100, None] 50 0 (1030 + 150) = compute_jip_position [Some 100, None] 50 0 1030"
proof -
  have "compute_jip_position [Some 100, None] 50 0 1030 = (1, 30)" by code_simp
  then show ?thesis using jip_position_exact [of 50 "[Some 100, None]" 0 1030 1 30] by simp
qed

end
