(* ===== verification/Playout_Session.thy ===== *)
theory Playout_Session
  imports Join_In_Progress Py_Text "HOL-Library.Word"
begin

text \<open>
  The session with the playout engine, \<^verbatim>\<open>runtime/playout_session.py\<close>: block plans, their wire form
  (\<^verbatim>\<open>BlockPlan.to_proto\<close>) and \<^verbatim>\<open>PlayoutSession\<close> with its \<^verbatim>\<open>SessionState\<close>.  The engine itself, AIR, is a
  process reached by gRPC: what it answers is the environment \<open>air_env\<close>, a function of a world that
  every call threads on.  A lock makes each operation atomic.  \<open>se_sent\<close> is the list of blocks the
  engine has accepted, of which the code keeps the counts.
\<close>

section \<open>Block plans and their wire form\<close>

record block_plan =
  bk_id :: string
  bk_channel :: int
  bk_start :: ms
  bk_end :: ms
  bk_segments :: "plan_segment list"

definition bk_span :: "block_plan \<Rightarrow> ms \<times> ms" where
  "bk_span b = (bk_start b, bk_end b)"

definition bk_duration_ms :: "block_plan \<Rightarrow> ms" where
  "bk_duration_ms b = bk_end b - bk_start b"

text \<open>
  The fields of the message have the widths of \<^verbatim>\<open>protos/playout.proto\<close>: an integer field that is
  assigned a number outside its range raises \<open>ValueError\<close>, a \<open>float\<close> field keeps the nearest number with a
  24-bit significand, ties to even (the exponent range is left unbounded, as in \<open>Py_Float\<close>).
\<close>

definition signed_field :: "int \<Rightarrow> 'a::len word res" where
  "signed_field n =
     (if - (2 ^ (LENGTH('a) - 1)) \<le> n \<and> n < 2 ^ (LENGTH('a) - 1) then Inr (word_of_int n)
      else Inl (ValueError ''Value out of range''))"

definition unsigned_field :: "int \<Rightarrow> 'a::len word res" where
  "unsigned_field n =
     (if 0 \<le> n \<and> n < 2 ^ LENGTH('a) then Inr (word_of_int n) else Inl (ValueError ''Value out of range''))"

definition float_field :: "rat \<Rightarrow> rat" where
  "float_field q =
     (if q = 0 then 0 else let u = 2 powi (flog2 \<bar>q\<bar> - 23) in of_int (rne (q / u)) * u)"

datatype proto_type = SEGMENT_TYPE_CONTENT | SEGMENT_TYPE_FILLER | SEGMENT_TYPE_PAD

text \<open>Fields of the message that are not set have the default of their type.\<close>

record proto_segment =
  px_index :: "32 word"
  px_duration :: "64 word"
  px_type :: proto_type
  px_uri :: string
  px_offset :: "64 word"
  px_in :: transition
  px_in_ms :: "32 word"
  px_out :: transition
  px_out_ms :: "32 word"
  px_gain :: rat

record proto_block =
  pk_id :: string
  pk_channel :: "32 word"
  pk_start :: "64 word"
  pk_end :: "64 word"
  pk_segments :: "proto_segment list"

definition proto_transition :: "(transition \<times> ms) option \<Rightarrow> transition \<times> ms" where
  "proto_transition t = (case t of Some (TRANSITION_FADE, n) \<Rightarrow> (TRANSITION_FADE, n) | _ \<Rightarrow> (TRANSITION_NONE, 0))"

text \<open>\<^verbatim>\<open>BlockSegment(**kwargs)\<close>: the keyword arguments are the fields that are set.\<close>

definition make_proto_segment ::
  "nat \<Rightarrow> ms \<Rightarrow> proto_type \<Rightarrow> string \<Rightarrow> ms \<Rightarrow> transition \<times> ms \<Rightarrow> transition \<times> ms \<Rightarrow> rat \<Rightarrow> proto_segment res" where
  "make_proto_segment i dur ty uri off fade_in fade_out gain =
     bind_res (signed_field (int i)) (\<lambda>index.
     bind_res (signed_field dur) (\<lambda>duration.
     bind_res (signed_field off) (\<lambda>offset.
     bind_res (unsigned_field (snd fade_in)) (\<lambda>in_ms.
     bind_res (unsigned_field (snd fade_out)) (\<lambda>out_ms.
       Inr \<lparr>px_index = index, px_duration = duration, px_type = ty, px_uri = uri, px_offset = offset,
            px_in = fst fade_in, px_in_ms = in_ms, px_out = fst fade_out, px_out_ms = out_ms,
            px_gain = float_field gain\<rparr>)))))"

definition proto_segment_of :: "plan_segment \<Rightarrow> proto_segment res" where
  "proto_segment_of s =
     (case bg_index s of
        None \<Rightarrow> Inl KeyError
      | Some i \<Rightarrow>
        let make = (\<lambda>ty uri off. make_proto_segment i (bg_duration s) ty uri off (proto_transition (bg_in s))
              (proto_transition (bg_out s)) (case bg_gain s of None \<Rightarrow> 0 | Some g \<Rightarrow> g))
        in if bg_type s = ''pad'' then make SEGMENT_TYPE_PAD [] 0
           else case bg_uri s of
                  None \<Rightarrow> Inl KeyError
                | Some uri \<Rightarrow>
                  make (if bg_type s = ''filler'' then SEGMENT_TYPE_FILLER else SEGMENT_TYPE_CONTENT) uri
                    (case bg_offset s of None \<Rightarrow> 0 | Some off \<Rightarrow> off))"

text \<open>The message of the block is made first, then those of its segments.\<close>

definition to_proto :: "block_plan \<Rightarrow> proto_block res" where
  "to_proto b =
     bind_res (signed_field (bk_channel b)) (\<lambda>channel.
     bind_res (signed_field (bk_start b)) (\<lambda>start.
     bind_res (signed_field (bk_end b)) (\<lambda>stop.
     bind_res (map_res proto_segment_of (bk_segments b)) (\<lambda>segs.
       Inr \<lparr>pk_id = bk_id b, pk_channel = channel, pk_start = start, pk_end = stop, pk_segments = segs\<rparr>))))"

section \<open>The engine\<close>

datatype feed_reply = FeedTaken | FeedRefused bool | FeedRpcError
datatype feed_result = ACCEPTED | QUEUE_FULL | ERROR

text \<open>
  \<open>ae_launch\<close>: the process starts, answers and attaches its stream; \<open>ae_seed\<close> and \<open>ae_feed\<close>: the calls
  that hand over blocks; \<open>ae_stop\<close>: the executed blocks when the stop call succeeds.
\<close>

record 'w air_env =
  ae_launch :: "'w \<Rightarrow> 'w \<times> bool"
  ae_seed :: "'w \<Rightarrow> proto_block \<Rightarrow> proto_block \<Rightarrow> 64 word \<Rightarrow> 32 word \<Rightarrow> 'w \<times> bool"
  ae_feed :: "'w \<Rightarrow> proto_block \<Rightarrow> 'w \<times> feed_reply"
  ae_stop :: "'w \<Rightarrow> string \<Rightarrow> 'w \<times> int option"

record session =
  se_running :: bool
  se_seeded :: nat
  se_fed :: nat
  se_executed :: int
  se_process :: bool
  se_ended :: bool
  se_end_reason :: "string option"
  se_sent :: "block_plan list"

definition new_session :: session where
  "new_session = \<lparr>se_running = False, se_seeded = 0, se_fed = 0, se_executed = 0, se_process = False,
     se_ended = False, se_end_reason = None, se_sent = []\<rparr>"

text \<open>\<^verbatim>\<open>_cleanup\<close>: the event thread, the channel and the process are given up.\<close>

definition session_cleanup :: "session \<Rightarrow> session" where
  "session_cleanup s = s\<lparr>se_running := False, se_process := False\<rparr>"

definition session_start :: "('w, 'z) air_env_scheme \<Rightarrow> session \<Rightarrow> 'w \<Rightarrow> session \<times> 'w \<times> bool" where
  "session_start env s w =
     (if se_running s then (s, w, False)
      else case ae_launch env w of
             (w', True) \<Rightarrow> (s\<lparr>se_process := True, se_running := True\<rparr>, w', True)
           | (w', False) \<Rightarrow> (session_cleanup s, w', False))"

text \<open>\<^verbatim>\<open>StartBlockPlanSessionRequest\<close>: the blocks are converted before the request is made.\<close>

definition seed_request ::
  "block_plan \<Rightarrow> block_plan \<Rightarrow> ms \<Rightarrow> int \<Rightarrow> (proto_block \<times> proto_block \<times> 64 word \<times> 32 word) res" where
  "seed_request a b join_ms max_depth =
     bind_res (to_proto a) (\<lambda>pa.
     bind_res (to_proto b) (\<lambda>pb.
     bind_res (signed_field join_ms) (\<lambda>join.
     bind_res (signed_field max_depth) (\<lambda>depth. Inr (pa, pb, join, depth)))))"

definition session_seed ::
  "('w, 'z) air_env_scheme \<Rightarrow> block_plan \<Rightarrow> block_plan \<Rightarrow> ms \<Rightarrow> int \<Rightarrow> session \<Rightarrow> 'w \<Rightarrow> session \<times> 'w \<times> bool res" where
  "session_seed env a b join_ms max_depth s w =
     (if \<not> se_running s then (s, w, Inr False)
      else if 0 < se_seeded s then (s, w, Inr False)
      else if bk_end a \<noteq> bk_start b then (s, w, Inr False)
      else case seed_request a b join_ms max_depth of
             Inl e \<Rightarrow> (s, w, Inl e)
           | Inr (pa, pb, join, depth) \<Rightarrow>
             (case ae_seed env w pa pb join depth of
                (w', True) \<Rightarrow> (s\<lparr>se_seeded := 2, se_sent := [a, b]\<rparr>, w', Inr True)
              | (w', False) \<Rightarrow> (s, w', Inr False)))"

definition session_feed ::
  "('w, 'z) air_env_scheme \<Rightarrow> block_plan \<Rightarrow> session \<Rightarrow> 'w \<Rightarrow> session \<times> 'w \<times> feed_result res" where
  "session_feed env b s w =
     (if se_ended s then (s, w, Inr ERROR)
      else if \<not> se_running s then (s, w, Inr ERROR)
      else case to_proto b of
             Inl e \<Rightarrow> (s, w, Inl e)
           | Inr pb \<Rightarrow>
             (case ae_feed env w pb of
                (w', FeedTaken) \<Rightarrow> (s\<lparr>se_fed := Suc (se_fed s), se_sent := se_sent s @ [b]\<rparr>, w', Inr ACCEPTED)
              | (w', FeedRefused full) \<Rightarrow> (s, w', Inr (if full then QUEUE_FULL else ERROR))
              | (w', FeedRpcError) \<Rightarrow> (s, w', Inr ERROR)))"

text \<open>The flag tells that the session reports its end to \<open>on_session_end\<close>.\<close>

definition session_stop :: "('w, 'z) air_env_scheme \<Rightarrow> string \<Rightarrow> session \<Rightarrow> 'w \<Rightarrow> session \<times> 'w \<times> bool" where
  "session_stop env reason s w =
     (if \<not> se_running s then (s, w, False)
      else case ae_stop env w reason of
             (w', Some n) \<Rightarrow> (session_cleanup (s\<lparr>se_executed := n\<rparr>), w', True)
           | (w', None) \<Rightarrow> (session_cleanup s, w', True))"

text \<open>What the event thread does to the session before it calls back.\<close>

datatype air_event = BlockCompleted string int | BlockStarted string | SessionEnded string int

fun session_event :: "air_event \<Rightarrow> session \<Rightarrow> session" where
  "session_event (BlockCompleted i n) s = s\<lparr>se_executed := n\<rparr>"
| "session_event (BlockStarted i) s = s"
| "session_event (SessionEnded reason n) s =
     s\<lparr>se_executed := n, se_running := False, se_ended := True, se_end_reason := Some reason\<rparr>"

section \<open>Lemmas\<close>

text \<open>Numbers that fit a field are read back as they were.\<close>

definition in_signed :: "nat \<Rightarrow> int \<Rightarrow> bool" where
  "in_signed w n \<longleftrightarrow> - (2 ^ (w - 1)) \<le> n \<and> n < 2 ^ (w - 1)"

definition in_unsigned :: "nat \<Rightarrow> int \<Rightarrow> bool" where
  "in_unsigned w n \<longleftrightarrow> 0 \<le> n \<and> n < 2 ^ w"

lemma signed_field_cases:
  "(in_signed LENGTH('a) n \<longrightarrow> signed_field n = Inr (word_of_int n :: 'a::len word) \<and> sint (word_of_int n :: 'a word) = n)
    \<and> (\<not> in_signed LENGTH('a) n \<longrightarrow> (signed_field n :: 'a word res) = Inl (ValueError ''Value out of range''))"
  by (auto simp: signed_field_def in_signed_def sint_sbintrunc' signed_take_bit_int_eq_self)

lemma unsigned_field_cases:
  "(in_unsigned LENGTH('a) n \<longrightarrow> unsigned_field n = Inr (word_of_int n :: 'a::len word) \<and> uint (word_of_int n :: 'a word) = n)
    \<and> (\<not> in_unsigned LENGTH('a) n \<longrightarrow> (unsigned_field n :: 'a word res) = Inl (ValueError ''Value out of range''))"
  by (auto simp: unsigned_field_def in_unsigned_def uint_word_of_int_eq take_bit_int_eq_self)

lemma field_if:
  "signed_field n = (if in_signed 32 n then Inr (word_of_int n :: 32 word) else Inl (ValueError ''Value out of range''))"
  "signed_field n = (if in_signed 64 n then Inr (word_of_int n :: 64 word) else Inl (ValueError ''Value out of range''))"
  "unsigned_field n = (if in_unsigned 32 n then Inr (word_of_int n :: 32 word) else Inl (ValueError ''Value out of range''))"
  by (simp_all add: signed_field_def unsigned_field_def in_signed_def in_unsigned_def)

lemma field_read:
  "in_signed 32 n \<Longrightarrow> sint (word_of_int n :: 32 word) = n" "in_signed 64 n \<Longrightarrow> sint (word_of_int n :: 64 word) = n"
  "in_unsigned 32 n \<Longrightarrow> uint (word_of_int n :: 32 word) = n"
  using signed_field_cases [where 'a = 32, of n] signed_field_cases [where 'a = 64, of n]
    unsigned_field_cases [where 'a = 32, of n] by simp_all

text \<open>What the engine reads from a message, and when a block plan has a message.\<close>

definition reads_segment :: "plan_segment \<Rightarrow> proto_segment \<Rightarrow> bool" where
  "reads_segment s p \<longleftrightarrow> bg_index s = Some (nat (sint (px_index p))) \<and> 0 \<le> sint (px_index p)
     \<and> sint (px_duration p) = bg_duration s
     \<and> px_type p = (if bg_type s = ''pad'' then SEGMENT_TYPE_PAD
         else if bg_type s = ''filler'' then SEGMENT_TYPE_FILLER else SEGMENT_TYPE_CONTENT)
     \<and> (bg_type s = ''pad'' \<longrightarrow> px_uri p = [] \<and> sint (px_offset p) = 0)
     \<and> (bg_type s \<noteq> ''pad'' \<longrightarrow> bg_uri s = Some (px_uri p)
         \<and> sint (px_offset p) = (case bg_offset s of None \<Rightarrow> 0 | Some off \<Rightarrow> off))
     \<and> (px_in p, uint (px_in_ms p)) = proto_transition (bg_in s)
     \<and> (px_out p, uint (px_out_ms p)) = proto_transition (bg_out s)
     \<and> px_gain p = float_field (case bg_gain s of None \<Rightarrow> 0 | Some g \<Rightarrow> g)"

definition segment_in_range :: "plan_segment \<Rightarrow> bool" where
  "segment_in_range s \<longleftrightarrow> (case bg_index s of None \<Rightarrow> True | Some i \<Rightarrow> int i < 2 ^ 31)
     \<and> in_signed 64 (bg_duration s)
     \<and> (bg_type s \<noteq> ''pad'' \<longrightarrow> in_signed 64 (case bg_offset s of None \<Rightarrow> 0 | Some off \<Rightarrow> off))
     \<and> in_unsigned 32 (snd (proto_transition (bg_in s))) \<and> in_unsigned 32 (snd (proto_transition (bg_out s)))"

definition reads_block :: "block_plan \<Rightarrow> proto_block \<Rightarrow> bool" where
  "reads_block b p \<longleftrightarrow> pk_id p = bk_id b \<and> sint (pk_channel p) = bk_channel b \<and> sint (pk_start p) = bk_start b
     \<and> sint (pk_end p) = bk_end b \<and> list_all2 reads_segment (bk_segments b) (pk_segments p)"

definition block_in_range :: "block_plan \<Rightarrow> bool" where
  "block_in_range b \<longleftrightarrow> in_signed 32 (bk_channel b) \<and> in_signed 64 (bk_start b) \<and> in_signed 64 (bk_end b)
     \<and> (\<forall>s \<in> set (bk_segments b). segment_in_range s)"

definition proto_ready :: "plan_segment \<Rightarrow> bool" where
  "proto_ready s \<longleftrightarrow> bg_index s \<noteq> None \<and> (bg_type s \<noteq> ''pad'' \<longrightarrow> bg_uri s \<noteq> None)"

lemma make_proto_segment_if:
  "make_proto_segment i dur ty uri off a b g =
    (if int i < 2 ^ 31 \<and> in_signed 64 dur \<and> in_signed 64 off \<and> in_unsigned 32 (snd a) \<and> in_unsigned 32 (snd b)
     then Inr \<lparr>px_index = word_of_int (int i), px_duration = word_of_int dur, px_type = ty, px_uri = uri,
       px_offset = word_of_int off, px_in = fst a, px_in_ms = word_of_int (snd a), px_out = fst b,
       px_out_ms = word_of_int (snd b), px_gain = float_field g\<rparr>
     else Inl (ValueError ''Value out of range''))"
proof -
  have i: "in_signed 32 (int i) \<longleftrightarrow> int i < 2 ^ 31" by (simp add: in_signed_def)
  show ?thesis unfolding i [symmetric] by (simp add: make_proto_segment_def field_if del: of_int_of_nat_eq)
qed

lemma make_proto_segment_reads:
  assumes "make_proto_segment i dur ty uri off a b g = Inr p"
  shows "sint (px_index p) = int i \<and> sint (px_duration p) = dur \<and> px_type p = ty \<and> px_uri p = uri
    \<and> sint (px_offset p) = off \<and> (px_in p, uint (px_in_ms p)) = a \<and> (px_out p, uint (px_out_ms p)) = b
    \<and> px_gain p = float_field g"
proof -
  have r: "int i < 2 ^ 31" "in_signed 64 dur" "in_signed 64 off" "in_unsigned 32 (snd a)" "in_unsigned 32 (snd b)"
    using assms unfolding make_proto_segment_if by (simp_all split: if_splits)
  have i: "in_signed 32 (int i)" using r(1) by (simp add: in_signed_def)
  show ?thesis using assms r unfolding make_proto_segment_if
    by (auto simp: field_read field_read(1) [OF i] prod_eq_iff simp del: of_int_of_nat_eq)
qed

lemma proto_segment_cases:
  assumes "proto_ready s"
  shows "(segment_in_range s \<longrightarrow> (\<exists>p. proto_segment_of s = Inr p \<and> reads_segment s p))
    \<and> (\<not> segment_in_range s \<longrightarrow> proto_segment_of s = Inl (ValueError ''Value out of range''))"
proof -
  obtain i where i: "bg_index s = Some i" using assms by (auto simp: proto_ready_def)
  have z: "in_signed 64 0" by (simp add: in_signed_def)
  define uri where "uri = (if bg_type s = ''pad'' then [] else the (bg_uri s))"
  define off where "off = (if bg_type s = ''pad'' then 0 else case bg_offset s of None \<Rightarrow> 0 | Some off \<Rightarrow> off)"
  define ty where "ty = (if bg_type s = ''pad'' then SEGMENT_TYPE_PAD
    else if bg_type s = ''filler'' then SEGMENT_TYPE_FILLER else SEGMENT_TYPE_CONTENT)"
  define gain where "gain = (case bg_gain s of None \<Rightarrow> 0 | Some g \<Rightarrow> g)"
  note defs = uri_def off_def ty_def gain_def
  have run: "proto_segment_of s = make_proto_segment i (bg_duration s) ty uri off (proto_transition (bg_in s))
      (proto_transition (bg_out s)) gain"
    using i assms by (auto simp: proto_segment_of_def Let_def defs proto_ready_def)
  have range: "segment_in_range s \<longleftrightarrow> int i < 2 ^ 31 \<and> in_signed 64 (bg_duration s) \<and> in_signed 64 off
      \<and> in_unsigned 32 (snd (proto_transition (bg_in s))) \<and> in_unsigned 32 (snd (proto_transition (bg_out s)))"
    using i z by (simp add: segment_in_range_def off_def)
  have reads: "reads_segment s p" if "proto_segment_of s = Inr p" for p
    unfolding reads_segment_def using make_proto_segment_reads [OF that [unfolded run]] i assms
    by (auto simp: defs proto_ready_def)
  show ?thesis
  proof (cases "segment_in_range s")
    case True
    then have "\<exists>p. proto_segment_of s = Inr p" unfolding run range make_proto_segment_if by simp
    then show ?thesis using reads True by blast
  next
    case False
    then have "proto_segment_of s = Inl (ValueError ''Value out of range'')"
      unfolding run make_proto_segment_if range by (simp only: if_False)
    then show ?thesis using False by blast
  qed
qed

lemma proto_segments_cases:
  assumes "\<forall>s \<in> set ss. proto_ready s"
  shows "((\<forall>s \<in> set ss. segment_in_range s) \<longrightarrow> (\<exists>ps. map_res proto_segment_of ss = Inr ps \<and> list_all2 reads_segment ss ps))
    \<and> (\<not> (\<forall>s \<in> set ss. segment_in_range s) \<longrightarrow> map_res proto_segment_of ss = Inl (ValueError ''Value out of range''))"
  using assms
proof (induction ss)
  case (Cons s ss)
  have c: "(segment_in_range s \<longrightarrow> (\<exists>p. proto_segment_of s = Inr p \<and> reads_segment s p))
      \<and> (\<not> segment_in_range s \<longrightarrow> proto_segment_of s = Inl (ValueError ''Value out of range''))"
    by (rule proto_segment_cases) (use Cons.prems in simp)
  show ?case using c Cons.IH Cons.prems by (cases "segment_in_range s") auto
qed simp

lemma to_proto_cases:
  assumes "\<forall>s \<in> set (bk_segments b). proto_ready s"
  shows "(block_in_range b \<longrightarrow> (\<exists>p. to_proto b = Inr p \<and> reads_block b p))
    \<and> (\<not> block_in_range b \<longrightarrow> to_proto b = Inl (ValueError ''Value out of range''))"
  using proto_segments_cases [OF assms]
  by (auto simp: to_proto_def block_in_range_def reads_block_def field_if field_read)

text \<open>A session is sound when its counts are those of its history.\<close>

definition session_ok :: "session \<Rightarrow> bool" where
  "session_ok s \<longleftrightarrow> (se_seeded s = 0 \<and> se_fed s = 0 \<and> se_sent s = [])
     \<or> (se_seeded s = 2 \<and> length (se_sent s) = 2 + se_fed s)"

lemma new_session_ok: "session_ok new_session"
  by (simp add: session_ok_def new_session_def)

lemma session_event_ok [simp]: "session_ok (session_event ev s) = session_ok s"
  by (cases ev) (simp_all add: session_ok_def)

lemma session_event_sent [simp]: "se_sent (session_event ev s) = se_sent s"
  by (cases ev) simp_all

lemma session_feed_cases:
  assumes "session_feed env b s w = (s', w', r)"
  shows "(r = Inr ACCEPTED \<and> \<not> se_ended s \<and> se_running s
      \<and> s' = s\<lparr>se_fed := Suc (se_fed s), se_sent := se_sent s @ [b]\<rparr>)
    \<or> (r \<noteq> Inr ACCEPTED \<and> s' = s)"
proof (cases "se_ended s \<or> \<not> se_running s")
  case False
  show ?thesis
  proof (cases "to_proto b")
    case (Inr pb)
    obtain w1 rep where "ae_feed env w pb = (w1, rep)" by fastforce
    then show ?thesis using assms False Inr by (cases rep) (auto simp: session_feed_def split: if_splits)
  qed (use assms False in \<open>auto simp: session_feed_def\<close>)
qed (use assms in \<open>auto simp: session_feed_def split: if_splits\<close>)

lemma session_seed_cases:
  assumes "session_seed env a b j d s w = (s', w', r)"
  shows "(r = Inr True \<and> se_running s \<and> se_seeded s = 0 \<and> bk_end a = bk_start b
      \<and> s' = s\<lparr>se_seeded := 2, se_sent := [a, b]\<rparr>)
    \<or> (r \<noteq> Inr True \<and> s' = s)"
proof (cases "se_running s \<and> se_seeded s = 0 \<and> bk_end a = bk_start b")
  case True
  show ?thesis
  proof (cases "seed_request a b j d")
    case (Inr p)
    obtain pa pb join depth where p: "p = (pa, pb, join, depth)" by (metis prod_cases4)
    obtain w1 ok where "ae_seed env w pa pb join depth = (w1, ok)" by fastforce
    then show ?thesis using assms True Inr p by (cases ok) (auto simp: session_seed_def)
  qed (use assms True in \<open>auto simp: session_seed_def\<close>)
qed (use assms in \<open>auto simp: session_seed_def split: if_splits\<close>)

lemma session_start_cases:
  assumes "session_start env s w = (s', w', r)"
  shows "(r \<and> \<not> se_running s \<and> s' = s\<lparr>se_process := True, se_running := True\<rparr>) \<or> (\<not> r \<and> se_sent s' = se_sent s)"
  using assms by (auto simp: session_start_def session_cleanup_def split: if_splits prod.splits bool.splits)

text \<open>
  An engine that ended its session by itself is never put away: once the end of a session has
  been reported, stopping the session does nothing at all, so the process and the gRPC channel that
  a stop would give up stay, whereas stopping a running session always gives them up.
\<close>

theorem ended_session_keeps_process:
  assumes "se_process s"
  shows "session_stop env reason (session_event (SessionEnded why n) s) w
      = (session_event (SessionEnded why n) s, w, False)
    \<and> se_process (session_event (SessionEnded why n) s)
    \<and> (se_running s \<longrightarrow> \<not> se_process (fst (session_stop env reason s w)))"
  using assms by (simp add: session_stop_def session_cleanup_def split: prod.splits option.splits)

theorem ended_session_keeps_process_witness:
  "\<exists>s. se_process s \<and> session_stop (\<lparr>ae_launch = (\<lambda>w. (w, True)), ae_seed = (\<lambda>w _ _ _ _. (w, True)),
      ae_feed = (\<lambda>w _. (w, FeedTaken)), ae_stop = (\<lambda>w _. (w, None))\<rparr> :: unit air_env) ''last_viewer_left''
      (session_event (SessionEnded ''error'' 3) s) () = (session_event (SessionEnded ''error'' 3) s, (), False)"
proof -
  define s where "s = new_session\<lparr>se_running := True, se_process := True\<rparr>"
  have "se_process s" by (simp add: s_def)
  from ended_session_keeps_process [OF this] have "session_stop env ''last_viewer_left''
      (session_event (SessionEnded ''error'' 3) s) () = (session_event (SessionEnded ''error'' 3) s, (), False)"
    for env :: "unit air_env" by (rule conjunct1)
  with \<open>se_process s\<close> show ?thesis by (intro exI [of _ s] conjI)
qed

end
