(* ===== verification/Block_Feeder.thy ===== *)
theory Block_Feeder
  imports Playout_Session Py_Time Py_Float
begin

text \<open>
  \<^verbatim>\<open>BlockPlanProducer\<close> of \<^verbatim>\<open>runtime/channel_manager.py\<close>: the producer that keeps the engine's queue
  filled.  Its lock makes every public method and callback one step.  A method is a function of the
  producer and the world; the world answers for the engine (\<open>air_env\<close>), the schedule service
  (\<open>fe_block_at\<close>), the clock (\<open>fe_now\<close>) and the sockets (\<open>fe_setup\<close>).  The teardown fields and methods
  are those of the base class in \<^verbatim>\<open>runtime/producer/base.py\<close>.  \<open>bp_reports\<close> collects the calls of
  \<open>on_producer_failure\<close>, \<open>bp_cache\<close> is the segment cache of \<^verbatim>\<open>runtime/evidence_server.py\<close> that a feed
  writes to.  Metrics and log lines are not modelled.
\<close>

section \<open>State\<close>

datatype feed_state = CREATED | SEEDED | RUNNING | DRAINING

datatype producer_status = PS_STOPPED | PS_STARTING | PS_RUNNING | PS_STOPPING | PS_ERROR

record asrun_annotation =
  an_type :: string
  an_block :: string
  an_time :: ms
  an_lateness :: ms

record cached_segment =
  cg_index :: nat
  cg_type :: string
  cg_uri :: string
  cg_offset :: ms
  cg_duration :: ms
  cg_title :: string

record producer_config =
  pc_depth :: "int option"
  pc_horizon :: "ms option"
  pc_preload :: "ms option"
  pc_grace :: "rat option"
  pc_timeout :: "rat option"

record producer =
  bp_channel :: int
  bp_stream :: string
  bp_has_schedule :: bool
  bp_has_callback :: bool
  bp_depth :: int
  bp_horizon :: ms
  bp_preload :: ms
  bp_session :: "session option"
  bp_started :: bool
  bp_start_count :: nat
  bp_stop_count :: nat
  bp_ended :: bool
  bp_end_reason :: "string option"
  bp_completed :: "string set"
  bp_in_flight :: "string set"
  bp_index :: nat
  bp_cursor :: ms
  bp_pending :: "block_plan option"
  bp_state :: feed_state
  bp_max_end :: ms
  bp_started_events :: bool
  bp_ticks :: nat
  bp_credits :: int
  bp_errors :: nat
  bp_backoff :: int
  bp_misses :: nat
  bp_late :: nat
  bp_first_due :: ms
  bp_notes :: "asrun_annotation list"
  bp_status :: producer_status
  bp_output :: "string option"
  bp_started_at :: "datetime option"
  td_active :: bool
  td_elapsed :: rat
  td_limit :: rat
  td_default :: rat
  td_grace :: rat
  td_reason :: "string option"
  td_ready :: bool
  bp_reports :: "string list"
  bp_cache :: "(string \<times> cached_segment list) list"

definition get_or :: "'a option \<Rightarrow> 'a \<Rightarrow> 'a" where
  "get_or x d = (case x of None \<Rightarrow> d | Some y \<Rightarrow> y)"

definition init_producer ::
  "string \<Rightarrow> int \<Rightarrow> producer_config \<Rightarrow> bool \<Rightarrow> bool \<Rightarrow> (string \<times> cached_segment list) list \<Rightarrow> producer" where
  "init_producer channel channel_int cfg has_schedule has_callback cache =
     \<lparr>bp_channel = channel_int, bp_stream = ''/channel/'' @ channel @ ''.ts'', bp_has_schedule = has_schedule,
      bp_has_callback = has_callback, bp_depth = max 2 (get_or (pc_depth cfg) 3),
      bp_horizon = get_or (pc_horizon cfg) 20000, bp_preload = get_or (pc_preload cfg) 10000,
      bp_session = None, bp_started = False, bp_start_count = 0, bp_stop_count = 0, bp_ended = False,
      bp_end_reason = None, bp_completed = {}, bp_in_flight = {}, bp_index = 0, bp_cursor = 0,
      bp_pending = None, bp_state = CREATED, bp_max_end = 0, bp_started_events = False, bp_ticks = 0,
      bp_credits = 0, bp_errors = 0, bp_backoff = 0, bp_misses = 0, bp_late = 0, bp_first_due = 0,
      bp_notes = [], bp_status = PS_STOPPED, bp_output = None, bp_started_at = None,
      td_active = False, td_elapsed = 0, td_limit = get_or (pc_timeout cfg) 5,
      td_default = get_or (pc_timeout cfg) 5, td_grace = get_or (pc_grace cfg) (1 / 2),
      td_reason = None, td_ready = False, bp_reports = [], bp_cache = cache\<rparr>"

record 'w feed_env = "'w air_env" +
  fe_setup :: "'w \<Rightarrow> 'w \<times> bool"
  fe_block_at :: "'w \<Rightarrow> ms \<Rightarrow> 'w \<times> scheduled_block option res"
  fe_now :: "'w \<Rightarrow> 'w \<times> datetime"

section \<open>Blocks\<close>

definition shown_transition :: "transition \<Rightarrow> ms \<Rightarrow> (transition \<times> ms) option" where
  "shown_transition t n = (if t \<noteq> TRANSITION_NONE then Some (t, n) else None)"

definition plan_segment_of :: "nat \<Rightarrow> scheduled_segment \<Rightarrow> plan_segment" where
  "plan_segment_of i s =
     \<lparr>bg_index = Some i, bg_type = sg_type s, bg_uri = Some (sg_uri s), bg_offset = Some (sg_offset s),
      bg_duration = sg_duration s, bg_in = shown_transition (sg_transition_in s) (sg_transition_in_ms s),
      bg_out = shown_transition (sg_transition_out s) (sg_transition_out_ms s),
      bg_gain = (if sg_gain s \<noteq> 0 then Some (sg_gain s) else None)\<rparr>"

definition plan_segments_of :: "scheduled_segment list \<Rightarrow> plan_segment list" where
  "plan_segments_of segs = map (\<lambda>(i, s). plan_segment_of i s) (enumerate 0 segs)"

definition renumber :: "plan_segment list \<Rightarrow> plan_segment list" where
  "renumber segs = map (\<lambda>(i, s). s\<lparr>bg_index := Some i\<rparr>) (enumerate 0 segs)"

text \<open>The assertions at the end compare the block with the schedule.\<close>

definition generate_next_block :: "int \<Rightarrow> scheduled_block \<Rightarrow> ms \<Rightarrow> ms \<Rightarrow> block_plan res" where
  "generate_next_block channel scheduled jip_offset_ms now_ms =
     (let joining = 0 < jip_offset_ms \<and> 0 < now_ms;
          jip = (if joining then max 0 (min (now_ms - sb_start scheduled) (sb_duration_ms scheduled)) else jip_offset_ms);
          start_ms = (if joining then sb_start scheduled + jip else sb_start scheduled);
          end_ms = sb_end scheduled;
          segs = plan_segments_of (sb_segments scheduled);
          segs' = (if 0 < jip then renumber (apply_jip_to_segments segs jip (end_ms - start_ms)) else segs)
      in if 0 < jip \<and> start_ms \<noteq> sb_start scheduled + jip
         then Inl (AssertionError ''INV-EXEC-NO-STRUCTURE-001'')
         else if \<not> 0 < jip \<and> start_ms \<noteq> sb_start scheduled
         then Inl (AssertionError ''INV-EXEC-NO-STRUCTURE-001'')
         else Inr \<lparr>bk_id = sb_id scheduled, bk_channel = channel, bk_start = start_ms, bk_end = end_ms,
                   bk_segments = segs'\<rparr>)"

definition advance_cursor :: "block_plan \<Rightarrow> producer \<Rightarrow> producer" where
  "advance_cursor b p = p\<lparr>bp_index := Suc (bp_index p), bp_cursor := bk_end b\<rparr>"

definition resolve_plan_at :: "('w, 'z) feed_env_scheme \<Rightarrow> ms \<Rightarrow> producer \<Rightarrow> 'w \<Rightarrow> 'w \<times> scheduled_block option res" where
  "resolve_plan_at env utc_ms p w = (if bp_has_schedule p then fe_block_at env w utc_ms else (w, Inr None))"

section \<open>The end of a session\<close>

definition on_session_end :: "string \<Rightarrow> producer \<Rightarrow> producer" where
  "on_session_end reason p =
     p\<lparr>bp_ended := True, bp_end_reason := Some reason, bp_state := DRAINING,
       bp_reports := bp_reports p @ (if bp_has_callback p then [reason] else [])\<rparr>"

definition reset_producer :: "producer \<Rightarrow> producer" where
  "reset_producer p =
     p\<lparr>bp_index := 0, bp_cursor := 0, bp_ended := False, bp_end_reason := None, bp_completed := {},
       bp_pending := None, bp_state := CREATED, bp_max_end := 0, bp_credits := 0, bp_started_events := False,
       bp_errors := 0, bp_backoff := 0, bp_ticks := 0, bp_misses := 0, bp_late := 0, bp_first_due := 0,
       bp_notes := []\<rparr>"

definition producer_cleanup :: "('w, 'z) feed_env_scheme \<Rightarrow> producer \<Rightarrow> 'w \<Rightarrow> producer \<times> 'w" where
  "producer_cleanup env p w =
     (case bp_session p of
        None \<Rightarrow> (reset_producer p, w)
      | Some s \<Rightarrow>
        (case session_stop env ''last_viewer_left'' s w of
           (s', w', told) \<Rightarrow>
             (reset_producer ((if told then on_session_end ''last_viewer_left'' p else p)\<lparr>bp_session := None\<rparr>), w')))"

section \<open>Start and stop\<close>

definition and_then ::
  "producer \<times> 'w \<times> 'a res \<Rightarrow> (producer \<Rightarrow> 'w \<Rightarrow> 'a \<Rightarrow> producer \<times> 'w \<times> 'b res) \<Rightarrow> producer \<times> 'w \<times> 'b res" where
  "and_then r f = (case r of (p, w, Inl e) \<Rightarrow> (p, w, Inl e) | (p, w, Inr x) \<Rightarrow> f p w x)"

definition open_session :: "('w, 'z) feed_env_scheme \<Rightarrow> producer \<Rightarrow> 'w \<Rightarrow> producer \<times> 'w \<times> unit res" where
  "open_session env p w =
     (case fe_setup env w of
        (w1, False) \<Rightarrow> (p, w1, Inl (RuntimeError ''setup''))
      | (w1, True) \<Rightarrow>
        (case session_start env new_session w1 of
           (s, w2, ok) \<Rightarrow>
             (p\<lparr>bp_session := Some s\<rparr>, w2, if ok then Inr () else Inl (RuntimeError ''PlayoutSession.start() failed''))))"

definition resolve_entry ::
  "('w, 'z) feed_env_scheme \<Rightarrow> ms \<Rightarrow> string \<Rightarrow> producer \<Rightarrow> 'w \<Rightarrow> producer \<times> 'w \<times> scheduled_block res" where
  "resolve_entry env utc_ms msg p w =
     (case resolve_plan_at env utc_ms p w of
        (w', Inl e) \<Rightarrow> (p, w', Inl e)
      | (w', Inr None) \<Rightarrow> (p, w', Inl (RuntimeError msg))
      | (w', Inr (Some b)) \<Rightarrow> (p, w', Inr b))"

definition make_block ::
  "scheduled_block \<Rightarrow> ms \<Rightarrow> ms \<Rightarrow> producer \<Rightarrow> 'w \<Rightarrow> producer \<times> 'w \<times> block_plan res" where
  "make_block scheduled jip now_ms p w =
     (case generate_next_block (bp_channel p) scheduled jip now_ms of
        Inl e \<Rightarrow> (p, w, Inl e)
      | Inr b \<Rightarrow> (advance_cursor b p, w, Inr b))"

definition seed_session ::
  "('w, 'z) feed_env_scheme \<Rightarrow> block_plan \<Rightarrow> block_plan \<Rightarrow> ms \<Rightarrow> producer \<Rightarrow> 'w \<Rightarrow> producer \<times> 'w \<times> unit res" where
  "seed_session env a b join_ms p w =
     (case bp_session p of
        None \<Rightarrow> (p, w, Inl (RuntimeError ''session''))
      | Some s \<Rightarrow>
        (case session_seed env a b join_ms (bp_depth p) s w of
           (s', w', Inl e) \<Rightarrow> (p\<lparr>bp_session := Some s'\<rparr>, w', Inl e)
         | (s', w', Inr False) \<Rightarrow> (p\<lparr>bp_session := Some s'\<rparr>, w', Inl (RuntimeError ''PlayoutSession.seed() failed''))
         | (s', w', Inr True) \<Rightarrow> (p\<lparr>bp_session := Some s'\<rparr>, w', Inr ())))"

definition mark_started :: "block_plan \<Rightarrow> block_plan \<Rightarrow> datetime \<Rightarrow> producer \<Rightarrow> producer" where
  "mark_started a b station_time p =
     p\<lparr>bp_in_flight := bp_in_flight p \<union> {bk_id a, bk_id b}, bp_state := SEEDED, bp_max_end := bk_end b,
       bp_credits := bp_depth p - 2, bp_errors := 0, bp_backoff := 0, bp_ticks := 0, bp_started := True,
       bp_status := PS_RUNNING, bp_started_at := Some station_time, bp_output := Some (bp_stream p)\<rparr>"

definition start_body ::
  "('w, 'z) feed_env_scheme \<Rightarrow> datetime \<Rightarrow> ms \<Rightarrow> producer \<Rightarrow> 'w \<Rightarrow> producer \<times> 'w \<times> unit res" where
  "start_body env station_time jip_offset_ms p w =
     (let join_ms = to_epoch_ms station_time
      in and_then (open_session env p w) (\<lambda>p w _.
         and_then (resolve_entry env join_ms ''No block data from schedule service'' p w) (\<lambda>p w entry.
         and_then (make_block entry jip_offset_ms join_ms (p\<lparr>bp_cursor := sb_start entry, bp_in_flight := {}\<rparr>) w) (\<lambda>p w a.
         and_then (resolve_entry env (bp_cursor p) ''No next block data from schedule service'' p w) (\<lambda>p w next_entry.
         and_then (make_block next_entry 0 0 p w) (\<lambda>p w b.
         and_then (seed_session env a b join_ms p w) (\<lambda>p w _.
           (mark_started a b station_time p, w, Inr ()))))))))"

definition producer_start ::
  "('w, 'z) feed_env_scheme \<Rightarrow> datetime \<Rightarrow> ms \<Rightarrow> producer \<Rightarrow> 'w \<Rightarrow> producer \<times> 'w \<times> bool" where
  "producer_start env station_time jip_offset_ms p w =
     (if bp_started p then (p, w, True)
      else case start_body env station_time jip_offset_ms (p\<lparr>bp_start_count := Suc (bp_start_count p)\<rparr>) w of
             (p1, w1, Inr _) \<Rightarrow> (p1, w1, True)
           | (p1, w1, Inl _) \<Rightarrow>
             (case producer_cleanup env p1 w1 of (p2, w2) \<Rightarrow> (p2\<lparr>bp_status := PS_ERROR\<rparr>, w2, False)))"

definition teardown_cleanup :: "producer \<Rightarrow> producer" where
  "teardown_cleanup p = p\<lparr>td_active := False, td_elapsed := 0, td_ready := False, td_reason := None\<rparr>"

definition producer_stop :: "('w, 'z) feed_env_scheme \<Rightarrow> producer \<Rightarrow> 'w \<Rightarrow> producer \<times> 'w" where
  "producer_stop env p w =
     (if \<not> bp_started p then (p, w)
      else case producer_cleanup env (p\<lparr>bp_stop_count := Suc (bp_stop_count p)\<rparr>) w of
             (p1, w1) \<Rightarrow> (teardown_cleanup (p1\<lparr>bp_started := False, bp_status := PS_STOPPED, bp_output := None\<rparr>), w1))"

section \<open>Feeding\<close>

text \<open>\<^verbatim>\<open>prepopulate_block_segment_cache\<close>: the oldest entry makes room when the cache is full.\<close>

definition cache_max :: nat where "cache_max = 10"

definition cached_segments :: "plan_segment list \<Rightarrow> cached_segment list" where
  "cached_segments segs =
     map (\<lambda>(i, s). \<lparr>cg_index = get_or (bg_index s) i, cg_type = bg_type s, cg_uri = get_or (bg_uri s) [],
        cg_offset = get_or (bg_offset s) 0, cg_duration = bg_duration s, cg_title = []\<rparr>) (enumerate 0 segs)"

definition prepopulate_cache ::
  "string \<Rightarrow> cached_segment list \<Rightarrow> (string \<times> cached_segment list) list \<Rightarrow> (string \<times> cached_segment list) list" where
  "prepopulate_cache i segs cache = dict_set i segs (if cache_max \<le> length cache then tl cache else cache)"

definition backoff_base :: int where "backoff_base = 4"
definition backoff_max :: int where "backoff_max = 112"

definition feed_accepted :: "block_plan \<Rightarrow> producer \<Rightarrow> producer" where
  "feed_accepted b p =
     (let p = advance_cursor b p
      in p\<lparr>bp_pending := None, bp_credits := max 0 (bp_credits p - 1),
           bp_cache := prepopulate_cache (bk_id b) (cached_segments (bk_segments b)) (bp_cache p),
           bp_in_flight := insert (bk_id b) (bp_in_flight p), bp_errors := 0, bp_backoff := 0\<rparr>)"

definition feed_refused :: "block_plan \<Rightarrow> producer \<Rightarrow> producer" where
  "feed_refused b p = p\<lparr>bp_pending := Some b, bp_credits := 0\<rparr>"

definition feed_failed :: "block_plan \<Rightarrow> producer \<Rightarrow> producer" where
  "feed_failed b p =
     p\<lparr>bp_pending := Some b, bp_errors := Suc (bp_errors p),
       bp_backoff := min (backoff_base * 2 ^ bp_errors p) backoff_max\<rparr>"

definition try_feed_block ::
  "('w, 'z) feed_env_scheme \<Rightarrow> block_plan \<Rightarrow> producer \<Rightarrow> 'w \<Rightarrow> producer \<times> 'w \<times> feed_result res" where
  "try_feed_block env b p w =
     (case bp_session p of
        None \<Rightarrow> (p, w, Inr ERROR)
      | Some s \<Rightarrow>
        (case session_feed env b s w of
           (s', w', Inl e) \<Rightarrow> (p, w', Inl e)
         | (s', w', Inr ACCEPTED) \<Rightarrow> (feed_accepted b (p\<lparr>bp_session := Some s'\<rparr>), w', Inr ACCEPTED)
         | (s', w', Inr QUEUE_FULL) \<Rightarrow> (feed_refused b (p\<lparr>bp_session := Some s'\<rparr>), w', Inr QUEUE_FULL)
         | (s', w', Inr ERROR) \<Rightarrow> (feed_failed b (p\<lparr>bp_session := Some s'\<rparr>), w', Inr ERROR)))"

definition compute_runway_ms :: "('w, 'z) feed_env_scheme \<Rightarrow> producer \<Rightarrow> 'w \<Rightarrow> 'w \<times> ms" where
  "compute_runway_ms env p w =
     (if bp_max_end p = 0 then (w, 0)
      else case fe_now env w of (w', now) \<Rightarrow> (w', max 0 (bp_max_end p - to_epoch_ms now)))"

definition record_miss_annotation ::
  "('w, 'z) feed_env_scheme \<Rightarrow> string \<Rightarrow> ms \<Rightarrow> producer \<Rightarrow> 'w \<Rightarrow> producer \<times> 'w" where
  "record_miss_annotation env block_id lateness_ms p w =
     (case fe_now env w of (w', now) \<Rightarrow>
        (p\<lparr>bp_notes := bp_notes p @ [\<lparr>an_type = ''missed_ready_by'', an_block = block_id, an_time = to_epoch_ms now,
             an_lateness = lateness_ms\<rparr>]\<rparr>, w'))"

text \<open>When the next block was first seen to be due, noted before the credits are looked at.\<close>

definition note_first_due :: "ms \<Rightarrow> producer \<Rightarrow> producer" where
  "note_first_due now_ms p =
     (let next_start = (case bp_pending p of Some b \<Rightarrow> bk_start b | None \<Rightarrow> bp_cursor p)
      in if bp_first_due p = 0 \<and> 0 < next_start \<and> next_start - bp_preload p \<le> now_ms
         then p\<lparr>bp_first_due := now_ms\<rparr> else p)"

definition next_block ::
  "('w, 'z) feed_env_scheme \<Rightarrow> producer \<Rightarrow> 'w \<Rightarrow> 'w \<times> block_plan option res" where
  "next_block env p w =
     (case bp_pending p of
        Some b \<Rightarrow> (w, Inr (Some b))
      | None \<Rightarrow>
        (case resolve_plan_at env (bp_cursor p) p w of
           (w', Inl e) \<Rightarrow> (w', Inl e)
         | (w', Inr None) \<Rightarrow> (w', Inr None)
         | (w', Inr (Some b)) \<Rightarrow> (w', map_sum id Some (generate_next_block (bp_channel p) b 0 0))))"

definition judge_lateness ::
  "('w, 'z) feed_env_scheme \<Rightarrow> ms \<Rightarrow> block_plan \<Rightarrow> producer \<Rightarrow> 'w \<Rightarrow> producer \<times> 'w" where
  "judge_lateness env now_ms b p w =
     (let first_due = (if bp_first_due p \<noteq> 0 then bp_first_due p else now_ms)
      in if bk_start b < first_due
         then record_miss_annotation env (bk_id b) (now_ms - bk_start b) (p\<lparr>bp_misses := Suc (bp_misses p)\<rparr>) w
         else if bk_start b < now_ms then (p\<lparr>bp_late := Suc (bp_late p)\<rparr>, w)
         else (p, w))"

definition feed_delivered :: "block_plan \<Rightarrow> producer \<Rightarrow> producer" where
  "feed_delivered b p = p\<lparr>bp_first_due := 0, bp_max_end := max (bp_max_end p) (bk_end b)\<rparr>"

text \<open>The loop over the credits; the runway read after a feed only goes into a metric.\<close>

fun feed_loop ::
  "('w, 'z) feed_env_scheme \<Rightarrow> ms \<Rightarrow> nat \<Rightarrow> producer \<Rightarrow> 'w \<Rightarrow> producer \<times> 'w \<times> unit res" where
  "feed_loop env now_ms 0 p w = (p, w, Inr ())"
| "feed_loop env now_ms (Suc n) p w =
     (case next_block env p w of
        (w1, Inl e) \<Rightarrow> (p, w1, Inl e)
      | (w1, Inr None) \<Rightarrow> (p, w1, Inr ())
      | (w1, Inr (Some b)) \<Rightarrow>
        (case compute_runway_ms env p w1 of
           (w2, runway_ms) \<Rightarrow>
             if \<not> bk_start b - bp_preload p \<le> now_ms \<and> \<not> runway_ms < bp_horizon p \<and> \<not> 0 < bp_credits p
             then (p, w2, Inr ())
             else case judge_lateness env now_ms b p w2 of
               (p1, w3) \<Rightarrow>
                 (case try_feed_block env b p1 w3 of
                    (p2, w4, Inl e) \<Rightarrow> (p2, w4, Inl e)
                  | (p2, w4, Inr res) \<Rightarrow>
                    if res \<noteq> ACCEPTED then (p2, w4, Inr ())
                    else case compute_runway_ms env (feed_delivered b p2) w4 of
                      (w5, _) \<Rightarrow>
                        if bp_credits p2 \<le> 0 then (feed_delivered b p2, w5, Inr ())
                        else feed_loop env now_ms n (feed_delivered b p2) w5)))"

definition feed_ahead :: "('w, 'z) feed_env_scheme \<Rightarrow> producer \<Rightarrow> 'w \<Rightarrow> producer \<times> 'w \<times> unit res" where
  "feed_ahead env p w =
     (if bp_state p \<noteq> RUNNING then (p, w, Inr ())
      else if bp_ended p \<or> \<not> bp_started p \<or> bp_session p = None then (p, w, Inr ())
      else case fe_now env w of
        (w1, now) \<Rightarrow>
          (let p1 = note_first_due (to_epoch_ms now) p
           in if bp_credits p1 \<le> 0 then (p1, w1, Inr ())
              else feed_loop env (to_epoch_ms now) (nat (min (bp_credits p1) (bp_depth p1))) p1 w1))"

section \<open>Callbacks and ticks\<close>

definition add_credit :: "producer \<Rightarrow> producer" where
  "add_credit p = p\<lparr>bp_credits := min (bp_credits p + 1) (bp_depth p)\<rparr>"

text \<open>The log line of the transition reads the runway.\<close>

definition enter_running :: "('w, 'z) feed_env_scheme \<Rightarrow> producer \<Rightarrow> 'w \<Rightarrow> producer \<times> 'w" where
  "enter_running env p w =
     (if bp_state p = SEEDED
      then (p\<lparr>bp_state := RUNNING\<rparr>, fst (compute_runway_ms env p w)) else (p, w))"

definition on_block_started :: "('w, 'z) feed_env_scheme \<Rightarrow> string \<Rightarrow> producer \<Rightarrow> 'w \<Rightarrow> producer \<times> 'w \<times> unit res" where
  "on_block_started env block_id p w =
     (if bp_ended p \<or> \<not> bp_started p then (p, w, Inr ())
      else case enter_running env (add_credit (p\<lparr>bp_started_events := True\<rparr>)) w of
             (p1, w1) \<Rightarrow> feed_ahead env p1 w1)"

definition on_block_complete :: "('w, 'z) feed_env_scheme \<Rightarrow> string \<Rightarrow> producer \<Rightarrow> 'w \<Rightarrow> producer \<times> 'w \<times> unit res" where
  "on_block_complete env block_id p w =
     (if bp_ended p then (p, w, Inr ())
      else if \<not> bp_started p \<or> bp_session p = None then (p, w, Inr ())
      else if block_id \<in> bp_completed p then (p, w, Inr ())
      else if block_id \<notin> bp_in_flight p then (p, w, Inr ())
      else case enter_running env (p\<lparr>bp_completed := insert block_id (bp_completed p),
                  bp_in_flight := bp_in_flight p - {block_id}\<rparr>) w of
             (p1, w1) \<Rightarrow>
               (let p2 = (if bp_started_events p1 then p1 else add_credit p1)
                in feed_ahead env (p2\<lparr>bp_errors := 0, bp_backoff := 0\<rparr>) w1))"

fun air_callback :: "('w, 'z) feed_env_scheme \<Rightarrow> air_event \<Rightarrow> producer \<Rightarrow> 'w \<Rightarrow> producer \<times> 'w" where
  "air_callback env (BlockCompleted i n) p w = (case on_block_complete env i p w of (p', w', _) \<Rightarrow> (p', w'))"
| "air_callback env (BlockStarted i) p w = (case on_block_started env i p w of (p', w', _) \<Rightarrow> (p', w'))"
| "air_callback env (SessionEnded reason n) p w = (on_session_end reason p, w)"

definition request_teardown :: "string \<Rightarrow> rat option \<Rightarrow> producer \<Rightarrow> producer" where
  "request_teardown reason timeout p =
     (if td_active p then p
      else p\<lparr>td_active := True, td_elapsed := 0, td_limit := get_or timeout (td_default p),
             td_reason := Some reason, td_ready := False, bp_status := PS_STOPPING\<rparr>)"

definition signal_teardown_ready :: "producer \<Rightarrow> producer" where
  "signal_teardown_ready p = (if td_active p then p\<lparr>td_ready := True\<rparr> else p)"

definition finish_teardown :: "('w, 'z) feed_env_scheme \<Rightarrow> producer \<Rightarrow> 'w \<Rightarrow> producer \<times> 'w" where
  "finish_teardown env p w =
     (if \<not> td_active p then (p, w)
      else case producer_stop env p w of (p', w') \<Rightarrow> (teardown_cleanup (p'\<lparr>bp_status := PS_STOPPED\<rparr>), w'))"

definition advance_teardown :: "('w, 'z) feed_env_scheme \<Rightarrow> rat \<Rightarrow> producer \<Rightarrow> 'w \<Rightarrow> producer \<times> 'w \<times> bool" where
  "advance_teardown env dt p w =
     (if \<not> td_active p then (p, w, False)
      else let p1 = (if 0 < dt then p\<lparr>td_elapsed := fl (td_elapsed p + dt)\<rparr> else p);
               timeout_reached = td_limit p1 \<le> td_elapsed p1;
               p2 = (if \<not> td_ready p1 \<and> td_grace p1 \<le> td_elapsed p1 then p1\<lparr>td_ready := True\<rparr> else p1)
           in if td_ready p2 \<or> timeout_reached
              then (case finish_teardown env p2 w of (p3, w3) \<Rightarrow> (p3, w3, True))
              else (p2, w, True))"

definition tick_divisor :: nat where "tick_divisor = 8"

definition on_paced_tick :: "('w, 'z) feed_env_scheme \<Rightarrow> rat \<Rightarrow> producer \<Rightarrow> 'w \<Rightarrow> producer \<times> 'w \<times> unit res" where
  "on_paced_tick env dt p w =
     (case advance_teardown env dt p w of
        (p1, w1, True) \<Rightarrow> (p1, w1, Inr ())
      | (p1, w1, False) \<Rightarrow>
        (let p2 = p1\<lparr>bp_ticks := Suc (bp_ticks p1)\<rparr>
         in if bp_ticks p2 mod tick_divisor \<noteq> 0 then (p2, w1, Inr ())
            else if 0 < bp_backoff p2 then (p2\<lparr>bp_backoff := bp_backoff p2 - 1\<rparr>, w1, Inr ())
            else if bp_state p2 = RUNNING then feed_ahead env p2 w1
            else (p2, w1, Inr ())))"

definition producer_health :: "producer \<Rightarrow> string" where
  "producer_health p =
     (if \<not> bp_started p then ''stopped''
      else if (case bp_session p of None \<Rightarrow> False | Some s \<Rightarrow> se_running s) then ''running''
      else if bp_status p = PS_ERROR then ''degraded'' else ''stopped'')"

section \<open>Runs\<close>

text \<open>
  What can happen to a producer, in any order: its public methods, the ticks of the pace loop and
  the events of the engine.  An event of an earlier session reaches the callbacks without touching
  the current session; an exception of a callback is logged by the event thread.
\<close>

datatype feed_event =
    Start datetime ms
  | Stop
  | Air bool air_event
  | Tick rat
  | RequestTeardown string "rat option"
  | SignalReady

fun run_event :: "('w, 'z) feed_env_scheme \<Rightarrow> feed_event \<Rightarrow> producer \<Rightarrow> 'w \<Rightarrow> producer \<times> 'w" where
  "run_event env (Start t jip) p w = (case producer_start env t jip p w of (p', w', _) \<Rightarrow> (p', w'))"
| "run_event env Stop p w = producer_stop env p w"
| "run_event env (Air current ev) p w =
     air_callback env ev
       (if current then p\<lparr>bp_session := map_option (session_event ev) (bp_session p)\<rparr> else p) w"
| "run_event env (Tick dt) p w = (case on_paced_tick env dt p w of (p', w', _) \<Rightarrow> (p', w'))"
| "run_event env (RequestTeardown reason timeout) p w = (request_teardown reason timeout p, w)"
| "run_event env SignalReady p w = (signal_teardown_ready p, w)"

inductive feed_step :: "('w, 'z) feed_env_scheme \<Rightarrow> producer \<times> 'w \<Rightarrow> producer \<times> 'w \<Rightarrow> bool" for env where
  step: "run_event env ev p w = (p', w') \<Longrightarrow> feed_step env (p, w) (p', w')"

inductive feed_reachable :: "('w, 'z) feed_env_scheme \<Rightarrow> producer \<times> 'w \<Rightarrow> producer \<times> 'w \<Rightarrow> bool" for env where
  refl: "feed_reachable env s s"
| trans: "feed_reachable env s t \<Longrightarrow> feed_step env t u \<Longrightarrow> feed_reachable env s u"

inductive_cases feed_stepE: "feed_step env s t"

section \<open>The invariant of every run\<close>

text \<open>The limits of the flow control, and the agreement of the flags.\<close>

definition feeder_ok :: "producer \<Rightarrow> bool" where
  "feeder_ok p \<longleftrightarrow> 2 \<le> bp_depth p \<and> 0 \<le> bp_credits p \<and> bp_credits p \<le> bp_depth p
     \<and> 0 \<le> bp_backoff p \<and> bp_backoff p \<le> backoff_max \<and> (bp_errors p = 0 \<longrightarrow> bp_backoff p = 0)
     \<and> (bp_state p \<in> {SEEDED, RUNNING} \<longrightarrow> bp_started p) \<and> (bp_state p = CREATED \<longrightarrow> \<not> bp_started p)
     \<and> (bp_state p = DRAINING \<longrightarrow> bp_ended p)
     \<and> (\<not> bp_started p \<longrightarrow> bp_session p = None \<and> bp_pending p = None \<and> bp_credits p = 0)
     \<and> length (bp_cache p) \<le> cache_max"

text \<open>
  Where the blocks come from: \<open>y\<close> is what the schedule service had at the end of \<open>x\<close>, and the
  first block of a session is what it had at the moment of joining.
\<close>

definition next_of :: "('w, 'z) feed_env_scheme \<Rightarrow> int \<Rightarrow> block_plan \<Rightarrow> block_plan \<Rightarrow> bool" where
  "next_of env channel x y \<longleftrightarrow>
     (\<exists>w w' sb. fe_block_at env w (bk_end x) = (w', Inr (Some sb)) \<and> generate_next_block channel sb 0 0 = Inr y)"

definition first_of :: "('w, 'z) feed_env_scheme \<Rightarrow> int \<Rightarrow> block_plan \<Rightarrow> bool" where
  "first_of env channel x \<longleftrightarrow>
     (\<exists>w w' sb t jip. fe_block_at env w t = (w', Inr (Some sb)) \<and> generate_next_block channel sb jip t = Inr x)"

definition sent_in_order :: "('w, 'z) feed_env_scheme \<Rightarrow> int \<Rightarrow> block_plan list \<Rightarrow> bool" where
  "sent_in_order env channel bs \<longleftrightarrow> 2 \<le> length bs \<and> bk_end (bs ! 0) = bk_start (bs ! 1)
     \<and> first_of env channel (bs ! 0) \<and> successively (next_of env channel) bs"

definition history_ok :: "('w, 'z) feed_env_scheme \<Rightarrow> producer \<Rightarrow> bool" where
  "history_ok env p \<longleftrightarrow> (bp_started p \<longrightarrow>
     (\<exists>s. bp_session p = Some s \<and> session_ok s \<and> sent_in_order env (bp_channel p) (se_sent s)
          \<and> bk_end (last (se_sent s)) = bp_cursor p
          \<and> (\<forall>b. bp_pending p = Some b \<longrightarrow> next_of env (bp_channel p) (last (se_sent s)) b)))"

definition feed_inv :: "('w, 'z) feed_env_scheme \<Rightarrow> producer \<Rightarrow> bool" where
  "feed_inv env p \<longleftrightarrow> feeder_ok p \<and> history_ok env p"

lemmas feed_inv_defs = feed_inv_def feeder_ok_def history_ok_def

text \<open>Fields the invariant does not look at.\<close>

lemma feed_inv_frame [simp]:
  "feed_inv env (p\<lparr>bp_first_due := x\<rparr>) = feed_inv env p"
  "feed_inv env (p\<lparr>bp_misses := n\<rparr>) = feed_inv env p"
  "feed_inv env (p\<lparr>bp_late := n\<rparr>) = feed_inv env p"
  "feed_inv env (p\<lparr>bp_notes := ns\<rparr>) = feed_inv env p"
  "feed_inv env (p\<lparr>bp_max_end := x\<rparr>) = feed_inv env p"
  "feed_inv env (p\<lparr>bp_ticks := n\<rparr>) = feed_inv env p"
  "feed_inv env (p\<lparr>bp_started_events := a\<rparr>) = feed_inv env p"
  "feed_inv env (p\<lparr>bp_completed := i\<rparr>) = feed_inv env p"
  "feed_inv env (p\<lparr>bp_in_flight := i\<rparr>) = feed_inv env p"
  "feed_inv env (p\<lparr>bp_start_count := n\<rparr>) = feed_inv env p"
  "feed_inv env (p\<lparr>bp_stop_count := n\<rparr>) = feed_inv env p"
  "feed_inv env (p\<lparr>bp_status := st\<rparr>) = feed_inv env p"
  "feed_inv env (p\<lparr>td_active := a\<rparr>) = feed_inv env p"
  "feed_inv env (p\<lparr>td_elapsed := q\<rparr>) = feed_inv env p"
  "feed_inv env (p\<lparr>td_limit := q\<rparr>) = feed_inv env p"
  "feed_inv env (p\<lparr>td_reason := rs\<rparr>) = feed_inv env p"
  "feed_inv env (p\<lparr>td_ready := a\<rparr>) = feed_inv env p"
  by (simp_all add: feed_inv_defs)

lemma feed_inv_note_first_due [simp]: "feed_inv env (note_first_due now p) = feed_inv env p"
  by (simp add: note_first_due_def Let_def)

lemma feed_inv_delivered [simp]: "feed_inv env (feed_delivered b p) = feed_inv env p"
  by (simp add: feed_delivered_def)

lemma judge_lateness_frame:
  assumes "judge_lateness env now b p w = (p', w')"
  shows "feed_inv env p' = feed_inv env p \<and> bp_started p' = bp_started p \<and> bp_session p' = bp_session p
    \<and> bp_channel p' = bp_channel p \<and> bp_ended p' = bp_ended p \<and> bp_completed p' = bp_completed p
    \<and> bp_credits p' = bp_credits p \<and> bp_has_schedule p' = bp_has_schedule p"
  using assms by (auto simp: judge_lateness_def record_miss_annotation_def Let_def split: if_splits prod.splits)

lemma note_first_due_frame [simp]:
  "bp_started (note_first_due now p) = bp_started p" "bp_session (note_first_due now p) = bp_session p"
  "bp_credits (note_first_due now p) = bp_credits p" "bp_depth (note_first_due now p) = bp_depth p"
  "bp_pending (note_first_due now p) = bp_pending p" "bp_cursor (note_first_due now p) = bp_cursor p"
  "bp_ended (note_first_due now p) = bp_ended p" "bp_channel (note_first_due now p) = bp_channel p"
  "bp_has_schedule (note_first_due now p) = bp_has_schedule p" "bp_completed (note_first_due now p) = bp_completed p"
  by (simp_all add: note_first_due_def Let_def)

lemma length_dict_set: "length (dict_set k v d) \<le> Suc (length d)"
  by (induction d) auto

lemma prepopulate_cache_le: "length c \<le> cache_max \<Longrightarrow> length (prepopulate_cache i segs c) \<le> cache_max"
proof -
  assume "length c \<le> cache_max"
  then have "length (if cache_max \<le> length c then tl c else c) < cache_max" by (auto simp: cache_max_def)
  then show ?thesis unfolding prepopulate_cache_def
    by (meson Suc_leI le_trans length_dict_set)
qed

lemma generate_end: "generate_next_block ch sb jip now = Inr b \<Longrightarrow> bk_end b = sb_end sb"
  by (auto simp: generate_next_block_def Let_def split: if_splits)

lemma generate_whole:
  "generate_next_block ch sb 0 now = Inr \<lparr>bk_id = sb_id sb, bk_channel = ch, bk_start = sb_start sb, bk_end = sb_end sb,
     bk_segments = plan_segments_of (sb_segments sb)\<rparr>"
  by (simp add: generate_next_block_def Let_def)

lemma next_block_of:
  assumes "history_ok env p" "bp_started p" "bp_session p = Some s" "next_block env p w = (w', Inr (Some b))"
  shows "next_of env (bp_channel p) (last (se_sent s)) b"
proof (cases "bp_pending p")
  case None
  obtain r where r: "resolve_plan_at env (bp_cursor p) p w = (w', r)"
    using assms(4) None by (auto simp: next_block_def split: prod.splits sum.splits option.splits)
  obtain sb where sb: "r = Inr (Some sb)" "generate_next_block (bp_channel p) sb 0 0 = Inr b"
    using assms(4) None r by (auto simp: next_block_def generate_whole split: sum.splits option.splits)
  have "fe_block_at env w (bp_cursor p) = (w', Inr (Some sb))"
    using r sb(1) by (simp add: resolve_plan_at_def split: if_splits)
  then show ?thesis using sb(2) assms(1-3) by (auto simp: next_of_def history_ok_def)
qed (use assms in \<open>auto simp: next_block_def history_ok_def\<close>)

lemma backoff_bounds: "0 \<le> min (backoff_base * 2 ^ n) backoff_max" "min (backoff_base * 2 ^ n) backoff_max \<le> backoff_max"
  by (simp_all add: backoff_base_def backoff_max_def)

lemma sent_in_order_snoc:
  assumes "sent_in_order env ch bs" "next_of env ch (last bs) b"
  shows "sent_in_order env ch (bs @ [b])"
proof -
  have "2 \<le> length bs" using assms(1) by (simp add: sent_in_order_def)
  then have "bs \<noteq> []" "(bs @ [b]) ! 0 = bs ! 0" "(bs @ [b]) ! 1 = bs ! 1" by (auto simp: nth_append)
  then show ?thesis using assms by (simp add: sent_in_order_def successively_append_iff)
qed

lemma try_feed_inv:
  assumes "feed_inv env p" "bp_started p" "bp_session p = Some s" "next_of env (bp_channel p) (last (se_sent s)) b"
    and "try_feed_block env b p w = (p', w', r)"
  shows "feed_inv env p' \<and> bp_started p' \<and> bp_channel p' = bp_channel p \<and> bp_ended p' = bp_ended p
    \<and> bp_completed p' = bp_completed p"
proof -
  obtain s' w1 q where f: "session_feed env b s w = (s', w1, q)" by (cases "session_feed env b s w")
  note c = session_feed_cases [OF f]
  consider e where "q = Inl e" | "q = Inr ACCEPTED" | "q = Inr QUEUE_FULL" | "q = Inr ERROR"
    by (metis feed_result.exhaust obj_sumE)
  then show ?thesis
  proof cases
    case 2
    have o: "sent_in_order env (bp_channel p) (se_sent s @ [b])"
      using assms(1-4) by (intro sent_in_order_snoc) (auto simp: feed_inv_defs)
    have len: "session_ok s" "2 \<le> length (se_sent s)" using assms(1-3) by (auto simp: feed_inv_defs sent_in_order_def)
    then have "session_ok s'" using c 2 by (auto simp: session_ok_def)
    moreover have "p' = feed_accepted b (p\<lparr>bp_session := Some s'\<rparr>)" using assms(3,5) f 2 by (simp add: try_feed_block_def)
    ultimately show ?thesis using assms(1-3) c 2 o
      by (auto simp: feed_accepted_def advance_cursor_def Let_def feed_inv_defs prepopulate_cache_le backoff_max_def)
  next
    case 3
    then have "p' = feed_refused b (p\<lparr>bp_session := Some s\<rparr>)" using assms(3,5) f c by (auto simp: try_feed_block_def)
    then show ?thesis using assms(1-4) by (auto simp: feed_refused_def feed_inv_defs)
  next
    case 4
    then have "p' = feed_failed b (p\<lparr>bp_session := Some s\<rparr>)" using assms(3,5) f c by (auto simp: try_feed_block_def)
    then show ?thesis using assms(1-4) backoff_bounds [of "bp_errors p"] by (auto simp: feed_failed_def feed_inv_defs)
  next
    case 1
    then have "p' = p" using assms(3,5) f by (simp add: try_feed_block_def)
    then show ?thesis using assms(1,2) by simp
  qed
qed

text \<open>What a run of the feeding loop keeps.\<close>

definition feed_keeps :: "('w, 'z) feed_env_scheme \<Rightarrow> producer \<Rightarrow> producer \<Rightarrow> bool" where
  "feed_keeps env p p' \<longleftrightarrow> feed_inv env p' \<and> bp_started p' = bp_started p
     \<and> bp_channel p' = bp_channel p \<and> bp_ended p' = bp_ended p \<and> bp_completed p \<subseteq> bp_completed p'"

lemma feed_keeps_trans: "feed_keeps env p q \<Longrightarrow> feed_keeps env q r \<Longrightarrow> feed_keeps env p r"
  by (auto simp: feed_keeps_def)

lemma feed_keeps_refl: "feed_inv env p \<Longrightarrow> feed_keeps env p p"
  by (simp add: feed_keeps_def)

lemma delivered_keeps: "feed_inv env p \<Longrightarrow> feed_keeps env p (feed_delivered b p)"
  by (simp add: feed_keeps_def) (simp add: feed_delivered_def)

lemma feed_loop_inv:
  "feed_inv env p \<Longrightarrow> bp_started p \<Longrightarrow> feed_loop env now n p w = (p', w', r) \<Longrightarrow> feed_keeps env p p'"
proof (induction n arbitrary: p w)
  case (Suc n)
  obtain s where s: "bp_session p = Some s" using Suc.prems by (auto simp: feed_inv_defs)
  obtain w1 q where q: "next_block env p w = (w1, q)" by fastforce
  have stay: "feed_keeps env p p" using Suc.prems(1) by (rule feed_keeps_refl)
  consider e where "q = Inl e" | "q = Inr None" | b where "q = Inr (Some b)" by (metis obj_sumE not_Some_eq)
  then show ?case
  proof cases
    case (3 b)
    have nx: "next_of env (bp_channel p) (last (se_sent s)) b"
      using next_block_of [of env p s w w1 b] Suc.prems(1,2) s q 3 by (simp add: feed_inv_def)
    obtain w2 rw where rw: "compute_runway_ms env p w1 = (w2, rw)" by fastforce
    obtain p1 w3 where j: "judge_lateness env now b p w2 = (p1, w3)" by fastforce
    note jf = judge_lateness_frame [OF j]
    obtain p2 w4 r2 where t: "try_feed_block env b p1 w3 = (p2, w4, r2)" by (metis prod_cases3)
    have k2: "feed_keeps env p p2"
      using try_feed_inv [OF _ _ _ _ t, of s] jf nx s Suc.prems(1,2) by (simp add: feed_keeps_def)
    then have k3: "feed_keeps env p (feed_delivered b p2)"
      using delivered_keeps [of env p2 b] by (auto intro: feed_keeps_trans simp: feed_keeps_def)
    obtain w5 rw' where rw': "compute_runway_ms env (feed_delivered b p2) w4 = (w5, rw')" by fastforce
    have go: "feed_keeps env p p'" if "feed_loop env now n (feed_delivered b p2) w5 = (p', w', r)"
      using Suc.IH [OF _ _ that] k3 Suc.prems(2) by (auto intro: feed_keeps_trans simp: feed_keeps_def)
    have "p' = p \<or> p' = p2 \<or> p' = feed_delivered b p2 \<or> feed_loop env now n (feed_delivered b p2) w5 = (p', w', r)"
      using Suc.prems(3) by (cases r2) (auto simp: q 3 rw j t rw' split: if_splits)
    then show ?thesis using stay k2 k3 go by (elim disjE) simp_all
  qed (use Suc.prems(3) q stay in auto)
qed (simp add: feed_keeps_refl)

lemma feed_ahead_inv:
  assumes "feed_inv env p" and "feed_ahead env p w = (p', w', r)"
  shows "feed_keeps env p p'"
proof -
  obtain w1 now where c: "fe_now env w = (w1, now)" by fastforce
  let ?p1 = "note_first_due (to_epoch_ms now) p"
  have k: "feed_keeps env p ?p1" using assms(1) by (simp add: feed_keeps_def)
  have "p' = p \<or> p' = ?p1 \<or> (bp_started p \<and>
      feed_loop env (to_epoch_ms now) (nat (min (bp_credits p) (bp_depth p))) ?p1 w1 = (p', w', r))"
    using assms(2) by (auto simp: feed_ahead_def c Let_def split: if_splits)
  then show ?thesis
  proof (elim disjE conjE)
    assume st: "bp_started p"
      and run: "feed_loop env (to_epoch_ms now) (nat (min (bp_credits p) (bp_depth p))) ?p1 w1 = (p', w', r)"
    have "feed_keeps env ?p1 p'" by (rule feed_loop_inv [OF _ _ run]) (simp_all add: assms(1) st)
    with k show ?thesis by (rule feed_keeps_trans)
  qed (use k feed_keeps_refl [OF assms(1)] in simp_all)
qed

lemma add_credit_keeps: "feed_inv env p \<Longrightarrow> bp_started p \<Longrightarrow> feed_keeps env p (add_credit p)"
  by (auto simp: add_credit_def feed_keeps_def feed_inv_defs)

lemma enter_running_keeps: "feed_inv env p \<Longrightarrow> enter_running e p w = (p', w') \<Longrightarrow> feed_keeps env p p'"
  by (auto simp: enter_running_def feed_keeps_def feed_inv_defs split: if_splits)

lemma clear_errors_keeps: "feed_inv env p \<Longrightarrow> feed_keeps env p (p\<lparr>bp_errors := 0, bp_backoff := 0\<rparr>)"
  by (auto simp: feed_keeps_def feed_inv_defs backoff_max_def)

lemma on_block_started_inv:
  assumes "feed_inv env p" and "on_block_started env i p w = (p', w', r)"
  shows "feed_keeps env p p'"
proof (cases "bp_ended p \<or> \<not> bp_started p")
  case False
  let ?p0 = "p\<lparr>bp_started_events := True\<rparr>"
  obtain p1 w1 where e: "enter_running env (add_credit ?p0) w = (p1, w1)" by fastforce
  have k0: "feed_keeps env p ?p0" using assms(1) by (simp add: feed_keeps_def)
  have k1: "feed_keeps env ?p0 (add_credit ?p0)" using False assms(1) by (intro add_credit_keeps) simp_all
  then have k2: "feed_keeps env (add_credit ?p0) p1" using e by (intro enter_running_keeps) (simp_all add: feed_keeps_def)
  then have "feed_keeps env p1 p'" using assms(2) False e
    by (intro feed_ahead_inv) (auto simp: on_block_started_def feed_keeps_def)
  with k0 k1 k2 show ?thesis by (blast intro: feed_keeps_trans)
qed (use assms feed_keeps_refl in \<open>auto simp: on_block_started_def\<close>)

lemma on_block_complete_inv:
  assumes "feed_inv env p" and "on_block_complete env i p w = (p', w', r)"
  shows "feed_keeps env p p'"
proof (cases "bp_ended p \<or> \<not> bp_started p \<or> bp_session p = None \<or> i \<in> bp_completed p \<or> i \<notin> bp_in_flight p")
  case False
  let ?p0 = "p\<lparr>bp_completed := insert i (bp_completed p), bp_in_flight := bp_in_flight p - {i}\<rparr>"
  obtain p1 w1 where e: "enter_running env ?p0 w = (p1, w1)" by fastforce
  have k0: "feed_keeps env p ?p0" using assms(1) by (auto simp: feed_keeps_def)
  then have k1: "feed_keeps env ?p0 p1" using e by (intro enter_running_keeps) (simp_all add: feed_keeps_def)
  let ?p2 = "if bp_started_events p1 then p1 else add_credit p1"
  have k2: "feed_keeps env p1 ?p2" using k0 k1 False add_credit_keeps [of env p1] by (auto simp: feed_keeps_def)
  then have k3: "feed_keeps env ?p2 (?p2\<lparr>bp_errors := 0, bp_backoff := 0\<rparr>)"
    by (intro clear_errors_keeps) (simp add: feed_keeps_def)
  have "feed_keeps env (?p2\<lparr>bp_errors := 0, bp_backoff := 0\<rparr>) p'"
  proof (rule feed_ahead_inv)
    show "feed_inv env (?p2\<lparr>bp_errors := 0, bp_backoff := 0\<rparr>)" using k3 by (simp add: feed_keeps_def)
    show "feed_ahead env (?p2\<lparr>bp_errors := 0, bp_backoff := 0\<rparr>) w1 = (p', w', r)"
      using assms(2) False e by (auto simp: on_block_complete_def Let_def)
  qed
  with k0 k1 k2 k3 show ?thesis by (blast intro: feed_keeps_trans)
qed (use assms feed_keeps_refl in \<open>auto simp: on_block_complete_def split: if_splits\<close>)

lemma on_session_end_inv: "feed_inv env p \<Longrightarrow> feed_inv env (on_session_end reason p)"
  by (auto simp: on_session_end_def feed_inv_defs)

lemma cleanup_fields:
  assumes "producer_cleanup env p w = (p1, w1)"
  shows "bp_session p1 = None \<and> bp_pending p1 = None \<and> bp_credits p1 = 0 \<and> bp_state p1 = CREATED
    \<and> \<not> bp_ended p1 \<and> bp_errors p1 = 0 \<and> bp_backoff p1 = 0 \<and> bp_depth p1 = bp_depth p
    \<and> bp_cache p1 = bp_cache p \<and> bp_started p1 = bp_started p \<and> bp_channel p1 = bp_channel p
    \<and> bp_completed p1 = {} \<and> bp_has_callback p1 = bp_has_callback p \<and> bp_has_schedule p1 = bp_has_schedule p"
proof (cases "bp_session p")
  case None
  then show ?thesis using assms by (auto simp: producer_cleanup_def reset_producer_def)
next
  case (Some s)
  obtain s' w' told where "session_stop env ''last_viewer_left'' s w = (s', w', told)" by (metis prod_cases3)
  then show ?thesis using assms Some
    by (cases told) (auto simp: producer_cleanup_def reset_producer_def on_session_end_def)
qed

text \<open>A producer that is not started satisfies the invariant as soon as its fields are reset.\<close>

lemma stopped_inv:
  "2 \<le> bp_depth p \<Longrightarrow> length (bp_cache p) \<le> cache_max \<Longrightarrow> \<not> bp_started p \<Longrightarrow> bp_session p = None \<Longrightarrow>
    bp_pending p = None \<Longrightarrow> bp_credits p = 0 \<Longrightarrow> bp_state p = CREATED \<Longrightarrow> bp_errors p = 0 \<Longrightarrow> bp_backoff p = 0 \<Longrightarrow>
    feed_inv env p"
  by (simp add: feed_inv_defs backoff_max_def)

lemma stop_result:
  assumes "feed_inv env p" and "producer_stop env p w = (p', w')"
  shows "feed_inv env p' \<and> \<not> bp_started p' \<and> bp_channel p' = bp_channel p
    \<and> (bp_started p \<longrightarrow> \<not> bp_ended p') \<and> bp_session p' = None"
proof (cases "bp_started p")
  case True
  obtain p1 w1 where c: "producer_cleanup env (p\<lparr>bp_stop_count := Suc (bp_stop_count p)\<rparr>) w = (p1, w1)" by fastforce
  then have "p' = teardown_cleanup (p1\<lparr>bp_started := False, bp_status := PS_STOPPED, bp_output := None\<rparr>)"
    using assms(2) True by (simp add: producer_stop_def)
  moreover have "feed_inv env p'" unfolding calculation
    by (rule stopped_inv) (use cleanup_fields [OF c] assms(1) in \<open>simp_all add: teardown_cleanup_def feed_inv_defs\<close>)
  ultimately show ?thesis using cleanup_fields [OF c] by (simp add: teardown_cleanup_def)
next
  case False
  then show ?thesis using assms by (auto simp: producer_stop_def feed_inv_defs)
qed

lemma and_then_Inr: "and_then r f = (p', w', Inr y) \<longleftrightarrow> (\<exists>p w x. r = (p, w, Inr x) \<and> f p w x = (p', w', Inr y))"
  by (auto simp: and_then_def split: prod.splits sum.splits)

lemma and_then_Inl:
  "and_then r f = (p', w', Inl e) \<longleftrightarrow> r = (p', w', Inl e) \<or> (\<exists>p w x. r = (p, w, Inr x) \<and> f p w x = (p', w', Inl e))"
  by (auto simp: and_then_def split: prod.splits sum.splits)

text \<open>The steps of a start: what each one leaves alone and what it adds.\<close>

definition start_frame :: "producer \<Rightarrow> producer \<Rightarrow> bool" where
  "start_frame p q \<longleftrightarrow> bp_started q = bp_started p \<and> bp_depth q = bp_depth p \<and> bp_cache q = bp_cache p
     \<and> bp_channel q = bp_channel p \<and> bp_ended q = bp_ended p \<and> bp_pending q = bp_pending p
     \<and> bp_has_callback q = bp_has_callback p \<and> bp_has_schedule q = bp_has_schedule p
     \<and> bp_completed q = bp_completed p \<and> bp_stream q = bp_stream p \<and> td_active q = td_active p
     \<and> bp_reports q = bp_reports p"

lemma start_frame_trans: "start_frame p q \<Longrightarrow> start_frame q r \<Longrightarrow> start_frame p r"
  by (simp add: start_frame_def)

lemma open_session_result:
  assumes "open_session env p w = (p', w', r)"
  shows "start_frame p p' \<and> (r = Inr () \<longrightarrow>
    bp_session p' = Some (new_session\<lparr>se_process := True, se_running := True\<rparr>))"
proof -
  obtain w1 ok where s: "fe_setup env w = (w1, ok)" by fastforce
  obtain ss w2 q where ss: "session_start env new_session w1 = (ss, w2, q)" by (metis prod_cases3)
  show ?thesis using assms s ss session_start_cases [OF ss]
    by (cases ok) (auto simp: open_session_def start_frame_def split: if_splits)
qed

lemma resolve_entry_result:
  assumes "resolve_entry env t msg p w = (p', w', r)"
  shows "p' = p \<and> (\<forall>sb. r = Inr sb \<longrightarrow> fe_block_at env w t = (w', Inr (Some sb)))"
  using assms by (auto simp: resolve_entry_def resolve_plan_at_def split: prod.splits sum.splits option.splits if_splits)

lemma make_block_result:
  assumes "make_block sb jip now p w = (p', w', r)"
  shows "w' = w \<and> start_frame p p' \<and> bp_session p' = bp_session p
    \<and> (\<forall>b. r = Inr b \<longrightarrow> p' = advance_cursor b p \<and> generate_next_block (bp_channel p) sb jip now = Inr b)"
  using assms by (auto simp: make_block_def start_frame_def advance_cursor_def split: sum.splits)

lemma seed_session_result:
  assumes "seed_session env a b j p w = (p', w', r)" and "bp_session p = Some s"
  shows "start_frame p p' \<and> bp_cursor p' = bp_cursor p \<and> (r = Inr () \<longrightarrow>
    bk_end a = bk_start b \<and> se_running s \<and> bp_session p' = Some (s\<lparr>se_seeded := 2, se_sent := [a, b]\<rparr>))"
proof -
  obtain s' w1 q where q: "session_seed env a b j (bp_depth p) s w = (s', w1, q)" by (metis prod_cases3)
  note c = session_seed_cases [OF q]
  consider e where "q = Inl e" | "q = Inr True" | "q = Inr False" by (metis (full_types) obj_sumE)
  then show ?thesis using assms q c by cases (auto simp: seed_session_def start_frame_def)
qed

lemma start_frame_join [simp]:
  "start_frame p (q\<lparr>bp_cursor := c, bp_in_flight := i\<rparr>) = start_frame p q"
  "start_frame p (advance_cursor b q) = start_frame p q"
  by (simp_all add: start_frame_def advance_cursor_def)

lemma start_body_failure:
  assumes "start_body env t jip p w = (p', w', Inl e)"
  shows "start_frame p p'"
proof -
  have refl: "start_frame q q" for q by (simp add: start_frame_def)
  have o: "start_frame p q" if "open_session env p w = (q, v, r)" for q v r using open_session_result [OF that] by simp
  have m: "start_frame p q'" if "make_block sb a b q v = (q', v', r)" "start_frame p q" for sb a b q v q' v' r
    using make_block_result [OF that(1)] that(2) start_frame_trans by blast
  have e: "start_frame p q'" if "resolve_entry env a msg q v = (q', v', r)" "start_frame p q" for a msg q v q' v' r
    using resolve_entry_result [OF that(1)] that(2) by simp
  have s: "start_frame p q'" if "seed_session env a b c q v = (q', v', r)" "start_frame p q" for a b c q v q' v' r
  proof (cases "bp_session q")
    case None
    then show ?thesis using that by (auto simp: seed_session_def)
  next
    case (Some ss)
    show ?thesis using seed_session_result [OF that(1) Some] that(2) start_frame_trans by blast
  qed
  show ?thesis using assms unfolding start_body_def Let_def and_then_Inl
    by (elim disjE exE conjE) (erule o | erule e | erule m | erule s | simp)+
qed

lemma start_body_success:
  assumes "start_body env t jip p w = (p', w', Inr u)"
  shows "\<exists>s a b q. p' = mark_started a b t q \<and> start_frame p q \<and> bp_session q = Some s
    \<and> s = new_session\<lparr>se_process := True, se_running := True, se_seeded := 2, se_sent := [a, b]\<rparr>
    \<and> sent_in_order env (bp_channel p) [a, b] \<and> bp_cursor q = bk_end b \<and> bp_in_flight q = {}"
proof -
  from assms obtain p1 w1 u1 p2 w2 ea p3 w3 a p4 w4 eb p5 w5 b p6 w6 u6 where
    s1: "open_session env p w = (p1, w1, Inr u1)"
    and s2: "resolve_entry env (to_epoch_ms t) ''No block data from schedule service'' p1 w1 = (p2, w2, Inr ea)"
    and s3: "make_block ea jip (to_epoch_ms t) (p2\<lparr>bp_cursor := sb_start ea, bp_in_flight := {}\<rparr>) w2 = (p3, w3, Inr a)"
    and s4: "resolve_entry env (bp_cursor p3) ''No next block data from schedule service'' p3 w3 = (p4, w4, Inr eb)"
    and s5: "make_block eb 0 0 p4 w4 = (p5, w5, Inr b)"
    and s6: "seed_session env a b (to_epoch_ms t) p5 w5 = (p6, w6, Inr u6)"
    and p': "p' = mark_started a b t p6"
    unfolding start_body_def Let_def and_then_Inr by (elim exE conjE) (rule that, assumption+, simp)
  note f1 = open_session_result [OF s1] and f2 = resolve_entry_result [OF s2] and f3 = make_block_result [OF s3]
    and f4 = resolve_entry_result [OF s4] and f5 = make_block_result [OF s5]
  have "bp_session p5 = bp_session p1" using f2 f3 f4 f5 by (simp add: advance_cursor_def)
  then have "bp_session p5 = Some (new_session\<lparr>se_process := True, se_running := True\<rparr>)" using f1 by simp
  note f6 = seed_session_result [OF s6 this]
  have fr3: "start_frame p p3" using f1 f2 f3 by simp
  then have fr: "start_frame p p6" using f4 f5 f6 start_frame_trans by blast
  have "bp_in_flight p6 = bp_in_flight p5" using s6
    by (auto simp: seed_session_def split: prod.splits sum.splits bool.splits option.splits)
  then have "bp_in_flight p6 = {}" using f3 f4 f5 by (simp add: advance_cursor_def)
  moreover have "bk_end a = bp_cursor p3" "bp_cursor p6 = bk_end b" using f3 f5 f6 by (simp_all add: advance_cursor_def)
  moreover have ch: "bp_channel p1 = bp_channel p" "bp_channel p4 = bp_channel p"
    using f1 f4 fr3 by (simp_all add: start_frame_def)
  have "fe_block_at env w1 (to_epoch_ms t) = (w2, Inr (Some ea))"
    "generate_next_block (bp_channel p) ea jip (to_epoch_ms t) = Inr a" using f2 f3 ch by simp_all
  then have "first_of env (bp_channel p) a" unfolding first_of_def by blast
  moreover have "fe_block_at env w3 (bk_end a) = (w4, Inr (Some eb))" "generate_next_block (bp_channel p) eb 0 0 = Inr b"
    using f4 f5 ch \<open>bk_end a = bp_cursor p3\<close> by simp_all
  then have "next_of env (bp_channel p) a b" unfolding next_of_def by blast
  ultimately show ?thesis using p' fr f6 
    by (intro exI [of _ "new_session\<lparr>se_process := True, se_running := True, se_seeded := 2, se_sent := [a, b]\<rparr>"]
        exI [of _ a] exI [of _ b] exI [of _ p6]) (simp add: sent_in_order_def)
qed

lemma start_result:
  assumes "feed_inv env p" and "producer_start env t jip p w = (p', w', ok)"
  shows "feed_inv env p' \<and> bp_channel p' = bp_channel p \<and> (ok \<longleftrightarrow> bp_started p')
    \<and> (bp_started p' \<longrightarrow> bp_ended p' = bp_ended p)"
proof (cases "bp_started p")
  case True
  then show ?thesis using assms by (simp add: producer_start_def)
next
  case False
  let ?p0 = "p\<lparr>bp_start_count := Suc (bp_start_count p)\<rparr>"
  have p0: "2 \<le> bp_depth p" "length (bp_cache p) \<le> cache_max" "bp_pending p = None"
    using assms(1) False by (simp_all add: feed_inv_defs)
  obtain p1 w1 r where b: "start_body env t jip ?p0 w = (p1, w1, r)" by (metis prod_cases3)
  show ?thesis
  proof (cases r)
    case (Inr u)
    then obtain s a c q where q: "p1 = mark_started a c t q" "start_frame ?p0 q" "bp_session q = Some s"
      "s = new_session\<lparr>se_process := True, se_running := True, se_seeded := 2, se_sent := [a, c]\<rparr>"
      "sent_in_order env (bp_channel ?p0) [a, c]" "bp_cursor q = bk_end c"
      using start_body_success [of env t jip ?p0 w p1 w1 u] b by auto
    have "p' = p1" "ok" using assms(2) False b Inr by (simp_all add: producer_start_def)
    then show ?thesis using q p0
      by (auto simp: mark_started_def start_frame_def feed_inv_defs backoff_max_def session_ok_def new_session_def)
  next
    case (Inl e)
    have fr: "start_frame ?p0 p1" using b Inl by (intro start_body_failure) simp
    obtain p2 w2 where c: "producer_cleanup env p1 w1 = (p2, w2)" by fastforce
    note cf = cleanup_fields [OF c]
    have "p' = p2\<lparr>bp_status := PS_ERROR\<rparr>" "\<not> ok" using assms(2) False b Inl c by (simp_all add: producer_start_def)
    moreover have "feed_inv env p2" by (rule stopped_inv) (use cf fr p0 False in \<open>simp_all add: start_frame_def\<close>)
    ultimately show ?thesis using cf fr False by (simp add: start_frame_def)
  qed
qed

lemma advance_teardown_inv:
  assumes "feed_inv env p" and "advance_teardown env dt p w = (p', w', r)"
  shows "feed_inv env p' \<and> bp_channel p' = bp_channel p \<and> (\<not> r \<longrightarrow> p' = p \<and> w' = w)
    \<and> (bp_started p' \<longrightarrow> bp_started p \<and> bp_ended p' = bp_ended p \<and> bp_session p' = bp_session p)"
proof -
  have fin: "feed_inv env q' \<and> bp_channel q' = bp_channel q \<and> (bp_started q' \<longrightarrow> q' = q)"
    if "feed_inv env q" "finish_teardown env q v = (q', v')" for q v q' v'
  proof (cases "td_active q")
    case True
    obtain q1 v1 where s: "producer_stop env q v = (q1, v1)" by fastforce
    then have "q' = teardown_cleanup (q1\<lparr>bp_status := PS_STOPPED\<rparr>)" using that(2) True by (simp add: finish_teardown_def)
    then show ?thesis using stop_result [OF that(1) s] by (simp add: teardown_cleanup_def)
  qed (use that in \<open>simp add: finish_teardown_def\<close>)
  define p1 where "p1 = (if 0 < dt then p\<lparr>td_elapsed := fl (td_elapsed p + dt)\<rparr> else p)"
  define p2 where "p2 = (if \<not> td_ready p1 \<and> td_grace p1 \<le> td_elapsed p1 then p1\<lparr>td_ready := True\<rparr> else p1)"
  have p2: "feed_inv env p2" "bp_channel p2 = bp_channel p" "bp_started p2 = bp_started p"
    "bp_ended p2 = bp_ended p" "bp_session p2 = bp_session p"
    using assms(1) by (simp_all add: p1_def p2_def)
  obtain p3 w3 where f: "finish_teardown env p2 w = (p3, w3)" by fastforce
  have "(p' = p \<and> w' = w \<and> \<not> r) \<or> (p' = p3 \<and> r) \<or> (p' = p2 \<and> r)"
    using assms(2) f by (auto simp: advance_teardown_def Let_def p1_def [symmetric] p2_def [symmetric] split: if_splits)
  then show ?thesis using fin [OF p2(1) f] p2 assms(1) by auto
qed

lemma on_paced_tick_inv:
  assumes "feed_inv env p" and "on_paced_tick env dt p w = (p', w', r)"
  shows "feed_inv env p' \<and> bp_channel p' = bp_channel p \<and> (bp_started p' \<longrightarrow> bp_ended p' = bp_ended p)"
proof -
  obtain p1 w1 u where a: "advance_teardown env dt p w = (p1, w1, u)" by (metis prod_cases3)
  note ai = advance_teardown_inv [OF assms(1) a]
  let ?p2 = "p1\<lparr>bp_ticks := Suc (bp_ticks p1)\<rparr>"
  have dec: "feed_inv env (?p2\<lparr>bp_backoff := bp_backoff p1 - 1\<rparr>)" if "0 < bp_backoff p1"
    using ai that by (auto simp: feed_inv_defs)
  have "p' = p1 \<and> u \<or> p' = ?p2 \<or> (p' = ?p2\<lparr>bp_backoff := bp_backoff p1 - 1\<rparr> \<and> 0 < bp_backoff p1)
      \<or> feed_ahead env ?p2 w1 = (p', w', r)"
    using assms(2) a by (cases u) (auto simp: on_paced_tick_def Let_def split: if_splits)
  then show ?thesis
  proof (elim disjE conjE)
    assume f: "feed_ahead env ?p2 w1 = (p', w', r)"
    have "feed_keeps env ?p2 p'" by (rule feed_ahead_inv [OF _ f]) (simp add: ai)
    then show ?thesis using ai by (auto simp: feed_keeps_def)
  qed (use ai dec in auto)
qed

lemma session_event_history:
  "feed_inv env p \<Longrightarrow> feed_inv env (p\<lparr>bp_session := map_option (session_event ev) (bp_session p)\<rparr>)"
  by (auto simp: feed_inv_defs)

lemma run_event_inv:
  assumes "feed_inv env p" and "run_event env ev p w = (p', w')"
  shows "feed_inv env p' \<and> bp_channel p' = bp_channel p"
proof (cases ev)
  case (Start t jip)
  obtain ok where "producer_start env t jip p w = (p', w', ok)" using assms(2) Start by (auto split: prod.splits)
  then show ?thesis using start_result [OF assms(1)] by blast
next
  case Stop
  then show ?thesis using stop_result [OF assms(1)] assms(2) by simp
next
  case (Air current e)
  define q where "q = (if current then p\<lparr>bp_session := map_option (session_event e) (bp_session p)\<rparr> else p)"
  have q: "feed_inv env q" "bp_channel q = bp_channel p" using assms(1) session_event_history by (auto simp: q_def)
  have call: "air_callback env e q w = (p', w')" using assms(2) Air by (simp add: q_def)
  show ?thesis
  proof (cases e)
    case (BlockCompleted i n)
    then obtain r where "on_block_complete env i q w = (p', w', r)" using call by (auto split: prod.splits)
    then show ?thesis using on_block_complete_inv [OF q(1)] q(2) by (simp add: feed_keeps_def)
  next
    case (BlockStarted i)
    then obtain r where "on_block_started env i q w = (p', w', r)" using call by (auto split: prod.splits)
    then show ?thesis using on_block_started_inv [OF q(1)] q(2) by (simp add: feed_keeps_def)
  next
    case (SessionEnded reason n)
    then have "p' = on_session_end reason q" using call by simp
    then show ?thesis using on_session_end_inv [OF q(1)] q(2) by (simp add: on_session_end_def)
  qed
next
  case (Tick dt)
  then obtain r where "on_paced_tick env dt p w = (p', w', r)" using assms(2) by (auto split: prod.splits)
  then show ?thesis using on_paced_tick_inv [OF assms(1)] by simp
next
  case (RequestTeardown reason timeout)
  then show ?thesis using assms by (auto simp: request_teardown_def)
next
  case SignalReady
  then show ?thesis using assms by (auto simp: signal_teardown_ready_def)
qed

lemma init_inv: "length cache \<le> cache_max \<Longrightarrow> feed_inv env (init_producer c n cfg hs hc cache)"
  by (simp add: init_producer_def feed_inv_defs backoff_max_def)

lemma reachable_inv:
  assumes "feed_reachable env s t"
  shows "feed_inv env (fst s) \<Longrightarrow> feed_inv env (fst t) \<and> bp_channel (fst t) = bp_channel (fst s)"
  using assms
proof (induction rule: feed_reachable.induct)
  case (trans s t u)
  then obtain ev p w p' w' where "t = (p, w)" "u = (p', w')" "run_event env ev p w = (p', w')"
    by (elim feed_stepE) auto
  then show ?case using run_event_inv [of env p ev w p' w'] trans by simp
qed simp

end
