(* ===== verification/Feed_Control.thy ===== *)
theory Feed_Control
  imports Block_Feeder Schedule_Service
begin

text \<open>
  What the feed-ahead control of \<^verbatim>\<open>BlockPlanProducer\<close> guarantees in every run: the limits of the credits,
  the order of the blocks handed to the engine, silence after the end of a session
  and completions that count once.  Over the schedule service the blocks meet: its blocks
  are the cells of a grid.
\<close>

section \<open>Blocks on the wire\<close>

lemma enumerate_nth_set: "(i, s) \<in> set (enumerate 0 xs) \<longleftrightarrow> i < length xs \<and> s = xs ! i"
  by (auto simp: in_set_enumerate_eq)

lemma plan_segments_ready: "x \<in> set (plan_segments_of segs) \<Longrightarrow> proto_ready x"
  by (auto simp: plan_segments_of_def plan_segment_of_def proto_ready_def)

lemma renumber_ready:
  "(\<And>s. s \<in> set segs \<Longrightarrow> bg_type s \<noteq> ''pad'' \<longrightarrow> bg_uri s \<noteq> None) \<Longrightarrow> x \<in> set (renumber segs) \<Longrightarrow> proto_ready x"
  by (auto simp: renumber_def proto_ready_def enumerate_nth_set)

lemma skip_elapsed_uri:
  "x \<in> set (skip_elapsed r segs) \<Longrightarrow> \<exists>s \<in> set segs. bg_type x = bg_type s \<and> bg_uri x = bg_uri s"
proof (induction segs arbitrary: r)
  case (Cons s segs)
  have "bg_uri (trim_segment q s) = bg_uri s" "bg_type (trim_segment q s) = bg_type s" for q
    by (simp_all add: trim_segment_def)
  then show ?case using Cons by (fastforce split: if_splits)
qed simp

lemma extend_last_pad_uri:
  "(\<And>s. s \<in> set segs \<Longrightarrow> bg_type s \<noteq> ''pad'' \<longrightarrow> bg_uri s \<noteq> None) \<Longrightarrow> x \<in> set (extend_last_pad g segs) \<Longrightarrow>
    bg_type x \<noteq> ''pad'' \<longrightarrow> bg_uri x \<noteq> None"
  by (induction g segs rule: extend_last_pad.induct) (auto simp: jip_pad_def split: if_splits)

lemma apply_jip_uri:
  assumes "\<And>s. s \<in> set segs \<Longrightarrow> bg_type s \<noteq> ''pad'' \<longrightarrow> bg_uri s \<noteq> None" "x \<in> set (apply_jip_to_segments segs j d)"
  shows "bg_type x \<noteq> ''pad'' \<longrightarrow> bg_uri x \<noteq> None"
proof -
  have sk: "bg_type y \<noteq> ''pad'' \<longrightarrow> bg_uri y \<noteq> None" if "y \<in> set (skip_elapsed j segs)" for y
    using skip_elapsed_uri [OF that] assms(1) by auto
  show ?thesis
  proof (cases "x \<in> set (skip_elapsed j segs)")
    case False
    then have "x \<in> set (extend_last_pad (d - plan_total (skip_elapsed j segs)) (skip_elapsed j segs))"
      using assms(2) by (auto simp: apply_jip_to_segments_def Let_def split: if_splits)
    from extend_last_pad_uri [OF sk this] show ?thesis .
  qed (rule sk)
qed

lemma generated_cases:
  assumes "generate_next_block ch sb jip now = Inr b"
  obtains "bk_segments b = plan_segments_of (sb_segments sb)"
  | j where "bk_segments b = renumber (apply_jip_to_segments (plan_segments_of (sb_segments sb)) j (bk_end b - bk_start b))"
proof -
  have "bk_segments b = plan_segments_of (sb_segments sb) \<or> (\<exists>j. bk_segments b =
      renumber (apply_jip_to_segments (plan_segments_of (sb_segments sb)) j (bk_end b - bk_start b)))"
    using assms by (auto simp: generate_next_block_def Let_def split: if_splits)
  then show ?thesis using that by blast
qed

lemma generated_ready: "generate_next_block ch sb jip now = Inr b \<Longrightarrow> \<forall>s \<in> set (bk_segments b). proto_ready s"
proof (erule generated_cases)
  fix j
  assume "bk_segments b = renumber (apply_jip_to_segments (plan_segments_of (sb_segments sb)) j (bk_end b - bk_start b))"
  moreover have "bg_type s \<noteq> ''pad'' \<longrightarrow> bg_uri s \<noteq> None"
    if "s \<in> set (apply_jip_to_segments (plan_segments_of (sb_segments sb)) j (bk_end b - bk_start b))" for s
    by (rule apply_jip_uri [OF _ that]) (use plan_segments_ready in \<open>auto simp: proto_ready_def\<close>)
  ultimately show ?thesis using renumber_ready by auto
qed (simp add: plan_segments_ready)

lemma plan_segments_index: "map bg_index (plan_segments_of segs) = map Some [0..<length segs]"
  by (rule nth_equalityI) (simp_all add: plan_segments_of_def plan_segment_of_def nth_enumerate_eq)

lemma renumber_index: "map bg_index (renumber segs) = map Some [0..<length segs]"
  by (rule nth_equalityI) (simp_all add: renumber_def nth_enumerate_eq)

lemma generated_index:
  assumes "generate_next_block ch sb jip now = Inr b"
  shows "map bg_index (bk_segments b) = map Some [0..<length (bk_segments b)]"
proof -
  have len: "length (plan_segments_of segs) = length segs" "length (renumber ss) = length ss" for segs ss
    by (simp_all add: plan_segments_of_def renumber_def)
  show ?thesis using assms
    by (elim generated_cases) (simp_all only: plan_segments_index renumber_index len)
qed

text \<open>Blocks of ordinary size: times before \<open>2\<^sup>6\<^sup>2\<close> milliseconds, and numbers a message can hold.\<close>

definition fits_wire :: "scheduled_block \<Rightarrow> bool" where
  "fits_wire sb \<longleftrightarrow> 0 \<le> sb_start sb \<and> sb_start sb \<le> sb_end sb \<and> sb_end sb < 2 ^ 62 \<and> length (sb_segments sb) < 2 ^ 31
     \<and> (\<forall>s \<in> set (sb_segments sb). 0 \<le> sg_duration s \<and> sg_duration s < 2 ^ 62 \<and> 0 \<le> sg_offset s \<and> sg_offset s < 2 ^ 62
         \<and> 0 \<le> sg_transition_in_ms s \<and> sg_transition_in_ms s < 2 ^ 32
         \<and> 0 \<le> sg_transition_out_ms s \<and> sg_transition_out_ms s < 2 ^ 32)"

definition wire_bounds :: "ms \<Rightarrow> plan_segment \<Rightarrow> bool" where
  "wire_bounds m s \<longleftrightarrow> 0 \<le> bg_duration s \<and> bg_duration s < m
     \<and> 0 \<le> (case bg_offset s of None \<Rightarrow> 0 | Some off \<Rightarrow> off) \<and> (case bg_offset s of None \<Rightarrow> 0 | Some off \<Rightarrow> off) < m
     \<and> in_unsigned 32 (snd (proto_transition (bg_in s))) \<and> in_unsigned 32 (snd (proto_transition (bg_out s)))"

lemma planned_bounds: "fits_wire sb \<Longrightarrow> x \<in> set (plan_segments_of (sb_segments sb)) \<Longrightarrow> wire_bounds (2 ^ 62) x"
  by (auto simp: plan_segments_of_def plan_segment_of_def wire_bounds_def fits_wire_def enumerate_nth_set
      proto_transition_def shown_transition_def in_unsigned_def split: transition.splits)

lemma skip_elapsed_mem:
  "x \<in> set (skip_elapsed r segs) \<Longrightarrow> \<exists>s \<in> set segs. x = s \<or> (\<exists>q. 0 < q \<and> q < bg_duration s \<and> x = trim_segment q s)"
proof (induction segs arbitrary: r)
  case (Cons s segs)
  then show ?case by (fastforce split: if_splits)
qed simp

lemma trim_bounds: "wire_bounds (2 ^ 62) s \<Longrightarrow> 0 < q \<Longrightarrow> q < bg_duration s \<Longrightarrow> wire_bounds (2 ^ 63) (trim_segment q s)"
  by (auto simp: wire_bounds_def trim_segment_def split: option.splits)

lemma skip_elapsed_bounds:
  assumes "\<forall>s \<in> set segs. wire_bounds (2 ^ 62) s" "x \<in> set (skip_elapsed r segs)"
  shows "wire_bounds (2 ^ 63) x \<and> bg_duration x < 2 ^ 62"
proof -
  obtain s where s: "s \<in> set segs" "x = s \<or> (\<exists>q. 0 < q \<and> q < bg_duration s \<and> x = trim_segment q s)"
    using skip_elapsed_mem [OF assms(2)] by blast
  have "wire_bounds (2 ^ 62) s" using assms(1) s(1) by blast
  then show ?thesis using s(2) trim_bounds [of s] by (auto simp: wire_bounds_def)
qed

lemma extend_last_pad_bounds:
  assumes "\<forall>s \<in> set segs. wire_bounds (2 ^ 63) s \<and> bg_duration s < 2 ^ 62" "0 < g" "g < 2 ^ 62"
    and "x \<in> set (extend_last_pad g segs)"
  shows "wire_bounds (2 ^ 63) x"
proof -
  have "wire_bounds (2 ^ 63) (jip_pad g)" using assms(2,3)
    by (simp add: wire_bounds_def jip_pad_def proto_transition_def in_unsigned_def)
  then show ?thesis using assms
    by (induction g segs rule: extend_last_pad.induct) (auto simp: wire_bounds_def split: if_splits)
qed

lemma plan_total_nonneg: "\<forall>s \<in> set segs. 0 \<le> bg_duration s \<Longrightarrow> 0 \<le> plan_total segs"
  by (induction segs) auto

lemma jip_lengths: "length (skip_elapsed r segs) \<le> length segs" "length (extend_last_pad g segs) \<le> Suc (length segs)"
proof -
  show "length (skip_elapsed r segs) \<le> length segs" by (induction segs arbitrary: r) (auto intro: le_SucI)
  show "length (extend_last_pad g segs) \<le> Suc (length segs)" by (induction g segs rule: extend_last_pad.induct) auto
qed

lemma apply_jip_bounds:
  assumes "\<forall>s \<in> set segs. wire_bounds (2 ^ 62) s" "d < 2 ^ 62"
  shows "(\<forall>x \<in> set (apply_jip_to_segments segs j d). wire_bounds (2 ^ 63) x)
    \<and> length (apply_jip_to_segments segs j d) \<le> Suc (length segs)"
proof -
  let ?r = "skip_elapsed j segs"
  have r: "\<forall>x \<in> set ?r. wire_bounds (2 ^ 63) x \<and> bg_duration x < 2 ^ 62" using skip_elapsed_bounds [OF assms(1)] by blast
  have "0 \<le> plan_total ?r" by (rule plan_total_nonneg) (use r in \<open>auto simp: wire_bounds_def\<close>)
  then have gap: "d - plan_total ?r < 2 ^ 62" using assms(2) by linarith
  have "length (extend_last_pad (d - plan_total ?r) ?r) \<le> Suc (length segs)"
    using jip_lengths(2) [of "d - plan_total ?r" ?r] jip_lengths(1) [of j segs] by linarith
  moreover have "length ?r \<le> Suc (length segs)" using jip_lengths(1) [of j segs] by linarith
  ultimately show ?thesis using r extend_last_pad_bounds [OF r _ gap] by (auto simp: apply_jip_to_segments_def Let_def)
qed

lemma generated_times:
  assumes "generate_next_block ch sb jip now = Inr b" "sb_start sb \<le> sb_end sb"
  shows "bk_id b = sb_id sb \<and> bk_channel b = ch \<and> bk_end b = sb_end sb \<and> sb_start sb \<le> bk_start b \<and> bk_start b \<le> sb_end sb"
  using assms by (auto simp: generate_next_block_def Let_def sb_duration_ms_def split: if_splits)

lemma generated_in_range:
  assumes g: "generate_next_block ch sb jip now = Inr b" and f: "fits_wire sb" "in_signed 32 ch"
  shows "block_in_range b"
proof -
  have t: "bk_channel b = ch" "bk_end b = sb_end sb" "sb_start sb \<le> bk_start b" "bk_start b \<le> sb_end sb"
    "0 \<le> sb_start sb" "sb_end sb < 2 ^ 62"
    using generated_times [OF g] f(1) by (auto simp: fits_wire_def)
  let ?ps = "plan_segments_of (sb_segments sb)"
  have ps: "\<forall>s \<in> set ?ps. wire_bounds (2 ^ 62) s" using planned_bounds [OF f(1)] by blast
  have len: "length ?ps < 2 ^ 31" using f(1) by (simp add: fits_wire_def plan_segments_of_def)
  have bs: "(\<forall>s \<in> set (bk_segments b). wire_bounds (2 ^ 63) s) \<and> length (bk_segments b) \<le> 2 ^ 31"
    using g
  proof (rule generated_cases)
    assume "bk_segments b = ?ps"
    moreover have "wire_bounds (2 ^ 63) s" if "wire_bounds (2 ^ 62) s" for s using that by (auto simp: wire_bounds_def)
    ultimately show ?thesis using ps len by auto
  next
    fix j
    let ?as = "apply_jip_to_segments ?ps j (bk_end b - bk_start b)"
    assume b: "bk_segments b = renumber ?as"
    have "bk_end b - bk_start b < 2 ^ 62" using t by linarith
    note as = apply_jip_bounds [OF ps this, of j]
    have "wire_bounds m (s\<lparr>bg_index := i\<rparr>) = wire_bounds m s" for m s i by (simp add: wire_bounds_def)
    then show ?thesis using as len by (auto simp: b renumber_def enumerate_nth_set)
  qed
  have "segment_in_range s" if s: "s \<in> set (bk_segments b)" for s
  proof -
    obtain i where i: "i < length (bk_segments b)" "bg_index s = Some i"
      using s generated_index [OF g] by (metis (no_types, lifting) in_set_conv_nth length_map nth_map add.left_neutral nth_upt)
    have "i < 2 ^ 31" using i(1) bs by (auto intro: less_le_trans)
    then have "int i < 2 ^ 31" by simp
    then show ?thesis using s bs i(2) by (auto simp: segment_in_range_def wire_bounds_def in_signed_def)
  qed
  then show ?thesis using t f(2) by (auto simp: block_in_range_def in_signed_def)
qed

lemma generated_proto:
  assumes "generate_next_block ch sb jip now = Inr b" "fits_wire sb" "in_signed 32 ch"
  shows "\<exists>pb. to_proto b = Inr pb"
  using to_proto_cases [OF generated_ready [OF assms(1)]] generated_in_range [OF assms] by blast

text \<open>
  C39. A block the producer makes becomes a message exactly when its numbers fit the fields of the message:
  the channel number 32 bits, the times, offsets and durations 64 bits, the lengths of fades 32 bits
  unsigned and the number of segments 31 bits.  The message is then read back as the block that was made, with its
  segments numbered from 0 on and the gain as a single-precision number; a number out of range raises
  \<open>ValueError\<close> instead.  Every scheduled block of ordinary size fits, wherever in it the viewer joins.
\<close>

theorem generated_block_fits_wire:
  assumes "generate_next_block channel scheduled jip now_ms = Inr b"
  shows "(block_in_range b \<longrightarrow> (\<exists>pb. to_proto b = Inr pb \<and> reads_block b pb
        \<and> map (sint \<circ> px_index) (pk_segments pb) = map int [0..<length (bk_segments b)]))
    \<and> (\<not> block_in_range b \<longrightarrow> to_proto b = Inl (ValueError ''Value out of range''))
    \<and> (fits_wire scheduled \<and> in_signed 32 channel \<longrightarrow> block_in_range b)"
proof -
  have "map (sint \<circ> px_index) ps = map int [0..<length ss]"
    if "list_all2 reads_segment ss ps" "map bg_index ss = map Some [0..<length ss]" for ss ps
  proof (rule nth_equalityI)
    show "length (map (sint \<circ> px_index) ps) = length (map int [0..<length ss])"
      using that(1) by (simp add: list_all2_lengthD)
    fix i assume "i < length (map (sint \<circ> px_index) ps)"
    then have i: "i < length ss" "i < length ps" using that(1) by (simp_all add: list_all2_lengthD)
    then have "reads_segment (ss ! i) (ps ! i)" using that(1) by (simp add: list_all2_nthD)
    moreover have "bg_index (ss ! i) = Some i" using arg_cong [OF that(2), of "\<lambda>xs. xs ! i"] i by simp
    ultimately have "i = nat (sint (px_index (ps ! i)))" "0 \<le> sint (px_index (ps ! i))"
      by (simp_all add: reads_segment_def)
    then have "sint (px_index (ps ! i)) = int i" by linarith
    then show "map (sint \<circ> px_index) ps ! i = map int [0..<length ss] ! i" using i by simp
  qed
  then show ?thesis
    using to_proto_cases [OF generated_ready [OF assms]] generated_in_range [OF assms] generated_index [OF assms]
    by (auto simp: reads_block_def)
qed

definition demo_scheduled :: scheduled_block where
  "demo_scheduled = \<lparr>sb_id = ''BLOCK-1'', sb_start = 1000, sb_end = 3000,
     sb_segments = [plain_segment ''content'' ''/show.mp4'' 0 1500, plain_segment ''pad'' [] 0 500]\<rparr>"

lemma demo_generated: "\<exists>b. generate_next_block 7 demo_scheduled 400 1400 = Inr b"
  by (simp add: generate_next_block_def Let_def demo_scheduled_def sb_duration_ms_def)

theorem generated_block_fits_wire_witness:
  "\<exists>b pb. generate_next_block 7 demo_scheduled 400 1400 = Inr b \<and> to_proto b = Inr pb \<and> sint (pk_end pb) = 3000"
proof -
  obtain b where b: "generate_next_block 7 demo_scheduled 400 1400 = Inr b" using demo_generated by (elim exE)
  have "fits_wire demo_scheduled" "in_signed 32 7"
    by (simp_all add: fits_wire_def demo_scheduled_def plain_segment_def in_signed_def)
  then obtain pb where "to_proto b = Inr pb" "reads_block b pb" using generated_block_fits_wire [OF b] by blast
  moreover have "bk_end b = 3000" using generate_end [OF b] by (simp add: demo_scheduled_def)
  ultimately show ?thesis using b by (auto simp: reads_block_def)
qed

section \<open>Joining a scheduled block\<close>

lemma on_air_renumber [simp]: "on_air (renumber segs) t = on_air segs t"
proof -
  have "on_air (map (\<lambda>(i, s). s\<lparr>bg_index := Some i\<rparr>) (enumerate n segs)) t = on_air segs t" for n
    by (induction segs arbitrary: n t) (simp_all add: media_at_def has_uri_def)
  then show ?thesis by (simp add: renumber_def)
qed

lemma plan_total_renumber [simp]: "plan_total (renumber segs) = plan_total segs"
proof -
  have "plan_total (map (\<lambda>(i, s). s\<lparr>bg_index := Some i\<rparr>) (enumerate n segs)) = plan_total segs" for n
    by (induction segs arbitrary: n) simp_all
  then show ?thesis by (simp add: renumber_def)
qed

lemma plan_total_of [simp]: "plan_total (plan_segments_of segs) = total_duration segs"
proof -
  have "plan_total (map (\<lambda>(i, s). plan_segment_of i s) (enumerate n segs)) = total_duration segs" for n
    by (induction segs arbitrary: n) (simp_all add: plan_segment_of_def)
  then show ?thesis by (simp add: plan_segments_of_def)
qed

lemma plan_segment_of_fields [simp]:
  "bg_duration (plan_segment_of i s) = sg_duration s" "bg_type (plan_segment_of i s) = sg_type s"
  "has_uri (plan_segment_of i s) \<longleftrightarrow> sg_uri s \<noteq> []"
  by (simp_all add: plan_segment_of_def has_uri_def)

lemma plan_segments_wf:
  assumes "\<forall>s \<in> set segs. 0 \<le> sg_duration s \<and> (sg_type s = ''pad'' \<longrightarrow> sg_uri s = [])" "x \<in> set (plan_segments_of segs)"
  shows "0 \<le> bg_duration x \<and> (bg_type x = ''pad'' \<longrightarrow> \<not> has_uri x)"
  using assms by (auto simp: plan_segments_of_def enumerate_nth_set)

text \<open>
  C12. A viewer who joins a block in progress sees what is scheduled: for a block that its segments
  fill, the block plan made at an instant inside it starts at that instant, ends with the block, is
  filled exactly, and shows at every later instant what the whole block shows there.
\<close>

theorem joined_block_continues_schedule:
  assumes "\<forall>s \<in> set (sb_segments scheduled). 0 \<le> sg_duration s \<and> (sg_type s = ''pad'' \<longrightarrow> sg_uri s = [])"
    and "total_duration (sb_segments scheduled) = sb_end scheduled - sb_start scheduled"
    and "sb_start scheduled < now_ms" "now_ms \<le> sb_end scheduled" "0 < now_ms"
  shows "\<exists>b. generate_next_block channel scheduled (now_ms - sb_start scheduled) now_ms = Inr b
    \<and> bk_start b = now_ms \<and> bk_end b = sb_end scheduled \<and> plan_total (bk_segments b) = bk_end b - bk_start b
    \<and> (\<forall>t \<ge> 0. on_air (bk_segments b) t
        = on_air (plan_segments_of (sb_segments scheduled)) (now_ms - sb_start scheduled + t))"
proof -
  define whole where "whole = plan_segments_of (sb_segments scheduled)"
  define jip where "jip = now_ms - sb_start scheduled"
  define left where "left = sb_end scheduled - now_ms"
  have w: "0 \<le> bg_duration s \<and> (bg_type s = ''pad'' \<longrightarrow> \<not> has_uri s)" if "s \<in> set whole" for s
    using plan_segments_wf [OF assms(1)] that by (simp add: whole_def)
  have tot: "plan_total whole = jip + left" using assms(2) by (simp add: whole_def jip_def left_def)
  have j: "0 < jip" "0 \<le> left" using assms(3,4) by (simp_all add: jip_def left_def)
  have jp: "plan_total (apply_jip_to_segments whole jip left) = left
      \<and> on_air (apply_jip_to_segments whole jip left) t =
        (if left \<le> t then None else if jip + t < plan_total whole then on_air whole (jip + t) else Some (''pad'', None))"
    if "0 \<le> t" for t using jip_plays_what_is_on [of whole jip left t] w tot j that by simp
  have none: "on_air whole (jip + t) = None" if "left \<le> t" for t
    using on_air_none [of whole "jip + t"] w tot j that by simp
  have shown: "on_air (apply_jip_to_segments whole jip left) t = on_air whole (jip + t)" if "0 \<le> t" for t
    using jp [OF that] none tot by simp
  have gen: "generate_next_block channel scheduled jip now_ms = Inr \<lparr>bk_id = sb_id scheduled, bk_channel = channel,
      bk_start = now_ms, bk_end = sb_end scheduled, bk_segments = renumber (apply_jip_to_segments whole jip left)\<rparr>"
    using assms(3-5) by (simp add: generate_next_block_def Let_def sb_duration_ms_def whole_def jip_def left_def)
  show ?thesis unfolding jip_def [symmetric] whole_def [symmetric]
    by (rule exI, intro conjI, rule gen) (use shown jp [of 0] in \<open>simp_all add: left_def\<close>)
qed

theorem joined_block_continues_schedule_witness:
  "\<exists>b. generate_next_block 7 demo_scheduled 400 1400 = Inr b \<and> bk_start b = 1400
    \<and> on_air (bk_segments b) 100 = Some (''content'', Some (''/show.mp4'', 500))"
proof -
  have "\<exists>b. generate_next_block 7 demo_scheduled (1400 - sb_start demo_scheduled) 1400 = Inr b \<and> bk_start b = 1400
      \<and> bk_end b = sb_end demo_scheduled \<and> plan_total (bk_segments b) = bk_end b - bk_start b
      \<and> (\<forall>t \<ge> 0. on_air (bk_segments b) t
          = on_air (plan_segments_of (sb_segments demo_scheduled)) (1400 - sb_start demo_scheduled + t))"
    by (rule joined_block_continues_schedule) (simp_all add: demo_scheduled_def)
  then obtain b where b: "generate_next_block 7 demo_scheduled 400 1400 = Inr b" "bk_start b = 1400"
    "on_air (bk_segments b) 100 = on_air (plan_segments_of (sb_segments demo_scheduled)) 500"
    by (elim exE conjE) (auto simp: demo_scheduled_def)
  have "on_air (plan_segments_of (sb_segments demo_scheduled)) 500 = Some (''content'', Some (''/show.mp4'', 500))"
    by (simp add: demo_scheduled_def plan_segments_of_def plan_segment_of_def media_at_def has_uri_def)
  with b show ?thesis by auto
qed

section \<open>Limits of the flow control\<close>

definition sent_blocks :: "producer \<Rightarrow> block_plan list" where
  "sent_blocks p = (case bp_session p of None \<Rightarrow> [] | Some s \<Rightarrow> se_sent s)"

text \<open>
  C11. Whatever the engine answers and in whatever order viewers, ticks and engine events come, the
  credits stay between zero and the depth of the queue, the back-off after errors stays below its
  cap and is zero without errors, the segment cache keeps its bound, and the flags agree: a producer
  that feeds is started and has a seeded session, one that is not started has no session, no
  rejected block and no credit.
\<close>

theorem flow_control_limits:
  assumes "feed_reachable env (init_producer c n cfg has_schedule has_callback cache, w) (p, w')"
    and "length cache \<le> cache_max"
  shows "0 \<le> bp_credits p \<and> bp_credits p \<le> bp_depth p \<and> 2 \<le> bp_depth p
    \<and> 0 \<le> bp_backoff p \<and> bp_backoff p \<le> backoff_max \<and> (bp_errors p = 0 \<longrightarrow> bp_backoff p = 0)
    \<and> length (bp_cache p) \<le> cache_max
    \<and> (bp_state p \<in> {SEEDED, RUNNING} \<longrightarrow> bp_started p) \<and> (bp_state p = CREATED \<longrightarrow> \<not> bp_started p)
    \<and> (bp_started p \<longrightarrow> (\<exists>s. bp_session p = Some s \<and> se_seeded s = 2))
    \<and> (\<not> bp_started p \<longrightarrow> bp_session p = None \<and> bp_pending p = None \<and> bp_credits p = 0)"
proof -
  have inv: "feed_inv env p"
    using reachable_inv [OF assms(1)] init_inv [OF assms(2), of env c n cfg has_schedule has_callback] by simp
  have "\<exists>s. bp_session p = Some s \<and> se_seeded s = 2" if started: "bp_started p"
  proof -
    obtain s where s: "bp_session p = Some s" "session_ok s" "sent_in_order env (bp_channel p) (se_sent s)"
      using inv started by (auto simp: feed_inv_defs)
    then have "se_seeded s = 2" by (auto simp: session_ok_def sent_in_order_def)
    with s show ?thesis by blast
  qed
  with inv show ?thesis by (simp add: feed_inv_def feeder_ok_def)
qed

text \<open>
  C2. The blocks handed to the engine follow the schedule: in every run a started producer has a
  session whose first block is what the schedule service had at the moment of joining, every later
  block is, unchanged, what it had at the end of the block before, the first two meet, the counts
  of the session are those of the blocks, the cursor is the end of the last of them, and a block
  that was rejected and waits is the one that comes next.
\<close>

theorem sent_blocks_follow_schedule:
  assumes "feed_reachable env (init_producer c n cfg has_schedule has_callback cache, w) (p, w')"
    and "length cache \<le> cache_max" and "bp_started p"
  shows "2 \<le> length (sent_blocks p) \<and> first_of env n (sent_blocks p ! 0)
    \<and> (\<forall>i. Suc i < length (sent_blocks p) \<longrightarrow> (\<exists>w w' sb. fe_block_at env w (bk_end (sent_blocks p ! i)) = (w', Inr (Some sb))
          \<and> sent_blocks p ! Suc i = \<lparr>bk_id = sb_id sb, bk_channel = n, bk_start = sb_start sb, bk_end = sb_end sb,
               bk_segments = plan_segments_of (sb_segments sb)\<rparr>))
    \<and> bk_end (sent_blocks p ! 0) = bk_start (sent_blocks p ! 1)
    \<and> bp_cursor p = bk_end (last (sent_blocks p))
    \<and> (\<exists>s. bp_session p = Some s \<and> length (sent_blocks p) = se_seeded s + se_fed s)
    \<and> (\<forall>b. bp_pending p = Some b \<longrightarrow> next_of env n (last (sent_blocks p)) b)"
proof -
  have inv: "feed_inv env p" "bp_channel p = n"
    using reachable_inv [OF assms(1)] init_inv [OF assms(2), of env c n cfg has_schedule has_callback]
    by simp_all (simp add: init_producer_def)
  obtain s where s: "bp_session p = Some s" "session_ok s" "sent_in_order env n (se_sent s)"
    "bk_end (last (se_sent s)) = bp_cursor p" "\<forall>b. bp_pending p = Some b \<longrightarrow> next_of env n (last (se_sent s)) b"
    using inv assms(3) by (auto simp: feed_inv_defs)
  have sent: "sent_blocks p = se_sent s" by (simp add: sent_blocks_def s(1))
  have "\<exists>w w' sb. fe_block_at env w (bk_end (se_sent s ! i)) = (w', Inr (Some sb))
      \<and> se_sent s ! Suc i = \<lparr>bk_id = sb_id sb, bk_channel = n, bk_start = sb_start sb, bk_end = sb_end sb,
           bk_segments = plan_segments_of (sb_segments sb)\<rparr>" if "Suc i < length (se_sent s)" for i
  proof -
    have "next_of env n (se_sent s ! i) (se_sent s ! Suc i)"
      using s(3) that by (simp add: sent_in_order_def successively_conv_nth)
    then show ?thesis unfolding next_of_def generate_whole
      by (elim exE conjE) (intro exI conjI, assumption, simp)
  qed
  moreover have "length (se_sent s) = se_seeded s + se_fed s" using s(2) by (auto simp: session_ok_def)
  ultimately show ?thesis using s sent by (simp add: sent_in_order_def)
qed

section \<open>Silence after the end\<close>

lemma feed_ahead_ended: "bp_ended p \<Longrightarrow> feed_ahead env p w = (p, w, Inr ())"
  by (simp add: feed_ahead_def)

lemma tick_ended:
  assumes "feed_inv env p" "bp_ended p" "on_paced_tick env dt p w = (p', w', r)"
  shows "\<not> bp_started p' \<or> bp_started p \<and> bp_ended p' \<and> bp_session p' = bp_session p"
proof -
  obtain p1 w1 u where a: "advance_teardown env dt p w = (p1, w1, u)" by (metis prod_cases3)
  note ai = advance_teardown_inv [OF assms(1) a]
  have st: "bp_started p1 \<longrightarrow> bp_started p \<and> bp_ended p1 \<and> bp_session p1 = bp_session p" using ai assms(2) by auto
  let ?p2 = "p1\<lparr>bp_ticks := Suc (bp_ticks p1)\<rparr>"
  have "p' = p1 \<or> p' = ?p2 \<or> p' = ?p2\<lparr>bp_backoff := bp_backoff p1 - 1\<rparr> \<or> (\<not> u \<and> feed_ahead env ?p2 w1 = (p', w', r))"
    using assms(3) a by (cases u) (auto simp: on_paced_tick_def Let_def split: if_splits)
  moreover have "p' = ?p2" if "\<not> u" "feed_ahead env ?p2 w1 = (p', w', r)"
    using that feed_ahead_ended [of ?p2 env w1] ai assms(2) by simp
  ultimately show ?thesis using st by auto
qed

text \<open>
  A session that has ended is never fed again: once its end has been reported, no engine event,
  tick, teardown request or second start hands another block to the engine while the producer stays
  started.  The report also outlives the session: an end that arrives after the producer was
  stopped is still in force after the next start, which then gets its two seed blocks and nothing
  more.
\<close>

theorem ended_producer_never_feeds:
  assumes "feed_inv env p" "bp_ended p" and "run_event env ev p w = (p', w')"
  shows "\<not> bp_started p' \<or> bp_ended p' \<and>
    (if bp_started p then sent_blocks p' = sent_blocks p else length (sent_blocks p') = 2)"
proof (cases ev)
  case (Start t jip)
  then obtain ok where st: "producer_start env t jip p w = (p', w', ok)" using assms(3) by (auto split: prod.splits)
  show ?thesis
  proof (cases "bp_started p")
    case True
    then show ?thesis using st assms(2) by (simp add: producer_start_def)
  next
    case False
    obtain p1 w1 r where b: "start_body env t jip (p\<lparr>bp_start_count := Suc (bp_start_count p)\<rparr>) w = (p1, w1, r)"
      by (metis prod_cases3)
    show ?thesis
    proof (cases r)
      case (Inr u)
      have "p' = p1" using st b Inr False by (simp add: producer_start_def)
      from start_body_success [OF b [unfolded Inr]] obtain s a c q where q: "p1 = mark_started a c t q"
        "start_frame (p\<lparr>bp_start_count := Suc (bp_start_count p)\<rparr>) q" "bp_session q = Some s"
        "s = new_session\<lparr>se_process := True, se_running := True, se_seeded := 2, se_sent := [a, c]\<rparr>"
        by (elim exE conjE)
      then have "bp_ended p1" "sent_blocks p1 = [a, c]" using assms(2)
        by (simp_all add: mark_started_def start_frame_def sent_blocks_def)
      then show ?thesis using \<open>p' = p1\<close> False by simp
    next
      case (Inl e)
      then have "\<not> ok" using st b False by (auto simp: producer_start_def split: prod.splits)
      then show ?thesis using start_result [OF assms(1) st] by simp
    qed
  qed
next
  case Stop
  then show ?thesis using stop_result [OF assms(1), of w p' w'] assms(3) by simp
next
  case (Air current e)
  define q where "q = (if current then p\<lparr>bp_session := map_option (session_event e) (bp_session p)\<rparr> else p)"
  have q: "bp_ended q" "bp_started q = bp_started p" "sent_blocks q = sent_blocks p"
    using assms(2) by (simp_all add: q_def sent_blocks_def split: option.splits)
  have call: "air_callback env e q w = (p', w')" using assms(3) Air by (simp add: q_def)
  have "p' = q \<or> (\<exists>reason. p' = on_session_end reason q)"
    using call q(1) by (cases e) (auto simp: on_block_complete_def on_block_started_def)
  then show ?thesis using q assms(1) by (auto simp: on_session_end_def sent_blocks_def feed_inv_defs)
next
  case (Tick dt)
  then obtain r where "on_paced_tick env dt p w = (p', w', r)" using assms(3) by (auto split: prod.splits)
  from tick_ended [OF assms(1,2) this] show ?thesis by (auto simp: sent_blocks_def)
next
  case (RequestTeardown reason timeout)
  then show ?thesis using assms by (auto simp: request_teardown_def sent_blocks_def split: if_splits)
next
  case SignalReady
  then show ?thesis using assms by (auto simp: signal_teardown_ready_def sent_blocks_def split: if_splits)
qed

section \<open>A run\<close>

text \<open>An engine that takes every block, over blocks of two seconds; the clock counts its readings.\<close>

definition demo_grid_block :: "ms \<Rightarrow> scheduled_block" where
  "demo_grid_block t = (let a = t div 2000 * 2000
     in \<lparr>sb_id = (if a = 4000 then ''BLOCK-4000'' else ''BLOCK-6000''), sb_start = a, sb_end = a + 2000,
         sb_segments = [plain_segment ''content'' ''/show.mp4'' 0 2000]\<rparr>)"

definition demo_feed_env :: "int feed_env" where
  "demo_feed_env =
     \<lparr>ae_launch = (\<lambda>w. (w, True)), ae_seed = (\<lambda>w _ _ _ _. (w, True)), ae_feed = (\<lambda>w _. (w, FeedTaken)),
      ae_stop = (\<lambda>w _. (w, None)), fe_setup = (\<lambda>w. (w, True)),
      fe_block_at = (\<lambda>w t. (w, Inr (Some (demo_grid_block t)))), fe_now = (\<lambda>w. (w + 1000, w))\<rparr>"

definition demo_producer :: producer where
  "demo_producer = init_producer ''ch'' 7 \<lparr>pc_depth = None, pc_horizon = None, pc_preload = None, pc_grace = None,
     pc_timeout = None\<rparr> True True []"

definition demo_started :: "producer \<times> int" where
  "demo_started = run_event demo_feed_env (Start 5000000 1000) demo_producer 5000000"

lemma demo_ms: "to_epoch_ms 5000000 = 5000" by code_simp

lemma demo_blocks:
  "demo_grid_block 5000 = \<lparr>sb_id = ''BLOCK-4000'', sb_start = 4000, sb_end = 6000,
     sb_segments = [plain_segment ''content'' ''/show.mp4'' 0 2000]\<rparr>"
  "demo_grid_block 6000 = \<lparr>sb_id = ''BLOCK-6000'', sb_start = 6000, sb_end = 8000,
     sb_segments = [plain_segment ''content'' ''/show.mp4'' 0 2000]\<rparr>"
  by (simp_all add: demo_grid_block_def)

lemma demo_join:
  "generate_next_block 7 (demo_grid_block 5000) 1000 5000 = Inr \<lparr>bk_id = ''BLOCK-4000'', bk_channel = 7,
     bk_start = 5000, bk_end = 6000, bk_segments = [\<lparr>bg_index = Some 0, bg_type = ''content'',
       bg_uri = Some ''/show.mp4'', bg_offset = Some 1000, bg_duration = 1000, bg_in = None, bg_out = None, bg_gain = None\<rparr>]\<rparr>"
  by (simp add: demo_blocks generate_next_block_def Let_def sb_duration_ms_def plan_segments_of_def plan_segment_of_def
      plain_segment_def shown_transition_def apply_jip_to_segments_def trim_segment_def has_uri_def renumber_def)

lemmas demo_start_defs = producer_start_def start_body_def and_then_def open_session_def demo_feed_env_def
  session_start_def new_session_def resolve_entry_def resolve_plan_at_def make_block_def advance_cursor_def
  seed_session_def session_seed_def seed_request_def to_proto_def proto_segment_of_def make_proto_segment_def
  signed_field_def unsigned_field_def proto_transition_def shown_transition_def plain_segment_def
  plan_segments_of_def plan_segment_of_def mark_started_def sent_blocks_def bk_span_def get_or_def

lemma demo_start:
  assumes "producer_start demo_feed_env 5000000 1000 (demo_producer\<lparr>bp_ended := e, bp_end_reason := why, bp_state := st,
    bp_reports := rs\<rparr>) w = (p, w', ok)"
  shows "ok \<and> bp_started p \<and> map bk_span (sent_blocks p) = [(5000, 6000), (6000, 8000)] \<and> bp_ended p = e"
proof -
  have "bp_session p \<noteq> None \<and> map bk_span (sent_blocks p) = [(5000, 6000), (6000, 8000)] \<and> ok \<and> bp_started p \<and> bp_ended p = e"
    using assms demo_join
    by (auto simp: demo_producer_def init_producer_def demo_ms demo_blocks(2) generate_whole Let_def demo_start_defs)
  then show ?thesis by simp
qed

lemma started_fields:
  assumes "producer_start env t jip p w = (p', w', True)" "\<not> bp_started p"
  shows "\<exists>a b s. sent_blocks p' = [a, b] \<and> bp_in_flight p' = {bk_id a, bk_id b} \<and> bp_credits p' = bp_depth p - 2
    \<and> bp_completed p' = bp_completed p \<and> bp_has_schedule p' = bp_has_schedule p
    \<and> bp_session p' = Some s \<and> se_running s \<and> \<not> se_ended s"
proof -
  let ?p0 = "p\<lparr>bp_start_count := Suc (bp_start_count p)\<rparr>"
  obtain p1 w1 r where b: "start_body env t jip ?p0 w = (p1, w1, r)" by (metis prod_cases3)
  then obtain u where r: "r = Inr u" "p' = p1"
    using assms by (cases r) (auto simp: producer_start_def split: prod.splits)
  obtain s a c q where q: "p1 = mark_started a c t q" "start_frame ?p0 q" "bp_session q = Some s"
    "s = new_session\<lparr>se_process := True, se_running := True, se_seeded := 2, se_sent := [a, c]\<rparr>" "bp_in_flight q = {}"
    using start_body_success [OF b [unfolded r(1)]] by auto
  then show ?thesis using r(2)
    by (intro exI [of _ a] exI [of _ c] exI [of _ s])
      (simp add: mark_started_def start_frame_def sent_blocks_def new_session_def)
qed

lemma demo_run:
  "bp_started (fst demo_started) \<and> map bk_span (sent_blocks (fst demo_started)) = [(5000, 6000), (6000, 8000)]
    \<and> \<not> bp_ended (fst demo_started) \<and> bp_credits (fst demo_started) = 1 \<and> bp_has_schedule (fst demo_started)
    \<and> bk_id (hd (sent_blocks (fst demo_started))) \<in> bp_in_flight (fst demo_started)
    \<and> bp_completed (fst demo_started) = {}
    \<and> (\<exists>s. bp_session (fst demo_started) = Some s \<and> se_running s \<and> \<not> se_ended s)"
proof -
  obtain p w ok where s: "producer_start demo_feed_env 5000000 1000 demo_producer 5000000 = (p, w, ok)" by (metis prod_cases3)
  have e: "demo_producer\<lparr>bp_ended := False, bp_end_reason := None, bp_state := CREATED, bp_reports := []\<rparr> = demo_producer"
    by (simp add: demo_producer_def init_producer_def)
  have d: "ok \<and> bp_started p \<and> map bk_span (sent_blocks p) = [(5000, 6000), (6000, 8000)] \<and> \<not> bp_ended p"
    using demo_start [where e = False and why = None and st = CREATED and rs = "[]", unfolded e, OF s] by simp
  have n: "\<not> bp_started demo_producer" "bp_depth demo_producer = 3" "bp_completed demo_producer = {}" "bp_has_schedule demo_producer"
    by (simp_all add: demo_producer_def init_producer_def get_or_def)
  obtain a b se where f: "sent_blocks p = [a, b]" "bp_in_flight p = {bk_id a, bk_id b}" "bp_credits p = bp_depth demo_producer - 2"
    "bp_completed p = bp_completed demo_producer" "bp_has_schedule p = bp_has_schedule demo_producer"
    "bp_session p = Some se" "se_running se" "\<not> se_ended se"
    using started_fields [OF _ n(1)] s d by metis
  show ?thesis using f d s n by (simp add: demo_started_def)
qed

lemma demo_started_inv: "feed_inv demo_feed_env (fst demo_started)"
proof -
  have "feed_inv demo_feed_env demo_producer" unfolding demo_producer_def by (rule init_inv) (simp add: cache_max_def)
  moreover have "run_event demo_feed_env (Start 5000000 1000) demo_producer 5000000 = (fst demo_started, snd demo_started)"
    by (simp only: demo_started_def prod.collapse)
  ultimately show ?thesis using run_event_inv by (metis (no_types, lifting))
qed

lemma demo_reachable:
  "feed_reachable demo_feed_env (demo_producer, 5000000) (fst demo_started, snd demo_started)"
proof -
  have "feed_step demo_feed_env (demo_producer, 5000000) (fst demo_started, snd demo_started)"
    by (rule feed_step.step [of _ "Start 5000000 1000"]) (simp only: demo_started_def prod.collapse)
  then show ?thesis by (rule feed_reachable.trans [OF feed_reachable.refl])
qed

theorem flow_control_limits_witness:
  "0 \<le> bp_credits (fst demo_started) \<and> bp_credits (fst demo_started) \<le> bp_depth (fst demo_started)"
  using flow_control_limits [OF demo_reachable [unfolded demo_producer_def]] by (simp add: cache_max_def)

theorem sent_blocks_follow_schedule_witness:
  "first_of demo_feed_env 7 (sent_blocks (fst demo_started) ! 0) \<and> bp_cursor (fst demo_started) = 8000"
proof -
  have "first_of demo_feed_env 7 (sent_blocks (fst demo_started) ! 0)
      \<and> bp_cursor (fst demo_started) = bk_end (last (sent_blocks (fst demo_started)))"
    using sent_blocks_follow_schedule [OF demo_reachable [unfolded demo_producer_def]] demo_run by (simp add: cache_max_def)
  moreover have "bk_end (last (sent_blocks (fst demo_started))) = 8000"
    using demo_run by (auto simp: bk_span_def map_eq_Cons_conv)
  ultimately show ?thesis by simp
qed

theorem ended_producer_never_feeds_witness:
  "length (sent_blocks (fst (run_event demo_feed_env (Start 5000000 1000) (on_session_end ''error'' demo_producer) 0))) = 2
    \<and> bp_ended (fst (run_event demo_feed_env (Start 5000000 1000) (on_session_end ''error'' demo_producer) 0))"
proof -
  let ?p = "on_session_end ''error'' demo_producer"
  have inv: "feed_inv demo_feed_env ?p"
    unfolding demo_producer_def by (intro on_session_end_inv init_inv) (simp add: cache_max_def)
  obtain p' w' ok where s: "producer_start demo_feed_env 5000000 1000 ?p 0 = (p', w', ok)" by (metis prod_cases3)
  have "?p = demo_producer\<lparr>bp_ended := True, bp_end_reason := Some ''error'', bp_state := DRAINING, bp_reports := [''error'']\<rparr>"
    by (simp add: demo_producer_def init_producer_def on_session_end_def)
  then have "bp_started p'" using demo_start [where e = True and why = "Some ''error''" and st = DRAINING and rs = "[''error'']"] s by simp
  moreover have "bp_ended ?p" "\<not> bp_started ?p"
    by (simp_all add: on_session_end_def demo_producer_def init_producer_def)
  moreover have r: "run_event demo_feed_env (Start 5000000 1000) ?p 0 = (p', w')" using s by simp
  ultimately show ?thesis using ended_producer_never_feeds [OF inv _ r] by simp
qed


section \<open>Completions\<close>

lemma feed_ahead_completed:
  assumes "feed_inv env p" "feed_ahead env p w = (p', w', r)"
  shows "bp_completed p \<subseteq> bp_completed p' \<and> bp_ended p' = bp_ended p"
  using feed_ahead_inv [OF assms] by (simp add: feed_keeps_def)

text \<open>
  A completion counts once: the report of a block that is in flight is recorded, and the same
  report again changes nothing; a report for a block that is unknown, already completed or late
  after the end of the session leaves the whole producer and the engine alone.
\<close>

theorem completion_counts_once:
  assumes "feed_inv env p" and "on_block_complete env i p w = (p', w', r)"
  shows "if \<not> bp_ended p \<and> bp_started p \<and> i \<in> bp_in_flight p \<and> i \<notin> bp_completed p
    then insert i (bp_completed p) \<subseteq> bp_completed p' \<and> bp_started p'
      \<and> (\<forall>v. on_block_complete env i p' v = (p', v, Inr ()))
    else p' = p \<and> w' = w \<and> r = Inr ()"
proof (cases "\<not> bp_ended p \<and> bp_started p \<and> i \<in> bp_in_flight p \<and> i \<notin> bp_completed p")
  case False
  then show ?thesis using assms by (auto simp: on_block_complete_def feed_inv_defs split: if_splits)
next
  case True
  let ?p0 = "p\<lparr>bp_completed := insert i (bp_completed p), bp_in_flight := bp_in_flight p - {i}\<rparr>"
  have ses: "bp_session p \<noteq> None" using assms(1) True by (auto simp: feed_inv_defs)
  obtain p1 w1 where e: "enter_running env ?p0 w = (p1, w1)" by fastforce
  let ?p2 = "if bp_started_events p1 then p1 else add_credit p1"
  have k1: "feed_keeps env ?p0 p1" using e assms(1) by (intro enter_running_keeps) simp_all
  then have k2: "feed_keeps env p1 ?p2"
    using True add_credit_keeps [of env p1] by (auto simp: feed_keeps_def)
  then have k3: "feed_keeps env ?p2 (?p2\<lparr>bp_errors := 0, bp_backoff := 0\<rparr>)"
    by (intro clear_errors_keeps) (simp add: feed_keeps_def)
  have "feed_keeps env (?p2\<lparr>bp_errors := 0, bp_backoff := 0\<rparr>) p'"
  proof (rule feed_ahead_inv)
    show "feed_inv env (?p2\<lparr>bp_errors := 0, bp_backoff := 0\<rparr>)" using k3 by (simp add: feed_keeps_def)
    show "feed_ahead env (?p2\<lparr>bp_errors := 0, bp_backoff := 0\<rparr>) w1 = (p', w', r)"
      using assms(2) True ses e by (auto simp: on_block_complete_def Let_def)
  qed
  with k1 k2 k3 have k: "feed_keeps env ?p0 p'" by (blast intro: feed_keeps_trans)
  then have kept: "insert i (bp_completed p) \<subseteq> bp_completed p'" "bp_started p'" "bp_ended p' = bp_ended p"
    using True by (simp_all add: feed_keeps_def)
  have "on_block_complete env i p' v = (p', v, Inr ())" for v
    using kept by (simp add: on_block_complete_def)
  then show ?thesis using True kept by simp
qed

theorem completion_counts_once_witness:
  "bk_id (hd (sent_blocks (fst demo_started))) \<in>
    bp_completed (fst (run_event demo_feed_env (Air False (BlockCompleted (bk_id (hd (sent_blocks (fst demo_started)))) 1))
     (fst demo_started) 0))"
proof -
  let ?i = "bk_id (hd (sent_blocks (fst demo_started)))"
  obtain p' w' r where c: "on_block_complete demo_feed_env ?i (fst demo_started) 0 = (p', w', r)"
    by (metis prod_cases3)
  have "?i \<in> bp_completed p'" using completion_counts_once [OF demo_started_inv c] demo_run by simp
  then show ?thesis using c by simp
qed


section \<open>Feeding from a grid\<close>

text \<open>
  What the feeding relies on in a schedule service: asked at the end of a block, it answers with a
  block that starts there.
\<close>

locale block_source =
  fixes block_at :: "'s \<Rightarrow> ms \<Rightarrow> scheduled_block option res"
    and serving :: "'s \<Rightarrow> bool"
    and present :: "ms \<Rightarrow> bool"
  assumes adjacent: "serving s \<Longrightarrow> serving s' \<Longrightarrow> present t \<Longrightarrow> present (sb_end a) \<Longrightarrow>
    block_at s t = Inr (Some a) \<Longrightarrow> block_at s' (sb_end a) = Inr (Some b) \<Longrightarrow> sb_start b = sb_end a"
begin

lemma sent_meet:
  assumes src: "\<And>w t. snd (fe_block_at env w t) = block_at (service w) t" "\<And>w. serving (service w)"
    and "sent_in_order env n bs" "\<And>x. x \<in> set bs \<Longrightarrow> present (bk_end x)" and i: "Suc i < length bs"
  shows "bk_start (bs ! Suc i) = bk_end (bs ! i)"
proof -
  have nx: "next_of env n (bs ! j) (bs ! Suc j)" if "Suc j < length bs" for j
    using assms(3) that by (simp add: sent_in_order_def successively_conv_nth)
  have ans: "block_at (service w) t = Inr (Some sb)" if "fe_block_at env w t = (w', Inr (Some sb))" for w t w' sb
    using src(1) [of w t] that by simp
  have pres: "present (bk_end (bs ! j))" if "j < length bs" for j using assms(4) that by simp
  show ?thesis
  proof (cases i)
    case 0
    then show ?thesis using assms(3) by (simp add: sent_in_order_def)
  next
    case (Suc j)
    obtain w1 w1' a where a: "fe_block_at env w1 (bk_end (bs ! j)) = (w1', Inr (Some a))"
      "generate_next_block n a 0 0 = Inr (bs ! i)" using nx [of j] i Suc by (auto simp: next_of_def)
    obtain w2 w2' b where b: "fe_block_at env w2 (bk_end (bs ! i)) = (w2', Inr (Some b))"
      "generate_next_block n b 0 0 = Inr (bs ! Suc i)" using nx [OF i] by (auto simp: next_of_def)
    note whole = a(2) [unfolded generate_whole sum.inject, symmetric] b(2) [unfolded generate_whole sum.inject, symmetric]
    have e: "bk_end (bs ! i) = sb_end a" "bk_start (bs ! Suc i) = sb_start b" by (simp_all add: whole)
    have p: "present (bk_end (bs ! j))" "present (sb_end a)" using pres [of j] pres [of i] e i Suc by auto
    have "sb_start b = sb_end a"
      by (rule adjacent [OF src(2) src(2) p ans [OF a(1)]]) (use ans [OF b(1)] e in simp)
    then show ?thesis by (simp add: e)
  qed
qed

end

definition present_ms :: "ms \<Rightarrow> bool" where
  "present_ms t \<longleftrightarrow> 2 ^ 40 < t \<and> t < 1000 * (2 ^ 31 - 1)"

definition grid_config :: "sm_config \<Rightarrow> bool" where
  "grid_config cfg \<longleftrightarrow> 0 \<le> cfg_start_hour cfg \<and> cfg_start_hour cfg < 24 \<and> 0 < cfg_grid_minutes cfg
     \<and> cfg_grid_minutes cfg dvd 1440"

text \<open>A service whose grid divides the day is such a source, whatever it resolves in between.\<close>

interpretation grid_blocks: block_source "\<lambda>sv t. get_block_at sv c t" "\<lambda>sv. sv_cfg sv = cfg \<and> grid_config cfg" present_ms
  for c cfg
proof unfold_locales
  fix sv sv' :: schedule_service and t a b
  assume sv: "sv_cfg sv = cfg \<and> grid_config cfg" and sv': "sv_cfg sv' = cfg \<and> grid_config cfg"
    and t: "present_ms t" "present_ms (sb_end a)"
    and a: "get_block_at sv c t = Inr (Some a)" and b: "get_block_at sv' c (sb_end a) = Inr (Some b)"
  have g: "0 \<le> cfg_start_hour cfg" "cfg_start_hour cfg < 24" "0 < cfg_grid_minutes cfg" "cfg_grid_minutes cfg dvd 1440"
    using sv by (simp_all add: grid_config_def)
  then have le: "cfg_grid_minutes cfg \<le> 1440" by (auto dest: zdvd_imp_le)
  obtain q where q: "floor_to_grid_boundary cfg (t * 1000) = q * 1000000"
    "sb_end a = q * 1000 + cfg_grid_minutes cfg * 60000"
    using block_at_cell [OF _ _ _ _ _ _ a] g le sv t(1) by (auto simp: present_ms_def)
  obtain r where r: "floor_to_grid_boundary cfg (sb_end a * 1000) = r * 1000000" "sb_start b = r * 1000"
    using block_at_cell [OF _ _ _ _ _ _ b] g le sv' t(2) by (auto simp: present_ms_def)
  have "sb_end a * 1000 = floor_to_grid_boundary cfg (t * 1000) + cfg_grid_minutes cfg * 60000000"
    by (simp add: q)
  then have "floor_to_grid_boundary cfg (sb_end a * 1000) = sb_end a * 1000"
    using floor_next_cell [OF g, of "t * 1000"] by simp
  then show "sb_start b = sb_end a" using r by simp
qed

text \<open>
  C7. A channel scheduled on a grid that divides the day is fed without gaps: in every run over such
  a service, whatever days it resolves meanwhile, each block handed to the engine starts where the
  block before it ends.
\<close>

theorem grid_channel_is_seamless:
  assumes "feed_reachable env (init_producer c n cfg has_schedule has_callback cache, w) (p, w')"
    and "length cache \<le> cache_max" "bp_started p"
    and "\<And>w t. snd (fe_block_at env w t) = get_block_at (service w) c t"
    and "\<And>w. sv_cfg (service w) = grid \<and> grid_config grid"
    and "\<And>x. x \<in> set (sent_blocks p) \<Longrightarrow> present_ms (bk_end x)"
    and "Suc i < length (sent_blocks p)"
  shows "bk_start (sent_blocks p ! Suc i) = bk_end (sent_blocks p ! i)"
proof -
  have "feed_inv env p"
    using reachable_inv [OF assms(1)] init_inv [OF assms(2), of env c n cfg has_schedule has_callback] by simp
  then obtain s where s: "bp_session p = Some s" "sent_in_order env (bp_channel p) (se_sent s)"
    using assms(3) by (auto simp: feed_inv_defs)
  have eq: "sent_blocks p = se_sent s" by (simp add: sent_blocks_def s(1))
  from assms(4-7) show ?thesis unfolding eq
    by (intro grid_blocks.sent_meet [OF _ _ s(2)]) auto
qed


section \<open>Starting\<close>

lemma generate_total:
  assumes "jip \<le> 0 \<or> 0 < now"
  shows "\<exists>b. generate_next_block ch sb jip now = Inr b"
  using assms by (auto simp: generate_next_block_def Let_def)

lemma start_body_total:
  assumes "bp_has_schedule p" "jip \<le> 0 \<or> 0 < to_epoch_ms t"
    and "\<And>w. \<exists>w'. fe_setup env w = (w', True)" "\<And>w. \<exists>w'. ae_launch env w = (w', True)"
    and "\<And>w pa pb j d. \<exists>w'. ae_seed env w pa pb j d = (w', True)"
    and "\<And>w. \<exists>w' x. fe_block_at env w (to_epoch_ms t) = (w', Inr (Some x)) \<and> good x"
    and wire: "in_signed 32 (bp_channel p)" "in_signed 32 (bp_depth p)" "in_signed 64 (to_epoch_ms t)" "\<And>x. good x \<Longrightarrow> fits_wire x"
    and next_ok: "\<And>w x. good x \<Longrightarrow> \<exists>w' y. fe_block_at env w (sb_end x) = (w', Inr (Some y)) \<and> sb_start y = sb_end x \<and> fits_wire y"
  shows "\<exists>p' w' a b x y v v'. start_body env t jip p w = (p', w', Inr ()) \<and> sent_blocks p' = [a, b] \<and> good x
    \<and> fe_block_at env v (sb_end x) = (v', Inr (Some y)) \<and> bk_end a = sb_end x \<and> bk_end b = sb_end y"
proof -
  obtain w1 w2 where o: "fe_setup env w = (w1, True)" "ae_launch env w1 = (w2, True)" using assms(3,4) by meson
  let ?s = "new_session\<lparr>se_process := True, se_running := True\<rparr>"
  have ss: "session_start env new_session w1 = (?s, w2, True)"
    using o(2) by (simp add: session_start_def new_session_def)
  let ?p1 = "p\<lparr>bp_session := Some ?s\<rparr>"
  have s1: "open_session env p w = (?p1, w2, Inr ())" by (simp add: open_session_def o(1) ss)
  obtain w3 x where x: "fe_block_at env w2 (to_epoch_ms t) = (w3, Inr (Some x))" "good x" using assms(6) by blast
  have s2: "resolve_entry env (to_epoch_ms t) m ?p1 w2 = (?p1, w3, Inr x)" for m
    using assms(1) x(1) by (simp add: resolve_entry_def resolve_plan_at_def)
  let ?p2 = "?p1\<lparr>bp_cursor := sb_start x, bp_in_flight := {}\<rparr>"
  obtain a where a: "generate_next_block (bp_channel p) x jip (to_epoch_ms t) = Inr a" using generate_total assms(2) by blast
  have s3: "make_block x jip (to_epoch_ms t) ?p2 w3 = (advance_cursor a ?p2, w3, Inr a)" by (simp add: make_block_def a)
  obtain w4 y where y: "fe_block_at env w3 (sb_end x) = (w4, Inr (Some y))" "sb_start y = sb_end x" "fits_wire y"
    using next_ok x(2) by blast
  have s4: "resolve_entry env (bp_cursor (advance_cursor a ?p2)) m (advance_cursor a ?p2) w3 = (advance_cursor a ?p2, w4, Inr y)" for m
    using assms(1) y(1) generate_end [OF a] by (simp add: resolve_entry_def resolve_plan_at_def advance_cursor_def)
  let ?b = "\<lparr>bk_id = sb_id y, bk_channel = bp_channel p, bk_start = sb_start y, bk_end = sb_end y,
     bk_segments = plan_segments_of (sb_segments y)\<rparr>"
  let ?p3 = "advance_cursor ?b (advance_cursor a ?p2)"
  have s5: "make_block y 0 0 (advance_cursor a ?p2) w4 = (?p3, w4, Inr ?b)"
    by (simp add: make_block_def generate_whole advance_cursor_def)
  obtain pa pb where pr: "to_proto a = Inr pa" "to_proto ?b = Inr pb"
    using generated_proto [OF a wire(4) [OF x(2)] wire(1)] generated_proto [OF generate_whole [of "bp_channel p" y 0] y(3) wire(1)]
    by blast
  have rq: "seed_request a ?b (to_epoch_ms t) (bp_depth p) = Inr (pa, pb, word_of_int (to_epoch_ms t), word_of_int (bp_depth p))"
    using pr wire(2,3) by (simp add: seed_request_def field_if)
  obtain w5 where "ae_seed env w4 pa pb (word_of_int (to_epoch_ms t)) (word_of_int (bp_depth p)) = (w5, True)"
    using assms(5) by blast
  then have "\<exists>q. seed_session env a ?b (to_epoch_ms t) ?p3 w4 = (q, w5, Inr ()) \<and> sent_blocks q = [a, ?b]"
    using rq generate_end [OF a] y(2)
    by (simp add: seed_session_def session_seed_def advance_cursor_def new_session_def sent_blocks_def)
  then obtain q where s6: "seed_session env a ?b (to_epoch_ms t) ?p3 w4 = (q, w5, Inr ())" "sent_blocks q = [a, ?b]" by blast
  have run: "start_body env t jip p w = (mark_started a ?b t q, w5, Inr ())" unfolding start_body_def Let_def
    by (simp add: and_then_def s1 s2 s3 s4 s5 s6(1))
  have "sent_blocks (mark_started a ?b t q) = [a, ?b]" using s6(2) by (simp add: mark_started_def sent_blocks_def)
  then show ?thesis using run x(2) y(1) generate_end [OF a]
    by (intro exI [of _ "mark_started a ?b t q"] exI [of _ w5] exI [of _ a] exI [of _ ?b] exI [of _ x] exI [of _ y]
        exI [of _ w3] exI [of _ w4]) simp
qed

lemma producer_goes_live:
  assumes "\<not> bp_started p" "bp_has_schedule p" "jip \<le> 0 \<or> 0 < to_epoch_ms t"
    and "\<And>w. \<exists>w'. fe_setup env w = (w', True)" "\<And>w. \<exists>w'. ae_launch env w = (w', True)"
    and "\<And>w pa pb j d. \<exists>w'. ae_seed env w pa pb j d = (w', True)"
    and "\<And>w. \<exists>w' x. fe_block_at env w (to_epoch_ms t) = (w', Inr (Some x)) \<and> good x"
    and wire: "in_signed 32 (bp_channel p)" "in_signed 32 (bp_depth p)" "in_signed 64 (to_epoch_ms t)" "\<And>x. good x \<Longrightarrow> fits_wire x"
    and next_ok: "\<And>w x. good x \<Longrightarrow> \<exists>w' y. fe_block_at env w (sb_end x) = (w', Inr (Some y)) \<and> sb_start y = sb_end x \<and> fits_wire y"
  shows "\<exists>p' w' a b x y v v'. producer_start env t jip p w = (p', w', True) \<and> sent_blocks p' = [a, b] \<and> good x
    \<and> fe_block_at env v (sb_end x) = (v', Inr (Some y)) \<and> bk_end a = sb_end x \<and> bk_end b = sb_end y"
proof -
  let ?p0 = "p\<lparr>bp_start_count := Suc (bp_start_count p)\<rparr>"
  have "bp_has_schedule ?p0" using assms(2) by simp
  then have "\<exists>p' w' a b x y v v'. start_body env t jip ?p0 w = (p', w', Inr ()) \<and> sent_blocks p' = [a, b] \<and> good x
    \<and> fe_block_at env v (sb_end x) = (v', Inr (Some y)) \<and> bk_end a = sb_end x \<and> bk_end b = sb_end y"
    by (rule start_body_total [OF _ assms(3-7)]) (use wire next_ok in simp_all)
  moreover have "producer_start env t jip p w = (p', w', True)" if "start_body env t jip ?p0 w = (p', w', Inr ())" for p' w'
    using that assms(1) by (simp add: producer_start_def)
  ultimately show ?thesis by (elim exE conjE, intro exI conjI) assumption+
qed

text \<open>The demonstration service, whose half-hour grid divides the day, behind an engine that takes everything.\<close>

definition demo_grid_env :: "unit feed_env" where
  "demo_grid_env =
     \<lparr>ae_launch = (\<lambda>w. (w, True)), ae_seed = (\<lambda>w _ _ _ _. (w, True)), ae_feed = (\<lambda>w _. (w, FeedTaken)),
      ae_stop = (\<lambda>w _. (w, None)), fe_setup = (\<lambda>w. (w, True)),
      fe_block_at = (\<lambda>w t. (w, get_block_at demo_service ''ch'' t)), fe_now = (\<lambda>w. (w, 1728022200000000))\<rparr>"

lemma demo_grid_config: "grid_config (sv_cfg demo_service)" by code_simp

definition demo_grid_segments :: "datetime \<Rightarrow> playout_segment list" where
  "demo_grid_segments t = pb_segments (get_program_at (sv_cfg demo_service) (ss_resolved (sv_state demo_service)) ''ch'' t)"

lemma demo_grid_answer:
  assumes "2 ^ 40 < t" "t < 1000 * (2 ^ 31 - 1)" "programming_day_date (sv_cfg demo_service) (t * 1000) = 20000"
  shows "\<exists>b. get_block_at demo_service ''ch'' t = Inr (Some b)
    \<and> sb_start b * 1000 = floor_to_grid_boundary (sv_cfg demo_service) (t * 1000) \<and> sb_end b = sb_start b + 1800000
    \<and> sb_segments b = map scheduled_segment_of (demo_grid_segments (t * 1000))"
proof -
  note f = demo_service_facts
  have day: "programming_day_date (sv_cfg demo_service) 1728022200000000 = 20000" by code_simp
  have at: "from_epoch_ms t = t * 1000" using from_epoch_ms_present assms(1,2) by simp
  have "ensure_day_resolved demo_service ''ch'' (t * 1000) = Inr ()"
    using f(4,5) assms(3) by (simp add: ensure_day_resolved_def day)
  then have "\<exists>ob. get_block_at demo_service ''ch'' t = Inr ob" by (simp add: get_block_at_def at Let_def)
  then obtain ob where ob: "get_block_at demo_service ''ch'' t = Inr ob" by (elim exE)
  then have segs: "sb_segments b = map scheduled_segment_of (demo_grid_segments (t * 1000))" if "ob = Some b" for b
    using that by (auto simp: get_block_at_def at Let_def bind_res_Inr_iff demo_grid_segments_def split: if_splits)
  from block_at_cell [OF f(1,2) _ _ assms(1,2) ob] ob f(3) segs show ?thesis by auto
qed

lemma demo_grid_answers:
  "\<exists>a. get_block_at demo_service ''ch'' 1728022200000 = Inr (Some a) \<and> sb_end a = 1728023400000 \<and> fits_wire a"
  "\<exists>b. get_block_at demo_service ''ch'' 1728023400000 = Inr (Some b) \<and> sb_start b = 1728023400000
    \<and> sb_end b = 1728025200000 \<and> fits_wire b"
proof -
  have d: "programming_day_date (sv_cfg demo_service) (1728022200000 * 1000) = 20000"
    "programming_day_date (sv_cfg demo_service) (1728023400000 * 1000) = 20000"
    "floor_to_grid_boundary (sv_cfg demo_service) (1728022200000 * 1000) = 1728021600000000"
    "floor_to_grid_boundary (sv_cfg demo_service) (1728023400000 * 1000) = 1728023400000000" by code_simp+
  have s: "map scheduled_segment_of (demo_grid_segments (1728022200000 * 1000)) = [plain_segment ''content'' ''film.mp4'' 0 1800000]"
    "map scheduled_segment_of (demo_grid_segments (1728023400000 * 1000)) = [plain_segment ''content'' ''film.mp4'' 0 1800000]"
    by code_simp+
  have f: "fits_wire b" if "sb_segments b = [plain_segment ''content'' ''film.mp4'' 0 1800000]" "sb_end b = sb_start b + 1800000"
    "0 \<le> sb_start b" "sb_start b < 2 ^ 61" for b
    using that by (simp add: fits_wire_def plain_segment_def)
  show "\<exists>a. get_block_at demo_service ''ch'' 1728022200000 = Inr (Some a) \<and> sb_end a = 1728023400000 \<and> fits_wire a"
    using demo_grid_answer [OF _ _ d(1)] f unfolding d(3) s by auto
  show "\<exists>b. get_block_at demo_service ''ch'' 1728023400000 = Inr (Some b) \<and> sb_start b = 1728023400000
      \<and> sb_end b = 1728025200000 \<and> fits_wire b" using demo_grid_answer [OF _ _ d(2)] f unfolding d(4) s by auto
qed

definition demo_grid_producer :: producer where
  "demo_grid_producer = init_producer ''ch'' 7 \<lparr>pc_depth = None, pc_horizon = None, pc_preload = None, pc_grace = None,
     pc_timeout = None\<rparr> True True []"

lemma demo_grid_live:
  "\<exists>p x y. producer_start demo_grid_env 1728022200000000 600000 demo_grid_producer () = (p, (), True)
    \<and> sent_blocks p = [x, y] \<and> bk_end x = 1728023400000 \<and> bk_end y = 1728025200000"
proof -
  have ms: "to_epoch_ms 1728022200000000 = 1728022200000"
    using to_epoch_ms_whole [of 1728022200] by simp
  have p: "\<not> bp_started demo_grid_producer" "bp_has_schedule demo_grid_producer"
    "in_signed 32 (bp_channel demo_grid_producer)" "in_signed 32 (bp_depth demo_grid_producer)"
    "in_signed 64 1728022200000"
    by (simp_all add: demo_grid_producer_def init_producer_def in_signed_def get_or_def)
  have "\<exists>p' w' a b (x :: scheduled_block) y v v'. producer_start demo_grid_env 1728022200000000 600000 demo_grid_producer () = (p', w', True)
      \<and> sent_blocks p' = [a, b] \<and> (sb_end x = 1728023400000 \<and> fits_wire x)
      \<and> fe_block_at demo_grid_env v (sb_end x) = (v', Inr (Some y)) \<and> bk_end a = sb_end x \<and> bk_end b = sb_end y"
    using demo_grid_answers
    by (intro producer_goes_live [where good = "\<lambda>x. sb_end x = 1728023400000 \<and> fits_wire x"])
      (auto simp: demo_grid_env_def p ms)
  then show ?thesis using demo_grid_answers(2) by (auto simp: demo_grid_env_def)
qed

theorem grid_channel_is_seamless_witness:
  "\<exists>p x y. producer_start demo_grid_env 1728022200000000 600000 demo_grid_producer () = (p, (), True)
    \<and> sent_blocks p = [x, y] \<and> bk_start y = bk_end x"
proof -
  obtain p x y where p: "producer_start demo_grid_env 1728022200000000 600000 demo_grid_producer () = (p, (), True)"
    "sent_blocks p = [x, y]" "bk_end x = 1728023400000" "bk_end y = 1728025200000" using demo_grid_live by (elim exE conjE)
  have "feed_step demo_grid_env (demo_grid_producer, ()) (p, ())"
    by (rule feed_step.step [of _ "Start 1728022200000000 600000"]) (simp add: p(1))
  then have r: "feed_reachable demo_grid_env (demo_grid_producer, ()) (p, ())"
    by (rule feed_reachable.trans [OF feed_reachable.refl])
  have "\<not> bp_started demo_grid_producer" by (simp add: demo_grid_producer_def init_producer_def)
  then have st: "bp_started p" using started_fields [OF p(1)] start_result [OF _ p(1)]
    init_inv [of "[]", of demo_grid_env] by (simp add: demo_grid_producer_def cache_max_def)
  have "bk_start (sent_blocks p ! Suc 0) = bk_end (sent_blocks p ! 0)"
    using demo_grid_config p(2-4) st
    by (intro grid_channel_is_seamless [OF r [unfolded demo_grid_producer_def], where service = "\<lambda>_. demo_service"
          and grid = "sv_cfg demo_service" and i = 0])
      (auto simp: cache_max_def demo_grid_env_def present_ms_def)
  then show ?thesis using p(1,2) by auto
qed

end
