(* ===== verification/Channel_Manager.thy ===== *)
theory Channel_Manager
  imports Feed_Control
begin

text \<open>
  \<^verbatim>\<open>ChannelManager\<close> of \<^verbatim>\<open>runtime/channel_manager.py\<close>: the board operator of one channel.  The first
  viewer starts a block plan producer, the last one starts a linger after which it is stopped, a
  producer whose session fails is restarted after a delay, and the health loop finishes teardowns.
  The embedded program director is modelled as far as it acts on the manager
  (\<^verbatim>\<open>_stop_channel_internal\<close>, \<^verbatim>\<open>_get_or_create_manager\<close>, \<^verbatim>\<open>get_channel_mode\<close>,
  \<^verbatim>\<open>_health_check_loop\<close>).  Viewer joins and leaves hold a lock; the timers, the health loop and the
  callbacks are taken as atomic steps as well.  The world answers for the clock, the schedule
  service, the engine, the mode of the system and the time of the event loop.
\<close>

section \<open>State\<close>

datatype system_mode = SYS_NORMAL | SYS_EMERGENCY | SYS_MAINTENANCE | SYS_RECOVERY

datatype channel_state = CH_RUNNING | CH_STOPPED | CH_IDLE

record viewer_session =
  vs_id :: string
  vs_channel :: string
  vs_started_at :: datetime
  vs_last_activity :: datetime
  vs_info :: "(string \<times> string) list"

record channel_manager =
  cm_channel :: string
  cm_sessions :: "(string \<times> viewer_session) list"
  cm_producer :: "producer option"
  cm_mode :: string
  cm_viewers :: nat
  cm_status :: string
  cm_started_at :: "datetime option"
  cm_endpoint :: "string option"
  cm_health :: "string option"
  cm_teardown_started :: "rat option"
  cm_teardown_reason :: "string option"
  cm_state :: channel_state
  cm_linger :: "rat option"
  cm_blockplan :: bool
  cm_pending_fatal :: "exn option"
  cm_attempts :: nat
  cm_recovery :: "rat option"
  cm_loop :: bool
  cm_director_stops :: bool
  cm_director_config :: "int option"
  cm_cache :: "(string \<times> cached_segment list) list"

record 'w channel_env = "'w feed_env" +
  ce_mode :: "'w \<Rightarrow> 'w \<times> system_mode"
  ce_loop_time :: "'w \<Rightarrow> 'w \<times> rat"

definition linger_seconds :: rat where "linger_seconds = 20"
definition teardown_timeout :: rat where "teardown_timeout = 5"
definition recovery_base_delay :: rat where "recovery_base_delay = 1"
definition recovery_max_attempts :: nat where "recovery_max_attempts = 5"

text \<open>
  \<open>cm_linger\<close> is the deadline of the pending linger timer, \<open>cm_recovery\<close> the delay of the pending
  recovery timer; \<open>cm_loop\<close> tells that the manager got an event loop, \<open>cm_director_stops\<close> that its
  director offers \<^verbatim>\<open>stop_channel\<close>, and \<open>cm_director_config\<close> is the number of the channel in the
  configuration the director has for it.  \<open>cm_cache\<close> keeps the segment cache between producers.
\<close>

definition new_manager ::
  "string \<Rightarrow> bool \<Rightarrow> bool \<Rightarrow> int option \<Rightarrow> (string \<times> cached_segment list) list \<Rightarrow> channel_manager" where
  "new_manager channel loop stops config cache =
     \<lparr>cm_channel = channel, cm_sessions = [], cm_producer = None, cm_mode = ''normal'', cm_viewers = 0,
      cm_status = ''stopped'', cm_started_at = None, cm_endpoint = None, cm_health = None,
      cm_teardown_started = None, cm_teardown_reason = None, cm_state = CH_RUNNING, cm_linger = None,
      cm_blockplan = True, cm_pending_fatal = None, cm_attempts = 0, cm_recovery = None, cm_loop = loop,
      cm_director_stops = stops, cm_director_config = config, cm_cache = cache\<rparr>"

section \<open>Mode and producer\<close>

definition channel_mode :: "system_mode \<Rightarrow> string" where
  "channel_mode s = (if s = SYS_EMERGENCY then ''emergency'' else if s = SYS_MAINTENANCE then ''maintenance'' else ''normal'')"

definition get_current_mode :: "('w, 'z) channel_env_scheme \<Rightarrow> channel_manager \<Rightarrow> 'w \<Rightarrow> channel_manager \<times> 'w \<times> string" where
  "get_current_mode env m w =
     (case ce_mode env w of (w', s) \<Rightarrow> (m\<lparr>cm_mode := channel_mode s\<rparr>, w', channel_mode s))"

text \<open>A block plan producer is built in the normal mode, whatever mode is asked for.\<close>

definition producer_mode :: "producer \<Rightarrow> string" where
  "producer_mode p = ''normal''"

definition status_value :: "producer_status \<Rightarrow> string" where
  "status_value s = (case s of PS_STOPPED \<Rightarrow> ''stopped'' | PS_STARTING \<Rightarrow> ''starting'' | PS_RUNNING \<Rightarrow> ''running''
     | PS_STOPPING \<Rightarrow> ''stopping'' | PS_ERROR \<Rightarrow> ''error'')"

definition mock_channel_int :: int where "mock_channel_int = 1"

definition get_channel_config :: "channel_manager \<Rightarrow> int" where
  "get_channel_config m = get_or (cm_director_config m) mock_channel_int"

definition build_producer_for_mode :: "string \<Rightarrow> channel_manager \<Rightarrow> producer option res" where
  "build_producer_for_mode mode m =
     (if \<not> cm_blockplan m then Inl (RuntimeError ''Only BlockPlanProducer is permitted'')
      else Inr (Some (init_producer (cm_channel m) (get_channel_config m)
             \<lparr>pc_depth = None, pc_horizon = None, pc_preload = None, pc_grace = None, pc_timeout = None\<rparr>
             True True (cm_cache m))))"

text \<open>\<^verbatim>\<open>_on_producer_session_end\<close>: a failure with viewers schedules a restart, later with every attempt.\<close>

definition on_producer_session_end :: "string \<Rightarrow> channel_manager \<Rightarrow> channel_manager" where
  "on_producer_session_end reason m =
     (if reason \<notin> {''stopped'', ''error''} then m
      else if cm_viewers m = 0 then m
      else let n = Suc (cm_attempts m); m1 = m\<lparr>cm_attempts := n\<rparr>
           in if recovery_max_attempts < n then m1
              else m1\<lparr>cm_recovery := Some (min (recovery_base_delay * 2 ^ (n - 1)) 30)\<rparr>)"

text \<open>The producer after one of its methods, with the failures it has reported meanwhile.\<close>

definition absorb :: "producer \<Rightarrow> channel_manager \<Rightarrow> channel_manager" where
  "absorb p m = fold on_producer_session_end (bp_reports p) (m\<lparr>cm_producer := Some (p\<lparr>bp_reports := []\<rparr>)\<rparr>)"

definition drop_producer :: "channel_manager \<Rightarrow> channel_manager" where
  "drop_producer m = m\<lparr>cm_cache := (case cm_producer m of None \<Rightarrow> cm_cache m | Some p \<Rightarrow> bp_cache p), cm_producer := None\<rparr>"

definition stop_active :: "('w, 'z) channel_env_scheme \<Rightarrow> channel_manager \<Rightarrow> 'w \<Rightarrow> channel_manager \<times> 'w" where
  "stop_active env m w =
     (case cm_producer m of
        None \<Rightarrow> (m, w)
      | Some p \<Rightarrow> (case producer_stop env p w of (p', w') \<Rightarrow> (absorb p' m, w')))"

definition healthy :: "string \<Rightarrow> channel_manager \<Rightarrow> bool" where
  "healthy mode m =
     (case cm_producer m of None \<Rightarrow> False | Some p \<Rightarrow> producer_mode p = mode \<and> producer_health p = ''running'')"

definition launch_producer ::
  "('w, 'z) channel_env_scheme \<Rightarrow> producer \<Rightarrow> channel_manager \<Rightarrow> 'w \<Rightarrow> channel_manager \<times> 'w \<times> unit res" where
  "launch_producer env p m w =
     (case fe_now env w of
        (w1, station_time) \<Rightarrow>
          (let now_ms = to_epoch_ms station_time
           in case fe_block_at env w1 now_ms of
                (w2, Inl e) \<Rightarrow> (m\<lparr>cm_producer := Some p\<rparr>, w2, Inl e)
              | (w2, Inr None) \<Rightarrow>
                (drop_producer (m\<lparr>cm_producer := Some p, cm_status := ''error''\<rparr>), w2, Inl NoScheduleDataError)
              | (w2, Inr (Some b)) \<Rightarrow>
                (case producer_start env station_time (now_ms - sb_start b) p w2 of
                   (p', w3, ok) \<Rightarrow>
                     (let m1 = absorb p' m
                      in if \<not> ok
                         then (drop_producer (m1\<lparr>cm_status := ''error''\<rparr>), w3, Inl ProducerStartupError)
                         else (m1\<lparr>cm_status := ''running'', cm_started_at := Some station_time,
                                 cm_endpoint := bp_output p', cm_attempts := 0\<rparr>, w3, Inr ())))))"

definition ensure_producer_running ::
  "('w, 'z) channel_env_scheme \<Rightarrow> channel_manager \<Rightarrow> 'w \<Rightarrow> channel_manager \<times> 'w \<times> unit res" where
  "ensure_producer_running env m w =
     (case get_current_mode env m w of
        (m1, w1, mode) \<Rightarrow>
          if healthy mode m1 then (m1, w1, Inr ())
          else case stop_active env m1 w1 of
            (m2, w2) \<Rightarrow>
              (let m3 = drop_producer m2
               in case build_producer_for_mode mode m3 of
                    Inl e \<Rightarrow> (m3, w2, Inl e)
                  | Inr None \<Rightarrow> (m3\<lparr>cm_status := ''error''\<rparr>, w2, Inl ProducerStartupError)
                  | Inr (Some p) \<Rightarrow> launch_producer env p m3 w2))"

definition is_live :: "channel_manager \<Rightarrow> bool" where
  "is_live m = (case cm_producer m of None \<Rightarrow> False | Some p \<Rightarrow> bp_status p = PS_RUNNING)"

section \<open>Teardown\<close>

definition finalize_teardown ::
  "('w, 'z) channel_env_scheme \<Rightarrow> bool \<Rightarrow> channel_manager \<Rightarrow> 'w \<Rightarrow> channel_manager \<times> 'w" where
  "finalize_teardown env completed m w =
     (let w1 = (if cm_teardown_started m = None then w else fst (fe_now env w))
      in case (if completed then (m, w1) else stop_active env m w1) of
           (m1, w2) \<Rightarrow> ((drop_producer m1)\<lparr>cm_status := ''stopped'', cm_endpoint := None,
                          cm_teardown_started := None, cm_teardown_reason := None\<rparr>, w2))"

definition check_teardown_completion ::
  "('w, 'z) channel_env_scheme \<Rightarrow> channel_manager \<Rightarrow> 'w \<Rightarrow> channel_manager \<times> 'w" where
  "check_teardown_completion env m w =
     (if cm_teardown_started m = None then (m, w)
      else case cm_producer m of
             None \<Rightarrow> finalize_teardown env True m w
           | Some p \<Rightarrow> if td_active p then (m, w) else finalize_teardown env (bp_status p = PS_STOPPED) m w)"

definition stop_producer_if_idle :: "('w, 'z) channel_env_scheme \<Rightarrow> channel_manager \<Rightarrow> 'w \<Rightarrow> channel_manager \<times> 'w" where
  "stop_producer_if_idle env m w =
     (case check_teardown_completion env m w of
        (m1, w1) \<Rightarrow>
          if cm_viewers m1 \<noteq> 0 then (m1, w1)
          else case cm_producer m1 of
            None \<Rightarrow> (m1\<lparr>cm_status := ''stopped'', cm_endpoint := None\<rparr>, w1)
          | Some p \<Rightarrow>
            if td_active p then (m1, w1)
            else case fe_now env w1 of
              (w2, now) \<Rightarrow>
                (m1\<lparr>cm_teardown_started := Some (total_seconds now), cm_teardown_reason := Some ''viewer_inactive'',
                    cm_producer := Some (request_teardown ''viewer_inactive'' (Some teardown_timeout) p)\<rparr>, w2))"

definition cancel_linger :: "channel_manager \<Rightarrow> channel_manager" where
  "cancel_linger m = m\<lparr>cm_linger := None\<rparr>"

definition stop_channel :: "('w, 'z) channel_env_scheme \<Rightarrow> channel_manager \<Rightarrow> 'w \<Rightarrow> channel_manager \<times> 'w" where
  "stop_channel env m w =
     stop_producer_if_idle env
       ((cancel_linger m)\<lparr>cm_attempts := 0, cm_recovery := None, cm_state := CH_STOPPED, cm_teardown_reason := None,
          cm_pending_fatal := None\<rparr>) w"

text \<open>\<^verbatim>\<open>_stop_channel_internal\<close> of the director: the producer is stopped at once and given up.\<close>

definition director_stop_channel :: "('w, 'z) channel_env_scheme \<Rightarrow> channel_manager \<Rightarrow> 'w \<Rightarrow> channel_manager \<times> 'w" where
  "director_stop_channel env m w =
     (case stop_channel env m w of
        (m1, w1) \<Rightarrow>
          if cm_producer m1 = None then (m1, w1)
          else case stop_active env m1 w1 of (m2, w2) \<Rightarrow> (drop_producer m2, w2))"

definition reactivate :: "channel_manager \<Rightarrow> channel_manager" where
  "reactivate m = (if cm_state m = CH_STOPPED then m\<lparr>cm_state := CH_IDLE\<rparr> else m)"


section \<open>Viewers\<close>

definition end_linger :: "('w, 'z) channel_env_scheme \<Rightarrow> channel_manager \<Rightarrow> 'w \<Rightarrow> channel_manager \<times> 'w" where
  "end_linger env m w =
     (if cm_director_stops m then director_stop_channel env m w
      else stop_producer_if_idle env (m\<lparr>cm_state := CH_STOPPED\<rparr>) w)"

definition start_linger :: "('w, 'z) channel_env_scheme \<Rightarrow> channel_manager \<Rightarrow> 'w \<Rightarrow> channel_manager \<times> 'w" where
  "start_linger env m w =
     (if cm_linger m \<noteq> None then (m, w)
      else if cm_loop m
      then (case ce_loop_time env w of (w', now) \<Rightarrow> (m\<lparr>cm_linger := Some (fl (now + linger_seconds))\<rparr>, w'))
      else end_linger env m w)"

definition linger_expire :: "('w, 'z) channel_env_scheme \<Rightarrow> channel_manager \<Rightarrow> 'w \<Rightarrow> channel_manager \<times> 'w" where
  "linger_expire env m w =
     (let m1 = m\<lparr>cm_linger := None\<rparr> in if cm_viewers m1 = 0 then end_linger env m1 w else (m1, w))"

definition on_first_viewer :: "('w, 'z) channel_env_scheme \<Rightarrow> channel_manager \<Rightarrow> 'w \<Rightarrow> channel_manager \<times> 'w \<times> unit res" where
  "on_first_viewer env m w =
     (if cm_viewers m = 0 then (m, w, Inr ())
      else if cm_viewers m = 1 then ensure_producer_running env m w
      else (m, w, Inr ()))"

definition on_last_viewer :: "('w, 'z) channel_env_scheme \<Rightarrow> channel_manager \<Rightarrow> 'w \<Rightarrow> channel_manager \<times> 'w" where
  "on_last_viewer env m w = (if cm_viewers m \<noteq> 0 then (m, w) else start_linger env m w)"

definition note_session ::
  "string \<Rightarrow> string \<Rightarrow> (string \<times> string) list \<Rightarrow> datetime \<Rightarrow> (string \<times> viewer_session) list \<Rightarrow> (string \<times> viewer_session) list" where
  "note_session channel sid info now ss =
     (case map_of ss sid of
        Some s \<Rightarrow> dict_set sid (s\<lparr>vs_last_activity := now\<rparr>) ss
      | None \<Rightarrow> dict_set sid \<lparr>vs_id = sid, vs_channel = channel, vs_started_at = now, vs_last_activity = now,
          vs_info = info\<rparr> ss)"

definition surface_endpoint :: "channel_manager \<Rightarrow> channel_manager" where
  "surface_endpoint m = (case cm_producer m of None \<Rightarrow> m | Some p \<Rightarrow> m\<lparr>cm_endpoint := bp_output p\<rparr>)"

definition viewer_join ::
  "('w, 'z) channel_env_scheme \<Rightarrow> string \<Rightarrow> (string \<times> string) list \<Rightarrow> channel_manager \<Rightarrow> 'w
    \<Rightarrow> channel_manager \<times> 'w \<times> unit res" where
  "viewer_join env sid info m w =
     (case fe_now env w of
        (w1, now) \<Rightarrow>
          (let ss = note_session (cm_channel m) sid info now (cm_sessions m);
               m1 = m\<lparr>cm_sessions := ss, cm_viewers := length ss\<rparr>
           in if cm_viewers m = 0 \<and> length ss = 1
              then (case on_first_viewer env ((cancel_linger m1)\<lparr>cm_state := CH_RUNNING\<rparr>) w1 of
                      (m2, w2, Inl e) \<Rightarrow> (m2, w2, Inl e)
                    | (m2, w2, Inr _) \<Rightarrow> (surface_endpoint m2, w2, Inr ()))
              else (surface_endpoint m1, w1, Inr ())))"

definition viewer_leave :: "('w, 'z) channel_env_scheme \<Rightarrow> string \<Rightarrow> channel_manager \<Rightarrow> 'w \<Rightarrow> channel_manager \<times> 'w" where
  "viewer_leave env sid m w =
     (let ss = filter (\<lambda>p. fst p \<noteq> sid) (cm_sessions m);
          m1 = m\<lparr>cm_sessions := ss, cm_viewers := length ss\<rparr>
      in if cm_viewers m = 1 \<and> length ss = 0 then on_last_viewer env m1 w else (m1, w))"

definition tune_in ::
  "('w, 'z) channel_env_scheme \<Rightarrow> string \<Rightarrow> (string \<times> string) list option \<Rightarrow> channel_manager \<Rightarrow> 'w
    \<Rightarrow> channel_manager \<times> 'w \<times> unit res" where
  "tune_in env sid info m w = viewer_join env sid (get_or info []) m w"

definition tune_out :: "('w, 'z) channel_env_scheme \<Rightarrow> string \<Rightarrow> channel_manager \<Rightarrow> 'w \<Rightarrow> channel_manager \<times> 'w" where
  "tune_out env sid m w = viewer_leave env sid m w"

section \<open>Recovery and health\<close>

definition attempt_recovery :: "('w, 'z) channel_env_scheme \<Rightarrow> channel_manager \<Rightarrow> 'w \<Rightarrow> channel_manager \<times> 'w" where
  "attempt_recovery env m w =
     (let m1 = m\<lparr>cm_recovery := None\<rparr>
      in if cm_viewers m1 = 0 then (m1\<lparr>cm_attempts := 0\<rparr>, w)
         else case ensure_producer_running env m1 w of (m2, w2, _) \<Rightarrow> (m2, w2))"

definition report_health :: "channel_manager \<Rightarrow> channel_manager" where
  "report_health m =
     (case cm_producer m of
        None \<Rightarrow> m\<lparr>cm_status := ''stopped'', cm_health := Some ''stopped''\<rparr>
      | Some p \<Rightarrow> m\<lparr>cm_health := Some (producer_health p), cm_status := status_value (bp_status p),
          cm_endpoint := bp_output p, cm_started_at := bp_started_at p\<rparr>)"

definition check_health :: "('w, 'z) channel_env_scheme \<Rightarrow> channel_manager \<Rightarrow> 'w \<Rightarrow> channel_manager \<times> 'w" where
  "check_health env m w =
     (let m1 = m\<lparr>cm_viewers := length (cm_sessions m)\<rparr>
      in if cm_viewers m1 = 0 \<and> cm_linger m1 = None
         then if cm_state m1 = CH_STOPPED then (m1, w)
              else case check_teardown_completion env m1 w of
                (m2, w2) \<Rightarrow>
                  if cm_producer m2 = None then (m2, w2)
                  else case check_teardown_completion env m2 w2 of (m3, w3) \<Rightarrow> (report_health m3, w3)
         else if cm_state m1 = CH_STOPPED then (m1, w)
         else case check_teardown_completion env m1 w of (m2, w2) \<Rightarrow> (report_health m2, w2))"

definition channel_tick :: "('w, 'z) channel_env_scheme \<Rightarrow> channel_manager \<Rightarrow> 'w \<Rightarrow> channel_manager \<times> 'w \<times> unit res" where
  "channel_tick env m w =
     (case check_teardown_completion env m w of
        (m1, w1) \<Rightarrow>
          (case cm_pending_fatal m1 of
             Some e \<Rightarrow> (m1\<lparr>cm_pending_fatal := None\<rparr>, w1, Inl e)
           | None \<Rightarrow> (m1, w1, Inr ())))"

text \<open>One round of \<^verbatim>\<open>_health_check_loop\<close>; it logs what the tick raises.\<close>

definition health_round :: "('w, 'z) channel_env_scheme \<Rightarrow> channel_manager \<Rightarrow> 'w \<Rightarrow> channel_manager \<times> 'w" where
  "health_round env m w =
     (case check_health env m w of
        (m1, w1) \<Rightarrow> (case channel_tick env m1 w1 of (m2, w2, _) \<Rightarrow> (m2, w2)))"

record channel_metrics =
  mx_active :: bool
  mx_viewers :: nat
  mx_producer :: string

definition populate_metrics_sample ::
  "('w, 'z) channel_env_scheme \<Rightarrow> channel_manager \<Rightarrow> 'w \<Rightarrow> channel_manager \<times> 'w \<times> channel_metrics" where
  "populate_metrics_sample env m w =
     (case check_teardown_completion env m w of
        (m1, w1) \<Rightarrow>
          (let n = length (cm_sessions m1);
               st = (case cm_producer m1 of None \<Rightarrow> ''stopped'' | Some p \<Rightarrow> status_value (bp_status p))
           in (m1, w1, \<lparr>mx_active = (0 < n \<or> st = ''running''), mx_viewers = n, mx_producer = st\<rparr>)))"

section \<open>Runs\<close>

datatype channel_event =
    TuneIn string "(string \<times> string) list option"
  | TuneOut string
  | LingerFires
  | RecoveryFires
  | HealthRound
  | ProducerTick rat
  | EngineEvent bool air_event
  | LateReport string
  | StopRequested
  | Reactivate
  | ReadMetrics

text \<open>
  A timer fires only while it is pending.  An engine event reaches the current producer, a late
  report comes from the session of a producer that was given up.
\<close>

fun run_channel :: "('w, 'z) channel_env_scheme \<Rightarrow> channel_event \<Rightarrow> channel_manager \<Rightarrow> 'w \<Rightarrow> channel_manager \<times> 'w" where
  "run_channel env (TuneIn sid info) m w = (case tune_in env sid info m w of (m', w', _) \<Rightarrow> (m', w'))"
| "run_channel env (TuneOut sid) m w = tune_out env sid m w"
| "run_channel env LingerFires m w = (if cm_linger m = None then (m, w) else linger_expire env m w)"
| "run_channel env RecoveryFires m w = (if cm_recovery m = None then (m, w) else attempt_recovery env m w)"
| "run_channel env HealthRound m w = health_round env m w"
| "run_channel env (ProducerTick dt) m w =
     (case cm_producer m of
        None \<Rightarrow> (m, w)
      | Some p \<Rightarrow> (case on_paced_tick env dt p w of (p', w', _) \<Rightarrow> (absorb p' m, w')))"
| "run_channel env (EngineEvent current ev) m w =
     (case cm_producer m of
        None \<Rightarrow> (m, w)
      | Some p \<Rightarrow> (case run_event env (Air current ev) p w of (p', w') \<Rightarrow> (absorb p' m, w')))"
| "run_channel env (LateReport reason) m w = (on_producer_session_end reason m, w)"
| "run_channel env StopRequested m w = director_stop_channel env m w"
| "run_channel env Reactivate m w = (reactivate m, w)"
| "run_channel env ReadMetrics m w = (case populate_metrics_sample env m w of (m', w', _) \<Rightarrow> (m', w'))"

inductive channel_step :: "('w, 'z) channel_env_scheme \<Rightarrow> channel_manager \<times> 'w \<Rightarrow> channel_manager \<times> 'w \<Rightarrow> bool" for env where
  step: "run_channel env ev m w = (m', w') \<Longrightarrow> channel_step env (m, w) (m', w')"

inductive channel_reachable :: "('w, 'z) channel_env_scheme \<Rightarrow> channel_manager \<times> 'w \<Rightarrow> channel_manager \<times> 'w \<Rightarrow> bool"
  for env where
  refl: "channel_reachable env s s"
| trans: "channel_reachable env s t \<Longrightarrow> channel_step env t u \<Longrightarrow> channel_reachable env s u"

inductive_cases channel_stepE: "channel_step env s t"


section \<open>The invariant of every run\<close>

definition channel_ok :: "('w, 'z) channel_env_scheme \<Rightarrow> channel_manager \<Rightarrow> bool" where
  "channel_ok env m \<longleftrightarrow> distinct (map fst (cm_sessions m)) \<and> cm_viewers m = length (cm_sessions m)
     \<and> (cm_linger m \<noteq> None \<longrightarrow> cm_viewers m = 0 \<and> cm_loop m)
     \<and> (\<forall>p. cm_producer m = Some p \<longrightarrow> feed_inv env p \<and> bp_reports p = [])
     \<and> length (cm_cache m) \<le> cache_max
     \<and> (\<forall>d. cm_recovery m = Some d \<longrightarrow> d \<in> {1, 2, 4, 8, 16})"

text \<open>What the operations of the manager that are not about viewers keep.\<close>

definition channel_keeps :: "('w, 'z) channel_env_scheme \<Rightarrow> channel_manager \<Rightarrow> channel_manager \<Rightarrow> bool" where
  "channel_keeps env m m' \<longleftrightarrow> channel_ok env m' \<and> cm_sessions m' = cm_sessions m \<and> cm_viewers m' = cm_viewers m
     \<and> cm_loop m' = cm_loop m \<and> (cm_linger m = None \<longrightarrow> cm_linger m' = None)"

lemma channel_keeps_trans: "channel_keeps env m q \<Longrightarrow> channel_keeps env q r \<Longrightarrow> channel_keeps env m r"
  by (simp add: channel_keeps_def)

lemma channel_keeps_refl: "channel_ok env m \<Longrightarrow> channel_keeps env m m"
  by (simp add: channel_keeps_def)

text \<open>Fields the invariant does not look at.\<close>

lemma channel_ok_frame [simp]:
  "channel_ok env (m\<lparr>cm_mode := x\<rparr>) = channel_ok env m"
  "channel_ok env (m\<lparr>cm_status := x\<rparr>) = channel_ok env m"
  "channel_ok env (m\<lparr>cm_started_at := t\<rparr>) = channel_ok env m"
  "channel_ok env (m\<lparr>cm_endpoint := e\<rparr>) = channel_ok env m"
  "channel_ok env (m\<lparr>cm_health := e\<rparr>) = channel_ok env m"
  "channel_ok env (m\<lparr>cm_teardown_started := q\<rparr>) = channel_ok env m"
  "channel_ok env (m\<lparr>cm_teardown_reason := e\<rparr>) = channel_ok env m"
  "channel_ok env (m\<lparr>cm_state := st\<rparr>) = channel_ok env m"
  "channel_ok env (m\<lparr>cm_pending_fatal := f\<rparr>) = channel_ok env m"
  "channel_ok env (m\<lparr>cm_attempts := n\<rparr>) = channel_ok env m"
  by (simp_all add: channel_ok_def)

lemma recovery_delay:
  assumes "Suc n \<le> recovery_max_attempts"
  shows "min (recovery_base_delay * 2 ^ n) 30 \<in> {1, 2, 4, 8, 16}"
proof -
  have "n \<in> {0, 1, 2, 3, 4}" using assms by (auto simp: recovery_max_attempts_def)
  then show ?thesis by (auto simp: recovery_base_delay_def)
qed

lemma session_end_update:
  "\<exists>a d. on_producer_session_end reason m = m\<lparr>cm_attempts := a, cm_recovery := d\<rparr>
    \<and> (d = cm_recovery m \<or> d \<in> Some ` {1, 2, 4, 8, 16})"
proof (cases "reason \<notin> {''stopped'', ''error''} \<or> cm_viewers m = 0 \<or> recovery_max_attempts < Suc (cm_attempts m)")
  case True
  let ?a = "cm_attempts (on_producer_session_end reason m)"
  have "on_producer_session_end reason m = m\<lparr>cm_attempts := ?a, cm_recovery := cm_recovery m\<rparr>"
    using True by (auto simp: on_producer_session_end_def Let_def)
  then show ?thesis by blast
next
  case False
  then have "on_producer_session_end reason m = m\<lparr>cm_attempts := Suc (cm_attempts m),
      cm_recovery := Some (min (recovery_base_delay * 2 ^ cm_attempts m) 30)\<rparr>"
    by (simp add: on_producer_session_end_def Let_def)
  moreover have "Some (min (recovery_base_delay * 2 ^ cm_attempts m) 30) \<in> Some ` {1, 2, 4, 8, 16}"
    using recovery_delay [of "cm_attempts m"] False by (intro imageI) simp
  ultimately show ?thesis by blast
qed

lemma session_ends_update:
  "\<exists>a d. fold on_producer_session_end rs m = m\<lparr>cm_attempts := a, cm_recovery := d\<rparr>
    \<and> (d = cm_recovery m \<or> d \<in> Some ` {1, 2, 4, 8, 16})"
proof (induction rs arbitrary: m)
  case Nil
  show ?case by (intro exI [of _ "cm_attempts m"] exI [of _ "cm_recovery m"]) simp
next
  case (Cons r rs)
  obtain a d where 1: "on_producer_session_end r m = m\<lparr>cm_attempts := a, cm_recovery := d\<rparr>"
    "d = cm_recovery m \<or> d \<in> Some ` {1, 2, 4, 8, 16}" using session_end_update [of r m] by blast
  obtain a' d' where 2: "fold on_producer_session_end rs (m\<lparr>cm_attempts := a, cm_recovery := d\<rparr>)
      = m\<lparr>cm_attempts := a', cm_recovery := d'\<rparr>" "d' = d \<or> d' \<in> Some ` {1, 2, 4, 8, 16}"
    using Cons.IH [of "m\<lparr>cm_attempts := a, cm_recovery := d\<rparr>"] by auto
  show ?case by (rule exI [of _ a'], rule exI [of _ d']) (use 1 2 in auto)
qed

lemma absorb_update:
  "\<exists>a d. absorb p m = m\<lparr>cm_producer := Some (p\<lparr>bp_reports := []\<rparr>), cm_attempts := a, cm_recovery := d\<rparr>
    \<and> (d = cm_recovery m \<or> d \<in> Some ` {1, 2, 4, 8, 16})"
proof -
  obtain a d where "absorb p m = m\<lparr>cm_producer := Some (p\<lparr>bp_reports := []\<rparr>), cm_attempts := a, cm_recovery := d\<rparr>"
    "d = cm_recovery m \<or> d \<in> Some ` {1, 2, 4, 8, 16}"
    using session_ends_update [of "bp_reports p" "m\<lparr>cm_producer := Some (p\<lparr>bp_reports := []\<rparr>)\<rparr>"]
    unfolding absorb_def by auto
  then show ?thesis by blast
qed

lemma absorb_fields [simp]:
  "cm_sessions (absorb p m) = cm_sessions m" "cm_viewers (absorb p m) = cm_viewers m" "cm_linger (absorb p m) = cm_linger m"
  "cm_cache (absorb p m) = cm_cache m" "cm_loop (absorb p m) = cm_loop m" "cm_state (absorb p m) = cm_state m"
  "cm_producer (absorb p m) = Some (p\<lparr>bp_reports := []\<rparr>)" "cm_teardown_started (absorb p m) = cm_teardown_started m"
  "cm_blockplan (absorb p m) = cm_blockplan m" "cm_director_stops (absorb p m) = cm_director_stops m"
  "cm_status (absorb p m) = cm_status m" "cm_endpoint (absorb p m) = cm_endpoint m" "cm_mode (absorb p m) = cm_mode m"
  "cm_channel (absorb p m) = cm_channel m" "cm_director_config (absorb p m) = cm_director_config m"
  "cm_pending_fatal (absorb p m) = cm_pending_fatal m"
  using absorb_update [of p m] by auto

lemma feed_inv_reports [simp]: "feed_inv env (p\<lparr>bp_reports := rs\<rparr>) = feed_inv env p"
  by (simp add: feed_inv_defs)

lemma feed_inv_cache: "feed_inv env p \<Longrightarrow> length (bp_cache p) \<le> cache_max"
  by (simp add: feed_inv_defs)

lemma absorb_keeps:
  assumes "channel_ok env m" "feed_inv env p"
  shows "channel_keeps env m (absorb p m)"
proof -
  obtain a d where ab: "absorb p m = m\<lparr>cm_producer := Some (p\<lparr>bp_reports := []\<rparr>), cm_attempts := a, cm_recovery := d\<rparr>"
    "d = cm_recovery m \<or> d \<in> Some ` {1, 2, 4, 8, 16}" using absorb_update by blast
  have "channel_ok env (absorb p m)" using assms ab(2) unfolding ab(1) channel_ok_def by auto
  then show ?thesis by (simp add: channel_keeps_def)
qed

lemma drop_keeps: "channel_ok env m \<Longrightarrow> channel_keeps env m (drop_producer m)"
  by (auto simp: drop_producer_def channel_keeps_def channel_ok_def feed_inv_cache split: option.splits)

lemma drop_fields [simp]:
  "cm_sessions (drop_producer m) = cm_sessions m" "cm_viewers (drop_producer m) = cm_viewers m"
  "cm_linger (drop_producer m) = cm_linger m" "cm_producer (drop_producer m) = None" "cm_loop (drop_producer m) = cm_loop m"
  "cm_recovery (drop_producer m) = cm_recovery m" "cm_teardown_started (drop_producer m) = cm_teardown_started m"
  "cm_blockplan (drop_producer m) = cm_blockplan m" "cm_state (drop_producer m) = cm_state m"
  "cm_attempts (drop_producer m) = cm_attempts m" "cm_channel (drop_producer m) = cm_channel m"
  "cm_director_stops (drop_producer m) = cm_director_stops m" "cm_director_config (drop_producer m) = cm_director_config m"
  by (simp_all add: drop_producer_def)

lemma stop_active_keeps:
  assumes "channel_ok env m" "stop_active env m w = (m', w')"
  shows "channel_keeps env m m'"
proof (cases "cm_producer m")
  case (Some p)
  obtain p' w1 where s: "producer_stop env p w = (p', w1)" by fastforce
  have "feed_inv env p" using assms(1) Some by (simp add: channel_ok_def)
  from stop_result [OF this s] have "channel_keeps env m (absorb p' m)" using absorb_keeps [OF assms(1)] by simp
  then show ?thesis using assms(2) s Some by (simp add: stop_active_def)
qed (use assms channel_keeps_refl in \<open>simp add: stop_active_def\<close>)

lemma finalize_keeps:
  assumes "channel_ok env m" "finalize_teardown env c m w = (m', w')"
  shows "channel_keeps env m m' \<and> cm_producer m' = None"
proof -
  define w1 where "w1 = (if cm_teardown_started m = None then w else fst (fe_now env w))"
  obtain m1 w2 where s: "stop_active env m w1 = (m1, w2)" by fastforce
  have k1: "channel_keeps env m m1" by (rule stop_active_keeps [OF assms(1) s])
  have d: "channel_keeps env m (drop_producer q)" if "channel_keeps env m q" for q
    using that drop_keeps channel_keeps_trans by (auto simp: channel_keeps_def)
  have "m' = (drop_producer (if c then m else m1))\<lparr>cm_status := ''stopped'', cm_endpoint := None,
      cm_teardown_started := None, cm_teardown_reason := None\<rparr>"
    using assms(2) s by (cases c) (simp_all add: finalize_teardown_def w1_def [symmetric])
  moreover have "channel_keeps env m (drop_producer (if c then m else m1))"
    using d [OF k1] d [OF channel_keeps_refl [OF assms(1)]] by simp
  ultimately show ?thesis by (simp add: channel_keeps_def)
qed

lemma check_teardown_keeps:
  assumes "channel_ok env m" "check_teardown_completion env m w = (m', w')"
  shows "channel_keeps env m m'"
  using assms(2) channel_keeps_refl [OF assms(1)]
  by (auto simp: check_teardown_completion_def split: if_splits option.splits dest!: finalize_keeps [OF assms(1)])

lemma request_teardown_inv: "feed_inv env p \<Longrightarrow> feed_inv env (request_teardown r t p) \<and> bp_reports (request_teardown r t p) = bp_reports p"
  by (simp add: request_teardown_def)


lemma stop_idle_keeps:
  assumes "channel_ok env m" "stop_producer_if_idle env m w = (m', w')"
  shows "channel_keeps env m m'"
proof -
  obtain m1 w1 where c: "check_teardown_completion env m w = (m1, w1)" by fastforce
  have k: "channel_keeps env m m1" by (rule check_teardown_keeps [OF assms(1) c])
  show ?thesis
  proof (cases "cm_viewers m1 = 0")
    case True
    show ?thesis
    proof (cases "cm_producer m1")
      case None
      then show ?thesis using assms(2) c True k by (auto simp: stop_producer_if_idle_def channel_keeps_def)
    next
      case (Some p)
      obtain w2 now where n: "fe_now env w1 = (w2, now)" by fastforce
      let ?p = "request_teardown ''viewer_inactive'' (Some teardown_timeout) p"
      have "feed_inv env ?p" "bp_reports ?p = []"
        using k Some request_teardown_inv [of env p] by (auto simp: channel_keeps_def channel_ok_def)
      then have "channel_keeps env m (m1\<lparr>cm_teardown_started := t, cm_teardown_reason := r, cm_producer := Some ?p\<rparr>)" for t r
        using k by (auto simp: channel_keeps_def channel_ok_def)
      then show ?thesis using assms(2) c True Some n k by (auto simp: stop_producer_if_idle_def split: if_splits)
    qed
  next
    case False
    then have "m' = m1" using assms(2) c by (simp add: stop_producer_if_idle_def)
    then show ?thesis using k by simp
  qed
qed

lemma stop_channel_keeps:
  assumes "channel_ok env m" "stop_channel env m w = (m', w')"
  shows "channel_keeps env m m' \<and> cm_linger m' = None"
proof -
  let ?m = "(cancel_linger m)\<lparr>cm_attempts := 0, cm_recovery := None, cm_state := CH_STOPPED, cm_teardown_reason := None,
     cm_pending_fatal := None\<rparr>"
  have "channel_ok env ?m" using assms(1) by (simp add: cancel_linger_def channel_ok_def)
  from stop_idle_keeps [OF this assms(2) [unfolded stop_channel_def]]
  show ?thesis by (simp add: channel_keeps_def cancel_linger_def)
qed

lemma director_stop_keeps:
  assumes "channel_ok env m" "director_stop_channel env m w = (m', w')"
  shows "channel_keeps env m m' \<and> cm_linger m' = None \<and> cm_producer m' = None"
proof -
  obtain m1 w1 where s: "stop_channel env m w = (m1, w1)" by fastforce
  note k1 = stop_channel_keeps [OF assms(1) s]
  obtain m2 w2 where a: "stop_active env m1 w1 = (m2, w2)" by fastforce
  have k2: "channel_keeps env m1 m2" using k1 a by (intro stop_active_keeps) (simp_all add: channel_keeps_def)
  then have k3: "channel_keeps env m2 (drop_producer m2)" by (intro drop_keeps) (simp add: channel_keeps_def)
  have "m' = m1 \<and> cm_producer m1 = None \<or> m' = drop_producer m2"
    using assms(2) s a by (auto simp: director_stop_channel_def split: if_splits)
  then show ?thesis using k1 k2 k3 by (auto simp: channel_keeps_def)
qed

lemma end_linger_keeps:
  assumes "channel_ok env m" "end_linger env m w = (m', w')"
  shows "channel_keeps env m m'"
proof (cases "cm_director_stops m")
  case True
  then show ?thesis using assms director_stop_keeps [OF assms(1)] by (simp add: end_linger_def)
next
  case False
  let ?m = "m\<lparr>cm_state := CH_STOPPED\<rparr>"
  have "stop_producer_if_idle env ?m w = (m', w')" using assms(2) False by (simp add: end_linger_def)
  from stop_idle_keeps [OF _ this] assms(1) have "channel_keeps env ?m m'" by simp
  then show ?thesis by (simp add: channel_keeps_def)
qed

lemma launch_keeps:
  assumes "channel_ok env m" "feed_inv env p" "bp_reports p = []" "launch_producer env p m w = (m', w', r)"
  shows "channel_keeps env m m'"
proof -
  obtain w1 t where n: "fe_now env w = (w1, t)" by fastforce
  obtain w2 q where b: "fe_block_at env w1 (to_epoch_ms t) = (w2, q)" by fastforce
  have put: "channel_keeps env m (m\<lparr>cm_producer := Some p\<rparr>)" using assms(1-3) by (auto simp: channel_keeps_def channel_ok_def)
  consider e where "q = Inl e" | "q = Inr None" | x where "q = Inr (Some x)" by (metis obj_sumE not_Some_eq)
  then show ?thesis
  proof cases
    case 1
    then show ?thesis using assms(4) n b put by (simp add: launch_producer_def Let_def)
  next
    case 2
    let ?m = "m\<lparr>cm_producer := Some p, cm_status := ''error''\<rparr>"
    have "channel_keeps env m ?m" using put by (simp add: channel_keeps_def)
    moreover have "channel_keeps env ?m (drop_producer ?m)" using put by (intro drop_keeps) (simp add: channel_keeps_def)
    ultimately show ?thesis using assms(4) n b 2 channel_keeps_trans by (auto simp: launch_producer_def Let_def)
  next
    case (3 x)
    obtain p' w3 ok where s: "producer_start env t (to_epoch_ms t - sb_start x) p w2 = (p', w3, ok)" by (metis prod_cases3)
    have k: "channel_keeps env m (absorb p' m)"
      using start_result [OF assms(2) s] absorb_keeps [OF assms(1)] by simp
    let ?m = "(absorb p' m)\<lparr>cm_status := ''error''\<rparr>"
    have "channel_keeps env ?m (drop_producer ?m)" using k by (intro drop_keeps) (simp add: channel_keeps_def)
    then have "channel_keeps env m (drop_producer ?m)" using k by (simp add: channel_keeps_def)
    then show ?thesis using assms(4) n b 3 s k
      by (auto simp: launch_producer_def Let_def channel_keeps_def split: if_splits)
  qed
qed

lemma init_fields:
  "bp_reports (init_producer c n cfg hs hc cache) = []" "\<not> bp_started (init_producer c n cfg hs hc cache)"
  "bp_has_schedule (init_producer c n cfg hs hc cache) = hs" "bp_cache (init_producer c n cfg hs hc cache) = cache"
  by (simp_all add: init_producer_def)

lemma build_ok:
  assumes "channel_ok env m" "build_producer_for_mode mode m = Inr q"
  shows "\<exists>p. q = Some p \<and> feed_inv env p \<and> bp_reports p = [] \<and> \<not> bp_started p \<and> bp_has_schedule p"
  using assms by (auto simp: build_producer_for_mode_def channel_ok_def init_fields init_inv split: if_splits)

lemma ensure_keeps:
  assumes "channel_ok env m" "ensure_producer_running env m w = (m', w', r)"
  shows "channel_keeps env m m'"
proof -
  obtain w1 s where md: "ce_mode env w = (w1, s)" by fastforce
  let ?m1 = "m\<lparr>cm_mode := channel_mode s\<rparr>"
  have k1: "channel_keeps env m ?m1" using assms(1) by (simp add: channel_keeps_def)
  obtain m2 w2 where st: "stop_active env ?m1 w1 = (m2, w2)" by fastforce
  have "channel_keeps env ?m1 m2" using assms(1) st by (intro stop_active_keeps) simp
  then have k2: "channel_keeps env m m2" using k1 channel_keeps_trans by blast
  then have "channel_keeps env m2 (drop_producer m2)" by (intro drop_keeps) (simp add: channel_keeps_def)
  then have k3: "channel_keeps env m (drop_producer m2)" using k2 channel_keeps_trans by blast
  then have ok3: "channel_ok env (drop_producer m2)" by (simp add: channel_keeps_def)
  show ?thesis
  proof (cases "healthy (channel_mode s) ?m1")
    case True
    then show ?thesis using assms(2) md k1 by (simp add: ensure_producer_running_def get_current_mode_def)
  next
    case False
    then have e: "(case build_producer_for_mode (channel_mode s) (drop_producer m2) of
        Inl e \<Rightarrow> (drop_producer m2, w2, Inl e)
      | Inr None \<Rightarrow> ((drop_producer m2)\<lparr>cm_status := ''error''\<rparr>, w2, Inl ProducerStartupError)
      | Inr (Some p) \<Rightarrow> launch_producer env p (drop_producer m2) w2) = (m', w', r)"
      using assms(2) md st by (simp add: ensure_producer_running_def get_current_mode_def Let_def)
    show ?thesis
    proof (cases "build_producer_for_mode (channel_mode s) (drop_producer m2)")
      case (Inl x)
      then show ?thesis using e k3 by simp
    next
      case (Inr q)
      then obtain p where p: "q = Some p" "feed_inv env p" "bp_reports p = []" using build_ok [OF ok3] by blast
      have "channel_keeps env (drop_producer m2) m'" by (rule launch_keeps [OF ok3 p(2,3)]) (use e Inr p(1) in simp)
      then show ?thesis using k3 channel_keeps_trans by blast
    qed
  qed
qed

lemma start_linger_keeps:
  assumes "channel_ok env m" "cm_viewers m = 0" "start_linger env m w = (m', w')"
  shows "channel_ok env m' \<and> cm_sessions m' = cm_sessions m \<and> cm_loop m' = cm_loop m"
proof (cases "cm_linger m \<noteq> None \<or> cm_loop m")
  case True
  then show ?thesis using assms by (auto simp: start_linger_def channel_ok_def split: if_splits prod.splits)
next
  case False
  then have "end_linger env m w = (m', w')" using assms(3) by (simp add: start_linger_def)
  from end_linger_keeps [OF assms(1) this] show ?thesis by (simp add: channel_keeps_def)
qed

lemma note_session_keys:
  "distinct (map fst ss) \<Longrightarrow> distinct (map fst (note_session c sid info now ss))"
  "set (map fst (note_session c sid info now ss)) = insert sid (set (map fst ss))"
  by (auto simp: note_session_def keys_dict_set distinct_dict_set simp del: set_map split: option.splits)

lemma surface_keeps [simp]: "channel_ok env (surface_endpoint m) = channel_ok env m"
  "cm_sessions (surface_endpoint m) = cm_sessions m" "cm_producer (surface_endpoint m) = cm_producer m"
  "cm_viewers (surface_endpoint m) = cm_viewers m"
  by (simp_all add: surface_endpoint_def split: option.splits)

lemma viewer_join_ok:
  assumes "channel_ok env m" "viewer_join env sid info m w = (m', w', r)"
  shows "channel_ok env m' \<and> cm_sessions m' = note_session (cm_channel m) sid info (snd (fe_now env w)) (cm_sessions m)"
proof -
  obtain w1 now where n: "fe_now env w = (w1, now)" by fastforce
  define ss where "ss = note_session (cm_channel m) sid info now (cm_sessions m)"
  let ?m1 = "m\<lparr>cm_sessions := ss, cm_viewers := length ss\<rparr>"
  let ?m2 = "(cancel_linger ?m1)\<lparr>cm_state := CH_RUNNING\<rparr>"
  have d: "distinct (map fst ss)" using assms(1) note_session_keys by (simp add: ss_def channel_ok_def)
  have "ss \<noteq> []" using note_session_keys(2) [of "cm_channel m" sid info now "cm_sessions m"] by (auto simp: ss_def)
  moreover have "cm_viewers m \<noteq> 0 \<or> length ss = 1"
  proof (cases "cm_viewers m = 0")
    case True
    then have "cm_sessions m = []" using assms(1) by (simp add: channel_ok_def)
    then show ?thesis by (simp add: ss_def note_session_def)
  qed simp
  ultimately have first: "cm_viewers m = 0 \<longleftrightarrow> cm_viewers m = 0 \<and> length ss = 1" by blast
  have ok2: "channel_ok env ?m2" using assms(1) d by (simp add: channel_ok_def cancel_linger_def)
  show ?thesis
  proof (cases "cm_viewers m = 0")
    case True
    obtain m3 w3 q where f: "on_first_viewer env ?m2 w1 = (m3, w3, q)" by (metis prod_cases3)
    have "channel_keeps env ?m2 m3" using f ensure_keeps [OF ok2] channel_keeps_refl [OF ok2]
      by (auto simp: on_first_viewer_def split: if_splits)
    moreover have "m' = surface_endpoint m3 \<or> m' = m3" using assms(2) n f True first
      by (cases q) (auto simp: viewer_join_def Let_def ss_def [symmetric])
    ultimately show ?thesis by (auto simp: channel_keeps_def n ss_def cancel_linger_def)
  next
    case False
    then have "m' = surface_endpoint ?m1" using assms(2) n by (simp add: viewer_join_def Let_def ss_def)
    moreover have "channel_ok env ?m1" using assms(1) d False by (auto simp: channel_ok_def)
    ultimately show ?thesis by (simp add: n ss_def)
  qed
qed

lemma viewer_leave_ok:
  assumes "channel_ok env m" "viewer_leave env sid m w = (m', w')"
  shows "channel_ok env m' \<and> cm_sessions m' = filter (\<lambda>p. fst p \<noteq> sid) (cm_sessions m)"
proof -
  define ss where "ss = filter (\<lambda>p. fst p \<noteq> sid) (cm_sessions m)"
  let ?m1 = "m\<lparr>cm_sessions := ss, cm_viewers := length ss\<rparr>"
  have d: "distinct (map fst ss)" using assms(1) by (simp add: ss_def channel_ok_def distinct_map_filter)
  have le: "length ss \<le> length (cm_sessions m)" by (simp add: ss_def)
  have ok1: "channel_ok env ?m1" using assms(1) d le by (auto simp: channel_ok_def)
  show ?thesis
  proof (cases "cm_viewers m = 1 \<and> length ss = 0")
    case True
    then have "start_linger env ?m1 w = (m', w')"
      using assms(2) by (simp add: viewer_leave_def Let_def ss_def [symmetric] on_last_viewer_def)
    from start_linger_keeps [OF ok1 _ this] True show ?thesis by (simp add: ss_def)
  next
    case False
    then have "m' = ?m1" using assms(2) by (auto simp: viewer_leave_def Let_def ss_def [symmetric] split: if_splits)
    then show ?thesis using ok1 by (simp add: ss_def)
  qed
qed


lemma attempt_recovery_keeps:
  assumes "channel_ok env m" "attempt_recovery env m w = (m', w')"
  shows "channel_keeps env m m'"
proof -
  let ?m1 = "m\<lparr>cm_recovery := None\<rparr>"
  have ok1: "channel_ok env ?m1" using assms(1) by (auto simp: channel_ok_def)
  show ?thesis
  proof (cases "cm_viewers m = 0")
    case True
    then show ?thesis using assms(2) ok1 by (auto simp: attempt_recovery_def channel_keeps_def)
  next
    case False
    obtain r where e: "ensure_producer_running env ?m1 w = (m', w', r)"
      using assms(2) False by (auto simp: attempt_recovery_def split: prod.splits)
    from ensure_keeps [OF ok1 e] show ?thesis by (simp add: channel_keeps_def)
  qed
qed

lemma report_health_keeps: "channel_ok env m \<Longrightarrow> channel_keeps env m (report_health m)"
  by (auto simp: report_health_def channel_keeps_def split: option.splits)

lemma check_health_keeps:
  assumes "channel_ok env m" "check_health env m w = (m', w')"
  shows "channel_keeps env m m'"
proof -
  have m1: "m\<lparr>cm_viewers := length (cm_sessions m)\<rparr> = m" using assms(1) by (simp add: channel_ok_def)
  obtain m2 w2 where a: "check_teardown_completion env m w = (m2, w2)" by fastforce
  obtain m3 w3 where b: "check_teardown_completion env m2 w2 = (m3, w3)" by fastforce
  have k2: "channel_keeps env m m2" by (rule check_teardown_keeps [OF assms(1) a])
  then have k3: "channel_keeps env m m3" using check_teardown_keeps [OF _ b] channel_keeps_trans by (auto simp: channel_keeps_def)
  have "m' = m \<or> m' = m2 \<or> m' = report_health m2 \<or> m' = report_health m3"
    using assms(2) unfolding check_health_def Let_def m1 by (auto simp: a b split: if_splits)
  moreover have "channel_keeps env m (report_health q)" if "channel_keeps env m q" for q
    using that report_health_keeps channel_keeps_trans by (auto simp: channel_keeps_def)
  ultimately show ?thesis using k2 k3 channel_keeps_refl [OF assms(1)] by blast
qed

lemma channel_tick_keeps:
  assumes "channel_ok env m" "channel_tick env m w = (m', w', r)"
  shows "channel_keeps env m m'"
proof -
  obtain m1 w1 where a: "check_teardown_completion env m w = (m1, w1)" by fastforce
  have "channel_keeps env m m1" by (rule check_teardown_keeps [OF assms(1) a])
  moreover have "m' = m1 \<or> m' = m1\<lparr>cm_pending_fatal := None\<rparr>"
    using assms(2) by (auto simp: channel_tick_def a split: option.splits)
  ultimately show ?thesis by (auto simp: channel_keeps_def)
qed

lemma health_round_keeps:
  assumes "channel_ok env m" "health_round env m w = (m', w')"
  shows "channel_keeps env m m'"
proof -
  obtain m1 w1 where a: "check_health env m w = (m1, w1)" by fastforce
  obtain m2 w2 r where b: "channel_tick env m1 w1 = (m2, w2, r)" by (metis prod_cases3)
  have k1: "channel_keeps env m m1" by (rule check_health_keeps [OF assms(1) a])
  then have "channel_keeps env m1 m2" using b by (intro channel_tick_keeps) (simp_all add: channel_keeps_def)
  then show ?thesis using assms(2) a b k1 channel_keeps_trans by (auto simp: health_round_def)
qed

lemma session_end_keeps: "channel_ok env m \<Longrightarrow> channel_keeps env m (on_producer_session_end reason m)"
proof -
  assume ok: "channel_ok env m"
  obtain a d where u: "on_producer_session_end reason m = m\<lparr>cm_attempts := a, cm_recovery := d\<rparr>"
    "d = cm_recovery m \<or> d \<in> Some ` {1, 2, 4, 8, 16}" using session_end_update by blast
  have "channel_ok env (m\<lparr>cm_attempts := a, cm_recovery := d\<rparr>)" using ok u(2) unfolding channel_ok_def by auto
  then show ?thesis unfolding u(1) by (simp add: channel_keeps_def)
qed

lemma run_channel_inv:
  assumes ok: "channel_ok env m" and run: "run_channel env ev m w = (m', w')"
  shows "channel_ok env m'"
proof (cases ev)
  case (TuneIn sid info)
  then obtain r where "viewer_join env sid (get_or info []) m w = (m', w', r)"
    using run by (auto simp: tune_in_def split: prod.splits)
  then show ?thesis using viewer_join_ok [OF ok] by blast
next
  case (TuneOut sid)
  then show ?thesis using viewer_leave_ok [OF ok, of sid w] run by (simp add: tune_out_def)
next
  case LingerFires
  have ok1: "channel_ok env (m\<lparr>cm_linger := None\<rparr>)" using ok by (simp add: channel_ok_def)
  then show ?thesis using run LingerFires ok end_linger_keeps [OF ok1]
    by (auto simp: linger_expire_def Let_def channel_keeps_def split: if_splits)
next
  case RecoveryFires
  then show ?thesis using run ok attempt_recovery_keeps [OF ok, of w m' w'] by (auto simp: channel_keeps_def split: if_splits)
next
  case HealthRound
  then show ?thesis using run health_round_keeps [OF ok, of w m' w'] by (simp add: channel_keeps_def)
next
  case (ProducerTick dt)
  show ?thesis
  proof (cases "cm_producer m")
    case (Some p)
    obtain p' w1 r where t: "on_paced_tick env dt p w = (p', w1, r)" by (metis prod_cases3)
    have "feed_inv env p'" using on_paced_tick_inv [OF _ t] ok Some by (simp add: channel_ok_def)
    then show ?thesis using run ProducerTick Some t absorb_keeps [OF ok] by (auto simp: channel_keeps_def)
  qed (use run ProducerTick ok in simp)
next
  case (EngineEvent c e)
  show ?thesis
  proof (cases "cm_producer m")
    case (Some p)
    obtain p' w1 where t: "run_event env (Air c e) p w = (p', w1)" by fastforce
    have "feed_inv env p'" using run_event_inv [OF _ t] ok Some by (simp add: channel_ok_def)
    moreover have "m' = absorb p' m" using run EngineEvent Some t by (simp del: run_event.simps)
    ultimately show ?thesis using absorb_keeps [OF ok] by (auto simp: channel_keeps_def)
  qed (use run EngineEvent ok in simp)
next
  case (LateReport reason)
  then show ?thesis using run session_end_keeps [OF ok] by (auto simp: channel_keeps_def)
next
  case StopRequested
  then show ?thesis using run director_stop_keeps [OF ok, of w m' w'] by (simp add: channel_keeps_def)
next
  case Reactivate
  then show ?thesis using run ok by (auto simp: reactivate_def split: if_splits)
next
  case ReadMetrics
  then obtain r where "populate_metrics_sample env m w = (m', w', r)" using run by (auto split: prod.splits)
  then have "check_teardown_completion env m w = (m', w')"
    by (auto simp: populate_metrics_sample_def Let_def split: prod.splits)
  from check_teardown_keeps [OF ok this] show ?thesis by (simp add: channel_keeps_def)
qed

lemma new_manager_ok: "length cache \<le> cache_max \<Longrightarrow> channel_ok env (new_manager c loop stops config cache)"
  by (simp add: new_manager_def channel_ok_def)

lemma channel_reachable_ok: "channel_reachable env s t \<Longrightarrow> channel_ok env (fst s) \<Longrightarrow> channel_ok env (fst t)"
  by (induction rule: channel_reachable.induct) (auto elim!: channel_stepE dest: run_channel_inv)

end
