(* ===== verification/Channel_Control.thy ===== *)
theory Channel_Control
  imports Channel_Manager
begin

text \<open>
  What the channel manager guarantees: viewers are counted exactly in every run, the first one puts
  the channel on air and the others share it, a viewer who returns during the linger finds the
  channel running, the end of the linger gives everything up, and a failed session is restarted.
  The last theorems delimit that: a channel that has lost its producer without a pending recovery
  stays dark as long as somebody watches, and a viewer who joins between the stop of a channel and
  the next health check loses the new producer to the old teardown.
\<close>

section \<open>A run of several events\<close>

fun run_channels :: "('w, 'z) channel_env_scheme \<Rightarrow> channel_event list \<Rightarrow> channel_manager \<Rightarrow> 'w \<Rightarrow> channel_manager \<times> 'w" where
  "run_channels env [] m w = (m, w)"
| "run_channels env (e # es) m w = (case run_channel env e m w of (m', w') \<Rightarrow> run_channels env es m' w')"

text \<open>Somebody watches after every event, and no producer given up earlier reports a failure.\<close>

fun watched :: "('w, 'z) channel_env_scheme \<Rightarrow> channel_event list \<Rightarrow> channel_manager \<Rightarrow> 'w \<Rightarrow> bool" where
  "watched env [] m w \<longleftrightarrow> True"
| "watched env (e # es) m w \<longleftrightarrow> (\<forall>reason. e \<noteq> LateReport reason)
     \<and> (case run_channel env e m w of (m', w') \<Rightarrow> 1 \<le> cm_viewers m' \<and> watched env es m' w')"

section \<open>Counting viewers\<close>

text \<open>
  C10. In every run of a channel, whatever viewers, timers, engine and health loop do, the viewer
  count is the number of open sessions, which have distinct identifiers; a linger timer is pending
  only while nobody watches; the producer satisfies the limits and the history of its feeding; and a
  pending recovery waits 1, 2, 4, 8 or 16 seconds.
\<close>

theorem viewers_are_counted:
  assumes "channel_reachable env (new_manager c loop stops config cache, w) (m, w')" and "length cache \<le> cache_max"
  shows "cm_viewers m = length (cm_sessions m) \<and> distinct (map fst (cm_sessions m))
    \<and> (cm_linger m \<noteq> None \<longrightarrow> cm_viewers m = 0)
    \<and> (\<forall>p. cm_producer m = Some p \<longrightarrow> feed_inv env p \<and> bp_reports p = [])
    \<and> (\<forall>d. cm_recovery m = Some d \<longrightarrow> d \<in> {1, 2, 4, 8, 16})"
proof -
  have "channel_ok env m"
    using channel_reachable_ok [OF assms(1)] new_manager_ok [OF assms(2), of env c loop stops config] by simp
  then show ?thesis unfolding channel_ok_def by auto
qed

section \<open>Going on air\<close>

lemma started_status:
  assumes "producer_start env t jip p w = (p', w', True)" "\<not> bp_started p"
  shows "bp_status p' = PS_RUNNING \<and> td_active p' = td_active p \<and> bp_output p' = Some (bp_stream p)
    \<and> producer_health p' = ''running'' \<and> length (sent_blocks p') = 2"
proof -
  let ?p0 = "p\<lparr>bp_start_count := Suc (bp_start_count p)\<rparr>"
  obtain p1 w1 r where b: "start_body env t jip ?p0 w = (p1, w1, r)" by (metis prod_cases3)
  then obtain u where r: "r = Inr u" "p' = p1"
    using assms by (cases r) (auto simp: producer_start_def split: prod.splits)
  obtain s a c q where q: "p1 = mark_started a c t q" "start_frame ?p0 q" "bp_session q = Some s"
    "s = new_session\<lparr>se_process := True, se_running := True, se_seeded := 2, se_sent := [a, c]\<rparr>"
    using start_body_success [OF b [unfolded r(1)]] by auto
  then show ?thesis using r(2)
    by (simp add: mark_started_def start_frame_def sent_blocks_def producer_health_def)
qed

lemma health_reports [simp]: "producer_health (p\<lparr>bp_reports := rs\<rparr>) = producer_health p"
  by (simp add: producer_health_def)

lemma sent_reports [simp]: "sent_blocks (p\<lparr>bp_reports := rs\<rparr>) = sent_blocks p"
  by (simp add: sent_blocks_def)

text \<open>The producer of a channel on air.\<close>

definition on_air_with :: "string \<Rightarrow> channel_manager \<Rightarrow> bool" where
  "on_air_with stream m \<longleftrightarrow> (\<exists>p. cm_producer m = Some p \<and> producer_health p = ''running'' \<and> bp_status p = PS_RUNNING
     \<and> \<not> td_active p \<and> length (sent_blocks p) = 2 \<and> bp_output p = Some stream \<and> cm_endpoint m = Some stream)"

lemma launch_success:
  assumes "launch_producer env p m w = (m', w', Inr u)" "\<not> bp_started p" "\<not> td_active p"
  shows "on_air_with (bp_stream p) m' \<and> cm_status m' = ''running'' \<and> cm_attempts m' = 0
    \<and> cm_teardown_started m' = cm_teardown_started m \<and> cm_state m' = cm_state m"
proof -
  obtain w1 t where n: "fe_now env w = (w1, t)" by fastforce
  obtain w2 q where b: "fe_block_at env w1 (to_epoch_ms t) = (w2, q)" by fastforce
  have "\<exists>x. q = Inr (Some x)" using assms(1) n b
    by (cases q) (auto simp: launch_producer_def Let_def split: option.splits)
  then obtain x where x: "q = Inr (Some x)" by blast
  obtain p' w3 ok where s: "producer_start env t (to_epoch_ms t - sb_start x) p w2 = (p', w3, ok)" by (metis prod_cases3)
  have ok: "ok" using assms(1) n b x s by (auto simp: launch_producer_def Let_def split: if_splits)
  then have m': "m' = (absorb p' m)\<lparr>cm_status := ''running'', cm_started_at := Some t, cm_endpoint := bp_output p',
      cm_attempts := 0\<rparr>"
    using assms(1) n b x s by (auto simp: launch_producer_def Let_def)
  have "producer_start env t (to_epoch_ms t - sb_start x) p w2 = (p', w3, True)" using s ok by simp
  from started_status [OF this assms(2)] show ?thesis using assms(3) by (simp add: m' on_air_with_def)
qed

text \<open>
  What it takes for the blocks at the start to fit their messages: the block on air whenever the clock is
  read, and the block after it, are of ordinary size, and so is the time itself.
\<close>

definition schedule_fits :: "('w, 'z) feed_env_scheme \<Rightarrow> bool" where
  "schedule_fits env \<longleftrightarrow> (\<forall>w. let t = to_epoch_ms (snd (fe_now env w)) in t < 2 ^ 62
     \<and> (\<forall>v v' x. fe_block_at env v t = (v', Inr (Some x)) \<longrightarrow> fits_wire x
         \<and> (\<forall>u u' y. fe_block_at env u (sb_end x) = (u', Inr (Some y)) \<longrightarrow> fits_wire y)))"

lemma launch_total:
  assumes "\<not> bp_started p" "bp_has_schedule p"
    and "\<And>w. 0 < to_epoch_ms (snd (fe_now env w))"
    and "\<And>w. \<exists>w'. fe_setup env w = (w', True)" "\<And>w. \<exists>w'. ae_launch env w = (w', True)"
    and "\<And>w pa pb j d. \<exists>w'. ae_seed env w pa pb j d = (w', True)"
    and "\<And>w t. \<exists>w' x. fe_block_at env w t = (w', Inr (Some x))"
    and "\<And>w w' v v' t x y. fe_block_at env w t = (w', Inr (Some x)) \<Longrightarrow>
      fe_block_at env v (sb_end x) = (v', Inr (Some y)) \<Longrightarrow> sb_start y = sb_end x"
    and fits: "schedule_fits env" "in_signed 32 (bp_channel p)" "in_signed 32 (bp_depth p)"
  shows "\<exists>m' w'. launch_producer env p m w = (m', w', Inr ())"
proof -
  obtain w1 t where n: "fe_now env w = (w1, t)" by fastforce
  have t: "0 < to_epoch_ms t" using assms(3) [of w] n by simp
  obtain w2 x where b: "fe_block_at env w1 (to_epoch_ms t) = (w2, Inr (Some x))" using assms(7) by blast
  define good where "good y \<longleftrightarrow> (\<exists>v v'. fe_block_at env v (to_epoch_ms t) = (v', Inr (Some y)))" for y
  have size: "to_epoch_ms t < 2 ^ 62" "good y \<Longrightarrow> fits_wire y"
    "good y \<Longrightarrow> fe_block_at env u (sb_end y) = (u', Inr (Some z)) \<Longrightarrow> fits_wire z" for y z u u'
    using fits(1) n unfolding schedule_fits_def good_def by (metis snd_conv)+
  have ms: "in_signed 64 (to_epoch_ms t)" using t size(1) by (simp add: in_signed_def)
  have g1: "\<exists>w' y. fe_block_at env w (to_epoch_ms t) = (w', Inr (Some y)) \<and> good y" for w
    using assms(7) [of w "to_epoch_ms t"] unfolding good_def by blast
  have g2: "\<exists>w' z. fe_block_at env w (sb_end y) = (w', Inr (Some z)) \<and> sb_start z = sb_end y \<and> fits_wire z" if "good y" for w y
  proof -
    obtain v v' where y: "fe_block_at env v (to_epoch_ms t) = (v', Inr (Some y))" using \<open>good y\<close> by (auto simp: good_def)
    obtain w' z where z: "fe_block_at env w (sb_end y) = (w', Inr (Some z))" using assms(7) by blast
    from assms(8) [OF y z] size(3) [OF that z] z show ?thesis by blast
  qed
  have "\<exists>p' w' a b x y v v'. producer_start env t (to_epoch_ms t - sb_start x0) p w2 = (p', w', True) \<and> sent_blocks p' = [a, b]
      \<and> good x \<and> fe_block_at env v (sb_end x) = (v', Inr (Some y)) \<and> bk_end a = sb_end x \<and> bk_end b = sb_end y" for x0
    by (rule producer_goes_live [OF assms(1,2) _ assms(4-6) g1 fits(2,3) ms size(2) g2]) (simp_all add: t)
  then obtain p' w3 where "producer_start env t (to_epoch_ms t - sb_start x) p w2 = (p', w3, True)" by meson
  then show ?thesis using n b by (simp add: launch_producer_def Let_def)
qed


lemma stop_active_fields:
  assumes "stop_active env m w = (m', w')"
  shows "cm_teardown_started m' = cm_teardown_started m \<and> cm_state m' = cm_state m \<and> cm_blockplan m' = cm_blockplan m
    \<and> cm_channel m' = cm_channel m \<and> cm_director_config m' = cm_director_config m
    \<and> (cm_producer m = None \<longrightarrow> m' = m \<and> w' = w)"
  using assms by (auto simp: stop_active_def split: option.splits prod.splits)

text \<open>Without a healthy producer in the required mode, a fresh one is launched.\<close>

lemma ensure_launches:
  assumes "channel_ok env m" "cm_blockplan m" and s: "ce_mode env w = (w1, s)" and "\<not> healthy (channel_mode s) m"
  shows "\<exists>p m3 w2. ensure_producer_running env m w = launch_producer env p m3 w2
    \<and> \<not> bp_started p \<and> \<not> td_active p \<and> bp_has_schedule p \<and> feed_inv env p \<and> bp_reports p = []
    \<and> bp_stream p = ''/channel/'' @ cm_channel m @ ''.ts'' \<and> channel_keeps env m m3 \<and> cm_producer m3 = None
    \<and> cm_teardown_started m3 = cm_teardown_started m \<and> cm_state m3 = cm_state m
    \<and> (cm_producer m = None \<longrightarrow> cm_recovery m3 = cm_recovery m)
    \<and> bp_channel p = get_channel_config m \<and> bp_depth p = 3"
proof -
  let ?m1 = "m\<lparr>cm_mode := channel_mode s\<rparr>"
  have k1: "channel_keeps env m ?m1" using assms(1) by (simp add: channel_keeps_def)
  obtain m2 w2 where st: "stop_active env ?m1 w1 = (m2, w2)" by fastforce
  note sf = stop_active_fields [OF st]
  have k2: "channel_keeps env ?m1 m2" using assms(1) st by (intro stop_active_keeps) simp
  then have "channel_keeps env m2 (drop_producer m2)" by (intro drop_keeps) (simp add: channel_keeps_def)
  then have k3: "channel_keeps env m (drop_producer m2)" using k1 k2 channel_keeps_trans by blast
  define p where "p = init_producer (cm_channel m) (get_channel_config (drop_producer m2))
    \<lparr>pc_depth = None, pc_horizon = None, pc_preload = None, pc_grace = None, pc_timeout = None\<rparr> True True
    (cm_cache (drop_producer m2))"
  have b: "build_producer_for_mode (channel_mode s) (drop_producer m2) = Inr (Some p)"
    using sf assms(2) by (simp add: build_producer_for_mode_def p_def)
  have ok3: "channel_ok env (drop_producer m2)" using k3 by (simp add: channel_keeps_def)
  from build_ok [OF ok3 b] have p: "feed_inv env p" "bp_reports p = []" "\<not> bp_started p" "bp_has_schedule p" by auto
  have "\<not> healthy (channel_mode s) ?m1" using assms(4) by (simp add: healthy_def)
  then have "ensure_producer_running env m w = launch_producer env p (drop_producer m2) w2"
    using s st b by (simp add: ensure_producer_running_def get_current_mode_def Let_def)
  moreover have "bp_stream p = ''/channel/'' @ cm_channel m @ ''.ts''" "\<not> td_active p"
    "bp_channel p = get_channel_config m" "bp_depth p = 3"
    using sf by (simp_all add: p_def init_producer_def get_channel_config_def get_or_def)
  ultimately show ?thesis using p k3 sf by (intro exI [of _ p] exI [of _ "drop_producer m2"] exI [of _ w2]) auto
qed

lemma ensure_goes_on_air:
  assumes "channel_ok env m" "cm_blockplan m" and s: "ce_mode env w = (w1, s)" and "\<not> healthy (channel_mode s) m"
    and "\<And>w. 0 < to_epoch_ms (snd (fe_now env w))"
    and "\<And>w. \<exists>w'. fe_setup env w = (w', True)" "\<And>w. \<exists>w'. ae_launch env w = (w', True)"
    and "\<And>w pa pb j d. \<exists>w'. ae_seed env w pa pb j d = (w', True)"
    and "\<And>w t. \<exists>w' x. fe_block_at env w t = (w', Inr (Some x))"
    and "\<And>w w' v v' t x y. fe_block_at env w t = (w', Inr (Some x)) \<Longrightarrow>
      fe_block_at env v (sb_end x) = (v', Inr (Some y)) \<Longrightarrow> sb_start y = sb_end x"
    and fits: "schedule_fits env" "in_signed 32 (get_channel_config m)"
  shows "\<exists>m' w'. ensure_producer_running env m w = (m', w', Inr ())
    \<and> on_air_with (''/channel/'' @ cm_channel m @ ''.ts'') m' \<and> cm_status m' = ''running'' \<and> cm_attempts m' = 0
    \<and> cm_state m' = cm_state m \<and> channel_keeps env m m'"
proof -
  obtain p m3 w2 where p: "ensure_producer_running env m w = launch_producer env p m3 w2" "\<not> bp_started p" "\<not> td_active p"
    "bp_has_schedule p" "feed_inv env p" "bp_reports p = []" "bp_stream p = ''/channel/'' @ cm_channel m @ ''.ts''"
    "channel_keeps env m m3" "cm_state m3 = cm_state m" "bp_channel p = get_channel_config m" "bp_depth p = 3"
    using ensure_launches [OF assms(1-4)] by blast
  have "\<exists>m' w'. launch_producer env p m3 w2 = (m', w', Inr ())"
    by (rule launch_total [OF p(2,4) assms(5-9)]) (use assms(10) fits p(10,11) in \<open>simp_all add: in_signed_def\<close>)
  then obtain m' w' where l: "launch_producer env p m3 w2 = (m', w', Inr ())" by blast
  note ls = launch_success [OF l p(2,3)]
  have "channel_keeps env m3 m'" by (rule launch_keeps [OF _ p(5,6) l]) (use p(8) in \<open>simp add: channel_keeps_def\<close>)
  then have "channel_keeps env m m'" using p(8) channel_keeps_trans by blast
  then show ?thesis using l ls p by auto
qed

lemma first_session: "channel_ok env m \<Longrightarrow> cm_viewers m = 0 \<Longrightarrow>
    length (note_session c sid info now (cm_sessions m)) = 1"
  by (simp add: channel_ok_def note_session_def)

text \<open>What the join of a first viewer comes to.\<close>

lemma first_join:
  assumes "channel_ok env m" "cm_viewers m = 0"
  shows "\<exists>j. channel_ok env j \<and> cm_viewers j = 1 \<and> sid \<in> set (map fst (cm_sessions j)) \<and> cm_linger j = None
    \<and> cm_state j = CH_RUNNING \<and> cm_producer j = cm_producer m \<and> cm_blockplan j = cm_blockplan m
    \<and> cm_recovery j = cm_recovery m \<and> cm_channel j = cm_channel m \<and> get_channel_config j = get_channel_config m
    \<and> cm_teardown_started j = cm_teardown_started m
    \<and> tune_in env sid info m w = (case ensure_producer_running env j (fst (fe_now env w)) of
        (q, v, Inl e) \<Rightarrow> (q, v, Inl e) | (q, v, Inr _) \<Rightarrow> (surface_endpoint q, v, Inr ()))"
proof -
  obtain w1 now where n: "fe_now env w = (w1, now)" by fastforce
  define ss where "ss = note_session (cm_channel m) sid (get_or info []) now (cm_sessions m)"
  have len: "length ss = 1" unfolding ss_def by (rule first_session [OF assms(1,2)])
  let ?j = "(cancel_linger (m\<lparr>cm_sessions := ss, cm_viewers := length ss\<rparr>))\<lparr>cm_state := CH_RUNNING\<rparr>"
  have "channel_ok env ?j"
    using assms(1) note_session_keys by (simp add: channel_ok_def cancel_linger_def ss_def)
  moreover have "sid \<in> set (map fst ss)" unfolding ss_def note_session_keys(2) by simp
  moreover have "tune_in env sid info m w = (case ensure_producer_running env ?j w1 of
      (q, v, Inl e) \<Rightarrow> (q, v, Inl e) | (q, v, Inr _) \<Rightarrow> (surface_endpoint q, v, Inr ()))"
    using n assms(2) len
    by (simp add: tune_in_def viewer_join_def Let_def ss_def [symmetric] on_first_viewer_def cancel_linger_def)
  ultimately show ?thesis using len n by (intro exI [of _ ?j]) (simp add: cancel_linger_def get_channel_config_def)
qed

text \<open>
  C14. The first viewer puts the channel on air: when the clock runs, the engine starts and takes the
  seed, the schedule service answers with blocks that meet, and the channel number and the two blocks at the
  start fit the fields of their messages, the join returns without an error and leaves one viewer, no
  linger, the channel running, and a healthy producer that has handed two blocks to the engine and whose
  stream is the endpoint of the channel.
\<close>

theorem first_viewer_goes_on_air:
  assumes "channel_ok env m" "cm_viewers m = 0" "cm_producer m = None" "cm_blockplan m"
    and "\<And>w. 0 < to_epoch_ms (snd (fe_now env w))"
    and "\<And>w. \<exists>w'. fe_setup env w = (w', True)" "\<And>w. \<exists>w'. ae_launch env w = (w', True)"
    and "\<And>w pa pb j d. \<exists>w'. ae_seed env w pa pb j d = (w', True)"
    and "\<And>w t. \<exists>w' x. fe_block_at env w t = (w', Inr (Some x))"
    and "\<And>w w' v v' t x y. fe_block_at env w t = (w', Inr (Some x)) \<Longrightarrow>
      fe_block_at env v (sb_end x) = (v', Inr (Some y)) \<Longrightarrow> sb_start y = sb_end x"
    and fits: "schedule_fits env" "in_signed 32 (get_channel_config m)"
  shows "\<exists>m' w'. tune_in env sid info m w = (m', w', Inr ()) \<and> cm_viewers m' = 1 \<and> cm_linger m' = None
    \<and> cm_state m' = CH_RUNNING \<and> cm_status m' = ''running'' \<and> cm_attempts m' = 0
    \<and> on_air_with (''/channel/'' @ cm_channel m @ ''.ts'') m'"
proof -
  obtain j where j: "channel_ok env j" "cm_viewers j = 1" "cm_linger j = None" "cm_state j = CH_RUNNING"
    "cm_producer j = cm_producer m" "cm_blockplan j = cm_blockplan m" "cm_channel j = cm_channel m"
    "get_channel_config j = get_channel_config m"
    "tune_in env sid info m w = (case ensure_producer_running env j (fst (fe_now env w)) of
       (q, v, Inl e) \<Rightarrow> (q, v, Inl e) | (q, v, Inr _) \<Rightarrow> (surface_endpoint q, v, Inr ()))"
    using first_join [OF assms(1,2)] by blast
  obtain w2 s where md: "ce_mode env (fst (fe_now env w)) = (w2, s)" by fastforce
  have b: "cm_blockplan j" "\<not> healthy (channel_mode s) j" using assms(3,4) j(5,6) by (simp_all add: healthy_def)
  have "\<exists>m' w'. ensure_producer_running env j (fst (fe_now env w)) = (m', w', Inr ())
      \<and> on_air_with (''/channel/'' @ cm_channel j @ ''.ts'') m' \<and> cm_status m' = ''running'' \<and> cm_attempts m' = 0
      \<and> cm_state m' = cm_state j \<and> channel_keeps env j m'"
    by (rule ensure_goes_on_air [OF j(1) b(1) md b(2) assms(5-9)]) (use assms(10) fits j(8) in simp_all)
  then obtain m' w' where e: "ensure_producer_running env j (fst (fe_now env w)) = (m', w', Inr ())"
    "on_air_with (''/channel/'' @ cm_channel j @ ''.ts'') m'" "cm_status m' = ''running''" "cm_attempts m' = 0"
    "cm_state m' = cm_state j" "channel_keeps env j m'" by blast
  have "surface_endpoint m' = m'" using e(2) by (auto simp: on_air_with_def surface_endpoint_def)
  then have "tune_in env sid info m w = (m', w', Inr ())" using j(9) e(1) by simp
  then show ?thesis using e j by (auto simp: channel_keeps_def)
qed


section \<open>Sharing the channel\<close>

lemma length_remove_key:
  assumes "distinct (map fst ss)"
  shows "length ss \<le> Suc (length (filter (\<lambda>p. fst p \<noteq> k) ss))"
  using assms
proof (induction ss)
  case (Cons p ss)
  have "filter (\<lambda>q. fst q \<noteq> k) ss = ss" if "fst p = k"
    using Cons.prems that by (auto simp: filter_id_conv image_iff)
  then show ?case using Cons by auto
qed simp

text \<open>
  Later viewers share the channel: while somebody watches, a join never fails, only reads the
  clock and leaves the producer and the pending recovery alone, and so does the departure of a
  viewer who is not the last.
\<close>

theorem later_viewers_share_producer:
  assumes "channel_ok env m" "1 \<le> cm_viewers m"
  shows "(\<exists>m'. tune_in env sid info m w = (m', fst (fe_now env w), Inr ()) \<and> cm_producer m' = cm_producer m
      \<and> cm_recovery m' = cm_recovery m \<and> cm_viewers m \<le> cm_viewers m')
    \<and> (2 \<le> cm_viewers m \<longrightarrow> (\<exists>m'. tune_out env sid' m w = (m', w) \<and> cm_producer m' = cm_producer m
      \<and> cm_recovery m' = cm_recovery m \<and> cm_state m' = cm_state m \<and> 1 \<le> cm_viewers m'))"
proof -
  obtain w1 now where n: "fe_now env w = (w1, now)" by fastforce
  define ss where "ss = note_session (cm_channel m) sid (get_or info []) now (cm_sessions m)"
  let ?m1 = "m\<lparr>cm_sessions := ss, cm_viewers := length ss\<rparr>"
  have "tune_in env sid info m w = (surface_endpoint ?m1, w1, Inr ())"
    using assms(2) n by (simp add: tune_in_def viewer_join_def Let_def ss_def)
  moreover have "cm_recovery (surface_endpoint ?m1) = cm_recovery m" by (simp add: surface_endpoint_def split: option.splits)
  moreover have "length (cm_sessions m) \<le> length ss"
  proof -
    have d: "distinct (map fst ss)" "distinct (map fst (cm_sessions m))"
      using assms(1) note_session_keys(1) by (simp_all add: ss_def channel_ok_def)
    have "set (map fst (cm_sessions m)) \<subseteq> set (map fst ss)" unfolding ss_def note_session_keys(2) by blast
    then have "card (set (map fst (cm_sessions m))) \<le> card (set (map fst ss))" by (intro card_mono) simp_all
    then show ?thesis using d by (simp only: distinct_card length_map)
  qed
  moreover define rest where "rest = filter (\<lambda>p. fst p \<noteq> sid') (cm_sessions m)"
  have "1 \<le> length rest \<and> tune_out env sid' m w = (m\<lparr>cm_sessions := rest, cm_viewers := length rest\<rparr>, w)"
    if "2 \<le> cm_viewers m"
    using length_remove_key [of "cm_sessions m" sid'] assms(1) that
    by (auto simp: tune_out_def viewer_leave_def Let_def rest_def channel_ok_def)
  ultimately show ?thesis using n assms(1) by (auto simp: channel_ok_def)
qed

text \<open>
  A viewer who returns while the channel lingers finds it as it was: the healthy producer is
  kept, the engine is not touched, and the linger is over.
\<close>

theorem return_during_linger_keeps_producer:
  assumes "channel_ok env m" "cm_viewers m = 0" "healthy ''normal'' m"
    and "ce_mode env (fst (fe_now env w)) = (w', s)" "channel_mode s = ''normal''"
  shows "\<exists>m'. tune_in env sid info m w = (m', w', Inr ()) \<and> cm_producer m' = cm_producer m
    \<and> cm_linger m' = None \<and> cm_viewers m' = 1 \<and> cm_state m' = CH_RUNNING"
proof -
  obtain w1 now where n: "fe_now env w = (w1, now)" by fastforce
  define ss where "ss = note_session (cm_channel m) sid (get_or info []) now (cm_sessions m)"
  have len: "length ss = 1" unfolding ss_def by (rule first_session [OF assms(1,2)])
  let ?m2 = "(cancel_linger (m\<lparr>cm_sessions := ss, cm_viewers := length ss\<rparr>))\<lparr>cm_state := CH_RUNNING\<rparr>"
  have "healthy ''normal'' (?m2\<lparr>cm_mode := ''normal''\<rparr>)" using assms(3) by (simp add: healthy_def cancel_linger_def)
  then have "on_first_viewer env ?m2 w1 = (?m2\<lparr>cm_mode := ''normal''\<rparr>, w', Inr ())"
    using assms(4,5) n len
    by (simp add: on_first_viewer_def ensure_producer_running_def get_current_mode_def cancel_linger_def)
  then have "tune_in env sid info m w = (surface_endpoint (?m2\<lparr>cm_mode := ''normal''\<rparr>), w', Inr ())"
    using n assms(2) len by (simp add: tune_in_def viewer_join_def Let_def ss_def)
  then show ?thesis using len by (auto simp: cancel_linger_def surface_endpoint_def split: option.splits)
qed

section \<open>Leaving\<close>

lemma session_end_unwatched: "cm_viewers m = 0 \<Longrightarrow> on_producer_session_end reason m = m"
  by (simp add: on_producer_session_end_def)

lemma absorb_unwatched: "cm_viewers m = 0 \<Longrightarrow> absorb p m = m\<lparr>cm_producer := Some (p\<lparr>bp_reports := []\<rparr>)\<rparr>"
proof -
  assume v: "cm_viewers m = 0"
  have "fold on_producer_session_end rs q = q" if "cm_viewers q = 0" for rs q
    using that by (induction rs arbitrary: q) (simp_all add: session_end_unwatched)
  then show ?thesis unfolding absorb_def using v by simp
qed

definition idle_fields :: "channel_manager \<Rightarrow> channel_manager \<Rightarrow> bool" where
  "idle_fields m m' \<longleftrightarrow> cm_recovery m' = cm_recovery m \<and> cm_attempts m' = cm_attempts m \<and> cm_state m' = cm_state m
     \<and> cm_viewers m' = cm_viewers m \<and> cm_linger m' = cm_linger m \<and> cm_sessions m' = cm_sessions m"

lemma stop_active_unwatched:
  "cm_viewers m = 0 \<Longrightarrow> stop_active env m w = (m', w') \<Longrightarrow> idle_fields m m'"
  by (auto simp: stop_active_def idle_fields_def absorb_unwatched split: option.splits prod.splits)

lemma finalize_unwatched:
  assumes "cm_viewers m = 0" "finalize_teardown env c m w = (m', w')"
  shows "idle_fields m m'"
proof -
  define w1 where "w1 = (if cm_teardown_started m = None then w else fst (fe_now env w))"
  obtain m1 w2 where s: "stop_active env m w1 = (m1, w2)" by fastforce
  have "m' = (drop_producer (if c then m else m1))\<lparr>cm_status := ''stopped'', cm_endpoint := None,
      cm_teardown_started := None, cm_teardown_reason := None\<rparr>"
    using assms(2) s by (cases c) (simp_all add: finalize_teardown_def w1_def [symmetric])
  then show ?thesis using stop_active_unwatched [OF assms(1) s] by (simp add: idle_fields_def)
qed

lemma stop_idle_unwatched:
  assumes "cm_viewers m = 0" "stop_producer_if_idle env m w = (m', w')"
  shows "idle_fields m m'"
proof -
  obtain m1 w1 where c: "check_teardown_completion env m w = (m1, w1)" by fastforce
  have "m1 = m \<or> (\<exists>b. finalize_teardown env b m w = (m1, w1))"
    using c by (auto simp: check_teardown_completion_def split: if_splits option.splits)
  then have k: "idle_fields m m1"
    by (elim disjE exE) (simp add: idle_fields_def, erule finalize_unwatched [OF assms(1)])
  have "idle_fields m1 m'"
    using assms(2) c by (auto simp: stop_producer_if_idle_def idle_fields_def split: if_splits option.splits prod.splits)
  then show ?thesis using k by (simp add: idle_fields_def)
qed

lemma director_stop_unwatched:
  assumes "channel_ok env m" "cm_viewers m = 0" "director_stop_channel env m w = (m', w')"
  shows "cm_producer m' = None \<and> cm_state m' = CH_STOPPED \<and> cm_linger m' = None \<and> cm_recovery m' = None
    \<and> cm_attempts m' = 0 \<and> cm_viewers m' = 0"
proof -
  let ?m = "(cancel_linger m)\<lparr>cm_attempts := 0, cm_recovery := None, cm_state := CH_STOPPED, cm_teardown_reason := None,
     cm_pending_fatal := None\<rparr>"
  obtain m1 w1 where s: "stop_channel env m w = (m1, w1)" by fastforce
  have f1: "idle_fields ?m m1"
    by (rule stop_idle_unwatched [OF _ s [unfolded stop_channel_def]]) (simp add: assms(2) cancel_linger_def)
  then have v1: "cm_viewers m1 = 0" using assms(2) by (simp add: idle_fields_def cancel_linger_def)
  obtain m2 w2 where a: "stop_active env m1 w1 = (m2, w2)" by fastforce
  have "m' = m1 \<or> m' = drop_producer m2" using assms(3) s a by (auto simp: director_stop_channel_def split: if_splits)
  then have "idle_fields ?m m'" using f1 stop_active_unwatched [OF v1 a] by (auto simp: idle_fields_def)
  then show ?thesis using director_stop_keeps [OF assms(1,3)] assms(2) by (simp add: idle_fields_def cancel_linger_def)
qed

text \<open>
  The last viewer ends the broadcast, but not at once: when he leaves a channel with an event
  loop, the producer is left alone and a linger is pending; when it expires with nobody watching,
  and equally when he leaves a channel without a loop, the producer is gone, the channel is stopped
  and no recovery is pending.
\<close>

theorem last_viewer_ends_broadcast:
  assumes "channel_ok env m" "cm_sessions m = [(sid, v)]" "cm_director_stops m" "cm_linger m = None"
    and "tune_out env sid m w = (m', w')"
  shows "cm_viewers m' = 0 \<and>
    (if cm_loop m
     then cm_producer m' = cm_producer m \<and> cm_linger m' \<noteq> None \<and> w' = fst (ce_loop_time env w)
       \<and> (\<forall>u q u'. run_channel env LingerFires m' u = (q, u') \<longrightarrow>
            cm_producer q = None \<and> cm_state q = CH_STOPPED \<and> cm_linger q = None \<and> cm_recovery q = None)
     else cm_producer m' = None \<and> cm_state m' = CH_STOPPED \<and> cm_linger m' = None \<and> cm_recovery m' = None)"
proof -
  have v: "cm_viewers m = 1" using assms(1,2) by (simp add: channel_ok_def)
  let ?m1 = "m\<lparr>cm_sessions := [], cm_viewers := 0\<rparr>"
  have l: "start_linger env ?m1 w = (m', w')"
    using assms(2,5) v by (simp add: tune_out_def viewer_leave_def on_last_viewer_def Let_def)
  have ok1: "channel_ok env ?m1" using assms(1,2) by (auto simp: channel_ok_def)
  show ?thesis
  proof (cases "cm_loop m")
    case True
    obtain w1 now where t: "ce_loop_time env w = (w1, now)" by fastforce
    have m': "m' = ?m1\<lparr>cm_linger := Some (fl (now + linger_seconds))\<rparr>" "w' = w1"
      using l True assms(4) t by (simp_all add: start_linger_def)
    have ok2: "channel_ok env (?m1\<lparr>cm_linger := None\<rparr>)" using ok1 by (simp add: channel_ok_def)
    have "run_channel env LingerFires m' u = director_stop_channel env (?m1\<lparr>cm_linger := None\<rparr>) u" for u
      using assms(3) by (simp add: m' linger_expire_def end_linger_def)
    then show ?thesis using director_stop_unwatched [OF ok2] m' True t by auto
  next
    case False
    then have "director_stop_channel env ?m1 w = (m', w')"
      using l assms(3,4) by (simp add: start_linger_def end_linger_def)
    from director_stop_unwatched [OF ok1 _ this] show ?thesis using False by simp
  qed
qed


section \<open>Recovery\<close>

lemma not_healthy: "cm_producer m = Some p \<Longrightarrow> producer_health p \<noteq> ''running'' \<Longrightarrow> \<not> healthy mode m"
  by (simp add: healthy_def)

lemma failed_session:
  assumes "cm_producer m = Some p" "bp_has_callback p" "bp_reports p = []" "1 \<le> cm_viewers m" "cm_attempts m = 0"
    and "reason \<in> {''stopped'', ''error''}"
    and "run_channel env (EngineEvent True (SessionEnded reason n)) m w = (m', w')"
  shows "\<exists>p'. m' = m\<lparr>cm_producer := Some p', cm_attempts := 1, cm_recovery := Some 1\<rparr> \<and> producer_health p' \<noteq> ''running''"
proof -
  let ?p = "on_session_end reason (p\<lparr>bp_session := map_option (session_event (SessionEnded reason n)) (bp_session p)\<rparr>)"
  have "m' = absorb ?p m" using assms(1,7) by simp
  moreover have "bp_reports ?p = [reason]" using assms(2,3) by (simp add: on_session_end_def)
  ultimately have "m' = on_producer_session_end reason (m\<lparr>cm_producer := Some (?p\<lparr>bp_reports := []\<rparr>)\<rparr>)"
    by (simp add: absorb_def)
  then have "m' = m\<lparr>cm_producer := Some (?p\<lparr>bp_reports := []\<rparr>), cm_attempts := 1, cm_recovery := Some 1\<rparr>"
    using assms(4-6) by (auto simp: on_producer_session_end_def recovery_max_attempts_def recovery_base_delay_def)
  moreover have "producer_health (?p\<lparr>bp_reports := []\<rparr>) \<noteq> ''running''"
    by (simp add: producer_health_def on_session_end_def split: option.splits)
  ultimately show ?thesis by blast
qed

text \<open>
  C0. A channel whose session fails while somebody watches comes back: the end of the session with
  the reason stopped or error schedules a recovery one second later. When that fires, provided the
  clock runs, the engine starts and takes the seeds, the schedule answers with adjacent blocks and
  these fit the fields of the messages, a fresh producer is on air, the viewers are kept and the
  attempts are forgotten.
\<close>

theorem failed_session_recovers:
  assumes "channel_ok env m" "cm_producer m = Some p" "bp_has_callback p" "1 \<le> cm_viewers m" "cm_attempts m = 0"
    and "cm_blockplan m" "reason \<in> {''stopped'', ''error''}"
    and "run_channel env (EngineEvent True (SessionEnded reason n)) m w = (m1, w1)"
    and "\<And>w. 0 < to_epoch_ms (snd (fe_now env w))"
    and "\<And>w. \<exists>w'. fe_setup env w = (w', True)" "\<And>w. \<exists>w'. ae_launch env w = (w', True)"
    and "\<And>w pa pb j d. \<exists>w'. ae_seed env w pa pb j d = (w', True)"
    and "\<And>w t. \<exists>w' x. fe_block_at env w t = (w', Inr (Some x))"
    and "\<And>w w' v v' t x y. fe_block_at env w t = (w', Inr (Some x)) \<Longrightarrow>
      fe_block_at env v (sb_end x) = (v', Inr (Some y)) \<Longrightarrow> sb_start y = sb_end x"
    and fits: "schedule_fits env" "in_signed 32 (get_channel_config m)"
  shows "cm_recovery m1 = Some 1 \<and> (\<forall>u. \<exists>m' u'. run_channel env RecoveryFires m1 u = (m', u')
    \<and> on_air_with (''/channel/'' @ cm_channel m @ ''.ts'') m' \<and> cm_viewers m' = cm_viewers m \<and> cm_attempts m' = 0)"
proof -
  have rep: "bp_reports p = []" using assms(1,2) by (simp add: channel_ok_def)
  obtain p' where m1: "m1 = m\<lparr>cm_producer := Some p', cm_attempts := 1, cm_recovery := Some 1\<rparr>"
    "producer_health p' \<noteq> ''running''" using failed_session [OF assms(2,3) rep assms(4,5,7,8)] by blast
  have ok1: "channel_ok env m1" by (rule run_channel_inv [OF assms(1,8)])
  let ?m1 = "m1\<lparr>cm_recovery := None\<rparr>"
  have ok2: "channel_ok env ?m1" using ok1 by (auto simp: channel_ok_def)
  have bp: "cm_blockplan ?m1" "\<not> healthy mode ?m1" for mode
    using assms(6) m1 by (simp_all add: healthy_def)
  have "\<exists>m' u'. run_channel env RecoveryFires m1 u = (m', u') \<and> on_air_with (''/channel/'' @ cm_channel m @ ''.ts'') m'
      \<and> cm_viewers m' = cm_viewers m \<and> cm_attempts m' = 0" for u
  proof -
    obtain u1 s where md: "ce_mode env u = (u1, s)" by fastforce
    have "\<exists>m' u'. ensure_producer_running env ?m1 u = (m', u', Inr ())
        \<and> on_air_with (''/channel/'' @ cm_channel ?m1 @ ''.ts'') m' \<and> cm_status m' = ''running'' \<and> cm_attempts m' = 0
        \<and> cm_state m' = cm_state ?m1 \<and> channel_keeps env ?m1 m'"
      by (rule ensure_goes_on_air [OF ok2 bp(1) md bp(2) assms(9-13)]) (use assms(14) fits m1(1) in \<open>simp_all add: get_channel_config_def\<close>)
    then obtain m' u' where e: "ensure_producer_running env ?m1 u = (m', u', Inr ())"
      "on_air_with (''/channel/'' @ cm_channel m @ ''.ts'') m'" "cm_attempts m' = 0" "cm_viewers m' = cm_viewers m"
      by (auto simp: m1 channel_keeps_def)
    have "run_channel env RecoveryFires m1 u = (m', u')" using e(1) assms(4) m1(1) by (simp add: attempt_recovery_def)
    with e show ?thesis by blast
  qed
  then show ?thesis using m1(1) by simp
qed

section \<open>A dark channel\<close>

lemma teardown_dark:
  assumes "cm_producer m = None" "check_teardown_completion env m w = (m', w')"
  shows "cm_producer m' = None \<and> cm_recovery m' = cm_recovery m \<and> cm_viewers m' = cm_viewers m"
  using assms by (auto simp: check_teardown_completion_def finalize_teardown_def Let_def split: if_splits)

lemma stop_idle_dark:
  assumes "cm_producer m = None" "stop_producer_if_idle env m w = (m', w')"
  shows "cm_producer m' = None \<and> cm_recovery m' = cm_recovery m"
proof -
  obtain m1 w1 where c: "check_teardown_completion env m w = (m1, w1)" by fastforce
  show ?thesis using teardown_dark [OF assms(1) c] assms(2) c
    by (auto simp: stop_producer_if_idle_def split: if_splits)
qed

lemma health_dark:
  assumes "cm_producer m = None" "health_round env m w = (m', w')"
  shows "cm_producer m' = None \<and> cm_recovery m' = cm_recovery m"
proof -
  define m0 where "m0 = m\<lparr>cm_viewers := length (cm_sessions m)\<rparr>"
  have d0: "cm_producer m0 = None" "cm_recovery m0 = cm_recovery m" using assms(1) by (simp_all add: m0_def)
  obtain m1 w1 where a: "check_health env m w = (m1, w1)" by fastforce
  obtain m2 w2 where b: "check_teardown_completion env m0 w = (m2, w2)" by fastforce
  have "m1 = m0 \<or> m1 = m2 \<or> m1 = report_health m2"
    using a teardown_dark [OF d0(1) b] unfolding check_health_def Let_def m0_def [symmetric]
    by (auto simp: b split: if_splits)
  moreover have "cm_producer (report_health m2) = None \<and> cm_recovery (report_health m2) = cm_recovery m2"
    if "cm_producer m2 = None" using that by (simp add: report_health_def)
  ultimately have d1: "cm_producer m1 = None \<and> cm_recovery m1 = cm_recovery m"
    using teardown_dark [OF d0(1) b] d0 by auto
  obtain m3 w3 where c: "check_teardown_completion env m1 w1 = (m3, w3)" by fastforce
  show ?thesis using assms(2) a c teardown_dark [OF conjunct1 [OF d1] c] d1
    by (auto simp: health_round_def channel_tick_def split: option.splits)
qed

text \<open>One event on a watched channel that has neither a producer nor a pending recovery.\<close>

lemma dark_step:
  assumes ok: "channel_ok env m" and d: "cm_producer m = None" "cm_recovery m = None" and v: "1 \<le> cm_viewers m"
    and run: "run_channel env ev m w = (m', w')" and v': "1 \<le> cm_viewers m'" and "\<And>reason. ev \<noteq> LateReport reason"
  shows "cm_producer m' = None \<and> cm_recovery m' = None"
proof (cases ev)
  case (TuneIn sid info)
  obtain w1 now where n: "fe_now env w = (w1, now)" by fastforce
  show ?thesis using run TuneIn n d v
    by (auto simp: tune_in_def viewer_join_def Let_def surface_endpoint_def)
next
  case (TuneOut sid)
  let ?ss = "filter (\<lambda>p. fst p \<noteq> sid) (cm_sessions m)"
  have l: "viewer_leave env sid m w = (m', w')" using run TuneOut by (simp add: tune_out_def)
  then have "channel_ok env m'" "cm_sessions m' = ?ss" using viewer_leave_ok [OF ok l] by simp_all
  then have "cm_viewers m' = length ?ss" by (simp add: channel_ok_def)
  then have "length ?ss \<noteq> 0" using v' by linarith
  then have "m' = m\<lparr>cm_sessions := ?ss, cm_viewers := length ?ss\<rparr>" using l by (auto simp: viewer_leave_def Let_def)
  then show ?thesis using d by simp
next
  case LingerFires
  then show ?thesis using run ok v d by (auto simp: channel_ok_def split: if_splits)
next
  case HealthRound
  then show ?thesis using run health_dark [OF d(1)] d(2) by simp
next
  case StopRequested
  let ?m = "(cancel_linger m)\<lparr>cm_attempts := 0, cm_recovery := None, cm_state := CH_STOPPED, cm_teardown_reason := None,
     cm_pending_fatal := None\<rparr>"
  obtain m1 w1 where s: "stop_channel env m w = (m1, w1)" by fastforce
  have "cm_producer m1 = None \<and> cm_recovery m1 = None"
    using stop_idle_dark [OF _ s [unfolded stop_channel_def]] d by (simp add: cancel_linger_def)
  then show ?thesis using run StopRequested s by (simp add: director_stop_channel_def)
next
  case ReadMetrics
  then obtain r where "populate_metrics_sample env m w = (m', w', r)" using run by (auto split: prod.splits)
  then have "check_teardown_completion env m w = (m', w')"
    by (auto simp: populate_metrics_sample_def Let_def split: prod.splits)
  from teardown_dark [OF d(1) this] d(2) show ?thesis by simp
qed (use run d assms(7) in \<open>auto simp: reactivate_def split: if_splits\<close>)

lemma dark_run:
  "channel_ok env m \<Longrightarrow> cm_producer m = None \<Longrightarrow> cm_recovery m = None \<Longrightarrow> 1 \<le> cm_viewers m \<Longrightarrow> watched env es m w \<Longrightarrow>
    run_channels env es m w = (m', w') \<Longrightarrow> cm_producer m' = None \<and> cm_recovery m' = None"
proof (induction es arbitrary: m w)
  case (Cons e es)
  obtain m1 w1 where r: "run_channel env e m w = (m1, w1)" by fastforce
  have v: "1 \<le> cm_viewers m1" "watched env es m1 w1" "\<And>reason. e \<noteq> LateReport reason" using Cons.prems(5) r by simp_all
  have "cm_producer m1 = None \<and> cm_recovery m1 = None"
    by (rule dark_step [OF Cons.prems(1-4) r v(1)]) (rule v(3))
  then show ?case using Cons.IH [OF run_channel_inv [OF Cons.prems(1) r] _ _ v(1,2)] Cons.prems(6) r by simp
qed simp


lemma session_end_teardown: "on_producer_session_end ''last_viewer_left'' m = m"
  by (simp add: on_producer_session_end_def)

lemma absorb_teardown:
  assumes "set (bp_reports p) \<subseteq> {''last_viewer_left''}"
  shows "absorb p m = m\<lparr>cm_producer := Some (p\<lparr>bp_reports := []\<rparr>)\<rparr>"
proof -
  have "fold on_producer_session_end rs q = q" if "set rs \<subseteq> {''last_viewer_left''}" for rs q
    using that by (induction rs arbitrary: q) (simp_all add: session_end_teardown)
  then show ?thesis unfolding absorb_def using assms by simp
qed

lemma cleanup_reports:
  "producer_cleanup env p w = (p', w') \<Longrightarrow> set (bp_reports p') \<subseteq> insert ''last_viewer_left'' (set (bp_reports p))"
  by (auto simp: producer_cleanup_def reset_producer_def on_session_end_def split: option.splits prod.splits if_splits)

lemma stop_reports:
  "producer_stop env p w = (p', w') \<Longrightarrow> set (bp_reports p') \<subseteq> insert ''last_viewer_left'' (set (bp_reports p))"
  by (auto simp: producer_stop_def teardown_cleanup_def split: if_splits prod.splits dest!: cleanup_reports)

lemma start_reports:
  assumes "producer_start env t jip p w = (p', w', ok)"
  shows "set (bp_reports p') \<subseteq> insert ''last_viewer_left'' (set (bp_reports p))"
proof (cases "bp_started p")
  case False
  let ?p0 = "p\<lparr>bp_start_count := Suc (bp_start_count p)\<rparr>"
  obtain p1 w1 r where b: "start_body env t jip ?p0 w = (p1, w1, r)" by (metis prod_cases3)
  show ?thesis
  proof (cases r)
    case (Inr u)
    obtain s a c q where q: "p1 = mark_started a c t q" "start_frame ?p0 q" using start_body_success [OF b [unfolded Inr]] by auto
    then have "bp_reports p1 = bp_reports p" by (simp add: mark_started_def start_frame_def)
    moreover have "p' = p1" using assms b Inr False by (simp add: producer_start_def)
    ultimately show ?thesis by auto
  next
    case (Inl e)
    have fr: "bp_reports p1 = bp_reports p" using start_body_failure [OF b [unfolded Inl]] by (simp add: start_frame_def)
    obtain p2 w2 where c: "producer_cleanup env p1 w1 = (p2, w2)" by fastforce
    then have "p' = p2\<lparr>bp_status := PS_ERROR\<rparr>" using assms b Inl False by (simp add: producer_start_def)
    then show ?thesis using cleanup_reports [OF c] fr by simp
  qed
qed (use assms in \<open>auto simp: producer_start_def\<close>)

lemma stop_active_recovery:
  assumes "channel_ok env m" "stop_active env m w = (m', w')"
  shows "cm_recovery m' = cm_recovery m"
proof (cases "cm_producer m")
  case (Some p)
  obtain p' w1 where s: "producer_stop env p w = (p', w1)" by fastforce
  have "bp_reports p = []" using assms(1) Some by (simp add: channel_ok_def)
  then have "set (bp_reports p') \<subseteq> {''last_viewer_left''}" using stop_reports [OF s] by simp
  from absorb_teardown [OF this, of m] have "cm_recovery (absorb p' m) = cm_recovery m" by simp
  then show ?thesis using assms(2) Some s by (simp add: stop_active_def)
qed (use assms in \<open>simp add: stop_active_def\<close>)

lemma launch_failure:
  assumes "launch_producer env p m w = (m', w', Inl e)" "bp_reports p = []"
    and "\<And>w t. \<exists>w' ob. fe_block_at env w t = (w', Inr ob)"
  shows "cm_producer m' = None \<and> cm_recovery m' = cm_recovery m"
proof -
  obtain w1 t where n: "fe_now env w = (w1, t)" by fastforce
  obtain w2 ob where b: "fe_block_at env w1 (to_epoch_ms t) = (w2, Inr ob)" using assms(3) by blast
  show ?thesis
  proof (cases ob)
    case None
    then show ?thesis using assms(1) n b by (auto simp: launch_producer_def Let_def)
  next
    case (Some x)
    obtain p' w3 ok where s: "producer_start env t (to_epoch_ms t - sb_start x) p w2 = (p', w3, ok)" by (metis prod_cases3)
    have "absorb p' m = m\<lparr>cm_producer := Some (p'\<lparr>bp_reports := []\<rparr>)\<rparr>"
      using start_reports [OF s] assms(2) by (intro absorb_teardown) simp
    then show ?thesis using assms(1) n b Some s by (auto simp: launch_producer_def Let_def split: if_splits)
  qed
qed

lemma ensure_failure:
  assumes "channel_ok env m" "cm_blockplan m" "ensure_producer_running env m w = (m', w', Inl e)"
    and "\<And>w t. \<exists>w' ob. fe_block_at env w t = (w', Inr ob)"
  shows "cm_producer m' = None \<and> cm_recovery m' = cm_recovery m"
proof -
  obtain w1 s where md: "ce_mode env w = (w1, s)" by fastforce
  let ?m1 = "m\<lparr>cm_mode := channel_mode s\<rparr>"
  obtain m2 w2 where st: "stop_active env ?m1 w1 = (m2, w2)" by fastforce
  have rc: "cm_recovery m2 = cm_recovery m" using stop_active_recovery [OF _ st] assms(1) by simp
  have k2: "channel_keeps env ?m1 m2" using assms(1) st by (intro stop_active_keeps) simp
  have ok3: "channel_ok env (drop_producer m2)" using drop_keeps [of env m2] k2 by (simp add: channel_keeps_def)
  have "\<not> healthy (channel_mode s) ?m1"
    using assms(3) md by (auto simp: ensure_producer_running_def get_current_mode_def)
  moreover obtain p where b: "build_producer_for_mode (channel_mode s) (drop_producer m2) = Inr (Some p)"
    using stop_active_fields [OF st] assms(2) by (simp add: build_producer_for_mode_def)
  ultimately have l: "launch_producer env p (drop_producer m2) w2 = (m', w', Inl e)"
    using assms(3) md st by (simp add: ensure_producer_running_def get_current_mode_def Let_def)
  have "bp_reports p = []" using build_ok [OF ok3 b] by auto
  from launch_failure [OF l this assms(4)] show ?thesis using rc by simp
qed

text \<open>
  A first viewer whose channel cannot be started leaves it dark: the join raises, but the viewer
  stays registered, and as long as somebody watches no later viewer, timer, health check, stop
  request or engine event gives the channel a producer again.
\<close>

theorem failed_start_is_final:
  assumes "channel_ok env m" "cm_viewers m = 0" "cm_producer m = None" "cm_recovery m = None" "cm_blockplan m"
    and "\<And>w t. \<exists>w' ob. fe_block_at env w t = (w', Inr ob)"
    and "tune_in env sid info m w = (m1, w1, Inl e)"
  shows "cm_viewers m1 = 1 \<and> sid \<in> set (map fst (cm_sessions m1))
    \<and> (\<forall>es m' w'. watched env es m1 w1 \<longrightarrow> run_channels env es m1 w1 = (m', w') \<longrightarrow> cm_producer m' = None)"
proof -
  obtain j where j: "channel_ok env j" "cm_viewers j = 1" "sid \<in> set (map fst (cm_sessions j))"
    "cm_blockplan j = cm_blockplan m" "cm_recovery j = cm_recovery m"
    "tune_in env sid info m w = (case ensure_producer_running env j (fst (fe_now env w)) of
       (q, v, Inl e) \<Rightarrow> (q, v, Inl e) | (q, v, Inr _) \<Rightarrow> (surface_endpoint q, v, Inr ()))"
    using first_join [OF assms(1,2)] by blast
  have en: "ensure_producer_running env j (fst (fe_now env w)) = (m1, w1, Inl e)"
    using j(6) assms(7) by (auto split: prod.splits sum.splits)
  have dark: "cm_producer m1 = None" "cm_recovery m1 = None"
    using ensure_failure [OF j(1) _ en assms(6)] assms(4,5) j(4,5) by simp_all
  have k: "channel_ok env m1" "cm_sessions m1 = cm_sessions j" "cm_viewers m1 = 1"
    using ensure_keeps [OF j(1) en] j(2) by (simp_all add: channel_keeps_def)
  then show ?thesis using dark_run [OF k(1) dark] j(3) by auto
qed

text \<open>
  A recovery that fails is not tried again: after it the channel has no producer and no pending
  recovery, and stays so as long as somebody watches, whatever number of attempts was left.
\<close>

theorem failed_recovery_is_final:
  assumes "channel_ok env m" "1 \<le> cm_viewers m" "cm_recovery m = Some d" "cm_blockplan m"
    and "\<And>w t. \<exists>w' ob. fe_block_at env w t = (w', Inr ob)"
    and "ensure_producer_running env (m\<lparr>cm_recovery := None\<rparr>) w = (m1, w1, Inl e)"
  shows "run_channel env RecoveryFires m w = (m1, w1) \<and> cm_recovery m1 = None
    \<and> (\<forall>es m' w'. watched env es m1 w1 \<longrightarrow> run_channels env es m1 w1 = (m', w') \<longrightarrow>
        cm_producer m' = None \<and> cm_recovery m' = None)"
proof -
  let ?m = "m\<lparr>cm_recovery := None\<rparr>"
  have ok: "channel_ok env ?m" using assms(1) by (auto simp: channel_ok_def)
  have "cm_producer m1 = None \<and> cm_recovery m1 = cm_recovery ?m"
    by (rule ensure_failure [OF ok _ assms(6,5)]) (use assms(4) in simp)
  then have dark: "cm_producer m1 = None" "cm_recovery m1 = None" by simp_all
  have k: "channel_keeps env ?m m1" by (rule ensure_keeps [OF ok assms(6)])
  then have v: "channel_ok env m1" "1 \<le> cm_viewers m1" using assms(2) by (simp_all add: channel_keeps_def)
  have "run_channel env RecoveryFires m w = (m1, w1)" using assms(2,3,6) by (simp add: attempt_recovery_def)
  then show ?thesis using dark dark_run [OF v(1) dark v(2)] by blast
qed

section \<open>The teardown of the producer before\<close>

lemma director_stop_pending:
  assumes "cm_viewers m = 0" "cm_producer m = Some p" "\<not> td_active p" "cm_teardown_started m = None"
    and "director_stop_channel env m w = (m1, w1)"
  shows "cm_teardown_started m1 \<noteq> None \<and> cm_blockplan m1 = cm_blockplan m \<and> cm_channel m1 = cm_channel m
    \<and> get_channel_config m1 = get_channel_config m"
proof -
  let ?m = "(cancel_linger m)\<lparr>cm_attempts := 0, cm_recovery := None, cm_state := CH_STOPPED, cm_teardown_reason := None,
     cm_pending_fatal := None\<rparr>"
  obtain v now where n: "fe_now env w = (v, now)" by fastforce
  have "stop_channel env m w = (?m\<lparr>cm_teardown_started := Some (total_seconds now),
      cm_teardown_reason := Some ''viewer_inactive'',
      cm_producer := Some (request_teardown ''viewer_inactive'' (Some teardown_timeout) p)\<rparr>, v)"
    using assms(1-4) n by (simp add: stop_channel_def stop_producer_if_idle_def check_teardown_completion_def cancel_linger_def)
  moreover obtain m0 w0 where "stop_active env (?m\<lparr>cm_teardown_started := Some (total_seconds now),
      cm_teardown_reason := Some ''viewer_inactive'',
      cm_producer := Some (request_teardown ''viewer_inactive'' (Some teardown_timeout) p)\<rparr>) v = (m0, w0)" by fastforce
  note st = this stop_active_fields [OF this]
  ultimately have "m1 = drop_producer m0" using assms(5) by (simp add: director_stop_channel_def)
  then show ?thesis using st(2) by (simp add: cancel_linger_def get_channel_config_def)
qed

text \<open>
  C38. A stop that is followed by a new viewer takes the new producer down: the director stops and
  drops the old producer without ending its teardown, so that after the next viewer has put the
  channel on air the first health check takes the new producer for the one being torn down, stops
  it, and leaves the viewer without one.
\<close>

theorem stale_teardown_stops_new_producer:
  assumes "channel_ok env m" "cm_viewers m = 0" "cm_producer m = Some p" "\<not> td_active p" "cm_teardown_started m = None"
    and "cm_blockplan m" "director_stop_channel env m w = (m1, w1)" "tune_in env sid info m1 w1 = (m2, w2, Inr ())"
    and "health_round env m2 w2 = (m3, w3)"
  shows "on_air_with (''/channel/'' @ cm_channel m @ ''.ts'') m2 \<and> cm_viewers m3 = 1 \<and> cm_producer m3 = None"
proof -
  note f1 = director_stop_pending [OF assms(2-5,7)]
  have k1: "channel_ok env m1" "cm_producer m1 = None" "cm_viewers m1 = 0"
    using director_stop_keeps [OF assms(1,7)] assms(2) by (simp_all add: channel_keeps_def)
  obtain j where j: "channel_ok env j" "cm_viewers j = 1" "cm_state j = CH_RUNNING" "cm_producer j = cm_producer m1"
    "cm_blockplan j = cm_blockplan m1" "cm_channel j = cm_channel m1" "cm_teardown_started j = cm_teardown_started m1"
    "tune_in env sid info m1 w1 = (case ensure_producer_running env j (fst (fe_now env w1)) of
       (q, v, Inl e) \<Rightarrow> (q, v, Inl e) | (q, v, Inr _) \<Rightarrow> (surface_endpoint q, v, Inr ()))"
    using first_join [OF k1(1,3)] by blast
  obtain q where q: "ensure_producer_running env j (fst (fe_now env w1)) = (q, w2, Inr ())" "m2 = surface_endpoint q"
    using j(8) assms(8) by (auto split: prod.splits sum.splits)
  obtain u1 s where md: "ce_mode env (fst (fe_now env w1)) = (u1, s)" by fastforce
  have "cm_blockplan j" "\<not> healthy (channel_mode s) j" using f1 assms(6) k1(2) j(4,5) by (simp_all add: healthy_def)
  from ensure_launches [OF j(1) this(1) md this(2)] obtain np c v2 where np:
    "ensure_producer_running env j (fst (fe_now env w1)) = launch_producer env np c v2" "\<not> bp_started np" "\<not> td_active np"
    "bp_stream np = ''/channel/'' @ cm_channel j @ ''.ts''" "cm_teardown_started c = cm_teardown_started j"
    "cm_state c = cm_state j" by blast
  have l: "launch_producer env np c v2 = (q, w2, Inr ())" using np(1) q(1) by simp
  note ls = launch_success [OF l np(2,3)]
  obtain r where r: "cm_producer q = Some r" "\<not> td_active r" "bp_status r = PS_RUNNING" "cm_endpoint q = bp_output r"
    using ls by (auto simp: on_air_with_def)
  then have m2: "m2 = q" using q(2) by (simp add: surface_endpoint_def)
  have td: "cm_teardown_started m2 \<noteq> None" "cm_state m2 = CH_RUNNING"
    using ls np(5,6) f1 j(3,7) by (simp_all add: m2)
  have ok2: "channel_ok env m2" "cm_viewers m2 = 1"
    using ensure_keeps [OF j(1) q(1)] j(2) by (simp_all add: m2 channel_keeps_def)
  note v2 = ok2(2)
  have same: "m2\<lparr>cm_viewers := length (cm_sessions m2)\<rparr> = m2" using ok2 by (simp add: channel_ok_def)
  obtain m4 w4 where c4: "check_teardown_completion env m2 w2 = (m4, w4)" by fastforce
  then have "finalize_teardown env False m2 w2 = (m4, w4)" using td(1) r by (auto simp: check_teardown_completion_def m2)
  from finalize_keeps [OF ok2(1) this] have d4: "cm_producer m4 = None" by simp
  have "check_health env m2 w2 = (report_health m4, w4)"
    unfolding check_health_def Let_def same using v2 td(2) c4 by simp
  then have "cm_producer m3 = None"
  proof -
    have dr: "cm_producer (report_health m4) = None" using d4 by (simp add: report_health_def)
    obtain m5 w5 where c5: "check_teardown_completion env (report_health m4) w4 = (m5, w5)" by fastforce
    then show ?thesis using assms(9) \<open>check_health env m2 w2 = _\<close> teardown_dark [OF dr c5]
      by (auto simp: health_round_def channel_tick_def split: option.splits)
  qed
  moreover have "cm_viewers m3 = 1" using health_round_keeps [OF ok2(1) assms(9)] v2 by (simp add: channel_keeps_def)
  moreover have "on_air_with (''/channel/'' @ cm_channel m @ ''.ts'') m2"
    using ls np(4) f1 j(6) by (simp add: m2)
  ultimately show ?thesis by blast
qed


section \<open>A channel\<close>

text \<open>Blocks of two seconds, a clock that stands at five seconds, and an engine that starts or does not.\<close>

definition demo_channel_env :: "bool \<Rightarrow> int channel_env" where
  "demo_channel_env up =
     \<lparr>ae_launch = (\<lambda>w. (w, True)), ae_seed = (\<lambda>w _ _ _ _. (w, True)), ae_feed = (\<lambda>w _. (w, FeedTaken)),
      ae_stop = (\<lambda>w _. (w, None)), fe_setup = (\<lambda>w. (w, up)),
      fe_block_at = (\<lambda>w t. (w, Inr (Some (demo_grid_block t)))), fe_now = (\<lambda>w. (w, 5000000)),
      ce_mode = (\<lambda>w. (w, SYS_NORMAL)), ce_loop_time = (\<lambda>w. (w, 100))\<rparr>"

definition demo_manager :: channel_manager where
  "demo_manager = new_manager ''ch'' True True (Some 7) []"

definition demo_viewer :: viewer_session where
  "demo_viewer = \<lparr>vs_id = ''a'', vs_channel = ''ch'', vs_started_at = 5000000, vs_last_activity = 5000000, vs_info = []\<rparr>"

definition demo_idle_producer :: producer where
  "demo_idle_producer = init_producer ''ch'' 7 \<lparr>pc_depth = None, pc_horizon = None, pc_preload = None, pc_grace = None,
     pc_timeout = None\<rparr> True True []"

lemma demo_env_facts [simp]:
  "fe_now (demo_channel_env up) w = (w, 5000000)" "fe_setup (demo_channel_env up) w = (w, up)"
  "ae_launch (demo_channel_env up) w = (w, True)" "ae_seed (demo_channel_env up) w a b j d = (w, True)"
  "fe_block_at (demo_channel_env up) w t = (w, Inr (Some (demo_grid_block t)))"
  "ce_mode (demo_channel_env up) w = (w, SYS_NORMAL)" "ce_loop_time (demo_channel_env up) w = (w, 100)"
  by (simp_all add: demo_channel_env_def)

lemma demo_env_meets:
  "fe_block_at (demo_channel_env up) w t = (w', Inr (Some x)) \<Longrightarrow>
    fe_block_at (demo_channel_env up) v (sb_end x) = (v', Inr (Some y)) \<Longrightarrow> sb_start y = sb_end x"
  by (auto simp: demo_grid_block_def Let_def)

lemma demo_clock: "0 < to_epoch_ms (snd (fe_now (demo_channel_env up) w))"
  by (simp add: demo_ms)

lemma demo_schedule_fits [simp]: "schedule_fits (demo_channel_env up)" "in_signed 32 (get_channel_config demo_manager)"
  by (auto simp: schedule_fits_def Let_def demo_ms fits_wire_def demo_grid_block_def plain_segment_def in_signed_def
      get_channel_config_def demo_manager_def new_manager_def get_or_def)

lemma channel_number_update [simp]:
  "get_channel_config (m\<lparr>cm_sessions := x\<rparr>) = get_channel_config m" "get_channel_config (m\<lparr>cm_viewers := y\<rparr>) = get_channel_config m"
  "get_channel_config (m\<lparr>cm_producer := p\<rparr>) = get_channel_config m"
  by (simp_all add: get_channel_config_def)

lemma demo_manager_ok: "channel_ok env demo_manager"
  by (simp add: demo_manager_def new_manager_ok)

lemma demo_manager_fields [simp]:
  "cm_viewers demo_manager = 0" "cm_producer demo_manager = None" "cm_recovery demo_manager = None"
  "cm_blockplan demo_manager" "cm_channel demo_manager = ''ch''" "cm_director_stops demo_manager" "cm_loop demo_manager"
  "cm_linger demo_manager = None" "cm_attempts demo_manager = 0" "cm_teardown_started demo_manager = None"
  by (simp_all add: demo_manager_def new_manager_def)

lemma demo_watched_ok:
  "channel_ok env (demo_manager\<lparr>cm_sessions := [(''a'', demo_viewer)], cm_viewers := 1\<rparr>)"
  using demo_manager_ok [of env] by (simp add: channel_ok_def)

lemma demo_idle_ok: "feed_inv env demo_idle_producer \<and> bp_reports demo_idle_producer = [] \<and> bp_has_callback demo_idle_producer
    \<and> \<not> td_active demo_idle_producer"
proof -
  have "feed_inv env demo_idle_producer" unfolding demo_idle_producer_def by (rule init_inv) (simp add: cache_max_def)
  then show ?thesis by (simp add: demo_idle_producer_def init_producer_def)
qed

lemma demo_with_producer_ok:
  "channel_ok env m \<Longrightarrow> channel_ok env (m\<lparr>cm_producer := Some demo_idle_producer\<rparr>)"
  using demo_idle_ok [of env] unfolding channel_ok_def by auto

theorem viewers_are_counted_witness:
  "cm_viewers (fst (run_channel (demo_channel_env True) (TuneIn ''a'' None) demo_manager 0)) =
    length (cm_sessions (fst (run_channel (demo_channel_env True) (TuneIn ''a'' None) demo_manager 0)))"
proof -
  obtain m w where r: "run_channel (demo_channel_env True) (TuneIn ''a'' None) demo_manager 0 = (m, w)" by fastforce
  have "channel_step (demo_channel_env True) (demo_manager, 0) (m, w)" by (rule channel_step.step [OF r])
  then have "channel_reachable (demo_channel_env True) (demo_manager, 0) (m, w)"
    by (rule channel_reachable.trans [OF channel_reachable.refl])
  from viewers_are_counted [OF this [unfolded demo_manager_def]] r show ?thesis by (simp add: cache_max_def)
qed

theorem first_viewer_goes_on_air_witness:
  "\<exists>m' w'. tune_in (demo_channel_env True) ''a'' None demo_manager 0 = (m', w', Inr ()) \<and> cm_viewers m' = 1
    \<and> on_air_with ''/channel/ch.ts'' m'"
proof -
  have "\<exists>m' w'. tune_in (demo_channel_env True) ''a'' None demo_manager 0 = (m', w', Inr ()) \<and> cm_viewers m' = 1
      \<and> cm_linger m' = None \<and> cm_state m' = CH_RUNNING \<and> cm_status m' = ''running'' \<and> cm_attempts m' = 0
      \<and> on_air_with (''/channel/'' @ cm_channel demo_manager @ ''.ts'') m'"
    by (rule first_viewer_goes_on_air [OF demo_manager_ok _ _ _ demo_clock]) (simp_all, auto simp: demo_grid_block_def Let_def)
  then show ?thesis by auto
qed

theorem later_viewers_share_producer_witness:
  "\<exists>m'. tune_in (demo_channel_env True) ''b'' None (demo_manager\<lparr>cm_sessions := [(''a'', demo_viewer)], cm_viewers := 1\<rparr>) 0
    = (m', 0, Inr ()) \<and> cm_producer m' = None"
  using later_viewers_share_producer [OF demo_watched_ok, of "demo_channel_env True" "''b''" None "0"] by auto

lemma demo_healthy:
  "\<exists>p. channel_ok (demo_channel_env True) (demo_manager\<lparr>cm_producer := Some p\<rparr>)
    \<and> healthy ''normal'' (demo_manager\<lparr>cm_producer := Some p\<rparr>)"
proof -
  have "\<exists>m' w'. ensure_producer_running (demo_channel_env True) demo_manager 0 = (m', w', Inr ())
      \<and> on_air_with (''/channel/'' @ cm_channel demo_manager @ ''.ts'') m' \<and> cm_status m' = ''running'' \<and> cm_attempts m' = 0
      \<and> cm_state m' = cm_state demo_manager \<and> channel_keeps (demo_channel_env True) demo_manager m'"
    by (rule ensure_goes_on_air [OF demo_manager_ok _ _ _ demo_clock])
      (simp_all add: healthy_def, auto simp: demo_grid_block_def Let_def)
  then obtain m' p where p: "cm_producer m' = Some p" "producer_health p = ''running''" "channel_ok (demo_channel_env True) m'"
    by (auto simp: on_air_with_def channel_keeps_def)
  then have "channel_ok (demo_channel_env True) (demo_manager\<lparr>cm_producer := Some p\<rparr>)"
    using demo_manager_ok [of "demo_channel_env True"] by (simp add: channel_ok_def)
  with p show ?thesis by (auto simp: healthy_def producer_mode_def)
qed

theorem return_during_linger_keeps_producer_witness:
  "\<exists>p m'. tune_in (demo_channel_env True) ''a'' None (demo_manager\<lparr>cm_producer := Some p\<rparr>) 0 = (m', 0, Inr ())
    \<and> cm_producer m' = Some p \<and> healthy ''normal'' m'"
proof -
  obtain p where p: "channel_ok (demo_channel_env True) (demo_manager\<lparr>cm_producer := Some p\<rparr>)"
    "healthy ''normal'' (demo_manager\<lparr>cm_producer := Some p\<rparr>)" using demo_healthy by blast
  have "\<exists>m'. tune_in (demo_channel_env True) ''a'' None (demo_manager\<lparr>cm_producer := Some p\<rparr>) 0 = (m', 0, Inr ())
      \<and> cm_producer m' = cm_producer (demo_manager\<lparr>cm_producer := Some p\<rparr>)
      \<and> cm_linger m' = None \<and> cm_viewers m' = 1 \<and> cm_state m' = CH_RUNNING"
    by (rule return_during_linger_keeps_producer [OF p(1) _ p(2), where s = SYS_NORMAL]) (simp_all add: channel_mode_def)
  then show ?thesis using p(2) by (intro exI [of _ p]) (auto simp: healthy_def)
qed

theorem last_viewer_ends_broadcast_witness:
  "\<exists>m'. tune_out (demo_channel_env True) ''a'' (demo_manager\<lparr>cm_sessions := [(''a'', demo_viewer)], cm_viewers := 1\<rparr>) 0
    = (m', 0) \<and> cm_linger m' \<noteq> None \<and> cm_viewers m' = 0"
proof -
  let ?m = "demo_manager\<lparr>cm_sessions := [(''a'', demo_viewer)], cm_viewers := 1\<rparr>"
  obtain m' w' where t: "tune_out (demo_channel_env True) ''a'' ?m 0 = (m', w')" by fastforce
  have "cm_viewers m' = 0 \<and> cm_linger m' \<noteq> None \<and> w' = 0"
    using last_viewer_ends_broadcast [OF demo_watched_ok _ _ _ t] by (simp del: run_channel.simps)
  then show ?thesis using t by auto
qed


theorem failed_session_recovers_witness:
  "cm_recovery (fst (run_channel (demo_channel_env True) (EngineEvent True (SessionEnded ''error'' 0))
     (demo_manager\<lparr>cm_sessions := [(''a'', demo_viewer)], cm_viewers := 1, cm_producer := Some demo_idle_producer\<rparr>) 0))
   = Some 1
   \<and> (\<exists>m' u'. run_channel (demo_channel_env True) RecoveryFires (fst (run_channel (demo_channel_env True)
        (EngineEvent True (SessionEnded ''error'' 0)) (demo_manager\<lparr>cm_sessions := [(''a'', demo_viewer)], cm_viewers := 1,
          cm_producer := Some demo_idle_producer\<rparr>) 0)) 0 = (m', u')
      \<and> on_air_with (''/channel/'' @ cm_channel demo_manager @ ''.ts'') m' \<and> cm_viewers m' = 1 \<and> cm_attempts m' = 0)"
proof -
  let ?m = "demo_manager\<lparr>cm_sessions := [(''a'', demo_viewer)], cm_viewers := 1, cm_producer := Some demo_idle_producer\<rparr>"
  have ok: "channel_ok (demo_channel_env True) ?m" by (rule demo_with_producer_ok [OF demo_watched_ok])
  obtain m1 w1 where r: "run_channel (demo_channel_env True) (EngineEvent True (SessionEnded ''error'' 0)) ?m 0 = (m1, w1)"
    by fastforce
  have "cm_recovery m1 = Some 1 \<and> (\<forall>u. \<exists>m' u'. run_channel (demo_channel_env True) RecoveryFires m1 u = (m', u')
      \<and> on_air_with (''/channel/'' @ cm_channel ?m @ ''.ts'') m' \<and> cm_viewers m' = cm_viewers ?m \<and> cm_attempts m' = 0)"
    by (rule failed_session_recovers [OF ok _ _ _ _ _ _ r demo_clock])
      (use demo_idle_ok [of "demo_channel_env True"] in \<open>simp_all, auto simp: demo_grid_block_def Let_def\<close>)
  then show ?thesis using r by (simp del: run_channel.simps)
qed

text \<open>Without sockets the start fails.\<close>

lemma start_without_setup:
  assumes "fe_setup env w = (w1, False)" "\<not> bp_started p"
  shows "\<exists>p' w'. producer_start env t jip p w = (p', w', False)"
proof -
  have "\<exists>q. start_body env t jip (p\<lparr>bp_start_count := Suc (bp_start_count p)\<rparr>) w = (q, w1, Inl (RuntimeError ''setup''))"
    using assms(1) by (simp add: start_body_def open_session_def and_then_def Let_def)
  then show ?thesis using assms(2) by (auto simp: producer_start_def split: prod.splits)
qed

lemma demo_ensure_fails:
  assumes "channel_ok (demo_channel_env False) m" "cm_blockplan m" "cm_producer m = None"
  shows "\<exists>m' w'. ensure_producer_running (demo_channel_env False) m 0 = (m', w', Inl ProducerStartupError)"
proof -
  have nh: "\<not> healthy (channel_mode SYS_NORMAL) m" using assms(3) by (simp add: healthy_def)
  have md: "ce_mode (demo_channel_env False) 0 = (0, SYS_NORMAL)" by simp
  obtain p m3 w2 where l: "ensure_producer_running (demo_channel_env False) m 0 = launch_producer (demo_channel_env False) p m3 w2"
    "\<not> bp_started p" using ensure_launches [OF assms(1,2) md nh] by blast
  have "fe_setup (demo_channel_env False) w2 = (w2, False)" by simp
  from start_without_setup [OF this l(2)] obtain p' w' where
    "producer_start (demo_channel_env False) 5000000 (to_epoch_ms 5000000 - sb_start (demo_grid_block (to_epoch_ms 5000000))) p w2
      = (p', w', False)" by blast
  then show ?thesis using l(1) by (simp add: launch_producer_def Let_def)
qed

theorem failed_start_is_final_witness:
  "\<exists>m1 w1. tune_in (demo_channel_env False) ''a'' None demo_manager 0 = (m1, w1, Inl ProducerStartupError)
    \<and> cm_viewers m1 = 1 \<and> cm_producer m1 = None"
proof -
  let ?s = "[(''a'', \<lparr>vs_id = ''a'', vs_channel = ''ch'', vs_started_at = 5000000, vs_last_activity = 5000000, vs_info = []\<rparr>)]"
  let ?m = "(cancel_linger (demo_manager\<lparr>cm_sessions := ?s, cm_viewers := 1\<rparr>))\<lparr>cm_state := CH_RUNNING\<rparr>"
  have s: "note_session ''ch'' ''a'' [] 5000000 (cm_sessions demo_manager) = ?s"
    by (simp add: note_session_def demo_manager_def new_manager_def)
  have "channel_ok (demo_channel_env False) ?m"
    using demo_manager_ok [of "demo_channel_env False"] by (simp add: channel_ok_def cancel_linger_def)
  then obtain m1 w1 where e: "ensure_producer_running (demo_channel_env False) ?m 0 = (m1, w1, Inl ProducerStartupError)"
    using demo_ensure_fails [of ?m] by (auto simp: cancel_linger_def)
  then have t: "tune_in (demo_channel_env False) ''a'' None demo_manager 0 = (m1, w1, Inl ProducerStartupError)"
    by (simp add: tune_in_def viewer_join_def get_or_def s on_first_viewer_def cancel_linger_def)
  have srv: "\<exists>w' ob. fe_block_at (demo_channel_env False) w t = (w', Inr ob)" for w t by simp
  note fin = failed_start_is_final [OF demo_manager_ok _ _ _ _ srv t]
  have "cm_viewers m1 = 1" using fin by simp
  moreover have "cm_producer m1 = None"
    using fin [THEN conjunct2, THEN conjunct2, THEN spec [of _ "[]"]] by simp
  ultimately show ?thesis using t by blast
qed

theorem failed_recovery_is_final_witness:
  "\<exists>m1 w1. run_channel (demo_channel_env False) RecoveryFires
     (demo_manager\<lparr>cm_sessions := [(''a'', demo_viewer)], cm_viewers := 1, cm_recovery := Some 1, cm_attempts := 1\<rparr>) 0 = (m1, w1)
    \<and> cm_recovery m1 = None \<and> cm_producer m1 = None"
proof -
  let ?m = "demo_manager\<lparr>cm_sessions := [(''a'', demo_viewer)], cm_viewers := 1, cm_recovery := Some 1, cm_attempts := 1\<rparr>"
  have ok: "channel_ok (demo_channel_env False) ?m" "channel_ok (demo_channel_env False) (?m\<lparr>cm_recovery := None\<rparr>)"
    using demo_manager_ok [of "demo_channel_env False"] by (simp_all add: channel_ok_def)
  then obtain m1 w1 where e: "ensure_producer_running (demo_channel_env False) (?m\<lparr>cm_recovery := None\<rparr>) 0
      = (m1, w1, Inl ProducerStartupError)" using demo_ensure_fails [OF ok(2)] by auto
  have srv: "\<exists>w' ob. fe_block_at (demo_channel_env False) w t = (w', Inr ob)" for w t by simp
  have fin: "run_channel (demo_channel_env False) RecoveryFires ?m 0 = (m1, w1) \<and> cm_recovery m1 = None
      \<and> (\<forall>es m' w'. watched (demo_channel_env False) es m1 w1 \<longrightarrow> run_channels (demo_channel_env False) es m1 w1 = (m', w') \<longrightarrow>
          cm_producer m' = None \<and> cm_recovery m' = None)"
    by (rule failed_recovery_is_final [OF ok(1) _ _ _ srv e]) simp_all
  have "cm_producer m1 = None" using fin [THEN conjunct2, THEN conjunct2, THEN spec [of _ "[]"]] by simp
  with fin show ?thesis by blast
qed

theorem stale_teardown_stops_new_producer_witness:
  "\<exists>m2 w2. tune_in (demo_channel_env True) ''a'' None
     (fst (director_stop_channel (demo_channel_env True) (demo_manager\<lparr>cm_producer := Some demo_idle_producer\<rparr>) 0))
     (snd (director_stop_channel (demo_channel_env True) (demo_manager\<lparr>cm_producer := Some demo_idle_producer\<rparr>) 0)) = (m2, w2, Inr ())
    \<and> is_live m2 \<and> cm_producer (fst (health_round (demo_channel_env True) m2 w2)) = None"
proof -
  let ?env = "demo_channel_env True" and ?m = "demo_manager\<lparr>cm_producer := Some demo_idle_producer\<rparr>"
  have ok: "channel_ok ?env ?m" by (rule demo_with_producer_ok [OF demo_manager_ok])
  obtain m1 w1 where d: "director_stop_channel ?env ?m 0 = (m1, w1)" by fastforce
  have k: "channel_ok ?env m1" "cm_producer m1 = None" "cm_viewers m1 = 0"
    using director_stop_keeps [OF ok d] by (simp_all add: channel_keeps_def)
  obtain j where j: "channel_ok ?env j" "cm_viewers j = 1" "cm_producer j = cm_producer m1" "cm_blockplan j = cm_blockplan m1"
    "get_channel_config j = get_channel_config m1"
    "tune_in ?env ''a'' None m1 w1 = (case ensure_producer_running ?env j (fst (fe_now ?env w1)) of
       (q, v, Inl e) \<Rightarrow> (q, v, Inl e) | (q, v, Inr _) \<Rightarrow> (surface_endpoint q, v, Inr ()))"
    using first_join [OF k(1,3)] by blast
  have td: "\<not> td_active demo_idle_producer" using demo_idle_ok [of ?env] by simp
  have "cm_blockplan m1" "in_signed 32 (get_channel_config m1)" using director_stop_pending [OF _ _ _ _ d] td by simp_all
  then have b: "cm_blockplan j" "\<not> healthy (channel_mode SYS_NORMAL) j" "in_signed 32 (get_channel_config j)" using j(3-5) k(2) by (simp_all add: healthy_def)
  have md: "ce_mode ?env (fst (fe_now ?env w1)) = (w1, SYS_NORMAL)" by simp
  have "\<exists>m' w'. ensure_producer_running ?env j (fst (fe_now ?env w1)) = (m', w', Inr ())
      \<and> on_air_with (''/channel/'' @ cm_channel j @ ''.ts'') m' \<and> cm_status m' = ''running'' \<and> cm_attempts m' = 0
      \<and> cm_state m' = cm_state j \<and> channel_keeps ?env j m'"
    by (rule ensure_goes_on_air [OF j(1) b(1) md b(2) demo_clock]) (simp_all add: b(3), auto simp: demo_grid_block_def Let_def)
  then obtain q v where "ensure_producer_running ?env j (fst (fe_now ?env w1)) = (q, v, Inr ())" by blast
  then have t: "tune_in ?env ''a'' None m1 w1 = (surface_endpoint q, v, Inr ())" using j(6) by simp
  obtain m3 w3 where h: "health_round ?env (surface_endpoint q) v = (m3, w3)" by fastforce
  have "on_air_with (''/channel/'' @ cm_channel ?m @ ''.ts'') (surface_endpoint q) \<and> cm_viewers m3 = 1 \<and> cm_producer m3 = None"
    by (rule stale_teardown_stops_new_producer [OF ok _ _ td _ _ d t h]) simp_all
  then have "is_live (surface_endpoint q)" "cm_producer m3 = None" by (auto simp: on_air_with_def is_live_def)
  then show ?thesis using t h d by auto
qed

end
