(* ===== verification/Py_Parse.thy ===== *)
theory Py_Parse
  imports Py_Time "HOL-Library.List_Lexorder" "HOL-Library.Char_ord"
begin

text \<open>
  The text parsing of the standard library that the editing and compiling code relies on:
  \<^verbatim>\<open>str.strip\<close>, \<^verbatim>\<open>str.lower\<close>, \<^verbatim>\<open>str.upper\<close>, \<^verbatim>\<open>str.split\<close>, \<^verbatim>\<open>int(text, base)\<close>,
  \<^verbatim>\<open>time(h, m, s)\<close>, \<^verbatim>\<open>uuid.UUID(text)\<close> and \<^verbatim>\<open>date.fromisoformat\<close> on the calendar forms.  Letters
  are those of ASCII.  Strings are ordered by their character codes, as Python orders them.
  The main facts: a text that \<^verbatim>\<open>split\<close> takes apart is put together again by \<^verbatim>\<open>join\<close>, and what
  \<^verbatim>\<open>time\<close> returns is a time of day.
\<close>

section \<open>White space and case\<close>

definition is_py_space :: "char \<Rightarrow> bool" where
  "is_py_space c \<longleftrightarrow> (let n = of_char c :: nat in (9 \<le> n \<and> n \<le> 13) \<or> (28 \<le> n \<and> n \<le> 32))"

definition py_strip :: "string \<Rightarrow> string" where
  "py_strip s = rev (dropWhile is_py_space (rev (dropWhile is_py_space s)))"

definition lower_char :: "char \<Rightarrow> char" where
  "lower_char c = (let n = of_char c :: nat in if 65 \<le> n \<and> n \<le> 90 then char_of (n + 32) else c)"

definition upper_char :: "char \<Rightarrow> char" where
  "upper_char c = (let n = of_char c :: nat in if 97 \<le> n \<and> n \<le> 122 then char_of (n - 32) else c)"

definition py_lower :: "string \<Rightarrow> string" where "py_lower s = map lower_char s"
definition py_upper :: "string \<Rightarrow> string" where "py_upper s = map upper_char s"

section \<open>Splitting\<close>

text \<open>\<open>s.split(c)\<close> for a separator of one character.\<close>

fun split_char :: "char \<Rightarrow> string \<Rightarrow> string list" where
  "split_char c [] = [[]]"
| "split_char c (x # xs) =
     (if x = c then [] # split_char c xs
      else (case split_char c xs of [] \<Rightarrow> [[x]] | w # ws \<Rightarrow> (x # w) # ws))"

fun join_char :: "char \<Rightarrow> string list \<Rightarrow> string" where
  "join_char c [] = []"
| "join_char c [w] = w"
| "join_char c (w # v # ws) = w @ c # join_char c (v # ws)"

lemma split_char_nonempty: "split_char c s \<noteq> []"
  by (cases s) (auto split: list.splits)

lemma join_split: "join_char c (split_char c s) = s"
proof (induction s)
  case (Cons x xs)
  obtain w ws where "split_char c xs = w # ws" using split_char_nonempty by (cases "split_char c xs") auto
  then show ?case using Cons.IH by (cases ws) auto
qed simp

lemma split_char_no_sep: "w \<in> set (split_char c s) \<Longrightarrow> c \<notin> set w"
  by (induction s arbitrary: w) (force split: if_splits list.splits)+

section \<open>Numbers\<close>

text \<open>
  \<open>int(text, base)\<close>: surrounding white space, a sign, the prefix of the base, and single underscores
  between digits are allowed.  The flag says that a digit came before.
\<close>

definition digit_of :: "char \<Rightarrow> int option" where
  "digit_of c =
     (let n = of_char c :: int
      in if 48 \<le> n \<and> n \<le> 57 then Some (n - 48)
         else if 97 \<le> n \<and> n \<le> 122 then Some (n - 87)
         else if 65 \<le> n \<and> n \<le> 90 then Some (n - 55) else None)"

fun digits_value :: "int \<Rightarrow> bool \<Rightarrow> int \<Rightarrow> string \<Rightarrow> int option" where
  "digits_value b prev acc [] = (if prev then Some acc else None)"
| "digits_value b prev acc (c # cs) =
     (if c = CHR ''_'' then (if prev then digits_value b False acc cs else None)
      else (case digit_of c of
              None \<Rightarrow> None
            | Some d \<Rightarrow> if d < b then digits_value b True (b * acc + d) cs else None))"

definition drop_base_prefix :: "int \<Rightarrow> string \<Rightarrow> string" where
  "drop_base_prefix b s =
     (if b = 16 \<and> py_lower (take 2 s) = ''0x''
      then (case drop 2 s of c # cs \<Rightarrow> if c = CHR ''_'' then cs else c # cs | [] \<Rightarrow> [])
      else s)"

definition int_of_text :: "int \<Rightarrow> string \<Rightarrow> int option" where
  "int_of_text b s =
     (case py_strip s of
        c # cs \<Rightarrow>
          (if c = CHR ''-'' then map_option uminus (digits_value b False 0 (drop_base_prefix b cs))
           else if c = CHR ''+'' then digits_value b False 0 (drop_base_prefix b cs)
           else digits_value b False 0 (drop_base_prefix b (c # cs)))
      | [] \<Rightarrow> None)"

lemma py_int_examples:
  "int_of_text 10 ''06'' = Some 6" "int_of_text 10 ''1_000'' = Some 1000" "int_of_text 10 ''1__0'' = None"
  "int_of_text 10 '' -7 '' = Some (-7)" "int_of_text 10 '''' = None" "int_of_text 16 ''0xfF'' = Some 255"
  by code_simp+

section \<open>Times of day\<close>

definition py_time :: "int \<Rightarrow> int \<Rightarrow> int \<Rightarrow> time_of_day option" where
  "py_time h m s =
     (if 0 \<le> h \<and> h < 24 \<and> 0 \<le> m \<and> m < 60 \<and> 0 \<le> s \<and> s < 60
      then Some (h * us_per_hour + m * 60000000 + s * 1000000) else None)"

lemma py_time_valid: "py_time h m s = Some t \<Longrightarrow> valid_time t"
  by (auto simp: py_time_def valid_time_def us_defs split: if_splits)

text \<open>\<open>t.strftime("%H:%M:%S")\<close>\<close>

definition time_hms :: "time_of_day \<Rightarrow> string" where
  "time_hms t = zero_pad 2 (nat (hour_of t)) @ '':'' @ zero_pad 2 (nat (minute_of t)) @ '':''
     @ zero_pad 2 (nat (second_of t))"

section \<open>Identifiers\<close>

text \<open>\<open>str.replace(old, '')\<close> of a non-empty \<open>old\<close>.\<close>

fun remove_all :: "string \<Rightarrow> string \<Rightarrow> nat \<Rightarrow> string" where
  "remove_all old [] k = []"
| "remove_all old (c # cs) k =
     (if 0 < k then remove_all old cs (k - 1)
      else if take (length old) (c # cs) = old \<and> old \<noteq> [] then remove_all old cs (length old - 1)
      else c # remove_all old cs 0)"

definition strip_chars :: "char set \<Rightarrow> string \<Rightarrow> string" where
  "strip_chars A s = rev (dropWhile (\<lambda>c. c \<in> A) (rev (dropWhile (\<lambda>c. c \<in> A) s)))"

definition uuid_parse :: "string \<Rightarrow> int option" where
  "uuid_parse s =
     (let hex = remove_all ''uuid:'' (remove_all ''urn:'' s 0) 0;
          hex = remove_all ''-'' (strip_chars {CHR ''{'', CHR ''}''} hex) 0
      in if length hex \<noteq> 32 then None
         else (case int_of_text 16 hex of
                 None \<Rightarrow> None
               | Some i \<Rightarrow> if 0 \<le> i \<and> i < 2 ^ 128 then Some i else None))"

lemma uuid_parse_example:
  "uuid_parse ''{0000000a-0000-0000-0000-000000000001}'' = Some 792281625142643375935439503361"
  "uuid_parse ''Prime Time'' = None"
  by code_simp+

section \<open>Calendar dates\<close>

definition is_leap :: "int \<Rightarrow> bool" where
  "is_leap y \<longleftrightarrow> y mod 4 = 0 \<and> (y mod 100 \<noteq> 0 \<or> y mod 400 = 0)"

definition month_days :: "int \<Rightarrow> int \<Rightarrow> int" where
  "month_days y m = (if m = 2 \<and> is_leap y then 29 else days_in_month m)"

text \<open>The day number of a valid calendar date, day 0 being 1 January 1970.\<close>

definition days_before_year :: "int \<Rightarrow> int" where
  "days_before_year y = (let k = y - 1 in k * 365 + k div 4 - k div 100 + k div 400)"

definition ymd_date :: "int \<Rightarrow> int \<Rightarrow> int \<Rightarrow> date option" where
  "ymd_date y m d =
     (if 1 \<le> y \<and> y \<le> 9999 \<and> 1 \<le> m \<and> m \<le> 12 \<and> 1 \<le> d \<and> d \<le> month_days y m
      then Some (days_before_year y + days_before_month m + (if 2 < m \<and> is_leap y then 1 else 0) + d - 719163)
      else None)"

definition all_digits :: "string \<Rightarrow> bool" where
  "all_digits s \<longleftrightarrow> (\<forall>c \<in> set s. 48 \<le> (of_char c :: nat) \<and> of_char c \<le> (57 :: nat))"

text \<open>
  \<open>date.fromisoformat\<close> on \<open>YYYY-MM-DD\<close> and \<open>YYYYMMDD\<close>; the week forms (\<open>YYYY-Www-D\<close>) the code never
  writes are outside the model and count as rejected.
\<close>

definition from_iso_date :: "string \<Rightarrow> date option" where
  "from_iso_date s =
     (let y = take 4 s; sep = (length s = 10);
          m = take 2 (drop (if sep then 5 else 4) s); d = drop (if sep then 8 else 6) s
      in if (length s = 8 \<or> length s = 10 \<and> s ! 4 = CHR ''-'' \<and> s ! 7 = CHR ''-'')
            \<and> all_digits y \<and> all_digits m \<and> all_digits d
         then ymd_date (int (numeral_value y)) (int (numeral_value m)) (int (numeral_value d))
         else None)"

lemma from_iso_date_examples:
  "from_iso_date ''2024-02-29'' = Some 19782" "from_iso_date ''20240229'' = Some 19782"
  "from_iso_date ''2023-02-29'' = None" "from_iso_date ''1970-01-01'' = Some 0"
  "from_iso_date (iso_date 20454) = Some 20454"
  by code_simp+

text \<open>Day of the week, Monday being 0.\<close>

definition weekday :: "date \<Rightarrow> nat" where
  "weekday d = nat ((d + 3) mod 7)"

lemma weekday_less: "weekday d < 7"
  by (simp add: weekday_def nat_less_iff)

end
