(* ===== verification/Zone_Coverage.thy ===== *)
theory Zone_Coverage
  imports Py_Parse "HOL-Library.Product_Lexorder"
begin

text \<open>
  The checks on the zones of a schedule plan, \<^verbatim>\<open>usecases/zone_coverage_check.py\<close>: alignment with the
  channel's grid, pairwise overlap, coverage of the broadcast day and eligibility of the assets.
  Times are minutes relative to the start of the programming day, so a zone that runs past that
  start is two intervals.  A violation is the text the code reports, in ASCII.  The lemmas tell what the three
  loops decide: the interval arithmetic agrees with the clock, whatever the start of the programming
  day is, and the checks accept exactly the zones that tile every day they apply to.
\<close>

section \<open>Zones\<close>

text \<open>The columns of the table; identifiers are the numbers of the UUIDs.\<close>

record zone =
  zn_id :: int
  zn_plan :: int
  zn_name :: string
  zn_start :: time_of_day
  zn_end :: time_of_day
  zn_assets :: "string list"
  zn_days :: "string list option"
  zn_enabled :: bool
  zn_eff_start :: "date option"
  zn_eff_end :: "date option"
  zn_dst :: "string option"

definition all_days :: "string set" where
  "all_days = {''MON'', ''TUE'', ''WED'', ''THU'', ''FRI'', ''SAT'', ''SUN''}"

definition end_of_day :: time_of_day where
  "end_of_day = 23 * us_per_hour + 59 * 60000000 + 59 * 1000000 + 999999"

section \<open>Interval arithmetic\<close>

definition time_to_minutes :: "time_of_day \<Rightarrow> int" where
  "time_to_minutes t =
     (if t = end_of_day then 1440
      else hour_of t * 60 + minute_of t + (if 30 \<le> second_of t then 1 else 0))"

definition normalize_intervals :: "int \<Rightarrow> int \<Rightarrow> int \<Rightarrow> (int \<times> int) list" where
  "normalize_intervals raw_start raw_end pds =
     (let s = (raw_start - pds) mod 1440;
          e = (raw_end - pds) mod 1440;
          e = (if e = 0 then 1440 else e)
      in if s < e then [(s, e)]
         else (if s < 1440 then [(s, 1440)] else []) @ (if 0 < e then [(0, e)] else []))"

definition effective_days :: "zone \<Rightarrow> string set" where
  "effective_days z = (case zn_days z of Some (d # ds) \<Rightarrow> set (d # ds) | _ \<Rightarrow> all_days)"

definition days_overlap :: "zone \<Rightarrow> zone \<Rightarrow> string set" where
  "days_overlap a b = effective_days a \<inter> effective_days b"

definition interval_pair_overlap :: "int \<Rightarrow> int \<Rightarrow> int \<Rightarrow> int \<Rightarrow> (int \<times> int) option" where
  "interval_pair_overlap a_start a_end b_start b_end =
     (let lo = max a_start b_start; hi = min a_end b_end in if lo < hi then Some (lo, hi) else None)"

definition minutes_to_hhmm :: "int \<Rightarrow> string" where
  "minutes_to_hhmm m = zero_pad 2 (nat (m div 60)) @ '':'' @ zero_pad 2 (nat (m mod 60))"

definition norm_to_wall :: "int \<Rightarrow> int \<Rightarrow> string" where
  "norm_to_wall norm_min pds =
     (let wall = (if norm_min = 1440 then pds mod 1440 else (norm_min + pds) mod 1440)
      in if norm_min = 1440 \<and> wall = 0 then ''24:00'' else minutes_to_hhmm wall)"

definition zone_intervals :: "int \<Rightarrow> zone \<Rightarrow> (int \<times> int) list" where
  "zone_intervals pds z = normalize_intervals (time_to_minutes (zn_start z)) (time_to_minutes (zn_end z)) pds"

section \<open>Overlap\<close>

definition overlap_text :: "int \<Rightarrow> zone \<Rightarrow> zone \<Rightarrow> int \<times> int \<Rightarrow> string" where
  "overlap_text pds a b hit =
     ''INV-PLAN-NO-ZONE-OVERLAP-001-VIOLATED: zones '' @ [CHR 0x27] @ zn_name a @ [CHR 0x27] @ '' and '' @ [CHR 0x27]
     @ zn_name b @ [CHR 0x27] @ '' overlap ['' @ norm_to_wall (fst hit) pds @ ''-'' @ norm_to_wall (snd hit) pds
     @ ''] on days ['' @ join_char CHR '','' (sorted_list_of_set (days_overlap a b)) @ '']''"

definition pair_overlaps :: "int \<Rightarrow> zone \<Rightarrow> zone \<Rightarrow> string list" where
  "pair_overlaps pds a b =
     (if days_overlap a b = {} then []
      else concat (map (\<lambda>p. concat (map (\<lambda>q.
             (case interval_pair_overlap (fst p) (snd p) (fst q) (snd q) of
                None \<Rightarrow> [] | Some hit \<Rightarrow> [overlap_text pds a b hit])) (zone_intervals pds b)))
           (zone_intervals pds a)))"

fun overlaps_from :: "int \<Rightarrow> zone list \<Rightarrow> string list" where
  "overlaps_from pds [] = []"
| "overlaps_from pds (a # zs) = concat (map (pair_overlaps pds a) zs) @ overlaps_from pds zs"

definition check_overlap :: "zone list \<Rightarrow> time_of_day \<Rightarrow> string list" where
  "check_overlap zones programming_day_start =
     overlaps_from (time_to_minutes programming_day_start) (filter zn_enabled zones)"

section \<open>Coverage\<close>

text \<open>The last interval of the merged list and the intervals still to merge.\<close>

fun merge_intervals :: "int \<times> int \<Rightarrow> (int \<times> int) list \<Rightarrow> (int \<times> int) list" where
  "merge_intervals last_iv [] = [last_iv]"
| "merge_intervals last_iv (p # ps) =
     (if fst p \<le> snd last_iv then merge_intervals (fst last_iv, max (snd last_iv) (snd p)) ps
      else last_iv # merge_intervals p ps)"

definition gap_text :: "int \<Rightarrow> string \<Rightarrow> int \<Rightarrow> int \<Rightarrow> string" where
  "gap_text pds day a b =
     ''INV-PLAN-FULL-COVERAGE-001-VIOLATED: gap on '' @ day @ '' ['' @ norm_to_wall a pds @ ''-''
     @ norm_to_wall b pds @ '']''"

fun inner_gaps :: "int \<Rightarrow> string \<Rightarrow> (int \<times> int) list \<Rightarrow> string list" where
  "inner_gaps pds day (p # q # ps) =
     (if snd p < fst q then [gap_text pds day (snd p) (fst q)] else []) @ inner_gaps pds day (q # ps)"
| "inner_gaps pds day _ = []"

definition day_intervals :: "int \<Rightarrow> string \<Rightarrow> zone list \<Rightarrow> (int \<times> int) list" where
  "day_intervals pds day active =
     concat (map (zone_intervals pds) (filter (\<lambda>z. day \<in> effective_days z) active))"

definition day_gaps :: "int \<Rightarrow> zone list \<Rightarrow> string \<Rightarrow> string list" where
  "day_gaps pds active day =
     (case sort (day_intervals pds day active) of
        [] \<Rightarrow> [''INV-PLAN-FULL-COVERAGE-001-VIOLATED: day '' @ day @ '' has no zone coverage at all'']
      | p # ps \<Rightarrow>
        (let merged = merge_intervals p ps
         in (if 0 < fst (hd merged) then [gap_text pds day 0 (fst (hd merged))] else [])
            @ inner_gaps pds day merged
            @ (if snd (last merged) < 1440 then [gap_text pds day (snd (last merged)) 1440] else [])))"

definition plan_days :: "zone list \<Rightarrow> string set" where
  "plan_days active = (\<Union>z \<in> set active. effective_days z)"

definition check_coverage :: "zone list \<Rightarrow> time_of_day \<Rightarrow> string list" where
  "check_coverage zones programming_day_start =
     (let pds = time_to_minutes programming_day_start; active = filter zn_enabled zones
      in if active = []
         then [''INV-PLAN-FULL-COVERAGE-001-VIOLATED: no enabled zones - broadcast day has no coverage'']
         else concat (map (day_gaps pds active) (sorted_list_of_set (plan_days active))))"

section \<open>Grid and assets\<close>

definition grid_text :: "string \<Rightarrow> string \<Rightarrow> string" where
  "grid_text name what =
     ''INV-PLAN-GRID-ALIGNMENT-001-VIOLATED: zone '' @ [CHR 0x27] @ name @ [CHR 0x27] @ '' '' @ what"

definition zone_misalignments :: "int \<Rightarrow> zone \<Rightarrow> string list" where
  "zone_misalignments g z =
     (let s = time_to_minutes (zn_start z); e = time_to_minutes (zn_end z); duration = (e - s) mod 1440
      in (if s mod g \<noteq> 0 then [grid_text (zn_name z) (''start_time ('' @ minutes_to_hhmm s
            @ '') is not aligned to grid_block_minutes ('' @ int_str g @ '')'')] else [])
         @ (if e mod g \<noteq> 0 then [grid_text (zn_name z) (''end_time ('' @ minutes_to_hhmm e
            @ '') is not aligned to grid_block_minutes ('' @ int_str g @ '')'')] else [])
         @ (if 0 < duration \<and> duration mod g \<noteq> 0 then [grid_text (zn_name z) (''duration ('' @ int_str duration
            @ '' minutes) is not a multiple of grid_block_minutes ('' @ int_str g @ '')'')] else []))"

text \<open>A grid of zero minutes divides by zero at the first enabled zone.\<close>

definition check_grid_alignment :: "zone list \<Rightarrow> int option \<Rightarrow> string list res" where
  "check_grid_alignment zones grid_block_minutes =
     (case grid_block_minutes of
        None \<Rightarrow> Inr []
      | Some g \<Rightarrow>
        (let active = filter zn_enabled zones
         in if g = 0 \<and> active \<noteq> [] then Inl ZeroDivisionError
            else Inr (concat (map (zone_misalignments g) active))))"

definition check_asset_eligibility :: "zone list \<Rightarrow> (string \<Rightarrow> bool \<times> string) option \<Rightarrow> string list" where
  "check_asset_eligibility zones asset_eligibility_checker =
     (case asset_eligibility_checker of
        None \<Rightarrow> []
      | Some checker \<Rightarrow>
        concat (map (\<lambda>z. concat (map (\<lambda>asset_id.
          (case checker asset_id of (is_eligible, reason) \<Rightarrow>
             if is_eligible then []
             else [''INV-PLAN-ELIGIBLE-ASSETS-ONLY-001-VIOLATED: zone '' @ [CHR 0x27] @ zn_name z @ [CHR 0x27]
               @ '' references ineligible asset '' @ [CHR 0x27] @ asset_id @ [CHR 0x27] @ '': '' @ reason]))
          (zn_assets z))) (filter zn_enabled zones)))"

section \<open>The single point of enforcement\<close>

definition raise_first :: "string list \<Rightarrow> unit res" where
  "raise_first violations = (case violations of [] \<Rightarrow> Inr () | v # _ \<Rightarrow> Inl (ValueError v))"

definition validate_zone_plan_integrity ::
  "zone list \<Rightarrow> time_of_day \<Rightarrow> int option \<Rightarrow> (string \<Rightarrow> bool \<times> string) option \<Rightarrow> unit res" where
  "validate_zone_plan_integrity zones programming_day_start grid_block_minutes asset_eligibility_checker =
     bind_res (check_grid_alignment zones grid_block_minutes) (\<lambda>grid_violations.
     bind_res (raise_first grid_violations) (\<lambda>_.
     bind_res (raise_first (check_overlap zones programming_day_start)) (\<lambda>_.
     bind_res (raise_first (check_coverage zones programming_day_start)) (\<lambda>_.
     raise_first (check_asset_eligibility zones asset_eligibility_checker)))))"

section \<open>What the intervals hold\<close>

definition holds_minute :: "(int \<times> int) list \<Rightarrow> int \<Rightarrow> bool" where
  "holds_minute ivs m \<longleftrightarrow> (\<exists>p \<in> set ivs. fst p \<le> m \<and> m < snd p)"

text \<open>The minutes of the clock a zone is on the air, from its start to its end around midnight.\<close>

definition zone_length :: "zone \<Rightarrow> int" where
  "zone_length z =
     (let d = (time_to_minutes (zn_end z) - time_to_minutes (zn_start z)) mod 1440 in if d = 0 then 1440 else d)"

definition zone_on_air :: "zone \<Rightarrow> int \<Rightarrow> bool" where
  "zone_on_air z w \<longleftrightarrow> (w - time_to_minutes (zn_start z)) mod 1440 < zone_length z"

lemma mod_small_diff:
  fixes a b :: int
  assumes "0 \<le> a" "a < 1440" "0 \<le> b" "b < 1440"
  shows "(a - b) mod 1440 = (if b \<le> a then a - b else a - b + 1440)"
proof (cases "b \<le> a")
  case False
  have "(a - b) mod 1440 = (a - b + 1440) mod 1440" by simp
  also have "\<dots> = a - b + 1440" using False assms by (intro mod_pos_pos_trivial) auto
  finally show ?thesis using False by simp
qed (use assms in auto)

lemma normalize_intervals_hold:
  assumes "0 \<le> m" "m < 1440"
  shows "holds_minute (normalize_intervals rs re pds) m \<longleftrightarrow>
    (m + pds - rs) mod 1440 < (if (re - rs) mod 1440 = 0 then 1440 else (re - rs) mod 1440)"
proof -
  define s e where "s = (rs - pds) mod 1440" and "e = (re - pds) mod 1440"
  have se: "0 \<le> s" "s < 1440" "0 \<le> e" "e < 1440" by (simp_all add: s_def e_def)
  have 1: "(m + pds - rs) mod 1440 = (m - s) mod 1440" by (simp add: s_def mod_simps algebra_simps)
  have 2: "(re - rs) mod 1440 = (e - s) mod 1440" unfolding s_def e_def by (simp add: mod_diff_eq)
  have "holds_minute (normalize_intervals rs re pds) m \<longleftrightarrow>
      (let e' = if e = 0 then 1440 else e in if s < e' then s \<le> m \<and> m < e' else s \<le> m \<or> m < e')"
    using assms se by (auto simp: holds_minute_def normalize_intervals_def Let_def s_def [symmetric] e_def [symmetric])
  then show ?thesis using assms se
    unfolding 1 2 mod_small_diff [OF assms se(1,2)] mod_small_diff [OF se(3,4,1,2)] Let_def by auto
qed

lemma zone_intervals_hold:
  assumes "0 \<le> m" "m < 1440"
  shows "holds_minute (zone_intervals pds z) m \<longleftrightarrow> zone_on_air z ((m + pds) mod 1440)"
  by (simp add: zone_intervals_def normalize_intervals_hold [OF assms] zone_on_air_def zone_length_def Let_def mod_simps)

lemma zone_interval_bounds:
  "p \<in> set (zone_intervals pds z) \<Longrightarrow> 0 \<le> fst p \<and> fst p < snd p \<and> snd p \<le> 1440"
proof -
  have "0 \<le> k mod 1440" "k mod 1440 < 1440" for k :: int by simp_all
  then show "p \<in> set (zone_intervals pds z) \<Longrightarrow> 0 \<le> fst p \<and> fst p < snd p \<and> snd p \<le> 1440"
    by (fastforce simp: zone_intervals_def normalize_intervals_def Let_def split: if_splits)
qed

text \<open>A statement about every minute of the broadcast day is one about every minute of the clock.\<close>

lemma all_minutes_shift:
  "(\<forall>m::int. 0 \<le> m \<and> m < 1440 \<longrightarrow> P ((m + pds) mod 1440)) \<longleftrightarrow> (\<forall>w. 0 \<le> w \<and> w < 1440 \<longrightarrow> P w)"
proof
  assume *: "\<forall>m. 0 \<le> m \<and> m < 1440 \<longrightarrow> P ((m + pds) mod 1440)"
  show "\<forall>w. 0 \<le> w \<and> w < 1440 \<longrightarrow> P w"
  proof (intro allI impI)
    fix w :: int assume w: "0 \<le> w \<and> w < 1440"
    have "((w - pds) mod 1440 + pds) mod 1440 = w" using w by (simp add: mod_simps)
    then show "P w" using * [rule_format, of "(w - pds) mod 1440"] by simp
  qed
qed simp

section \<open>What the checks decide\<close>

lemma interval_pair_overlap_None:
  "interval_pair_overlap a b c d = None \<longleftrightarrow> \<not> (\<exists>m. a \<le> m \<and> m < b \<and> c \<le> m \<and> m < d)"
proof -
  have "max a c < min b d \<longleftrightarrow> (\<exists>m. a \<le> m \<and> m < b \<and> c \<le> m \<and> m < d)"
  proof
    assume "max a c < min b d"
    then show "\<exists>m. a \<le> m \<and> m < b \<and> c \<le> m \<and> m < d" by (intro exI [of _ "max a c"]) auto
  qed auto
  moreover have "interval_pair_overlap a b c d = None \<longleftrightarrow> \<not> max a c < min b d"
    unfolding interval_pair_overlap_def Let_def by (cases "max a c < min b d") (simp_all only: if_True if_False simp_thms option.distinct)
  ultimately show ?thesis by (simp only:)
qed

lemma pair_overlaps_empty:
  "pair_overlaps pds a b = [] \<longleftrightarrow>
    (\<forall>d m. 0 \<le> m \<and> m < 1440 \<longrightarrow> \<not> (d \<in> effective_days a \<and> holds_minute (zone_intervals pds a) m
       \<and> d \<in> effective_days b \<and> holds_minute (zone_intervals pds b) m))"
proof -
  let ?A = "zone_intervals pds a" and ?B = "zone_intervals pds b"
  have hits: "(case interval_pair_overlap w x y v of None \<Rightarrow> [] | Some hit \<Rightarrow> [overlap_text pds a b hit]) = []
      \<longleftrightarrow> interval_pair_overlap w x y v = None" for w x y v
    by (simp split: option.splits)
  have 1: "pair_overlaps pds a b = [] \<longleftrightarrow> days_overlap a b = {}
    \<or> (\<forall>p \<in> set ?A. \<forall>q \<in> set ?B. \<not> (\<exists>m. fst p \<le> m \<and> m < snd p \<and> fst q \<le> m \<and> m < snd q))"
    unfolding interval_pair_overlap_None [symmetric]
    by (simp add: pair_overlaps_def hits)
  have range: "0 \<le> m \<and> m < 1440" if "p \<in> set ?A" "fst p \<le> m" "m < snd p" for p m
    using zone_interval_bounds [OF that(1)] that by linarith
  show ?thesis unfolding 1 days_overlap_def holds_minute_def using range by blast
qed

lemma overlaps_from_empty:
  "overlaps_from pds zs = [] \<longleftrightarrow> sorted_wrt (\<lambda>a b. pair_overlaps pds a b = []) zs"
  by (induction zs) auto

lemma at_most_one_iff:
  "length (filter P xs) \<le> 1 \<longleftrightarrow> sorted_wrt (\<lambda>a b. \<not> (P a \<and> P b)) xs"
proof (induction xs)
  case (Cons x xs)
  have "filter P xs = [] \<longleftrightarrow> (\<forall>y \<in> set xs. \<not> P y)" by (auto simp: filter_empty_conv)
  with Cons show ?case by auto
qed simp

lemma sorted_wrt_all: "(\<forall>k. sorted_wrt (Q k) xs) \<longleftrightarrow> sorted_wrt (\<lambda>a b. \<forall>k. Q k a b) xs"
  by (induction xs) auto

lemma sorted_wrt_guard: "sorted_wrt (\<lambda>a b. C \<longrightarrow> R a b) xs \<longleftrightarrow> (C \<longrightarrow> sorted_wrt R xs)"
  by (induction xs) auto

definition day_holders :: "int \<Rightarrow> string \<Rightarrow> int \<Rightarrow> zone list \<Rightarrow> zone list" where
  "day_holders pds d m zs = filter (\<lambda>z. d \<in> effective_days z \<and> holds_minute (zone_intervals pds z) m) zs"

lemma check_overlap_empty:
  "check_overlap zones pd = [] \<longleftrightarrow>
    (\<forall>d m. 0 \<le> m \<and> m < 1440 \<longrightarrow> length (day_holders (time_to_minutes pd) d m (filter zn_enabled zones)) \<le> 1)"
proof -
  let ?zs = "filter zn_enabled zones" and ?pds = "time_to_minutes pd"
  let ?Q = "\<lambda>k a b. 0 \<le> snd k \<and> snd k < 1440 \<longrightarrow>
    \<not> ((fst k \<in> effective_days a \<and> holds_minute (zone_intervals ?pds a) (snd k))
       \<and> (fst k \<in> effective_days b \<and> holds_minute (zone_intervals ?pds b) (snd k)))"
  have p: "pair_overlaps ?pds a b = [] \<longleftrightarrow> (\<forall>k. ?Q k a b)" for a b
    unfolding pair_overlaps_empty by auto
  have "check_overlap zones pd = [] \<longleftrightarrow> (\<forall>k. sorted_wrt (?Q k) ?zs)"
    unfolding check_overlap_def overlaps_from_empty p sorted_wrt_all ..
  also have "\<dots> \<longleftrightarrow> (\<forall>k. 0 \<le> snd k \<and> snd k < 1440 \<longrightarrow> sorted_wrt (\<lambda>a b.
    \<not> ((fst k \<in> effective_days a \<and> holds_minute (zone_intervals ?pds a) (snd k))
       \<and> (fst k \<in> effective_days b \<and> holds_minute (zone_intervals ?pds b) (snd k)))) ?zs)"
    unfolding sorted_wrt_guard ..
  also have "\<dots> \<longleftrightarrow> (\<forall>d m. 0 \<le> m \<and> m < 1440 \<longrightarrow> length (day_holders ?pds d m ?zs) \<le> 1)"
    unfolding day_holders_def at_most_one_iff by auto
  finally show ?thesis .
qed

text \<open>A merged list starts with everything that is reached without a gap.\<close>

lemma merge_intervals_head:
  assumes "sorted (map fst (p # ps))" "fst p \<le> snd p"
  shows "(\<forall>m. fst p \<le> m \<and> m < T \<longrightarrow> holds_minute (p # ps) m) \<longleftrightarrow> T \<le> snd (hd (merge_intervals p ps))"
  using assms
proof (induction ps arbitrary: p)
  case Nil
  show ?case
  proof
    assume *: "\<forall>m. fst p \<le> m \<and> m < T \<longrightarrow> holds_minute [p] m"
    show "T \<le> snd (hd (merge_intervals p []))"
    proof (rule ccontr)
      assume "\<not> ?thesis"
      then show False using * [rule_format, of "snd p"] Nil.prems(2) by (simp add: holds_minute_def)
    qed
  qed (auto simp: holds_minute_def)
next
  case (Cons q qs)
  show ?case
  proof (cases "fst q \<le> snd p")
    case True
    have "holds_minute ((fst p, max (snd p) (snd q)) # qs) m \<longleftrightarrow> holds_minute (p # q # qs) m" for m
      using True Cons.prems by (auto simp: holds_minute_def)
    moreover have "(\<forall>m. fst p \<le> m \<and> m < T \<longrightarrow> holds_minute ((fst p, max (snd p) (snd q)) # qs) m)
        \<longleftrightarrow> T \<le> snd (hd (merge_intervals (fst p, max (snd p) (snd q)) qs))"
      using Cons.IH [of "(fst p, max (snd p) (snd q))"] Cons.prems by simp
    ultimately show ?thesis using True by simp
  next
    case False
    have "T \<le> snd p" if "\<forall>m. fst p \<le> m \<and> m < T \<longrightarrow> holds_minute (p # q # qs) m"
    proof (rule ccontr)
      assume "\<not> T \<le> snd p"
      then have "holds_minute (p # q # qs) (snd p)" using that Cons.prems(2) by simp
      then show False using False Cons.prems(1) by (force simp: holds_minute_def)
    qed
    then show ?thesis using False by (auto simp: holds_minute_def)
  qed
qed

lemma merge_intervals_start: "fst (hd (merge_intervals p ps)) = fst p"
  by (induction ps arbitrary: p) auto

lemma merge_intervals_nonempty: "merge_intervals p ps \<noteq> []"
  by (induction ps arbitrary: p) auto

lemma merge_intervals_set:
  "q \<in> set (merge_intervals p ps) \<Longrightarrow> fst q \<in> fst ` set (p # ps)"
  by (induction ps arbitrary: p) (auto split: if_splits)

lemma merge_intervals_apart: "sorted_wrt (\<lambda>a b. snd a < fst b) (merge_intervals p ps)"
  if "sorted (map fst (p # ps))" "\<And>q. q \<in> set (p # ps) \<Longrightarrow> fst q \<le> snd q"
  using that
proof (induction ps arbitrary: p)
  case (Cons q qs)
  show ?case
  proof (cases "fst q \<le> snd p")
    case True
    have "sorted_wrt (\<lambda>a b. snd a < fst b) (merge_intervals (fst p, max (snd p) (snd q)) qs)"
    proof (rule Cons.IH)
      show "fst r \<le> snd r" if "r \<in> set ((fst p, max (snd p) (snd q)) # qs)" for r
        using that Cons.prems(2) [of p] Cons.prems(2) [of r] by auto
    qed (use Cons.prems in auto)
    then show ?thesis using True by simp
  next
    case False
    have "snd p < fst r" if r: "r \<in> set (merge_intervals q qs)" for r
      using merge_intervals_set [OF r] False Cons.prems(1) by auto
    then show ?thesis using False Cons.IH [of q] Cons.prems by auto
  qed
qed simp

lemma inner_gaps_empty:
  "sorted_wrt (\<lambda>a b. snd a < fst b) ps \<Longrightarrow> inner_gaps pds day ps = [] \<longleftrightarrow> length ps \<le> 1"
  by (induction pds day ps rule: inner_gaps.induct) auto

lemma day_gaps_empty:
  "day_gaps pds active day = [] \<longleftrightarrow>
    (\<forall>m. 0 \<le> m \<and> m < 1440 \<longrightarrow> holds_minute (day_intervals pds day active) m)"
proof (cases "sort (day_intervals pds day active)")
  case Nil
  then have "day_intervals pds day active = []" by (metis set_empty set_sort)
  then show ?thesis by (auto simp: day_gaps_def holds_minute_def intro: exI [of _ 0])
next
  case (Cons p ps)
  have set: "set (p # ps) = set (day_intervals pds day active)" by (metis Cons set_sort)
  have ok: "0 \<le> fst q \<and> fst q < snd q \<and> snd q \<le> 1440" if q: "q \<in> set (p # ps)" for q
  proof -
    from q obtain z where "q \<in> set (zone_intervals pds z)" unfolding set day_intervals_def by auto
    then show ?thesis by (rule zone_interval_bounds)
  qed
  have "sorted (p # ps)" using sorted_sort [of "day_intervals pds day active"] unfolding Cons .
  then have sorted: "sorted (map fst (p # ps))"
    unfolding sorted_map by (rule sorted_wrt_mono_rel [rotated]) auto
  have hm: "holds_minute (day_intervals pds day active) = holds_minute (p # ps)"
    unfolding holds_minute_def set ..
  let ?M = "merge_intervals p ps"
  have apart: "sorted_wrt (\<lambda>a b. snd a < fst b) ?M"
    by (rule merge_intervals_apart [OF sorted]) (use ok in force)
  obtain h t where M: "?M = h # t" using merge_intervals_nonempty [of p ps] by (cases ?M) auto
  have "p \<in> set (p # ps)" by simp
  note okp = ok [OF this]
  have head: "(\<forall>m. fst p \<le> m \<and> m < 1440 \<longrightarrow> holds_minute (p # ps) m) \<longleftrightarrow> 1440 \<le> snd h"
    using merge_intervals_head [OF sorted, of 1440] M okp by simp
  have start: "fst h = fst p" using merge_intervals_start [of p ps] M by simp
  have single: "t = []" if "1440 \<le> snd h"
  proof (cases t)
    case (Cons u us)
    then have "snd h < fst u" using apart M by simp
    moreover have "fst u \<in> fst ` set (p # ps)" using merge_intervals_set [of u p ps] M Cons by simp
    ultimately show ?thesis using that ok by fastforce
  qed
  have later: "fst p \<le> fst q" if "q \<in> set (p # ps)" for q using sorted that by auto
  have first: "\<not> holds_minute (p # ps) 0" if "0 < fst p"
    using later that unfolding holds_minute_def by fastforce
  have "day_gaps pds active day = [] \<longleftrightarrow> fst p \<le> 0 \<and> t = [] \<and> 1440 \<le> snd h"
  proof -
    have "inner_gaps pds day (h # t) = [] \<longleftrightarrow> t = []" using inner_gaps_empty [OF apart] M by simp
    then show ?thesis by (auto simp: day_gaps_def Cons M start Let_def not_less)
  qed
  also have "\<dots> \<longleftrightarrow> fst p \<le> 0 \<and> 1440 \<le> snd h" using single by blast
  also have "\<dots> \<longleftrightarrow> (\<forall>m. 0 \<le> m \<and> m < 1440 \<longrightarrow> holds_minute (p # ps) m)"
    using head okp first by (cases "fst p = 0") (auto simp: not_less)
  finally show ?thesis unfolding hm .
qed

lemma holds_day_intervals:
  "holds_minute (day_intervals pds day active) m \<longleftrightarrow> day_holders pds day m active \<noteq> []"
  by (auto simp: holds_minute_def day_intervals_def day_holders_def filter_empty_conv)

lemma finite_effective_days: "finite (effective_days z)"
  by (simp add: effective_days_def all_days_def split: option.splits list.splits)

lemma effective_days_nonempty: "effective_days z \<noteq> {}"
  by (simp add: effective_days_def all_days_def split: option.splits list.splits)

lemma check_coverage_empty:
  "check_coverage zones pd = [] \<longleftrightarrow> filter zn_enabled zones \<noteq> []
    \<and> (\<forall>d \<in> plan_days (filter zn_enabled zones). \<forall>m. 0 \<le> m \<and> m < 1440 \<longrightarrow>
        day_holders (time_to_minutes pd) d m (filter zn_enabled zones) \<noteq> [])"
proof -
  have "finite (plan_days (filter zn_enabled zones))"
    by (simp add: plan_days_def finite_effective_days)
  then show ?thesis by (auto simp: check_coverage_def Let_def day_gaps_empty holds_day_intervals)
qed

text \<open>Both checks together: on every day the plan covers, each minute of the clock is in one zone.\<close>

definition zones_tile :: "zone list \<Rightarrow> bool" where
  "zones_tile active \<longleftrightarrow> active \<noteq> [] \<and> (\<forall>d \<in> plan_days active. \<forall>w. 0 \<le> w \<and> w < 1440 \<longrightarrow>
     length (filter (\<lambda>z. d \<in> effective_days z \<and> zone_on_air z w) active) = 1)"

lemma exactly_one_iff:
  fixes n :: "'d \<Rightarrow> 'w \<Rightarrow> nat"
  assumes off: "\<And>d w. d \<notin> D \<Longrightarrow> n d w = 0"
  shows "(\<forall>d w. C w \<longrightarrow> n d w \<le> 1) \<and> (\<forall>d \<in> D. \<forall>w. C w \<longrightarrow> 1 \<le> n d w)
    \<longleftrightarrow> (\<forall>d \<in> D. \<forall>w. C w \<longrightarrow> n d w = 1)"
proof
  assume *: "\<forall>d \<in> D. \<forall>w. C w \<longrightarrow> n d w = 1"
  have "n d w \<le> 1" if "C w" for d w using * off [of d w] that by (cases "d \<in> D") auto
  then show "(\<forall>d w. C w \<longrightarrow> n d w \<le> 1) \<and> (\<forall>d \<in> D. \<forall>w. C w \<longrightarrow> 1 \<le> n d w)" using * by auto
qed (auto simp: le_antisym)

lemma overlap_and_coverage:
  "check_overlap zones pd = [] \<and> check_coverage zones pd = [] \<longleftrightarrow> zones_tile (filter zn_enabled zones)"
proof -
  let ?zs = "filter zn_enabled zones" and ?pds = "time_to_minutes pd"
  define n where "n d w = length (filter (\<lambda>z. d \<in> effective_days z \<and> zone_on_air z w) ?zs)" for d w
  have hold: "length (day_holders ?pds d m ?zs) = n d ((m + ?pds) mod 1440)" if "0 \<le> m \<and> m < 1440" for d m
    unfolding day_holders_def n_def
    by (intro arg_cong [where f = length] filter_cong refl) (use that zone_intervals_hold in auto)
  have ne: "day_holders ?pds d m ?zs \<noteq> [] \<longleftrightarrow> 1 \<le> n d ((m + ?pds) mod 1440)" if "0 \<le> m \<and> m < 1440" for d m
    unfolding hold [OF that, symmetric] by (cases "day_holders ?pds d m ?zs") simp_all
  have shift: "(\<forall>m. 0 \<le> m \<and> m < 1440 \<longrightarrow> n d ((m + ?pds) mod 1440) \<le> 1) \<longleftrightarrow> (\<forall>w. 0 \<le> w \<and> w < 1440 \<longrightarrow> n d w \<le> 1)"
    "(\<forall>m. 0 \<le> m \<and> m < 1440 \<longrightarrow> 1 \<le> n d ((m + ?pds) mod 1440)) \<longleftrightarrow> (\<forall>w. 0 \<le> w \<and> w < 1440 \<longrightarrow> 1 \<le> n d w)" for d
    by (rule all_minutes_shift)+
  have o: "check_overlap zones pd = [] \<longleftrightarrow> (\<forall>d w. 0 \<le> w \<and> w < 1440 \<longrightarrow> n d w \<le> 1)"
    unfolding check_overlap_empty shift(1) [symmetric] by (metis hold)
  have c: "check_coverage zones pd = [] \<longleftrightarrow> ?zs \<noteq> [] \<and> (\<forall>d \<in> plan_days ?zs. \<forall>w. 0 \<le> w \<and> w < 1440 \<longrightarrow> 1 \<le> n d w)"
    unfolding check_coverage_empty shift(2) [symmetric] by (metis ne)
  have off: "n d w = 0" if "d \<notin> plan_days ?zs" for d w
    using that by (auto simp: n_def plan_days_def filter_empty_conv)
  have "check_overlap zones pd = [] \<and> check_coverage zones pd = [] \<longleftrightarrow>
    ?zs \<noteq> [] \<and> (\<forall>d \<in> plan_days ?zs. \<forall>w. 0 \<le> w \<and> w < 1440 \<longrightarrow> n d w = 1)"
    unfolding o c using exactly_one_iff [of "plan_days ?zs" n "\<lambda>w. 0 \<le> w \<and> w < 1440", OF off] by blast
  then show ?thesis unfolding zones_tile_def n_def .
qed

section \<open>Zones on the exact clock\<close>

text \<open>
  The meaning of a zone, independent of the check: its times read to the microsecond, the value that stands
  for 24:00 being the end of the day.  A zone holds the instants from its start up to its end around
  midnight; the check works on rounded minutes, which agree with the clock for times on whole minutes.
\<close>

definition clock_us :: "time_of_day \<Rightarrow> int" where
  "clock_us t = (if t = end_of_day then us_per_day else t)"

definition on_minute :: "time_of_day \<Rightarrow> bool" where
  "on_minute t \<longleftrightarrow> clock_us t mod 60000000 = 0"

definition zone_us_length :: "zone \<Rightarrow> int" where
  "zone_us_length z =
     (let d = (clock_us (zn_end z) - clock_us (zn_start z)) mod us_per_day in if d = 0 then us_per_day else d)"

definition zone_holds :: "zone \<Rightarrow> int \<Rightarrow> bool" where
  "zone_holds z t \<longleftrightarrow> (t - clock_us (zn_start z)) mod us_per_day < zone_us_length z"

definition zone_on_minutes :: "zone \<Rightarrow> bool" where
  "zone_on_minutes z \<longleftrightarrow> on_minute (zn_start z) \<and> on_minute (zn_end z)"

lemma clock_us_minutes: "clock_us t = 60000000 * time_to_minutes t" if "on_minute t"
proof (cases "t = end_of_day")
  case False
  then have t: "t mod 60000000 = 0" using that by (simp add: on_minute_def clock_us_def)
  then have "second_of t = 0" by (auto simp: second_of_def dvd_eq_mod_eq_0 [symmetric] elim!: dvdE)
  moreover have "t div 60000000 = 60 * (t div us_per_hour) + t div 60000000 mod 60"
    using div_mult_mod_eq [of "t div 60000000" 60] by (simp add: div_mult2_eq us_defs zdiv_zmult2_eq [symmetric])
  moreover have "60000000 * (t div 60000000) = t" using t by auto
  ultimately show ?thesis using False
    by (simp add: clock_us_def time_to_minutes_def hour_of_def minute_of_def algebra_simps)
qed (simp add: clock_us_def time_to_minutes_def us_defs)

lemma zone_us_length_minutes: "zone_us_length z = 60000000 * zone_length z" if "zone_on_minutes z"
proof -
  have "(clock_us (zn_end z) - clock_us (zn_start z)) mod us_per_day
      = 60000000 * ((time_to_minutes (zn_end z) - time_to_minutes (zn_start z)) mod 1440)"
    using that by (simp add: zone_on_minutes_def clock_us_minutes us_defs mult_mod_right right_diff_distrib)
  then show ?thesis by (simp add: zone_us_length_def zone_length_def Let_def us_defs)
qed

lemma zone_holds_minutes: "zone_holds z t \<longleftrightarrow> zone_on_air z (t div 60000000)" if "zone_on_minutes z"
proof -
  define s where "s = time_to_minutes (zn_start z)"
  have s: "clock_us (zn_start z) = 60000000 * s" using that by (simp add: zone_on_minutes_def clock_us_minutes s_def)
  have "(t - 60000000 * s) div 60000000 = t div 60000000 - s" "(t - 60000000 * s) mod 60000000 = t mod 60000000"
    using div_mult_self1 [of 60000000 t "- s"] mod_mult_self1 [of t "- s" 60000000] by (simp_all add: mult.commute)
  then have "(t - 60000000 * s) mod us_per_day = 60000000 * ((t div 60000000 - s) mod 1440) + t mod 60000000"
    using zmod_zmult2_eq [of 1440 "t - 60000000 * s" 60000000] by (simp add: us_defs)
  moreover have "60000000 * x + t mod 60000000 < 60000000 * y \<longleftrightarrow> x < y" for x y :: int
    using pos_mod_bound [of 60000000 t] pos_mod_sign [of 60000000 t] by linarith
  ultimately show ?thesis using s zone_us_length_minutes [OF that]
    by (simp add: zone_holds_def zone_on_air_def s_def [symmetric])
qed

text \<open>A statement about every instant of the day is one about every minute, when only minutes matter.\<close>

lemma all_instants_minutes:
  "(\<forall>t. 0 \<le> t \<and> t < us_per_day \<longrightarrow> P (t div 60000000)) \<longleftrightarrow> (\<forall>w. 0 \<le> w \<and> w < 1440 \<longrightarrow> P w)"
proof
  assume *: "\<forall>t. 0 \<le> t \<and> t < us_per_day \<longrightarrow> P (t div 60000000)"
  have "P w" if "0 \<le> w" "w < 1440" for w
    using spec [OF *, of "60000000 * w"] that by (simp add: us_defs)
  then show "\<forall>w. 0 \<le> w \<and> w < 1440 \<longrightarrow> P w" by blast
next
  assume *: "\<forall>w. 0 \<le> w \<and> w < 1440 \<longrightarrow> P w"
  have "P (t div 60000000)" if "0 \<le> t" "t < us_per_day" for t
    by (rule * [rule_format]) (use that in \<open>auto simp: us_defs pos_imp_zdiv_nonneg_iff div_less_iff_less_mult\<close>)
  then show "\<forall>t. 0 \<le> t \<and> t < us_per_day \<longrightarrow> P (t div 60000000)" by blast
qed

text \<open>What the check accepts, in the minutes it works with.\<close>

lemma zone_check_minutes:
  "validate_zone_plan_integrity zones day_start grid checker = Inr () \<longleftrightarrow>
     (case grid of None \<Rightarrow> True
      | Some g \<Rightarrow> \<forall>z \<in> set zones. zn_enabled z \<longrightarrow> g \<noteq> 0 \<and> g dvd time_to_minutes (zn_start z)
          \<and> g dvd time_to_minutes (zn_end z) \<and> (zone_length z < 1440 \<longrightarrow> g dvd zone_length z))
     \<and> filter zn_enabled zones \<noteq> []
     \<and> (\<forall>d \<in> plan_days (filter zn_enabled zones). \<forall>w. 0 \<le> w \<and> w < 1440 \<longrightarrow>
          length (filter (\<lambda>z. d \<in> effective_days z \<and> zone_on_air z w) (filter zn_enabled zones)) = 1)
     \<and> (case checker of None \<Rightarrow> True
        | Some f \<Rightarrow> \<forall>z \<in> set zones. zn_enabled z \<longrightarrow> (\<forall>a \<in> set (zn_assets z). fst (f a)))"
proof -
  have mis: "zone_misalignments g z = [] \<longleftrightarrow> g dvd time_to_minutes (zn_start z)
      \<and> g dvd time_to_minutes (zn_end z) \<and> (zone_length z < 1440 \<longrightarrow> g dvd zone_length z)" for g z
  proof -
    define d where "d = (time_to_minutes (zn_end z) - time_to_minutes (zn_start z)) mod 1440"
    have d: "0 \<le> d" "d < 1440" by (simp_all add: d_def)
    have "zone_length z = (if d = 0 then 1440 else d)" by (simp add: zone_length_def d_def Let_def)
    then have "0 < d \<and> d mod g \<noteq> 0 \<longleftrightarrow> \<not> (zone_length z < 1440 \<longrightarrow> g dvd zone_length z)"
      using d by (auto simp: dvd_eq_mod_eq_0)
    then show ?thesis by (simp add: zone_misalignments_def d_def [symmetric] Let_def dvd_eq_mod_eq_0)
  qed
  have grid: "check_grid_alignment zones grid = Inr [] \<longleftrightarrow> (case grid of None \<Rightarrow> True
      | Some g \<Rightarrow> \<forall>z \<in> set zones. zn_enabled z \<longrightarrow> g \<noteq> 0 \<and> g dvd time_to_minutes (zn_start z)
          \<and> g dvd time_to_minutes (zn_end z) \<and> (zone_length z < 1440 \<longrightarrow> g dvd zone_length z))"
    by (auto simp: check_grid_alignment_def Let_def mis filter_empty_conv split: option.splits)
  have assets: "check_asset_eligibility zones checker = [] \<longleftrightarrow> (case checker of None \<Rightarrow> True
      | Some f \<Rightarrow> \<forall>z \<in> set zones. zn_enabled z \<longrightarrow> (\<forall>a \<in> set (zn_assets z). fst (f a)))"
    by (auto simp: check_asset_eligibility_def case_prod_unfold split: option.splits)
  have "raise_first vs = Inr () \<longleftrightarrow> vs = []" for vs by (cases vs) (simp_all add: raise_first_def)
  then have "validate_zone_plan_integrity zones day_start grid checker = Inr () \<longleftrightarrow>
      check_grid_alignment zones grid = Inr [] \<and> (check_overlap zones day_start = [] \<and> check_coverage zones day_start = [])
      \<and> check_asset_eligibility zones checker = []"
    by (auto simp: validate_zone_plan_integrity_def bind_res_Inr_iff)
  then show ?thesis unfolding overlap_and_coverage zones_tile_def grid assets by blast
qed

text \<open>Fewer than thirty seconds past a whole minute count as that minute.\<close>

lemma minutes_round_down:
  assumes "0 < d" "d < 30000000" "m * 60000000 + d \<noteq> end_of_day"
  shows "time_to_minutes (m * 60000000 + d) = m"
proof -
  have "(m * 60000000 + d) div 60000000 = m" using assms by (intro int_div_pos_eq [where r = d]) simp_all
  moreover have "(m * 60000000 + d) div us_per_hour = m div 60"
    using zdiv_zmult2_eq [of 60 "m * 60000000 + d" 60000000] calculation by (simp add: us_defs)
  moreover have "second_of (m * 60000000 + d) < 30"
  proof -
    have "(m * 60000000 + d) div 1000000 = m * 60 + d div 1000000"
      using div_mult_self3 [of 1000000 "m * 60" d] by (simp add: algebra_simps)
    moreover have "0 \<le> d div 1000000" "d div 1000000 < 30" using assms by (simp_all add: pos_imp_zdiv_nonneg_iff div_less_iff_less_mult)
    ultimately show ?thesis by (simp add: second_of_def mod_simps)
  qed
  ultimately show ?thesis using assms(3) by (simp add: time_to_minutes_def hour_of_def minute_of_def)
qed

section \<open>Worked example\<close>

definition demo_daypart :: "int \<Rightarrow> int \<Rightarrow> int \<Rightarrow> zone" where
  "demo_daypart u from_hour to_hour =
     \<lparr>zn_id = u, zn_plan = 1, zn_name = ''zone'' @ int_str u, zn_start = from_hour * us_per_hour,
      zn_end = to_hour * us_per_hour, zn_assets = [''a''], zn_days = None, zn_enabled = True,
      zn_eff_start = None, zn_eff_end = None, zn_dst = None\<rparr>"

definition demo_zones :: "zone list" where
  "demo_zones = [demo_daypart 1 6 22, demo_daypart 2 22 6, (demo_daypart 3 1 2)\<lparr>zn_enabled := False\<rparr>]"

section \<open>Properties\<close>

text \<open>
  C16. The zone check accepts exactly the plans that tile their days, measured on the exact clock: when the
  times of the enabled zones are whole minutes, \<^verbatim>\<open>validate_zone_plan_integrity\<close> raises nothing, for
  every start of the programming day, if and only if their starts, ends and lengths are multiples of the
  grid (when the channel has one), there is an enabled zone, on every day of the week that some enabled zone
  applies to each instant of the clock, to the microsecond, lies in exactly one enabled zone of that day,
  and every asset they name is eligible.  For times with seconds the check decides less: see the theorem after.
\<close>

theorem zone_check_accepts_tilings:
  assumes minutes: "\<forall>z \<in> set zones. zn_enabled z \<longrightarrow> zone_on_minutes z"
  shows "validate_zone_plan_integrity zones day_start grid checker = Inr () \<longleftrightarrow>
     (case grid of None \<Rightarrow> True
      | Some g \<Rightarrow> \<forall>z \<in> set zones. zn_enabled z \<longrightarrow> g \<noteq> 0 \<and> g * 60000000 dvd clock_us (zn_start z)
          \<and> g * 60000000 dvd clock_us (zn_end z)
          \<and> (zone_us_length z < us_per_day \<longrightarrow> g * 60000000 dvd zone_us_length z))
     \<and> filter zn_enabled zones \<noteq> []
     \<and> (\<forall>d \<in> plan_days (filter zn_enabled zones). \<forall>t. 0 \<le> t \<and> t < us_per_day \<longrightarrow>
          length (filter (\<lambda>z. d \<in> effective_days z \<and> zone_holds z t) (filter zn_enabled zones)) = 1)
     \<and> (case checker of None \<Rightarrow> True
        | Some f \<Rightarrow> \<forall>z \<in> set zones. zn_enabled z \<longrightarrow> (\<forall>a \<in> set (zn_assets z). fst (f a)))"
proof -
  let ?zs = "filter zn_enabled zones"
  have on: "zone_on_minutes z" if "z \<in> set ?zs" for z using that minutes by simp
  have grid: "(g * 60000000 dvd clock_us (zn_start z) \<longleftrightarrow> g dvd time_to_minutes (zn_start z))
      \<and> (g * 60000000 dvd clock_us (zn_end z) \<longleftrightarrow> g dvd time_to_minutes (zn_end z))
      \<and> (g * 60000000 dvd zone_us_length z \<longleftrightarrow> g dvd zone_length z)
      \<and> (zone_us_length z < us_per_day \<longleftrightarrow> zone_length z < 1440)" if "zone_on_minutes z" for g z
    using that by (simp add: zone_us_length_minutes us_defs) (simp add: zone_on_minutes_def clock_us_minutes mult.commute)
  have n: "length (filter (\<lambda>z. d \<in> effective_days z \<and> zone_holds z t) ?zs)
      = length (filter (\<lambda>z. d \<in> effective_days z \<and> zone_on_air z (t div 60000000)) ?zs)" for d t
    by (intro arg_cong [where f = length] filter_cong refl) (use on zone_holds_minutes in blast)
  have tile: "(\<forall>t. 0 \<le> t \<and> t < us_per_day \<longrightarrow> length (filter (\<lambda>z. d \<in> effective_days z \<and> zone_holds z t) ?zs) = 1)
      \<longleftrightarrow> (\<forall>w. 0 \<le> w \<and> w < 1440 \<longrightarrow> length (filter (\<lambda>z. d \<in> effective_days z \<and> zone_on_air z w) ?zs) = 1)" for d
    unfolding n by (rule all_instants_minutes)
  show ?thesis unfolding zone_check_minutes tile
    using minutes grid by (auto split: option.splits)
qed

theorem zone_check_accepts_tilings_witness:
  "validate_zone_plan_integrity demo_zones (6 * us_per_hour) (Some 30) None = Inr ()
    \<and> length (filter (\<lambda>z. ''MON'' \<in> effective_days z \<and> zone_holds z 82800000001) (filter zn_enabled demo_zones)) = 1"
proof -
  have ok: "validate_zone_plan_integrity demo_zones (6 * us_per_hour) (Some 30) None = Inr ()" by code_simp
  have day: "''MON'' \<in> plan_days (filter zn_enabled demo_zones)" by code_simp
  have "\<forall>z \<in> set demo_zones. zn_enabled z \<longrightarrow> zone_on_minutes z" by code_simp
  note zone_check_accepts_tilings [OF this, THEN iffD1, OF ok]
  then have "\<forall>t. 0 \<le> t \<and> t < us_per_day \<longrightarrow>
      length (filter (\<lambda>z. ''MON'' \<in> effective_days z \<and> zone_holds z t) (filter zn_enabled demo_zones)) = 1"
    using day by blast
  then show ?thesis using ok by (simp add: us_defs)
qed

text \<open>
  C18. Seconds are rounded away: a lone enabled zone from a whole minute on the grid to less than thirty
  seconds later, without day filters, is accepted as coverage of the whole week, for every start of the
  programming day, although it holds only those seconds of the clock and its end is not on the grid.
\<close>

theorem seconds_zone_accepted:
  assumes z: "zn_enabled z" "zn_assets z = []" and grid: "0 < g" "zn_start z = m * 60000000" "g dvd m"
    and s: "0 \<le> m" "m < 1440" "zn_end z = zn_start z + d" "0 < d" "d < 30000000"
  shows "validate_zone_plan_integrity [z] day_start (Some g) checker = Inr ()
    \<and> (\<forall>t. 0 \<le> t \<and> t < us_per_day \<longrightarrow> (zone_holds z t \<longleftrightarrow> zn_start z \<le> t \<and> t < zn_start z + d))
    \<and> \<not> g * 60000000 dvd clock_us (zn_end z)"
proof -
  have start: "zn_start z \<noteq> end_of_day" and fin: "zn_end z \<noteq> end_of_day"
    using grid(2) s by (simp_all add: end_of_day_def us_defs)
  have "time_to_minutes (zn_start z) = m"
    using start clock_us_minutes [of "zn_start z"] grid(2) by (simp add: clock_us_def on_minute_def)
  moreover have "time_to_minutes (zn_end z) = m" using minutes_round_down [OF s(4,5), of m] fin s(3) grid(2) by simp
  ultimately have mins: "time_to_minutes (zn_start z) = m" "time_to_minutes (zn_end z) = m" by simp_all
  then have "zone_length z = 1440" by (simp add: zone_length_def)
  then have "zone_on_air z w" for w by (simp add: zone_on_air_def)
  then have ok: "validate_zone_plan_integrity [z] day_start (Some g) checker = Inr ()"
    unfolding zone_check_minutes using z grid mins \<open>zone_length z = 1440\<close>
    by (auto simp: plan_days_def split: option.splits)
  have len: "zone_us_length z = d" using start fin s by (simp add: zone_us_length_def clock_us_def us_defs Let_def)
  have holds: "zone_holds z t \<longleftrightarrow> zn_start z \<le> t \<and> t < zn_start z + d" if t: "0 \<le> t" "t < us_per_day" for t
  proof -
    have "0 \<le> zn_start z" "zn_start z < us_per_day" "zn_start z + d < us_per_day" using grid(2) s by (simp_all add: us_defs)
    moreover have "(t - zn_start z) mod us_per_day = t - zn_start z + us_per_day" if "t < zn_start z"
    proof -
      have "(t - zn_start z) mod us_per_day = (t - zn_start z + us_per_day) mod us_per_day" by simp
      also have "\<dots> = t - zn_start z + us_per_day" by (rule mod_pos_pos_trivial) (use that t \<open>zn_start z < us_per_day\<close> in simp_all)
      finally show ?thesis .
    qed
    ultimately show ?thesis using t start len s by (cases "t < zn_start z") (auto simp: zone_holds_def clock_us_def)
  qed
  have "\<not> 60000000 dvd zn_end z" using s grid(2) by (simp add: dvd_eq_mod_eq_0)
  then have "\<not> g * 60000000 dvd clock_us (zn_end z)" using fin by (auto simp: clock_us_def elim: dvd_mult_right)
  then show ?thesis using ok holds by blast
qed

theorem seconds_zone_accepted_witness:
  "\<exists>z. validate_zone_plan_integrity [z] 0 (Some 30) None = Inr () \<and> \<not> zone_holds z (12 * us_per_hour)"
proof -
  define z where "z = (demo_daypart 1 6 6)\<lparr>zn_assets := [], zn_end := 6 * us_per_hour + 29000000\<rparr>"
  have "validate_zone_plan_integrity [z] 0 (Some 30) None = Inr ()
    \<and> (\<forall>t. 0 \<le> t \<and> t < us_per_day \<longrightarrow> (zone_holds z t \<longleftrightarrow> zn_start z \<le> t \<and> t < zn_start z + 29000000))
    \<and> \<not> 30 * 60000000 dvd clock_us (zn_end z)"
    by (rule seconds_zone_accepted [where m = 360]) (simp_all add: z_def demo_daypart_def us_defs)
  then show ?thesis by (intro exI [of _ z]) (simp add: z_def demo_daypart_def us_defs)
qed

end
