(* ===== verification/Zone_Editing.thy ===== *)
theory Zone_Editing
  imports Zone_Coverage
begin

text \<open>
  Adding, changing and deleting the zones of a schedule plan: \<^verbatim>\<open>usecases/zone_add.py\<close>,
  \<^verbatim>\<open>usecases/zone_update.py\<close> and \<^verbatim>\<open>usecases/zone_delete.py\<close>.  The tables are lists of rows in the
  order a query returns them; an operation that raises leaves them as they were, because the unit of
  work around it rolls back.  The identifier a new row gets is an argument.  A zone is edited alone
  and the plan is checked after every edit; the invariant of this theory is what that comes to.
\<close>

section \<open>Tables\<close>

record plan_row =
  sp_id :: int
  sp_name :: string
  sp_channel :: int

record channel_row =
  ch_id :: int
  ch_day_start :: time_of_day
  ch_grid :: "int option"

record zone_db =
  zd_plans :: "plan_row list"
  zd_channels :: "channel_row list"
  zd_zones :: "zone list"

section \<open>Validation of the arguments\<close>

definition find_by :: "('a \<Rightarrow> int) \<Rightarrow> ('a \<Rightarrow> string) \<Rightarrow> 'a list \<Rightarrow> string \<Rightarrow> 'a option" where
  "find_by key name rows identifier =
     (case (case uuid_parse identifier of None \<Rightarrow> None | Some u \<Rightarrow> find (\<lambda>r. key r = u) rows) of
        Some r \<Rightarrow> Some r
      | None \<Rightarrow> find (\<lambda>r. py_lower (name r) = py_lower identifier) rows)"

definition resolve_plan :: "zone_db \<Rightarrow> string \<Rightarrow> plan_row res" where
  "resolve_plan db identifier =
     (case find_by sp_id sp_name (zd_plans db) identifier of
        None \<Rightarrow> Inl (ValueError ''Plan not found'') | Some p \<Rightarrow> Inr p)"

definition resolve_zone :: "zone_db \<Rightarrow> string \<Rightarrow> zone res" where
  "resolve_zone db identifier =
     (case find_by zn_id zn_name (zd_zones db) identifier of
        None \<Rightarrow> Inl (ValueError ''Zone not found'') | Some z \<Rightarrow> Inr z)"

definition check_zone_name :: "zone list \<Rightarrow> string \<Rightarrow> unit res" where
  "check_zone_name existing name =
     (if \<exists>z \<in> set existing. py_lower (py_strip (zn_name z)) = py_lower (py_strip name)
      then Inl (ValueError ''Zone name already exists in plan'') else Inr ())"

definition parse_zone_time :: "string \<Rightarrow> time_of_day res" where
  "parse_zone_time time_str =
     (let text = py_strip time_str
      in if text = ''24:00'' \<or> text = ''24:00:00'' then Inr end_of_day
         else (case map (int_of_text 10) (split_char (CHR '':'') text) of
                 [Some h, Some m] \<Rightarrow> (case py_time h m 0 of None \<Rightarrow> Inl (ValueError ''time'') | Some t \<Rightarrow> Inr t)
               | [Some h, Some m, Some s] \<Rightarrow>
                   (case py_time h m s of None \<Rightarrow> Inl (ValueError ''time'') | Some t \<Rightarrow> Inr t)
               | parts \<Rightarrow> Inl (ValueError (if length parts = 2 \<or> length parts = 3
                     then ''invalid literal for int()'' else ''Invalid time format''))))"

definition validate_time_range :: "time_of_day \<Rightarrow> time_of_day \<Rightarrow> unit res" where
  "validate_time_range start_time end_time =
     (if start_time = end_time then Inl (ValueError ''start_time and end_time cannot be identical'') else Inr ())"

definition validate_day_filters :: "string list option \<Rightarrow> string list option res" where
  "validate_day_filters day_filters =
     (case day_filters of
        None \<Rightarrow> Inr None
      | Some days \<Rightarrow>
        map_sum id Some (map_res (\<lambda>day. let d = py_strip (py_upper day)
          in if d \<in> all_days then Inr d else Inl (ValueError ''Invalid day filter'')) days))"

definition validate_dst_policy :: "string option \<Rightarrow> string option res" where
  "validate_dst_policy dst_policy =
     (case dst_policy of
        None \<Rightarrow> Inr None
      | Some p \<Rightarrow>
        (let policy = py_strip (py_lower p)
         in if policy \<in> {''reject'', ''shrink_one_block'', ''expand_one_block''} then Inr (Some policy)
            else Inl (ValueError ''Invalid DST policy'')))"

definition validate_date_format :: "string \<Rightarrow> date res" where
  "validate_date_format s =
     (case from_iso_date s of None \<Rightarrow> Inl (ValueError ''Invalid date format'') | Some d \<Rightarrow> Inr d)"

text \<open>An optional date argument: the empty string counts as absent when a zone is created.\<close>

definition optional_date :: "string option \<Rightarrow> date option res" where
  "optional_date s =
     (case s of None \<Rightarrow> Inr None | Some t \<Rightarrow> if t = [] then Inr None else map_sum id Some (validate_date_format t))"

definition validate_date_range :: "date option \<Rightarrow> date option \<Rightarrow> unit res" where
  "validate_date_range effective_start effective_end =
     (case (effective_start, effective_end) of
        (Some a, Some b) \<Rightarrow>
          if b < a then Inl (ValueError ''effective_start must be <= effective_end'') else Inr ()
      | _ \<Rightarrow> Inr ())"

text \<open>The channel's settings, or midnight and no grid when the channel is missing.\<close>

definition plan_settings :: "zone_db \<Rightarrow> plan_row \<Rightarrow> time_of_day \<times> int option" where
  "plan_settings db p =
     (case find (\<lambda>c. ch_id c = sp_channel p) (zd_channels db) of
        None \<Rightarrow> (0, None) | Some c \<Rightarrow> (ch_day_start c, ch_grid c))"

definition format_time :: "time_of_day \<Rightarrow> string" where
  "format_time t = (if t = end_of_day then ''24:00:00'' else time_hms t)"

section \<open>The operations\<close>

record zone_request =
  zr_plan :: string
  zr_name :: string
  zr_start :: string
  zr_end :: string
  zr_assets :: "string list option"
  zr_days :: "string list option"
  zr_enabled :: bool
  zr_eff_start :: "string option"
  zr_eff_end :: "string option"
  zr_dst :: "string option"

definition plan_zones :: "zone_db \<Rightarrow> int \<Rightarrow> zone list" where
  "plan_zones db plan = filter (\<lambda>z. zn_plan z = plan) (zd_zones db)"

definition add_zone :: "int \<Rightarrow> zone_request \<Rightarrow> zone_db \<Rightarrow> zone_db res" where
  "add_zone new_id r db =
     bind_res (resolve_plan db (zr_plan r)) (\<lambda>plan.
     bind_res (check_zone_name (plan_zones db (sp_id plan)) (zr_name r)) (\<lambda>_.
     bind_res (parse_zone_time (zr_start r)) (\<lambda>parsed_start.
     bind_res (parse_zone_time (zr_end r)) (\<lambda>parsed_end.
     bind_res (validate_time_range parsed_start parsed_end) (\<lambda>_.
     bind_res (validate_day_filters (zr_days r)) (\<lambda>days.
     bind_res (validate_dst_policy (zr_dst r)) (\<lambda>dst.
     bind_res (optional_date (zr_eff_start r)) (\<lambda>eff_start.
     bind_res (optional_date (zr_eff_end r)) (\<lambda>eff_end.
     bind_res (validate_date_range eff_start eff_end) (\<lambda>_.
       let z = \<lparr>zn_id = new_id, zn_plan = sp_id plan, zn_name = py_strip (zr_name r), zn_start = parsed_start,
                zn_end = parsed_end, zn_assets = (case zr_assets r of None \<Rightarrow> [] | Some xs \<Rightarrow> xs), zn_days = days,
                zn_enabled = zr_enabled r, zn_eff_start = eff_start, zn_eff_end = eff_end, zn_dst = dst\<rparr>;
           (pds, grid) = plan_settings db plan
       in bind_res (validate_zone_plan_integrity (plan_zones db (sp_id plan) @ [z]) pds grid None) (\<lambda>_.
            if new_id \<in> zn_id ` set (zd_zones db) then Inl (RuntimeError ''IntegrityError'')
            else Inr (db\<lparr>zd_zones := zd_zones db @ [z]\<rparr>))))))))))))"

record zone_patch =
  zp_name :: "string option"
  zp_start :: "string option"
  zp_end :: "string option"
  zp_assets :: "string list option"
  zp_days :: "string list option"
  zp_clear_days :: bool
  zp_enabled :: "bool option"
  zp_eff_start :: "string option"
  zp_eff_end :: "string option"
  zp_clear_eff_start :: bool
  zp_clear_eff_end :: bool
  zp_dst :: "string option"
  zp_clear_dst :: bool

text \<open>An argument that is given replaces the column.\<close>

definition given :: "'a option \<Rightarrow> ('a \<Rightarrow> 'b res) \<Rightarrow> 'b \<Rightarrow> 'b res" where
  "given arg f old = (case arg of None \<Rightarrow> Inr old | Some v \<Rightarrow> f v)"

definition cleared_or_given :: "bool \<Rightarrow> 'a option \<Rightarrow> ('a \<Rightarrow> 'b option res) \<Rightarrow> 'b option \<Rightarrow> 'b option res" where
  "cleared_or_given clear arg f old = (if clear then Inr None else given arg f old)"

definition siblings :: "zone_db \<Rightarrow> zone \<Rightarrow> zone list" where
  "siblings db z = filter (\<lambda>x. zn_id x \<noteq> zn_id z) (plan_zones db (zn_plan z))"

definition patched_zone :: "zone_db \<Rightarrow> zone_patch \<Rightarrow> zone \<Rightarrow> zone res" where
  "patched_zone db p z =
     bind_res (given (zp_name p) (\<lambda>name.
       bind_res (check_zone_name (siblings db z) name) (\<lambda>_. Inr (py_strip name))) (zn_name z)) (\<lambda>name.
     bind_res (given (zp_start p) parse_zone_time (zn_start z)) (\<lambda>start_time.
     bind_res (given (zp_end p) parse_zone_time (zn_end z)) (\<lambda>end_time.
     bind_res (validate_time_range start_time end_time) (\<lambda>_.
     bind_res (cleared_or_given (zp_clear_days p) (zp_days p) (\<lambda>ds. validate_day_filters (Some ds)) (zn_days z)) (\<lambda>days.
     bind_res (cleared_or_given (zp_clear_eff_start p) (zp_eff_start p)
       (\<lambda>s. map_sum id Some (validate_date_format s)) (zn_eff_start z)) (\<lambda>eff_start.
     bind_res (cleared_or_given (zp_clear_eff_end p) (zp_eff_end p)
       (\<lambda>s. map_sum id Some (validate_date_format s)) (zn_eff_end z)) (\<lambda>eff_end.
     bind_res (validate_date_range eff_start eff_end) (\<lambda>_.
     bind_res (cleared_or_given (zp_clear_dst p) (zp_dst p) (\<lambda>s. validate_dst_policy (Some s)) (zn_dst z)) (\<lambda>dst.
       Inr (z\<lparr>zn_name := name, zn_start := start_time, zn_end := end_time,
         zn_assets := (case zp_assets p of None \<Rightarrow> zn_assets z | Some xs \<Rightarrow> xs), zn_days := days,
         zn_enabled := (case zp_enabled p of None \<Rightarrow> zn_enabled z | Some b \<Rightarrow> b),
         zn_eff_start := eff_start, zn_eff_end := eff_end, zn_dst := dst\<rparr>))))))))))"

definition update_zone :: "string \<Rightarrow> zone_patch \<Rightarrow> zone_db \<Rightarrow> zone_db res" where
  "update_zone zone_identifier p db =
     bind_res (resolve_zone db zone_identifier) (\<lambda>old.
     bind_res (patched_zone db p old) (\<lambda>z.
       case find (\<lambda>q. sp_id q = zn_plan z) (zd_plans db) of
         None \<Rightarrow> Inl (RuntimeError ''AttributeError'')
       | Some plan \<Rightarrow>
         (let (pds, grid) = plan_settings db plan
          in bind_res (validate_zone_plan_integrity (siblings db z @ [z]) pds grid None) (\<lambda>_.
               Inr (db\<lparr>zd_zones := map (\<lambda>x. if zn_id x = zn_id z then z else x) (zd_zones db)\<rparr>)))))"

definition delete_zone :: "string \<Rightarrow> zone_db \<Rightarrow> zone_db res" where
  "delete_zone zone_identifier db =
     bind_res (resolve_zone db zone_identifier) (\<lambda>z.
       Inr (db\<lparr>zd_zones := filter (\<lambda>x. zn_id x \<noteq> zn_id z) (zd_zones db)\<rparr>))"

section \<open>A session of edits\<close>

datatype zone_edit = Add_Zone int zone_request | Update_Zone string zone_patch | Delete_Zone string

fun zone_edit_result :: "zone_edit \<Rightarrow> zone_db \<Rightarrow> zone_db res" where
  "zone_edit_result (Add_Zone u r) db = add_zone u r db"
| "zone_edit_result (Update_Zone ident p) db = update_zone ident p db"
| "zone_edit_result (Delete_Zone ident) db = delete_zone ident db"

text \<open>An edit that raises is rolled back.\<close>

definition apply_edit :: "zone_edit \<Rightarrow> zone_db \<Rightarrow> zone_db" where
  "apply_edit e db = (case zone_edit_result e db of Inl _ \<Rightarrow> db | Inr db' \<Rightarrow> db')"

definition apply_edits :: "zone_edit list \<Rightarrow> zone_db \<Rightarrow> zone_db" where
  "apply_edits es db = fold apply_edit es db"

section \<open>Zones that last the whole day\<close>

definition whole_day_zones :: "zone set \<Rightarrow> bool" where
  "whole_day_zones A \<longleftrightarrow> (\<forall>a \<in> A. zone_length a = 1440 \<and> (\<forall>b \<in> A. zn_id b \<noteq> zn_id a \<longrightarrow> days_overlap a b = {}))"

definition enabled_zones :: "zone_db \<Rightarrow> int \<Rightarrow> zone set" where
  "enabled_zones db plan = set (filter zn_enabled (plan_zones db plan))"

definition whole_day_db :: "zone_db \<Rightarrow> bool" where
  "whole_day_db db \<longleftrightarrow> distinct (map zn_id (zd_zones db)) \<and> (\<forall>plan. whole_day_zones (enabled_zones db plan))"

lemma zone_length_range: "0 < zone_length z \<and> zone_length z \<le> 1440"
proof -
  have "0 \<le> k mod 1440" "k mod 1440 < 1440" for k :: int by simp_all
  then show ?thesis by (auto simp: zone_length_def Let_def less_le)
qed

lemma on_air_at_start: "zone_on_air z (time_to_minutes (zn_start z) mod 1440)"
  using zone_length_range [of z] by (simp add: zone_on_air_def mod_simps)

lemma whole_day_on_air: "zone_length z = 1440 \<Longrightarrow> zone_on_air z w"
  by (simp add: zone_on_air_def)

lemma always_on_air_whole_day:
  assumes "\<And>w. 0 \<le> w \<Longrightarrow> w < 1440 \<Longrightarrow> zone_on_air z w"
  shows "zone_length z = 1440"
proof -
  have "zone_on_air z ((time_to_minutes (zn_start z) - 1) mod 1440)" by (rule assms) simp_all
  then have "(- 1) mod (1440 :: int) < zone_length z" by (simp add: zone_on_air_def mod_simps)
  then show ?thesis using zone_length_range [of z] by simp
qed

text \<open>One more zone that keeps the plan tiled has its days to itself, and fills them.\<close>

lemma tiling_extension:
  assumes others: "whole_day_zones (set others)" and tile: "zones_tile (others @ [z])"
    and fresh: "zn_id z \<notin> zn_id ` set others"
  shows "whole_day_zones (insert z (set others))"
proof -
  have one: "length (filter (\<lambda>x. d \<in> effective_days x \<and> zone_on_air x w) (others @ [z])) = 1"
    if "d \<in> effective_days z" "0 \<le> w" "w < 1440" for d w
  proof -
    have "d \<in> plan_days (others @ [z])" using that(1) by (auto simp: plan_days_def)
    then show ?thesis using tile that(2,3) unfolding zones_tile_def by blast
  qed
  have apart: "effective_days z \<inter> effective_days a = {}" if a: "a \<in> set others" for a
  proof (rule ccontr)
    assume "effective_days z \<inter> effective_days a \<noteq> {}"
    then obtain d where d: "d \<in> effective_days z" "d \<in> effective_days a" by auto
    let ?w = "time_to_minutes (zn_start z) mod 1440"
    let ?P = "\<lambda>x. d \<in> effective_days x \<and> zone_on_air x ?w"
    have "?P a" using d(2) others a by (auto simp: whole_day_zones_def whole_day_on_air)
    then have "filter ?P others \<noteq> []" using a by (auto simp: filter_empty_conv)
    moreover have "?P z" using d(1) on_air_at_start by simp
    ultimately show False using one [OF d(1), of ?w] by simp
  qed
  have "zone_length z = 1440"
  proof (rule always_on_air_whole_day)
    fix w :: int assume w: "0 \<le> w" "w < 1440"
    obtain d where d: "d \<in> effective_days z" using effective_days_nonempty by blast
    have "filter (\<lambda>x. d \<in> effective_days x \<and> zone_on_air x w) others = []"
      using apart d by (auto simp: filter_empty_conv)
    then show "zone_on_air z w" using one [OF d w] by (simp split: if_splits)
  qed
  then show ?thesis using others apart by (auto simp: whole_day_zones_def days_overlap_def)
qed

lemma raise_first_ok: "raise_first vs = Inr () \<longleftrightarrow> vs = []"
  by (cases vs) (simp_all add: raise_first_def)

lemma accepted_tiles:
  "validate_zone_plan_integrity zones pds grid checker = Inr () \<Longrightarrow> zones_tile (filter zn_enabled zones)"
  unfolding overlap_and_coverage [of zones pds, symmetric]
  by (auto simp: validate_zone_plan_integrity_def bind_res_Inr_iff raise_first_ok)

text \<open>What a successful edit leaves in the table.\<close>

lemma add_zone_result:
  assumes "add_zone new_id r db = Inr db'"
  obtains z where "db' = db\<lparr>zd_zones := zd_zones db @ [z]\<rparr>" "zn_id z = new_id" "new_id \<notin> zn_id ` set (zd_zones db)"
    "zones_tile (filter zn_enabled (plan_zones db (zn_plan z) @ [z]))"
  using assms by (auto simp: add_zone_def bind_res_Inr_iff Let_def case_prod_unfold simp del: filter_append
      split: if_splits dest!: accepted_tiles)

lemma patched_zone_fields: "patched_zone db p old = Inr z \<Longrightarrow> zn_id z = zn_id old \<and> zn_plan z = zn_plan old"
  by (auto simp: patched_zone_def bind_res_Inr_iff)

lemma find_by_mem: "find_by key name rows ident = Some r \<Longrightarrow> r \<in> set rows"
  by (auto simp: find_by_def find_Some_iff split: option.splits)

lemma update_zone_result:
  assumes "update_zone ident p db = Inr db'"
  obtains old z where "old \<in> set (zd_zones db)" "zn_id z = zn_id old" "zn_plan z = zn_plan old"
    "db' = db\<lparr>zd_zones := map (\<lambda>x. if zn_id x = zn_id z then z else x) (zd_zones db)\<rparr>"
    "zones_tile (filter zn_enabled (siblings db z @ [z]))"
proof -
  from assms obtain old z where old: "resolve_zone db ident = Inr old" and z: "patched_zone db p old = Inr z"
    and db': "db' = db\<lparr>zd_zones := map (\<lambda>x. if zn_id x = zn_id z then z else x) (zd_zones db)\<rparr>"
    and "zones_tile (filter zn_enabled (siblings db z @ [z]))"
    by (auto simp: update_zone_def bind_res_Inr_iff Let_def case_prod_unfold simp del: filter_append
        split: option.splits dest!: accepted_tiles)
  moreover have "old \<in> set (zd_zones db)" using old by (auto simp: resolve_zone_def find_by_mem split: option.splits)
  ultimately show thesis using that patched_zone_fields [OF z] by blast
qed

lemma whole_day_zones_subset: "whole_day_zones A \<Longrightarrow> B \<subseteq> A \<Longrightarrow> whole_day_zones B"
  unfolding whole_day_zones_def by blast

lemma add_keeps_whole_days:
  assumes "whole_day_db db" "add_zone new_id r db = Inr db'"
  shows "whole_day_db db'"
  using assms(2)
proof (rule add_zone_result)
  fix z
  assume db': "db' = db\<lparr>zd_zones := zd_zones db @ [z]\<rparr>" and z: "zn_id z = new_id"
    and fresh: "new_id \<notin> zn_id ` set (zd_zones db)"
    and tile: "zones_tile (filter zn_enabled (plan_zones db (zn_plan z) @ [z]))"
  have "whole_day_zones (enabled_zones db' plan)" for plan
  proof (cases "plan = zn_plan z \<and> zn_enabled z")
    case True
    have "whole_day_zones (insert z (set (filter zn_enabled (plan_zones db plan))))"
    proof (rule tiling_extension)
      show "whole_day_zones (set (filter zn_enabled (plan_zones db plan)))"
        using assms(1) by (simp add: whole_day_db_def enabled_zones_def)
      show "zones_tile (filter zn_enabled (plan_zones db plan) @ [z])" using tile True by simp
    qed (use fresh z in \<open>auto simp: plan_zones_def\<close>)
    then show ?thesis using True by (simp add: enabled_zones_def plan_zones_def db' insert_commute)
  next
    case False
    then have "enabled_zones db' plan = enabled_zones db plan" by (auto simp: enabled_zones_def plan_zones_def db')
    then show ?thesis using assms(1) by (simp add: whole_day_db_def)
  qed
  moreover have "distinct (map zn_id (zd_zones db'))" using assms(1) fresh z by (simp add: whole_day_db_def db')
  ultimately show ?thesis by (simp add: whole_day_db_def)
qed

lemma update_keeps_whole_days:
  assumes db: "whole_day_db db" and "update_zone ident p db = Inr db'"
  shows "whole_day_db db'"
  using assms(2)
proof (rule update_zone_result)
  fix old z
  assume old: "old \<in> set (zd_zones db)" and ids: "zn_id z = zn_id old" "zn_plan z = zn_plan old"
    and db': "db' = db\<lparr>zd_zones := map (\<lambda>x. if zn_id x = zn_id z then z else x) (zd_zones db)\<rparr>"
    and tile: "zones_tile (filter zn_enabled (siblings db z @ [z]))"
  have dist: "distinct (map zn_id (zd_zones db))" using db by (simp add: whole_day_db_def)
  have only: "x = old" if "x \<in> set (zd_zones db)" "zn_id x = zn_id z" for x
    using dist that old ids(1) by (metis distinct_map inj_onD)
  have zones: "set (zd_zones db') = insert z {x \<in> set (zd_zones db). zn_id x \<noteq> zn_id z}"
    using old ids(1) by (auto simp: db')
  have wd: "whole_day_zones (enabled_zones db plan)" for plan using db by (simp add: whole_day_db_def)
  have "whole_day_zones (enabled_zones db' plan)" for plan
  proof (cases "plan = zn_plan z \<and> zn_enabled z")
    case True
    have "whole_day_zones (insert z (set (filter zn_enabled (siblings db z))))"
    proof (rule tiling_extension)
      show "whole_day_zones (set (filter zn_enabled (siblings db z)))"
        by (rule whole_day_zones_subset [OF wd [of plan]]) (use True in \<open>auto simp: siblings_def enabled_zones_def\<close>)
      show "zones_tile (filter zn_enabled (siblings db z) @ [z])" using tile True by simp
    qed (auto simp: siblings_def)
    moreover have "enabled_zones db' plan \<subseteq> insert z (set (filter zn_enabled (siblings db z)))"
      using zones True by (auto simp: enabled_zones_def plan_zones_def siblings_def)
    ultimately show ?thesis by (rule whole_day_zones_subset)
  next
    case False
    then have "enabled_zones db' plan \<subseteq> enabled_zones db plan"
      using zones by (auto simp: enabled_zones_def plan_zones_def)
    then show ?thesis by (rule whole_day_zones_subset [OF wd])
  qed
  moreover have "map zn_id (zd_zones db') = map zn_id (zd_zones db)" by (auto simp: db')
  ultimately show ?thesis using dist by (simp add: whole_day_db_def)
qed

lemma delete_keeps_whole_days:
  assumes db: "whole_day_db db" and "delete_zone ident db = Inr db'"
  shows "whole_day_db db'"
proof -
  obtain z where "resolve_zone db ident = Inr z" using assms(2)
    by (cases "resolve_zone db ident") (simp_all add: delete_zone_def)
  then have db': "db' = db\<lparr>zd_zones := filter (\<lambda>x. zn_id x \<noteq> zn_id z) (zd_zones db)\<rparr>"
    using assms(2) by (simp add: delete_zone_def)
  have "enabled_zones db' plan \<subseteq> enabled_zones db plan" for plan
    by (auto simp: enabled_zones_def plan_zones_def db')
  then have "whole_day_zones (enabled_zones db' plan)" for plan
    using db whole_day_zones_subset by (metis whole_day_db_def)
  moreover have "distinct (map zn_id (zd_zones db'))" using db by (simp add: whole_day_db_def db' distinct_map_filter)
  ultimately show ?thesis by (simp add: whole_day_db_def)
qed

lemma edit_keeps_whole_days: "whole_day_db db \<Longrightarrow> whole_day_db (apply_edit e db)"
  by (cases e) (auto simp: apply_edit_def split: sum.splits
      dest: add_keeps_whole_days update_keeps_whole_days delete_keeps_whole_days)

lemma edits_keep_whole_days: "whole_day_db db \<Longrightarrow> whole_day_db (apply_edits es db)"
  unfolding apply_edits_def by (induction es arbitrary: db) (simp_all add: edit_keeps_whole_days)

section \<open>Times on whole minutes\<close>

text \<open>A text that is refused, or read as a time on a whole minute.\<close>

definition text_on_minute :: "string \<Rightarrow> bool" where
  "text_on_minute s \<longleftrightarrow> (case parse_zone_time s of Inl _ \<Rightarrow> True | Inr t \<Rightarrow> on_minute t)"

fun edit_on_minutes :: "zone_edit \<Rightarrow> bool" where
  "edit_on_minutes (Add_Zone _ r) \<longleftrightarrow> text_on_minute (zr_start r) \<and> text_on_minute (zr_end r)"
| "edit_on_minutes (Update_Zone _ p) \<longleftrightarrow>
     (case zp_start p of None \<Rightarrow> True | Some s \<Rightarrow> text_on_minute s)
     \<and> (case zp_end p of None \<Rightarrow> True | Some s \<Rightarrow> text_on_minute s)"
| "edit_on_minutes (Delete_Zone _) \<longleftrightarrow> True"

definition minutes_db :: "zone_db \<Rightarrow> bool" where
  "minutes_db db \<longleftrightarrow> (\<forall>z \<in> set (zd_zones db). zone_on_minutes z)"

lemma text_on_minute_parsed: "parse_zone_time s = Inr t \<Longrightarrow> text_on_minute s \<Longrightarrow> on_minute t"
  by (simp add: text_on_minute_def)

lemma add_keeps_minutes:
  "add_zone u r db = Inr db' \<Longrightarrow> minutes_db db \<Longrightarrow> text_on_minute (zr_start r) \<Longrightarrow> text_on_minute (zr_end r) \<Longrightarrow>
    minutes_db db'"
  by (auto simp: add_zone_def bind_res_Inr_iff Let_def case_prod_unfold minutes_db_def zone_on_minutes_def text_on_minute_def
      split: if_splits)

lemma patched_zone_times:
  assumes "patched_zone db p old = Inr z"
  shows "given (zp_start p) parse_zone_time (zn_start old) = Inr (zn_start z)"
    "given (zp_end p) parse_zone_time (zn_end old) = Inr (zn_end z)"
  using assms by (auto simp: patched_zone_def bind_res_Inr_iff)

lemma update_zone_patched:
  assumes "update_zone ident p db = Inr db'"
  obtains old z where "old \<in> set (zd_zones db)" "patched_zone db p old = Inr z"
    "db' = db\<lparr>zd_zones := map (\<lambda>x. if zn_id x = zn_id z then z else x) (zd_zones db)\<rparr>"
  using assms by (auto simp: update_zone_def resolve_zone_def bind_res_Inr_iff Let_def case_prod_unfold
      split: option.splits dest: find_by_mem)

lemma given_on_minute:
  "given a parse_zone_time old = Inr t \<Longrightarrow> on_minute old \<Longrightarrow>
    (case a of None \<Rightarrow> True | Some s \<Rightarrow> text_on_minute s) \<Longrightarrow> on_minute t"
  by (auto simp: given_def text_on_minute_def split: option.splits)

lemma edit_keeps_minutes: "minutes_db (apply_edit e db)" if "minutes_db db" "edit_on_minutes e"
proof (cases "zone_edit_result e db")
  case (Inr db')
  then have db': "apply_edit e db = db'" by (simp add: apply_edit_def)
  show ?thesis
  proof (cases e)
    case (Add_Zone u r)
    then show ?thesis unfolding db' using Inr that by (auto intro: add_keeps_minutes)
  next
    case (Update_Zone ident p)
    with Inr have "update_zone ident p db = Inr db'" by simp
    then obtain old z where old: "old \<in> set (zd_zones db)" and z: "patched_zone db p old = Inr z"
      and zones: "db' = db\<lparr>zd_zones := map (\<lambda>x. if zn_id x = zn_id z then z else x) (zd_zones db)\<rparr>"
      by (rule update_zone_patched)
    have "zone_on_minutes z" using that old patched_zone_times [OF z] Update_Zone
      by (auto simp: minutes_db_def zone_on_minutes_def intro: given_on_minute)
    then show ?thesis using that(1) unfolding db' zones by (auto simp: minutes_db_def)
  next
    case (Delete_Zone ident)
    then show ?thesis unfolding db' using Inr that(1) by (auto simp: minutes_db_def delete_zone_def bind_res_Inr_iff)
  qed
qed (use that in \<open>simp add: apply_edit_def\<close>)

lemma edits_keep_minutes:
  "minutes_db db \<Longrightarrow> \<forall>e \<in> set es. edit_on_minutes e \<Longrightarrow> minutes_db (apply_edits es db)"
  unfolding apply_edits_def by (induction es arbitrary: db) (simp_all add: edit_keeps_minutes)

section \<open>Worked example\<close>

definition demo_zone_request :: "string \<Rightarrow> string \<Rightarrow> string \<Rightarrow> zone_request" where
  "demo_zone_request name from_time to_time =
     \<lparr>zr_plan = ''Fall'', zr_name = name, zr_start = from_time, zr_end = to_time, zr_assets = None, zr_days = None,
      zr_enabled = True, zr_eff_start = None, zr_eff_end = None, zr_dst = None\<rparr>"

definition demo_zone_db :: zone_db where
  "demo_zone_db = \<lparr>zd_plans = [\<lparr>sp_id = 1, sp_name = ''fall'', sp_channel = 2\<rparr>],
     zd_channels = [\<lparr>ch_id = 2, ch_day_start = 6 * us_per_hour, ch_grid = Some 30\<rparr>], zd_zones = []\<rparr>"

text \<open>The whole day first, then the preset \<^verbatim>\<open>prime-time\<close>, which is refused.\<close>

definition demo_edits :: "zone_edit list" where
  "demo_edits = [Add_Zone 10 (demo_zone_request ''Base'' ''00:00'' ''24:00''),
     Add_Zone 11 (demo_zone_request ''Prime Time'' ''19:00'' ''22:00'')]"

section \<open>Properties\<close>

text \<open>
  C17. Editing zone by zone never gives a plan dayparts: whatever sequence of additions, changes and
  deletions is applied to plans without zones, as long as every time the edits give is refused or a whole
  minute, every enabled zone in the table lasts the whole day, to the microsecond, and two enabled zones of
  one plan have no day of the week in common.  The check after each edit accepts complete plans only, so an
  edit that shortens a zone, or adds one beside it, is refused.  With seconds in the times it is not so:
  Zone_Coverage shows a zone of a few seconds that is accepted.
\<close>

theorem edited_zones_last_whole_days:
  assumes "zd_zones db = []" "\<forall>e \<in> set edits. edit_on_minutes e" "db' = apply_edits edits db"
    "z \<in> set (zd_zones db')" "zn_enabled z"
  shows "zone_us_length z = us_per_day \<and> (\<forall>t. zone_holds z t)
    \<and> (\<forall>x \<in> set (zd_zones db'). zn_enabled x \<and> zn_plan x = zn_plan z \<and> zn_id x \<noteq> zn_id z \<longrightarrow>
        effective_days z \<inter> effective_days x = {})"
proof -
  have "whole_day_db db" using assms(1) by (simp add: whole_day_db_def enabled_zones_def plan_zones_def whole_day_zones_def)
  then have "whole_day_db db'" unfolding assms(3) by (rule edits_keep_whole_days)
  then have whole: "whole_day_zones (enabled_zones db' (zn_plan z))" by (simp add: whole_day_db_def)
  have "minutes_db db'" unfolding assms(3)
    by (rule edits_keep_minutes [OF _ assms(2)]) (simp add: assms(1) minutes_db_def)
  then have z: "zone_on_minutes z" using assms(4) by (simp add: minutes_db_def)
  have "zone_length z = 1440" using whole assms(4,5)
    by (auto simp: whole_day_zones_def enabled_zones_def plan_zones_def)
  then have "zone_us_length z = us_per_day" "\<forall>t. zone_holds z t"
    using zone_us_length_minutes [OF z] zone_holds_minutes [OF z] whole_day_on_air by (simp_all add: us_defs)
  then show ?thesis using whole assms(4,5)
    by (auto simp: whole_day_zones_def enabled_zones_def plan_zones_def days_overlap_def)
qed

theorem edited_zones_last_whole_days_witness:
  "\<exists>z. zd_zones (apply_edits demo_edits demo_zone_db) = [z] \<and> zn_name z = ''Base'' \<and> (\<forall>t. zone_holds z t)"
proof -
  have z: "map zn_name (zd_zones (apply_edits demo_edits demo_zone_db)) = [''Base'']"
    "map zn_enabled (zd_zones (apply_edits demo_edits demo_zone_db)) = [True]"
    "zd_zones demo_zone_db = []" "\<forall>e \<in> set demo_edits. edit_on_minutes e" by code_simp+
  then obtain z where "zd_zones (apply_edits demo_edits demo_zone_db) = [z]" "zn_name z = ''Base''" "zn_enabled z"
    by (auto simp: map_eq_Cons_conv)
  then show ?thesis
    using edited_zones_last_whole_days [OF z(3,4) refl, where z = z] by auto
qed

end
