(* ===== verification/Py_Value.thy ===== *)
theory Py_Value
  imports Py_Parse
begin

text \<open>
  The dynamically typed values a parsed YAML or JSON document consists of, with the operations of
  Python the code applies to them: truth, look-up with a default, membership, iteration,
  conversion to numbers, and \<^verbatim>\<open>json.dumps(value, sort_keys=True, default=str)\<close>.  An operation on a
  value of the wrong type is \<open>TypeError\<close>.  The text of a value that is neither a string, a whole
  number nor a date (\<^verbatim>\<open>str(value)\<close>) is a parameter.
\<close>

datatype yval =
    YNone
  | YBool bool
  | YInt int
  | YFloat rat
  | YStr string
  | YDate date
  | YList "yval list"
  | YDict "(yval \<times> yval) list"

fun truthy :: "yval \<Rightarrow> bool" where
  "truthy YNone = False"
| "truthy (YBool b) = b"
| "truthy (YInt i) = (i \<noteq> 0)"
| "truthy (YFloat x) = (x \<noteq> 0)"
| "truthy (YStr s) = (s \<noteq> [])"
| "truthy (YDate d) = True"
| "truthy (YList ys) = (ys \<noteq> [])"
| "truthy (YDict kvs) = (kvs \<noteq> [])"

text \<open>\<open>a or b\<close>\<close>

definition or_else :: "yval \<Rightarrow> yval \<Rightarrow> yval" where
  "or_else a b = (if truthy a then a else b)"

definition is_dict :: "yval \<Rightarrow> bool" where
  "is_dict v = (case v of YDict _ \<Rightarrow> True | _ \<Rightarrow> False)"

text \<open>\<open>v.get(key, default)\<close>, and \<open>key in v\<close> of a dictionary.\<close>

definition dget :: "yval \<Rightarrow> string \<Rightarrow> yval \<Rightarrow> yval res" where
  "dget v k d =
     (case v of YDict kvs \<Rightarrow> Inr (case map_of kvs (YStr k) of None \<Rightarrow> d | Some x \<Rightarrow> x)
      | _ \<Rightarrow> Inl TypeError)"

definition has_key :: "yval \<Rightarrow> string \<Rightarrow> bool" where
  "has_key v k = (case v of YDict kvs \<Rightarrow> map_of kvs (YStr k) \<noteq> None | _ \<Rightarrow> False)"

text \<open>\<open>dict(v)\<close> with one key set: the entry is replaced in place or added at the end.\<close>

fun dput :: "(yval \<times> yval) list \<Rightarrow> string \<Rightarrow> yval \<Rightarrow> (yval \<times> yval) list" where
  "dput [] k v = [(YStr k, v)]"
| "dput ((k', v') # kvs) k v = (if k' = YStr k then (k', v) # kvs else (k', v') # dput kvs k v)"

definition dict_items :: "yval \<Rightarrow> (yval \<times> yval) list res" where
  "dict_items v = (case v of YDict kvs \<Rightarrow> Inr kvs | _ \<Rightarrow> Inl TypeError)"

text \<open>What a \<open>for\<close> loop visits.\<close>

definition py_iter :: "yval \<Rightarrow> yval list res" where
  "py_iter v =
     (case v of YList ys \<Rightarrow> Inr ys | YDict kvs \<Rightarrow> Inr (map fst kvs)
      | YStr s \<Rightarrow> Inr (map (\<lambda>c. YStr [c]) s) | _ \<Rightarrow> Inl TypeError)"

fun occurs_in :: "string \<Rightarrow> string \<Rightarrow> bool" where
  "occurs_in t [] = (t = [])"
| "occurs_in t (c # s) = (take (length t) (c # s) = t \<or> occurs_in t s)"

definition py_in :: "yval \<Rightarrow> yval \<Rightarrow> bool res" where
  "py_in x v =
     (case v of
        YList ys \<Rightarrow> Inr (x \<in> set ys)
      | YDict kvs \<Rightarrow> (case x of YList _ \<Rightarrow> Inl TypeError | YDict _ \<Rightarrow> Inl TypeError | _ \<Rightarrow> Inr (x \<in> fst ` set kvs))
      | YStr s \<Rightarrow> (case x of YStr t \<Rightarrow> Inr (occurs_in t s) | _ \<Rightarrow> Inl TypeError)
      | _ \<Rightarrow> Inl TypeError)"

text \<open>A method of strings was called.\<close>

definition as_str :: "yval \<Rightarrow> string res" where
  "as_str v = (case v of YStr s \<Rightarrow> Inr s | _ \<Rightarrow> Inl TypeError)"

text \<open>\<open>int(v)\<close>\<close>

definition parse_int :: "string \<Rightarrow> int res" where
  "parse_int s = (case int_of_text 10 s of None \<Rightarrow> Inl (ValueError ''int'') | Some i \<Rightarrow> Inr i)"

definition py_int_of :: "yval \<Rightarrow> int res" where
  "py_int_of v =
     (case v of YBool b \<Rightarrow> Inr (if b then 1 else 0) | YInt i \<Rightarrow> Inr i | YFloat x \<Rightarrow> Inr (py_trunc x)
      | YStr s \<Rightarrow> parse_int s | _ \<Rightarrow> Inl TypeError)"

text \<open>The number a value is in a comparison with a number.\<close>

definition as_number :: "yval \<Rightarrow> rat res" where
  "as_number v =
     (case v of YBool b \<Rightarrow> Inr (if b then 1 else 0) | YInt i \<Rightarrow> Inr (of_int i) | YFloat x \<Rightarrow> Inr x
      | _ \<Rightarrow> Inl TypeError)"

definition py_str :: "(yval \<Rightarrow> string) \<Rightarrow> yval \<Rightarrow> string" where
  "py_str other v =
     (case v of YStr s \<Rightarrow> s | YInt i \<Rightarrow> int_str i | YDate d \<Rightarrow> iso_date d | _ \<Rightarrow> other v)"

section \<open>JSON text\<close>

definition hex4 :: "nat \<Rightarrow> string" where
  "hex4 n = map (\<lambda>i. let d = n div 16 ^ (3 - i) mod 16 in if d < 10 then char_of (48 + d) else char_of (87 + d)) [0..<4]"

definition json_char :: "char \<Rightarrow> string" where
  "json_char c =
     (let n = of_char c :: nat
      in if n = 34 then [char_of (92::nat), char_of (34::nat)]
         else if n = 92 then [char_of (92::nat), char_of (92::nat)]
         else if n = 10 then char_of (92::nat) # ''n''
         else if n = 13 then char_of (92::nat) # ''r''
         else if n = 9 then char_of (92::nat) # ''t''
         else if n = 12 then char_of (92::nat) # ''f''
         else if n = 8 then char_of (92::nat) # ''b''
         else if 32 \<le> n \<and> n \<le> 126 then [c]
         else char_of (92::nat) # ''u'' @ hex4 n)"

definition json_string :: "string \<Rightarrow> string" where
  "json_string s = (let q = [char_of (34::nat)] in q @ concat (map json_char s) @ q)"

fun comma_join :: "string list \<Rightarrow> string" where
  "comma_join [] = []"
| "comma_join [x] = x"
| "comma_join (x # y # xs) = x @ '', '' @ comma_join (y # xs)"

definition json_key :: "(yval \<Rightarrow> string) \<Rightarrow> yval \<Rightarrow> string res" where
  "json_key other k =
     (case k of YStr s \<Rightarrow> Inr (json_string s) | YInt i \<Rightarrow> Inr (json_string (int_str i))
      | YBool b \<Rightarrow> Inr (json_string (if b then ''true'' else ''false''))
      | YNone \<Rightarrow> Inr (json_string ''null'') | YFloat x \<Rightarrow> Inr (json_string (other k))
      | _ \<Rightarrow> Inl TypeError)"

text \<open>The entries of a dictionary in the order of their keys; keys of different kinds cannot be compared.\<close>

definition key_text :: "yval \<Rightarrow> string" where
  "key_text k = (case k of YStr s \<Rightarrow> s | _ \<Rightarrow> [])"

definition key_number :: "yval \<Rightarrow> rat" where
  "key_number k = (case as_number k of Inl _ \<Rightarrow> 0 | Inr x \<Rightarrow> x)"

definition sort_entries :: "(yval \<times> 'a) list \<Rightarrow> (yval \<times> 'a) list res" where
  "sort_entries kvs =
     (if length kvs \<le> 1 then Inr kvs
      else if \<forall>(k, v) \<in> set kvs. case k of YStr _ \<Rightarrow> True | _ \<Rightarrow> False then Inr (sort_key (\<lambda>(k, v). key_text k) kvs)
      else if \<forall>(k, v) \<in> set kvs. case as_number k of Inr _ \<Rightarrow> True | _ \<Rightarrow> False
      then Inr (sort_key (\<lambda>(k, v). key_number k) kvs)
      else Inl TypeError)"

lemma map_res_cong [fundef_cong]:
  "xs = ys \<Longrightarrow> (\<And>x. x \<in> set ys \<Longrightarrow> f x = g x) \<Longrightarrow> map_res f xs = map_res g ys"
  by (induction ys arbitrary: xs) (auto split: sum.splits)

fun json_dumps :: "(yval \<Rightarrow> string) \<Rightarrow> yval \<Rightarrow> string res" where
  "json_dumps other YNone = Inr ''null''"
| "json_dumps other (YBool b) = Inr (if b then ''true'' else ''false'')"
| "json_dumps other (YInt i) = Inr (int_str i)"
| "json_dumps other (YFloat x) = Inr (other (YFloat x))"
| "json_dumps other (YStr s) = Inr (json_string s)"
| "json_dumps other (YDate d) = Inr (json_string (iso_date d))"
| "json_dumps other (YList ys) =
     bind_res (map_res (json_dumps other) ys) (\<lambda>ts. Inr (''['' @ comma_join ts @ '']''))"
| "json_dumps other (YDict kvs) =
     bind_res (sort_entries (map (\<lambda>(k, v). (k, json_dumps other v)) kvs)) (\<lambda>es.
     bind_res (map_res (\<lambda>(k, t). bind_res (json_key other k) (\<lambda>s. bind_res t (\<lambda>t. Inr (s @ '': '' @ t)))) es) (\<lambda>ts.
       Inr (''{'' @ comma_join ts @ ''}'')))"

lemma json_dumps_example:
  "json_dumps (\<lambda>_. []) (YDict [(YStr ''b'', YList [YInt 1, YNone]), (YStr ''a'', YBool True)])
    = Inr ([CHR ''{'', char_of (34::nat), CHR ''a'', char_of (34::nat)] @ '': true, '' @ [char_of (34::nat), CHR ''b'', char_of (34::nat)] @ '': [1, null]}'')"
  by code_simp

section \<open>Laws\<close>

lemma dget_YDict: "dget (YDict kvs) k d = Inr (case map_of kvs (YStr k) of None \<Rightarrow> d | Some x \<Rightarrow> x)"
  by (simp add: dget_def)

lemma has_key_YDict: "has_key (YDict kvs) k \<longleftrightarrow> map_of kvs (YStr k) \<noteq> None"
  by (simp add: has_key_def)

lemma map_of_dput: "map_of (dput kvs k v) = (map_of kvs)(YStr k \<mapsto> v)"
  by (induction kvs k v rule: dput.induct) (auto simp: fun_eq_iff)

end
