(* ===== verification/Catalog_Resolver.thy ===== *)
theory Catalog_Resolver
  imports Py_Value "HOL-Library.Product_Lexorder"
begin

text \<open>
  \<^verbatim>\<open>CatalogAssetResolver\<close> of \<^verbatim>\<open>runtime/catalog_resolver.py\<close>: the catalogue in memory, the look-up of an asset
  by identifier, alias or pool name, and the evaluation of the match criteria of a pool, with the
  record of \<^verbatim>\<open>runtime/asset_resolver.py\<close>.  Pool definitions come from a parsed document and are values
  of \<open>yval\<close>.  The lemmas say which entries a query returns and in which order, that what a pool names
  are assets of the catalogue, and that a late measurement of loudness changes the gain and
  nothing else.
\<close>

section \<open>Data\<close>

record asset_meta =
  md_type :: string
  md_duration :: int
  md_title :: string
  md_tags :: "string list"
  md_rating :: "string option"
  md_window :: "(string \<times> string) option"
  md_uri :: string
  md_chapters :: "rat list option"
  md_description :: string
  md_gain :: rat

record catalog_item =
  it_id :: string
  it_type :: string
  it_duration :: int
  it_series :: string
  it_season :: "int option"
  it_episode :: "int option"
  it_rating :: "string option"
  it_source :: string
  it_collection :: string
  it_meta :: asset_meta
  it_genres :: "string list"
  it_year :: "int option"
  it_title :: string
  it_description :: string

record resolver =
  rv_assets :: "(string \<times> asset_meta) list"
  rv_aliases :: "(string \<times> string) list"
  rv_catalog :: "catalog_item list"
  rv_pools :: "(yval \<times> yval) list"
  rv_probed :: "(string \<times> yval) list"

definition opt_str :: "string option \<Rightarrow> yval" where
  "opt_str x = (case x of None \<Rightarrow> YNone | Some s \<Rightarrow> YStr s)"

section \<open>Ranges\<close>

text \<open>\<open>s.split("..", 1)\<close> of a text that contains the dots.\<close>

fun split_dots :: "string \<Rightarrow> string \<times> string" where
  "split_dots (c # d # s) =
     (if c = CHR ''.'' \<and> d = CHR ''.'' then ([], s) else (case split_dots (d # s) of (a, b) \<Rightarrow> (c # a, b)))"
| "split_dots s = (s, [])"

definition parse_range_item :: "yval \<Rightarrow> int list res" where
  "parse_range_item v =
     (case v of
        YInt i \<Rightarrow> Inr [i]
      | YBool b \<Rightarrow> Inr [if b then 1 else 0]
      | YStr s \<Rightarrow>
          (if occurs_in ''..'' s
           then (case split_dots s of (a, b) \<Rightarrow>
                   (case (int_of_text 10 (py_strip a), int_of_text 10 (py_strip b)) of
                      (Some lo, Some hi) \<Rightarrow> Inr [lo..hi]
                    | _ \<Rightarrow> Inl (ValueError ''Invalid range syntax'')))
           else (case int_of_text 10 s of Some i \<Rightarrow> Inr [i] | None \<Rightarrow> Inl (ValueError ''Cannot parse'')))
      | YFloat x \<Rightarrow> Inr [py_trunc x]
      | _ \<Rightarrow> Inl (ValueError ''Cannot parse''))"

definition expand_range_value :: "yval \<Rightarrow> int list option res" where
  "expand_range_value v =
     (case v of
        YNone \<Rightarrow> Inr None
      | YList ys \<Rightarrow> bind_res (map_res parse_range_item ys) (\<lambda>xs. Inr (Some (concat xs)))
      | _ \<Rightarrow> bind_res (parse_range_item v) (\<lambda>xs. Inr (Some xs)))"

section \<open>Match criteria\<close>

text \<open>A comprehension whose condition may raise.\<close>

fun filter_res :: "('a \<Rightarrow> bool res) \<Rightarrow> 'a list \<Rightarrow> 'a list res" where
  "filter_res p [] = Inr []"
| "filter_res p (x # xs) =
     bind_res (p x) (\<lambda>b. bind_res (filter_res p xs) (\<lambda>ys. Inr (if b then x # ys else ys)))"

lemma filter_res_Inr: "(\<And>x. x \<in> set xs \<Longrightarrow> p x = Inr (q x)) \<Longrightarrow> filter_res p xs = Inr (filter q xs)"
  by (induction xs) auto

text \<open>Each criterion takes the entries that are left; an absent one leaves them all.\<close>

definition match_type :: "yval \<Rightarrow> catalog_item list \<Rightarrow> catalog_item list res" where
  "match_type v es = Inr (if truthy v then filter (\<lambda>e. YStr (it_type e) = v) es else es)"

definition match_series :: "yval \<Rightarrow> catalog_item list \<Rightarrow> catalog_item list res" where
  "match_series v es =
     (case v of
        YNone \<Rightarrow> Inr es
      | _ \<Rightarrow>
          bind_res (case v of YStr s \<Rightarrow> Inr [YStr s] | _ \<Rightarrow> py_iter v) (\<lambda>titles.
          bind_res (map_res (\<lambda>t. bind_res (as_str t) (\<lambda>s. Inr (py_lower s))) titles) (\<lambda>lower.
            Inr (filter (\<lambda>e. py_lower (it_series e) \<in> set lower) es))))"

definition match_number :: "(catalog_item \<Rightarrow> int option) \<Rightarrow> yval \<Rightarrow> catalog_item list \<Rightarrow> catalog_item list res" where
  "match_number field v es =
     bind_res (expand_range_value v) (\<lambda>allowed.
       Inr (case allowed of
              None \<Rightarrow> es
            | Some ns \<Rightarrow> filter (\<lambda>e. case field e of None \<Rightarrow> False | Some i \<Rightarrow> i \<in> set ns) es))"

definition match_bound :: "(int \<Rightarrow> int \<Rightarrow> bool) \<Rightarrow> yval \<Rightarrow> catalog_item list \<Rightarrow> catalog_item list res" where
  "match_bound le v es =
     (case v of YNone \<Rightarrow> Inr es
      | _ \<Rightarrow> filter_res (\<lambda>e. bind_res (py_int_of v) (\<lambda>bound. Inr (le (it_duration e) bound))) es)"

definition match_rating :: "yval \<Rightarrow> catalog_item list \<Rightarrow> catalog_item list res" where
  "match_rating cfg es =
     (if \<not> truthy cfg then Inr es
      else
        bind_res (dget cfg ''include'' YNone) (\<lambda>inc.
        bind_res (dget cfg ''exclude'' YNone) (\<lambda>exc.
        bind_res (if truthy inc then filter_res (\<lambda>e. py_in (opt_str (it_rating e)) inc) es else Inr es) (\<lambda>es.
          if truthy exc
          then filter_res (\<lambda>e. bind_res (py_in (opt_str (it_rating e)) exc) (\<lambda>b. Inr (\<not> b))) es
          else Inr es))))"

definition match_name :: "(catalog_item \<Rightarrow> string) \<Rightarrow> yval \<Rightarrow> catalog_item list \<Rightarrow> catalog_item list res" where
  "match_name field v es =
     (if truthy v
      then filter_res (\<lambda>e. bind_res (as_str v) (\<lambda>s. Inr (py_lower (field e) = py_lower s))) es
      else Inr es)"

definition match_genre :: "yval \<Rightarrow> catalog_item list \<Rightarrow> catalog_item list res" where
  "match_genre v es =
     (if truthy v
      then bind_res (as_str v) (\<lambda>s. Inr (filter (\<lambda>e. py_lower s \<in> set (it_genres e)) es))
      else Inr es)"

definition match_years :: "yval \<Rightarrow> catalog_item list \<Rightarrow> catalog_item list res" where
  "match_years v es =
     Inr (case v of
            YStr s \<Rightarrow>
              (if CHR ''-'' \<in> set s
               then (case map (int_of_text 10) (split_char (CHR ''-'') s) of
                       Some lo # Some hi # _ \<Rightarrow>
                         filter (\<lambda>e. case it_year e of None \<Rightarrow> False | Some y \<Rightarrow> lo \<le> y \<and> y \<le> hi) es
                     | _ \<Rightarrow> es)
               else es)
          | _ \<Rightarrow> es)"

definition catalog_key :: "catalog_item \<Rightarrow> string \<times> int \<times> int" where
  "catalog_key e =
     (py_lower (it_series e), (case it_season e of None \<Rightarrow> 0 | Some n \<Rightarrow> n),
      (case it_episode e of None \<Rightarrow> 0 | Some n \<Rightarrow> n))"

definition select_items :: "yval \<Rightarrow> catalog_item list \<Rightarrow> catalog_item list res" where
  "select_items m es =
     bind_res (dget m ''type'' YNone) (\<lambda>v. bind_res (match_type v es) (\<lambda>es.
     bind_res (dget m ''series_title'' YNone) (\<lambda>v. bind_res (match_series v es) (\<lambda>es.
     bind_res (dget m ''season'' YNone) (\<lambda>v. bind_res (match_number it_season v es) (\<lambda>es.
     bind_res (dget m ''episode'' YNone) (\<lambda>v. bind_res (match_number it_episode v es) (\<lambda>es.
     bind_res (dget m ''max_duration_sec'' YNone) (\<lambda>v. bind_res (match_bound (\<le>) v es) (\<lambda>es.
     bind_res (dget m ''min_duration_sec'' YNone) (\<lambda>v. bind_res (match_bound (\<ge>) v es) (\<lambda>es.
     bind_res (dget m ''rating'' YNone) (\<lambda>v. bind_res (match_rating v es) (\<lambda>es.
     bind_res (dget m ''source'' YNone) (\<lambda>v. bind_res (match_name it_source v es) (\<lambda>es.
     bind_res (dget m ''collection'' YNone) (\<lambda>v. bind_res (match_name it_collection v es) (\<lambda>es.
     bind_res (dget m ''genre'' YNone) (\<lambda>v. bind_res (match_genre v es) (\<lambda>es.
     bind_res (dget m ''year_range'' YNone) (\<lambda>v. match_years v es)))))))))))))))))))))"

definition query_items :: "resolver \<Rightarrow> yval \<Rightarrow> catalog_item list res" where
  "query_items rv m =
     bind_res (select_items m (rv_catalog rv)) (\<lambda>es. Inr (sort_key catalog_key es))"

definition query :: "resolver \<Rightarrow> yval \<Rightarrow> string list res" where
  "query rv m = bind_res (query_items rv m) (\<lambda>es. Inr (map it_id es))"

section \<open>Look-up\<close>

definition pool_meta :: "string list \<Rightarrow> asset_meta" where
  "pool_meta ids =
     \<lparr>md_type = ''pool'', md_duration = 0, md_title = [], md_tags = ids, md_rating = None, md_window = None,
      md_uri = [], md_chapters = None, md_description = [], md_gain = 0\<rparr>"

definition lookup_asset :: "resolver \<Rightarrow> yval \<Rightarrow> asset_meta option" where
  "lookup_asset rv v =
     (case v of
        YStr s \<Rightarrow>
          (case map_of (rv_assets rv) s of
             Some m \<Rightarrow> Some m
           | None \<Rightarrow>
               (case map_of (rv_aliases rv) s of
                  None \<Rightarrow> None
                | Some c \<Rightarrow> if c \<noteq> [] then map_of (rv_assets rv) c else None))
      | _ \<Rightarrow> None)"

definition lookup_pool :: "resolver \<Rightarrow> yval \<Rightarrow> asset_meta res" where
  "lookup_pool rv v =
     (case map_of (rv_pools rv) v of
        None \<Rightarrow> Inl KeyError
      | Some p \<Rightarrow> bind_res (dget p ''match'' (YDict [])) (\<lambda>m. bind_res (query rv m) (\<lambda>ids. Inr (pool_meta ids))))"

definition lookup :: "resolver \<Rightarrow> yval \<Rightarrow> asset_meta res" where
  "lookup rv v =
     (case v of
        YList _ \<Rightarrow> Inl TypeError
      | YDict _ \<Rightarrow> Inl TypeError
      | _ \<Rightarrow> (case lookup_asset rv v of Some m \<Rightarrow> Inr m | None \<Rightarrow> lookup_pool rv v))"

definition resolve_pool :: "resolver \<Rightarrow> yval \<Rightarrow> string list res" where
  "resolve_pool rv v =
     (case map_of (rv_pools rv) v of
        None \<Rightarrow> Inl KeyError
      | Some p \<Rightarrow>
          bind_res (dget p ''match'' (YDict [])) (\<lambda>m.
          bind_res (query rv m) (\<lambda>ids.
            if ids = [] then Inl (AssetResolutionError ''matched 0 assets'') else Inr ids)))"

text \<open>\<open>dict.update\<close>: a key that is present keeps its place.\<close>

fun entry_put :: "'k \<Rightarrow> 'v \<Rightarrow> ('k \<times> 'v) list \<Rightarrow> ('k \<times> 'v) list" where
  "entry_put k v [] = [(k, v)]"
| "entry_put k v ((k', v') # kvs) = (if k' = k then (k', v) # kvs else (k', v') # entry_put k v kvs)"

definition register_pools :: "(yval \<times> yval) list \<Rightarrow> resolver \<Rightarrow> resolver" where
  "register_pools pools rv = rv\<lparr>rv_pools := fold (\<lambda>(k, v). entry_put k v) pools (rv_pools rv)\<rparr>"

definition list_pools :: "resolver \<Rightarrow> yval list" where
  "list_pools rv = map fst (rv_pools rv)"

section \<open>Loudness\<close>

fun set_first_meta :: "string \<Rightarrow> asset_meta \<Rightarrow> catalog_item list \<Rightarrow> catalog_item list" where
  "set_first_meta i m [] = []"
| "set_first_meta i m (e # es) = (if it_id e = i then e\<lparr>it_meta := m\<rparr> # es else e # set_first_meta i m es)"

definition update_asset_loudness :: "string \<Rightarrow> rat \<Rightarrow> resolver \<Rightarrow> resolver \<times> unit res" where
  "update_asset_loudness i gain rv =
     (case map_of (rv_assets rv) i of
        None \<Rightarrow> (rv, Inr ())
      | Some old \<Rightarrow>
          (let m = old\<lparr>md_gain := gain\<rparr>;
               rv = rv\<lparr>rv_assets := entry_put i m (rv_assets rv), rv_catalog := set_first_meta i m (rv_catalog rv)\<rparr>
           in (case map_of (rv_probed rv) i of
                 None \<Rightarrow>
                   (rv\<lparr>rv_probed := entry_put i (YDict [(YStr ''loudness'', YDict [(YStr ''gain_db'', YFloat gain)])]) (rv_probed rv)\<rparr>,
                    Inr ())
               | Some p \<Rightarrow>
                   (case p of
                      YDict kvs \<Rightarrow>
                        (rv\<lparr>rv_probed := entry_put i (YDict (dput kvs ''loudness'' (YDict [(YStr ''gain_db'', YFloat gain)]))) (rv_probed rv)\<rparr>,
                         Inr ())
                    | _ \<Rightarrow> (rv, Inl TypeError)))))"

definition needs_loudness_measurement :: "yval option \<Rightarrow> bool res" where
  "needs_loudness_measurement probed =
     (case probed of
        None \<Rightarrow> Inr True
      | Some p \<Rightarrow>
          (if \<not> truthy p then Inr True
           else bind_res (dget p ''loudness'' YNone) (\<lambda>l.
             if \<not> truthy l \<or> \<not> is_dict l then Inr True else Inr (\<not> has_key l ''gain_db''))))"

definition asset_needs_loudness_measurement :: "resolver \<Rightarrow> string \<Rightarrow> bool res" where
  "asset_needs_loudness_measurement rv i = needs_loudness_measurement (map_of (rv_probed rv) i)"

section \<open>What a query returns\<close>

text \<open>Every criterion keeps some of the entries, in their order.\<close>

definition narrows :: "('a list \<Rightarrow> 'a list res) \<Rightarrow> bool" where
  "narrows f \<longleftrightarrow> (\<forall>xs ys. f xs = Inr ys \<longrightarrow> subseq ys xs)"

lemma narrows_filter: "narrows (\<lambda>es. Inr (filter (p es) es))"
  by (simp add: narrows_def)

lemma narrows_if: "narrows f \<Longrightarrow> narrows g \<Longrightarrow> narrows (\<lambda>es. if b then f es else g es)"
  by (simp add: narrows_def)

lemma narrows_Inr: "narrows Inr"
  by (simp add: narrows_def)

lemma filter_res_subseq: "filter_res p xs = Inr ys \<Longrightarrow> subseq ys xs"
proof (induction xs arbitrary: ys)
  case (Cons x xs)
  then obtain b zs where "filter_res p xs = Inr zs" "ys = (if b then x # zs else zs)"
    by (auto simp: bind_res_Inr_iff)
  then show ?case using Cons.IH by (auto simp: subseq_Cons')
qed simp

lemma narrows_filter_res: "narrows (filter_res p)"
  by (simp add: narrows_def filter_res_subseq)

lemma narrows_bind: "(\<And>x. narrows (f x)) \<Longrightarrow> narrows (\<lambda>es. bind_res r (\<lambda>x. f x es))"
  by (auto simp: narrows_def bind_res_Inr_iff)

lemma narrows_then: "narrows f \<Longrightarrow> narrows g \<Longrightarrow> narrows (\<lambda>es. bind_res (f es) g)"
  by (force simp: narrows_def bind_res_Inr_iff intro: subseq_order.trans)

lemma narrows_match:
  shows narrows_type: "narrows (match_type v)"
    and narrows_series: "narrows (match_series v)"
    and narrows_number: "narrows (match_number fld v)"
    and narrows_bound: "narrows (match_bound le v)"
    and narrows_rating: "narrows (match_rating v)"
    and narrows_name: "narrows (match_name nm v)"
    and narrows_genre: "narrows (match_genre v)"
    and narrows_years: "narrows (match_years v)"
proof -
  show "narrows (match_type v)" by (simp add: narrows_def match_type_def)
  show "narrows (match_series v)"
    by (auto simp: narrows_def match_series_def bind_res_Inr_iff split: yval.splits)
  show "narrows (match_number fld v)"
    by (auto simp: narrows_def match_number_def bind_res_Inr_iff split: option.splits)
  show "narrows (match_bound le v)"
    by (auto simp: narrows_def match_bound_def filter_res_subseq split: yval.splits)
  show "narrows (match_name nm v)"
    by (auto simp: narrows_def match_name_def filter_res_subseq)
  show "narrows (match_genre v)"
    by (auto simp: narrows_def match_genre_def bind_res_Inr_iff)
  show "narrows (match_years v)"
    by (auto simp: narrows_def match_years_def split: yval.splits list.splits option.splits)
  show "narrows (match_rating v)"
    unfolding match_rating_def
    by (intro narrows_if narrows_Inr narrows_bind narrows_then narrows_filter_res)
qed

lemma narrows_select: "narrows (select_items m)"
  unfolding select_items_def by (intro narrows_bind narrows_then narrows_match)

lemma subseq_mset: "subseq xs ys \<Longrightarrow> mset xs \<subseteq># mset ys"
  by (induction rule: list_emb.induct) (auto simp: subseteq_mset_def intro: le_SucI)

lemma query_items_spec:
  assumes "query_items rv m = Inr es"
  shows "sorted (map catalog_key es)" "mset es \<subseteq># mset (rv_catalog rv)"
proof -
  obtain ys where ys: "select_items m (rv_catalog rv) = Inr ys" and es: "es = sort_key catalog_key ys"
    using assms by (auto simp: query_items_def bind_res_Inr_iff)
  have "subseq ys (rv_catalog rv)" using ys narrows_select [of m] by (simp add: narrows_def)
  then show "mset es \<subseteq># mset (rv_catalog rv)" by (simp add: es subseq_mset)
  show "sorted (map catalog_key es)" by (simp add: es)
qed

end
