(* ===== verification/Py_Random.thy ===== *)
theory Py_Random
  imports Py_Hash
begin

text \<open>
  \<^verbatim>\<open>random.Random\<close> of CPython: the Mersenne Twister MT19937 on 32-bit words, its seeding from an
  integer, and the draws the code makes (\<open>getrandbits\<close>, \<open>choice\<close>, \<open>randint\<close>).  The rejection loop of a
  draw below a bound has no bound of its own, so a draw is an \<open>option\<close>: \<open>None\<close> is a draw that does not
  return.  The facts used elsewhere: a draw that returns is below its bound, and a choice is an
  element of the list.
\<close>

unbundle bit_operations_syntax

section \<open>The generator\<close>

text \<open>The 624 words of the state and the index of the next one.\<close>

type_synonym rng = "w32 list \<times> nat"

fun init_genrand_from :: "nat \<Rightarrow> w32 \<Rightarrow> nat \<Rightarrow> w32 list" where
  "init_genrand_from 0 x i = []"
| "init_genrand_from (Suc n) x i =
     x # init_genrand_from n (1812433253 * (x XOR drop_bit 30 x) + of_nat (Suc i)) (Suc i)"

definition init_genrand :: "w32 \<Rightarrow> w32 list" where
  "init_genrand s = init_genrand_from 624 s 0"

text \<open>The two passes of \<open>init_by_array\<close>, with the indices of the state and of the key.\<close>

definition mt_prev :: "w32 list \<Rightarrow> nat \<Rightarrow> w32" where
  "mt_prev mt i = (let p = mt ! (i - 1) in p XOR drop_bit 30 p)"

definition mt_wrap :: "w32 list \<times> nat \<Rightarrow> w32 list \<times> nat" where
  "mt_wrap = (\<lambda>(mt, i). if 624 \<le> i then (mt[0 := mt ! 623], 1) else (mt, i))"

fun init_key_pass :: "nat \<Rightarrow> w32 list \<Rightarrow> w32 list \<Rightarrow> nat \<Rightarrow> nat \<Rightarrow> w32 list \<times> nat" where
  "init_key_pass 0 key mt i j = (mt, i)"
| "init_key_pass (Suc k) key mt i j =
     (let mt = mt[i := (mt ! i XOR mt_prev mt i * 1664525) + key ! j + of_nat j];
          (mt, i) = mt_wrap (mt, Suc i)
      in init_key_pass k key mt i (if length key \<le> Suc j then 0 else Suc j))"

fun init_mix_pass :: "nat \<Rightarrow> w32 list \<Rightarrow> nat \<Rightarrow> w32 list" where
  "init_mix_pass 0 mt i = mt"
| "init_mix_pass (Suc k) mt i =
     (let mt = mt[i := (mt ! i XOR mt_prev mt i * 1566083941) - of_nat i];
          (mt, i) = mt_wrap (mt, Suc i)
      in init_mix_pass k mt i)"

definition init_by_array :: "w32 list \<Rightarrow> rng" where
  "init_by_array key =
     (case init_key_pass (max 624 (length key)) key (init_genrand 19650218) 1 0 of
        (mt, i) \<Rightarrow> ((init_mix_pass 623 mt i)[0 := 2147483648], 624))"

text \<open>\<open>random.Random(n)\<close>: the absolute value, in 32-bit chunks from the least significant one.\<close>

function seed_key :: "nat \<Rightarrow> w32 list" where
  "seed_key n = of_nat (n mod 2 ^ 32) # (if n div 2 ^ 32 = 0 then [] else seed_key (n div 2 ^ 32))"
  by pat_completeness auto
termination
  by (relation "measure id") (auto simp: div_less_dividend)

declare seed_key.simps [simp del]

definition seed_rng :: "int \<Rightarrow> rng" where
  "seed_rng n = init_by_array (seed_key (nat \<bar>n\<bar>))"

definition mt_twist_word :: "nat \<Rightarrow> w32 list \<Rightarrow> w32 list" where
  "mt_twist_word k mt =
     (let y = (mt ! k AND 2147483648) OR (mt ! (Suc k mod 624) AND 2147483647)
      in mt[k := mt ! ((k + 397) mod 624) XOR drop_bit 1 y XOR (if y AND 1 = 0 then 0 else 2567483615)])"

definition mt_twist :: "w32 list \<Rightarrow> w32 list" where
  "mt_twist mt = fold mt_twist_word [0..<624] mt"

definition mt_temper :: "w32 \<Rightarrow> w32" where
  "mt_temper y =
     (let y = y XOR drop_bit 11 y;
          y = y XOR (push_bit 7 y AND 2636928640);
          y = y XOR (push_bit 15 y AND 4022730752)
      in y XOR drop_bit 18 y)"

definition genrand :: "rng \<Rightarrow> w32 \<times> rng" where
  "genrand = (\<lambda>(mt, i).
     let (mt, i) = (if 624 \<le> i then (mt_twist mt, 0) else (mt, i))
     in (mt_temper (mt ! i), mt, Suc i))"

section \<open>Draws\<close>

text \<open>\<open>getrandbits(k)\<close>: whole words from the least significant one, the last one cut to what is left.\<close>

function getrandbits :: "nat \<Rightarrow> rng \<Rightarrow> int \<times> rng" where
  "getrandbits k r =
     (if k = 0 then (0, r)
      else if k \<le> 32 then (case genrand r of (w, r) \<Rightarrow> (uint (drop_bit (32 - k) w), r))
      else (case genrand r of (w, r) \<Rightarrow> (case getrandbits (k - 32) r of (v, r) \<Rightarrow> (uint w + 2 ^ 32 * v, r))))"
  by pat_completeness auto
termination
  by (relation "measure fst") auto

declare getrandbits.simps [simp del]

fun bit_length :: "nat \<Rightarrow> nat" where
  "bit_length n = (if n = 0 then 0 else Suc (bit_length (n div 2)))"

declare bit_length.simps [simp del]

partial_function (option) reject_until_below :: "int \<Rightarrow> nat \<Rightarrow> rng \<Rightarrow> (int \<times> rng) option" where
  "reject_until_below n k r =
     (case getrandbits k r of (v, r) \<Rightarrow> if n \<le> v then reject_until_below n k r else Some (v, r))"

declare reject_until_below.simps [code]

definition randbelow :: "nat \<Rightarrow> rng \<Rightarrow> (int \<times> rng) option" where
  "randbelow n r = reject_until_below (int n) (bit_length n) r"

definition rng_choice :: "'a list \<Rightarrow> rng \<Rightarrow> ('a \<times> rng) option" where
  "rng_choice xs r = map_option (\<lambda>(v, r). (xs ! nat v, r)) (randbelow (length xs) r)"

definition randint :: "int \<Rightarrow> int \<Rightarrow> rng \<Rightarrow> (int \<times> rng) option" where
  "randint a b r = map_option (\<lambda>(v, r). (a + v, r)) (randbelow (nat (b - a + 1)) r)"

section \<open>What a draw returns\<close>

lemma getrandbits_nonneg: "0 \<le> fst (getrandbits k r)"
proof (induction k arbitrary: r rule: less_induct)
  case (less k)
  obtain w r' where g: "genrand r = (w, r')" by (cases "genrand r")
  obtain v r'' where v: "getrandbits (k - 32) r' = (v, r'')" by (cases "getrandbits (k - 32) r'")
  have "0 \<le> v" if "\<not> k \<le> 32" using less.IH [of "k - 32" r'] that v by simp
  then show ?case by (simp add: getrandbits.simps [of k r] g v)
qed

lemma reject_until_below_bounds:
  assumes "reject_until_below n k r = Some vr"
  shows "0 \<le> fst vr \<and> fst vr < n"
proof (rule reject_until_below.raw_induct [where P = "\<lambda>n k r vr. 0 \<le> fst vr \<and> fst vr < n", OF _ assms])
  fix f :: "int \<Rightarrow> nat \<Rightarrow> rng \<Rightarrow> (int \<times> rng) option" and n k r vr
  assume IH: "\<And>n k r vr. f n k r = Some vr \<Longrightarrow> 0 \<le> fst vr \<and> fst vr < n"
    and eq: "(case getrandbits k r of (v, r) \<Rightarrow> if n \<le> v then f n k r else Some (v, r)) = Some vr"
  obtain u s where g: "getrandbits k r = (u, s)" by (cases "getrandbits k r")
  have "0 \<le> u" using getrandbits_nonneg [of k r] g by simp
  then show "0 \<le> fst vr \<and> fst vr < n" using eq IH [of n k s vr] unfolding g by (cases vr) (auto split: if_splits)
qed

lemma randbelow_bounds: "randbelow n r = Some (v, r') \<Longrightarrow> 0 \<le> v \<and> v < int n"
  unfolding randbelow_def using reject_until_below_bounds by fastforce

lemma rng_choice_mem: "rng_choice xs r = Some (x, r') \<Longrightarrow> x \<in> set xs"
  by (auto simp: rng_choice_def dest!: randbelow_bounds)

text \<open>The states a program meets: those of a seeded generator, after any draws.\<close>

inductive seeded :: "rng \<Rightarrow> bool" where
  seeded_start: "seeded (seed_rng n)"
| seeded_draw: "seeded r \<Longrightarrow> seeded (snd (getrandbits k r))"

lemma reject_until_below_seeded:
  assumes "reject_until_below n k r = Some vr"
  shows "seeded r \<longrightarrow> seeded (snd vr)"
proof (rule reject_until_below.raw_induct [where P = "\<lambda>n k r vr. seeded r \<longrightarrow> seeded (snd vr)", OF _ assms])
  fix f :: "int \<Rightarrow> nat \<Rightarrow> rng \<Rightarrow> (int \<times> rng) option" and n k r vr
  assume IH: "\<And>n k r vr. f n k r = Some vr \<Longrightarrow> seeded r \<longrightarrow> seeded (snd vr)"
    and eq: "(case getrandbits k r of (v, r) \<Rightarrow> if n \<le> v then f n k r else Some (v, r)) = Some vr"
  obtain u s where g: "getrandbits k r = (u, s)" by (cases "getrandbits k r")
  have "seeded r \<longrightarrow> seeded s" using seeded_draw [of r k] g by simp
  then show "seeded r \<longrightarrow> seeded (snd vr)" using eq IH [of n k s vr] unfolding g by (cases vr) (auto split: if_splits)
qed

lemma randbelow_seeded: "randbelow n r = Some vr \<Longrightarrow> seeded r \<Longrightarrow> seeded (snd vr)"
  unfolding randbelow_def using reject_until_below_seeded by blast

text \<open>A choice returns exactly if the draw below the length does.\<close>

lemma rng_choice_returns: "rng_choice xs r \<noteq> None \<longleftrightarrow> randbelow (length xs) r \<noteq> None"
  by (simp add: rng_choice_def)

end
