(* ===== verification/Schedule_Compiler.thy ===== *)
theory Schedule_Compiler
  imports Catalog_Resolver Py_Random
begin

text \<open>
  \<^verbatim>\<open>runtime/schedule_compiler.py\<close>: a parsed schedule document is compiled into the program blocks of one
  broadcast day.  The document is a value of \<open>yval\<close>, read with the dynamic look-ups of the code, so
  that a missing or ill-typed entry takes the branch or the exception it takes there.  Times are
  wall-clock times of the channel until the last stage turns them into UTC; the offset of a zone
  from UTC at a wall-clock time is a parameter, as are the integers other values than whole numbers
  seed the random generator with, and the text of values that are neither strings nor numbers.
  A draw of the generator need not return, and neither need a compilation that makes draws: \<open>'a run\<close>.
\<close>

section \<open>Environment, constants and blocks\<close>

record compiler_env =
  ce_zone :: "string \<Rightarrow> (datetime \<Rightarrow> int) res"
  ce_entropy :: "yval \<Rightarrow> int"
  ce_text :: "yval \<Rightarrow> string"

definition COMPILER_VERSION :: string where "COMPILER_VERSION = ''2.2.0''"
definition BROADCAST_DAY_START_HOUR :: int where "BROADCAST_DAY_START_HOUR = 6"

record program_block_out =
  gb_title :: yval
  gb_asset :: yval
  gb_start :: datetime
  gb_slot :: int
  gb_episode :: int
  gb_collection :: yval
  gb_selector :: yval

definition end_at :: "program_block_out \<Rightarrow> datetime" where
  "end_at b = gb_start b + gb_slot b * 1000000"

text \<open>What a compilation carries along: the counters of sequential pools and the movies already shown.\<close>

type_synonym counters = "yval \<Rightarrow> int"

definition pure_run :: "'a res \<Rightarrow> 'a run" where "pure_run r = Some r"

section \<open>Random numbers\<close>

definition new_rng :: "compiler_env \<Rightarrow> yval \<Rightarrow> rng" where
  "new_rng env v =
     seed_rng (case v of YInt n \<Rightarrow> n | YBool b \<Rightarrow> (if b then 1 else 0) | _ \<Rightarrow> ce_entropy env v)"

definition draw :: "('a \<times> rng) option \<Rightarrow> ('a \<times> rng) run" where
  "draw d = map_option Inr d"

definition seeded_choice :: "compiler_env \<Rightarrow> yval \<Rightarrow> 'a list \<Rightarrow> 'a run" where
  "seeded_choice env seed xs = bind_run (draw (rng_choice xs (new_rng env seed))) (\<lambda>(x, _). Some (Inr x))"

definition opt_int :: "int option \<Rightarrow> yval" where
  "opt_int x = (case x of None \<Rightarrow> YNone | Some i \<Rightarrow> YInt i)"

section \<open>Selectors\<close>

definition select_pool_episode ::
  "compiler_env \<Rightarrow> resolver \<Rightarrow> yval \<Rightarrow> yval \<Rightarrow> yval \<Rightarrow> counters option \<Rightarrow>
    (string \<times> counters option) run" where
  "select_pool_episode env rv cid mode seed counters =
     bind_run (pure_run (lookup rv cid)) (\<lambda>col.
       let ids = md_tags col
       in if ids = [] then Some (Inl (AssetResolutionError ''no episodes''))
          else if mode = YStr ''sequential''
          then (case counters of
                  Some cs \<Rightarrow>
                    Some (Inr (ids ! nat (cs cid mod int (length ids)), Some (cs(cid := cs cid + 1))))
                | None \<Rightarrow>
                    (case (if truthy seed then seed else YInt 0) of
                       YInt n \<Rightarrow> Some (Inr (ids ! nat (n mod int (length ids)), None))
                     | YBool b \<Rightarrow> Some (Inr (ids ! nat ((if b then 1 else 0) mod int (length ids)), None))
                     | _ \<Rightarrow> Some (Inl TypeError)))
          else if mode = YStr ''random'' \<or> mode = YStr ''weighted''
          then bind_run (seeded_choice env seed ids) (\<lambda>i. Some (Inr (i, counters)))
          else Some (Inl (CompileError ''Unknown episode selector mode'')))"

text \<open>The filters of a movie selector: \<open>False\<close> is \<open>continue\<close>.\<close>

definition movie_passes :: "yval \<Rightarrow> yval \<Rightarrow> yval \<Rightarrow> asset_meta \<Rightarrow> bool res" where
  "movie_passes inc exc maxd m =
     (let rating = opt_str (md_rating m)
      in bind_res (if truthy inc then py_in rating inc else Inr True) (\<lambda>a.
         if \<not> a then Inr False
         else bind_res (if truthy exc then py_in rating exc else Inr False) (\<lambda>x.
         if x then Inr False
         else bind_res (if truthy maxd then bind_res (as_number maxd) (\<lambda>n. Inr (n < of_int (md_duration m))) else Inr False) (\<lambda>long.
         if long then Inr False
         else Inr (\<not> (md_duration m \<noteq> 0 \<and> md_duration m < 3600))))))"

definition movie_candidates :: "resolver \<Rightarrow> yval \<Rightarrow> string list res" where
  "movie_candidates rv collections =
     bind_res (py_iter collections) (\<lambda>cs.
     bind_res (map_res (\<lambda>c. bind_res (lookup rv c) (\<lambda>m. Inr (md_tags m))) cs) (\<lambda>ts. Inr (concat ts)))"

definition movie_filter ::
  "resolver \<Rightarrow> (string \<Rightarrow> bool) \<Rightarrow> yval \<Rightarrow> yval \<Rightarrow> yval \<Rightarrow> string list \<Rightarrow> string list res" where
  "movie_filter rv used inc exc maxd cands =
     filter_res (\<lambda>c. if used c then Inr False
                    else bind_res (lookup rv (YStr c)) (movie_passes inc exc maxd)) cands"

definition select_movie ::
  "compiler_env \<Rightarrow> resolver \<Rightarrow> yval \<Rightarrow> yval \<Rightarrow> yval \<Rightarrow> yval \<Rightarrow> int option \<Rightarrow> string run" where
  "select_movie env rv collections inc exc maxd seed =
     bind_run (pure_run (movie_candidates rv collections)) (\<lambda>cands.
       if cands = [] then Some (Inl (AssetResolutionError ''No movie candidates''))
       else bind_run (pure_run (movie_filter rv (\<lambda>_. False) inc exc maxd cands)) (\<lambda>filtered.
         if filtered = [] then Some (Inl (AssetResolutionError ''No movies match filters''))
         else seeded_choice env (opt_int seed) (sort filtered)))"

definition select_movie_no_repeat ::
  "compiler_env \<Rightarrow> resolver \<Rightarrow> yval \<Rightarrow> yval \<Rightarrow> yval \<Rightarrow> yval \<Rightarrow> int \<Rightarrow> string list \<Rightarrow> string option run" where
  "select_movie_no_repeat env rv collections inc exc maxd seed used =
     bind_run (pure_run (movie_candidates rv collections)) (\<lambda>cands.
       if cands = [] then Some (Inr None)
       else bind_run (pure_run (movie_filter rv (\<lambda>c. c \<in> set used) inc exc maxd cands)) (\<lambda>filtered.
         if filtered = [] then Some (Inr None)
         else bind_run (seeded_choice env (YInt seed) (sort filtered)) (\<lambda>m. Some (Inr (Some m)))))"

section \<open>Templates and layers\<close>

definition expand_template :: "yval \<Rightarrow> yval \<times> yval \<Rightarrow> (yval \<times> yval) res" where
  "expand_template templates = (\<lambda>(key, v).
     if is_dict v \<and> has_key v ''use''
     then bind_res (dget v ''use'' YNone) (\<lambda>name.
          bind_res (py_in name templates) (\<lambda>known.
            if \<not> known then Inl (CompileError ''Unknown template'')
            else (case templates of
                    YDict ts \<Rightarrow> (case map_of ts name of Some x \<Rightarrow> Inr (key, x) | None \<Rightarrow> Inl KeyError)
                  | _ \<Rightarrow> Inl TypeError)))
     else Inr (key, v))"

definition expand_templates :: "yval \<Rightarrow> yval res" where
  "expand_templates dsl =
     bind_res (dget dsl ''templates'' (YDict [])) (\<lambda>templates.
     bind_res (dget dsl ''schedule'' (YDict [])) (\<lambda>schedule.
     bind_res (dict_items schedule) (\<lambda>items.
     bind_res (map_res (expand_template templates) items) (\<lambda>expanded.
     bind_res (dict_items dsl) (\<lambda>kvs.
       Inr (YDict (dput kvs ''schedule'' (YDict expanded))))))))"

definition DOW_NAMES :: "string list" where
  "DOW_NAMES = [''monday'', ''tuesday'', ''wednesday'', ''thursday'', ''friday'', ''saturday'', ''sunday'']"

definition WEEKDAY_NAMES :: "string list" where
  "WEEKDAY_NAMES = [''monday'', ''tuesday'', ''wednesday'', ''thursday'', ''friday'']"

definition WEEKEND_NAMES :: "string list" where
  "WEEKEND_NAMES = [''saturday'', ''sunday'']"

definition VALID_SCHEDULE_KEYS :: "string list" where
  "VALID_SCHEDULE_KEYS = [''all_day'', ''weekdays'', ''weekends''] @ DOW_NAMES"

text \<open>The start of a block definition, which may stand in a nested definition.\<close>

fun nested_start :: "string list \<Rightarrow> yval \<Rightarrow> yval \<Rightarrow> yval res" where
  "nested_start [] b key = Inr key"
| "nested_start (k # ks) b key =
     bind_res (dget b k YNone) (\<lambda>nested.
       if is_dict nested then dget nested ''start'' (YStr []) else nested_start ks b key)"

definition block_key :: "yval \<Rightarrow> yval res" where
  "block_key b =
     bind_res (dget b ''start'' (YStr [])) (\<lambda>key.
       if truthy key then Inr key else nested_start [''block'', ''movie_marathon'', ''movie_block''] b key)"

fun blocks_to_dict :: "yval list \<Rightarrow> (yval \<times> yval) list \<Rightarrow> (yval \<times> yval) list res" where
  "blocks_to_dict [] acc = Inr acc"
| "blocks_to_dict (b # bs) acc =
     (if is_dict b
      then bind_res (block_key b) (\<lambda>key.
             case key of YList _ \<Rightarrow> Inl TypeError | YDict _ \<Rightarrow> Inl TypeError
             | _ \<Rightarrow> blocks_to_dict bs (entry_put key b acc))
      else blocks_to_dict bs acc)"

definition ensure_list :: "yval \<Rightarrow> yval list" where
  "ensure_list v = (case v of YList ys \<Rightarrow> ys | YDict _ \<Rightarrow> [v] | _ \<Rightarrow> [])"

definition layer :: "yval \<Rightarrow> string \<Rightarrow> (yval \<times> yval) list \<Rightarrow> (yval \<times> yval) list res" where
  "layer schedule k merged =
     bind_res (dget schedule k YNone) (\<lambda>v.
     bind_res (blocks_to_dict (ensure_list v) []) (\<lambda>new.
       Inr (fold (\<lambda>(key, b). entry_put key b) new merged)))"

definition resolve_day_schedule :: "yval \<Rightarrow> date \<Rightarrow> yval list res" where
  "resolve_day_schedule dsl target =
     bind_res (dget dsl ''schedule'' (YDict [])) (\<lambda>schedule.
     bind_res (layer schedule ''all_day'' []) (\<lambda>merged.
       let dow = DOW_NAMES ! weekday target
       in bind_res (if dow \<in> set WEEKDAY_NAMES \<and> has_key schedule ''weekdays'' then layer schedule ''weekdays'' merged
                    else if dow \<in> set WEEKEND_NAMES \<and> has_key schedule ''weekends'' then layer schedule ''weekends'' merged
                    else Inr merged) (\<lambda>merged.
          bind_res (if has_key schedule dow then layer schedule dow merged else Inr merged) (\<lambda>merged.
          bind_res (sort_entries merged) (\<lambda>es. Inr (map snd es))))))"

section \<open>Grid and times\<close>

definition get_channel_template :: "yval \<Rightarrow> yval res" where
  "get_channel_template dsl = dget dsl ''template'' (YStr ''network_television'')"

definition get_grid_minutes :: "yval \<Rightarrow> int" where
  "get_grid_minutes template = (if template = YStr ''premium_movie'' then 15 else 30)"

definition validate_grid_alignment :: "yval \<Rightarrow> int \<Rightarrow> string list res" where
  "validate_grid_alignment start grid =
     bind_res (as_str start) (\<lambda>s.
       case split_char (CHR '':'') s of
         _ # p # _ \<Rightarrow>
           bind_res (parse_int p) (\<lambda>minute.
             Inr (if minute mod grid \<noteq> 0
                  then [''Start time '' @ s @ '' is not aligned to '' @ int_str grid @ ''-minute grid''] else []))
       | _ \<Rightarrow> Inr [])"

definition grid_slots :: "int \<Rightarrow> int \<Rightarrow> int" where
  "grid_slots grid episode = max 1 (- (- episode div (grid * 60)))"

definition grid_slot_duration :: "int \<Rightarrow> int \<Rightarrow> int" where
  "grid_slot_duration grid episode = grid_slots grid episode * (grid * 60)"

definition channel_seed :: "string \<Rightarrow> int" where
  "channel_seed channel =
     (case int_of_text 16 (sha256_hexdigest channel) of None \<Rightarrow> 0 | Some n \<Rightarrow> n mod 100000)"

text \<open>The first match of a numeral, white space and the letter.\<close>

definition unit_here :: "char \<Rightarrow> string \<Rightarrow> string option" where
  "unit_here u s =
     (let is_digit = (\<lambda>c. 48 \<le> (of_char c :: nat) \<and> of_char c \<le> (57 :: nat));
          ds = takeWhile is_digit s; rest = dropWhile is_py_space (dropWhile is_digit s)
      in if ds \<noteq> [] \<and> rest \<noteq> [] \<and> hd rest = u then Some ds else None)"

fun search_unit :: "char \<Rightarrow> string \<Rightarrow> string option" where
  "search_unit u [] = None"
| "search_unit u (c # s) = (case unit_here u (c # s) of Some ds \<Rightarrow> Some ds | None \<Rightarrow> search_unit u s)"

definition parse_duration :: "yval \<Rightarrow> int res" where
  "parse_duration v =
     bind_res (as_str v) (\<lambda>s.
       let s = py_lower (py_strip s); h = search_unit (CHR ''h'') s; m = search_unit (CHR ''m'') s;
           number = (\<lambda>x. case x of None \<Rightarrow> 0 | Some ds \<Rightarrow> int (numeral_value ds))
       in if h = None \<and> m = None
          then (case int_of_text 10 s of
                  None \<Rightarrow> Inl (ValueError ''Cannot parse duration'') | Some hours \<Rightarrow> Inr (hours * us_per_hour))
          else Inr (number h * us_per_hour + number m * 60000000))"

definition wall_time :: "int \<Rightarrow> int \<Rightarrow> time_of_day res" where
  "wall_time hour minute =
     (if 0 \<le> hour \<and> hour < 24 \<and> 0 \<le> minute \<and> minute < 60
      then Inr (hour * us_per_hour + minute * 60000000) else Inl (ValueError ''datetime''))"

definition parse_wall :: "compiler_env \<Rightarrow> string \<Rightarrow> yval \<Rightarrow> yval \<Rightarrow> datetime res" where
  "parse_wall env day tz time_str =
     bind_res (as_str tz) (\<lambda>tz_name.
     bind_res (ce_zone env tz_name) (\<lambda>_.
     bind_res (case from_iso_date day of None \<Rightarrow> Inl (ValueError ''isoformat'') | Some d \<Rightarrow> Inr d) (\<lambda>bd.
     bind_res (as_str time_str) (\<lambda>s.
       let parts = split_char (CHR '':'') s
       in bind_res (parse_int (hd parts)) (\<lambda>hour.
          bind_res (case tl parts of [] \<Rightarrow> Inr 0 | p # _ \<Rightarrow> parse_int p) (\<lambda>minute.
          bind_res (wall_time hour minute) (\<lambda>t.
            Inr (combine (if hour < BROADCAST_DAY_START_HOUR then bd + 1 else bd) t))))))))"

section \<open>Block compilers\<close>

text \<open>The slots a block definition lists, visited by index.\<close>

definition slot_list :: "yval \<Rightarrow> yval list res" where
  "slot_list v =
     (case v of
        YList ys \<Rightarrow> Inr ys
      | YDict kvs \<Rightarrow> if kvs = [] then Inr [] else Inl KeyError
      | YStr s \<Rightarrow> if s = [] then Inr [] else Inl TypeError
      | _ \<Rightarrow> Inl TypeError)"

definition slot_asset ::
  "compiler_env \<Rightarrow> resolver \<Rightarrow> int option \<Rightarrow> yval \<Rightarrow> yval \<Rightarrow> counters \<Rightarrow> (yval \<times> counters) run" where
  "slot_asset env rv seed ep_sel program_id cs =
     (if truthy ep_sel
      then bind_run (pure_run (dget ep_sel ''pool'' YNone)) (\<lambda>pool.
           bind_run (pure_run (dget ep_sel ''collection'' (YStr []))) (\<lambda>coll.
           bind_run (pure_run (dget ep_sel ''mode'' (YStr ''sequential''))) (\<lambda>mode.
           bind_run (pure_run (dget ep_sel ''seed'' (opt_int seed))) (\<lambda>ep_seed.
           bind_run (select_pool_episode env rv (or_else pool coll) mode ep_seed (Some cs)) (\<lambda>(i, cs').
             Some (Inr (YStr i, case cs' of None \<Rightarrow> cs | Some c \<Rightarrow> c)))))))
      else Some (Inr (program_id, cs)))"

text \<open>The collection and the selector recorded with a block of a slot.\<close>

definition slot_origin :: "int option \<Rightarrow> yval \<Rightarrow> (yval \<times> yval) res" where
  "slot_origin seed ep_sel =
     (if truthy ep_sel
      then bind_res (dget ep_sel ''pool'' YNone) (\<lambda>pool.
           bind_res (dget ep_sel ''collection'' YNone) (\<lambda>coll.
           bind_res (dget ep_sel ''mode'' (YStr ''sequential'')) (\<lambda>mode.
           bind_res (dget ep_sel ''seed'' (opt_int seed)) (\<lambda>s.
             Inr (or_else pool coll, YDict [(YStr ''mode'', mode), (YStr ''seed'', s)])))))
      else Inr (YNone, YNone))"

definition slot_block ::
  "compiler_env \<Rightarrow> resolver \<Rightarrow> int \<Rightarrow> int option \<Rightarrow> yval \<Rightarrow> datetime \<Rightarrow> counters \<Rightarrow>
    (program_block_out \<times> counters) run" where
  "slot_block env rv grid seed slot now cs =
     bind_run (pure_run (dget slot ''title'' (YStr []))) (\<lambda>title.
     bind_run (pure_run (dget slot ''program'' (YStr []))) (\<lambda>program_id.
     bind_run (pure_run (dget slot ''episode_selector'' (YDict []))) (\<lambda>ep_sel.
     bind_run (slot_asset env rv seed ep_sel program_id cs) (\<lambda>(asset, cs).
     bind_run (pure_run (lookup rv asset)) (\<lambda>m.
     bind_run (pure_run (slot_origin seed ep_sel)) (\<lambda>(coll, sel).
       Some (Inr (\<lparr>gb_title = title, gb_asset = asset, gb_start = now,
                  gb_slot = grid_slot_duration grid (md_duration m), gb_episode = md_duration m,
                  gb_collection = coll, gb_selector = sel\<rparr>, cs))))))))"

text \<open>An episode longer than a slot takes the place of the slots after it.\<close>

function sitcom_loop ::
  "compiler_env \<Rightarrow> resolver \<Rightarrow> int \<Rightarrow> int option \<Rightarrow> yval list \<Rightarrow> datetime \<Rightarrow> counters \<Rightarrow>
    (program_block_out list \<times> counters) run" where
  "sitcom_loop env rv grid seed [] now cs = Some (Inr ([], cs))"
| "sitcom_loop env rv grid seed (slot # slots) now cs =
     bind_run (slot_block env rv grid seed slot now cs) (\<lambda>(b, cs).
     bind_run (sitcom_loop env rv grid seed (drop (nat (grid_slots grid (gb_episode b)) - 1) slots) (end_at b) cs)
       (\<lambda>(bs, cs). Some (Inr (b # bs, cs))))"
  by pat_completeness auto
termination
  by (relation "measure (\<lambda>(env, rv, grid, seed, slots, now, cs). length slots)") auto

definition compile_sitcom_block ::
  "compiler_env \<Rightarrow> resolver \<Rightarrow> string \<Rightarrow> yval \<Rightarrow> int \<Rightarrow> int option \<Rightarrow> yval \<Rightarrow> counters \<Rightarrow>
    (program_block_out list \<times> counters) run" where
  "compile_sitcom_block env rv day tz grid seed block_def cs =
     bind_run (pure_run (dget block_def ''start'' (YStr ''20:00''))) (\<lambda>start.
     bind_run (pure_run (parse_wall env day tz start)) (\<lambda>now.
     bind_run (pure_run (dget block_def ''slots'' (YList []))) (\<lambda>v.
     bind_run (pure_run (slot_list v)) (\<lambda>slots.
       sitcom_loop env rv grid seed slots now cs))))"

text \<open>The pools of a movie selector: a list under one of two names, or a single pool.\<close>

definition selector_pools :: "yval \<Rightarrow> yval res" where
  "selector_pools ms =
     bind_res (dget ms ''collections'' (YList [])) (\<lambda>legacy.
     bind_res (dget ms ''pools'' legacy) (\<lambda>collections.
       if truthy collections then Inr collections
       else bind_res (dget ms ''pool'' YNone) (\<lambda>single.
         Inr (if truthy single then YList [single] else collections))))"

definition first_item :: "yval \<Rightarrow> yval res" where
  "first_item v =
     (if \<not> truthy v then Inr YNone
      else (case v of
              YList (x # _) \<Rightarrow> Inr x
            | YStr (c # _) \<Rightarrow> Inr (YStr [c])
            | YDict _ \<Rightarrow> Inl KeyError
            | _ \<Rightarrow> Inl TypeError))"

text \<open>The block of a movie that was chosen.\<close>

definition movie_out ::
  "resolver \<Rightarrow> int \<Rightarrow> yval \<Rightarrow> yval \<Rightarrow> yval \<Rightarrow> datetime \<Rightarrow> string \<Rightarrow> program_block_out res" where
  "movie_out rv grid collections rating seed now i =
     bind_res (lookup rv (YStr i)) (\<lambda>m.
     bind_res (first_item collections) (\<lambda>c.
       Inr \<lparr>gb_title = YStr (if md_title m \<noteq> [] then md_title m else i), gb_asset = YStr i, gb_start = now,
            gb_slot = grid_slot_duration grid (md_duration m), gb_episode = md_duration m, gb_collection = c,
            gb_selector = YDict [(YStr ''collections'', collections), (YStr ''rating'', rating), (YStr ''seed'', seed)]\<rparr>))"

definition compile_movie_block ::
  "compiler_env \<Rightarrow> resolver \<Rightarrow> string \<Rightarrow> yval \<Rightarrow> int \<Rightarrow> int option \<Rightarrow> yval \<Rightarrow> program_block_out list run" where
  "compile_movie_block env rv day tz grid seed block_def =
     bind_run (pure_run (dget block_def ''start'' (YStr ''20:00''))) (\<lambda>start.
     bind_run (pure_run (parse_wall env day tz start)) (\<lambda>now.
     bind_run (pure_run (dget block_def ''movie_block'' (YDict []))) (\<lambda>mb.
     bind_run (pure_run (dget (if truthy mb then mb else block_def) ''movie_selector'' (YDict []))) (\<lambda>ms.
     bind_run (pure_run (selector_pools ms)) (\<lambda>collections.
     bind_run (pure_run (dget ms ''rating'' (YDict []))) (\<lambda>rating.
     bind_run (pure_run (dget rating ''include'' YNone)) (\<lambda>inc.
     bind_run (pure_run (dget rating ''exclude'' YNone)) (\<lambda>exc.
     bind_run (pure_run (dget ms ''max_duration_sec'' YNone)) (\<lambda>maxd.
     bind_run (select_movie env rv collections inc exc maxd seed) (\<lambda>i.
     bind_run (pure_run (movie_out rv grid collections rating (opt_int seed) now i)) (\<lambda>b.
       Some (Inr [b]))))))))))))"

record marathon_cfg =
  mc_pools :: yval
  mc_rating :: yval
  mc_max :: yval
  mc_end :: datetime
  mc_bleed :: bool

text \<open>The attempts of a marathon: each one takes the next seed, and an exhausted pool starts over.\<close>

fun marathon_loop ::
  "nat \<Rightarrow> compiler_env \<Rightarrow> resolver \<Rightarrow> int \<Rightarrow> marathon_cfg \<Rightarrow> int \<Rightarrow> datetime \<Rightarrow> string list \<Rightarrow>
    (program_block_out list \<times> string list) run" where
  "marathon_loop 0 env rv grid mc seed now used = Some (Inr ([], used))"
| "marathon_loop (Suc n) env rv grid mc seed now used =
     (if mc_end mc \<le> now then Some (Inr ([], used))
      else
        bind_run (pure_run (dget (mc_rating mc) ''include'' YNone)) (\<lambda>inc.
        bind_run (pure_run (dget (mc_rating mc) ''exclude'' YNone)) (\<lambda>exc.
        bind_run (select_movie_no_repeat env rv (mc_pools mc) inc exc (mc_max mc) seed used) (\<lambda>r.
        case r of
          None \<Rightarrow> marathon_loop n env rv grid mc (seed + 1) now []
        | Some i \<Rightarrow>
            bind_run (pure_run (movie_out rv grid (mc_pools mc) (mc_rating mc) (YInt seed) now i)) (\<lambda>b.
              if mc_end mc < end_at b \<and> \<not> mc_bleed mc then Some (Inr ([], i # used))
              else bind_run (marathon_loop n env rv grid mc (seed + 1) (end_at b) (i # used)) (\<lambda>(bs, used).
                Some (Inr (b # bs, used))))))))"

definition overnight :: "datetime \<Rightarrow> datetime \<Rightarrow> datetime" where
  "overnight start fin = (if fin \<le> start then fin + 24 * us_per_hour else fin)"

definition compile_movie_marathon ::
  "compiler_env \<Rightarrow> resolver \<Rightarrow> string \<Rightarrow> yval \<Rightarrow> int \<Rightarrow> int option \<Rightarrow> yval \<Rightarrow> string list \<Rightarrow>
    (program_block_out list \<times> string list) run" where
  "compile_movie_marathon env rv day tz grid seed block_def used =
     bind_run (pure_run (dget block_def ''movie_marathon'' (YDict []))) (\<lambda>mm.
     bind_run (pure_run (dget mm ''start'' YNone)) (\<lambda>nested.
     bind_run (pure_run (dget block_def ''start'' (YStr ''09:00''))) (\<lambda>outer.
     bind_run (pure_run (dget mm ''end'' (YStr ''22:00''))) (\<lambda>end_str.
     bind_run (pure_run (dget mm ''allow_bleed'' (YBool False))) (\<lambda>bleed.
     bind_run (pure_run (dget mm ''movie_selector'' (YDict []))) (\<lambda>ms.
     bind_run (pure_run (parse_wall env day tz (or_else nested outer))) (\<lambda>now.
     bind_run (pure_run (parse_wall env day tz end_str)) (\<lambda>fin.
     bind_run (pure_run (selector_pools ms)) (\<lambda>collections.
     bind_run (pure_run (dget ms ''rating'' (YDict []))) (\<lambda>rating.
     bind_run (pure_run (dget ms ''max_duration_sec'' YNone)) (\<lambda>maxd.
       marathon_loop 200 env rv grid
         \<lparr>mc_pools = collections, mc_rating = rating, mc_max = maxd, mc_end = overnight now fin, mc_bleed = truthy bleed\<rparr>
         (case seed of None \<Rightarrow> 42 | Some s \<Rightarrow> s) now used)))))))))))"

record episode_cfg =
  ec_pools :: "yval list"
  ec_mode :: yval
  ec_title :: yval
  ec_end :: datetime

text \<open>The pool of the next episode: in turn, at random, or the first one.\<close>

definition pick_pool :: "episode_cfg \<Rightarrow> nat \<Rightarrow> rng \<Rightarrow> (yval \<times> nat \<times> rng) run" where
  "pick_pool ec k g =
     (let ps = ec_pools ec; in_turn = (if ps = [] then Inl ZeroDivisionError else Inr (ps ! (k mod length ps)))
      in if ec_mode ec = YStr ''shuffle'' \<and> 1 < length ps
         then bind_run (pure_run in_turn) (\<lambda>p. Some (Inr (p, Suc k, g)))
         else if ec_mode ec = YStr ''random'' \<and> 1 < length ps
         then bind_run (draw (rng_choice ps g)) (\<lambda>(p, g). Some (Inr (p, k, g)))
         else bind_run (pure_run in_turn) (\<lambda>p.
                Some (Inr (p, if ec_mode ec = YStr ''sequential'' \<and> 1 < length ps then Suc k else k, g))))"

definition episode_seed :: "episode_cfg \<Rightarrow> int option \<Rightarrow> rng \<Rightarrow> (yval \<times> rng) run" where
  "episode_seed ec seed g =
     (if ec_mode ec \<noteq> YStr ''random'' then Some (Inr (opt_int seed, g))
      else bind_run (draw (randint 0 (2 ^ 31) g)) (\<lambda>(n, g). Some (Inr (YInt n, g))))"

definition episode_out ::
  "resolver \<Rightarrow> int \<Rightarrow> episode_cfg \<Rightarrow> yval \<Rightarrow> string \<Rightarrow> datetime \<Rightarrow> program_block_out res" where
  "episode_out rv grid ec pool asset now =
     bind_res (lookup rv (YStr asset)) (\<lambda>m.
       Inr \<lparr>gb_title = or_else (ec_title ec) (or_else (YStr (md_title m)) pool), gb_asset = YStr asset,
            gb_start = now, gb_slot = grid_slot_duration grid (md_duration m), gb_episode = md_duration m,
            gb_collection = pool, gb_selector = YDict [(YStr ''mode'', ec_mode ec), (YStr ''pool'', pool)]\<rparr>)"

fun episode_loop ::
  "nat \<Rightarrow> compiler_env \<Rightarrow> resolver \<Rightarrow> int \<Rightarrow> int option \<Rightarrow> episode_cfg \<Rightarrow> datetime \<Rightarrow> nat \<Rightarrow> rng \<Rightarrow> counters \<Rightarrow>
    (program_block_out list \<times> counters) run" where
  "episode_loop 0 env rv grid seed ec now k g cs = Some (Inr ([], cs))"
| "episode_loop (Suc n) env rv grid seed ec now k g cs =
     (if \<not> now < ec_end ec then Some (Inr ([], cs))
      else
        bind_run (pick_pool ec k g) (\<lambda>(pool, k, g).
        bind_run (episode_seed ec seed g) (\<lambda>(s, g).
        bind_run (select_pool_episode env rv pool
                    (if ec_mode ec \<in> {YStr ''sequential'', YStr ''shuffle''} then YStr ''sequential'' else ec_mode ec)
                    s (Some cs)) (\<lambda>(asset, cs').
        bind_run (pure_run (episode_out rv grid ec pool asset now)) (\<lambda>b.
        bind_run (episode_loop n env rv grid seed ec (end_at b) k g (case cs' of None \<Rightarrow> cs | Some c \<Rightarrow> c)) (\<lambda>(bs, cs).
          Some (Inr (b # bs, cs))))))))"

definition episode_end ::
  "compiler_env \<Rightarrow> string \<Rightarrow> yval \<Rightarrow> datetime \<Rightarrow> yval \<Rightarrow> yval \<Rightarrow> datetime res" where
  "episode_end env day tz now duration end_str =
     (if truthy duration then bind_res (parse_duration duration) (\<lambda>d. Inr (now + d))
      else if truthy end_str then bind_res (parse_wall env day tz end_str) (\<lambda>fin. Inr (overnight now fin))
      else Inr (now + 24 * us_per_hour))"

definition compile_episode_block ::
  "compiler_env \<Rightarrow> resolver \<Rightarrow> string \<Rightarrow> yval \<Rightarrow> int \<Rightarrow> int option \<Rightarrow> yval \<Rightarrow> counters \<Rightarrow>
    (program_block_out list \<times> counters) run" where
  "compile_episode_block env rv day tz grid seed block_def cs =
     bind_run (pure_run (dget block_def ''block'' (YDict []))) (\<lambda>bb.
     bind_run (pure_run (dget bb ''start'' YNone)) (\<lambda>nested.
     bind_run (pure_run (dget block_def ''start'' (YStr ''06:00''))) (\<lambda>outer.
     bind_run (pure_run (dget bb ''end'' (YStr []))) (\<lambda>end_str.
     bind_run (pure_run (dget bb ''duration'' (YStr []))) (\<lambda>duration.
     bind_run (pure_run (dget bb ''title'' (YStr []))) (\<lambda>title.
     bind_run (pure_run (dget bb ''mode'' (YStr ''sequential''))) (\<lambda>mode.
     bind_run (pure_run (dget bb ''pool'' (YStr []))) (\<lambda>pool_spec.
     bind_run (pure_run (case pool_spec of YStr s \<Rightarrow> Inr [pool_spec] | _ \<Rightarrow> py_iter pool_spec)) (\<lambda>pools.
     bind_run (pure_run (parse_wall env day tz (or_else nested outer))) (\<lambda>now.
     bind_run (pure_run (episode_end env day tz now duration end_str)) (\<lambda>fin.
       episode_loop 500 env rv grid seed \<lparr>ec_pools = pools, ec_mode = mode, ec_title = title, ec_end = fin\<rparr>
         now 0 (new_rng env (or_else (opt_int seed) (YInt 42))) cs)))))))))))"

section \<open>Validation of the document\<close>

text \<open>A pool that is not found is an error of the document; any other exception is passed on.\<close>

definition missing_pool :: "compiler_env \<Rightarrow> resolver \<Rightarrow> string \<Rightarrow> yval \<Rightarrow> string list res" where
  "missing_pool env rv msg pool =
     (case lookup rv pool of
        Inr _ \<Rightarrow> Inr []
      | Inl e \<Rightarrow> if e = KeyError then Inr [msg @ py_str (ce_text env) pool] else Inl e)"

definition validate_slot_asset :: "compiler_env \<Rightarrow> resolver \<Rightarrow> string \<Rightarrow> yval \<Rightarrow> string list res" where
  "validate_slot_asset env rv ctx slot =
     bind_res (dget slot ''episode_selector'' (YDict [])) (\<lambda>ep_sel.
       if \<not> truthy ep_sel then Inr []
       else bind_res (dget ep_sel ''pool'' YNone) (\<lambda>pool.
            bind_res (dget ep_sel ''collection'' (YStr [])) (\<lambda>coll.
              let p = or_else pool coll
              in if truthy p then missing_pool env rv (''['' @ ctx @ ''] Pool/collection not found: '') p else Inr [])))"

definition validate_block_assets :: "compiler_env \<Rightarrow> resolver \<Rightarrow> string \<Rightarrow> yval \<Rightarrow> string list res" where
  "validate_block_assets env rv ctx block =
     bind_res (dget block ''slots'' (YList [])) (\<lambda>v.
     bind_res (py_iter v) (\<lambda>slots.
     bind_res (map_res (validate_slot_asset env rv ctx) slots) (\<lambda>errs.
     bind_res (dget block ''movie_block'' (YDict [])) (\<lambda>mb.
     bind_res (dget (if truthy mb then mb else block) ''movie_selector'' (YDict [])) (\<lambda>ms.
     bind_res (selector_pools ms) (\<lambda>pools.
     bind_res (py_iter pools) (\<lambda>ps.
     bind_res (map_res (missing_pool env rv (''['' @ ctx @ ''] Movie pool/collection not found: '')) ps) (\<lambda>errs'.
       Inr (concat errs @ concat errs')))))))))"

definition validate_start :: "int \<Rightarrow> yval \<Rightarrow> string list res" where
  "validate_start grid v =
     bind_res (dget v ''start'' (YStr [])) (\<lambda>start.
       if truthy start then validate_grid_alignment start grid else Inr [])"

definition validate_day_starts :: "int \<Rightarrow> yval \<times> yval \<Rightarrow> string list res" where
  "validate_day_starts grid = (\<lambda>(_, v).
     case v of
       YDict _ \<Rightarrow> validate_start grid v
     | YList items \<Rightarrow> bind_res (map_res (validate_start grid) (filter is_dict items)) (\<lambda>errs. Inr (concat errs))
     | _ \<Rightarrow> Inr [])"

definition validate_day_assets :: "compiler_env \<Rightarrow> resolver \<Rightarrow> yval \<times> yval \<Rightarrow> string list res" where
  "validate_day_assets env rv = (\<lambda>(key, v).
     let ctx = ''schedule:'' @ py_str (ce_text env) key
     in (case v of
           YDict _ \<Rightarrow> validate_block_assets env rv ctx v
         | YList items \<Rightarrow>
             bind_res (map_res (\<lambda>(i, item).
                if is_dict item then validate_block_assets env rv (ctx @ ''['' @ nat_str i @ '']'') item else Inr [])
                (enumerate 0 items)) (\<lambda>errs. Inr (concat errs))
         | _ \<Rightarrow> Inr []))"

definition validate_template_assets :: "compiler_env \<Rightarrow> resolver \<Rightarrow> yval \<times> yval \<Rightarrow> string list res" where
  "validate_template_assets env rv = (\<lambda>(name, v).
     if is_dict v then validate_block_assets env rv (''template:'' @ py_str (ce_text env) name) v else Inr [])"

definition validate_dsl :: "compiler_env \<Rightarrow> resolver \<Rightarrow> yval \<Rightarrow> string list res" where
  "validate_dsl env rv dsl =
     (let missing = map (\<lambda>f. ''Missing required field: '' @ f)
                      (filter (\<lambda>f. \<not> has_key dsl f) [''channel'', ''broadcast_day'', ''timezone''])
      in if \<not> has_key dsl ''schedule'' then Inr (missing @ [''Missing required field: schedule''])
         else
           bind_res (get_channel_template dsl) (\<lambda>template.
           bind_res (dget dsl ''schedule'' (YDict [])) (\<lambda>schedule.
           bind_res (dict_items schedule) (\<lambda>days.
           bind_res (map_res (validate_day_starts (get_grid_minutes template)) days) (\<lambda>starts.
           bind_res (dget dsl ''templates'' (YDict [])) (\<lambda>templates.
           bind_res (dict_items templates) (\<lambda>ts.
           bind_res (map_res (validate_template_assets env rv) ts) (\<lambda>tpl.
           bind_res (map_res (validate_day_assets env rv) days) (\<lambda>assets.
             Inr (missing @ concat starts @ concat tpl @ concat assets))))))))))"

section \<open>Compilation of a day\<close>

text \<open>The blocks of one definition; which compiler takes it depends on its keys.\<close>

type_synonym carried = "counters \<times> string list"

definition compile_block_def ::
  "compiler_env \<Rightarrow> resolver \<Rightarrow> string \<Rightarrow> yval \<Rightarrow> int \<Rightarrow> int option \<Rightarrow> bool \<Rightarrow> yval \<Rightarrow> carried \<Rightarrow>
    (program_block_out list \<times> carried) run" where
  "compile_block_def env rv day tz grid seed shared block_def = (\<lambda>(cs, used).
     if has_key block_def ''block''
     then bind_run (compile_episode_block env rv day tz grid seed block_def cs) (\<lambda>(bs, cs). Some (Inr (bs, cs, used)))
     else if has_key block_def ''movie_marathon''
     then bind_run (compile_movie_marathon env rv day tz grid seed block_def (if shared then used else [])) (\<lambda>(bs, used').
            Some (Inr (bs, cs, if shared then used' else used)))
     else if has_key block_def ''movie_block'' \<or> has_key block_def ''movie_selector''
     then bind_run (compile_movie_block env rv day tz grid seed block_def) (\<lambda>bs. Some (Inr (bs, cs, used)))
     else bind_run (compile_sitcom_block env rv day tz grid seed block_def cs) (\<lambda>(bs, cs). Some (Inr (bs, cs, used))))"

fun compile_defs ::
  "(yval \<Rightarrow> carried \<Rightarrow> (program_block_out list \<times> carried) run) \<Rightarrow> yval list \<Rightarrow> carried \<Rightarrow>
    (program_block_out list \<times> carried) run" where
  "compile_defs f [] st = Some (Inr ([], st))"
| "compile_defs f (d # ds) st =
     (if is_dict d
      then bind_run (f d st) (\<lambda>(bs, st). bind_run (compile_defs f ds st) (\<lambda>(bs', st). Some (Inr (bs @ bs', st))))
      else compile_defs f ds st)"

text \<open>Without layers, every key of the schedule is compiled for the day.\<close>

fun compile_legacy_days ::
  "compiler_env \<Rightarrow> resolver \<Rightarrow> string \<Rightarrow> yval \<Rightarrow> int \<Rightarrow> int option \<Rightarrow> (yval \<times> yval) list \<Rightarrow> carried \<Rightarrow>
    (program_block_out list \<times> carried) run" where
  "compile_legacy_days env rv day tz grid seed [] st = Some (Inr ([], st))"
| "compile_legacy_days env rv day tz grid seed ((key, v) # days) st =
     bind_run
       (case v of
          YDict _ \<Rightarrow>
            bind_run (compile_sitcom_block env rv day tz grid seed v (fst st)) (\<lambda>(bs, cs). Some (Inr (bs, cs, snd st)))
        | YList items \<Rightarrow> compile_defs (compile_block_def env rv day tz grid seed False) items st
        | _ \<Rightarrow> Some (Inr ([], st))) (\<lambda>(bs, st).
     bind_run (compile_legacy_days env rv day tz grid seed days st) (\<lambda>(bs', st). Some (Inr (bs @ bs', st))))"

definition uses_layers :: "(yval \<times> yval) list \<Rightarrow> bool" where
  "uses_layers items \<longleftrightarrow> (\<exists>(key, v) \<in> set items. \<exists>k \<in> set VALID_SCHEDULE_KEYS. key = YStr k)"

text \<open>
  A block with its clock: its time is wall-clock time of the channel, or UTC.  The offset from UTC and
  the order of two times follow \<^verbatim>\<open>datetime\<close>: times of one clock compare as they are written.
\<close>

datatype clock = Local | Utc

type_synonym clocked = "clock \<times> program_block_out"

definition utc_offset :: "(datetime \<Rightarrow> int) \<Rightarrow> clock \<Rightarrow> datetime \<Rightarrow> int" where
  "utc_offset off c w = (case c of Local \<Rightarrow> off w | Utc \<Rightarrow> 0)"

definition later :: "(datetime \<Rightarrow> int) \<Rightarrow> clock \<times> datetime \<Rightarrow> clock \<times> datetime \<Rightarrow> bool" where
  "later off = (\<lambda>(c, w) (c', w').
     if c = c' then w' < w else w' - utc_offset off c' w' < w - utc_offset off c w)"

definition normalize_block :: "(datetime \<Rightarrow> int) \<Rightarrow> program_block_out \<Rightarrow> clocked" where
  "normalize_block off b =
     (if off (gb_start b) \<noteq> 0 then (Utc, b\<lparr>gb_start := gb_start b - off (gb_start b)\<rparr>) else (Local, b))"

definition epoch_second :: "datetime \<Rightarrow> int" where
  "epoch_second w = py_trunc (total_seconds w)"

definition check_block_grid :: "(datetime \<Rightarrow> int) \<Rightarrow> int \<Rightarrow> clocked \<Rightarrow> unit res" where
  "check_block_grid off grid = (\<lambda>(c, b).
     if utc_offset off c (gb_start b) \<noteq> 0 then Inl (CompileError ''Grid violation: not UTC'')
     else if epoch_second (gb_start b) mod (grid * 60) \<noteq> 0 then Inl (CompileError ''Grid violation: start'')
     else if gb_slot b mod (grid * 60) \<noteq> 0 then Inl (CompileError ''Grid violation: slot'')
     else Inr ())"

definition validate_block_grid :: "(datetime \<Rightarrow> int) \<Rightarrow> int \<Rightarrow> clocked list \<Rightarrow> unit res" where
  "validate_block_grid off grid bs = for_check (check_block_grid off grid) bs"

text \<open>A block that starts before the end of the one before it is pushed to that end, and to its clock.\<close>

definition push_forward :: "(datetime \<Rightarrow> int) \<Rightarrow> clocked \<Rightarrow> clocked \<Rightarrow> clocked" where
  "push_forward off = (\<lambda>(c, prev) (c', b).
     if later off (c, end_at prev) (c', gb_start b) then (c, b\<lparr>gb_start := end_at prev\<rparr>) else (c', b))"

fun compact_after :: "(datetime \<Rightarrow> int) \<Rightarrow> clocked \<Rightarrow> clocked list \<Rightarrow> clocked list" where
  "compact_after off prev [] = []"
| "compact_after off prev (b # bs) = (let b' = push_forward off prev b in b' # compact_after off b' bs)"

fun compact :: "(datetime \<Rightarrow> int) \<Rightarrow> clocked list \<Rightarrow> clocked list" where
  "compact off [] = []"
| "compact off (b # bs) = b # compact_after off b bs"

definition finish_blocks ::
  "(datetime \<Rightarrow> int) \<Rightarrow> int \<Rightarrow> program_block_out list \<Rightarrow> program_block_out list res" where
  "finish_blocks off grid bs =
     (let bs = map (normalize_block off) (sort_key gb_start bs)
      in bind_res (validate_block_grid off grid bs) (\<lambda>_.
         let bs = compact off bs
         in bind_res (validate_block_grid off grid bs) (\<lambda>_. Inr (map snd bs))))"

text \<open>The overlaps of compiled blocks, whose times are UTC.\<close>

definition overlap_error :: "compiler_env \<Rightarrow> program_block_out \<Rightarrow> program_block_out \<Rightarrow> string" where
  "overlap_error env b c =
     ''Overlap: '' @ py_str (ce_text env) (gb_title b) @ ''@'' @ iso_datetime (gb_start b) @ '' ends at ''
       @ iso_datetime (end_at b) @ '' but '' @ py_str (ce_text env) (gb_title c) @ ''@''
       @ iso_datetime (gb_start c) @ '' starts before''"

definition validate_program_blocks :: "compiler_env \<Rightarrow> program_block_out list \<Rightarrow> string list" where
  "validate_program_blocks env bs =
     (let sorted = sort_key gb_start bs
      in concat (map (\<lambda>(b, c). if gb_start c < end_at b then [overlap_error env b c] else []) (zip sorted (tl sorted))))"

text \<open>\<open>to_dict\<close>\<close>

definition block_dict :: "program_block_out \<Rightarrow> yval" where
  "block_dict b =
     YDict ([(YStr ''title'', gb_title b), (YStr ''asset_id'', gb_asset b), (YStr ''start_at'', YStr (iso_datetime (gb_start b))),
             (YStr ''slot_duration_sec'', YInt (gb_slot b)), (YStr ''episode_duration_sec'', YInt (gb_episode b))]
            @ (if truthy (gb_collection b) then [(YStr ''collection'', gb_collection b)] else [])
            @ (if truthy (gb_selector b) then [(YStr ''selector'', gb_selector b)] else []))"

record compiled_plan =
  cp_channel :: yval
  cp_day :: string
  cp_timezone :: yval
  cp_dsl_path :: string
  cp_git_commit :: string
  cp_blocks :: "program_block_out list"
  cp_notes :: yval
  cp_hash :: string

definition plan_dict :: "compiled_plan \<Rightarrow> yval" where
  "plan_dict p =
     YDict ([(YStr ''version'', YStr ''program-schedule.v2''), (YStr ''channel_id'', cp_channel p),
             (YStr ''broadcast_day'', YStr (cp_day p)), (YStr ''timezone'', cp_timezone p),
             (YStr ''source'', YDict [(YStr ''dsl_path'', YStr (cp_dsl_path p)), (YStr ''git_commit'', YStr (cp_git_commit p)),
                                      (YStr ''compiler_version'', YStr COMPILER_VERSION)]),
             (YStr ''program_blocks'', YList (map block_dict (cp_blocks p)))]
            @ (if truthy (cp_notes p) then [(YStr ''notes'', cp_notes p)] else []))"

definition compute_hash :: "compiler_env \<Rightarrow> compiled_plan \<Rightarrow> string res" where
  "compute_hash env p =
     bind_res (json_dumps (ce_text env) (plan_dict p)) (\<lambda>text. Inr (''sha256:'' @ sha256_hexdigest text))"

definition register_dsl_pools :: "yval \<Rightarrow> resolver \<Rightarrow> resolver res" where
  "register_dsl_pools dsl rv =
     bind_res (dget dsl ''pools'' (YDict [])) (\<lambda>pools.
       if truthy pools then bind_res (dict_items pools) (\<lambda>ps. Inr (register_pools ps rv)) else Inr rv)"

definition field_of :: "yval \<Rightarrow> string \<Rightarrow> yval res" where
  "field_of v k =
     (case v of YDict kvs \<Rightarrow> (case map_of kvs (YStr k) of Some x \<Rightarrow> Inr x | None \<Rightarrow> Inl KeyError) | _ \<Rightarrow> Inl TypeError)"

text \<open>The blocks of the day before the last stage.\<close>

definition day_blocks ::
  "compiler_env \<Rightarrow> resolver \<Rightarrow> yval \<Rightarrow> string \<Rightarrow> yval \<Rightarrow> int \<Rightarrow> int option \<Rightarrow> counters \<Rightarrow>
    (program_block_out list \<times> carried) run" where
  "day_blocks env rv expanded day tz grid seed cs =
     bind_run (pure_run (dget expanded ''schedule'' (YDict []))) (\<lambda>schedule.
     bind_run (pure_run (dict_items schedule)) (\<lambda>items.
       if uses_layers items \<and> day \<noteq> []
       then bind_run (pure_run (case from_iso_date day of None \<Rightarrow> Inl (ValueError ''isoformat'') | Some d \<Rightarrow> Inr d)) (\<lambda>target.
            bind_run (pure_run (resolve_day_schedule expanded target)) (\<lambda>defs.
              compile_defs (compile_block_def env rv day tz grid seed True) defs (cs, [])))
       else compile_legacy_days env rv day tz grid seed items (cs, [])))"

text \<open>The offsets of the zone of the channel; without blocks the zone is not looked up.\<close>

definition zone_offsets :: "compiler_env \<Rightarrow> yval \<Rightarrow> datetime \<Rightarrow> int" where
  "zone_offsets env tz =
     (case tz of YStr s \<Rightarrow> (case ce_zone env s of Inr off \<Rightarrow> off | Inl _ \<Rightarrow> (\<lambda>_. 0)) | _ \<Rightarrow> (\<lambda>_. 0))"

definition compile_schedule ::
  "compiler_env \<Rightarrow> string \<Rightarrow> string \<Rightarrow> int option \<Rightarrow> counters \<Rightarrow> yval \<Rightarrow> resolver \<Rightarrow> compiled_plan run" where
  "compile_schedule env dsl_path git_commit seed cs dsl rv0 =
     bind_run (pure_run (register_dsl_pools dsl rv0)) (\<lambda>rv.
     bind_run (pure_run (validate_dsl env rv dsl)) (\<lambda>errors.
     if errors \<noteq> [] then Some (Inl (DslValidationError errors))
     else
     bind_run (pure_run (expand_templates dsl)) (\<lambda>expanded.
     bind_run (pure_run (field_of expanded ''channel'')) (\<lambda>channel.
     bind_run (pure_run (field_of expanded ''broadcast_day'')) (\<lambda>bd.
     bind_run (pure_run (field_of expanded ''timezone'')) (\<lambda>tz.
     bind_run (pure_run (get_channel_template expanded)) (\<lambda>template.
     let day = py_str (ce_text env) bd; grid = get_grid_minutes template
     in bind_run (day_blocks env rv expanded day tz grid seed cs) (\<lambda>(bs, _).
        bind_run (pure_run (finish_blocks (zone_offsets env tz) grid bs)) (\<lambda>bs.
        bind_run (pure_run (dget dsl ''notes'' YNone)) (\<lambda>notes.
          let p = \<lparr>cp_channel = channel, cp_day = day, cp_timezone = tz, cp_dsl_path = dsl_path,
                   cp_git_commit = git_commit, cp_blocks = bs, cp_notes = notes, cp_hash = []\<rparr>
          in bind_run (pure_run (compute_hash env p)) (\<lambda>h. Some (Inr (p\<lparr>cp_hash := h\<rparr>)))))))))))))"

end
