(* ===== verification/Tier_Two.thy ===== *)
theory Tier_Two
  imports Playout_Expansion Schedule_Compiler
begin

text \<open>
  The two tiers of prepared playout in the database and how a block is written to them:
  \<^verbatim>\<open>CompiledProgramLog\<close> (tier 1, the segmented blocks of a broadcast day) and \<^verbatim>\<open>TransmissionLog\<close>
  (tier 2, blocks with their advertisements) of \<^verbatim>\<open>domain/entities.py\<close>, with the writers and readers of
  \<^verbatim>\<open>runtime/dsl_schedule_service.py\<close> and \<^verbatim>\<open>runtime/playlog_horizon_daemon.py\<close>.  A JSON object is a record
  whose optional keys are options; a table is the list of its rows.  Every statement sent to the
  database may fail: whether the \<open>n\<close>-th one does is a parameter of the world.  The lemmas are the laws
  of the two formats: what is written by the service is read back, and what the daemon writes is
  read back without its gain.
\<close>

section \<open>Rows\<close>

record seg_row =
  sw_index :: "nat option"
  sw_type :: "string option"
  sw_uri :: "string option"
  sw_offset :: "ms option"
  sw_duration :: "ms option"
  sw_title :: "string option"
  sw_in :: "transition option"
  sw_in_ms :: "ms option"
  sw_out :: "transition option"
  sw_out_ms :: "ms option"
  sw_gain :: "rat option"

record stored_block_row =
  bw_id :: string
  bw_start :: ms
  bw_end :: ms
  bw_segments :: "seg_row list"

record tx_row =
  tx_block :: string
  tx_channel :: string
  tx_day :: date
  tx_start :: ms
  tx_end :: ms
  tx_segments :: "seg_row list"

text \<open>The compiled schedule of one day: the plan of the compiler, with what the service adds to it.\<close>

record program_schedule = compiled_plan +
  cs_compiler :: "string option"
  cs_segmented :: "stored_block_row list option"

record compiled_row =
  cl_channel :: string
  cl_day :: date
  cl_locked :: bool
  cl_hash :: string
  cl_json :: program_schedule
  cl_range_start :: "datetime option"
  cl_range_end :: "datetime option"

section \<open>Tier 1: whole blocks\<close>

definition serialize_segment :: "scheduled_segment \<Rightarrow> seg_row" where
  "serialize_segment s =
     \<lparr>sw_index = None, sw_type = Some (sg_type s), sw_uri = Some (sg_uri s), sw_offset = Some (sg_offset s),
      sw_duration = Some (sg_duration s), sw_title = None,
      sw_in = Some (sg_transition_in s), sw_in_ms = Some (sg_transition_in_ms s),
      sw_out = Some (sg_transition_out s), sw_out_ms = Some (sg_transition_out_ms s),
      sw_gain = (if sg_gain s \<noteq> 0 then Some (sg_gain s) else None)\<rparr>"

definition serialize_scheduled_block :: "scheduled_block \<Rightarrow> stored_block_row" where
  "serialize_scheduled_block b =
     \<lparr>bw_id = sb_id b, bw_start = sb_start b, bw_end = sb_end b, bw_segments = map serialize_segment (sb_segments b)\<rparr>"

text \<open>\<open>d.get(key, default)\<close>\<close>

definition stored_or :: "'a \<Rightarrow> 'a option \<Rightarrow> 'a" where
  "stored_or d x = (case x of None \<Rightarrow> d | Some v \<Rightarrow> v)"

definition read_segment :: "string \<Rightarrow> seg_row \<Rightarrow> scheduled_segment" where
  "read_segment seg_type s =
     \<lparr>sg_type = seg_type, sg_uri = stored_or [] (sw_uri s), sg_offset = stored_or 0 (sw_offset s),
      sg_duration = stored_or 0 (sw_duration s), sg_transition_in = stored_or TRANSITION_NONE (sw_in s),
      sg_transition_in_ms = stored_or 0 (sw_in_ms s), sg_transition_out = stored_or TRANSITION_NONE (sw_out s),
      sg_transition_out_ms = stored_or 0 (sw_out_ms s), sg_gain = stored_or 0 (sw_gain s)\<rparr>"

definition deserialize_segment :: "seg_row \<Rightarrow> scheduled_segment res" where
  "deserialize_segment s = (case sw_type s of None \<Rightarrow> Inl KeyError | Some t \<Rightarrow> Inr (read_segment t s))"

definition deserialize_scheduled_block :: "stored_block_row \<Rightarrow> scheduled_block res" where
  "deserialize_scheduled_block d =
     bind_res (map_res deserialize_segment (bw_segments d)) (\<lambda>segs.
       Inr \<lparr>sb_id = bw_id d, sb_start = bw_start d, sb_end = bw_end d, sb_segments = segs\<rparr>)"

section \<open>Tier 2: filled blocks\<close>

text \<open>\<open>s.rsplit(c, 1)[-1]\<close> and \<open>s.rsplit(c, 1)[0]\<close> for a separator that occurs.\<close>

definition after_last :: "char \<Rightarrow> string \<Rightarrow> string" where
  "after_last c s = last (split_char c s)"

definition before_last :: "char \<Rightarrow> string \<Rightarrow> string" where
  "before_last c s = join_char c (butlast (split_char c s))"

fun drop_first_prefix :: "string list \<Rightarrow> string \<Rightarrow> string" where
  "drop_first_prefix [] s = s"
| "drop_first_prefix (p # ps) s = (if take (length p) s = p then drop (length p) s else drop_first_prefix ps s)"

definition segment_title :: "scheduled_segment \<Rightarrow> string" where
  "segment_title seg =
     (if sg_uri seg \<noteq> []
      then let name = (if CHR ''/'' \<in> set (sg_uri seg) then after_last (CHR ''/'') (sg_uri seg) else sg_uri seg);
               name = (if CHR ''.'' \<in> set name then before_last (CHR ''.'') name else name)
           in drop_first_prefix [''Interstitial - Commercial - '', ''Interstitial - '', ''Commercial - ''] name
      else if sg_type seg = ''pad'' then ''BLACK'' else py_upper (sg_type seg))"

text \<open>The row of a segment, before the fields in which the two writers differ.\<close>

definition tx_segment :: "nat \<Rightarrow> scheduled_segment \<Rightarrow> seg_row" where
  "tx_segment i seg =
     \<lparr>sw_index = Some i, sw_type = Some (sg_type seg), sw_uri = Some (sg_uri seg), sw_offset = Some (sg_offset seg),
      sw_duration = Some (sg_duration seg), sw_title = None,
      sw_in = (if sg_transition_in seg \<noteq> TRANSITION_NONE then Some (sg_transition_in seg) else None),
      sw_in_ms = (if sg_transition_in seg \<noteq> TRANSITION_NONE then Some (sg_transition_in_ms seg) else None),
      sw_out = (if sg_transition_out seg \<noteq> TRANSITION_NONE then Some (sg_transition_out seg) else None),
      sw_out_ms = (if sg_transition_out seg \<noteq> TRANSITION_NONE then Some (sg_transition_out_ms seg) else None),
      sw_gain = None\<rparr>"

definition daemon_segment :: "nat \<Rightarrow> scheduled_segment \<Rightarrow> seg_row" where
  "daemon_segment i seg = (tx_segment i seg)\<lparr>sw_title := Some (segment_title seg)\<rparr>"

definition service_segment :: "nat \<Rightarrow> scheduled_segment \<Rightarrow> seg_row" where
  "service_segment i seg =
     (tx_segment i seg)\<lparr>sw_gain := (if sg_gain seg \<noteq> 0 then Some (sg_gain seg) else None)\<rparr>"

definition enumerate_rows :: "(nat \<Rightarrow> scheduled_segment \<Rightarrow> seg_row) \<Rightarrow> scheduled_segment list \<Rightarrow> seg_row list" where
  "enumerate_rows f segs = map (\<lambda>(i, seg). f i seg) (enumerate 0 segs)"

definition tx_row_of ::
  "(nat \<Rightarrow> scheduled_segment \<Rightarrow> seg_row) \<Rightarrow> string \<Rightarrow> date \<Rightarrow> scheduled_block \<Rightarrow> tx_row" where
  "tx_row_of f channel day b =
     \<lparr>tx_block = sb_id b, tx_channel = channel, tx_day = day, tx_start = sb_start b, tx_end = sb_end b,
      tx_segments = enumerate_rows f (sb_segments b)\<rparr>"

definition read_tx_row :: "tx_row \<Rightarrow> scheduled_block" where
  "read_tx_row r =
     \<lparr>sb_id = tx_block r, sb_start = tx_start r, sb_end = tx_end r,
      sb_segments = map (\<lambda>s. read_segment (stored_or ''content'' (sw_type s)) s) (tx_segments r)\<rparr>"

text \<open>\<open>db.merge(row)\<close>: the row with the same primary key is replaced, or the row is added.\<close>

definition tx_merge :: "tx_row \<Rightarrow> tx_row list \<Rightarrow> tx_row list" where
  "tx_merge r rows =
     (if \<exists>x \<in> set rows. tx_block x = tx_block r then map (\<lambda>x. if tx_block x = tx_block r then r else x) rows
      else rows @ [r])"

section \<open>The database\<close>

record tier_world =
  tr_tier1 :: "compiled_row list"
  tr_tier2 :: "tx_row list"
  tr_traffic :: traffic_world
  tr_fault :: "nat \<Rightarrow> bool"
  tr_calls :: nat

text \<open>One statement: whether the database answers.\<close>

definition db_try :: "tier_world \<Rightarrow> tier_world \<times> bool" where
  "db_try w = (w\<lparr>tr_calls := Suc (tr_calls w)\<rparr>, \<not> tr_fault w (tr_calls w))"

definition tier2_covers :: "string \<Rightarrow> ms \<Rightarrow> tier_world \<Rightarrow> bool" where
  "tier2_covers channel t w \<longleftrightarrow> (\<exists>r \<in> set (tr_tier2 w). tx_channel r = channel \<and> tx_start r \<le> t \<and> t < tx_end r)"

text \<open>The spots of a channel for one block: a library object is made for it.\<close>

definition fill_with_spots ::
  "string \<Rightarrow> string \<Rightarrow> ms \<Rightarrow> scheduled_block \<Rightarrow> tier_world \<Rightarrow> (tier_world \<times> scheduled_block res) option" where
  "fill_with_spots channel filler_uri filler_ms block w =
     map_option (\<lambda>(t, r). (w\<lparr>tr_traffic := t\<rparr>, r))
       (fill_ad_blocks (Some (\<lambda>t m. db_get_filler_assets t m 5)) filler_uri filler_ms
          ((tr_traffic w)\<lparr>tw_lib := new_db_library (Some channel) ''Interstitials''\<rparr>) block)"

section \<open>The formats\<close>

lemma stored_or_simps [simp]: "stored_or d None = d" "stored_or d (Some x) = x"
  by (simp_all add: stored_or_def)

lemma deserialize_serialize_segment: "deserialize_segment (serialize_segment s) = Inr s"
  by (cases s) (simp add: deserialize_segment_def serialize_segment_def read_segment_def)

lemma deserialize_serialize_block: "deserialize_scheduled_block (serialize_scheduled_block b) = Inr b"
proof -
  have "map_res deserialize_segment (map serialize_segment segs) = Inr segs" for segs
    by (induction segs) (simp_all add: deserialize_serialize_segment)
  then show ?thesis by (simp add: deserialize_scheduled_block_def serialize_scheduled_block_def)
qed

lemma deserialize_serialize_blocks: "map_res deserialize_scheduled_block (map serialize_scheduled_block bs) = Inr bs"
  by (induction bs) (simp_all add: deserialize_serialize_block)

text \<open>A transition that is absent has no length, as the expander makes them.\<close>

definition transitions_consistent :: "scheduled_segment \<Rightarrow> bool" where
  "transitions_consistent s \<longleftrightarrow>
     (sg_transition_in s = TRANSITION_NONE \<longrightarrow> sg_transition_in_ms s = 0)
     \<and> (sg_transition_out s = TRANSITION_NONE \<longrightarrow> sg_transition_out_ms s = 0)"

lemma read_tx_segment:
  assumes "transitions_consistent s"
  shows "read_segment (stored_or ''content'' (sw_type (service_segment i s))) (service_segment i s) = s"
    and "read_segment (stored_or ''content'' (sw_type (daemon_segment i s))) (daemon_segment i s) = s\<lparr>sg_gain := 0\<rparr>"
  using assms by (cases s; simp add: read_segment_def service_segment_def daemon_segment_def tx_segment_def
      transitions_consistent_def)+

lemma map_read_enumerate:
  assumes "\<And>i s. s \<in> set segs \<Longrightarrow> g (f i s) = h s"
  shows "map g (enumerate_rows f segs) = map h segs"
  using assms by (auto simp: enumerate_rows_def in_set_enumerate_eq intro!: nth_equalityI simp: nth_enumerate_eq)

lemma read_service_row:
  assumes "\<forall>s \<in> set (sb_segments b). transitions_consistent s"
  shows "read_tx_row (tx_row_of service_segment channel day b) = b"
proof -
  have "map (\<lambda>s. read_segment (stored_or ''content'' (sw_type s)) s) (enumerate_rows service_segment (sb_segments b))
      = map (\<lambda>s. s) (sb_segments b)"
    by (rule map_read_enumerate) (use assms read_tx_segment(1) in blast)
  then show ?thesis by (simp add: read_tx_row_def tx_row_of_def)
qed

lemma read_daemon_row:
  assumes "\<forall>s \<in> set (sb_segments b). transitions_consistent s"
  shows "read_tx_row (tx_row_of daemon_segment channel day b)
    = b\<lparr>sb_segments := map (\<lambda>s. s\<lparr>sg_gain := 0\<rparr>) (sb_segments b)\<rparr>"
proof -
  have "map (\<lambda>s. read_segment (stored_or ''content'' (sw_type s)) s) (enumerate_rows daemon_segment (sb_segments b))
      = map (\<lambda>s. s\<lparr>sg_gain := 0\<rparr>) (sb_segments b)"
    by (rule map_read_enumerate) (use assms read_tx_segment(2) in blast)
  then show ?thesis by (cases b) (simp add: read_tx_row_def tx_row_of_def)
qed

section \<open>Merging\<close>

lemma tx_merge_mem: "r \<in> set (tx_merge r rows)"
  by (auto simp: tx_merge_def)

lemma tx_merge_keeps: "x \<in> set rows \<Longrightarrow> tx_block x \<noteq> tx_block r \<Longrightarrow> x \<in> set (tx_merge r rows)"
  by (auto simp: tx_merge_def)

lemma tx_merge_from: "x \<in> set (tx_merge r rows) \<Longrightarrow> x = r \<or> x \<in> set rows \<and> tx_block x \<noteq> tx_block r"
  by (auto simp: tx_merge_def split: if_splits)

lemma tx_merge_replaces: "x \<in> set (tx_merge r rows) \<Longrightarrow> tx_block x = tx_block r \<Longrightarrow> x = r"
  using tx_merge_from by blast

text \<open>The primary key stays a key.\<close>

lemma tx_merge_distinct: "distinct (map tx_block rows) \<Longrightarrow> distinct (map tx_block (tx_merge r rows))"
proof -
  have "map tx_block (map (\<lambda>x. if tx_block x = tx_block r then r else x) rows) = map tx_block rows" by auto
  then show "distinct (map tx_block rows) \<Longrightarrow> distinct (map tx_block (tx_merge r rows))"
    by (auto simp: tx_merge_def simp del: map_map)
qed

section \<open>Properties\<close>

text \<open>
  C36. What is stored in tier 1 is what was compiled: \<^verbatim>\<open>_deserialize_scheduled_block\<close> gives back every
  field of every segment, gains and transitions included.
\<close>

theorem stored_block_round_trip: "deserialize_scheduled_block (serialize_scheduled_block b) = Inr b"
  by (rule deserialize_serialize_block)

text \<open>
  C35. A block filled ahead of time airs without its gain: the row the service writes is read back as the
  block it was, the row the daemon writes is read back with the gain of every segment set to 0
  (for blocks whose absent transitions have no length, as the expander makes them).
\<close>

theorem preheated_rows_lose_gain:
  assumes "\<forall>s \<in> set (sb_segments b). transitions_consistent s"
  shows "read_tx_row (tx_row_of service_segment channel day b) = b
    \<and> read_tx_row (tx_row_of daemon_segment channel day b)
      = b\<lparr>sb_segments := map (\<lambda>s. s\<lparr>sg_gain := 0\<rparr>) (sb_segments b)\<rparr>"
  using read_service_row [OF assms] read_daemon_row [OF assms] by simp

theorem preheated_rows_lose_gain_witness:
  "map sg_gain (sb_segments (read_tx_row (tx_row_of daemon_segment ''retro'' 0
      (expand_program_block ''show'' ''/show.mp4'' 0 1800000 1320000 None 1 500 ''network'' 3)))) = [0, 0, 0]
    \<and> map sg_gain (sb_segments (read_tx_row (tx_row_of service_segment ''retro'' 0
      (expand_program_block ''show'' ''/show.mp4'' 0 1800000 1320000 None 1 500 ''network'' 3)))) = [3, 0, 3]"
proof -
  let ?b = "expand_program_block ''show'' ''/show.mp4'' 0 1800000 1320000 None 1 500 ''network'' 3"
  have segs: "sb_segments ?b = sb_segments (expand_network ''show'' ''/show.mp4'' 0 1800000 1320000 None 1 500 3)"
    by (simp add: expand_program_block_def)
  have bp: "break_points_of 1320000 None 1 = ([660000], {660000})" by code_simp
  have s: "sb_segments ?b = [act_segment ''/show.mp4'' 3 500 0 660000 False True, placeholder 480000,
      act_segment ''/show.mp4'' 3 500 660000 660000 True False]"
    unfolding segs by (simp add: expand_network_def bp expanded_block_def ad_share_def)
  then have "\<forall>s \<in> set (sb_segments ?b). transitions_consistent s"
    by (simp add: transitions_consistent_def act_segment_def placeholder_def plain_segment_def)
  from preheated_rows_lose_gain [OF this, of "''retro''" 0] show ?thesis
    by (simp add: s act_segment_def placeholder_def plain_segment_def)
qed

end
