(* ===== verification/Playlog_Daemon.thy ===== *)
theory Playlog_Daemon
  imports Tier_Two
begin

text \<open>
  The daemon that keeps tier 2 ahead of the clock, \<^verbatim>\<open>runtime/playlog_horizon_daemon.py\<close>: one evaluation
  fills the block on air when it is missing, extends tier 2 from tier 1 up to the target, and purges
  old rows.  The time zone of the channel is a function from UTC to local time.  Filling a block may
  not return, so an evaluation is an option; the theorem on the horizon shows that it does.  The lemmas follow
  one invariant through the loops: rows with the name of a block of tier 1 belong to this channel
  and have its times.
\<close>

section \<open>The daemon\<close>

record daemon =
  pd_channel :: string
  pd_min_hours :: int
  pd_day_start :: int
  pd_filler_path :: string
  pd_filler_ms :: ms
  pd_tz :: "datetime \<Rightarrow> datetime"
  pd_zero_fills :: nat
  pd_farthest :: ms
  pd_last_eval :: ms
  pd_last_block :: "string option"
  pd_errors :: nat
  pd_stale :: "date list"
  pd_last_purge :: ms

definition new_daemon :: "string \<Rightarrow> int \<Rightarrow> int \<Rightarrow> string \<Rightarrow> ms \<Rightarrow> (datetime \<Rightarrow> datetime) \<Rightarrow> daemon" where
  "new_daemon channel min_hours day_start filler_path filler_ms tz =
     \<lparr>pd_channel = channel, pd_min_hours = min_hours, pd_day_start = day_start, pd_filler_path = filler_path,
      pd_filler_ms = filler_ms, pd_tz = tz, pd_zero_fills = 0, pd_farthest = 0, pd_last_eval = 0,
      pd_last_block = None, pd_errors = 0, pd_stale = [], pd_last_purge = 0\<rparr>"

definition target_ms :: "daemon \<Rightarrow> ms" where
  "target_ms d = pd_min_hours d * 3600000"

definition daemon_date_for :: "daemon \<Rightarrow> datetime \<Rightarrow> date" where
  "daemon_date_for d dt =
     (let local_dt = pd_tz d dt
      in if hour_of (time_of local_dt) < pd_day_start d then date_of (local_dt - us_per_day) else date_of local_dt)"

definition raise_farthest :: "ms \<Rightarrow> daemon \<Rightarrow> daemon" where
  "raise_farthest t d = (if pd_farthest d < t then d\<lparr>pd_farthest := t\<rparr> else d)"

section \<open>Queries\<close>

definition tier2_row_covers_now :: "daemon \<Rightarrow> ms \<Rightarrow> tier_world \<Rightarrow> tier_world \<times> bool" where
  "tier2_row_covers_now d now_ms w =
     (case db_try w of (w', ok) \<Rightarrow> (w', ok \<and> tier2_covers (pd_channel d) now_ms w'))"

definition tier1_row :: "daemon \<Rightarrow> date \<Rightarrow> tier_world \<Rightarrow> compiled_row option" where
  "tier1_row d day w = find (\<lambda>r. cl_channel r = pd_channel d \<and> cl_day r = day \<and> cl_locked r) (tr_tier1 w)"

definition load_tier1_blocks :: "daemon \<Rightarrow> date \<Rightarrow> tier_world \<Rightarrow> daemon \<times> tier_world \<times> stored_block_row list option" where
  "load_tier1_blocks d day w =
     (case db_try w of
        (w', False) \<Rightarrow> (d, w', None)
      | (w', True) \<Rightarrow>
        (case tier1_row d day w' of
           None \<Rightarrow> (d, w', None)
         | Some row \<Rightarrow>
           (case cs_segmented (cl_json row) of
              Some (b # bs) \<Rightarrow> (d, w', Some (b # bs))
            | _ \<Rightarrow> (if day \<in> set (pd_stale d) then d else d\<lparr>pd_stale := day # pd_stale d\<rparr>, w', None))))"

definition block_holds :: "ms \<Rightarrow> stored_block_row \<Rightarrow> bool" where
  "block_holds t b \<longleftrightarrow> bw_start b \<le> t \<and> t < bw_end b"

fun search_days :: "date list \<Rightarrow> ms \<Rightarrow> daemon \<Rightarrow> tier_world \<Rightarrow> daemon \<times> tier_world \<times> stored_block_row option" where
  "search_days [] now_ms d w = (d, w, None)"
| "search_days (day # days) now_ms d w =
     (case load_tier1_blocks d day w of
        (d', w', None) \<Rightarrow> search_days days now_ms d' w'
      | (d', w', Some blocks) \<Rightarrow>
        (case find (block_holds now_ms) blocks of
           Some b \<Rightarrow> (d', w', Some b)
         | None \<Rightarrow> search_days days now_ms d' w'))"

definition get_tier1_block_containing :: "ms \<Rightarrow> daemon \<Rightarrow> tier_world \<Rightarrow> daemon \<times> tier_world \<times> stored_block_row option" where
  "get_tier1_block_containing now_ms d w =
     (let bd = daemon_date_for d (from_epoch_ms now_ms) in search_days [bd - 1, bd] now_ms d w)"

definition batch_block_exists :: "string list \<Rightarrow> tier_world \<Rightarrow> tier_world \<times> string set" where
  "batch_block_exists block_ids w =
     (if block_ids = [] then (w, {})
      else case db_try w of
             (w', ok) \<Rightarrow> (w', if ok then tx_block ` set (filter (\<lambda>r. tx_block r \<in> set block_ids) (tr_tier2 w')) else {}))"

definition max_end :: "tx_row list \<Rightarrow> ms" where
  "max_end rows = (case map tx_end rows of [] \<Rightarrow> 0 | e # es \<Rightarrow> foldl max e es)"

definition get_frontier_utc_ms :: "daemon \<Rightarrow> tier_world \<Rightarrow> tier_world \<times> ms" where
  "get_frontier_utc_ms d w =
     (case db_try w of
        (w', ok) \<Rightarrow> (w', if ok then max_end (filter (\<lambda>r. tx_channel r = pd_channel d) (tr_tier2 w')) else 0))"

definition count_blocks_in_window :: "daemon \<Rightarrow> ms \<Rightarrow> tier_world \<Rightarrow> tier_world \<times> nat" where
  "count_blocks_in_window d now_ms w =
     (case db_try w of
        (w', ok) \<Rightarrow> (w', if ok then length (filter (\<lambda>r. tx_channel r = pd_channel d \<and> now_ms < tx_end r) (tr_tier2 w'))
                         else 0))"

section \<open>Filling and writing\<close>

definition write_to_txlog :: "daemon \<Rightarrow> scheduled_block \<Rightarrow> date \<Rightarrow> tier_world \<Rightarrow> tier_world \<times> unit res" where
  "write_to_txlog d block day w =
     (case db_try w of
        (w', False) \<Rightarrow> (w', Inl (RuntimeError ''database''))
      | (w', True) \<Rightarrow>
        (w'\<lparr>tr_tier2 := tx_merge (tx_row_of daemon_segment (pd_channel d) day block) (tr_tier2 w')\<rparr>, Inr ()))"

text \<open>Deserialize, fill, write: the body of both \<open>try\<close> blocks.\<close>

definition fill_and_write :: "daemon \<Rightarrow> stored_block_row \<Rightarrow> date \<Rightarrow> tier_world \<Rightarrow> (tier_world \<times> unit res) option" where
  "fill_and_write d sb day w =
     (case deserialize_scheduled_block sb of
        Inl e \<Rightarrow> Some (w, Inl e)
      | Inr block \<Rightarrow>
        (case fill_with_spots (pd_channel d) (pd_filler_path d) (pd_filler_ms d) block w of
           None \<Rightarrow> None
         | Some (w', Inl e) \<Rightarrow> Some (w', Inl e)
         | Some (w', Inr filled) \<Rightarrow> Some (write_to_txlog d filled day w')))"

definition note_filled :: "stored_block_row \<Rightarrow> daemon \<Rightarrow> daemon" where
  "note_filled sb d = raise_farthest (bw_end sb) (d\<lparr>pd_last_block := Some (bw_id sb)\<rparr>)"

definition attempt_fill :: "stored_block_row \<Rightarrow> date \<Rightarrow> daemon \<Rightarrow> tier_world \<Rightarrow> (daemon \<times> tier_world \<times> nat) option" where
  "attempt_fill sb day d w =
     (case fill_and_write d sb day w of
        None \<Rightarrow> None
      | Some (w', Inr _) \<Rightarrow> Some (note_filled sb d, w', 1)
      | Some (w', Inl _) \<Rightarrow> Some (d\<lparr>pd_errors := Suc (pd_errors d)\<rparr>, w', 0))"

definition ensure_tier2_covers_now :: "ms \<Rightarrow> daemon \<Rightarrow> tier_world \<Rightarrow> (daemon \<times> tier_world \<times> nat) option" where
  "ensure_tier2_covers_now now_ms d w =
     (case tier2_row_covers_now d now_ms w of
        (w', True) \<Rightarrow> Some (d, w', 0)
      | (w', False) \<Rightarrow>
        (case get_tier1_block_containing now_ms d w' of
           (d', w'', None) \<Rightarrow> Some (d', w'', 0)
         | (d', w'', Some sb) \<Rightarrow>
           if bw_end sb \<le> now_ms then Some (d', w'', 0)
           else attempt_fill sb (daemon_date_for d' (from_epoch_ms (bw_start sb))) d' w''))"

section \<open>Extension\<close>

text \<open>The candidates of a day: what has ended is skipped, the first block beyond the target stops the scan.\<close>

fun candidates :: "ms \<Rightarrow> ms \<Rightarrow> stored_block_row list \<Rightarrow> stored_block_row list" where
  "candidates cursor target_end [] = []"
| "candidates cursor target_end (b # bs) =
     (if bw_end b \<le> cursor then candidates cursor target_end bs
      else if target_end \<le> bw_start b then []
      else b # candidates cursor target_end bs)"

fun fill_candidates ::
  "stored_block_row list \<Rightarrow> string set \<Rightarrow> date \<Rightarrow> daemon \<Rightarrow> tier_world \<Rightarrow> (daemon \<times> tier_world \<times> nat) option" where
  "fill_candidates [] existing day d w = Some (d, w, 0)"
| "fill_candidates (b # bs) existing day d w =
     (if bw_id b \<in> existing then fill_candidates bs existing day (raise_farthest (bw_end b) d) w
      else (case attempt_fill b day d w of
              None \<Rightarrow> None
            | Some (d', w', n) \<Rightarrow>
              map_option (\<lambda>(d'', w'', m). (d'', w'', n + m)) (fill_candidates bs existing day d' w')))"

fun scan_days ::
  "date list \<Rightarrow> ms \<Rightarrow> ms \<Rightarrow> daemon \<Rightarrow> tier_world \<Rightarrow> (daemon \<times> tier_world \<times> nat) option" where
  "scan_days [] cursor target_end d w = Some (d, w, 0)"
| "scan_days (day # days) cursor target_end d w =
     (if cursor < target_end
      then (case load_tier1_blocks d day w of
              (d', w', None) \<Rightarrow> scan_days days cursor target_end d' w'
            | (d', w', Some blocks) \<Rightarrow>
              (case batch_block_exists (map bw_id (candidates cursor target_end blocks)) w' of
                 (w'', existing) \<Rightarrow>
                 (case fill_candidates (candidates cursor target_end blocks) existing day d' w'' of
                    None \<Rightarrow> None
                  | Some (d3, w3, n) \<Rightarrow>
                    map_option (\<lambda>(d4, w4, m). (d4, w4, n + m)) (scan_days days cursor target_end d3 w3))))
      else Some (d, w, 0))"

definition scan_range :: "daemon \<Rightarrow> ms \<Rightarrow> ms \<Rightarrow> date list" where
  "scan_range d cursor target_end =
     [daemon_date_for d (from_epoch_ms cursor) - 1 .. daemon_date_for d (from_epoch_ms target_end) + 1]"

definition extend_to_target :: "ms \<Rightarrow> ms \<Rightarrow> daemon \<Rightarrow> tier_world \<Rightarrow> (daemon \<times> tier_world \<times> nat) option" where
  "extend_to_target now_ms target d w =
     (let target_end = now_ms + target; cursor = max (pd_farthest d) now_ms
      in scan_days (scan_range d cursor target_end) cursor target_end d w)"

section \<open>Retention\<close>

text \<open>\<open>clock_ms\<close> is the clock, read only when the argument is 0.\<close>

definition purge_expired_tier2 :: "ms \<Rightarrow> ms \<Rightarrow> daemon \<Rightarrow> tier_world \<Rightarrow> daemon \<times> tier_world \<times> nat" where
  "purge_expired_tier2 clock_ms now_arg d w =
     (let now_ms = (if now_arg = 0 then clock_ms else now_arg)
      in if now_ms - pd_last_purge d < 3600000 then (d, w, 0)
         else let cutoff = now_ms - 4 * 3600000
              in case db_try w of
                   (w', False) \<Rightarrow> (d, w', 0)
                 | (w', True) \<Rightarrow>
                   (let expired = (\<lambda>r. tx_channel r = pd_channel d \<and> tx_end r \<le> cutoff)
                    in (d\<lparr>pd_last_purge := now_ms\<rparr>, w'\<lparr>tr_tier2 := filter (\<lambda>r. \<not> expired r) (tr_tier2 w')\<rparr>,
                        length (filter expired (tr_tier2 w')))))"

section \<open>Evaluation and health\<close>

definition note_frontier :: "daemon \<Rightarrow> tier_world \<Rightarrow> daemon \<times> tier_world" where
  "note_frontier d w = (case get_frontier_utc_ms d w of (w', frontier) \<Rightarrow> (raise_farthest frontier d, w'))"

definition depth_ms :: "daemon \<Rightarrow> ms \<Rightarrow> ms" where
  "depth_ms d now_ms = max 0 (pd_farthest d - now_ms)"

definition count_zero_fills :: "nat \<Rightarrow> daemon \<Rightarrow> daemon" where
  "count_zero_fills filled d = d\<lparr>pd_zero_fills := (if 0 < filled then 0 else Suc (pd_zero_fills d))\<rparr>"

definition playlog_evaluate_once :: "datetime \<Rightarrow> daemon \<Rightarrow> tier_world \<Rightarrow> (daemon \<times> tier_world \<times> nat) option" where
  "playlog_evaluate_once now d w =
     (let now_ms = to_epoch_ms now
      in case ensure_tier2_covers_now now_ms (d\<lparr>pd_last_eval := now_ms\<rparr>) w of
           None \<Rightarrow> None
         | Some (d1, w1, backfilled) \<Rightarrow>
           (case note_frontier d1 w1 of
              (d2, w2) \<Rightarrow>
              if target_ms d2 \<le> depth_ms d2 now_ms then Some (d2\<lparr>pd_zero_fills := 0\<rparr>, w2, backfilled)
              else (case extend_to_target now_ms (target_ms d2) d2 w2 of
                      None \<Rightarrow> None
                    | Some (d3, w3, extended) \<Rightarrow>
                      let filled = backfilled + extended
                      in case purge_expired_tier2 now_ms now_ms (count_zero_fills filled d3) w3 of
                           (d4, w4, _) \<Rightarrow> Some (d4, w4, filled))))"

record playlog_health =
  ph_depth_hours :: rat
  ph_min_hours :: int
  ph_farthest :: ms
  ph_blocks :: nat
  ph_last_eval :: ms
  ph_healthy :: bool
  ph_last_block :: "string option"
  ph_errors :: nat

text \<open>\<open>round(x, 2)\<close> of a non-negative float: the nearest multiple of 1/100, a tie to the even one.\<close>

definition round_hours :: "rat \<Rightarrow> rat" where
  "round_hours x = fl (of_int (rne (x * 100)) / 100)"

definition playlog_health_report :: "datetime \<Rightarrow> daemon \<Rightarrow> tier_world \<Rightarrow> tier_world \<times> playlog_health" where
  "playlog_health_report now d w =
     (let now_ms = to_epoch_ms now; depth = depth_ms d now_ms
      in case count_blocks_in_window d now_ms w of
           (w', n) \<Rightarrow>
           (w', \<lparr>ph_depth_hours = round_hours (fl (of_int depth / 3600000)), ph_min_hours = pd_min_hours d,
                 ph_farthest = pd_farthest d, ph_blocks = n, ph_last_eval = pd_last_eval d,
                 ph_healthy = target_ms d \<le> depth, ph_last_block = pd_last_block d, ph_errors = pd_errors d\<rparr>))"

section \<open>What the loops rely on\<close>

definition tier1_blocks :: "daemon \<Rightarrow> date \<Rightarrow> tier_world \<Rightarrow> stored_block_row list" where
  "tier1_blocks d day w =
     (case tier1_row d day w of
        None \<Rightarrow> [] | Some row \<Rightarrow> (case cs_segmented (cl_json row) of None \<Rightarrow> [] | Some bs \<Rightarrow> bs))"

definition tier1_all :: "daemon \<Rightarrow> tier_world \<Rightarrow> stored_block_row set" where
  "tier1_all d w = (\<Union>day. set (tier1_blocks d day w))"

text \<open>A block that can be filled: it is well formed and no placeholder is longer than the static filler.\<close>

definition fillable :: "ms \<Rightarrow> stored_block_row \<Rightarrow> bool" where
  "fillable filler_ms b \<longleftrightarrow>
     (case deserialize_scheduled_block b of
        Inl _ \<Rightarrow> False
      | Inr block \<Rightarrow> \<forall>seg \<in> set (sb_segments block). is_placeholder seg \<longrightarrow> sg_duration seg \<le> filler_ms)"

text \<open>Rows that carry the name of a block of this channel are rows of that block.\<close>

definition names_agree :: "daemon \<Rightarrow> tier_world \<Rightarrow> bool" where
  "names_agree d w \<longleftrightarrow>
     (\<forall>b \<in> tier1_all d w. \<forall>r \<in> set (tr_tier2 w). tx_block r = bw_id b \<longrightarrow>
        tx_channel r = pd_channel d \<and> tx_start r = bw_start b \<and> tx_end r = bw_end b)"

definition times_by_name :: "stored_block_row set \<Rightarrow> bool" where
  "times_by_name A \<longleftrightarrow>
     (\<forall>a \<in> A. \<forall>b \<in> A. bw_id a = bw_id b \<longrightarrow> bw_start a = bw_start b \<and> bw_end a = bw_end b)"

definition tier1_sound :: "daemon \<Rightarrow> tier_world \<Rightarrow> bool" where
  "tier1_sound d w \<longleftrightarrow>
     (\<forall>day. sorted (map bw_start (tier1_blocks d day w)))
     \<and> (\<forall>b \<in> tier1_all d w. fillable (pd_filler_ms d) b)
     \<and> times_by_name (tier1_all d w)
     \<and> 0 < pd_filler_ms d \<and> shuffles (tr_traffic w) \<and> tr_fault w = (\<lambda>_. False)"

text \<open>What no step of the daemon changes.\<close>

definition same_setup :: "daemon \<Rightarrow> tier_world \<Rightarrow> daemon \<Rightarrow> tier_world \<Rightarrow> bool" where
  "same_setup d w d' w' \<longleftrightarrow>
     pd_channel d' = pd_channel d \<and> pd_min_hours d' = pd_min_hours d \<and> pd_day_start d' = pd_day_start d
     \<and> pd_filler_path d' = pd_filler_path d \<and> pd_filler_ms d' = pd_filler_ms d \<and> pd_tz d' = pd_tz d
     \<and> tr_tier1 w' = tr_tier1 w \<and> tr_fault w' = tr_fault w"

lemma same_setup_refl [simp]: "same_setup d w d w"
  by (simp add: same_setup_def)

lemma same_setup_trans: "same_setup a u b v \<Longrightarrow> same_setup b v c w \<Longrightarrow> same_setup a u c w"
  by (simp add: same_setup_def)

lemma tier1_blocks_setup: "same_setup d w d' w' \<Longrightarrow> tier1_blocks d' day w' = tier1_blocks d day w"
  by (simp add: same_setup_def tier1_blocks_def tier1_row_def)

lemma tier1_all_setup: "same_setup d w d' w' \<Longrightarrow> tier1_all d' w' = tier1_all d w"
  by (simp add: tier1_all_def tier1_blocks_setup)

lemma setup_fields:
  assumes "same_setup d w d' w'"
  shows "pd_channel d' = pd_channel d" "target_ms d' = target_ms d" "daemon_date_for d' = daemon_date_for d"
  using assms by (simp_all add: same_setup_def target_ms_def daemon_date_for_def fun_eq_iff)

lemma sound_setup:
  assumes "tier1_sound d w" "same_setup d w d' w'" "shuffles (tr_traffic w')"
  shows "tier1_sound d' w'"
  using assms(1,3) unfolding tier1_sound_def tier1_all_setup [OF assms(2)] tier1_blocks_setup [OF assms(2)]
  using assms(2) by (simp add: same_setup_def)

lemma db_try_ok:
  "tr_fault w = (\<lambda>_. False) \<Longrightarrow> db_try w = (w\<lparr>tr_calls := Suc (tr_calls w)\<rparr>, True)"
  by (simp add: db_try_def)

lemma raise_farthest_simps [simp]:
  "same_setup d w (raise_farthest t d) w" "pd_errors (raise_farthest t d) = pd_errors d"
  "pd_farthest (raise_farthest t d) = max (pd_farthest d) t"
  by (simp_all add: raise_farthest_def same_setup_def max_def)

text \<open>Progress: coverage, names and the farthest end only grow.\<close>

definition progress :: "daemon \<Rightarrow> tier_world \<Rightarrow> daemon \<Rightarrow> tier_world \<Rightarrow> bool" where
  "progress d w d' w' \<longleftrightarrow> same_setup d w d' w' \<and> tier1_sound d' w' \<and> names_agree d' w'
     \<and> pd_errors d' = pd_errors d \<and> pd_farthest d \<le> pd_farthest d'
     \<and> (\<forall>t. tier2_covers (pd_channel d) t w \<longrightarrow> tier2_covers (pd_channel d) t w')
     \<and> tx_block ` set (tr_tier2 w) \<subseteq> tx_block ` set (tr_tier2 w')"

lemma progress_trans:
  assumes "progress a u b v" "progress b v c w"
  shows "progress a u c w"
proof -
  have "pd_channel b = pd_channel a" using assms(1) by (simp add: progress_def same_setup_def)
  moreover have "tx_block ` set (tr_tier2 u) \<subseteq> tx_block ` set (tr_tier2 w)"
    using assms unfolding progress_def by (meson subset_trans)
  ultimately show ?thesis using assms unfolding progress_def by (auto elim: same_setup_trans intro: order_trans)
qed

lemma progress_same_db:
  assumes "tier1_sound d w" "names_agree d w" "same_setup d w d' w'"
    and "tr_traffic w' = tr_traffic w" "tr_tier2 w' = tr_tier2 w" "pd_errors d' = pd_errors d" "pd_farthest d \<le> pd_farthest d'"
  shows "progress d w d' w'"
proof -
  have "shuffles (tr_traffic w)" using assms(1) by (simp add: tier1_sound_def)
  then have "tier1_sound d' w'" using sound_setup [OF assms(1,3)] assms(4) by simp
  then show ?thesis using assms tier1_all_setup [OF assms(3)] setup_fields(1) [OF assms(3)]
    by (simp add: progress_def names_agree_def tier2_covers_def)
qed

definition covered :: "daemon \<Rightarrow> stored_block_row \<Rightarrow> tier_world \<Rightarrow> bool" where
  "covered d b w \<longleftrightarrow> (\<forall>t. block_holds t b \<longrightarrow> tier2_covers (pd_channel d) t w)"

lemma progress_covered: "progress d w d' w' \<Longrightarrow> covered d b w \<Longrightarrow> covered d' b w'"
  by (auto simp: progress_def covered_def same_setup_def)

section \<open>One block\<close>

lemma fill_with_spots_ok:
  assumes "shuffles (tr_traffic w)" "0 < fms" "\<forall>seg \<in> set (sb_segments block). is_placeholder seg \<longrightarrow> sg_duration seg \<le> fms"
  shows "\<exists>t filled. fill_with_spots channel uri fms block w = Some (w\<lparr>tr_traffic := t\<rparr>, Inr filled) \<and> shuffles t
    \<and> sb_id filled = sb_id block \<and> sb_start filled = sb_start block \<and> sb_end filled = sb_end block
    \<and> total_duration (sb_segments filled) = total_duration (sb_segments block)"
proof -
  let ?t0 = "(tr_traffic w)\<lparr>tw_lib := new_db_library (Some channel) ''Interstitials''\<rparr>"
  have "shuffles ?t0" using assms(1) by (simp add: shuffles_def)
  from db_spots.fill_ad_blocks_filled [OF this assms(2), of uri block]
  obtain t r where run: "fill_ad_blocks (Some (\<lambda>t m. db_get_filler_assets t m 5)) uri fms ?t0 block = Some (t, r)"
    and t: "shuffles t" and ok: "\<forall>b. r = Inr b \<longrightarrow> sb_id b = sb_id block \<and> sb_start b = sb_start block \<and> sb_end b = sb_end block
        \<and> total_duration (sb_segments b) = total_duration (sb_segments block)"
    and err: "\<forall>e. r = Inl e \<longrightarrow> (\<exists>seg \<in> set (sb_segments block). is_placeholder seg \<and> fms < sg_duration seg)"
    by blast
  obtain filled where "r = Inr filled" using err assms(3) by (cases r) force+
  then show ?thesis using run t ok by (auto simp: fill_with_spots_def)
qed

lemma attempt_fill_ok:
  assumes sound: "tier1_sound d w" and names: "names_agree d w" and b: "b \<in> tier1_all d w"
  shows "\<exists>d' w'. attempt_fill b day d w = Some (d', w', 1) \<and> progress d w d' w' \<and> covered d' b w'
    \<and> pd_farthest d' = max (pd_farthest d) (bw_end b)
    \<and> (\<exists>y. tr_tier2 w' = tx_merge y (tr_tier2 w) \<and> tx_end y = bw_end b)"
proof -
  have fault: "tr_fault w = (\<lambda>_. False)" using sound by (simp add: tier1_sound_def)
  have fb: "fillable (pd_filler_ms d) b" using sound b by (simp add: tier1_sound_def)
  obtain block where block: "deserialize_scheduled_block b = Inr block"
    and short: "\<forall>seg \<in> set (sb_segments block). is_placeholder seg \<longrightarrow> sg_duration seg \<le> pd_filler_ms d"
    using fb unfolding fillable_def by (auto split: sum.splits)
  have times: "sb_id block = bw_id b" "sb_start block = bw_start b" "sb_end block = bw_end b"
    using block by (auto simp: deserialize_scheduled_block_def bind_res_Inr_iff)
  have "shuffles (tr_traffic w)" "0 < pd_filler_ms d" using sound by (simp_all add: tier1_sound_def)
  from fill_with_spots_ok [OF this short, of "pd_channel d" "pd_filler_path d"]
  obtain t filled where fill: "fill_with_spots (pd_channel d) (pd_filler_path d) (pd_filler_ms d) block w
      = Some (w\<lparr>tr_traffic := t\<rparr>, Inr filled)" and t: "shuffles t"
    and ft: "sb_id filled = bw_id b" "sb_start filled = bw_start b" "sb_end filled = bw_end b"
    using times by auto
  define r where "r = tx_row_of daemon_segment (pd_channel d) day filled"
  have r: "tx_block r = bw_id b" "tx_channel r = pd_channel d" "tx_start r = bw_start b" "tx_end r = bw_end b"
    by (simp_all add: r_def tx_row_of_def ft)
  define w' where "w' = w\<lparr>tr_traffic := t, tr_calls := Suc (tr_calls w), tr_tier2 := tx_merge r (tr_tier2 w)\<rparr>"
  have run: "attempt_fill b day d w = Some (note_filled b d, w', 1)"
    using fault by (simp add: attempt_fill_def fill_and_write_def block fill write_to_txlog_def db_try_def w'_def r_def)
  have kept: "same_setup d w (note_filled b d) w'"
    by (simp add: same_setup_def note_filled_def raise_farthest_def w'_def)
  have all: "tier1_all (note_filled b d) w' = tier1_all d w" by (rule tier1_all_setup [OF kept])
  have "names_agree (note_filled b d) w'"
    unfolding names_agree_def all
  proof (intro ballI impI)
    fix a x assume a: "a \<in> tier1_all d w" and x: "x \<in> set (tr_tier2 w')" and eq: "tx_block x = bw_id a"
    from x have "x = r \<or> x \<in> set (tr_tier2 w)" using tx_merge_from by (auto simp: w'_def)
    then show "tx_channel x = pd_channel (note_filled b d) \<and> tx_start x = bw_start a \<and> tx_end x = bw_end a"
    proof
      assume "x = r"
      then show ?thesis using eq r a b sound setup_fields(1) [OF kept] unfolding tier1_sound_def times_by_name_def by metis
    qed (use names a eq setup_fields(1) [OF kept] in \<open>auto simp: names_agree_def\<close>)
  qed
  moreover have "tier1_sound (note_filled b d) w'"
    by (rule sound_setup [OF sound kept]) (simp add: w'_def t)
  moreover have "tier2_covers (pd_channel d) u w'" if "tier2_covers (pd_channel d) u w" for u
  proof -
    from that obtain x where x: "x \<in> set (tr_tier2 w)" "tx_channel x = pd_channel d" "tx_start x \<le> u" "u < tx_end x"
      by (auto simp: tier2_covers_def)
    show ?thesis
    proof (cases "tx_block x = tx_block r")
      case True
      then have "tx_start x = tx_start r" "tx_end x = tx_end r" using names b x(1) r by (auto simp: names_agree_def)
      then show ?thesis using x r tx_merge_mem by (auto simp: tier2_covers_def w'_def)
    next
      case False
      then show ?thesis using x tx_merge_keeps [OF x(1) False] by (auto simp: tier2_covers_def w'_def)
    qed
  qed
  moreover have "tx_block ` set (tr_tier2 w) \<subseteq> tx_block ` set (tr_tier2 w')"
    using tx_merge_mem [of r] tx_merge_keeps [where r = r] by (force simp: w'_def)
  moreover have "covered (note_filled b d) b w'"
    using r tx_merge_mem [of r "tr_tier2 w"] setup_fields(1) [OF kept]
    by (auto simp: covered_def block_holds_def tier2_covers_def w'_def)
  moreover have "tr_tier2 w' = tx_merge r (tr_tier2 w)" by (simp add: w'_def)
  ultimately show ?thesis using run kept r(4)
    by (auto simp: progress_def note_filled_def)
qed

section \<open>The loops\<close>

lemma candidates_set:
  "sorted (map bw_start bs) \<Longrightarrow>
    set (candidates c e bs) = {b \<in> set bs. c < bw_end b \<and> bw_start b < e}"
  by (induction bs) (auto simp: not_le)

lemma fill_candidates_ok:
  assumes "tier1_sound d w" "names_agree d w" "set bs \<subseteq> tier1_all d w" "existing \<subseteq> tx_block ` set (tr_tier2 w)"
  shows "\<exists>d' w' n. fill_candidates bs existing day d w = Some (d', w', n) \<and> progress d w d' w'
    \<and> (\<forall>b \<in> set bs. covered d' b w' \<and> bw_end b \<le> pd_farthest d')"
  using assms
proof (induction bs arbitrary: d w)
  case Nil
  then show ?case by (simp add: progress_same_db)
next
  case (Cons b bs)
  have b: "b \<in> tier1_all d w" using Cons.prems(3) by simp
  show ?case
  proof (cases "bw_id b \<in> existing")
    case True
    let ?d = "raise_farthest (bw_end b) d"
    have p: "progress d w ?d w" by (rule progress_same_db) (use Cons.prems in auto)
    have all: "tier1_all ?d w = tier1_all d w" by (rule tier1_all_setup) simp
    obtain r where "r \<in> set (tr_tier2 w)" "tx_block r = bw_id b" using True Cons.prems(4) by auto
    then have cov: "covered ?d b w"
      using Cons.prems(2) b setup_fields(1) [of d w ?d w]
      by (force simp: covered_def block_holds_def tier2_covers_def names_agree_def)
    have "\<exists>d' w' n. fill_candidates bs existing day ?d w = Some (d', w', n) \<and> progress ?d w d' w'
        \<and> (\<forall>b \<in> set bs. covered d' b w' \<and> bw_end b \<le> pd_farthest d')"
      by (rule Cons.IH) (use p Cons.prems all in \<open>auto simp: progress_def\<close>)
    then obtain d' w' n where r: "fill_candidates bs existing day ?d w = Some (d', w', n)" "progress ?d w d' w'"
        "\<forall>b \<in> set bs. covered d' b w' \<and> bw_end b \<le> pd_farthest d'" by blast
    have "bw_end b \<le> pd_farthest d'" using r(2) by (simp add: progress_def)
    then show ?thesis using True r progress_trans [OF p r(2)] progress_covered [OF r(2) cov] by auto
  next
    case False
    obtain d1 w1 where a: "attempt_fill b day d w = Some (d1, w1, 1)" and p: "progress d w d1 w1"
      and cov: "covered d1 b w1" and far: "pd_farthest d1 = max (pd_farthest d) (bw_end b)"
      using attempt_fill_ok [OF Cons.prems(1,2) b] by blast
    have all: "tier1_all d1 w1 = tier1_all d w" by (rule tier1_all_setup) (use p in \<open>simp add: progress_def\<close>)
    have "\<exists>d' w' n. fill_candidates bs existing day d1 w1 = Some (d', w', n) \<and> progress d1 w1 d' w'
        \<and> (\<forall>b \<in> set bs. covered d' b w' \<and> bw_end b \<le> pd_farthest d')"
      by (rule Cons.IH) (use p Cons.prems all in \<open>auto simp: progress_def\<close>)
    then obtain d' w' n where r: "fill_candidates bs existing day d1 w1 = Some (d', w', n)" "progress d1 w1 d' w'"
        "\<forall>b \<in> set bs. covered d' b w' \<and> bw_end b \<le> pd_farthest d'" by blast
    have "bw_end b \<le> pd_farthest d'" using r(2) far by (simp add: progress_def)
    then show ?thesis using False a r progress_trans [OF p r(2)] progress_covered [OF r(2) cov] by auto
  qed
qed

lemma load_tier1_blocks_ok:
  assumes "tier1_sound d w" "names_agree d w" "load_tier1_blocks d day w = (d', w', r)"
  shows "progress d w d' w' \<and> pd_farthest d' = pd_farthest d \<and> tr_tier2 w' = tr_tier2 w
    \<and> stored_or [] r = tier1_blocks d day w"
proof -
  let ?w = "w\<lparr>tr_calls := Suc (tr_calls w)\<rparr>"
  have fault: "tr_fault w = (\<lambda>_. False)" using assms(1) by (simp add: tier1_sound_def)
  have row: "tier1_row d day ?w = tier1_row d day w" by (simp add: tier1_row_def)
  have "(d' = d \<or> d' = d\<lparr>pd_stale := day # pd_stale d\<rparr>) \<and> w' = ?w \<and> stored_or [] r = tier1_blocks d day w"
    using assms(3) by (auto simp: load_tier1_blocks_def db_try_ok [OF fault] row tier1_blocks_def
        split: option.splits list.splits if_splits)
  moreover have "same_setup d w d ?w" "same_setup d w (d\<lparr>pd_stale := day # pd_stale d\<rparr>) ?w"
    by (simp_all add: same_setup_def)
  ultimately show ?thesis using progress_same_db [OF assms(1,2)] by auto
qed

lemma scan_days_ok:
  assumes "tier1_sound d w" "names_agree d w" "cursor < target_end"
  shows "\<exists>d' w' n. scan_days days cursor target_end d w = Some (d', w', n) \<and> progress d w d' w'
    \<and> (\<forall>day \<in> set days. \<forall>b \<in> set (tier1_blocks d day w). cursor < bw_end b \<and> bw_start b < target_end \<longrightarrow>
        covered d' b w' \<and> bw_end b \<le> pd_farthest d')"
  using assms(1,2)
proof (induction days arbitrary: d w)
  case Nil
  then show ?case by (simp add: progress_same_db)
next
  case (Cons day days)
  obtain d1 w1 r where load: "load_tier1_blocks d day w = (d1, w1, r)" by (cases "load_tier1_blocks d day w") auto
  note l = load_tier1_blocks_ok [OF Cons.prems load]
  then have p1: "progress d w d1 w1" and blocks: "stored_or [] r = tier1_blocks d day w" by simp_all
  then have ok1: "tier1_sound d1 w1" "names_agree d1 w1" and s1: "same_setup d w d1 w1" by (simp_all add: progress_def)
  have step: "\<exists>d2 w2 n. scan_days (day # days) cursor target_end d w
        = map_option (\<lambda>(d4, w4, m). (d4, w4, n + m)) (scan_days days cursor target_end d2 w2)
      \<and> progress d1 w1 d2 w2
      \<and> (\<forall>b \<in> set (candidates cursor target_end (stored_or [] r)). covered d2 b w2 \<and> bw_end b \<le> pd_farthest d2)"
  proof (cases r)
    case None
    have "scan_days (day # days) cursor target_end d w
        = map_option (\<lambda>(d4, w4, m). (d4, w4, 0 + m)) (scan_days days cursor target_end d1 w1)"
      using assms(3) load None by (simp add: option.map_ident_strong case_prod_unfold)
    moreover have "progress d1 w1 d1 w1" using ok1 by (simp add: progress_same_db)
    ultimately show ?thesis using None by (metis candidates.simps(1) stored_or_simps(1) empty_iff list.set(1))
  next
    case (Some bs)
    let ?cs = "candidates cursor target_end bs"
    obtain w2 existing where batch: "batch_block_exists (map bw_id ?cs) w1 = (w2, existing)" by fastforce
    have fault: "tr_fault w1 = (\<lambda>_. False)" using ok1 by (simp add: tier1_sound_def)
    have w2: "same_setup d1 w1 d1 w2" "tr_traffic w2 = tr_traffic w1" "tr_tier2 w2 = tr_tier2 w1"
      "existing \<subseteq> tx_block ` set (tr_tier2 w2)"
      using batch by (auto simp: batch_block_exists_def db_try_ok [OF fault] same_setup_def split: if_splits)
    have p2: "progress d1 w1 d1 w2" by (rule progress_same_db [OF ok1]) (use w2 in simp_all)
    have "sorted (map bw_start bs)" using Cons.prems(1) blocks Some by (simp add: tier1_sound_def)
    then have "set ?cs \<subseteq> set (tier1_blocks d day w)" using blocks Some by (simp add: candidates_set)
    then have "set ?cs \<subseteq> tier1_all d w" by (auto simp: tier1_all_def)
    then have cs: "set ?cs \<subseteq> tier1_all d1 w2"
      using tier1_all_setup [OF s1] tier1_all_setup [OF w2(1)] by simp
    have "tier1_sound d1 w2" "names_agree d1 w2" using p2 by (simp_all add: progress_def)
    from fill_candidates_ok [OF this cs w2(4), of day] obtain d3 w3 n where
      f: "fill_candidates ?cs existing day d1 w2 = Some (d3, w3, n)" "progress d1 w2 d3 w3"
        "\<forall>b \<in> set ?cs. covered d3 b w3 \<and> bw_end b \<le> pd_farthest d3" by blast
    have "scan_days (day # days) cursor target_end d w
        = map_option (\<lambda>(d4, w4, m). (d4, w4, n + m)) (scan_days days cursor target_end d3 w3)"
      using assms(3) load Some batch f(1) by simp
    then show ?thesis using progress_trans [OF p2 f(2)] f(3) Some by auto
  qed
  then obtain d2 w2 n where s: "scan_days (day # days) cursor target_end d w
        = map_option (\<lambda>(d4, w4, m). (d4, w4, n + m)) (scan_days days cursor target_end d2 w2)"
    and p2: "progress d1 w1 d2 w2"
    and cov: "\<forall>b \<in> set (candidates cursor target_end (tier1_blocks d day w)). covered d2 b w2 \<and> bw_end b \<le> pd_farthest d2"
    unfolding blocks by blast
  have p: "progress d w d2 w2" by (rule progress_trans [OF p1 p2])
  then have ok2: "tier1_sound d2 w2" "names_agree d2 w2" and s2: "same_setup d w d2 w2" by (simp_all add: progress_def)
  from Cons.IH [OF ok2] obtain d3 w3 m where rest: "scan_days days cursor target_end d2 w2 = Some (d3, w3, m)"
    and p3: "progress d2 w2 d3 w3"
    and cov3: "\<forall>day \<in> set days. \<forall>b \<in> set (tier1_blocks d2 day w2). cursor < bw_end b \<and> bw_start b < target_end \<longrightarrow>
        covered d3 b w3 \<and> bw_end b \<le> pd_farthest d3" by blast
  have "sorted (map bw_start (tier1_blocks d day w))" using Cons.prems(1) by (simp add: tier1_sound_def)
  then have cov: "covered d2 b w2 \<and> bw_end b \<le> pd_farthest d2"
    if "b \<in> set (tier1_blocks d day w)" "cursor < bw_end b" "bw_start b < target_end" for b
    using cov that by (simp add: candidates_set)
  have far: "pd_farthest d2 \<le> pd_farthest d3" using p3 by (simp add: progress_def)
  have "covered d3 b w3 \<and> bw_end b \<le> pd_farthest d3"
    if "x \<in> set (day # days)" "b \<in> set (tier1_blocks d x w)" "cursor < bw_end b" "bw_start b < target_end" for x b
  proof (cases "x \<in> set days")
    case True
    then show ?thesis using cov3 that tier1_blocks_setup [OF s2] by simp
  next
    case False
    then have "covered d2 b w2 \<and> bw_end b \<le> pd_farthest d2" using cov that by simp
    then show ?thesis using progress_covered [OF p3] far by fastforce
  qed
  then show ?case using s rest progress_trans [OF p p3] by auto
qed

section \<open>The block on air\<close>

definition known_frontier :: "daemon \<Rightarrow> tier_world \<Rightarrow> ms" where
  "known_frontier d w = max (pd_farthest d) (max_end (filter (\<lambda>r. tx_channel r = pd_channel d) (tr_tier2 w)))"

definition no_holes :: "daemon \<Rightarrow> ms \<Rightarrow> tier_world \<Rightarrow> bool" where
  "no_holes d now_ms w \<longleftrightarrow>
     (\<forall>t. now_ms \<le> t \<and> t < known_frontier d w \<longrightarrow> tier2_covers (pd_channel d) t w)"

lemma max_end_attained: "rows \<noteq> [] \<Longrightarrow> (\<exists>r \<in> set rows. max_end rows = tx_end r) \<and> (\<forall>r \<in> set rows. tx_end r \<le> max_end rows)"
proof -
  have "foldl max e es \<in> set (e # es) \<and> (\<forall>x \<in> set (e # es). x \<le> foldl max e es)" for e :: int and es
  proof (induction es arbitrary: e)
    case (Cons x es)
    show ?case using Cons.IH [of "max e x"] by (auto simp: max_def split: if_splits)
  qed simp
  then show "rows \<noteq> [] \<Longrightarrow> (\<exists>r \<in> set rows. max_end rows = tx_end r) \<and> (\<forall>r \<in> set rows. tx_end r \<le> max_end rows)"
    by (cases rows) (force simp: max_end_def)+
qed

lemma row_end_known: "r \<in> set (tr_tier2 w) \<Longrightarrow> tx_channel r = pd_channel d \<Longrightarrow> tx_end r \<le> known_frontier d w"
proof -
  assume "r \<in> set (tr_tier2 w)" "tx_channel r = pd_channel d"
  then have r: "r \<in> set (filter (\<lambda>r. tx_channel r = pd_channel d) (tr_tier2 w))" by simp
  have "tx_end r \<le> max_end (filter (\<lambda>r. tx_channel r = pd_channel d) (tr_tier2 w))"
    using max_end_attained [of "filter (\<lambda>r. tx_channel r = pd_channel d) (tr_tier2 w)"] r by (metis empty_iff empty_set)
  then show ?thesis by (simp add: known_frontier_def)
qed

lemma search_days_ok:
  assumes "tier1_sound d w" "names_agree d w"
  shows "search_days days now_ms d w = (d', w', r) \<Longrightarrow>
    progress d w d' w' \<and> pd_farthest d' = pd_farthest d \<and> tr_tier2 w' = tr_tier2 w
    \<and> (\<forall>b. r = Some b \<longrightarrow> b \<in> tier1_all d w \<and> block_holds now_ms b)"
  using assms
proof (induction days arbitrary: d w)
  case Nil
  then show ?case by (simp add: progress_same_db)
next
  case (Cons day days)
  obtain d1 w1 q where load: "load_tier1_blocks d day w = (d1, w1, q)" by (cases "load_tier1_blocks d day w") auto
  note l = load_tier1_blocks_ok [OF Cons.prems(2,3) load]
  then have p1: "progress d w d1 w1" by simp
  then have ok1: "tier1_sound d1 w1" "names_agree d1 w1" and s1: "same_setup d w d1 w1" by (simp_all add: progress_def)
  show ?case
  proof (cases "\<exists>bs b. q = Some bs \<and> find (block_holds now_ms) bs = Some b")
    case True
    then obtain bs b where q: "q = Some bs" "find (block_holds now_ms) bs = Some b" by blast
    then have "b \<in> set bs" "block_holds now_ms b" by (auto simp: find_Some_iff)
    moreover have "bs = tier1_blocks d day w" using l q(1) by simp
    ultimately show ?thesis using Cons.prems(1) load q l by (auto simp: tier1_all_def)
  next
    case False
    then have "search_days days now_ms d1 w1 = (d', w', r)"
      using Cons.prems(1) load by (auto split: option.splits)
    from Cons.IH [OF this ok1] show ?thesis using l progress_trans [OF p1] tier1_all_setup [OF s1] by auto
  qed
qed

lemma ensure_ok:
  assumes sound: "tier1_sound d w" and names: "names_agree d w" and holes: "no_holes d now_ms w"
  shows "\<exists>d' w' n. ensure_tier2_covers_now now_ms d w = Some (d', w', n) \<and> progress d w d' w' \<and> no_holes d' now_ms w'"
proof -
  have fault: "tr_fault w = (\<lambda>_. False)" using sound by (simp add: tier1_sound_def)
  define w0 where "w0 = w\<lparr>tr_calls := Suc (tr_calls w)\<rparr>"
  have p0: "progress d w d w0"
    by (rule progress_same_db [OF sound names]) (simp_all add: same_setup_def w0_def)
  have holes0: "no_holes d now_ms w0"
    using holes by (simp add: no_holes_def known_frontier_def tier2_covers_def w0_def)
  have row: "tier2_row_covers_now d now_ms w = (w0, tier2_covers (pd_channel d) now_ms w0)"
    by (simp add: tier2_row_covers_now_def db_try_ok [OF fault] w0_def)
  show ?thesis
  proof (cases "tier2_covers (pd_channel d) now_ms w0")
    case True
    then show ?thesis using row p0 holes0 by (simp add: ensure_tier2_covers_now_def)
  next
    case False
    obtain d1 w1 r where get: "get_tier1_block_containing now_ms d w0 = (d1, w1, r)"
      by (cases "get_tier1_block_containing now_ms d w0") auto
    have ok0: "tier1_sound d w0" "names_agree d w0" using p0 by (simp_all add: progress_def)
    have s: "progress d w0 d1 w1 \<and> pd_farthest d1 = pd_farthest d \<and> tr_tier2 w1 = tr_tier2 w0
        \<and> (\<forall>b. r = Some b \<longrightarrow> b \<in> tier1_all d w0 \<and> block_holds now_ms b)"
      by (rule search_days_ok [OF ok0 get [unfolded get_tier1_block_containing_def Let_def]])
    then have p1: "progress d w d1 w1" using progress_trans [OF p0] by blast
    have s1: "same_setup d w0 d1 w1" using s by (simp add: progress_def)
    have holes1: "no_holes d1 now_ms w1"
      using holes0 s setup_fields(1) [OF s1] by (simp add: no_holes_def known_frontier_def tier2_covers_def)
    show ?thesis
    proof (cases r)
      case None
      then show ?thesis using row False get p1 holes1 by (simp add: ensure_tier2_covers_now_def)
    next
      case (Some b)
      then have b: "b \<in> tier1_all d1 w1" "block_holds now_ms b" using s tier1_all_setup [OF s1] by auto
      let ?day = "daemon_date_for d1 (from_epoch_ms (bw_start b))"
      have ok1: "tier1_sound d1 w1" "names_agree d1 w1" using p1 by (simp_all add: progress_def)
      obtain d2 w2 where f: "attempt_fill b ?day d1 w1 = Some (d2, w2, 1)" and p2: "progress d1 w1 d2 w2"
        and cov: "covered d2 b w2" and far: "pd_farthest d2 = max (pd_farthest d1) (bw_end b)"
        and y: "\<exists>y. tr_tier2 w2 = tx_merge y (tr_tier2 w1) \<and> tx_end y = bw_end b"
        using attempt_fill_ok [OF ok1 b(1)] by blast
      have ch: "pd_channel d2 = pd_channel d1" using p2 by (simp add: progress_def same_setup_def)
      have only: "tx_end x \<le> max (known_frontier d1 w1) (bw_end b)"
        if x: "x \<in> set (tr_tier2 w2)" "tx_channel x = pd_channel d1" for x
      proof -
        from y obtain y where w2: "tr_tier2 w2 = tx_merge y (tr_tier2 w1)" and ye: "tx_end y = bw_end b" by blast
        from x(1) have "x = y \<or> x \<in> set (tr_tier2 w1)" unfolding w2 using tx_merge_from by blast
        then show ?thesis using ye row_end_known [of x w1 d1] x(2) by auto
      qed
      have "no_holes d2 now_ms w2"
        unfolding no_holes_def
      proof (intro allI impI)
        fix t assume t: "now_ms \<le> t \<and> t < known_frontier d2 w2"
        have mx: "max_end (filter (\<lambda>r. tx_channel r = pd_channel d2) (tr_tier2 w2)) \<le> max (known_frontier d1 w1) (bw_end b)"
        proof (cases "filter (\<lambda>r. tx_channel r = pd_channel d2) (tr_tier2 w2) = []")
          case True
          have "tier2_covers (pd_channel d2) now_ms w2" using cov b(2) by (simp add: covered_def)
          then have False using True by (auto simp: tier2_covers_def filter_empty_conv)
          then show ?thesis ..
        next
          case False
          then show ?thesis using max_end_attained [OF False] only ch by auto
        qed
        have "pd_farthest d1 \<le> known_frontier d1 w1" by (simp add: known_frontier_def)
        then have "t < known_frontier d1 w1 \<or> t < bw_end b" using t mx far by (auto simp: known_frontier_def [of d2])
        then show "tier2_covers (pd_channel d2) t w2"
        proof
          assume "t < known_frontier d1 w1"
          then have "tier2_covers (pd_channel d1) t w1" using holes1 t by (simp add: no_holes_def)
          then show ?thesis using p2 ch by (simp add: progress_def)
        next
          assume "t < bw_end b"
          then have "block_holds t b" using b(2) t by (simp add: block_holds_def)
          then show ?thesis using cov by (simp add: covered_def)
        qed
      qed
      moreover have "\<not> bw_end b \<le> now_ms" using b(2) by (simp add: block_holds_def)
      ultimately show ?thesis using row False get Some f progress_trans [OF p1 p2]
        by (simp add: ensure_tier2_covers_now_def)
    qed
  qed
qed

section \<open>One evaluation\<close>

lemma purge_ok:
  assumes "purge_expired_tier2 clock now_ms d w = (d', w', n)" "0 < now_ms"
  shows "pd_farthest d' = pd_farthest d \<and> pd_errors d' = pd_errors d \<and> pd_channel d' = pd_channel d
    \<and> (\<forall>t. now_ms - 4 * 3600000 \<le> t \<and> tier2_covers c t w \<longrightarrow> tier2_covers c t w')"
proof -
  let ?keep = "\<lambda>r. \<not> (tx_channel r = pd_channel d \<and> tx_end r \<le> now_ms - 4 * 3600000)"
  have "(d' = d \<or> d' = d\<lparr>pd_last_purge := now_ms\<rparr>)
      \<and> (tr_tier2 w' = tr_tier2 w \<or> tr_tier2 w' = filter ?keep (tr_tier2 w))"
    using assms by (auto simp: purge_expired_tier2_def Let_def db_try_def split: if_splits bool.splits)
  then show ?thesis by (auto simp: tier2_covers_def)
qed

lemma note_frontier_ok:
  assumes "tier1_sound d w" "names_agree d w" "note_frontier d w = (d', w')"
  shows "progress d w d' w' \<and> pd_farthest d' = known_frontier d w \<and> tr_tier2 w' = tr_tier2 w"
proof -
  have fault: "tr_fault w = (\<lambda>_. False)" using assms(1) by (simp add: tier1_sound_def)
  have r: "d' = raise_farthest (max_end (filter (\<lambda>r. tx_channel r = pd_channel d) (tr_tier2 w))) d"
    "w' = w\<lparr>tr_calls := Suc (tr_calls w)\<rparr>"
    using assms(3) by (simp_all add: note_frontier_def get_frontier_utc_ms_def db_try_ok [OF fault])
  have "same_setup d w d' w'" by (simp add: r raise_farthest_def same_setup_def)
  then have "progress d w d' w'" by (intro progress_same_db [OF assms(1,2)]) (simp_all add: r)
  then show ?thesis by (simp add: r known_frontier_def)
qed

section \<open>Worked example\<close>

text \<open>Two half hours of one day in tier 1, the second without a row in tier 2 yet.\<close>

definition demo_seg :: "string \<Rightarrow> ms \<Rightarrow> scheduled_segment" where
  "demo_seg uri dur = (plain_segment ''content'' uri 0 dur)\<lparr>sg_gain := 3\<rparr>"

definition demo_sb :: "nat \<Rightarrow> scheduled_block" where
  "demo_sb i = \<lparr>sb_id = ''blk-'' @ nat_str i, sb_start = int i * 1800000, sb_end = int i * 1800000 + 1800000,
     sb_segments = [demo_seg ''/show.mp4'' 1800000]\<rparr>"

definition demo_schedule :: program_schedule where
  "demo_schedule = \<lparr>cp_channel = YStr ''retro'', cp_day = ''1970-01-01'', cp_timezone = YStr ''UTC'', cp_dsl_path = [], cp_git_commit = [],
     cp_blocks = [], cp_notes = YNone, cp_hash = [], cs_compiler = Some ''2.2.0'',
     cs_segmented = Some (map serialize_scheduled_block [demo_sb 20, demo_sb 21, demo_sb 22])\<rparr>"

definition demo_tiers :: tier_world where
  "demo_tiers = \<lparr>tr_tier1 = [\<lparr>cl_channel = ''retro'', cl_day = 0, cl_locked = True, cl_hash = [], cl_json = demo_schedule,
       cl_range_start = None, cl_range_end = None\<rparr>],
     tr_tier2 = [], tr_traffic = demo_traffic, tr_fault = (\<lambda>_. False), tr_calls = 0\<rparr>"

definition demo_daemon :: daemon where
  "demo_daemon = new_daemon ''retro'' 1 6 ''filler.mp4'' 3650000 (\<lambda>t. t)"

section \<open>Properties\<close>

text \<open>
  C3. One evaluation brings tier 2 to its target.  Suppose tier 1 is sound (blocks of a day in order, equal
  names mean equal times, placeholders not longer than the static filler), rows of tier 2 with the name of
  one of its blocks are rows of that block, the database answers, tier 2 has no hole before the farthest end
  the daemon knows, and tier 1 holds a block for every instant up to the target, on the broadcast day of
  the instant or a neighbouring one.  Then the evaluation returns, afterwards tier 2 covers every instant
  from now to now plus the minimum depth, the farthest end is at least there, and no error was counted.
\<close>

theorem evaluation_reaches_target:
  assumes sound: "tier1_sound d w" and names: "names_agree d w"
    and holes: "no_holes d (to_epoch_ms now) w" and now: "0 < to_epoch_ms now"
    and dates: "\<And>s t. to_epoch_ms now \<le> s \<Longrightarrow> s \<le> t \<Longrightarrow>
      daemon_date_for d (from_epoch_ms s) \<le> daemon_date_for d (from_epoch_ms t)"
    and stocked: "\<And>t. to_epoch_ms now \<le> t \<Longrightarrow> t < to_epoch_ms now + target_ms d \<Longrightarrow>
      \<exists>day \<in> {daemon_date_for d (from_epoch_ms t) - 1 .. daemon_date_for d (from_epoch_ms t) + 1}.
        \<exists>b \<in> set (tier1_blocks d day w). block_holds t b"
  shows "\<exists>d' w' n. playlog_evaluate_once now d w = Some (d', w', n)
    \<and> (\<forall>t. to_epoch_ms now \<le> t \<and> t < to_epoch_ms now + target_ms d \<longrightarrow> tier2_covers (pd_channel d) t w')
    \<and> to_epoch_ms now + target_ms d \<le> max (pd_farthest d') (to_epoch_ms now) \<and> pd_errors d' = pd_errors d"
proof -
  let ?now = "to_epoch_ms now" and ?d0 = "d\<lparr>pd_last_eval := to_epoch_ms now\<rparr>"
  have s0: "same_setup d w ?d0 w" by (simp add: same_setup_def)
  have p0: "progress d w ?d0 w" by (rule progress_same_db [OF sound names s0]) simp_all
  then have ok0: "tier1_sound ?d0 w" "names_agree ?d0 w" by (simp_all add: progress_def)
  have "no_holes ?d0 ?now w" using holes by (simp add: no_holes_def known_frontier_def)
  from ensure_ok [OF ok0 this] obtain d1 w1 n1 where e: "ensure_tier2_covers_now ?now ?d0 w = Some (d1, w1, n1)"
    and p1: "progress ?d0 w d1 w1" and h1: "no_holes d1 ?now w1" by blast
  have ok1: "tier1_sound d1 w1" "names_agree d1 w1" using p1 by (simp_all add: progress_def)
  obtain d2 w2 where f: "note_frontier d1 w1 = (d2, w2)" by fastforce
  note fr = note_frontier_ok [OF ok1 f]
  have p2: "progress d w d2 w2" using progress_trans [OF p0 progress_trans [OF p1]] fr by blast
  then have ok2: "tier1_sound d2 w2" "names_agree d2 w2" and s2: "same_setup d w d2 w2" by (simp_all add: progress_def)
  have ch: "pd_channel d2 = pd_channel d" "target_ms d2 = target_ms d" "daemon_date_for d2 = daemon_date_for d"
    using setup_fields [OF s2] by simp_all
  have ch1: "pd_channel d1 = pd_channel d2" using fr by (simp add: progress_def same_setup_def)
  have before: "tier2_covers (pd_channel d) t w2" if "?now \<le> t" "t < pd_farthest d2" for t
    using h1 that fr ch ch1 by (simp add: no_holes_def tier2_covers_def)
  let ?T = "?now + target_ms d" and ?c = "max (pd_farthest d2) ?now"
  show ?thesis
  proof (cases "target_ms d \<le> depth_ms d2 ?now")
    case True
    then have "?T \<le> pd_farthest d2 \<or> target_ms d \<le> 0" by (auto simp: depth_ms_def)
    moreover have "pd_errors d2 = pd_errors d" using p2 by (simp add: progress_def)
    ultimately show ?thesis using True e f ch before
      by (auto simp: playlog_evaluate_once_def Let_def)
  next
    case False
    then have c: "?c < ?T" by (auto simp: depth_ms_def)
    from scan_days_ok [OF ok2 c, of "scan_range d2 ?c ?T"] obtain d3 w3 n3 where
      s: "scan_days (scan_range d2 ?c ?T) ?c ?T d2 w2 = Some (d3, w3, n3)" and p3: "progress d2 w2 d3 w3"
      and cov: "\<And>day b. day \<in> set (scan_range d2 ?c ?T) \<Longrightarrow> b \<in> set (tier1_blocks d2 day w2) \<Longrightarrow>
        ?c < bw_end b \<Longrightarrow> bw_start b < ?T \<Longrightarrow> covered d3 b w3 \<and> bw_end b \<le> pd_farthest d3" by blast
    have found: "\<exists>b. block_holds t b \<and> covered d3 b w3 \<and> bw_end b \<le> pd_farthest d3" if t: "?c \<le> t" "t < ?T" for t
    proof -
      have "?now \<le> t" using t by simp
      from stocked [OF this t(2)] obtain day b where
        day: "day \<in> {daemon_date_for d (from_epoch_ms t) - 1 .. daemon_date_for d (from_epoch_ms t) + 1}"
        and b: "b \<in> set (tier1_blocks d day w)" "block_holds t b" by blast
      have "daemon_date_for d (from_epoch_ms ?c) \<le> daemon_date_for d (from_epoch_ms t)"
        "daemon_date_for d (from_epoch_ms t) \<le> daemon_date_for d (from_epoch_ms ?T)"
        using dates [of ?c t] dates [of t ?T] t by simp_all
      then have "day \<in> set (scan_range d2 ?c ?T)" using day ch by (auto simp: scan_range_def)
      moreover have "b \<in> set (tier1_blocks d2 day w2)" using b(1) tier1_blocks_setup [OF s2] by simp
      ultimately show ?thesis using cov b(2) t by (fastforce simp: block_holds_def)
    qed
    have ch3: "pd_channel d3 = pd_channel d" using p3 ch by (simp add: progress_def same_setup_def)
    have all: "tier2_covers (pd_channel d) t w3" if "?now \<le> t" "t < ?T" for t
    proof (cases "t < pd_farthest d2")
      case True
      then show ?thesis using before that(1) p3 ch(1) by (simp add: progress_def)
    next
      case False
      then show ?thesis using found [of t] that ch3 by (auto simp: covered_def)
    qed
    have far: "?T \<le> pd_farthest d3" using found [of "?T - 1"] c by (auto simp: block_holds_def)
    obtain d4 w4 m where pu: "purge_expired_tier2 ?now ?now (count_zero_fills (n1 + n3) d3) w3 = (d4, w4, m)"
      by (cases "purge_expired_tier2 ?now ?now (count_zero_fills (n1 + n3) d3) w3") auto
    have pd: "pd_farthest d4 = pd_farthest d3" "pd_errors d4 = pd_errors d3"
      "\<And>t. ?now \<le> t \<Longrightarrow> tier2_covers (pd_channel d) t w3 \<Longrightarrow> tier2_covers (pd_channel d) t w4"
      using purge_ok [OF pu now, of "pd_channel d"] by (simp_all add: count_zero_fills_def)
    have "playlog_evaluate_once now d w = Some (d4, w4, n1 + n3)"
      using e f False s pu by (simp add: playlog_evaluate_once_def extend_to_target_def Let_def ch)
    moreover have "pd_errors d3 = pd_errors d" using p2 p3 by (simp add: progress_def)
    ultimately show ?thesis using all far pd by auto
  qed
qed

lemma demo_tier1:
  "tier1_blocks demo_daemon day demo_tiers
    = (if day = 0 then map serialize_scheduled_block [demo_sb 20, demo_sb 21, demo_sb 22] else [])"
  by (simp add: tier1_blocks_def tier1_row_def demo_daemon_def new_daemon_def demo_tiers_def demo_schedule_def)

lemma demo_tier1_sound: "tier1_sound demo_daemon demo_tiers"
proof -
  have all: "tier1_all demo_daemon demo_tiers = set (map serialize_scheduled_block [demo_sb 20, demo_sb 21, demo_sb 22])"
    by (auto simp: tier1_all_def demo_tier1)
  have "sorted (map bw_start (tier1_blocks demo_daemon day demo_tiers))" for day
    by (simp add: demo_tier1 serialize_scheduled_block_def demo_sb_def)
  moreover have "fillable 3650000 (serialize_scheduled_block (demo_sb i))" for i
  proof -
    have "deserialize_scheduled_block (serialize_scheduled_block (demo_sb i)) = Inr (demo_sb i)"
      by (simp add: deserialize_scheduled_block_def serialize_scheduled_block_def demo_sb_def deserialize_serialize_segment)
    then show ?thesis by (simp add: fillable_def demo_sb_def demo_seg_def is_placeholder_def)
  qed
  moreover have "times_by_name (set (map serialize_scheduled_block [demo_sb 20, demo_sb 21, demo_sb 22]))"
    by (auto simp: times_by_name_def serialize_scheduled_block_def demo_sb_def nat_str_inj)
  ultimately show ?thesis unfolding tier1_sound_def all
    by (auto simp: demo_daemon_def new_daemon_def demo_tiers_def demo_traffic_shuffles)
qed

lemma demo_dates:
  assumes "36000000 \<le> s" "s \<le> t"
  shows "daemon_date_for demo_daemon (from_epoch_ms s) \<le> daemon_date_for demo_daemon (from_epoch_ms t)"
proof -
  have "daemon_date_for demo_daemon x = (x - 21600000000) div us_per_day" for x
  proof -
    define q r where "q = x div us_per_day" and "r = x mod us_per_day"
    have x: "x = us_per_day * q + r" and r: "0 \<le> r" "r < us_per_day" by (simp_all add: q_def r_def us_per_day_def)
    have h: "hour_of (time_of x) < 6 \<longleftrightarrow> r < 21600000000"
    proof -
      have "hour_of (time_of x) = r div 3600000000" by (simp add: hour_of_def time_of_def r_def us_per_hour_def)
      then show ?thesis by linarith
    qed
    have "(x - 21600000000) div us_per_day = (if r < 21600000000 then q - 1 else q)"
    proof (cases "r < 21600000000")
      case True
      then show ?thesis using r
        by (simp, intro int_div_pos_eq [where r = "r + 64800000000"]) (simp_all add: x us_per_day_def algebra_simps)
    next
      case False
      then show ?thesis using r
        by (simp, intro int_div_pos_eq [where r = "r - 21600000000"]) (simp_all add: x us_per_day_def algebra_simps)
    qed
    moreover have "date_of (x - us_per_day) = q - 1" "date_of x = q"
      by (simp_all add: date_of_def q_def us_per_day_def)
    ultimately show ?thesis using h
      by (simp add: daemon_date_for_def demo_daemon_def new_daemon_def Let_def)
  qed
  then show ?thesis using from_epoch_ms_mono [of s t] assms by (simp add: zdiv_mono1 us_per_day_def)
qed

theorem evaluation_reaches_target_witness:
  "\<exists>d' w' n. playlog_evaluate_once 36000000000 demo_daemon demo_tiers = Some (d', w', n)
    \<and> (\<forall>t. 36000000 \<le> t \<and> t < 39600000 \<longrightarrow> tier2_covers ''retro'' t w')"
proof -
  have now: "to_epoch_ms 36000000000 = 36000000" using to_epoch_ms_whole [of 36000] by simp
  have d: "target_ms demo_daemon = 3600000" "pd_channel demo_daemon = ''retro''"
    by (simp_all add: demo_daemon_def new_daemon_def target_ms_def)
  have names: "names_agree demo_daemon demo_tiers" by (simp add: names_agree_def demo_tiers_def)
  have holes: "no_holes demo_daemon (to_epoch_ms 36000000000) demo_tiers"
    by (auto simp: no_holes_def known_frontier_def demo_tiers_def demo_daemon_def new_daemon_def max_end_def now)
  have today: "daemon_date_for demo_daemon (from_epoch_ms t) = 0" if "36000000 \<le> t" "t < 39600000" for t
  proof -
    have "daemon_date_for demo_daemon (from_epoch_ms 36000000) = 0"
      "daemon_date_for demo_daemon (from_epoch_ms 39600000) = 0" by code_simp+
    then show ?thesis using demo_dates [of 36000000 t] demo_dates [of t 39600000] that by simp
  qed
  have stocked: "\<exists>day \<in> {daemon_date_for demo_daemon (from_epoch_ms t) - 1
        .. daemon_date_for demo_daemon (from_epoch_ms t) + 1}.
      \<exists>b \<in> set (tier1_blocks demo_daemon day demo_tiers). block_holds t b"
    if "to_epoch_ms 36000000000 \<le> t" "t < to_epoch_ms 36000000000 + target_ms demo_daemon" for t
  proof -
    have t: "36000000 \<le> t" "t < 39600000" using that by (simp_all add: now d)
    have "\<exists>b \<in> set (tier1_blocks demo_daemon 0 demo_tiers). block_holds t b"
      using t by (auto simp: demo_tier1 block_holds_def serialize_scheduled_block_def demo_sb_def)
    then show ?thesis using today [OF t] by (intro bexI [of _ 0]) auto
  qed
  have "0 < to_epoch_ms 36000000000" by (simp add: now)
  from evaluation_reaches_target [OF demo_tier1_sound names holes this _ stocked]
  show ?thesis using demo_dates by (auto simp: now d)
qed

text \<open>
  C34. Block names are shared between channels: when two channels schedule the same asset at the same
  instant their blocks have the same name, the primary key of tier 2, so that the row the second
  channel writes takes the place of the first channel's, which then has no row for its block.
\<close>

theorem same_asset_evicts_other_channel:
  assumes "b1 = expand_program_block asset uri1 start slot1 ep1 markers1 breaks1 fade1 type1 gain1"
    and "b2 = expand_program_block asset uri2 start slot2 ep2 markers2 breaks2 fade2 type2 gain2"
    and "write_to_txlog d1 b1 day1 w = (w1, Inr ())" "write_to_txlog d2 b2 day2 w1 = (w2, Inr ())"
    and "pd_channel d1 \<noteq> pd_channel d2"
  shows "\<not> (\<exists>r \<in> set (tr_tier2 w2). tx_channel r = pd_channel d1 \<and> tx_block r = sb_id b1)"
proof -
  have "sb_id (expand_program_block asset u start slot ep ms n f ty g) = make_block_id asset start" for u slot ep ms n f ty g
    by (simp add: expand_program_block_def expand_movie_def expand_network_def expanded_block_def Let_def split: prod.splits)
  then have ids: "sb_id b2 = sb_id b1" unfolding assms(1,2) by simp
  let ?r = "tx_row_of daemon_segment (pd_channel d2) day2 b2"
  have "tr_tier2 w2 = tx_merge ?r (tr_tier2 w1)"
    using assms(4) by (auto simp: write_to_txlog_def db_try_def split: bool.splits)
  then have "r = ?r" if "r \<in> set (tr_tier2 w2)" "tx_block r = sb_id b1" for r
    using that ids tx_merge_replaces by (simp add: tx_row_of_def)
  then show ?thesis using assms(5) by (fastforce simp: tx_row_of_def)
qed

theorem same_asset_evicts_other_channel_witness:
  "\<exists>w1 w2. write_to_txlog demo_daemon (expand_program_block ''m'' ''m.mp4'' 0 1800000 1320000 None 3 500 ''movie'' 0) 0 demo_tiers
      = (w1, Inr ())
    \<and> write_to_txlog (demo_daemon\<lparr>pd_channel := ''two''\<rparr>)
        (expand_program_block ''m'' ''m.mp4'' 0 1800000 1320000 None 3 500 ''movie'' 0) 0 w1 = (w2, Inr ())
    \<and> \<not> (\<exists>r \<in> set (tr_tier2 w2). tx_channel r = ''retro''
        \<and> tx_block r = sb_id (expand_program_block ''m'' ''m.mp4'' 0 1800000 1320000 None 3 500 ''movie'' 0))"
proof -
  let ?b = "expand_program_block ''m'' ''m.mp4'' 0 1800000 1320000 None 3 500 ''movie'' 0"
  have ok: "\<exists>w'. write_to_txlog d b day w = (w', Inr ()) \<and> tr_fault w' = tr_fault w" if "tr_fault w = (\<lambda>_. False)" for d b day w
    using that by (simp add: write_to_txlog_def db_try_def)
  obtain w1 where 1: "write_to_txlog demo_daemon ?b 0 demo_tiers = (w1, Inr ())" "tr_fault w1 = (\<lambda>_. False)"
    using ok [of demo_tiers demo_daemon ?b 0] by (auto simp: demo_tiers_def)
  obtain w2 where 2: "write_to_txlog (demo_daemon\<lparr>pd_channel := ''two''\<rparr>) ?b 0 w1 = (w2, Inr ())"
    using ok [OF 1(2), of "demo_daemon\<lparr>pd_channel := ''two''\<rparr>" ?b 0] by auto
  have "pd_channel demo_daemon \<noteq> pd_channel (demo_daemon\<lparr>pd_channel := ''two''\<rparr>)"
    by (simp add: demo_daemon_def new_daemon_def)
  from same_asset_evicts_other_channel [OF refl refl 1(1) 2 this] show ?thesis
    using 1(1) 2 by (auto simp: demo_daemon_def new_daemon_def)
qed

end
