(* ===== verification/Compiled_Day.thy ===== *)
theory Compiled_Day
  imports Schedule_Compiler
begin

text \<open>
  What holds of the days \<open>Schedule_Compiler\<close> compiles.  The blocks of one definition follow each other
  without a gap and last whole grid slots; the last stage moves blocks forward until none overlaps,
  provided the clock of the channel never touches UTC or always does (the night in spring shows what
  happens otherwise); an episode block fills its range; and a compilation returns when its random
  draws do.
\<close>

section \<open>Runs\<close>

lemma bind_run_Inr_iff: "bind_run r f = Some (Inr y) \<longleftrightarrow> (\<exists>x. r = Some (Inr x) \<and> f x = Some (Inr y))"
  by (cases "(r, f)" rule: bind_run.cases) auto

lemma pure_run_iff [simp]: "pure_run r = Some (Inr x) \<longleftrightarrow> r = Inr x" "pure_run r \<noteq> None"
  by (simp_all add: pure_run_def)

lemma draw_iff [simp]: "draw d = Some (Inr x) \<longleftrightarrow> d = Some x" "draw d \<noteq> None \<longleftrightarrow> d \<noteq> None"
  by (cases d; simp add: draw_def eq_commute)+

lemmas run_simps = bind_run_Inr_iff bind_res_Inr_iff

section \<open>Slots\<close>

lemma grid_slots_pos: "0 < grid_slots grid e"
  by (simp add: grid_slots_def)

lemma grid_slot_duration_pos: "0 < grid \<Longrightarrow> grid * 60 \<le> grid_slot_duration grid e"
  using grid_slots_pos [of grid e] mult_right_mono [of 1 "grid_slots grid e" "grid * 60"]
  by (simp add: grid_slot_duration_def)

lemma grid_slot_duration_fits:
  assumes "0 < grid"
  shows "e \<le> grid_slot_duration grid e"
proof -
  have "- e div (grid * 60) * (grid * 60) \<le> - e"
    using assms by (metis (no_types) minus_mod_eq_div_mult pos_mod_sign diff_ge_0_iff_ge diff_add_cancel le_add_same_cancel1 mult_pos_pos zero_less_numeral add.commute diff_le_eq)
  then have "e \<le> - (- e div (grid * 60)) * (grid * 60)" by simp
  also have "\<dots> \<le> grid_slot_duration grid e"
    unfolding grid_slot_duration_def grid_slots_def using assms by (intro mult_right_mono) auto
  finally show ?thesis .
qed

definition slotted :: "int \<Rightarrow> program_block_out \<Rightarrow> bool" where
  "slotted grid b \<longleftrightarrow> gb_slot b = grid_slot_duration grid (gb_episode b)"

definition all_slotted :: "int \<Rightarrow> program_block_out list \<Rightarrow> bool" where
  "all_slotted grid bs \<longleftrightarrow> (\<forall>b \<in> set bs. slotted grid b)"

lemma all_slotted_simps [simp]:
  "all_slotted grid []" "all_slotted grid (b # bs) \<longleftrightarrow> slotted grid b \<and> all_slotted grid bs"
  "all_slotted grid (bs @ cs) \<longleftrightarrow> all_slotted grid bs \<and> all_slotted grid cs"
  by (auto simp: all_slotted_def)

lemma slot_block_slotted: "slot_block env rv grid seed slot now cs = Some (Inr (b, cs')) \<Longrightarrow> slotted grid b \<and> gb_start b = now"
  by (auto simp: slot_block_def run_simps slotted_def split: prod.splits)

lemma movie_out_slotted: "movie_out rv grid c r s now i = Inr b \<Longrightarrow> slotted grid b \<and> gb_start b = now"
  by (auto simp: movie_out_def run_simps slotted_def)

lemma episode_out_slotted: "episode_out rv grid ec p a now = Inr b \<Longrightarrow> slotted grid b \<and> gb_start b = now"
  by (auto simp: episode_out_def run_simps slotted_def)

text \<open>The blocks of one definition follow each other without a gap.\<close>

definition bo_span :: "program_block_out \<Rightarrow> datetime \<times> datetime" where
  "bo_span b = (gb_start b, end_at b)"

definition back_to_back :: "int \<Rightarrow> datetime \<Rightarrow> program_block_out list \<Rightarrow> bool" where
  "back_to_back grid now bs \<longleftrightarrow>
     all_slotted grid bs \<and> chained (map bo_span bs) \<and> (bs \<noteq> [] \<longrightarrow> gb_start (hd bs) = now)"

lemma back_to_back_Nil [simp]: "back_to_back grid now []"
  by (simp add: back_to_back_def)

lemma back_to_back_Cons:
  "back_to_back grid now (b # bs) \<longleftrightarrow> slotted grid b \<and> gb_start b = now \<and> back_to_back grid (end_at b) bs"
  by (cases bs) (auto simp: back_to_back_def bo_span_def)

lemma sitcom_loop_chain:
  "sitcom_loop env rv grid seed slots now cs = Some (Inr (bs, cs')) \<Longrightarrow> back_to_back grid now bs"
proof (induction env rv grid seed slots now cs arbitrary: bs cs' rule: sitcom_loop.induct)
  case (2 env rv grid seed slot slots now cs)
  obtain b cs1 bs1 where b: "slot_block env rv grid seed slot now cs = Some (Inr (b, cs1))"
    and r: "sitcom_loop env rv grid seed (drop (nat (grid_slots grid (gb_episode b)) - 1) slots) (end_at b) cs1
      = Some (Inr (bs1, cs'))" and bs: "bs = b # bs1"
    using "2.prems" by (auto simp: run_simps)
  have "back_to_back grid (end_at b) bs1" by (rule "2.IH" [OF b refl r])
  then show ?case using slot_block_slotted [OF b] by (simp add: bs back_to_back_Cons)
qed simp

lemma marathon_loop_chain:
  "marathon_loop n env rv grid mc seed now used = Some (Inr (bs, used')) \<Longrightarrow> back_to_back grid now bs"
proof (induction n arbitrary: seed now used bs used')
  case (Suc n)
  show ?case
  proof (cases "mc_end mc \<le> now")
    case False
    then consider seed1 used1 where "marathon_loop n env rv grid mc seed1 now used1 = Some (Inr (bs, used'))"
      | "bs = []"
      | b seed1 used1 bs1 where "slotted grid b \<and> gb_start b = now" "bs = b # bs1"
        "marathon_loop n env rv grid mc seed1 (end_at b) used1 = Some (Inr (bs1, used'))"
      using Suc.prems by (auto simp: run_simps dest!: movie_out_slotted split: option.splits if_splits)
    then show ?thesis by cases (auto simp: back_to_back_Cons dest: Suc.IH)
  qed (use Suc.prems in simp)
qed simp

lemma episode_loop_chain:
  "episode_loop n env rv grid seed ec now k g cs = Some (Inr (bs, cs')) \<Longrightarrow> back_to_back grid now bs"
proof (induction n arbitrary: now k g cs bs cs')
  case (Suc n)
  show ?case
  proof (cases "now < ec_end ec")
    case True
    obtain b k1 g1 cs1 bs1 where "slotted grid b \<and> gb_start b = now" "bs = b # bs1"
        "episode_loop n env rv grid seed ec (end_at b) k1 g1 cs1 = Some (Inr (bs1, cs'))"
      using Suc.prems True by (auto simp: run_simps dest!: episode_out_slotted)
    then show ?thesis by (auto simp: back_to_back_Cons dest: Suc.IH)
  qed (use Suc.prems in simp)
qed simp

lemma back_to_back_slotted: "back_to_back grid now bs \<Longrightarrow> all_slotted grid bs"
  by (simp add: back_to_back_def)

lemma compile_sitcom_chain:
  "compile_sitcom_block env rv day tz grid seed d cs = Some (Inr (bs, cs')) \<Longrightarrow> \<exists>now. back_to_back grid now bs"
  by (auto simp: compile_sitcom_block_def run_simps dest!: sitcom_loop_chain)

lemma compile_movie_chain:
  "compile_movie_block env rv day tz grid seed d = Some (Inr bs) \<Longrightarrow> \<exists>now. back_to_back grid now bs"
  by (auto simp: compile_movie_block_def run_simps back_to_back_Cons dest!: movie_out_slotted)

lemma compile_marathon_chain:
  "compile_movie_marathon env rv day tz grid seed d used = Some (Inr (bs, used')) \<Longrightarrow> \<exists>now. back_to_back grid now bs"
  by (auto simp: compile_movie_marathon_def run_simps dest!: marathon_loop_chain)

lemma compile_episode_chain:
  "compile_episode_block env rv day tz grid seed d cs = Some (Inr (bs, cs')) \<Longrightarrow> \<exists>now. back_to_back grid now bs"
  by (auto simp: compile_episode_block_def run_simps dest!: episode_loop_chain)

lemma compile_block_def_chain:
  assumes "compile_block_def env rv day tz grid seed shared d st = Some (Inr (bs, st'))"
  shows "\<exists>now. back_to_back grid now bs"
proof -
  obtain cs used where st: "st = (cs, used)" by (cases st)
  show ?thesis using assms
    by (auto simp: compile_block_def_def st run_simps split: if_splits
        dest!: compile_episode_chain compile_marathon_chain compile_movie_chain compile_sitcom_chain)
qed

lemma compile_defs_slotted:
  assumes "\<And>d st bs st'. f d st = Some (Inr (bs, st')) \<Longrightarrow> all_slotted grid bs"
  shows "compile_defs f ds st = Some (Inr (bs, st')) \<Longrightarrow> all_slotted grid bs"
  by (induction ds arbitrary: st bs) (auto simp: run_simps split: if_splits dest!: assms)

lemma compile_defs_slots:
  "compile_defs (compile_block_def env rv day tz grid seed shared) ds st = Some (Inr (bs, st')) \<Longrightarrow> all_slotted grid bs"
  by (rule compile_defs_slotted) (auto dest!: compile_block_def_chain back_to_back_slotted)

lemma compile_legacy_slotted:
  "compile_legacy_days env rv day tz grid seed days st = Some (Inr (bs, st')) \<Longrightarrow> all_slotted grid bs"
proof (induction days arbitrary: st bs)
  case (Cons kv days)
  obtain key v where kv: "kv = (key, v)" by (cases kv)
  obtain bs1 st1 bs2 where one: "(case v of
          YDict _ \<Rightarrow>
            bind_run (compile_sitcom_block env rv day tz grid seed v (fst st)) (\<lambda>(bs, cs). Some (Inr (bs, cs, snd st)))
        | YList items \<Rightarrow> compile_defs (compile_block_def env rv day tz grid seed False) items st
        | _ \<Rightarrow> Some (Inr ([], st))) = Some (Inr (bs1, st1))"
      and rest: "compile_legacy_days env rv day tz grid seed days st1 = Some (Inr (bs2, st'))" and bs: "bs = bs1 @ bs2"
    using Cons.prems unfolding kv by (auto simp: run_simps)
  have "all_slotted grid bs1"
    using one by (cases v) (auto simp: run_simps dest!: compile_sitcom_chain back_to_back_slotted compile_defs_slots)
  then show ?case using Cons.IH [OF rest] by (simp add: bs)
qed simp

lemma day_blocks_slotted:
  "day_blocks env rv ex day tz grid seed cs = Some (Inr (bs, st)) \<Longrightarrow> all_slotted grid bs"
  by (auto simp: day_blocks_def run_simps split: if_splits dest!: compile_defs_slots compile_legacy_slotted)

section \<open>The last stage\<close>

text \<open>A zone that is never at UTC, or always: every time of the day ends up on one clock.\<close>

definition one_clock :: "(datetime \<Rightarrow> int) \<Rightarrow> bool" where
  "one_clock off \<longleftrightarrow> (\<forall>w. off w = 0) \<or> (\<forall>w. off w \<noteq> 0)"

lemma normalize_clock:
  "one_clock off \<Longrightarrow> \<exists>c. \<forall>b. fst (normalize_block off b) = c \<and> utc_offset off c w = 0"
  unfolding one_clock_def
proof (elim disjE)
  assume "\<forall>w. off w = 0"
  then show ?thesis by (intro exI [of _ Local]) (simp add: normalize_block_def utc_offset_def)
next
  assume "\<forall>w. off w \<noteq> 0"
  then show ?thesis by (intro exI [of _ Utc]) (simp add: normalize_block_def utc_offset_def)
qed

lemma normalize_frame [rv_frame]:
  "gb_slot (snd (normalize_block off b)) = gb_slot b" "gb_episode (snd (normalize_block off b)) = gb_episode b"
  "gb_asset (snd (normalize_block off b)) = gb_asset b"
  by (simp_all add: normalize_block_def)

lemma push_frame [rv_frame]:
  "gb_slot (snd (push_forward off p q)) = gb_slot (snd q)" "gb_episode (snd (push_forward off p q)) = gb_episode (snd q)"
  "gb_asset (snd (push_forward off p q)) = gb_asset (snd q)"
  by (simp_all add: push_forward_def split: prod.splits)

lemma compact_after_frame:
  "map (\<lambda>b. (gb_slot (snd b), gb_episode (snd b), gb_asset (snd b))) (compact_after off p bs)
   = map (\<lambda>b. (gb_slot (snd b), gb_episode (snd b), gb_asset (snd b))) bs"
  by (induction bs arbitrary: p) (simp_all add: Let_def rv_frame)

lemma compact_frame:
  "map (\<lambda>b. (gb_slot (snd b), gb_episode (snd b), gb_asset (snd b))) (compact off bs)
   = map (\<lambda>b. (gb_slot (snd b), gb_episode (snd b), gb_asset (snd b))) bs"
  by (cases bs) (simp_all add: compact_after_frame)

text \<open>On one clock, the compaction leaves no overlap.\<close>

definition apart :: "program_block_out list \<Rightarrow> bool" where
  "apart bs \<longleftrightarrow> sorted_wrt (\<lambda>b c. end_at b \<le> gb_start c) bs"

lemma compact_after_apart:
  assumes "\<forall>q \<in> set (p # bs). fst q = c \<and> 0 \<le> gb_slot (snd q)"
  shows "apart (map snd (p # compact_after off p bs)) \<and> (\<forall>q \<in> set (compact_after off p bs). fst q = c \<and> 0 \<le> gb_slot (snd q))"
  using assms
proof (induction bs arbitrary: p)
  case (Cons b bs)
  let ?b = "push_forward off p b"
  have b: "fst ?b = c" "0 \<le> gb_slot (snd ?b)" "end_at (snd p) \<le> gb_start (snd ?b)"
    using Cons.prems by (cases p, cases b, auto simp: push_forward_def later_def split: if_splits)+
  have IH: "apart (map snd (?b # compact_after off ?b bs))"
    "\<forall>q \<in> set (compact_after off ?b bs). fst q = c \<and> 0 \<le> gb_slot (snd q)"
    using Cons.IH [of ?b] Cons.prems b by simp_all
  have "gb_start (snd ?b) \<le> end_at (snd ?b)" using b(2) by (simp add: end_at_def)
  moreover have "end_at (snd ?b) \<le> gb_start (snd q)" if "q \<in> set (compact_after off ?b bs)" for q
    using IH(1) that by (simp add: apart_def)
  ultimately have far: "end_at (snd p) \<le> gb_start (snd q)" if "q \<in> set (compact_after off ?b bs)" for q
    using b(3) that by (meson order_trans)
  have "apart (snd p # map snd (?b # compact_after off ?b bs))"
    using IH(1) b(3) far unfolding apart_def list.map sorted_wrt.simps by simp
  then show ?case using IH(2) b(1,2) by (simp add: Let_def)
qed (simp add: apart_def)

lemma compact_apart:
  assumes "\<forall>q \<in> set bs. fst q = c \<and> 0 \<le> gb_slot (snd q)"
  shows "apart (map snd (compact off bs))"
proof (cases bs)
  case (Cons p ps)
  show ?thesis using compact_after_apart [of p ps c off] assms unfolding Cons by simp
qed (simp add: apart_def)

lemma validated_block_grid:
  assumes "validate_block_grid off grid bs = Inr ()" "b \<in> set (map snd bs)"
  shows "epoch_second (gb_start b) mod (grid * 60) = 0 \<and> gb_slot b mod (grid * 60) = 0"
proof -
  obtain c where "(c, b) \<in> set bs" using assms(2) by auto
  then have "check_block_grid off grid (c, b) = Inr ()"
    using assms(1) by (auto simp: validate_block_grid_def for_check_ok_iff)
  then show ?thesis by (simp add: check_block_grid_def split: if_splits)
qed

lemma finish_blocks_spec:
  assumes fin: "finish_blocks off grid bs = Inr cs" and slots: "all_slotted grid bs" and grid: "0 < grid"
  shows "\<forall>b \<in> set cs. epoch_second (gb_start b) mod (grid * 60) = 0 \<and> gb_slot b mod (grid * 60) = 0"
    and "all_slotted grid cs"
    and "one_clock off \<Longrightarrow> apart cs"
    and "map gb_asset cs = map gb_asset (sort_key gb_start bs)"
proof -
  let ?ns = "map (normalize_block off) (sort_key gb_start bs)"
  obtain u where v: "validate_block_grid off grid (compact off ?ns) = Inr u" and cs: "cs = map snd (compact off ?ns)"
    using fin by (auto simp: finish_blocks_def bind_res_Inr_iff Let_def)
  show "\<forall>b \<in> set cs. epoch_second (gb_start b) mod (grid * 60) = 0 \<and> gb_slot b mod (grid * 60) = 0"
    using validated_block_grid [of off grid "compact off ?ns"] v cs by simp
  have fr: "map (\<lambda>b. (gb_slot b, gb_episode b, gb_asset b)) cs
      = map (\<lambda>b. (gb_slot b, gb_episode b, gb_asset b)) (sort_key gb_start bs)"
    using compact_frame [of off ?ns] by (simp add: cs o_def rv_frame)
  have "\<forall>x \<in> set (map (\<lambda>b. (gb_slot b, gb_episode b, gb_asset b)) cs). fst x = grid_slot_duration grid (fst (snd x))"
    unfolding fr using slots by (auto simp: all_slotted_def slotted_def)
  then show "all_slotted grid cs" by (simp add: all_slotted_def slotted_def)
  have "map (snd \<circ> snd) (map (\<lambda>b. (gb_slot b, gb_episode b, gb_asset b)) cs)
      = map (snd \<circ> snd) (map (\<lambda>b. (gb_slot b, gb_episode b, gb_asset b)) (sort_key gb_start bs))" by (simp only: fr)
  then show "map gb_asset cs = map gb_asset (sort_key gb_start bs)" by (simp add: o_def)
  show "apart cs" if oc: "one_clock off"
  proof -
    obtain c where c: "\<forall>b. fst (normalize_block off b) = c" using normalize_clock [OF oc, of 0] by blast
    have "0 \<le> gb_slot b" if "b \<in> set bs" for b
      using slots that grid_slot_duration_pos [OF grid, of "gb_episode b"] grid by (auto simp: all_slotted_def slotted_def)
    then have "\<forall>q \<in> set ?ns. fst q = c \<and> 0 \<le> gb_slot (snd q)" using c by (auto simp: rv_frame)
    then show ?thesis unfolding cs by (rule compact_apart)
  qed
qed

section \<open>Ranges are filled\<close>

lemma parse_wall_window:
  assumes "parse_wall env day tz s = Inr w"
  shows "\<exists>bd. from_iso_date day = Some bd \<and> bd * us_per_day + 6 * us_per_hour \<le> w \<and> w < (bd + 1) * us_per_day + 6 * us_per_hour"
  using assms
  by (auto simp: parse_wall_def bind_res_Inr_iff Let_def wall_time_def combine_def us_defs BROADCAST_DAY_START_HOUR_def
      split: option.splits if_splits list.splits)

lemma episode_end_bounds:
  assumes "episode_end env day tz now duration end_str = Inr fin" "parse_wall env day tz s = Inr now" "\<not> truthy duration"
  shows "now < fin \<and> fin \<le> now + 24 * us_per_hour"
proof (cases "truthy end_str")
  case True
  then obtain w where w: "parse_wall env day tz end_str = Inr w" and fin: "fin = overnight now w"
    using assms by (auto simp: episode_end_def bind_res_Inr_iff)
  then show ?thesis using parse_wall_window [OF w] parse_wall_window [OF assms(2)]
    by (auto simp: overnight_def us_defs)
next
  case False
  then show ?thesis using assms by (simp add: episode_end_def us_defs)
qed

lemma episode_loop_fills:
  assumes "episode_loop n env rv grid seed ec now k g cs = Some (Inr (bs, cs'))" "0 < grid"
    and "ec_end ec - now \<le> int n * (grid * 60000000)"
  shows "if now < ec_end ec then bs \<noteq> [] \<and> gb_start (last bs) < ec_end ec \<and> ec_end ec \<le> end_at (last bs) else bs = []"
  using assms
proof (induction n arbitrary: now k g cs bs cs')
  case (Suc n)
  show ?case
  proof (cases "now < ec_end ec")
    case True
    obtain b k1 g1 cs1 bs1 where b: "slotted grid b \<and> gb_start b = now" and bs: "bs = b # bs1"
      and r: "episode_loop n env rv grid seed ec (end_at b) k1 g1 cs1 = Some (Inr (bs1, cs'))"
      using Suc.prems(1) True by (auto simp: run_simps dest!: episode_out_slotted)
    have e: "now + grid * 60000000 \<le> end_at b"
      using b grid_slot_duration_pos [OF Suc.prems(2), of "gb_episode b"] by (simp add: end_at_def slotted_def)
    then have "ec_end ec - end_at b \<le> int n * (grid * 60000000)" using Suc.prems(3) by (simp add: algebra_simps)
    from Suc.IH [OF r Suc.prems(2) this] True b show ?thesis by (auto simp: bs split: if_splits)
  qed (use Suc.prems in auto)
qed auto

section \<open>Compilation returns when its draws do\<close>

definition returns :: "'a option \<Rightarrow> bool" where
  "returns r \<longleftrightarrow> r \<noteq> None"

definition draws_return :: bool where
  "draws_return \<longleftrightarrow> (\<forall>n r. 0 < n \<longrightarrow> seeded r \<longrightarrow> returns (randbelow n r))"

lemma draws_returnD: "draws_return \<Longrightarrow> 0 < n \<Longrightarrow> seeded r \<Longrightarrow> returns (randbelow n r)"
  unfolding draws_return_def by blast

lemma sort_Nil_iff [simp]: "sort xs = [] \<longleftrightarrow> xs = []"
  by (metis length_0_conv length_sort)

lemma returns_simps [simp]: "returns (Some x)" "returns (pure_run r)" "returns (draw d) \<longleftrightarrow> returns d"
  "returns (map_option f d) \<longleftrightarrow> returns d"
  by (auto simp: returns_def pure_run_def draw_def)

lemma returns_bind: "returns r \<Longrightarrow> (\<And>x. r = Some (Inr x) \<Longrightarrow> returns (f x)) \<Longrightarrow> returns (bind_run r f)"
  by (cases "(r, f)" rule: bind_run.cases) (auto simp: returns_def)

lemma choice_returns: "draws_return \<Longrightarrow> xs \<noteq> [] \<Longrightarrow> seeded r \<Longrightarrow> returns (rng_choice xs r)"
  by (simp add: rng_choice_def draws_returnD)

lemma new_rng_seeded: "seeded (new_rng env v)"
  by (simp add: new_rng_def seeded_start)

lemma seeded_choice_returns: "draws_return \<Longrightarrow> xs \<noteq> [] \<Longrightarrow> returns (seeded_choice env s xs)"
  unfolding seeded_choice_def by (intro returns_bind) (auto simp: choice_returns new_rng_seeded)

lemma select_pool_episode_returns: "draws_return \<Longrightarrow> returns (select_pool_episode env rv c m s cs)"
  unfolding select_pool_episode_def Let_def
  by (intro returns_bind returns_simps) (auto intro!: returns_bind seeded_choice_returns split: option.splits yval.splits)

lemma select_movie_returns: "draws_return \<Longrightarrow> returns (select_movie env rv c inc exc maxd s)"
  unfolding select_movie_def by (auto intro!: returns_bind seeded_choice_returns)

lemma select_movie_no_repeat_returns: "draws_return \<Longrightarrow> returns (select_movie_no_repeat env rv c inc exc maxd s used)"
  unfolding select_movie_no_repeat_def by (auto intro!: returns_bind seeded_choice_returns)

lemma slot_block_returns: "draws_return \<Longrightarrow> returns (slot_block env rv grid seed slot now cs)"
  unfolding slot_block_def slot_asset_def by (auto intro!: returns_bind select_pool_episode_returns)

lemma sitcom_loop_returns: "draws_return \<Longrightarrow> returns (sitcom_loop env rv grid seed slots now cs)"
  by (induction env rv grid seed slots now cs rule: sitcom_loop.induct)
    (auto intro!: returns_bind slot_block_returns)

lemma marathon_loop_returns: "draws_return \<Longrightarrow> returns (marathon_loop n env rv grid mc seed now used)"
  by (induction n arbitrary: seed now used)
    (auto intro!: returns_bind select_movie_no_repeat_returns split: option.splits)

lemma pick_pool_returns: "draws_return \<Longrightarrow> seeded g \<Longrightarrow> returns (pick_pool ec k g)"
  unfolding pick_pool_def Let_def by (auto intro!: returns_bind choice_returns)

lemma pick_pool_seeded: "pick_pool ec k g = Some (Inr (p, k', g')) \<Longrightarrow> seeded g \<Longrightarrow> seeded g'"
  by (auto simp: pick_pool_def Let_def run_simps rng_choice_def split: if_splits dest: randbelow_seeded)

lemma episode_seed_returns: "draws_return \<Longrightarrow> seeded g \<Longrightarrow> returns (episode_seed ec seed g)"
  unfolding episode_seed_def by (auto intro!: returns_bind simp: randint_def draws_returnD)

lemma episode_seed_seeded: "episode_seed ec seed g = Some (Inr (s, g')) \<Longrightarrow> seeded g \<Longrightarrow> seeded g'"
  by (auto simp: episode_seed_def run_simps randint_def split: if_splits dest: randbelow_seeded)

lemma episode_loop_returns:
  "draws_return \<Longrightarrow> seeded g \<Longrightarrow> returns (episode_loop n env rv grid seed ec now k g cs)"
proof (induction n arbitrary: now k g cs)
  case (Suc n)
  show ?case
    unfolding episode_loop.simps
    by (auto intro!: returns_bind pick_pool_returns episode_seed_returns select_pool_episode_returns Suc
        dest: pick_pool_seeded episode_seed_seeded intro: pick_pool_seeded episode_seed_seeded)
qed simp

lemma compile_block_def_returns: "draws_return \<Longrightarrow> returns (compile_block_def env rv day tz grid seed shared d st)"
  unfolding compile_block_def_def compile_episode_block_def compile_movie_marathon_def compile_movie_block_def
    compile_sitcom_block_def
  by (auto intro!: returns_bind episode_loop_returns new_rng_seeded marathon_loop_returns select_movie_returns sitcom_loop_returns
      split: prod.splits)

lemma compile_defs_returns: "(\<And>d st. returns (f d st)) \<Longrightarrow> returns (compile_defs f ds st)"
  by (induction ds arbitrary: st) (auto intro!: returns_bind)

lemma compile_legacy_returns: "draws_return \<Longrightarrow> returns (compile_legacy_days env rv day tz grid seed days st)"
proof (induction days arbitrary: st)
  case (Cons kv days)
  obtain key v where kv: "kv = (key, v)" by (cases kv)
  show ?case unfolding kv compile_legacy_days.simps compile_sitcom_block_def
    by (rule returns_bind)
      (auto intro!: returns_bind Cons compile_defs_returns compile_block_def_returns sitcom_loop_returns split: yval.splits)
qed simp

lemma day_blocks_returns: "draws_return \<Longrightarrow> returns (day_blocks env rv ex day tz grid seed cs)"
  unfolding day_blocks_def
  by (auto intro!: returns_bind compile_defs_returns compile_block_def_returns compile_legacy_returns)

lemma compile_schedule_returns: "draws_return \<Longrightarrow> returns (compile_schedule env path commit seed cs dsl rv)"
  unfolding compile_schedule_def Let_def by (auto intro!: returns_bind day_blocks_returns)

section \<open>A small channel\<close>

definition demo_meta :: "int \<Rightarrow> string \<Rightarrow> asset_meta" where
  "demo_meta sec title =
     \<lparr>md_type = ''episode'', md_duration = sec, md_title = title, md_tags = [], md_rating = None, md_window = None,
      md_uri = ''/media/'' @ title, md_chapters = None, md_description = [], md_gain = 0\<rparr>"

definition demo_item :: "string \<Rightarrow> int \<Rightarrow> int \<Rightarrow> catalog_item" where
  "demo_item i episode sec =
     \<lparr>it_id = i, it_type = ''episode'', it_duration = sec, it_series = ''Cheers'', it_season = Some 1,
      it_episode = Some episode, it_rating = None, it_source = ''plex'', it_collection = ''TV'',
      it_meta = demo_meta sec i, it_genres = [], it_year = None, it_title = i, it_description = []\<rparr>"

definition demo_resolver :: resolver where
  "demo_resolver =
     \<lparr>rv_assets = [(''e1'', demo_meta 1400 ''e1''), (''e2'', demo_meta 3000 ''e2'')], rv_aliases = [],
      rv_catalog = [demo_item ''e2'' 2 3000, demo_item ''e1'' 1 1400], rv_pools = [], rv_probed = []\<rparr>"

definition demo_compiler_env :: compiler_env where
  "demo_compiler_env =
     \<lparr>ce_zone = (\<lambda>z. if z = ''America/Bogota'' then Inr (\<lambda>_. - 5 * us_per_hour) else Inl KeyError),
      ce_entropy = (\<lambda>_. 0), ce_text = (\<lambda>_. [])\<rparr>"

text \<open>Two definitions: three slots from 20:00, and one slot at 21:00 that the second episode runs into.\<close>

definition demo_slots :: "string \<Rightarrow> nat \<Rightarrow> yval" where
  "demo_slots start n =
     YDict [(YStr ''start'', YStr start),
            (YStr ''slots'', YList (replicate n (YDict [(YStr ''title'', YStr ''Cheers''),
               (YStr ''episode_selector'', YDict [(YStr ''pool'', YStr ''cheers''), (YStr ''mode'', YStr ''sequential'')])])))]"

definition demo_dsl :: yval where
  "demo_dsl =
     YDict [(YStr ''channel'', YStr ''demo''), (YStr ''broadcast_day'', YStr ''2026-01-05''),
            (YStr ''timezone'', YStr ''America/Bogota''),
            (YStr ''pools'', YDict [(YStr ''cheers'', YDict [(YStr ''match'', YDict [(YStr ''type'', YStr ''episode'')])])]),
            (YStr ''schedule'', YDict [(YStr ''all_day'', YList [demo_slots ''20:00'' 3, demo_slots ''21:00'' 1])])]"

text \<open>A document whose dictionaries have string keys can always be written as JSON.\<close>

fun json_plain :: "yval \<Rightarrow> bool" where
  "json_plain (YList ys) = list_all json_plain ys"
| "json_plain (YDict kvs) = list_all (\<lambda>(k, v). (case k of YStr _ \<Rightarrow> True | _ \<Rightarrow> False) \<and> json_plain v) kvs"
| "json_plain _ = True"

lemma map_res_exists: "(\<And>x. x \<in> set xs \<Longrightarrow> \<exists>y. f x = Inr y) \<Longrightarrow> \<exists>ys. map_res f xs = Inr ys"
  by (induction xs) force+

lemma sort_entries_strings:
  assumes "\<And>k v. (k, v) \<in> set kvs \<Longrightarrow> \<exists>s. k = YStr s"
  shows "\<exists>es. sort_entries kvs = Inr es \<and> set es = set kvs"
proof -
  have "\<forall>(k, v) \<in> set kvs. case k of YStr _ \<Rightarrow> True | _ \<Rightarrow> False" using assms by fastforce
  then show ?thesis by (auto simp: sort_entries_def)
qed

lemma json_plain_dumps: "json_plain v \<Longrightarrow> \<exists>t. json_dumps other v = Inr t"
proof (induction other v rule: json_dumps.induct)
  case (7 other ys)
  then have "\<exists>ts. map_res (json_dumps other) ys = Inr ts" by (intro map_res_exists) (auto simp: list_all_iff)
  then show ?case by auto
next
  case (8 other kvs)
  let ?ps = "map (\<lambda>(k, v). (k, json_dumps other v)) kvs"
  have entry: "\<exists>s u. k = YStr s \<and> t = Inr u" if "(k, t) \<in> set ?ps" for k t
  proof -
    obtain v where kv: "(k, v) \<in> set kvs" and t: "t = json_dumps other v" using \<open>(k, t) \<in> set ?ps\<close> by auto
    have "json_plain v" "\<exists>s. k = YStr s" using 8(2) kv by (auto simp: list_all_iff split: yval.splits)
    then show ?thesis using 8(1) [OF kv refl] t by auto
  qed
  then obtain es where es: "sort_entries ?ps = Inr es" "set es = set ?ps"
    using sort_entries_strings [of ?ps] by blast
  have "\<exists>ts. map_res (\<lambda>(k, t). bind_res (json_key other k) (\<lambda>s. bind_res t (\<lambda>t. Inr (s @ '': '' @ t)))) es = Inr ts"
    by (rule map_res_exists) (use entry es(2) in \<open>force simp: json_key_def\<close>)
  then show ?case using es(1) by auto
qed simp_all

section \<open>A compiled day\<close>

text \<open>
  C4. The compiled day fits together: for a channel whose clock is never at UTC (or always), the
  blocks do not overlap, and every block starts on the grid, lasts a whole number of grid slots and is
  long enough for its programme.
\<close>

theorem compiled_day_fits:
  assumes "compile_schedule env path commit seed cs dsl rv = Some (Inr p)"
    and "one_clock (zone_offsets env (cp_timezone p))"
  shows "apart (cp_blocks p) \<and>
    (\<exists>grid. (grid = 15 \<or> grid = 30) \<and> (\<forall>b \<in> set (cp_blocks p).
       epoch_second (gb_start b) mod (grid * 60) = 0 \<and> gb_slot b mod (grid * 60) = 0
       \<and> 0 < gb_slot b \<and> gb_episode b \<le> gb_slot b))"
proof -
  obtain rv' ex day template bs st where
      bs: "day_blocks env rv' ex day (cp_timezone p) (get_grid_minutes template) seed cs = Some (Inr (bs, st))"
    and fin: "finish_blocks (zone_offsets env (cp_timezone p)) (get_grid_minutes template) bs = Inr (cp_blocks p)"
    using assms(1) by (auto simp: compile_schedule_def run_simps Let_def split: if_splits)
  let ?grid = "get_grid_minutes template"
  have grid: "?grid = 15 \<or> ?grid = 30" by (simp add: get_grid_minutes_def)
  then have pos: "0 < ?grid" by auto
  note spec = finish_blocks_spec [OF fin day_blocks_slotted [OF bs] pos]
  have "0 < gb_slot b \<and> gb_episode b \<le> gb_slot b" if "b \<in> set (cp_blocks p)" for b
    using spec(2) that grid_slot_duration_pos [OF pos, of "gb_episode b"] grid_slot_duration_fits [OF pos, of "gb_episode b"] pos
    by (auto simp: all_slotted_def slotted_def)
  with spec(1) spec(3) [OF assms(2)] grid show ?thesis by blast
qed

definition demo_out :: "string \<Rightarrow> datetime \<Rightarrow> int \<Rightarrow> int \<Rightarrow> program_block_out" where
  "demo_out i start slot episode =
     \<lparr>gb_title = YStr ''Cheers'', gb_asset = YStr i, gb_start = start, gb_slot = slot, gb_episode = episode,
      gb_collection = YStr ''cheers'',
      gb_selector = YDict [(YStr ''mode'', YStr ''sequential''), (YStr ''seed'', YInt 42)]\<rparr>"

definition demo_pooled :: resolver where
  "demo_pooled = register_pools
     [(YStr ''cheers'', YDict [(YStr ''match'', YDict [(YStr ''type'', YStr ''episode'')])])] demo_resolver"

definition demo_compiled :: "string \<Rightarrow> compiled_plan" where
  "demo_compiled h =
     \<lparr>cp_channel = YStr ''demo'', cp_day = ''2026-01-05'', cp_timezone = YStr ''America/Bogota'',
      cp_dsl_path = ''demo.yaml'', cp_git_commit = ''0'',
      cp_blocks = [demo_out ''e1'' 1767661200000000 1800 1400, demo_out ''e2'' 1767663000000000 3600 3000,
                   demo_out ''e1'' 1767666600000000 1800 1400],
      cp_notes = YNone, cp_hash = h\<rparr>"

lemma demo_day_blocks:
  "map_option (map_sum id fst) (day_blocks demo_compiler_env demo_pooled
      demo_dsl ''2026-01-05'' (YStr ''America/Bogota'') 30 (Some 42) (\<lambda>_. 0))
    = Some (Inr [demo_out ''e1'' 1767643200000000 1800 1400, demo_out ''e2'' 1767645000000000 3600 3000,
                 demo_out ''e1'' 1767646800000000 1800 1400])"
  by code_simp

lemma demo_finish:
  "finish_blocks (zone_offsets demo_compiler_env (YStr ''America/Bogota'')) 30
     [demo_out ''e1'' 1767643200000000 1800 1400, demo_out ''e2'' 1767645000000000 3600 3000,
      demo_out ''e1'' 1767646800000000 1800 1400] = Inr (cp_blocks (demo_compiled []))"
  by code_simp

lemma demo_plain: "json_plain (plan_dict (demo_compiled []))"
  by code_simp

lemma demo_document:
  "register_dsl_pools demo_dsl demo_resolver = Inr demo_pooled"
  "validate_dsl demo_compiler_env demo_pooled demo_dsl = Inr []"
  "expand_templates demo_dsl = Inr demo_dsl"
  "field_of demo_dsl ''channel'' = Inr (YStr ''demo'')"
  "field_of demo_dsl ''broadcast_day'' = Inr (YStr ''2026-01-05'')"
  "field_of demo_dsl ''timezone'' = Inr (YStr ''America/Bogota'')"
  "get_channel_template demo_dsl = Inr (YStr ''network_television'')"
  "dget demo_dsl ''notes'' YNone = Inr YNone"
  by code_simp+

lemma run_fstD:
  assumes "map_option (map_sum id fst) r = Some (Inr x)"
  shows "\<exists>st. r = Some (Inr (x, st))"
proof -
  obtain y where "r = Some y" using assms by (cases r) auto
  then show ?thesis using assms by (cases y) auto
qed

lemma demo_compiles:
  "\<exists>h. compile_schedule demo_compiler_env ''demo.yaml'' ''0'' (Some 42) (\<lambda>_. 0) demo_dsl demo_resolver
     = Some (Inr (demo_compiled h))"
proof -
  obtain st where bs: "day_blocks demo_compiler_env demo_pooled demo_dsl ''2026-01-05'' (YStr ''America/Bogota'') 30
      (Some 42) (\<lambda>_. 0) = Some (Inr ([demo_out ''e1'' 1767643200000000 1800 1400,
         demo_out ''e2'' 1767645000000000 3600 3000, demo_out ''e1'' 1767646800000000 1800 1400], st))"
    using run_fstD [OF demo_day_blocks] by blast
  obtain h where h: "compute_hash demo_compiler_env (demo_compiled []) = Inr h"
    using json_plain_dumps [OF demo_plain, of "ce_text demo_compiler_env"] by (force simp: compute_hash_def)
  show ?thesis
    using h demo_finish bs
    by (intro exI [of _ h])
      (simp add: compile_schedule_def demo_document pure_run_def py_str_def get_grid_minutes_def demo_compiled_def)
qed

lemma demo_offsets: "one_clock (zone_offsets demo_compiler_env (YStr ''America/Bogota''))"
  by (simp add: one_clock_def zone_offsets_def demo_compiler_env_def us_defs)

theorem compiled_day_fits_witness:
  "\<exists>h. compile_schedule demo_compiler_env ''demo.yaml'' ''0'' (Some 42) (\<lambda>_. 0) demo_dsl demo_resolver
        = Some (Inr (demo_compiled h)) \<and> apart (cp_blocks (demo_compiled h))"
proof -
  obtain h where c: "compile_schedule demo_compiler_env ''demo.yaml'' ''0'' (Some 42) (\<lambda>_. 0) demo_dsl demo_resolver
        = Some (Inr (demo_compiled h))" using demo_compiles by blast
  have "one_clock (zone_offsets demo_compiler_env (cp_timezone (demo_compiled h)))"
    using demo_offsets by (simp add: demo_compiled_def)
  from compiled_day_fits [OF c this] c show ?thesis by blast
qed

section \<open>A clock that touches UTC\<close>

text \<open>London on the night of 29 March 2026: at UTC until 01:00, one hour ahead afterwards.\<close>

definition london_offset :: "datetime \<Rightarrow> int" where
  "london_offset w = (if w < 1774749600000000 then 0 else us_per_hour)"

text \<open>
  On such a clock the compaction misses overlaps: a film from 00:30 to 02:30 UTC is followed by a
  block that starts at 01:30 UTC, and the compilation accepts both.
\<close>

theorem spring_night_overlaps:
  "\<exists>bs. finish_blocks london_offset 30
      [demo_out ''film'' 1774744200000000 7200 7000, demo_out ''e1'' 1774751400000000 1800 1400] = Inr bs
    \<and> \<not> apart bs \<and> map gb_start bs = [1774744200000000, 1774747800000000]
    \<and> validate_program_blocks demo_compiler_env bs \<noteq> []"
proof (intro exI conjI)
  let ?bs = "[demo_out ''film'' 1774744200000000 7200 7000, demo_out ''e1'' 1774747800000000 1800 1400]"
  show "finish_blocks london_offset 30
      [demo_out ''film'' 1774744200000000 7200 7000, demo_out ''e1'' 1774751400000000 1800 1400] = Inr ?bs"
    by code_simp
  show "\<not> apart ?bs" "map gb_start ?bs = [1774744200000000, 1774747800000000]"
    by (simp_all add: apart_def end_at_def demo_out_def)
  show "validate_program_blocks demo_compiler_env ?bs \<noteq> []"
    by (simp add: validate_program_blocks_def end_at_def demo_out_def overlap_error_def)
qed

section \<open>An episode block\<close>

text \<open>
  C19. An episode block with no duration of its own fills its range: the first episode starts at its start,
  each one where the one before ends, and the last one starts before its end and runs to it.
\<close>

theorem episode_block_fills_range:
  assumes "compile_episode_block env rv day tz grid seed d cs = Some (Inr (bs, cs'))"
    and "dget d ''block'' (YDict []) = Inr bb" "dget bb ''duration'' (YStr []) = Inr dur" "\<not> truthy dur"
    and "3 \<le> grid"
  shows "\<exists>start end_str now fin. parse_wall env day tz start = Inr now
      \<and> dget bb ''end'' (YStr []) = Inr end_str \<and> episode_end env day tz now dur end_str = Inr fin
      \<and> now < fin \<and> fin \<le> now + 24 * us_per_hour
      \<and> bs \<noteq> [] \<and> gb_start (hd bs) = now \<and> chained (map bo_span bs)
      \<and> gb_start (last bs) < fin \<and> fin \<le> end_at (last bs)"
proof -
  obtain start end_str now fin pools mode title where now: "parse_wall env day tz start = Inr now"
    and e: "dget bb ''end'' (YStr []) = Inr end_str"
    and fin: "episode_end env day tz now dur end_str = Inr fin" 
    and loop: "episode_loop 500 env rv grid seed \<lparr>ec_pools = pools, ec_mode = mode, ec_title = title, ec_end = fin\<rparr> now 0
        (new_rng env (or_else (opt_int seed) (YInt 42))) cs = Some (Inr (bs, cs'))"
    using assms(1-3) by (auto simp: compile_episode_block_def run_simps)
  have b: "now < fin" "fin \<le> now + 24 * us_per_hour" using episode_end_bounds [OF fin now assms(4)] by simp_all
  let ?ec = "\<lparr>ec_pools = pools, ec_mode = mode, ec_title = title, ec_end = fin\<rparr>"
  have "ec_end ?ec - now \<le> int 500 * (grid * 60000000)" using b assms(5) by (simp add: us_defs)
  from episode_loop_fills [OF loop _ this] assms(5) b(1)
  have f: "bs \<noteq> []" "gb_start (last bs) < fin" "fin \<le> end_at (last bs)" by simp_all
  show ?thesis using now e fin b f episode_loop_chain [OF loop] by (auto simp: back_to_back_def)
qed

definition demo_episode_block :: yval where
  "demo_episode_block =
     YDict [(YStr ''block'', YDict [(YStr ''start'', YStr ''06:00''), (YStr ''end'', YStr ''08:00''),
                                    (YStr ''pool'', YStr ''cheers'')])]"

definition demo_episode_cfg :: episode_cfg where
  "demo_episode_cfg =
     \<lparr>ec_pools = [YStr ''cheers''], ec_mode = YStr ''sequential'', ec_title = YStr [], ec_end = 1767600000000000\<rparr>"

lemma demo_pick: "pick_pool demo_episode_cfg 0 g = Some (Inr (YStr ''cheers'', 0, g))"
  by (simp add: pick_pool_def demo_episode_cfg_def pure_run_def)

lemma demo_seed: "episode_seed demo_episode_cfg seed g = Some (Inr (opt_int seed, g))"
  by (simp add: episode_seed_def demo_episode_cfg_def)

lemma demo_lookup:
  "lookup demo_pooled (YStr ''cheers'') = Inr (pool_meta [''e1'', ''e2''])"
  "lookup demo_pooled (YStr ''e1'') = Inr (demo_meta 1400 ''e1'')"
  "lookup demo_pooled (YStr ''e2'') = Inr (demo_meta 3000 ''e2'')"
  by code_simp+

lemma demo_select:
  "select_pool_episode env demo_pooled (YStr ''cheers'') (YStr ''sequential'') s (Some cs) =
     Some (Inr ([''e1'', ''e2''] ! nat (cs (YStr ''cheers'') mod 2),
                Some (cs(YStr ''cheers'' := cs (YStr ''cheers'') + 1))))"
  by (simp add: select_pool_episode_def demo_lookup pure_run_def pool_meta_def)

lemma demo_slot_lengths [simp]: "grid_slot_duration 30 1400 = 1800" "grid_slot_duration 30 3000 = 3600"
  by (simp_all add: grid_slot_duration_def grid_slots_def)

lemma demo_mode:
  "ec_mode demo_episode_cfg = YStr ''sequential''" "ec_end demo_episode_cfg = 1767600000000000"
  "ec_title demo_episode_cfg = YStr []"
  by (simp_all add: demo_episode_cfg_def)

definition demo_episode_out :: "string \<Rightarrow> datetime \<Rightarrow> int \<Rightarrow> int \<Rightarrow> program_block_out" where
  "demo_episode_out i start slot episode =
     \<lparr>gb_title = YStr i, gb_asset = YStr i, gb_start = start, gb_slot = slot, gb_episode = episode,
      gb_collection = YStr ''cheers'',
      gb_selector = YDict [(YStr ''mode'', YStr ''sequential''), (YStr ''pool'', YStr ''cheers'')]\<rparr>"

lemma demo_episode_step:
  assumes "now < 1767600000000000"
  shows "even (cs (YStr ''cheers'')) \<Longrightarrow>
      episode_loop (Suc n) demo_compiler_env demo_pooled 30 seed demo_episode_cfg now 0 g cs =
      bind_run (episode_loop n demo_compiler_env demo_pooled 30 seed demo_episode_cfg (now + 1800000000) 0 g
          (cs(YStr ''cheers'' := cs (YStr ''cheers'') + 1)))
        (\<lambda>(bs, cs). Some (Inr (demo_episode_out ''e1'' now 1800 1400 # bs, cs)))"
    and "odd (cs (YStr ''cheers'')) \<Longrightarrow>
      episode_loop (Suc n) demo_compiler_env demo_pooled 30 seed demo_episode_cfg now 0 g cs =
      bind_run (episode_loop n demo_compiler_env demo_pooled 30 seed demo_episode_cfg (now + 3600000000) 0 g
          (cs(YStr ''cheers'' := cs (YStr ''cheers'') + 1)))
        (\<lambda>(bs, cs). Some (Inr (demo_episode_out ''e2'' now 3600 3000 # bs, cs)))"
  using assms
  by (simp_all add: demo_pick demo_seed demo_select demo_mode pure_run_def episode_out_def demo_lookup
      end_at_def demo_meta_def demo_episode_out_def or_else_def even_iff_mod_2_eq_zero odd_iff_mod_2_eq_one)

lemma episode_loop_done: "\<not> now < ec_end ec \<Longrightarrow> episode_loop n env rv grid seed ec now k g cs = Some (Inr ([], cs))"
  by (cases n) simp_all

lemma demo_episode_loop:
  "\<exists>cs'. episode_loop (Suc (Suc (Suc n))) demo_compiler_env demo_pooled 30 seed demo_episode_cfg 1767592800000000 0 g (\<lambda>_. 0)
     = Some (Inr ([demo_episode_out ''e1'' 1767592800000000 1800 1400, demo_episode_out ''e2'' 1767594600000000 3600 3000,
         demo_episode_out ''e1'' 1767598200000000 1800 1400], cs'))"
  by (simp add: demo_episode_step episode_loop_done demo_mode del: episode_loop.simps)

lemma demo_episode_values:
  "dget demo_episode_block ''block'' (YDict []) =
     Inr (YDict [(YStr ''start'', YStr ''06:00''), (YStr ''end'', YStr ''08:00''), (YStr ''pool'', YStr ''cheers'')])"
  "dget demo_episode_block ''start'' (YStr ''06:00'') = Inr (YStr ''06:00'')"
  "parse_wall demo_compiler_env ''2026-01-05'' (YStr ''America/Bogota'') (YStr ''06:00'') = Inr 1767592800000000"
  "parse_wall demo_compiler_env ''2026-01-05'' (YStr ''America/Bogota'') (YStr ''08:00'') = Inr 1767600000000000"
  by code_simp+

lemma demo_episode_compiles:
  "\<exists>bs cs'. compile_episode_block demo_compiler_env demo_pooled ''2026-01-05'' (YStr ''America/Bogota'') 30 seed
      demo_episode_block (\<lambda>_. 0) = Some (Inr (bs, cs'))"
proof -
  let ?g = "new_rng demo_compiler_env (or_else (opt_int seed) (YInt 42))"
  have n: "(500::nat) = Suc (Suc (Suc 497))" by simp
  obtain bs cs' where "episode_loop 500 demo_compiler_env demo_pooled 30 seed demo_episode_cfg 1767592800000000 0 ?g (\<lambda>_. 0)
      = Some (Inr (bs, cs'))" unfolding n using demo_episode_loop by blast
  then show ?thesis
    by (intro exI [of _ bs] exI [of _ cs'])
      (simp add: compile_episode_block_def demo_episode_values dget_YDict pure_run_def or_else_def episode_end_def
        overnight_def demo_episode_cfg_def)
qed

theorem episode_block_fills_range_witness:
  "\<exists>bs cs'. compile_episode_block demo_compiler_env demo_pooled ''2026-01-05'' (YStr ''America/Bogota'') 30 (Some 42)
      demo_episode_block (\<lambda>_. 0) = Some (Inr (bs, cs')) \<and> bs \<noteq> [] \<and> chained (map bo_span bs)"
proof -
  obtain bs cs' where c: "compile_episode_block demo_compiler_env demo_pooled ''2026-01-05'' (YStr ''America/Bogota'') 30
      (Some 42) demo_episode_block (\<lambda>_. 0) = Some (Inr (bs, cs'))" using demo_episode_compiles by blast
  have d: "dget (YDict [(YStr ''start'', YStr ''06:00''), (YStr ''end'', YStr ''08:00''), (YStr ''pool'', YStr ''cheers'')])
      ''duration'' (YStr []) = Inr (YStr [])" by (simp add: dget_def)
  from episode_block_fills_range [OF c demo_episode_values(1) d] c show ?thesis by auto
qed

section \<open>Returning\<close>

text \<open>
  A compilation returns, whatever the document: none of its loops runs on, unless a draw of the random
  generator rejects numbers for ever.
\<close>

theorem compilation_returns:
  "(\<exists>r. compile_schedule env path commit seed cs dsl rv = Some r)
   \<or> (\<exists>n g. 0 < n \<and> seeded g \<and> randbelow n g = None)"
proof (cases draws_return)
  case True
  then show ?thesis using compile_schedule_returns [OF True, of env path commit seed cs dsl rv] by (simp add: returns_def)
next
  case False
  then obtain n g where ng: "0 < n" "seeded g" and no: "\<not> returns (randbelow n g)" unfolding draws_return_def by blast
  have "randbelow n g = None" using no unfolding returns_def by (rule notnotD)
  with ng show ?thesis by blast
qed

end
