(* ===== verification/Dsl_Service.thy ===== *)
theory Dsl_Service
  imports Tier_Two
begin

text \<open>
  \<^verbatim>\<open>DslScheduleService\<close> of \<^verbatim>\<open>runtime/dsl_schedule_service.py\<close>: it compiles days of a schedule document, keeps
  their blocks in memory and in tier 1, extends the horizon when it runs short, and serves the filled
  block of an instant from tier 2, filling it first when it is missing.  The object is a record and so
  is what it finds outside: the two tiers, the document, the catalogue as its loader builds it, the
  rows of assets and path mappings, and the clocks.  Zones are a parameter.
\<close>

section \<open>State\<close>

record dsl_env =
  de_compiler :: compiler_env
  de_zone :: "string \<Rightarrow> (datetime \<Rightarrow> datetime) res"

record dsl_service =
  dv_dsl_path :: string
  dv_filler_path :: string
  dv_filler_ms :: ms
  dv_day_start :: int
  dv_override :: "string option"
  dv_channel_type :: string
  dv_blocks :: "scheduled_block list"
  dv_uri_cache :: "(string \<times> string) list"
  dv_compiled_days :: "string list"
  dv_extending :: bool
  dv_last_purge :: ms
  dv_resolver :: "resolver option"
  dv_resolver_at :: rat
  dv_tz :: "(datetime \<Rightarrow> datetime) option"
  dv_loudness_pending :: "yval list"

record dsl_world =
  dw_tiers :: tier_world
  dw_file :: "(string \<times> yval) res"
  dw_catalog :: "resolver res"
  dw_assets :: "(string \<times> string \<times> string option) list"
  dw_mappings :: "(string \<times> (string \<times> string) list) list"
  dw_now :: datetime
  dw_today :: date
  dw_mono :: rat

definition new_dsl_service ::
  "string \<Rightarrow> string \<Rightarrow> ms \<Rightarrow> string option \<Rightarrow> int \<Rightarrow> string \<Rightarrow> dsl_service" where
  "new_dsl_service dsl_path filler_path filler_ms broadcast_day day_start channel_type =
     \<lparr>dv_dsl_path = dsl_path, dv_filler_path = filler_path, dv_filler_ms = filler_ms, dv_day_start = day_start,
      dv_override = broadcast_day, dv_channel_type = channel_type, dv_blocks = [], dv_uri_cache = [],
      dv_compiled_days = [], dv_extending = False, dv_last_purge = 0, dv_resolver = None, dv_resolver_at = 0,
      dv_tz = None, dv_loudness_pending = []\<rparr>"

definition HORIZON_DAYS :: nat where "HORIZON_DAYS = 3"
definition RECOMPILE_THRESHOLD_HOURS :: int where "RECOMPILE_THRESHOLD_HOURS = 6"

text \<open>One database session; \<open>False\<close> is an exception of the database.\<close>

definition dsl_db :: "dsl_world \<Rightarrow> dsl_world \<times> bool" where
  "dsl_db w = (case db_try (dw_tiers w) of (t, ok) \<Rightarrow> (w\<lparr>dw_tiers := t\<rparr>, ok))"

definition map_tiers :: "(tier_world \<Rightarrow> tier_world) \<Rightarrow> dsl_world \<Rightarrow> dsl_world" where
  "map_tiers f w = w\<lparr>dw_tiers := f (dw_tiers w)\<rparr>"

definition db_error :: exn where "db_error = RuntimeError ''database''"

section \<open>Resolver and loudness\<close>

definition rebuild_resolver :: "dsl_service \<Rightarrow> dsl_world \<Rightarrow> dsl_service \<times> dsl_world \<times> resolver res" where
  "rebuild_resolver s w =
     (case dsl_db w of
        (w', False) \<Rightarrow> (s, w', Inl db_error)
      | (w', True) \<Rightarrow>
          (case dw_catalog w' of
             Inl e \<Rightarrow> (s, w', Inl e)
           | Inr rv \<Rightarrow> (s\<lparr>dv_resolver := Some rv, dv_resolver_at := dw_mono w\<rparr>, w', Inr rv)))"

definition get_resolver :: "dsl_service \<Rightarrow> dsl_world \<Rightarrow> dsl_service \<times> dsl_world \<times> resolver res" where
  "get_resolver s w =
     (case dv_resolver s of
        Some rv \<Rightarrow> if fl (dw_mono w - dv_resolver_at s) < 60 then (s, w, Inr rv) else rebuild_resolver s w
      | None \<Rightarrow> rebuild_resolver s w)"

definition enqueue_loudness_measurement :: "yval \<Rightarrow> dsl_service \<Rightarrow> dsl_service" where
  "enqueue_loudness_measurement i s =
     (if i \<in> set (dv_loudness_pending s) then s else s\<lparr>dv_loudness_pending := i # dv_loudness_pending s\<rparr>)"

text \<open>The end of a measurement: the gain reaches the resolver in use, unless it or the database failed.\<close>

definition run_loudness_measurement :: "string \<Rightarrow> rat res \<Rightarrow> dsl_service \<Rightarrow> dsl_world \<Rightarrow> dsl_service \<times> dsl_world" where
  "run_loudness_measurement i measured s w =
     (let done = (\<lambda>s. s\<lparr>dv_loudness_pending := filter (\<lambda>x. x \<noteq> YStr i) (dv_loudness_pending s)\<rparr>)
      in (case measured of
            Inl _ \<Rightarrow> (done s, w)
          | Inr gain \<Rightarrow>
              (case dsl_db w of
                 (w', False) \<Rightarrow> (done s, w')
               | (w', True) \<Rightarrow>
                   (done (s\<lparr>dv_resolver := map_option (\<lambda>rv. fst (update_asset_loudness i gain rv)) (dv_resolver s)\<rparr>), w'))))"

section \<open>Paths\<close>

definition starts_with :: "string \<Rightarrow> string \<Rightarrow> bool" where
  "starts_with p s \<longleftrightarrow> take (length p) s = p"

definition resolve_uri :: "dsl_service \<Rightarrow> string \<Rightarrow> string" where
  "resolve_uri s uri = (case map_of (dv_uri_cache s) uri of None \<Rightarrow> uri | Some p \<Rightarrow> p)"

definition asset_row :: "dsl_world \<Rightarrow> yval \<Rightarrow> (string \<times> string option) option" where
  "asset_row w i = (case i of YStr u \<Rightarrow> map_of (dw_assets w) u | _ \<Rightarrow> None)"

text \<open>Where the file of an asset is, before the path mappings; \<open>None\<close> if nothing but a provider reference is known.\<close>

definition source_path :: "dsl_world \<Rightarrow> yval \<Rightarrow> string \<Rightarrow> string option" where
  "source_path w i uri =
     (if starts_with ''plex://'' uri
      then (case asset_row w i of
              Some (_, Some canonical) \<Rightarrow>
                (if canonical \<noteq> [] \<and> \<not> starts_with ''plex://'' canonical then Some canonical else None)
            | _ \<Rightarrow> None)
      else Some (if starts_with ''file://'' uri then remove_all ''file://'' uri 0 else uri))"

text \<open>The mappings of the collection, the longest prefix first.\<close>

definition mapped_path :: "(string \<times> string) list \<Rightarrow> string \<Rightarrow> string" where
  "mapped_path pms path =
     (case find (\<lambda>(p, _). starts_with p path) (sort_key (\<lambda>(p, _). - int (length p)) pms) of
        None \<Rightarrow> path
      | Some (p, local) \<Rightarrow> local @ drop (length p) path)"

definition collection_mappings :: "dsl_world \<Rightarrow> yval \<Rightarrow> (string \<times> string) list" where
  "collection_mappings w i =
     (case asset_row w i of
        None \<Rightarrow> []
      | Some (c, _) \<Rightarrow> (case map_of (dw_mappings w) c of None \<Rightarrow> [] | Some pms \<Rightarrow> pms))"

fun resolve_block_uris ::
  "dsl_world \<Rightarrow> resolver \<Rightarrow> program_block_out list \<Rightarrow> (string \<times> string) list \<Rightarrow> (string \<times> string) list \<times> unit res" where
  "resolve_block_uris w rv [] cache = (cache, Inr ())"
| "resolve_block_uris w rv (b # bs) cache =
     (case lookup rv (gb_asset b) of
        Inl e \<Rightarrow> (cache, Inl e)
      | Inr m \<Rightarrow>
          (let uri = md_uri m
           in if map_of cache uri \<noteq> None then resolve_block_uris w rv bs cache
              else (case source_path w (gb_asset b) uri of
                      None \<Rightarrow> resolve_block_uris w rv bs cache
                    | Some path \<Rightarrow>
                        resolve_block_uris w rv bs
                          (entry_put uri (mapped_path (collection_mappings w (gb_asset b)) path) cache))))"

definition resolve_uris ::
  "resolver \<Rightarrow> program_block_out list \<Rightarrow> dsl_service \<Rightarrow> dsl_world \<Rightarrow> dsl_service \<times> dsl_world \<times> unit res" where
  "resolve_uris rv bs s w =
     (case dsl_db w of
        (w', False) \<Rightarrow> (s, w', Inl db_error)
      | (w', True) \<Rightarrow>
          (case resolve_block_uris w' rv bs (dv_uri_cache s) of
             (cache, r) \<Rightarrow> (s\<lparr>dv_uri_cache := cache\<rparr>, w', r)))"

section \<open>Expansion into segmented blocks\<close>

definition chapter_ms :: "rat list option \<Rightarrow> ms list option" where
  "chapter_ms markers =
     (case markers of
        Some (c # cs) \<Rightarrow> Some (map (\<lambda>x. py_trunc (fl (x * 1000))) (filter (\<lambda>x. 0 < x) (c # cs)))
      | _ \<Rightarrow> None)"

definition expand_block :: "dsl_env \<Rightarrow> resolver \<Rightarrow> program_block_out \<Rightarrow> dsl_service \<Rightarrow> dsl_service \<times> scheduled_block res" where
  "expand_block env rv b s =
     (case lookup rv (gb_asset b) of
        Inl e \<Rightarrow> (s, Inl e)
      | Inr m \<Rightarrow>
          (let gain = md_gain m;
               probed = (case gb_asset b of YStr i \<Rightarrow> map_of (rv_probed rv) i | _ \<Rightarrow> None)
           in (case (if gain = 0 then needs_loudness_measurement probed else Inr False) of
                 Inl e \<Rightarrow> (s, Inl e)
               | Inr needed \<Rightarrow>
                   (if needed then enqueue_loudness_measurement (gb_asset b) s else s,
                    Inr (expand_program_block (py_str (ce_text (de_compiler env)) (gb_asset b)) (resolve_uri s (md_uri m))
                           (to_epoch_ms (gb_start b)) (gb_slot b * 1000) (gb_episode b * 1000)
                           (chapter_ms (md_chapters m)) 3 500 (dv_channel_type s) gain)))))"

fun expand_blocks_inner ::
  "dsl_env \<Rightarrow> resolver \<Rightarrow> program_block_out list \<Rightarrow> dsl_service \<Rightarrow> dsl_service \<times> scheduled_block list res" where
  "expand_blocks_inner env rv [] s = (s, Inr [])"
| "expand_blocks_inner env rv (b # bs) s =
     (case expand_block env rv b s of
        (s', Inl e) \<Rightarrow> (s', Inl e)
      | (s', Inr x) \<Rightarrow>
          (case expand_blocks_inner env rv bs s' of
             (s'', Inl e) \<Rightarrow> (s'', Inl e)
           | (s'', Inr xs) \<Rightarrow> (s'', Inr (x # xs))))"

section \<open>Tier 1\<close>

definition get_cached_schedule :: "string \<Rightarrow> string \<Rightarrow> dsl_world \<Rightarrow> dsl_world \<times> program_schedule option" where
  "get_cached_schedule channel day w =
     (case dsl_db w of
        (w', False) \<Rightarrow> (w', None)
      | (w', True) \<Rightarrow>
          (w', case from_iso_date day of
                 None \<Rightarrow> None
               | Some d \<Rightarrow>
                   (case find (\<lambda>r. cl_channel r = channel \<and> cl_day r = d \<and> cl_locked r) (tr_tier1 (dw_tiers w')) of
                      None \<Rightarrow> None
                    | Some row \<Rightarrow>
                        if cs_compiler (cl_json row) \<noteq> Some COMPILER_VERSION then None else Some (cl_json row))))"

definition list_min :: "int list \<Rightarrow> int option" where
  "list_min xs = (case xs of [] \<Rightarrow> None | x # xs \<Rightarrow> Some (foldl min x xs))"

definition list_max :: "int list \<Rightarrow> int option" where
  "list_max xs = (case xs of [] \<Rightarrow> None | x # xs \<Rightarrow> Some (foldl max x xs))"

text \<open>The row of a channel and day is updated if there is one, and added otherwise.\<close>

fun put_compiled :: "compiled_row \<Rightarrow> compiled_row list \<Rightarrow> compiled_row list" where
  "put_compiled r [] = [r]"
| "put_compiled r (x # xs) =
     (if cl_channel x = cl_channel r \<and> cl_day x = cl_day r then r # xs else x # put_compiled r xs)"

definition compiled_row_of :: "string \<Rightarrow> date \<Rightarrow> string \<Rightarrow> program_schedule \<Rightarrow> compiled_row" where
  "compiled_row_of channel d dsl_hash sch =
     \<lparr>cl_channel = channel, cl_day = d, cl_locked = True, cl_hash = dsl_hash, cl_json = sch,
      cl_range_start = list_min (map gb_start (cp_blocks sch)), cl_range_end = list_max (map end_at (cp_blocks sch))\<rparr>"

definition save_compiled_schedule ::
  "string \<Rightarrow> string \<Rightarrow> program_schedule \<Rightarrow> string \<Rightarrow> dsl_world \<Rightarrow> dsl_world" where
  "save_compiled_schedule channel day sch dsl_hash w =
     (case from_iso_date day of
        None \<Rightarrow> w
      | Some d \<Rightarrow>
          (case dsl_db w of
             (w', False) \<Rightarrow> w'
           | (w', True) \<Rightarrow>
               map_tiers (\<lambda>t. t\<lparr>tr_tier1 := put_compiled (compiled_row_of channel d dsl_hash sch) (tr_tier1 t)\<rparr>) w'))"

definition hash_dsl :: "string \<Rightarrow> string" where
  "hash_dsl text = sha256_hexdigest text"

section \<open>Compiling a day\<close>

text \<open>The number of episode slots of a document, an estimate for definitions without a list of slots.\<close>

definition py_len :: "yval \<Rightarrow> int res" where
  "py_len v =
     (case v of YList ys \<Rightarrow> Inr (int (length ys)) | YDict kvs \<Rightarrow> Inr (int (length kvs))
      | YStr s \<Rightarrow> Inr (int (length s)) | _ \<Rightarrow> Inl TypeError)"

definition minutes_of_text :: "yval \<Rightarrow> int res" where
  "minutes_of_text v =
     bind_res (as_str v) (\<lambda>s.
       let parts = split_char (CHR '':'') s
       in bind_res (parse_int (hd parts)) (\<lambda>h.
          bind_res (case tl parts of [] \<Rightarrow> Inr 0 | p # _ \<Rightarrow> parse_int p) (\<lambda>m. Inr (h * 60 + m))))"

definition range_minutes :: "yval \<Rightarrow> int res" where
  "range_minutes bb =
     bind_res (dget bb ''duration'' (YStr [])) (\<lambda>duration.
     bind_res (dget bb ''start'' (YStr [])) (\<lambda>start.
     bind_res (dget bb ''end'' (YStr [])) (\<lambda>fin.
       if truthy duration then bind_res (parse_duration duration) (\<lambda>us. Inr (us div 60000000))
       else if truthy start \<and> truthy fin
       then bind_res (minutes_of_text start) (\<lambda>a.
            bind_res (minutes_of_text fin) (\<lambda>b. Inr ((if b \<le> a then b + 24 * 60 else b) - a)))
       else Inr (24 * 60))))"

definition block_slots :: "yval \<Rightarrow> int res" where
  "block_slots d =
     bind_res (dget d ''slots'' (YList [])) (\<lambda>slots.
       if truthy slots then py_len slots
       else
         bind_res (dget d ''block'' YNone) (\<lambda>block.
         bind_res (dget d ''movie_marathon'' YNone) (\<lambda>marathon.
           let bb = or_else block marathon
           in if truthy bb \<and> is_dict bb then bind_res (range_minutes bb) (\<lambda>m. Inr (max 1 (m div 30)))
              else Inr (if has_key d ''movie_selector'' \<or> has_key d ''movie_block'' then 1 else 0))))"

definition day_slots :: "yval \<Rightarrow> int res" where
  "day_slots v =
     (case v of
        YList items \<Rightarrow> bind_res (map_res block_slots (filter is_dict items)) (\<lambda>ns. Inr (sum_list ns))
      | YDict _ \<Rightarrow> block_slots v
      | _ \<Rightarrow> Inr 0)"

definition count_slots_in_dsl :: "yval \<Rightarrow> int res" where
  "count_slots_in_dsl dsl =
     bind_res (dget dsl ''schedule'' (YDict [])) (\<lambda>schedule.
     bind_res (dict_items schedule) (\<lambda>days.
     bind_res (map_res (\<lambda>(_, v). day_slots v) days) (\<lambda>ns. Inr (sum_list ns))))"

text \<open>The counters a day starts with: every pool at the number of slots since 1 January 2026.\<close>

definition starting_counters :: "yval \<Rightarrow> string \<Rightarrow> counters res" where
  "starting_counters dsl day =
     bind_res (case from_iso_date day of None \<Rightarrow> Inl (ValueError ''isoformat'') | Some d \<Rightarrow> Inr d) (\<lambda>target.
     bind_res (count_slots_in_dsl dsl) (\<lambda>n.
     bind_res (dget dsl ''pools'' (YDict [])) (\<lambda>pools.
     bind_res (py_iter pools) (\<lambda>names.
       Inr (\<lambda>k. if k \<in> set names then (target - 20454) * n else 0)))))"

definition schedule_of_plan :: "compiled_plan \<Rightarrow> scheduled_block list option \<Rightarrow> program_schedule" where
  "schedule_of_plan p blocks =
     \<lparr>cp_channel = cp_channel p, cp_day = cp_day p, cp_timezone = cp_timezone p, cp_dsl_path = cp_dsl_path p,
      cp_git_commit = cp_git_commit p, cp_blocks = cp_blocks p, cp_notes = cp_notes p, cp_hash = cp_hash p,
      cs_compiler = Some COMPILER_VERSION, cs_segmented = map_option (map serialize_scheduled_block) blocks\<rparr>"

type_synonym 'a step = "(dsl_service \<times> dsl_world \<times> 'a res) option"

text \<open>The paths and the segments of the blocks of a schedule.\<close>

definition expand_schedule ::
  "dsl_env \<Rightarrow> resolver \<Rightarrow> program_block_out list \<Rightarrow> dsl_service \<Rightarrow> dsl_world \<Rightarrow>
    dsl_service \<times> dsl_world \<times> scheduled_block list res" where
  "expand_schedule env rv bs s w =
     (case resolve_uris rv bs s w of
        (s', w', Inl e) \<Rightarrow> (s', w', Inl e)
      | (s', w', Inr _) \<Rightarrow> (case expand_blocks_inner env rv bs s' of (s'', r) \<Rightarrow> (s'', w', r)))"

text \<open>The parsed document with the day to compile.\<close>

definition day_document :: "string \<Rightarrow> yval \<Rightarrow> yval res" where
  "day_document day dsl = bind_res (dict_items dsl) (\<lambda>kvs. Inr (YDict (dput kvs ''broadcast_day'' (YStr day))))"

definition hydrate_schedule ::
  "dsl_env \<Rightarrow> string \<Rightarrow> string \<Rightarrow> program_schedule \<Rightarrow> dsl_service \<Rightarrow> dsl_world \<Rightarrow>
    dsl_service \<times> dsl_world \<times> scheduled_block list res" where
  "hydrate_schedule env channel day sch s w =
     (case cs_segmented sch of
        Some (b # bs) \<Rightarrow> (s, w, map_res deserialize_scheduled_block (b # bs))
      | _ \<Rightarrow>
          (case bind_res (dw_file w) (\<lambda>(text, dsl). bind_res (day_document day dsl) (\<lambda>doc. Inr (text, doc))) of
             Inl e \<Rightarrow> (s, w, Inl e)
           | Inr (text, doc) \<Rightarrow>
               (case get_resolver s w of
                  (s, w, Inl e) \<Rightarrow> (s, w, Inl e)
                | (s, w, Inr rv) \<Rightarrow>
                    (case register_dsl_pools doc rv of
                       Inl e \<Rightarrow> (s, w, Inl e)
                     | Inr rv \<Rightarrow>
                         (case expand_schedule env rv (cp_blocks sch) (s\<lparr>dv_resolver := Some rv\<rparr>) w of
                            (s, w, Inl e) \<Rightarrow> (s, w, Inl e)
                          | (s, w, Inr blocks) \<Rightarrow>
                              (s, save_compiled_schedule channel day
                                    (sch\<lparr>cs_segmented := Some (map serialize_scheduled_block blocks)\<rparr>) (hash_dsl text) w,
                               Inr blocks))))))"

definition compile_and_save ::
  "dsl_env \<Rightarrow> string \<Rightarrow> string \<Rightarrow> string \<Rightarrow> yval \<Rightarrow> counters \<Rightarrow> resolver \<Rightarrow> dsl_service \<Rightarrow> dsl_world \<Rightarrow>
    scheduled_block list step" where
  "compile_and_save env channel day text doc cs rv s w =
     (case compile_schedule (de_compiler env) (dv_dsl_path s) ''0000000'' (Some (channel_seed channel)) cs doc rv of
        None \<Rightarrow> None
      | Some r \<Rightarrow>
          (let rv = (case register_dsl_pools doc rv of Inl _ \<Rightarrow> rv | Inr rv \<Rightarrow> rv);
               s = s\<lparr>dv_resolver := Some rv\<rparr>
           in (case r of
                 Inl e \<Rightarrow> Some (s, w, Inl e)
               | Inr p \<Rightarrow>
                   (case expand_schedule env rv (cp_blocks p) s w of
                      (s, w, Inl e) \<Rightarrow> Some (s, w, Inl e)
                    | (s, w, Inr blocks) \<Rightarrow>
                        Some (s, save_compiled_schedule channel day (schedule_of_plan p (Some blocks)) (hash_dsl text) w,
                              Inr blocks)))))"

definition compile_day :: "dsl_env \<Rightarrow> string \<Rightarrow> string \<Rightarrow> dsl_service \<Rightarrow> dsl_world \<Rightarrow> scheduled_block list step" where
  "compile_day env channel day s w =
     (case get_cached_schedule channel day w of
        (w, Some sch) \<Rightarrow> Some (hydrate_schedule env channel day sch s w)
      | (w, None) \<Rightarrow>
          (case bind_res (dw_file w) (\<lambda>(text, dsl). bind_res (day_document day dsl) (\<lambda>doc. Inr (text, doc))) of
             Inl e \<Rightarrow> Some (s, w, Inl e)
           | Inr (text, doc) \<Rightarrow>
               (case get_resolver s w of
                  (s, w, Inl e) \<Rightarrow> Some (s, w, Inl e)
                | (s, w, Inr rv) \<Rightarrow>
                    (case starting_counters doc day of
                       Inl e \<Rightarrow> Some (s, w, Inl e)
                     | Inr cs \<Rightarrow> compile_and_save env channel day text doc cs rv s w))))"

section \<open>The horizon\<close>

definition prune_old_blocks :: "ms \<Rightarrow> dsl_service \<Rightarrow> dsl_service" where
  "prune_old_blocks now_ms s =
     s\<lparr>dv_blocks := filter (\<lambda>b. now_ms - 24 * 3600 * 1000 < sb_end b) (dv_blocks s)\<rparr>"

definition purge_expired_tier1 :: "ms \<Rightarrow> dsl_service \<Rightarrow> dsl_world \<Rightarrow> dsl_service \<times> dsl_world \<times> nat" where
  "purge_expired_tier1 now_arg s w =
     (let now_ms = (if now_arg = 0 then to_epoch_ms (dw_now w) else now_arg)
      in if now_ms - dv_last_purge s < 3600000 then (s, w, 0)
         else (case dsl_db w of
                 (w', False) \<Rightarrow> (s, w', 0)
               | (w', True) \<Rightarrow>
                   (let old = (\<lambda>r. cl_day r < dw_today w - 1)
                    in (s\<lparr>dv_last_purge := now_ms\<rparr>,
                        map_tiers (\<lambda>t. t\<lparr>tr_tier1 := filter (\<lambda>r. \<not> old r) (tr_tier1 t)\<rparr>) w',
                        length (filter old (tr_tier1 (dw_tiers w')))))))"

text \<open>The day to compile next: the UTC day on which the last block ends, or the day after.\<close>

definition next_day :: "dsl_service \<Rightarrow> ms \<Rightarrow> string option" where
  "next_day s last_end =
     (let d = date_of (from_epoch_ms last_end)
      in if iso_date d \<notin> set (dv_compiled_days s) then Some (iso_date d)
         else if iso_date (d + 1) \<notin> set (dv_compiled_days s) then Some (iso_date (d + 1)) else None)"

definition add_day :: "string \<Rightarrow> scheduled_block list \<Rightarrow> dsl_service \<Rightarrow> dsl_service" where
  "add_day day new s =
     (if new = [] then s
      else s\<lparr>dv_blocks := sort_key sb_start (dv_blocks s @ new), dv_compiled_days := day # dv_compiled_days s\<rparr>)"

definition extend_day :: "dsl_env \<Rightarrow> string \<Rightarrow> ms \<Rightarrow> string \<Rightarrow> dsl_service \<Rightarrow> dsl_world \<Rightarrow> (dsl_service \<times> dsl_world) option" where
  "extend_day env channel now_ms day s w =
     (case compile_day env channel day s w of
        None \<Rightarrow> None
      | Some (s, w, Inl e) \<Rightarrow> Some (s, w)
      | Some (s, w, Inr new) \<Rightarrow>
          (case purge_expired_tier1 now_ms (prune_old_blocks now_ms (add_day day new s)) w of (s, w, _) \<Rightarrow> Some (s, w)))"

definition maybe_extend_horizon :: "dsl_env \<Rightarrow> string \<Rightarrow> ms \<Rightarrow> dsl_service \<Rightarrow> dsl_world \<Rightarrow> (dsl_service \<times> dsl_world) option" where
  "maybe_extend_horizon env channel now_ms s w =
     (if dv_extending s \<or> dv_blocks s = [] then Some (s, w)
      else let last_end = sb_end (last (dv_blocks s))
           in if RECOMPILE_THRESHOLD_HOURS * 3600 * 1000 < last_end - now_ms then Some (s, w)
              else (case next_day s last_end of
                      None \<Rightarrow> Some (s, w)
                    | Some day \<Rightarrow>
                        map_option (\<lambda>(s, w). (s\<lparr>dv_extending := False\<rparr>, w))
                          (extend_day env channel now_ms day (s\<lparr>dv_extending := True\<rparr>) w)))"

section \<open>Loading\<close>

text \<open>Day after day; a day that fails is left out.\<close>

fun build_days ::
  "dsl_env \<Rightarrow> string \<Rightarrow> date list \<Rightarrow> dsl_service \<Rightarrow> dsl_world \<Rightarrow> (dsl_service \<times> dsl_world \<times> scheduled_block list) option" where
  "build_days env channel [] s w = Some (s, w, [])"
| "build_days env channel (d # ds) s w =
     (case compile_day env channel (iso_date d) s w of
        None \<Rightarrow> None
      | Some (s, w, r) \<Rightarrow>
          (case build_days env channel ds
                  (case r of Inl _ \<Rightarrow> s | Inr _ \<Rightarrow> s\<lparr>dv_compiled_days := iso_date d # dv_compiled_days s\<rparr>) w of
             None \<Rightarrow> None
           | Some (s, w, bs) \<Rightarrow> Some (s, w, (case r of Inl _ \<Rightarrow> bs | Inr new \<Rightarrow> new @ bs))))"

text \<open>The zone of the document; one that is unknown counts as UTC.\<close>

definition channel_zone :: "dsl_env \<Rightarrow> yval \<Rightarrow> (datetime \<Rightarrow> datetime) res" where
  "channel_zone env dsl =
     bind_res (dget dsl ''timezone'' (YStr ''UTC'')) (\<lambda>tz.
       Inr (case tz of
              YStr z \<Rightarrow> (case de_zone env z of Inr f \<Rightarrow> f | Inl _ \<Rightarrow> (\<lambda>t. t))
            | _ \<Rightarrow> (\<lambda>t. t)))"

definition programming_date :: "dsl_service \<Rightarrow> datetime \<Rightarrow> date" where
  "programming_date s local_dt =
     (if hour_of (time_of local_dt) < dv_day_start s then date_of (local_dt - us_per_day) else date_of local_dt)"

definition start_date :: "dsl_env \<Rightarrow> dsl_service \<Rightarrow> dsl_world \<Rightarrow> (dsl_service \<times> date) res" where
  "start_date env s w =
     (case dv_override s of
        Some (c # cs) \<Rightarrow>
          (case from_iso_date (c # cs) of None \<Rightarrow> Inl (ValueError ''isoformat'') | Some d \<Rightarrow> Inr (s, d))
      | _ \<Rightarrow>
          bind_res (dw_file w) (\<lambda>(_, dsl).
          bind_res (channel_zone env dsl) (\<lambda>tz.
            Inr (s\<lparr>dv_tz := Some tz\<rparr>, programming_date s (tz (dw_now w))))))"

definition build_initial :: "dsl_env \<Rightarrow> string \<Rightarrow> dsl_service \<Rightarrow> dsl_world \<Rightarrow> unit step" where
  "build_initial env channel s w =
     (if dv_blocks s \<noteq> [] then Some (s, w, Inr ())
      else (case start_date env s w of
              Inl e \<Rightarrow> Some (s, w, Inl e)
            | Inr (s, d) \<Rightarrow>
                (case build_days env channel (map (\<lambda>i. d + int i) [0..<HORIZON_DAYS]) s w of
                   None \<Rightarrow> None
                 | Some (s, w, bs) \<Rightarrow> Some (s\<lparr>dv_blocks := sort_key sb_start bs\<rparr>, w, Inr ()))))"

definition dsl_load_schedule :: "dsl_env \<Rightarrow> string \<Rightarrow> dsl_service \<Rightarrow> dsl_world \<Rightarrow> (dsl_service \<times> dsl_world \<times> bool) option" where
  "dsl_load_schedule env channel s w =
     (case build_initial env channel s w of
        None \<Rightarrow> None
      | Some (s, w, r) \<Rightarrow> Some (s, w, (case r of Inl _ \<Rightarrow> False | Inr _ \<Rightarrow> True)))"

section \<open>Serving\<close>

definition find_in_memory_block :: "ms \<Rightarrow> dsl_service \<Rightarrow> scheduled_block option" where
  "find_in_memory_block t s = find (\<lambda>b. sb_start b \<le> t \<and> t < sb_end b) (dv_blocks s)"

definition filled_row :: "string \<Rightarrow> dsl_world \<Rightarrow> tx_row option" where
  "filled_row i w = find (\<lambda>r. tx_block r = i) (tr_tier2 (dw_tiers w))"

definition get_filled_block_by_id :: "string \<Rightarrow> dsl_world \<Rightarrow> dsl_world \<times> scheduled_block option" where
  "get_filled_block_by_id i w =
     (case dsl_db w of (w', ok) \<Rightarrow> (w', if ok then map_option read_tx_row (filled_row i w') else None))"

text \<open>Spots for a block; without a library the static filler takes every break.\<close>

definition fill_missing_block ::
  "string \<Rightarrow> dsl_service \<Rightarrow> scheduled_block \<Rightarrow> dsl_world \<Rightarrow> (dsl_world \<times> scheduled_block res) option" where
  "fill_missing_block channel s block w =
     (case dsl_db w of
        (w', True) \<Rightarrow>
          map_option (\<lambda>(t, r). (w'\<lparr>dw_tiers := t\<rparr>, r))
            (fill_with_spots channel (dv_filler_path s) (dv_filler_ms s) block (dw_tiers w'))
      | (w', False) \<Rightarrow>
          map_option (\<lambda>(t, r). (map_tiers (\<lambda>x. x\<lparr>tr_traffic := t\<rparr>) w', r))
            (fill_ad_blocks None (dv_filler_path s) (dv_filler_ms s) (tr_traffic (dw_tiers w')) block))"

definition service_date :: "dsl_service \<Rightarrow> scheduled_block \<Rightarrow> date" where
  "service_date s block =
     programming_date s ((case dv_tz s of None \<Rightarrow> (\<lambda>t. t) | Some f \<Rightarrow> f) (from_epoch_ms (sb_start block)))"

definition persist_filled :: "string \<Rightarrow> dsl_service \<Rightarrow> scheduled_block \<Rightarrow> scheduled_block \<Rightarrow> dsl_world \<Rightarrow> dsl_world" where
  "persist_filled channel s block filled w =
     (case dsl_db w of
        (w', False) \<Rightarrow> w'
      | (w', True) \<Rightarrow>
          map_tiers (\<lambda>t. t\<lparr>tr_tier2 := tx_merge (tx_row_of service_segment channel (service_date s block) filled) (tr_tier2 t)\<rparr>) w')"

definition ensure_block_compiled ::
  "string \<Rightarrow> scheduled_block \<Rightarrow> dsl_service \<Rightarrow> dsl_world \<Rightarrow> (dsl_world \<times> scheduled_block res) option" where
  "ensure_block_compiled channel block s w =
     (case get_filled_block_by_id (sb_id block) w of
        (w, Some filled) \<Rightarrow> Some (w, Inr filled)
      | (w, None) \<Rightarrow>
          (case fill_missing_block channel s block w of
             None \<Rightarrow> None
           | Some (w, Inl e) \<Rightarrow> Some (w, Inl e)
           | Some (w, Inr filled) \<Rightarrow> Some (persist_filled channel s block filled w, Inr filled)))"

definition dsl_block_at ::
  "dsl_env \<Rightarrow> string \<Rightarrow> ms \<Rightarrow> dsl_service \<Rightarrow> dsl_world \<Rightarrow> scheduled_block option step" where
  "dsl_block_at env channel t s w =
     (case maybe_extend_horizon env channel t s w of
        None \<Rightarrow> None
      | Some (s, w) \<Rightarrow>
          (case find_in_memory_block t s of
             None \<Rightarrow> Some (s, w, Inr None)
           | Some block \<Rightarrow>
               (case get_filled_block_by_id (sb_id block) w of
                  (w, Some filled) \<Rightarrow> Some (s, w, Inr (Some filled))
                | (w, None) \<Rightarrow>
                    map_option (\<lambda>(w, r). (s, w, map_sum id Some r)) (ensure_block_compiled channel block s w))))"

record playout_entry =
  pe_path :: string
  pe_start_pts :: ms
  pe_type :: string
  pe_start :: string
  pe_end :: string
  pe_seconds :: rat
  pe_frames :: int

fun plan_segments :: "ms \<Rightarrow> ms \<Rightarrow> scheduled_segment list \<Rightarrow> playout_entry list" where
  "plan_segments now_ms cursor [] = []"
| "plan_segments now_ms cursor (seg # segs) =
     (let seg_end = cursor + sg_duration seg; rest = plan_segments now_ms seg_end segs
      in if sg_type seg = ''pad'' \<or> seg_end \<le> now_ms then rest
         else \<lparr>pe_path = sg_uri seg,
               pe_start_pts = (if cursor < now_ms then sg_offset seg + (now_ms - cursor) else sg_offset seg),
               pe_type = sg_type seg, pe_start = iso_datetime (from_epoch_ms cursor),
               pe_end = iso_datetime (from_epoch_ms seg_end),
               pe_seconds = fl (of_int (sg_duration seg) / 1000),
               pe_frames = py_trunc (fl (fl (of_int (sg_duration seg) / 1000) * 30))\<rparr> # rest)"

definition dsl_playout_plan_now ::
  "dsl_env \<Rightarrow> string \<Rightarrow> datetime \<Rightarrow> dsl_service \<Rightarrow> dsl_world \<Rightarrow> playout_entry list step" where
  "dsl_playout_plan_now env channel station_time s w =
     (let t = to_epoch_ms station_time
      in case dsl_block_at env channel t s w of
           None \<Rightarrow> None
         | Some (s, w, r) \<Rightarrow>
             Some (s, w, map_sum id (\<lambda>b. case b of None \<Rightarrow> []
                                         | Some block \<Rightarrow> plan_segments t (sb_start block) (sb_segments block)) r))"

section \<open>The programme guide\<close>

text \<open>The blocks of the rows, each slot and asset once.\<close>

definition epg_key :: "program_block_out \<Rightarrow> datetime \<times> int \<times> yval" where
  "epg_key b = (gb_start b, gb_slot b, gb_asset b)"

fun new_blocks :: "program_block_out list \<Rightarrow> (datetime \<times> int \<times> yval) list \<Rightarrow> program_block_out list" where
  "new_blocks [] seen = []"
| "new_blocks (b # bs) seen = (if epg_key b \<in> set seen then new_blocks bs seen else b # new_blocks bs (epg_key b # seen))"

fun visible_blocks :: "datetime \<Rightarrow> datetime \<Rightarrow> program_block_out list \<Rightarrow> program_block_out list" where
  "visible_blocks from_time to_time [] = []"
| "visible_blocks from_time to_time (b # bs) =
     (if end_at b \<le> from_time then visible_blocks from_time to_time bs
      else if to_time \<le> gb_start b then []
      else b # visible_blocks from_time to_time bs)"

definition overlapping_rows :: "string \<Rightarrow> datetime \<Rightarrow> datetime \<Rightarrow> compiled_row list \<Rightarrow> compiled_row list" where
  "overlapping_rows channel from_time to_time rows =
     filter (\<lambda>r. cl_channel r = channel \<and> cl_locked r
               \<and> (case cl_range_start r of None \<Rightarrow> False | Some a \<Rightarrow> a < to_time)
               \<and> (case cl_range_end r of None \<Rightarrow> False | Some b \<Rightarrow> from_time < b)) rows"

definition get_canonical_epg ::
  "string \<Rightarrow> datetime \<Rightarrow> datetime \<Rightarrow> dsl_world \<Rightarrow> dsl_world \<times> program_block_out list option" where
  "get_canonical_epg channel from_time to_time w =
     (case dsl_db w of
        (w', False) \<Rightarrow> (w', None)
      | (w', True) \<Rightarrow>
          (let rows = overlapping_rows channel from_time to_time (tr_tier1 (dw_tiers w'));
               all = sort_key gb_start (new_blocks (concat (map (\<lambda>r. cp_blocks (cl_json r)) rows)) []);
               visible = visible_blocks from_time to_time all
           in (w', if visible = [] then None else Some visible)))"

end
