(* ===== verification/Served_Blocks.thy ===== *)
theory Served_Blocks
  imports Dsl_Service
begin

text \<open>
  What holds of the blocks \<open>Dsl_Service\<close> serves.  Compilation leaves the blocks in memory and tier 2 alone;
  the block served for an instant is the filled version of the block in memory that holds it; a filled
  block and a compiled day are found again; the guide lists what overlaps its window.  And where the
  horizon ends: a service that nobody asked for a day loses all its blocks and stays dark, and layers
  of the week that are counted twice make days repeat their episodes.
\<close>

section \<open>What compilation leaves alone\<close>

definition keeps_blocks :: "dsl_service \<Rightarrow> dsl_world \<Rightarrow> dsl_service \<Rightarrow> dsl_world \<Rightarrow> bool" where
  "keeps_blocks s w s' w' \<longleftrightarrow>
     dv_blocks s' = dv_blocks s \<and> dv_extending s' = dv_extending s \<and> dv_compiled_days s' = dv_compiled_days s
     \<and> dv_last_purge s' = dv_last_purge s
     \<and> tr_tier2 (dw_tiers w') = tr_tier2 (dw_tiers w) \<and> tr_fault (dw_tiers w') = tr_fault (dw_tiers w)"

lemma keeps_refl [simp]: "keeps_blocks s w s w"
  by (simp add: keeps_blocks_def)

lemma keeps_trans: "keeps_blocks s w s1 w1 \<Longrightarrow> keeps_blocks s1 w1 s2 w2 \<Longrightarrow> keeps_blocks s w s2 w2"
  by (simp add: keeps_blocks_def)

lemma dsl_db_frame:
  "dsl_db w = (w', ok) \<Longrightarrow> keeps_blocks s w s w' \<and> tr_tier1 (dw_tiers w') = tr_tier1 (dw_tiers w) \<and> dw_file w' = dw_file w"
  by (auto simp: dsl_db_def db_try_def keeps_blocks_def)

lemma dsl_db_ok:
  "tr_fault (dw_tiers w) = (\<lambda>_. False) \<Longrightarrow>
    dsl_db w = (w\<lparr>dw_tiers := (dw_tiers w)\<lparr>tr_calls := Suc (tr_calls (dw_tiers w))\<rparr>\<rparr>, True)"
  by (simp add: dsl_db_def db_try_def)

lemma get_resolver_frame: "get_resolver s w = (s', w', r) \<Longrightarrow> keeps_blocks s w s' w'"
  by (auto simp: get_resolver_def rebuild_resolver_def keeps_blocks_def dsl_db_def db_try_def
      split: option.splits if_splits sum.splits bool.splits prod.splits)

lemma expand_blocks_frame: "expand_blocks_inner env rv bs s = (s', r) \<Longrightarrow> keeps_blocks s w s' w"
proof (induction bs arbitrary: s s' r)
  case (Cons b bs)
  obtain s1 r1 where 1: "expand_block env rv b s = (s1, r1)" by (cases "expand_block env rv b s")
  then have k: "keeps_blocks s w s1 w"
    by (auto simp: expand_block_def enqueue_loudness_measurement_def keeps_blocks_def Let_def split: sum.splits if_splits)
  show ?case
  proof (cases r1)
    case (Inr x)
    obtain s2 r2 where 2: "expand_blocks_inner env rv bs s1 = (s2, r2)" by (cases "expand_blocks_inner env rv bs s1")
    then show ?thesis using Cons.prems 1 Inr k keeps_trans [OF k Cons.IH [OF 2]] by (auto split: sum.splits)
  qed (use Cons.prems 1 k in auto)
qed simp

lemma expand_schedule_frame: "expand_schedule env rv bs s w = (s', w', r) \<Longrightarrow> keeps_blocks s w s' w'"
proof -
  assume e: "expand_schedule env rv bs s w = (s', w', r)"
  obtain s1 w1 r1 where 1: "resolve_uris rv bs s w = (s1, w1, r1)" by (cases "resolve_uris rv bs s w")
  then have k: "keeps_blocks s w s1 w1"
    by (auto simp: resolve_uris_def dsl_db_def db_try_def keeps_blocks_def split: bool.splits prod.splits)
  show ?thesis
  proof (cases r1)
    case (Inr u)
    obtain s2 r2 where 2: "expand_blocks_inner env rv bs s1 = (s2, r2)" by (cases "expand_blocks_inner env rv bs s1")
    from keeps_trans [OF k expand_blocks_frame [OF 2]] show ?thesis using e 1 2 Inr by (simp add: expand_schedule_def)
  qed (use e 1 k in \<open>simp add: expand_schedule_def\<close>)
qed

lemma save_frame: "keeps_blocks s w s (save_compiled_schedule channel day sch h w)"
  by (auto simp: save_compiled_schedule_def map_tiers_def dsl_db_def db_try_def keeps_blocks_def
      split: option.splits bool.splits)

lemma cached_frame: "get_cached_schedule channel day w = (w', r) \<Longrightarrow> keeps_blocks s w s w'"
  by (auto simp: get_cached_schedule_def dsl_db_def db_try_def keeps_blocks_def split: bool.splits)

lemma resolver_frame [simp]: "keeps_blocks s w (s\<lparr>dv_resolver := x\<rparr>) w"
  by (simp add: keeps_blocks_def)

lemma hydrate_frame: "hydrate_schedule env channel day sch s w = (s', w', r) \<Longrightarrow> keeps_blocks s w s' w'"
  unfolding hydrate_schedule_def
  by (auto split: option.splits list.splits sum.splits prod.splits
      dest!: get_resolver_frame expand_schedule_frame
      intro: keeps_trans [OF _ resolver_frame] keeps_trans [OF keeps_trans [OF _ resolver_frame]]
        keeps_trans [OF keeps_trans [OF keeps_trans [OF _ resolver_frame]] save_frame])
lemma compile_and_save_frame:
  "compile_and_save env channel day text doc cs rv s w = Some (s', w', r) \<Longrightarrow> keeps_blocks s w s' w'"
  unfolding compile_and_save_def Let_def
  by (auto split: option.splits sum.splits prod.splits dest!: expand_schedule_frame
      intro: keeps_trans [OF resolver_frame] keeps_trans [OF keeps_trans [OF resolver_frame] save_frame])

lemma compile_day_frame:
  assumes "compile_day env channel day s w = Some (s', w', r)"
  shows "keeps_blocks s w s' w'"
proof -
  obtain w1 c where 1: "get_cached_schedule channel day w = (w1, c)" by (cases "get_cached_schedule channel day w")
  note k1 = cached_frame [OF 1, of s]
  show ?thesis
  proof (cases c)
    case (Some sch)
    then have "hydrate_schedule env channel day sch s w1 = (s', w', r)" using assms 1 by (simp add: compile_day_def)
    from keeps_trans [OF k1 hydrate_frame [OF this]] show ?thesis .
  next
    case None
    show ?thesis
    proof (cases "bind_res (dw_file w1) (\<lambda>(text, dsl). bind_res (day_document day dsl) (\<lambda>doc. Inr (text, doc)))")
      case (Inl e)
      then show ?thesis using assms 1 None k1 by (simp add: compile_day_def)
    next
      case (Inr td)
      obtain src doc where td: "td = (src, doc)" by (cases td)
      obtain s2 w2 r2 where 2: "get_resolver s w1 = (s2, w2, r2)" by (cases "get_resolver s w1")
      note k2 = keeps_trans [OF k1 get_resolver_frame [OF 2]]
      show ?thesis
        using assms 1 None Inr td 2 k2
        by (auto simp: compile_day_def split: sum.splits dest!: compile_and_save_frame intro: keeps_trans)
    qed
  qed
qed

section \<open>The horizon\<close>

text \<open>What an extension leaves: the blocks of before and those of the new day, sorted, without the old ones.\<close>

lemma purge_frame:
  "purge_expired_tier1 t s w = (s', w', n) \<Longrightarrow>
    dv_blocks s' = dv_blocks s \<and> dv_extending s' = dv_extending s \<and> dv_compiled_days s' = dv_compiled_days s
    \<and> tr_tier2 (dw_tiers w') = tr_tier2 (dw_tiers w) \<and> tr_fault (dw_tiers w') = tr_fault (dw_tiers w)"
  by (auto simp: purge_expired_tier1_def Let_def dsl_db_def db_try_def map_tiers_def split: if_splits bool.splits)

lemma extend_day_result:
  assumes "extend_day env channel t day s w = Some (s', w')"
  shows "dv_extending s' = dv_extending s" "tr_tier2 (dw_tiers w') = tr_tier2 (dw_tiers w)"
    and "tr_fault (dw_tiers w') = tr_fault (dw_tiers w)"
    and "dv_blocks s' = dv_blocks s \<and> dv_compiled_days s' = dv_compiled_days s
      \<or> (\<exists>s1 w1 new. compile_day env channel day s w = Some (s1, w1, Inr new)
          \<and> dv_blocks s' = filter (\<lambda>b. t - 24 * 3600 * 1000 < sb_end b)
              (if new = [] then dv_blocks s else sort_key sb_start (dv_blocks s @ new))
          \<and> dv_compiled_days s' = (if new = [] then dv_compiled_days s else day # dv_compiled_days s))"
proof -
  obtain s1 w1 r where c: "compile_day env channel day s w = Some (s1, w1, r)"
    using assms by (auto simp: extend_day_def split: option.splits)
  note k = compile_day_frame [OF c]
  have all: "dv_extending s' = dv_extending s \<and> tr_tier2 (dw_tiers w') = tr_tier2 (dw_tiers w)
    \<and> tr_fault (dw_tiers w') = tr_fault (dw_tiers w)
    \<and> (dv_blocks s' = dv_blocks s \<and> dv_compiled_days s' = dv_compiled_days s
      \<or> (\<exists>s1 w1 new. compile_day env channel day s w = Some (s1, w1, Inr new)
          \<and> dv_blocks s' = filter (\<lambda>b. t - 24 * 3600 * 1000 < sb_end b)
              (if new = [] then dv_blocks s else sort_key sb_start (dv_blocks s @ new))
          \<and> dv_compiled_days s' = (if new = [] then dv_compiled_days s else day # dv_compiled_days s)))"
  proof (cases r)
    case (Inl e)
    then show ?thesis using assms c k by (simp add: extend_day_def keeps_blocks_def)
  next
    case (Inr new)
    obtain n where p: "purge_expired_tier1 t (prune_old_blocks t (add_day day new s1)) w1 = (s', w', n)"
      using assms c Inr by (auto simp: extend_day_def split: prod.splits)
    show ?thesis using purge_frame [OF p] k c Inr
      by (simp add: prune_old_blocks_def add_day_def keeps_blocks_def)
  qed
  from all show "dv_extending s' = dv_extending s" "tr_tier2 (dw_tiers w') = tr_tier2 (dw_tiers w)"
    "tr_fault (dw_tiers w') = tr_fault (dw_tiers w)"
    "dv_blocks s' = dv_blocks s \<and> dv_compiled_days s' = dv_compiled_days s
      \<or> (\<exists>s1 w1 new. compile_day env channel day s w = Some (s1, w1, Inr new)
          \<and> dv_blocks s' = filter (\<lambda>b. t - 24 * 3600 * 1000 < sb_end b)
              (if new = [] then dv_blocks s else sort_key sb_start (dv_blocks s @ new))
          \<and> dv_compiled_days s' = (if new = [] then dv_compiled_days s else day # dv_compiled_days s))"
    by blast+
qed

lemma maybe_extend_tier2:
  assumes "maybe_extend_horizon env channel t s w = Some (s', w')"
  shows "tr_tier2 (dw_tiers w') = tr_tier2 (dw_tiers w) \<and> tr_fault (dw_tiers w') = tr_fault (dw_tiers w)"
proof -
  have "w' = w \<or> (\<exists>day s0 s1. extend_day env channel t day s0 w = Some (s1, w'))"
    using assms by (auto simp: maybe_extend_horizon_def Let_def split: if_splits option.splits)
  then show ?thesis using extend_day_result(2,3) by blast
qed

section \<open>Filling\<close>

lemma map_sum_Inr_iff: "map_sum f g r = Inr y \<longleftrightarrow> (\<exists>z. r = Inr z \<and> y = g z)"
  by (cases r) auto

lemma fill_ad_blocks_keeps: "fill_ad_blocks lib uri fms x block = Some (x', Inr b) \<Longrightarrow>
    sb_id b = sb_id block \<and> sb_start b = sb_start block \<and> sb_end b = sb_end block"
  by (auto simp: fill_ad_blocks_def map_sum_Inr_iff split: if_splits)

lemma fill_missing_keeps:
  assumes "fill_missing_block channel s block w = Some (w', Inr b)"
  shows "sb_id b = sb_id block \<and> sb_start b = sb_start block \<and> sb_end b = sb_end block"
  using assms
  by (auto simp: fill_missing_block_def fill_with_spots_def split: prod.splits bool.splits dest!: fill_ad_blocks_keeps)

lemma fill_missing_frame:
  assumes "fill_missing_block channel s block w = Some (w', r)"
  shows "tr_tier2 (dw_tiers w') = tr_tier2 (dw_tiers w)" "tr_fault (dw_tiers w') = tr_fault (dw_tiers w)"
  using assms
  by (auto simp: fill_missing_block_def fill_with_spots_def dsl_db_def db_try_def map_tiers_def
      split: prod.splits bool.splits)

lemma find_in_memory_holds:
  "find_in_memory_block t s = Some b \<Longrightarrow> b \<in> set (dv_blocks s) \<and> sb_start b \<le> t \<and> t < sb_end b"
  by (auto simp: find_in_memory_block_def find_Some_iff)

lemma filled_by_id:
  assumes "get_filled_block_by_id i w = (w', Some b)"
  shows "\<exists>r \<in> set (tr_tier2 (dw_tiers w)). tx_block r = i \<and> b = read_tx_row r"
  using assms
  by (auto simp: get_filled_block_by_id_def filled_row_def dsl_db_def db_try_def find_Some_iff split: if_splits prod.splits)

lemma filled_frame:
  "get_filled_block_by_id i w = (w', r) \<Longrightarrow>
    tr_tier2 (dw_tiers w') = tr_tier2 (dw_tiers w) \<and> tr_fault (dw_tiers w') = tr_fault (dw_tiers w)"
  by (auto simp: get_filled_block_by_id_def dsl_db_def db_try_def split: prod.splits)

text \<open>Rows with the name of a block in memory are rows of that block.\<close>

definition rows_agree :: "dsl_service \<Rightarrow> dsl_world \<Rightarrow> bool" where
  "rows_agree s w \<longleftrightarrow>
     (\<forall>b \<in> set (dv_blocks s). \<forall>r \<in> set (tr_tier2 (dw_tiers w)). tx_block r = sb_id b \<longrightarrow>
        tx_start r = sb_start b \<and> tx_end r = sb_end b)"

lemma ensure_keeps_times:
  assumes e: "ensure_block_compiled channel block s w = Some (w', Inr b)"
    and rows: "\<forall>r \<in> set (tr_tier2 (dw_tiers w)). tx_block r = sb_id block \<longrightarrow> tx_start r = sb_start block \<and> tx_end r = sb_end block"
  shows "sb_id b = sb_id block \<and> sb_start b = sb_start block \<and> sb_end b = sb_end block"
proof -
  obtain w1 f where 1: "get_filled_block_by_id (sb_id block) w = (w1, f)" by (cases "get_filled_block_by_id (sb_id block) w")
  show ?thesis
  proof (cases f)
    case (Some x)
    then show ?thesis using e 1 filled_by_id [of "sb_id block" w w1 x] rows
      by (auto simp: ensure_block_compiled_def read_tx_row_def)
  next
    case None
    then show ?thesis using e 1
      by (auto simp: ensure_block_compiled_def split: option.splits sum.splits dest!: fill_missing_keeps)
  qed
qed

text \<open>
  C5. The block served for an instant is the filled version of a block in memory that holds the instant:
  it has its name and its times, provided the rows of tier 2 that carry the name of a block in memory
  have its times.
\<close>

theorem served_block_holds_instant:
  assumes "dsl_block_at env channel t s w = Some (s', w', Inr (Some b))"
    and "rows_agree s' w"
  shows "sb_start b \<le> t \<and> t < sb_end b
    \<and> (\<exists>x \<in> set (dv_blocks s'). sb_id x = sb_id b \<and> sb_start x = sb_start b \<and> sb_end x = sb_end b)"
proof -
  obtain w1 where 1: "maybe_extend_horizon env channel t s w = Some (s', w1)"
    using assms(1) by (auto simp: dsl_block_at_def split: option.splits prod.splits)
  note t2 = maybe_extend_tier2 [OF 1]
  obtain x where x: "find_in_memory_block t s' = Some x"
    using assms(1) 1 by (auto simp: dsl_block_at_def split: option.splits)
  note h = find_in_memory_holds [OF x]
  have rows: "\<forall>r \<in> set (tr_tier2 (dw_tiers w1)). tx_block r = sb_id x \<longrightarrow> tx_start r = sb_start x \<and> tx_end r = sb_end x"
    using assms(2) h t2 by (auto simp: rows_agree_def)
  obtain w2 f where 2: "get_filled_block_by_id (sb_id x) w1 = (w2, f)" by (cases "get_filled_block_by_id (sb_id x) w1")
  have "sb_id b = sb_id x \<and> sb_start b = sb_start x \<and> sb_end b = sb_end x"
  proof (cases f)
    case (Some y)
    then show ?thesis using assms(1) 1 x 2 filled_by_id [of "sb_id x" w1 w2 y] rows
      by (auto simp: dsl_block_at_def read_tx_row_def)
  next
    case None
    then obtain w3 where "ensure_block_compiled channel x s' w2 = Some (w3, Inr b)"
      using assms(1) 1 x 2 by (auto simp: dsl_block_at_def map_sum_Inr_iff)
    then show ?thesis using ensure_keeps_times rows filled_frame [OF 2] by metis
  qed
  then show ?thesis using h by metis
qed

section \<open>A small service\<close>

definition demo_content :: "ms \<Rightarrow> scheduled_segment" where
  "demo_content d = plain_segment ''content'' ''/media/show.mp4'' 0 d"

definition demo_served :: "string \<Rightarrow> ms \<Rightarrow> ms \<Rightarrow> scheduled_block" where
  "demo_served i a b = \<lparr>sb_id = i, sb_start = a, sb_end = b, sb_segments = [demo_content (b - a)]\<rparr>"

definition demo_tier_row :: compiled_row where
  "demo_tier_row =
     \<lparr>cl_channel = ''retro'', cl_day = 0, cl_locked = True, cl_hash = [],
      cl_json = \<lparr>cp_channel = YStr ''retro'', cp_day = ''1970-01-01'', cp_timezone = YStr ''UTC'', cp_dsl_path = [],
                 cp_git_commit = [],
                 cp_blocks = [\<lparr>gb_title = YStr ''Show'', gb_asset = YStr ''e1'', gb_start = 1800000000, gb_slot = 34200,
                               gb_episode = 34200, gb_collection = YNone, gb_selector = YNone\<rparr>],
                 cp_notes = YNone, cp_hash = [], cs_compiler = Some COMPILER_VERSION,
                 cs_segmented = Some [serialize_scheduled_block (demo_served ''b2'' 1800000 36000000)]\<rparr>,
      cl_range_start = Some 1800000000, cl_range_end = Some 36000000000\<rparr>"

definition demo_dsl_world :: dsl_world where
  "demo_dsl_world =
     \<lparr>dw_tiers = \<lparr>tr_tier1 = [demo_tier_row], tr_tier2 = [], tr_traffic = demo_traffic, tr_fault = (\<lambda>_. False), tr_calls = 0\<rparr>,
      dw_file = Inl (RuntimeError ''no file''), dw_catalog = Inl (RuntimeError ''no catalogue''), dw_assets = [],
      dw_mappings = [], dw_now = 0, dw_today = 0, dw_mono = 0\<rparr>"

definition demo_dsl_service :: "scheduled_block list \<Rightarrow> dsl_service" where
  "demo_dsl_service bs =
     (new_dsl_service ''/etc/retro.yaml'' ''/media/filler.mp4'' 1800000 None 6 ''network'')\<lparr>dv_blocks := bs\<rparr>"

definition demo_dsl_env :: dsl_env where
  "demo_dsl_env =
     \<lparr>de_compiler = \<lparr>ce_zone = (\<lambda>_. Inl KeyError), ce_entropy = (\<lambda>_. 0), ce_text = (\<lambda>_. [])\<rparr>, de_zone = (\<lambda>_. Inl KeyError)\<rparr>"

lemma demo_content_kind: "\<not> is_placeholder (demo_content d)" "transitions_consistent (demo_content d)"
  by (simp_all add: demo_content_def plain_segment_def is_placeholder_def transitions_consistent_def)

lemma demo_no_fault: "tr_fault (dw_tiers demo_dsl_world) = (\<lambda>_. False)"
  by (simp add: demo_dsl_world_def)

lemma demo_no_rows: "tr_tier2 (dw_tiers demo_dsl_world) = []"
  by (simp add: demo_dsl_world_def)

lemma demo_fill: "fill_ad_blocks lib uri 1800000 x (demo_served i a b) = Some (x, Inr (demo_served i a b))"
  by (simp add: fill_ad_blocks_def demo_served_def fill_segment_def demo_content_kind)

lemma demo_ensured:
  assumes "tr_fault (dw_tiers w) = (\<lambda>_. False)" "tr_tier2 (dw_tiers w) = []"
  shows "\<exists>w'. ensure_block_compiled ''retro'' (demo_served i a b) (demo_dsl_service bs) w
     = Some (w', Inr (demo_served i a b))"
  using assms
  by (simp add: ensure_block_compiled_def get_filled_block_by_id_def dsl_db_ok filled_row_def
      fill_missing_block_def fill_with_spots_def demo_fill demo_dsl_service_def new_dsl_service_def)

definition demo_running :: dsl_service where
  "demo_running = demo_dsl_service [demo_served ''b1'' 0 1800000, demo_served ''b2'' 1800000 36000000]"

lemma demo_no_extension: "maybe_extend_horizon env channel 600000 demo_running w = Some (demo_running, w)"
  by (simp add: maybe_extend_horizon_def demo_running_def demo_dsl_service_def new_dsl_service_def demo_served_def
      RECOMPILE_THRESHOLD_HOURS_def)

lemma demo_found: "find_in_memory_block 600000 demo_running = Some (demo_served ''b1'' 0 1800000)"
  by (simp add: find_in_memory_block_def demo_running_def demo_dsl_service_def new_dsl_service_def demo_served_def)

lemma demo_served_at:
  "\<exists>w'. dsl_block_at demo_dsl_env ''retro'' 600000 demo_running demo_dsl_world
    = Some (demo_running, w', Inr (Some (demo_served ''b1'' 0 1800000)))"
proof -
  let ?w = "fst (dsl_db demo_dsl_world)"
  have db: "tr_fault (dw_tiers ?w) = (\<lambda>_. False)" "tr_tier2 (dw_tiers ?w) = []"
    by (simp_all add: dsl_db_def db_try_def demo_dsl_world_def)
  obtain w' where "ensure_block_compiled ''retro'' (demo_served ''b1'' 0 1800000) demo_running ?w
      = Some (w', Inr (demo_served ''b1'' 0 1800000))" using demo_ensured [OF db] unfolding demo_running_def by blast
  moreover have "get_filled_block_by_id i demo_dsl_world = (?w, None)" for i
    by (simp add: get_filled_block_by_id_def filled_row_def dsl_db_def db_try_def demo_dsl_world_def)
  ultimately show ?thesis by (simp add: dsl_block_at_def demo_no_extension demo_found)
qed

theorem served_block_holds_instant_witness:
  "\<exists>s' w' b. dsl_block_at demo_dsl_env ''retro'' 600000 demo_running demo_dsl_world = Some (s', w', Inr (Some b))
    \<and> sb_start b \<le> 600000 \<and> 600000 < sb_end b"
proof -
  obtain w' where w: "dsl_block_at demo_dsl_env ''retro'' 600000 demo_running demo_dsl_world
      = Some (demo_running, w', Inr (Some (demo_served ''b1'' 0 1800000)))" using demo_served_at by blast
  have "rows_agree demo_running demo_dsl_world" by (simp add: rows_agree_def demo_dsl_world_def)
  from served_block_holds_instant [OF w this] w show ?thesis by blast
qed

section \<open>Filled blocks stay\<close>

text \<open>
  C21. Filling a block is idempotent: without database faults, the block that was returned is in tier 2
  afterwards, a second request returns it unchanged and writes nothing (for blocks whose absent
  transitions have no length, as the expander makes them).
\<close>

theorem filled_block_stays:
  assumes "ensure_block_compiled channel block s w = Some (w', Inr b)"
    and "tr_fault (dw_tiers w) = (\<lambda>_. False)" "\<forall>x \<in> set (sb_segments b). transitions_consistent x"
  shows "\<exists>w''. ensure_block_compiled channel block s w' = Some (w'', Inr b)
    \<and> tr_tier2 (dw_tiers w'') = tr_tier2 (dw_tiers w')"
proof -
  have again: "\<exists>w''. ensure_block_compiled channel block s w' = Some (w'', Inr b)
      \<and> tr_tier2 (dw_tiers w'') = tr_tier2 (dw_tiers w')"
    if "tr_fault (dw_tiers w') = (\<lambda>_. False)" "filled_row (sb_id block) w' = Some r" "read_tx_row r = b" for r
    using that by (simp add: ensure_block_compiled_def get_filled_block_by_id_def dsl_db_ok filled_row_def)
  show ?thesis
  proof (cases "filled_row (sb_id block) w")
    case (Some r)
    have "w' = fst (dsl_db w) \<and> b = read_tx_row r"
      using assms(1,2) Some by (auto simp: ensure_block_compiled_def get_filled_block_by_id_def dsl_db_ok filled_row_def)
    then show ?thesis using again [of r] Some assms(2) by (simp add: dsl_db_ok filled_row_def)
  next
    case None
    let ?w1 = "fst (dsl_db w)"
    obtain w2 where f: "fill_missing_block channel s block ?w1 = Some (w2, Inr b)"
      and w': "w' = persist_filled channel s block b w2"
      using assms(1,2) None
      by (auto simp: ensure_block_compiled_def get_filled_block_by_id_def dsl_db_ok filled_row_def
          split: option.splits sum.splits)
    have fault: "tr_fault (dw_tiers w2) = (\<lambda>_. False)" and rows: "tr_tier2 (dw_tiers w2) = tr_tier2 (dw_tiers w)"
      using fill_missing_frame [OF f] assms(2) by (simp_all add: dsl_db_ok)
    let ?r = "tx_row_of service_segment channel (service_date s block) b"
    have tiers: "tr_tier2 (dw_tiers w') = tx_merge ?r (tr_tier2 (dw_tiers w))" "tr_fault (dw_tiers w') = (\<lambda>_. False)"
      using fault rows by (simp_all add: w' persist_filled_def dsl_db_ok map_tiers_def)
    have name: "tx_block ?r = sb_id block" using fill_missing_keeps [OF f] by (simp add: tx_row_of_def)
    have no: "\<forall>x \<in> set (tr_tier2 (dw_tiers w)). tx_block x \<noteq> sb_id block"
      using None by (auto simp: filled_row_def find_None_iff)
    then have "tx_merge ?r (tr_tier2 (dw_tiers w)) = tr_tier2 (dw_tiers w) @ [?r]" by (auto simp: tx_merge_def name)
    moreover have "find (\<lambda>r. tx_block r = sb_id block) (xs @ [?r]) = Some ?r"
      if "\<forall>x \<in> set xs. tx_block x \<noteq> sb_id block" for xs
      using that by (induction xs) (auto simp: name)
    ultimately have "filled_row (sb_id block) w' = Some ?r" using no tiers by (simp add: filled_row_def)
    from again [OF tiers(2) this read_service_row [OF assms(3)]] show ?thesis .
  qed
qed

theorem filled_block_stays_witness:
  "\<exists>w' w''. ensure_block_compiled ''retro'' (demo_served ''b1'' 0 1800000) (demo_dsl_service []) demo_dsl_world
      = Some (w', Inr (demo_served ''b1'' 0 1800000))
    \<and> ensure_block_compiled ''retro'' (demo_served ''b1'' 0 1800000) (demo_dsl_service []) w'
      = Some (w'', Inr (demo_served ''b1'' 0 1800000))"
proof -
  obtain w' where w: "ensure_block_compiled ''retro'' (demo_served ''b1'' 0 1800000) (demo_dsl_service []) demo_dsl_world
      = Some (w', Inr (demo_served ''b1'' 0 1800000))" using demo_ensured [OF demo_no_fault demo_no_rows] by blast
  have "\<forall>x \<in> set (sb_segments (demo_served ''b1'' 0 1800000)). transitions_consistent x"
    by (simp add: demo_served_def demo_content_kind)
  from filled_block_stays [OF w demo_no_fault this] w show ?thesis by blast
qed

section \<open>Compiled days stay\<close>

lemma find_put_compiled:
  "cl_locked r \<Longrightarrow> find (\<lambda>x. cl_channel x = cl_channel r \<and> cl_day x = cl_day r \<and> cl_locked x) (put_compiled r rows) = Some r"
  by (induction r rows rule: put_compiled.induct) auto

lemma cached_after_save:
  assumes "tr_fault (dw_tiers w) = (\<lambda>_. False)" "from_iso_date day = Some d" "cs_compiler sch = Some COMPILER_VERSION"
  shows "\<exists>w'. get_cached_schedule channel day (save_compiled_schedule channel day sch h w) = (w', Some sch)"
proof -
  have "find (\<lambda>r. cl_channel r = channel \<and> cl_day r = d \<and> cl_locked r)
      (put_compiled (compiled_row_of channel d h sch) rows) = Some (compiled_row_of channel d h sch)" for rows
    using find_put_compiled [of "compiled_row_of channel d h sch" rows] by (simp add: compiled_row_of_def)
  then show ?thesis
    using assms by (simp add: get_cached_schedule_def save_compiled_schedule_def dsl_db_ok map_tiers_def compiled_row_of_def)
qed

text \<open>A schedule with segments that is found in tier 1 is what is served, whatever else the service holds.\<close>

lemma cached_day_served:
  assumes "get_cached_schedule channel day w = (w', Some sch)"
    and "cs_segmented sch = Some (map serialize_scheduled_block bs)" "bs \<noteq> []"
  shows "compile_day env channel day s w = Some (s, w', Inr bs)"
proof -
  obtain b bs' where bs: "bs = b # bs'" using assms(3) by (cases bs) auto
  have "map_res deserialize_scheduled_block (map serialize_scheduled_block (b # bs')) = Inr bs"
    unfolding bs by (rule deserialize_serialize_blocks)
  then show ?thesis using assms(1,2) by (simp add: compile_day_def hydrate_schedule_def bs)
qed

definition cached_in :: "string \<Rightarrow> string \<Rightarrow> compiled_row list \<Rightarrow> program_schedule option" where
  "cached_in channel day rows =
     (case from_iso_date day of
        None \<Rightarrow> None
      | Some d \<Rightarrow>
          (case find (\<lambda>r. cl_channel r = channel \<and> cl_day r = d \<and> cl_locked r) rows of
             None \<Rightarrow> None
           | Some row \<Rightarrow> if cs_compiler (cl_json row) \<noteq> Some COMPILER_VERSION then None else Some (cl_json row)))"

lemma get_cached_eq:
  "get_cached_schedule channel day w =
     (fst (dsl_db w), if snd (dsl_db w) then cached_in channel day (tr_tier1 (dw_tiers w)) else None)"
proof (cases "dsl_db w")
  case (Pair w' ok)
  have "tr_tier1 (dw_tiers w') = tr_tier1 (dw_tiers w)" using dsl_db_frame [OF Pair] by blast
  then show ?thesis by (cases ok; cases "from_iso_date day"; simp add: Pair get_cached_schedule_def cached_in_def)
qed

lemma cached_unchanged:
  assumes "tr_fault (dw_tiers w) = (\<lambda>_. False)" "get_cached_schedule channel day w = (w', c)"
  shows "\<exists>w''. get_cached_schedule channel day w' = (w'', c)" "tr_fault (dw_tiers w') = (\<lambda>_. False)"
  using assms by (auto simp: get_cached_eq dsl_db_ok)

lemma cached_version: "get_cached_schedule channel day w = (w', Some sch) \<Longrightarrow> cs_compiler sch = Some COMPILER_VERSION"
  by (auto simp: get_cached_schedule_def split: bool.splits option.splits if_splits prod.splits)

text \<open>The segments in tier 1 are blocks that were written as they are.\<close>

definition tier1_written :: "dsl_world \<Rightarrow> bool" where
  "tier1_written w \<longleftrightarrow>
     (\<forall>r \<in> set (tr_tier1 (dw_tiers w)). \<forall>rows. cs_segmented (cl_json r) = Some rows \<longrightarrow> (\<exists>bs. rows = map serialize_scheduled_block bs))"

lemma cached_written:
  assumes "get_cached_schedule channel day w = (w', Some sch)" "tier1_written w" "cs_segmented sch = Some rows"
  shows "\<exists>bs. rows = map serialize_scheduled_block bs"
  using assms
  by (auto simp: get_cached_schedule_def tier1_written_def dsl_db_def db_try_def find_Some_iff
      split: bool.splits option.splits if_splits prod.splits)

lemma compiled_day_again:
  assumes "compile_day env channel day s w = Some (s', w', Inr bs)" "bs \<noteq> []"
    and fault: "tr_fault (dw_tiers w) = (\<lambda>_. False)" and day: "from_iso_date day = Some d" and written: "tier1_written w"
  shows "\<exists>w'' sch. get_cached_schedule channel day w' = (w'', Some sch)
    \<and> cs_segmented sch = Some (map serialize_scheduled_block bs)"
proof -
  obtain w1 c where 1: "get_cached_schedule channel day w = (w1, c)" by (cases "get_cached_schedule channel day w")
  note f1 = cached_unchanged [OF fault 1]
  show ?thesis
  proof (cases c)
    case (Some sch)
    have h: "hydrate_schedule env channel day sch s w1 = (s', w', Inr bs)" using assms(1) 1 Some by (simp add: compile_day_def)
    show ?thesis
    proof (cases "\<exists>b rows. cs_segmented sch = Some (b # rows)")
      case True
      then obtain b rows where seg: "cs_segmented sch = Some (b # rows)" by blast
      obtain xs where xs: "b # rows = map serialize_scheduled_block xs" using cached_written [OF 1 [unfolded Some] written seg] by (elim exE)
      have "w' = w1" "bs = xs" using h deserialize_serialize_blocks [of xs] by (simp_all add: hydrate_schedule_def seg flip: xs)
      then show ?thesis using f1(1) Some seg xs by auto
    next
      case False
      then obtain w2 s2 h2 where w2: "w' = save_compiled_schedule channel day (sch\<lparr>cs_segmented := Some (map serialize_scheduled_block bs)\<rparr>) h2 w2"
        and k: "keeps_blocks s w1 s2 w2"
        using h
        by (auto simp: hydrate_schedule_def split: option.splits list.splits sum.splits prod.splits
            dest!: get_resolver_frame expand_schedule_frame intro: keeps_trans [OF keeps_trans [OF _ resolver_frame]])
      have "tr_fault (dw_tiers w2) = (\<lambda>_. False)" using k f1(2) by (simp add: keeps_blocks_def)
      from cached_after_save [OF this day, of "sch\<lparr>cs_segmented := Some (map serialize_scheduled_block bs)\<rparr>" channel h2]
      show ?thesis using cached_version 1 Some w2 by fastforce
    qed
  next
    case None
    then obtain src doc cs rv s1 w2 where c: "compile_and_save env channel day src doc cs rv s1 w2 = Some (s', w', Inr bs)"
      and k: "keeps_blocks s w1 s1 w2"
      using assms(1) 1
      by (auto simp: compile_day_def split: sum.splits prod.splits dest: get_resolver_frame)
    then obtain p w3 s3 where w': "w' = save_compiled_schedule channel day (schedule_of_plan p (Some bs)) (hash_dsl src) w3"
      and k3: "keeps_blocks s1 w2 s3 w3"
      by (auto simp: compile_and_save_def Let_def split: option.splits sum.splits prod.splits
          dest!: expand_schedule_frame intro: keeps_trans [OF resolver_frame])
    have "tr_fault (dw_tiers w3) = (\<lambda>_. False)" using k k3 f1(2) by (simp add: keeps_blocks_def)
    from cached_after_save [OF this day, of "schedule_of_plan p (Some bs)" channel "hash_dsl src"]
    show ?thesis unfolding w' by (auto simp: schedule_of_plan_def)
  qed
qed

text \<open>
  C20. A compiled day stays: once its blocks have been compiled (or read), compiling the day again gives
  the same blocks whatever the document, the catalogue, the random seed or the resolver in use have
  become, as long as the database answers.
\<close>

theorem compiled_day_stays:
  assumes "compile_day env channel day s w = Some (s', w', Inr bs)" "bs \<noteq> []"
    and "tr_fault (dw_tiers w) = (\<lambda>_. False)" "from_iso_date day = Some d" "tier1_written w"
  shows "\<exists>w''. compile_day env' channel day s'' (w'\<lparr>dw_file := file, dw_catalog := catalogue\<rparr>) = Some (s'', w'', Inr bs)"
proof -
  obtain w1 sch where c: "get_cached_schedule channel day w' = (w1, Some sch)"
    and seg: "cs_segmented sch = Some (map serialize_scheduled_block bs)" using compiled_day_again [OF assms] by blast
  have "\<exists>w2. get_cached_schedule channel day (w'\<lparr>dw_file := file, dw_catalog := catalogue\<rparr>) = (w2, Some sch)"
    using c by (simp add: get_cached_eq dsl_db_def db_try_def split: if_splits)
  then obtain w2 where
    "get_cached_schedule channel day (w'\<lparr>dw_file := file, dw_catalog := catalogue\<rparr>) = (w2, Some sch)" by blast
  from cached_day_served [OF this seg assms(2)] show ?thesis by blast
qed

lemma demo_cached_day:
  "\<exists>w'. compile_day env ''retro'' ''1970-01-01'' s demo_dsl_world = Some (s, w', Inr [demo_served ''b2'' 1800000 36000000])"
proof -
  have d: "from_iso_date ''1970-01-01'' = Some 0" by code_simp
  have "\<exists>w'. get_cached_schedule ''retro'' ''1970-01-01'' demo_dsl_world = (w', Some (cl_json demo_tier_row))"
    by (simp add: get_cached_schedule_def dsl_db_ok demo_no_fault d) (simp add: demo_dsl_world_def demo_tier_row_def)
  moreover have "cs_segmented (cl_json demo_tier_row) = Some (map serialize_scheduled_block [demo_served ''b2'' 1800000 36000000])"
    by (simp add: demo_tier_row_def)
  ultimately show ?thesis using cached_day_served by blast
qed

theorem compiled_day_stays_witness:
  "\<exists>w' w''. compile_day demo_dsl_env ''retro'' ''1970-01-01'' demo_running demo_dsl_world
      = Some (demo_running, w', Inr [demo_served ''b2'' 1800000 36000000])
    \<and> compile_day demo_dsl_env ''retro'' ''1970-01-01'' (demo_dsl_service [])
        (w'\<lparr>dw_file := Inl IndexError, dw_catalog := Inl KeyError\<rparr>)
      = Some (demo_dsl_service [], w'', Inr [demo_served ''b2'' 1800000 36000000])"
proof -
  obtain w' where w: "compile_day demo_dsl_env ''retro'' ''1970-01-01'' demo_running demo_dsl_world
      = Some (demo_running, w', Inr [demo_served ''b2'' 1800000 36000000])" using demo_cached_day by blast
  have d: "from_iso_date ''1970-01-01'' = Some 0" by code_simp
  have "tier1_written demo_dsl_world"
    by (auto simp: tier1_written_def demo_dsl_world_def demo_tier_row_def intro: exI [of _ "[demo_served ''b2'' 1800000 36000000]"])
  from compiled_day_stays [OF w _ demo_no_fault d this] w show ?thesis by blast
qed

section \<open>The end of the horizon\<close>

lemma dark_service:
  assumes "dv_blocks s = []"
  shows "dsl_block_at env channel t s w = Some (s, w, Inr None)"
  using assms by (simp add: dsl_block_at_def maybe_extend_horizon_def find_in_memory_block_def)

text \<open>
  C25. A service can end dark: at a request at which all the blocks in memory, and those of the one day the
  request compiles, ended more than a day ago, the request removes them all, answers that there is no block,
  and so does every request after it, since a service without blocks is never extended.
\<close>

theorem idle_service_goes_dark:
  assumes "dv_blocks s \<noteq> []" "\<not> dv_extending s" "next_day s (sb_end (last (dv_blocks s))) = Some day"
    and "compile_day env channel day (s\<lparr>dv_extending := True\<rparr>) w = Some (s1, w1, Inr new)"
    and "\<forall>b \<in> set (dv_blocks s) \<union> set new. sb_end b \<le> t - 24 * 3600 * 1000"
  shows "\<exists>s' w'. dsl_block_at env channel t s w = Some (s', w', Inr None) \<and> dv_blocks s' = []
    \<and> (\<forall>t' w''. dsl_block_at env channel t' s' w'' = Some (s', w'', Inr None))"
proof -
  have k: "dv_blocks s1 = dv_blocks s" using compile_day_frame [OF assms(4)] by (simp add: keeps_blocks_def)
  obtain s2 w2 n where p: "purge_expired_tier1 t (prune_old_blocks t (add_day day new s1)) w1 = (s2, w2, n)"
    by (cases "purge_expired_tier1 t (prune_old_blocks t (add_day day new s1)) w1")
  have "dv_blocks (prune_old_blocks t (add_day day new s1)) = []"
    using assms(5) k by (auto simp: prune_old_blocks_def add_day_def filter_empty_conv not_less)
  then have dark: "dv_blocks (s2\<lparr>dv_extending := False\<rparr>) = []" using purge_frame [OF p] by simp
  have "sb_end (last (dv_blocks s)) \<le> t - 24 * 3600 * 1000" using assms(1,5) by simp
  then have "maybe_extend_horizon env channel t s w = Some (s2\<lparr>dv_extending := False\<rparr>, w2)"
    using assms(1-4) p
    by (simp add: maybe_extend_horizon_def extend_day_def RECOMPILE_THRESHOLD_HOURS_def Let_def)
  then have "dsl_block_at env channel t s w = Some (s2\<lparr>dv_extending := False\<rparr>, w2, Inr None)"
    using dark by (simp add: dsl_block_at_def find_in_memory_block_def)
  with dark dark_service [OF dark] show ?thesis by blast
qed

theorem idle_service_goes_dark_witness:
  "\<exists>s' w'. dsl_block_at demo_dsl_env ''retro'' 864000000 (demo_dsl_service [demo_served ''b1'' 0 1800000]) demo_dsl_world
      = Some (s', w', Inr None)
    \<and> (\<forall>t' w''. dsl_block_at demo_dsl_env ''retro'' t' s' w'' = Some (s', w'', Inr None))"
proof -
  let ?s = "demo_dsl_service [demo_served ''b1'' 0 1800000]"
  obtain w1 where c: "compile_day demo_dsl_env ''retro'' ''1970-01-01'' (?s\<lparr>dv_extending := True\<rparr>) demo_dsl_world
      = Some (?s\<lparr>dv_extending := True\<rparr>, w1, Inr [demo_served ''b2'' 1800000 36000000])" using demo_cached_day by blast
  have b: "dv_blocks ?s = [demo_served ''b1'' 0 1800000]" "\<not> dv_extending ?s" "dv_compiled_days ?s = []"
    by (simp_all add: demo_dsl_service_def new_dsl_service_def)
  have d: "date_of (from_epoch_ms 1800000) = 0" "iso_date 0 = ''1970-01-01''" by code_simp+
  have e: "sb_end (demo_served i x y) = y" for i x y by (simp add: demo_served_def)
  have n: "next_day ?s (sb_end (last (dv_blocks ?s))) = Some ''1970-01-01''"
    by (simp add: next_day_def b e d)
  have old: "\<forall>b \<in> set (dv_blocks ?s) \<union> set [demo_served ''b2'' 1800000 36000000]. sb_end b \<le> 864000000 - 24 * 3600 * 1000"
    by (simp add: b e)
  have "dv_blocks ?s \<noteq> []" by (simp add: b)
  from idle_service_goes_dark [OF this b(2) n c old] show ?thesis by blast
qed

section \<open>The guide\<close>

lemma new_blocks_keys:
  "distinct (map epg_key (new_blocks bs seen)) \<and> epg_key ` set (new_blocks bs seen) = epg_key ` set bs - set seen"
  by (induction bs seen rule: new_blocks.induct) auto

lemma new_blocks_mem: "b \<in> set (new_blocks bs seen) \<Longrightarrow> b \<in> set bs"
  by (induction bs seen rule: new_blocks.induct) (auto split: if_splits)

lemma visible_filter:
  "sorted (map gb_start bs) \<Longrightarrow> visible_blocks a z bs = filter (\<lambda>b. a < end_at b \<and> gb_start b < z) bs"
proof (induction bs)
  case (Cons b bs)
  have "filter (\<lambda>b. a < end_at b \<and> gb_start b < z) bs = []" if "z \<le> gb_start b"
    using Cons.prems that by (auto simp: filter_empty_conv)
  then show ?case using Cons by auto
qed simp

text \<open>
  C29. The guide of a window lists exactly the blocks of the compiled days in reach that overlap the
  window, ordered by start and each start, length and asset once.
\<close>

theorem epg_lists_overlapping:
  assumes "get_canonical_epg channel a z w = (w', Some bs)"
  shows "sorted (map gb_start bs) \<and> distinct (map epg_key bs)
    \<and> epg_key ` set bs = epg_key ` {b. \<exists>r \<in> set (overlapping_rows channel a z (tr_tier1 (dw_tiers w))).
          b \<in> set (cp_blocks (cl_json r)) \<and> a < end_at b \<and> gb_start b < z}"
proof -
  let ?all = "concat (map (\<lambda>r. cp_blocks (cl_json r)) (overlapping_rows channel a z (tr_tier1 (dw_tiers w))))"
  let ?new = "new_blocks ?all []"
  let ?in = "\<lambda>b. a < end_at b \<and> gb_start b < z"
  obtain w1 ok where db: "dsl_db w = (w1, ok)" by (cases "dsl_db w")
  have t1: "tr_tier1 (dw_tiers w1) = tr_tier1 (dw_tiers w)" using dsl_db_frame [OF db] by blast
  have bs: "bs = filter ?in (sort_key gb_start ?new)"
    using assms db t1 visible_filter [of "sort_key gb_start ?new" a z]
    by (simp add: get_canonical_epg_def Let_def split: bool.splits if_splits)
  have keys: "distinct (map epg_key ?new)" "epg_key ` set ?new = epg_key ` set ?all"
    using new_blocks_keys [of ?all "[]"] by simp_all
  have same: "?in b \<longleftrightarrow> ?in c" if "epg_key b = epg_key c" for b c
    using that by (simp add: epg_key_def end_at_def)
  have "epg_key ` set bs = epg_key ` {b \<in> set ?new. ?in b}" by (auto simp: bs)
  also have "\<dots> = epg_key ` {b \<in> set ?all. ?in b}"
  proof
    show "epg_key ` {b \<in> set ?new. ?in b} \<subseteq> epg_key ` {b \<in> set ?all. ?in b}" using new_blocks_mem by fast
    show "epg_key ` {b \<in> set ?all. ?in b} \<subseteq> epg_key ` {b \<in> set ?new. ?in b}"
    proof
      fix k assume "k \<in> epg_key ` {b \<in> set ?all. ?in b}"
      then obtain b where b: "b \<in> set ?all" "?in b" "k = epg_key b" by blast
      then have "k \<in> epg_key ` set ?new" using keys(2) by blast
      then obtain c where c: "c \<in> set ?new" "epg_key b = epg_key c" using b(3) by (elim imageE) simp
      then show "k \<in> epg_key ` {b \<in> set ?new. ?in b}" using b same [OF c(2)] by blast
    qed
  qed
  also have "{b \<in> set ?all. ?in b} = {b. \<exists>r \<in> set (overlapping_rows channel a z (tr_tier1 (dw_tiers w))).
          b \<in> set (cp_blocks (cl_json r)) \<and> a < end_at b \<and> gb_start b < z}" by auto
  finally have set: "epg_key ` set bs = epg_key ` {b. \<exists>r \<in> set (overlapping_rows channel a z (tr_tier1 (dw_tiers w))).
          b \<in> set (cp_blocks (cl_json r)) \<and> a < end_at b \<and> gb_start b < z}" .
  have "sorted (map gb_start bs)" unfolding bs by (rule sorted_filter) simp
  moreover have "mset (map epg_key (sort_key gb_start ?new)) = mset (map epg_key ?new)" by simp
  then have "distinct (map epg_key (sort_key gb_start ?new))" using keys(1) mset_eq_imp_distinct_iff by blast
  then have "distinct (map epg_key bs)" unfolding bs by (rule distinct_map_filter)
  ultimately show ?thesis using set by blast
qed

theorem epg_lists_overlapping_witness:
  "\<exists>w' b. get_canonical_epg ''retro'' 0 3600000000 demo_dsl_world = (w', Some [b]) \<and> gb_start b = 1800000000
    \<and> epg_key ` set [b] = epg_key ` {b. \<exists>r \<in> set (overlapping_rows ''retro'' 0 3600000000 (tr_tier1 (dw_tiers demo_dsl_world))).
          b \<in> set (cp_blocks (cl_json r)) \<and> 0 < end_at b \<and> gb_start b < 3600000000}"
proof -
  let ?b = "hd (cp_blocks (cl_json demo_tier_row))"
  have "overlapping_rows ''retro'' 0 3600000000 [demo_tier_row] = [demo_tier_row]"
    by (simp add: overlapping_rows_def demo_tier_row_def)
  then have "get_canonical_epg ''retro'' 0 3600000000 demo_dsl_world = (fst (dsl_db demo_dsl_world), Some [?b])"
    by (simp add: get_canonical_epg_def dsl_db_ok demo_no_fault)
      (simp add: demo_dsl_world_def demo_tier_row_def Let_def end_at_def)
  moreover from epg_lists_overlapping [OF this] have "epg_key ` set [?b] = epg_key ` {b. \<exists>r \<in> set (overlapping_rows ''retro'' 0 3600000000 (tr_tier1 (dw_tiers demo_dsl_world))).
          b \<in> set (cp_blocks (cl_json r)) \<and> 0 < end_at b \<and> gb_start b < 3600000000}" by blast
  moreover have "gb_start ?b = 1800000000" by (simp add: demo_tier_row_def)
  ultimately show ?thesis by blast
qed

section \<open>Layers counted twice\<close>

text \<open>A channel of half-hour episodes around the clock, with a layer of its own at the weekend.\<close>

definition layered_block :: yval where
  "layered_block = YDict [(YStr ''block'', YDict [(YStr ''start'', YStr ''06:00''), (YStr ''duration'', YStr ''24h''),
                                                  (YStr ''pool'', YStr ''cheers'')])]"

definition layered_dsl :: yval where
  "layered_dsl =
     YDict [(YStr ''pools'', YDict [(YStr ''cheers'', YDict [])]),
            (YStr ''schedule'', YDict [(YStr ''all_day'', YList [layered_block]), (YStr ''weekends'', YList [layered_block])])]"

lemma layered_slots: "count_slots_in_dsl layered_dsl = Inr 96" by code_simp

lemma layered_day: "resolve_day_schedule layered_dsl d = Inr [layered_block]"
proof -
  have "resolve_day_schedule layered_dsl d = Inr [layered_block]" if "weekday d = k" "k \<in> {0,1,2,3,4,5,6}" for k
    using that(2) unfolding resolve_day_schedule_def that(1) by (elim insertE emptyE; hypsubst; code_simp)
  then show ?thesis using weekday_less [of d] by (simp add: numeral_eq_Suc less_Suc_eq)
qed

lemma layered_pools: "bind_res (dget layered_dsl ''pools'' (YDict [])) py_iter = Inr [YStr ''cheers'']" by code_simp

text \<open>
  The slots of a day are counted over all layers although a day is made of one definition for each
  start: this channel shows 48 episodes on every day and is counted with 96, so a pool of 96 episodes
  starts every day with the same one, although it holds two days' worth.
\<close>

theorem layered_days_repeat_episodes:
  assumes "from_iso_date day = Some target"
  shows "resolve_day_schedule layered_dsl target = Inr [layered_block]
    \<and> (\<exists>f. starting_counters layered_dsl day = Inr f \<and> f (YStr ''cheers'') = (target - 20454) * 96 \<and> f (YStr ''cheers'') mod 96 = 0)"
proof -
  obtain p where p: "dget layered_dsl ''pools'' (YDict []) = Inr p" "py_iter p = Inr [YStr ''cheers'']"
    using layered_pools by (auto simp: bind_res_Inr_iff)
  show ?thesis by (simp add: layered_day starting_counters_def assms layered_slots p)
qed

theorem layered_days_repeat_episodes_witness:
  "\<exists>f. starting_counters layered_dsl ''2026-01-06'' = Inr f \<and> f (YStr ''cheers'') mod 96 = 0"
proof -
  have "from_iso_date ''2026-01-06'' = Some 20459" by code_simp
  from layered_days_repeat_episodes [OF this, THEN conjunct2] show ?thesis by (elim exE conjE) (intro exI conjI)
qed

end
