(* ===== verification/AsRun_Evidence.thy ===== *)
theory AsRun_Evidence
  imports Schedule_Service Py_Value
begin

text \<open>
  The evidence server of \<^verbatim>\<open>runtime/evidence_server.py\<close>: the durable acknowledgement marks, the writer of
  the two as-run files of a channel and day, and the handler of an evidence stream, which turns every
  message of the engine into a line and a record, writes them, stores the mark and acknowledges.  The
  object is a record with its files; the clock is an argument.  A crash is a state between two of
  these steps.
\<close>

section \<open>Messages\<close>

record block_start =
  bs_block :: string
  bs_swap :: nat
  bs_fence :: nat
  bs_start :: ms

record segment_start =
  ss_block :: string
  ss_event :: string
  ss_index :: int
  ss_start :: ms
  ss_frame :: int
  ss_scheduled :: ms
  ss_jip :: bool
  ss_type :: string
  ss_uri :: string
  ss_title :: string
  ss_uuid :: string
  ss_asset :: string

record segment_end =
  se_block :: string
  se_event :: string
  se_start :: ms
  se_end :: ms
  se_first_frame :: int
  se_last_frame :: int
  se_duration :: ms
  se_frames :: int
  se_status :: string
  se_reason :: string
  se_fallback :: nat
  se_uuid :: string
  se_type :: string
  se_asset :: string

record block_fence =
  bf_block :: string
  bf_swap :: nat
  bf_fence :: nat
  bf_end :: ms
  bf_frames :: nat
  bf_truncated :: bool
  bf_early :: bool
  bf_primed :: bool

record channel_end =
  ce_time :: ms
  ce_reason :: string
  ce_detail :: string

datatype evidence =
    Hello
  | BlockStart block_start
  | SegmentStart segment_start
  | SegmentEnd segment_end
  | BlockFence block_fence
  | ChannelTerminated channel_end
  | NoPayload

record evidence_msg =
  em_channel :: string
  em_session :: string
  em_seq :: nat
  em_uuid :: string
  em_payload :: evidence

section \<open>Texts\<close>

text \<open>\<open>f"{i:02d}"\<close>, whose width counts a sign.\<close>

definition pad2 :: "int \<Rightarrow> string" where
  "pad2 i = (if i < 0 then ''-'' @ nat_str (nat (- i)) else zero_pad 2 (nat i))"

definition duration_hms :: "ms \<Rightarrow> string" where
  "duration_hms t =
     (let s = t div 1000; r = s mod 3600 in pad2 (s div 3600) @ '':'' @ pad2 (r div 60) @ '':'' @ pad2 (r mod 60))"

definition epoch_ms_to_iso8601 :: "ms \<Rightarrow> string" where
  "epoch_ms_to_iso8601 t =
     (if t \<le> 0 then []
      else let dt = from_epoch_ms t
           in iso_date (date_of dt) @ ''T'' @ clock_hms dt @ ''.'' @ zero_pad 3 (nat (t mod 1000)) @ ''Z'')"

text \<open>A line of the text file before it is laid out in columns.\<close>

record asrun_row =
  aw_actual :: string
  aw_dur :: string
  aw_status :: string
  aw_type :: string
  aw_event :: string
  aw_notes :: string

definition format_asrun_line :: "asrun_row \<Rightarrow> string" where
  "format_asrun_line r =
     ljust 8 (aw_actual r) @ '' '' @ ljust 8 (aw_dur r) @ '' '' @ ljust 10 (aw_status r) @ '' ''
       @ ljust 8 (aw_type r) @ '' '' @ ljust 32 (aw_event r) @ '' '' @ aw_notes r"

section \<open>Durable acknowledgements\<close>

text \<open>
  The marks in memory and the mark files, both under channel and session.  A mark file holds the
  number in its first line.
\<close>

record ack_store =
  ak_memory :: "((string \<times> string) \<times> int) list"
  ak_disk :: "((string \<times> string) \<times> string) list"

definition ack_text :: "datetime \<Rightarrow> int \<Rightarrow> string" where
  "ack_text now n =
     ''acked_sequence='' @ int_str n @ [CHR 0x0A] @ ''updated_utc='' @ iso_date (date_of now) @ ''T''
       @ clock_hms now @ ''.'' @ zero_pad 3 (nat (now mod 1000000 div 1000)) @ ''Z'' @ [CHR 0x0A]"

text \<open>The first line that starts with the key; a number that cannot be read counts as none.\<close>

fun mark_of_lines :: "string list \<Rightarrow> int" where
  "mark_of_lines [] = 0"
| "mark_of_lines (l # ls) =
     (if take 15 l = ''acked_sequence=''
      then (case py_int (drop 15 l) of None \<Rightarrow> 0 | Some n \<Rightarrow> n)
      else mark_of_lines ls)"

definition mark_of_text :: "string \<Rightarrow> int" where
  "mark_of_text s = mark_of_lines (split_on (CHR 0x0A) (strip s))"

definition load_mark :: "string \<times> string \<Rightarrow> ack_store \<Rightarrow> int" where
  "load_mark k a = (case map_of (ak_disk a) k of None \<Rightarrow> 0 | Some s \<Rightarrow> mark_of_text s)"

definition ack_get :: "string \<times> string \<Rightarrow> ack_store \<Rightarrow> ack_store \<times> int" where
  "ack_get k a =
     (case map_of (ak_memory a) k of
        Some n \<Rightarrow> (a, n)
      | None \<Rightarrow> (let n = load_mark k a in (a\<lparr>ak_memory := dict_set k n (ak_memory a)\<rparr>, n)))"

definition ack_update :: "datetime \<Rightarrow> string \<times> string \<Rightarrow> int \<Rightarrow> ack_store \<Rightarrow> ack_store" where
  "ack_update now k n a =
     (let current = (case map_of (ak_memory a) k of None \<Rightarrow> 0 | Some m \<Rightarrow> m)
      in if n \<le> current then a
         else a\<lparr>ak_memory := dict_set k n (ak_memory a), ak_disk := dict_set k (ack_text now n) (ak_disk a)\<rparr>)"

section \<open>The as-run files\<close>

record asrun_file =
  fl_lines :: "string list"
  fl_records :: "yval list"

record asrun_writer =
  wr_channel :: string
  wr_day :: date

text \<open>The files of a channel and day; opening a new one writes the header.\<close>

type_synonym asrun_files = "((string \<times> date) \<times> asrun_file) list"

definition asrun_header :: "string \<Rightarrow> datetime \<Rightarrow> string list" where
  "asrun_header channel now =
     (let today = iso_date (date_of now)
      in [''# RETROVUE AS-RUN LOG'', ''# CHANNEL: '' @ channel, ''# DATE: '' @ today,
          ''# OPENED_UTC: '' @ iso_datetime now @ ''Z'', ''# ASRUN_LOG_ID: '' @ channel @ ''-'' @ today, ''# VERSION: 2''])"

definition file_of :: "asrun_writer \<Rightarrow> asrun_files \<Rightarrow> asrun_file" where
  "file_of w fs =
     (case map_of fs (wr_channel w, wr_day w) of None \<Rightarrow> \<lparr>fl_lines = [], fl_records = []\<rparr> | Some f \<Rightarrow> f)"

definition open_writer :: "string \<Rightarrow> datetime \<Rightarrow> asrun_files \<Rightarrow> asrun_writer \<times> asrun_files" where
  "open_writer channel now fs =
     (let w = \<lparr>wr_channel = channel, wr_day = date_of now\<rparr>; f = file_of w fs
      in (w, dict_set (channel, date_of now)
               (if fl_lines f = [] then f\<lparr>fl_lines := asrun_header channel now\<rparr> else f) fs))"

definition day_start_ms :: "asrun_writer \<Rightarrow> ms" where
  "day_start_ms w = wr_day w * 86400000"

definition display_time :: "asrun_writer \<Rightarrow> ms \<Rightarrow> string" where
  "display_time w t =
     (if t \<le> 0 then ''00:00:00''
      else let s = (t - day_start_ms w) div 1000
           in if s < 0 then clock_hms (from_epoch_ms t)
              else let r = s mod 3600 in pad2 (s div 3600) @ '':'' @ pad2 (r div 60) @ '':'' @ pad2 (r mod 60))"

definition write_and_flush :: "asrun_writer \<Rightarrow> asrun_row \<Rightarrow> yval \<Rightarrow> asrun_files \<Rightarrow> asrun_files" where
  "write_and_flush w r rec fs =
     (let f = file_of w fs
      in dict_set (wr_channel w, wr_day w)
           \<lparr>fl_lines = fl_lines f @ [format_asrun_line r], fl_records = fl_records f @ [rec]\<rparr> fs)"

section \<open>From evidence to rows\<close>

text \<open>What a stream remembers; a terminal is known by its event and the identity of its segment.\<close>

datatype segment_ref = ByUuid string | ByIndex int

record stream_state =
  st_writer :: "asrun_writer option"
  st_seen :: "string list"
  st_terminals :: "(string \<times> segment_ref) list"
  st_index :: int
  st_uuid :: string
  st_block_start :: "ms option"
  st_last_frame :: "(string \<times> int) list"
  st_jip :: "string list"
  st_mark :: int

definition new_stream :: stream_state where
  "new_stream = \<lparr>st_writer = None, st_seen = [], st_terminals = [], st_index = -1, st_uuid = [],
     st_block_start = None, st_last_frame = [], st_jip = [], st_mark = 0\<rparr>"

definition or_text :: "string \<Rightarrow> string \<Rightarrow> string" where
  "or_text a b = (if a = [] then b else a)"

text \<open>\<open>splitext(basename(p))[0]\<close>\<close>

definition base_name :: "string \<Rightarrow> string" where
  "base_name p = last (path_parts [] p)"

definition stem :: "string \<Rightarrow> string" where
  "stem p =
     (let b = base_name p; root = rev (drop 1 (dropWhile (\<lambda>c. c \<noteq> CHR ''.'') (rev b)))
      in if CHR ''.'' \<in> set b \<and> (\<exists>c \<in> set root. c \<noteq> CHR ''.'') then root else b)"

definition type_label :: "string \<Rightarrow> string" where
  "type_label t =
     (case map_of
        [(''content'', ''PROGRAM''), (''episode'', ''PROGRAM''), (''commercial'', ''COMMERCL''), (''promo'', ''PROMO''),
         (''station_id'', ''IDENT''), (''stinger'', ''STINGER''), (''bumper'', ''BUMPER''), (''filler'', ''FILLER''),
         (''psa'', ''PSA''), (''pad'', ''PAD'')] t of
        None \<Rightarrow> ''PROGRAM'' | Some l \<Rightarrow> l)"

definition json_row :: "(string \<times> yval) list \<Rightarrow> yval" where
  "json_row kvs = YDict (map (\<lambda>(k, v). (YStr k, v)) kvs)"

definition nat_val :: "nat \<Rightarrow> yval" where "nat_val n = YInt (int n)"

definition block_start_row :: "asrun_writer \<Rightarrow> block_start \<Rightarrow> asrun_row \<times> yval" where
  "block_start_row w b =
     (\<lparr>aw_actual = display_time w (bs_start b), aw_dur = ''00:00:00'', aw_status = ''START'', aw_type = ''BLOCK'',
       aw_event = bs_block b,
       aw_notes = ''(block open) swap_tick='' @ nat_str (bs_swap b) @ '' fence_tick='' @ nat_str (bs_fence b)\<rparr>,
      json_row [(''event_id'', YStr (bs_block b)), (''block_id'', YStr (bs_block b)),
                (''actual_start_utc'', YStr (epoch_ms_to_iso8601 (bs_start b))), (''actual_start_utc_ms'', YInt (bs_start b)),
                (''actual_duration_ms'', YInt 0), (''status'', YStr ''START''), (''reason'', YNone),
                (''swap_tick'', nat_val (bs_swap b)), (''fence_tick'', nat_val (bs_fence b))])"

definition start_title :: "segment_start \<Rightarrow> string" where
  "start_title s =
     (let title = (if ss_title s = [] \<and> ss_uri s \<noteq> [] then stem (ss_uri s) else ss_title s)
      in if title = [] \<and> ss_type s = ''pad'' then ''BLACK'' else title)"

definition segment_start_row :: "asrun_writer \<Rightarrow> segment_start \<Rightarrow> asrun_row \<times> yval" where
  "segment_start_row w s =
     (let event = or_text (ss_event s) (ss_block s)
      in (\<lparr>aw_actual = display_time w (ss_start s), aw_dur = ''00:00:00'', aw_status = ''SEG_START'',
           aw_type = type_label (ss_type s), aw_event = event,
           aw_notes = ''segment_index='' @ int_str (ss_index s) @ '' asset_start_frame='' @ int_str (ss_frame s)
             @ (if ss_uuid s = [] then [] else '' segment_uuid='' @ ss_uuid s)
             @ (if start_title s = [] then [] else '' ['' @ start_title s @ '']'')
             @ (if ss_jip s then '' join_in_progress=Y'' else [])\<rparr>,
          json_row ([(''event_id'', YStr event), (''block_id'', YStr (ss_block s)),
                     (''actual_start_utc'', YStr (epoch_ms_to_iso8601 (ss_start s))), (''actual_start_utc_ms'', YInt (ss_start s)),
                     (''actual_duration_ms'', YInt 0), (''status'', YStr ''SEG_START''), (''segment_index'', YInt (ss_index s)),
                     (''asset_start_frame'', YInt (ss_frame s)), (''scheduled_duration_ms'', YInt (ss_scheduled s)),
                     (''segment_uuid'', YStr (ss_uuid s)), (''asset_uuid'', YStr (ss_asset s)), (''segment_type'', YStr (ss_type s)),
                     (''asset_uri'', YStr (ss_uri s)), (''segment_title'', YStr (start_title s))]
                    @ (if ss_jip s then [(''join_in_progress'', YBool True)] else []))))"

definition segment_end_row :: "asrun_writer \<Rightarrow> int \<Rightarrow> string \<Rightarrow> segment_end \<Rightarrow> asrun_row \<times> yval" where
  "segment_end_row w idx uuid s =
     (let event = or_text (se_event s) (se_block s); status = or_text (se_status s) ''AIRED''
      in (\<lparr>aw_actual = display_time w (se_end s), aw_dur = duration_hms (se_duration s), aw_status = status,
           aw_type = ''PROGRAM'', aw_event = event,
           aw_notes = ''segment_index='' @ int_str idx @ '' ontime=Y fallback='' @ nat_str (se_fallback s)
             @ '' asset_start='' @ int_str (se_first_frame s) @ '' asset_end='' @ int_str (se_last_frame s)
             @ '' frames='' @ int_str (se_frames s)
             @ (if uuid = [] then [] else '' segment_uuid='' @ uuid)
             @ (if se_reason s = [] then [] else '' reason='' @ se_reason s)\<rparr>,
          json_row [(''event_id'', YStr event), (''block_id'', YStr (se_block s)),
                    (''actual_start_utc'', YStr (epoch_ms_to_iso8601 (se_start s))), (''actual_start_utc_ms'', YInt (se_start s)),
                    (''actual_end_utc_ms'', YInt (se_end s)), (''actual_duration_ms'', YInt (se_duration s)),
                    (''computed_duration_frames'', YInt (se_frames s)), (''asset_start_frame'', YInt (se_first_frame s)),
                    (''asset_end_frame'', YInt (se_last_frame s)), (''status'', YStr status),
                    (''reason'', if se_reason s = [] then YNone else YStr (se_reason s)),
                    (''fallback_frames_used'', nat_val (se_fallback s)), (''segment_uuid'', YStr uuid),
                    (''segment_type_name'', YStr (se_type s)), (''asset_uuid'', YStr (se_asset s))]))"

definition yes_no :: "bool \<Rightarrow> string" where "yes_no b = (if b then ''Y'' else ''N'')"

text \<open>The fence tick rules when the two ticks of a fence differ; ticks that are zero are left out.\<close>

definition fence_ticks :: "nat \<Rightarrow> string" where
  "fence_ticks n = (if n = 0 then [] else ''swap_tick='' @ nat_str n @ '' fence_tick='' @ nat_str n @ '' '')"

definition block_fence_row :: "asrun_writer \<Rightarrow> block_fence \<Rightarrow> asrun_row \<times> yval" where
  "block_fence_row w b =
     (let tick = bf_fence b; event = bf_block b @ ''-FENCE''
      in (\<lparr>aw_actual = display_time w (bf_end b), aw_dur = ''00:00:00'', aw_status = ''FENCE'', aw_type = ''BLOCK'',
           aw_event = event,
           aw_notes = fence_ticks tick @ ''frames_emitted='' @ nat_str (bf_frames b)
             @ '' frame_budget_remaining=0 reason=FENCE primed_success='' @ yes_no (bf_primed b)
             @ '' truncated_by_fence='' @ yes_no (bf_truncated b) @ '' early_exhaustion='' @ yes_no (bf_early b)\<rparr>,
          json_row [(''event_id'', YStr event), (''block_id'', YStr (bf_block b)),
                    (''actual_start_utc'', YStr (epoch_ms_to_iso8601 (bf_end b))), (''actual_end_utc_ms'', YInt (bf_end b)),
                    (''actual_duration_ms'', YInt 0), (''status'', YStr ''FENCE''), (''reason'', YNone),
                    (''swap_tick'', nat_val tick), (''fence_tick'', nat_val tick),
                    (''frames_emitted'', nat_val (bf_frames b)), (''frame_budget_remaining'', YInt 0)]))"

definition channel_end_row :: "asrun_writer \<Rightarrow> string \<Rightarrow> channel_end \<Rightarrow> asrun_row \<times> yval" where
  "channel_end_row w session c =
     (\<lparr>aw_actual = display_time w (ce_time c), aw_dur = ''00:00:00'', aw_status = ''TERMINATED'', aw_type = ''CHANNEL'',
       aw_event = session, aw_notes = ''reason='' @ ce_reason c @ '' detail='' @ ce_detail c\<rparr>,
      json_row [(''event_id'', YStr session), (''block_id'', YStr []),
                (''actual_start_utc'', YStr (epoch_ms_to_iso8601 (ce_time c))), (''termination_utc_ms'', YInt (ce_time c)),
                (''actual_duration_ms'', YInt 0), (''status'', YStr ''TERMINATED''), (''reason'', YStr (ce_reason c)),
                (''swap_tick'', YNone), (''fence_tick'', YNone)])"

text \<open>
  The segment an end belongs to, and the two guards: no second terminal for the same event and
  segment, and none that aired without a frame.
\<close>

definition end_uuid :: "stream_state \<Rightarrow> segment_end \<Rightarrow> string" where
  "end_uuid st s = or_text (se_uuid s) (st_uuid st)"

definition end_key :: "stream_state \<Rightarrow> segment_end \<Rightarrow> string \<times> segment_ref" where
  "end_key st s =
     (or_text (se_event s) (se_block s),
      (if end_uuid st s = [] then ByIndex (st_index st) else ByUuid (end_uuid st s)))"

definition end_suppressed :: "stream_state \<Rightarrow> segment_end \<Rightarrow> bool" where
  "end_suppressed st s \<longleftrightarrow>
     end_key st s \<in> set (st_terminals st)
     \<or> or_text (se_status s) ''AIRED'' \<in> {''AIRED'', ''TRUNCATED''} \<and> se_frames s \<le> 0"

definition note_end :: "segment_end \<Rightarrow> stream_state \<Rightarrow> stream_state" where
  "note_end s st =
     (let event = or_text (se_event s) (se_block s);
          status = or_text (se_status s) ''AIRED'';
          checked = (map_of (st_last_frame st) (se_block s) \<noteq> None \<and> st_index st = 0 \<and> status \<in> {''AIRED'', ''TRUNCATED''})
      in st\<lparr>st_jip := (if checked then filter (\<lambda>e. e \<noteq> event) (st_jip st) else st_jip st),
            st_last_frame := dict_set (se_block s) (se_last_frame s) (st_last_frame st),
            st_terminals := end_key st s # st_terminals st\<rparr>)"

definition process_evidence ::
  "asrun_writer \<Rightarrow> string \<Rightarrow> evidence \<Rightarrow> stream_state \<Rightarrow> stream_state \<times> (asrun_row \<times> yval) option" where
  "process_evidence w session p st =
     (case p of
        BlockStart b \<Rightarrow> (st\<lparr>st_block_start := Some (bs_start b)\<rparr>, Some (block_start_row w b))
      | SegmentStart s \<Rightarrow>
          (st\<lparr>st_index := ss_index s, st_uuid := ss_uuid s,
              st_jip := (if ss_jip s then or_text (ss_event s) (ss_block s) # st_jip st else st_jip st)\<rparr>,
           Some (segment_start_row w s))
      | SegmentEnd s \<Rightarrow>
          (if end_suppressed st s then (st, None)
           else (note_end s st, Some (segment_end_row w (st_index st) (end_uuid st s) s)))
      | BlockFence b \<Rightarrow>
          (st\<lparr>st_last_frame := filter (\<lambda>(k, _). k \<noteq> bf_block b) (st_last_frame st)\<rparr>, Some (block_fence_row w b))
      | ChannelTerminated c \<Rightarrow> (st, Some (channel_end_row w session c))
      | _ \<Rightarrow> (st, None))"

section \<open>The stream\<close>

record evidence_server =
  ev_acks :: ack_store
  ev_files :: asrun_files

text \<open>The first message with a channel opens the files and looks up the mark of its session.\<close>

definition ensure_writer :: "datetime \<Rightarrow> evidence_msg \<Rightarrow> stream_state \<Rightarrow> evidence_server \<Rightarrow> stream_state \<times> evidence_server" where
  "ensure_writer now m st sv =
     (if st_writer st = None \<and> em_channel m \<noteq> []
      then (case open_writer (em_channel m) now (ev_files sv) of
              (w, fs) \<Rightarrow>
                (case ack_get (em_channel m, em_session m) (ev_acks sv) of
                   (a, n) \<Rightarrow> (st\<lparr>st_writer := Some w, st_mark := n\<rparr>, sv\<lparr>ev_acks := a, ev_files := fs\<rparr>)))
      else (st, sv))"

definition is_duplicate :: "evidence_msg \<Rightarrow> stream_state \<Rightarrow> bool" where
  "is_duplicate m st \<longleftrightarrow>
     em_uuid m \<noteq> ''hello'' \<and> (em_uuid m \<in> set (st_seen st) \<or> 0 < em_seq m \<and> int (em_seq m) \<le> st_mark st)"

definition note_seen :: "evidence_msg \<Rightarrow> stream_state \<Rightarrow> stream_state" where
  "note_seen m st = (if em_uuid m = ''hello'' then st else st\<lparr>st_seen := em_uuid m # st_seen st\<rparr>)"

text \<open>Writing what a message says, and then storing its mark.\<close>

definition write_evidence :: "evidence_msg \<Rightarrow> stream_state \<Rightarrow> evidence_server \<Rightarrow> stream_state \<times> evidence_server" where
  "write_evidence m st sv =
     (case st_writer st of
        None \<Rightarrow> (st, sv)
      | Some w \<Rightarrow>
          (case process_evidence w (em_session m) (em_payload m) st of
             (st', None) \<Rightarrow> (st', sv)
           | (st', Some (r, j)) \<Rightarrow> (st', sv\<lparr>ev_files := write_and_flush w r j (ev_files sv)\<rparr>)))"

definition store_ack :: "datetime \<Rightarrow> evidence_msg \<Rightarrow> evidence_server \<Rightarrow> evidence_server" where
  "store_ack now m sv = sv\<lparr>ev_acks := ack_update now (em_channel m, em_session m) (int (em_seq m)) (ev_acks sv)\<rparr>"

definition handle_evidence :: "datetime \<Rightarrow> evidence_msg \<Rightarrow> stream_state \<Rightarrow> evidence_server \<Rightarrow> stream_state \<times> evidence_server" where
  "handle_evidence now m st sv =
     (case ensure_writer now m st sv of
        (st, sv) \<Rightarrow>
          (if is_duplicate m st then (st, sv)
           else (case write_evidence m (note_seen m st) sv of (st, sv) \<Rightarrow> (st, store_ack now m sv))))"

text \<open>A stream of messages with the times they are handled at; the acknowledgements are the sequence numbers.\<close>

fun evidence_stream :: "(datetime \<times> evidence_msg) list \<Rightarrow> stream_state \<Rightarrow> evidence_server \<Rightarrow> stream_state \<times> evidence_server \<times> nat list" where
  "evidence_stream [] st sv = (st, sv, [])"
| "evidence_stream ((now, m) # ms) st sv =
     (case handle_evidence now m st sv of
        (st, sv) \<Rightarrow> (case evidence_stream ms st sv of (st, sv, acks) \<Rightarrow> (st, sv, em_seq m # acks)))"

text \<open>A server that starts again has its files and nothing else.\<close>

definition restarted :: "evidence_server \<Rightarrow> evidence_server" where
  "restarted sv = sv\<lparr>ev_acks := (ev_acks sv)\<lparr>ak_memory := []\<rparr>\<rparr>"

end
