(* ===== verification/AsRun_Artifact.thy ===== *)
theory AsRun_Artifact
  imports AsRun_Evidence
begin

text \<open>
  The validator of as-run artifacts, \<^verbatim>\<open>runtime/asrun_artifact_validator.py\<close>.  A check returns the first
  violation it finds, with the data of its message, or nothing.  The searches by regular expressions
  are written out: a key followed by digits, and the clock with two digits in each place.
\<close>

datatype artifact_error =
    TwoTerminals string nat
  | NoTerminal string nat
  | ZeroFrames string string
  | OneTickOnly string bool
  | TickNotPositive string nat
  | TicksDiffer string nat nat
  | NoBudget string
  | BudgetLeft string nat
  | PlannedField string
  | NoSegmentIndex string
  | ZeroTick string string
  | BadTimeFormat string string
  | BadTime string

fun first_error :: "('a \<Rightarrow> artifact_error option) \<Rightarrow> 'a list \<Rightarrow> artifact_error option" where
  "first_error f [] = None"
| "first_error f (x # xs) = (case f x of Some e \<Rightarrow> Some e | None \<Rightarrow> first_error f xs)"

lemma first_error_None [simp]: "first_error f xs = None \<longleftrightarrow> (\<forall>x \<in> set xs. f x = None)"
  by (induction xs) (auto split: option.splits)

section \<open>Searches\<close>

text \<open>\<open>re.search\<close> of a pattern, given by what it matches at the front of a text.\<close>

fun search_at :: "(string \<Rightarrow> 'a option) \<Rightarrow> string \<Rightarrow> 'a option" where
  "search_at p [] = None"
| "search_at p (c # cs) = (case p (c # cs) of Some x \<Rightarrow> Some x | None \<Rightarrow> search_at p cs)"

fun match_key :: "string \<Rightarrow> string \<Rightarrow> string option" where
  "match_key [] s = Some s"
| "match_key (k # ks) [] = None"
| "match_key (k # ks) (c # cs) = (if c = k then match_key ks cs else None)"

text \<open>\<open>key(\d+)\<close>, \<open>key-?\d+\<close> and \<open>key\b\<close> of a key that ends in a word character.\<close>

definition match_digits :: "string \<Rightarrow> string \<Rightarrow> nat option" where
  "match_digits key s =
     (case match_key key s of
        None \<Rightarrow> None
      | Some r \<Rightarrow> if takeWhile is_digit r = [] then None else Some (numeral_value (takeWhile is_digit r)))"

definition match_integer :: "string \<Rightarrow> string \<Rightarrow> unit option" where
  "match_integer key s =
     (case match_key key s of
        None \<Rightarrow> None
      | Some [] \<Rightarrow> None
      | Some (d # r) \<Rightarrow>
          if (if d = CHR ''-'' then takeWhile is_digit r else takeWhile is_digit (d # r)) = [] then None else Some ())"

text \<open>\<open>\w\<close> of one byte of Latin-1\<close>

definition is_word :: "char \<Rightarrow> bool" where
  "is_word c \<longleftrightarrow>
     (let n = of_char c :: nat
      in 48 \<le> n \<and> n \<le> 57 \<or> 65 \<le> n \<and> n \<le> 90 \<or> 97 \<le> n \<and> n \<le> 122 \<or> n = 95
         \<or> n \<in> {170, 178, 179, 181, 185, 186, 188, 189, 190} \<or> 192 \<le> n \<and> n \<noteq> 215 \<and> n \<noteq> 247)"

definition match_word :: "string \<Rightarrow> string \<Rightarrow> unit option" where
  "match_word key s =
     (case match_key key s of
        None \<Rightarrow> None
      | Some [] \<Rightarrow> Some ()
      | Some (d # _) \<Rightarrow> if is_word d then None else Some ())"

definition search_number :: "string \<Rightarrow> string \<Rightarrow> nat option" where
  "search_number key = search_at (match_digits key)"

definition search_integer :: "string \<Rightarrow> string \<Rightarrow> bool" where
  "search_integer key s \<longleftrightarrow> search_at (match_integer key) s \<noteq> None"

definition search_word :: "string \<Rightarrow> string \<Rightarrow> bool" where
  "search_word key s \<longleftrightarrow> search_at (match_word key) s \<noteq> None"

lemmas match_defs = match_digits_def match_integer_def match_word_def

text \<open>A stretch that does not hold the first character of the key is skipped.\<close>

lemma search_at_skip:
  "(\<And>c cs. c \<in> set xs \<Longrightarrow> p (c # cs) = None) \<Longrightarrow> search_at p (xs @ s) = search_at p s"
  by (induction xs) auto

lemma match_other [simp]:
  "c \<noteq> k \<Longrightarrow> match_digits (k # ks) (c # cs) = None"
  "c \<noteq> k \<Longrightarrow> match_integer (k # ks) (c # cs) = None"
  "c \<noteq> k \<Longrightarrow> match_word (k # ks) (c # cs) = None"
  by (simp_all add: match_defs)

lemma search_skip:
  "k \<notin> set xs \<Longrightarrow> search_at (match_digits (k # ks)) (xs @ s) = search_at (match_digits (k # ks)) s"
  "k \<notin> set xs \<Longrightarrow> search_at (match_integer (k # ks)) (xs @ s) = search_at (match_integer (k # ks)) s"
  "k \<notin> set xs \<Longrightarrow> search_at (match_word (k # ks)) (xs @ s) = search_at (match_word (k # ks)) s"
  by (rule search_at_skip, rule match_other, blast)+

lemma search_skip_nat [simp]:
  "\<not> is_digit k \<Longrightarrow> search_at (match_digits (k # ks)) (nat_str n @ s) = search_at (match_digits (k # ks)) s"
  "\<not> is_digit k \<Longrightarrow> search_at (match_word (k # ks)) (nat_str n @ s) = search_at (match_word (k # ks)) s"
  using nat_str_digits [of _ n] by (auto intro!: search_skip)

lemma search_skip_int [simp]:
  assumes "\<not> is_digit k" "k \<noteq> CHR ''-''"
  shows "search_at (match_digits (k # ks)) (int_str i @ s) = search_at (match_digits (k # ks)) s"
  using assms nat_str_digits [of _ "nat i"] nat_str_digits [of _ "nat (- i)"]
  by (intro search_skip) (auto simp: int_str_def)

lemma match_key_same [simp]: "match_key key (key @ s) = Some s"
  by (induction key) auto

lemma digits_nat_str [simp]: "\<not> is_digit c \<Longrightarrow> takeWhile is_digit (nat_str n @ c # s) = nat_str n"
  using nat_str_digits [of _ n] by (subst takeWhile_append2) auto

section \<open>Checks\<close>

definition TERMINAL_STATUSES :: "string set" where
  "TERMINAL_STATUSES = {''AIRED'', ''TRUNCATED'', ''SHORT'', ''SKIPPED'', ''SUBSTITUTED'', ''ERROR''}"

definition SCHEDULED_FIELDS_FORBIDDEN_IN_TEXT :: "string list" where
  "SCHEDULED_FIELDS_FORBIDDEN_IN_TEXT =
     [''scheduled_duration_ms'', ''scheduled_start_utc'', ''planned_duration_ms'', ''planned_start_utc'']"

text \<open>The rows of every event but those of blocks, in the order the events appear.\<close>

definition events_by_id :: "asrun_row list \<Rightarrow> (string \<times> asrun_row list) list" where
  "events_by_id rows =
     (let rs = filter (\<lambda>r. aw_type r \<noteq> ''BLOCK'') rows
      in map (\<lambda>i. (i, filter (\<lambda>r. aw_event r = i) rs)) (rev (remdups (rev (map aw_event rs)))))"

definition terminal_rows :: "asrun_row list \<Rightarrow> asrun_row list" where
  "terminal_rows rows = filter (\<lambda>r. aw_status r \<in> TERMINAL_STATUSES) rows"

definition seg_starts :: "asrun_row list \<Rightarrow> asrun_row list" where
  "seg_starts rows = filter (\<lambda>r. aw_status r = ''SEG_START'') rows"

definition validate_single_terminal_event :: "asrun_row list \<Rightarrow> artifact_error option" where
  "validate_single_terminal_event rows =
     first_error (\<lambda>(i, rs).
       let n = length (terminal_rows rs)
       in if 1 < n then Some (TwoTerminals i n)
          else if seg_starts rs \<noteq> [] \<and> terminal_rows rs = [] then Some (NoTerminal i 0) else None) (events_by_id rows)"

definition validate_no_zero_frame_terminal :: "asrun_row list \<Rightarrow> artifact_error option" where
  "validate_no_zero_frame_terminal rows =
     first_error (\<lambda>r.
       if aw_type r = ''BLOCK'' \<or> aw_status r \<notin> {''AIRED'', ''TRUNCATED''} then None
       else (case search_number ''frames='' (aw_notes r) of
               Some n \<Rightarrow> if n = 0 then Some (ZeroFrames (aw_event r) (aw_status r)) else None
             | None \<Rightarrow> None)) rows"

definition validate_seg_start_requires_terminal :: "asrun_row list \<Rightarrow> artifact_error option" where
  "validate_seg_start_requires_terminal rows =
     first_error (\<lambda>(i, rs).
       if seg_starts rs \<noteq> [] \<and> terminal_rows rs = [] then Some (NoTerminal i (length (seg_starts rs))) else None)
       (events_by_id rows)"

definition is_fence :: "asrun_row \<Rightarrow> bool" where
  "is_fence r \<longleftrightarrow> aw_status r = ''FENCE'' \<and> aw_type r = ''BLOCK''"

definition check_ticks :: "string \<Rightarrow> nat option \<Rightarrow> nat option \<Rightarrow> artifact_error option" where
  "check_ticks i swap fence =
     (case (swap, fence) of
        (Some s, Some f) \<Rightarrow>
          (if s = 0 then Some (TickNotPositive i s) else if f = 0 then Some (TickNotPositive i f)
           else if s \<noteq> f then Some (TicksDiffer i s f) else None)
      | (None, None) \<Rightarrow> None
      | _ \<Rightarrow> Some (OneTickOnly i (swap \<noteq> None)))"

definition check_budget :: "string \<Rightarrow> nat option \<Rightarrow> artifact_error option" where
  "check_budget i b =
     (case b of None \<Rightarrow> Some (NoBudget i) | Some n \<Rightarrow> if n \<noteq> 0 then Some (BudgetLeft i n) else None)"

definition validate_fence_absolute_ticks :: "asrun_row list \<Rightarrow> artifact_error option" where
  "validate_fence_absolute_ticks rows =
     first_error (\<lambda>r.
       if \<not> is_fence r then None
       else (case check_ticks (aw_event r) (search_number ''swap_tick='' (aw_notes r)) (search_number ''fence_tick='' (aw_notes r)) of
               Some e \<Rightarrow> Some e
             | None \<Rightarrow> check_budget (aw_event r) (search_number ''frame_budget_remaining='' (aw_notes r)))) rows"

definition validate_no_scheduled_fields_in_text :: "string \<Rightarrow> artifact_error option" where
  "validate_no_scheduled_fields_in_text s =
     first_error (\<lambda>f. if sublist f s then Some (PlannedField f) else None) SCHEDULED_FIELDS_FORBIDDEN_IN_TEXT"

definition validate_aired_includes_segment_index :: "asrun_row list \<Rightarrow> artifact_error option" where
  "validate_aired_includes_segment_index rows =
     first_error (\<lambda>r.
       if aw_status r = ''AIRED'' \<and> \<not> search_integer ''segment_index='' (aw_notes r)
       then Some (NoSegmentIndex (aw_event r)) else None) rows"

definition validate_fence_no_zero_ticks :: "asrun_row list \<Rightarrow> artifact_error option" where
  "validate_fence_no_zero_ticks rows =
     first_error (\<lambda>r.
       if \<not> is_fence r then None
       else if search_word ''swap_tick=0'' (aw_notes r) then Some (ZeroTick ''swap_tick'' (aw_event r))
       else if search_word ''fence_tick=0'' (aw_notes r) then Some (ZeroTick ''fence_tick'' (aw_event r)) else None) rows"

text \<open>\<open>^(\d{2}):(\d{2}):(\d{2})$\<close>, which lets a line break end the text; minutes and seconds are looked at.\<close>

definition clock_fields :: "string \<Rightarrow> (nat \<times> nat) option" where
  "clock_fields s =
     (let t = (if length s = 9 \<and> s ! 8 = CHR 0x0A then take 8 s else s);
          two = (\<lambda>k. take 2 (drop k t))
      in if length t = 8 \<and> t ! 2 = CHR '':'' \<and> t ! 5 = CHR '':'' \<and> (\<forall>k \<in> {0, 3, 6}. list_all is_digit (two k))
         then Some (numeral_value (two 3), numeral_value (two 6)) else None)"

definition validate_broadcast_day_time_format :: "asrun_row list \<Rightarrow> artifact_error option" where
  "validate_broadcast_day_time_format rows =
     first_error (\<lambda>r.
       if aw_actual r = [] then None
       else (case clock_fields (aw_actual r) of
               None \<Rightarrow> Some (BadTimeFormat (aw_actual r) (aw_event r))
             | Some (m, s) \<Rightarrow> if 59 < m \<or> 59 < s then Some (BadTime (aw_actual r)) else None)) rows"

end
