(* ===== verification/Evidence_Log.thy ===== *)
theory Evidence_Log
  imports AsRun_Artifact
begin

text \<open>
  What the evidence server promises: the rows it writes pass the checks of the artifact validator,
  an acknowledgement stands for a stored mark, evidence that is sent again changes nothing, and over
  any number of interrupted streams every event is accepted once and in order.  The last section shows
  where artifact and validator disagree.
\<close>

section \<open>Rows\<close>

definition row_ok :: "asrun_row \<Rightarrow> bool" where
  "row_ok r \<longleftrightarrow>
     validate_no_zero_frame_terminal [r] = None \<and> validate_fence_absolute_ticks [r] = None
     \<and> validate_aired_includes_segment_index [r] = None \<and> validate_fence_no_zero_ticks [r] = None"

lemmas row_checks = row_ok_def validate_no_zero_frame_terminal_def validate_fence_absolute_ticks_def
  validate_aired_includes_segment_index_def validate_fence_no_zero_ticks_def is_fence_def

lemma block_start_row_ok: "row_ok (fst (block_start_row w b))"
  by (simp add: row_checks block_start_row_def)

lemma segment_start_row_ok: "row_ok (fst (segment_start_row w s))"
  by (simp add: row_checks segment_start_row_def Let_def)

lemma channel_end_row_ok: "row_ok (fst (channel_end_row w session c))"
  by (simp add: row_checks channel_end_row_def)

lemma not_digit_literals [simp]:
  "\<not> is_digit (CHR ''f'')" "\<not> is_digit (CHR ''s'')" "\<not> is_digit (CHR '' '')" "\<not> is_digit (CHR ''-'')"
  by (simp_all add: is_digit_def)

text \<open>The notes of a fence up to the fixed tail \<open>t\<close>.\<close>

lemma frames_emitted_notes:
  assumes "search_at (match_digits ''swap_tick='') t = None" "search_at (match_digits ''fence_tick='') t = None"
    "search_at (match_word ''swap_tick=0'') t = None" "search_at (match_word ''fence_tick=0'') t = None"
    "search_at (match_digits ''frame_budget_remaining='') t = Some 0"
  shows "search_at (match_digits ''swap_tick='') (''frames_emitted='' @ nat_str k @ t) = None"
    "search_at (match_digits ''fence_tick='') (''frames_emitted='' @ nat_str k @ t) = None"
    "search_at (match_word ''swap_tick=0'') (''frames_emitted='' @ nat_str k @ t) = None"
    "search_at (match_word ''fence_tick=0'') (''frames_emitted='' @ nat_str k @ t) = None"
    "search_at (match_digits ''frame_budget_remaining='') (''frames_emitted='' @ nat_str k @ t) = Some 0"
  using assms by (simp_all add: match_defs)

lemma nat_str_no_leading_zero: "n \<noteq> 0 \<Longrightarrow> \<exists>c cs. nat_str n = c # cs \<and> c \<noteq> CHR ''0''"
proof (induction n rule: nat_str.induct)
  case (1 n)
  show ?case
  proof (cases "n < 10")
    case True
    then have "digit_char n \<noteq> CHR ''0''" using 1 digit_value_char [of n] digit_value_zero by metis
    then show ?thesis using True by (subst nat_str.simps) simp
  next
    case False
    then obtain c cs where "nat_str (n div 10) = c # cs" "c \<noteq> CHR ''0''" using "1.IH" by (auto simp: div_eq_0_iff)
    then show ?thesis using False by (subst nat_str.simps) simp
  qed
qed

lemma tick_notes:
  assumes n: "n \<noteq> 0"
    and t: "search_at (match_word ''swap_tick=0'') t = None" "search_at (match_word ''fence_tick=0'') t = None"
    "search_at (match_digits ''frame_budget_remaining='') t = Some 0"
  shows "search_at (match_digits ''swap_tick='') (fence_ticks n @ t) = Some n"
    "search_at (match_digits ''fence_tick='') (fence_ticks n @ t) = Some n"
    "search_at (match_word ''swap_tick=0'') (fence_ticks n @ t) = None"
    "search_at (match_word ''fence_tick=0'') (fence_ticks n @ t) = None"
    "search_at (match_digits ''frame_budget_remaining='') (fence_ticks n @ t) = Some 0"
proof -
  obtain c cs where c: "nat_str n = c # cs" "c \<noteq> CHR ''0''" using nat_str_no_leading_zero [OF n] by blast
  show "search_at (match_digits ''swap_tick='') (fence_ticks n @ t) = Some n"
    "search_at (match_digits ''fence_tick='') (fence_ticks n @ t) = Some n"
    "search_at (match_digits ''frame_budget_remaining='') (fence_ticks n @ t) = Some 0"
    using n t by (simp_all add: fence_ticks_def match_defs)
  have skip: "search_at (match_word (k # ks)) (c # cs @ s) = search_at (match_word (k # ks)) s" if "\<not> is_digit k" for k ks s
    using search_skip_nat(2) [OF that, of ks n s] c(1) by simp
  have other: "match_word (''swap_tick=0'') (''swap_tick='' @ c # x) = None" "match_word (''fence_tick=0'') (''fence_tick='' @ c # x) = None" for x
    using c(2) by (simp_all add: match_defs)
  show "search_at (match_word ''swap_tick=0'') (fence_ticks n @ t) = None"
    "search_at (match_word ''fence_tick=0'') (fence_ticks n @ t) = None"
    using n t c skip by (simp_all add: fence_ticks_def match_defs)
qed

lemma fence_row_ok: "row_ok (fst (block_fence_row w b))"
proof -
  let ?tail = "'' frame_budget_remaining=0 reason=FENCE primed_success='' @ yes_no (bf_primed b)
             @ '' truncated_by_fence='' @ yes_no (bf_truncated b) @ '' early_exhaustion='' @ yes_no (bf_early b)"
  have tail: "search_at (match_digits ''swap_tick='') ?tail = None" "search_at (match_digits ''fence_tick='') ?tail = None"
    "search_at (match_word ''swap_tick=0'') ?tail = None" "search_at (match_word ''fence_tick=0'') ?tail = None"
    "search_at (match_digits ''frame_budget_remaining='') ?tail = Some 0"
    by (cases "bf_primed b"; cases "bf_truncated b"; cases "bf_early b"; simp only: yes_no_def if_True if_False; code_simp)+
  note rest = frames_emitted_notes [OF tail, of "bf_frames b"]
  let ?r = "fst (block_fence_row w b)"
  have body: "aw_notes ?r = fence_ticks (bf_fence b) @ ''frames_emitted='' @ nat_str (bf_frames b) @ ?tail"
    and kind: "aw_status ?r = ''FENCE''" "aw_type ?r = ''BLOCK''"
    by (simp_all add: block_fence_row_def Let_def)
  have searches: "search_at (match_digits ''frame_budget_remaining='') (aw_notes ?r) = Some 0
      \<and> search_at (match_word ''swap_tick=0'') (aw_notes ?r) = None \<and> search_at (match_word ''fence_tick=0'') (aw_notes ?r) = None
      \<and> search_at (match_digits ''swap_tick='') (aw_notes ?r) = (if bf_fence b = 0 then None else Some (bf_fence b))
      \<and> search_at (match_digits ''fence_tick='') (aw_notes ?r) = (if bf_fence b = 0 then None else Some (bf_fence b))"
  proof (cases "bf_fence b = 0")
    case True
    then have "fence_ticks (bf_fence b) = []" by (simp add: fence_ticks_def)
    then show ?thesis unfolding body using True by (simp only: append_Nil rest if_True simp_thms)
  next
    case False
    show ?thesis unfolding body using False
      by (simp only: tick_notes [OF False rest(3-5)] if_False simp_thms)
  qed
  show ?thesis unfolding row_checks search_number_def search_word_def
    by (simp add: kind searches check_ticks_def check_budget_def)
qed

lemma match_integer_int_str: "match_integer key (key @ int_str i @ s) \<noteq> None"
proof (cases "i < 0")
  case True
  obtain c cs where "nat_str (nat (- i)) = c # cs" by (cases "nat_str (nat (- i))") simp_all
  then show ?thesis using True nat_str_digits [of c "nat (- i)"] by (simp add: match_integer_def int_str_def)
next
  case False
  obtain c cs where c: "nat_str (nat i) = c # cs" by (cases "nat_str (nat i)") simp_all
  moreover have "is_digit c" using nat_str_digits [of c "nat i"] c by simp
  moreover from this have "c \<noteq> CHR ''-''" by (auto simp: is_digit_def)
  ultimately show ?thesis using False by (simp add: match_integer_def int_str_def)
qed

lemma search_at_here: "p s \<noteq> None \<Longrightarrow> s \<noteq> [] \<Longrightarrow> search_at p s \<noteq> None"
  by (cases s) auto

lemma frames_found:
  assumes "0 < f" "r = [] \<or> (\<exists>x. r = CHR '' '' # x)"
  shows "search_at (match_digits ''frames='') (''segment_index='' @ int_str i @ '' ontime=Y fallback='' @ nat_str b
           @ '' asset_start='' @ int_str c @ '' asset_end='' @ int_str d @ '' frames='' @ int_str f @ r) = Some (nat f)"
proof -
  have "takeWhile is_digit (nat_str (nat f) @ r) = nat_str (nat f)"
    using assms(2) nat_str_digits [of _ "nat f"] by (auto simp: takeWhile_append)
  then show ?thesis using assms(1) by (simp add: match_defs int_str_def [of f])
qed

lemma segment_end_row_ok:
  assumes "\<not> end_suppressed st s"
  shows "row_ok (fst (segment_end_row w i u s))"
proof -
  let ?r = "fst (segment_end_row w i u s)"
  let ?rest = "(if u = [] then [] else '' segment_uuid='' @ u) @ (if se_reason s = [] then [] else '' reason='' @ se_reason s)"
  have body: "aw_notes ?r = ''segment_index='' @ int_str i @ '' ontime=Y fallback='' @ nat_str (se_fallback s)
             @ '' asset_start='' @ int_str (se_first_frame s) @ '' asset_end='' @ int_str (se_last_frame s)
             @ '' frames='' @ int_str (se_frames s) @ ?rest"
    and kind: "aw_status ?r = or_text (se_status s) ''AIRED''" "aw_type ?r = ''PROGRAM''"
    by (simp_all add: segment_end_row_def Let_def)
  have index: "search_at (match_integer ''segment_index='') (aw_notes ?r) \<noteq> None"
    unfolding body by (intro search_at_here match_integer_int_str) simp
  have frames: "search_at (match_digits ''frames='') (aw_notes ?r) = Some (nat (se_frames s))" if pos: "0 < se_frames s"
    unfolding body using pos by (rule frames_found) simp
  show ?thesis unfolding row_checks search_number_def search_integer_def
    using assms index frames by (auto simp: kind end_suppressed_def split: option.splits)
qed

lemma process_row_ok:
  "process_evidence w session p st = (st', Some (r, j)) \<Longrightarrow> row_ok r"
  using block_start_row_ok segment_start_row_ok segment_end_row_ok fence_row_ok channel_end_row_ok
  by (auto simp: process_evidence_def split: evidence.splits if_splits) (metis fst_conv)+

text \<open>The lines of a file, and what one step adds to them: a header to an empty file, and checked rows.\<close>

definition lines_at :: "string \<times> date \<Rightarrow> evidence_server \<Rightarrow> string list" where
  "lines_at k sv = (case map_of (ev_files sv) k of None \<Rightarrow> [] | Some f \<Rightarrow> fl_lines f)"

definition log_grows :: "string \<times> date \<Rightarrow> evidence_server \<Rightarrow> evidence_server \<Rightarrow> bool" where
  "log_grows k sv sv' \<longleftrightarrow>
     (\<exists>start rows. lines_at k sv' = start @ map format_asrun_line rows \<and> (\<forall>r \<in> set rows. row_ok r)
        \<and> (start = lines_at k sv \<or> lines_at k sv = [] \<and> (\<exists>now. start = asrun_header (fst k) now)))"

lemma log_grows_same: "lines_at k sv' = lines_at k sv \<Longrightarrow> log_grows k sv sv'"
  unfolding log_grows_def by (rule exI [of _ "lines_at k sv"], rule exI [of _ "[]"]) simp

lemma log_grows_row: "lines_at k sv' = lines_at k sv @ [format_asrun_line r] \<Longrightarrow> row_ok r \<Longrightarrow> log_grows k sv sv'"
  unfolding log_grows_def by (rule exI [of _ "lines_at k sv"], rule exI [of _ "[r]"]) simp

lemma log_grows_header:
  "lines_at k sv = [] \<Longrightarrow> lines_at k sv' = asrun_header (fst k) now \<Longrightarrow> log_grows k sv sv'"
  unfolding log_grows_def by (rule exI [of _ "asrun_header (fst k) now"], rule exI [of _ "[]"]) auto

lemma log_grows_trans:
  assumes "log_grows k sv sv'" "log_grows k sv' sv''"
  shows "log_grows k sv sv''"
proof -
  let ?start = "\<lambda>sv s. s = lines_at k sv \<or> lines_at k sv = [] \<and> (\<exists>now. s = asrun_header (fst k) now)"
  obtain s1 r1 where 1: "lines_at k sv' = s1 @ map format_asrun_line r1" "\<forall>r \<in> set r1. row_ok r" "?start sv s1"
    using assms(1) unfolding log_grows_def by blast
  obtain s2 r2 where 2: "lines_at k sv'' = s2 @ map format_asrun_line r2" "\<forall>r \<in> set r2. row_ok r" "?start sv' s2"
    using assms(2) unfolding log_grows_def by blast
  from 2(3) show ?thesis
  proof
    assume "s2 = lines_at k sv'"
    then have "lines_at k sv'' = s1 @ map format_asrun_line (r1 @ r2)" using 1(1) 2(1) by simp
    moreover have "\<forall>r \<in> set (r1 @ r2). row_ok r" using 1(2) 2(2) by auto
    ultimately show ?thesis unfolding log_grows_def using 1(3) by blast
  next
    assume s2: "lines_at k sv' = [] \<and> (\<exists>now. s2 = asrun_header (fst k) now)"
    then have "lines_at k sv = []" using 1(1,3) by auto
    with s2 show ?thesis unfolding log_grows_def using 2(1,2) by blast
  qed
qed

lemma lines_at_put:
  "lines_at k (sv\<lparr>ev_acks := a, ev_files := dict_set k' f fs\<rparr>)
     = (if k = k' then fl_lines f else lines_at k (sv\<lparr>ev_files := fs\<rparr>))"
  "lines_at k (sv\<lparr>ev_files := dict_set k' f fs\<rparr>) = (if k = k' then fl_lines f else lines_at k (sv\<lparr>ev_files := fs\<rparr>))"
  "lines_at k (sv\<lparr>ev_acks := a\<rparr>) = lines_at k sv"
  by (simp_all add: lines_at_def map_of_dict_set)

lemma lines_of_file: "fl_lines (file_of w (ev_files sv)) = lines_at (wr_channel w, wr_day w) sv"
  by (simp add: lines_at_def file_of_def split: option.splits)

lemma ensure_writer_grows:
  assumes "ensure_writer now m st sv = (st', sv')"
  shows "log_grows k sv sv'"
proof (cases "st_writer st = None \<and> em_channel m \<noteq> []")
  case True
  let ?w = "\<lparr>wr_channel = em_channel m, wr_day = date_of now\<rparr>"
  obtain a where sv': "sv' = sv\<lparr>ev_acks := a, ev_files := snd (open_writer (em_channel m) now (ev_files sv))\<rparr>"
    using assms True by (auto simp: ensure_writer_def open_writer_def Let_def split: prod.splits)
  show ?thesis
  proof (cases "k = (em_channel m, date_of now) \<and> lines_at k sv = []")
    case True
    then have k: "k = (em_channel m, date_of now)" and empty: "lines_at (em_channel m, date_of now) sv = []" by blast+
    then show ?thesis
      using lines_of_file [of ?w sv] by (intro log_grows_header [of _ _ _ now]) (simp_all add: k sv' open_writer_def Let_def lines_at_put)
  next
    case False
    then show ?thesis
      using lines_of_file [of ?w sv] by (intro log_grows_same) (auto simp: sv' open_writer_def Let_def lines_at_put)
  qed
next
  case False
  then show ?thesis using assms by (auto simp: ensure_writer_def intro: log_grows_same)
qed

lemma write_evidence_grows:
  assumes "write_evidence m st sv = (st', sv')"
  shows "log_grows k sv sv'"
proof (cases "st_writer st")
  case None
  then show ?thesis using assms by (simp add: write_evidence_def log_grows_same)
next
  case (Some w)
  obtain st1 r where p: "process_evidence w (em_session m) (em_payload m) st = (st1, r)" by (cases "process_evidence w (em_session m) (em_payload m) st")
  show ?thesis
  proof (cases r)
    case None
    then show ?thesis using assms Some p by (simp add: write_evidence_def log_grows_same)
  next
    case (Some rj)
    obtain row j where rj: "rj = (row, j)" by (cases rj)
    have sv': "sv' = sv\<lparr>ev_files := write_and_flush w row j (ev_files sv)\<rparr>"
      using assms \<open>st_writer st = Some w\<close> p Some rj by (simp add: write_evidence_def)
    have ok: "row_ok row" using p Some rj process_row_ok by simp
    have "lines_at k sv' = (if k = (wr_channel w, wr_day w) then lines_at k sv @ [format_asrun_line row] else lines_at k sv)"
      by (simp add: sv' write_and_flush_def Let_def lines_at_put lines_of_file)
    then show ?thesis using log_grows_row [OF _ ok] log_grows_same by (metis (full_types))
  qed
qed

lemma store_ack_grows: "log_grows k sv (store_ack now m sv)"
  by (rule log_grows_same) (simp add: store_ack_def lines_at_def)

lemma handle_evidence_grows:
  assumes "handle_evidence now m st sv = (st', sv')"
  shows "log_grows k sv sv'"
proof -
  obtain st1 sv1 where e: "ensure_writer now m st sv = (st1, sv1)" by (cases "ensure_writer now m st sv")
  obtain st2 sv2 where w: "write_evidence m (note_seen m st1) sv1 = (st2, sv2)" by (cases "write_evidence m (note_seen m st1) sv1")
  note grows = ensure_writer_grows [OF e, of k] write_evidence_grows [OF w, of k] store_ack_grows [of k sv2 now m]
  have "sv' = (if is_duplicate m st1 then sv1 else store_ack now m sv2)" using assms e w by (simp add: handle_evidence_def split: if_splits)
  then show ?thesis using grows log_grows_trans by metis
qed

text \<open>
  C15. Whatever evidence a stream delivers, a file gains a header when it was empty and then only lines of
  rows that pass the four checks of the validator on statuses and notes: terminals carry frames and a
  segment index, fences carry ticks that are equal, positive or absent and a spent frame budget.  The other
  four checks are not covered and may refuse what was written: one terminal per event, a terminal for every
  start, no scheduled fields in the text, and the time format (theorems below show how).
\<close>

theorem stream_rows_pass_note_checks:
  assumes "evidence_stream ms st sv = (st', sv', acks)"
  shows "\<exists>start rows. lines_at k sv' = start @ map format_asrun_line rows
    \<and> (start = lines_at k sv \<or> lines_at k sv = [] \<and> (\<exists>now. start = asrun_header (fst k) now))
    \<and> (\<forall>r \<in> set rows. validate_no_zero_frame_terminal [r] = None \<and> validate_fence_absolute_ticks [r] = None
          \<and> validate_aired_includes_segment_index [r] = None \<and> validate_fence_no_zero_ticks [r] = None)"
proof -
  have "log_grows k sv sv'"
    using assms
  proof (induction ms arbitrary: st sv acks)
    case Nil
    then show ?case by (simp add: log_grows_same)
  next
    case (Cons x ms)
    obtain now m where x: "x = (now, m)" by (cases x)
    obtain st1 sv1 where h: "handle_evidence now m st sv = (st1, sv1)" by (cases "handle_evidence now m st sv")
    obtain acks1 where s: "evidence_stream ms st1 sv1 = (st', sv', acks1)" using Cons.prems x h by (auto split: prod.splits)
    show ?case using handle_evidence_grows [OF h] Cons.IH [OF s] log_grows_trans by blast
  qed
  then show ?thesis unfolding log_grows_def row_ok_def by blast
qed

section \<open>Acknowledgements\<close>

lemma mark_of_ack_text:
  assumes "0 \<le> n"
  shows "mark_of_text (ack_text now n) = n"
proof -
  let ?body = "''updated_utc='' @ iso_date (date_of now) @ ''T'' @ clock_hms now @ ''.'' @ zero_pad 3 (nat (now mod 1000000 div 1000))"
  have "is_space (CHR 0x0A)" "\<not> is_space (CHR ''Z'')" "\<not> is_space (CHR ''a'')" by (simp_all add: is_space_def)
  then have strip: "strip (ack_text now n) = ''acked_sequence='' @ int_str n @ CHR 0x0A # ?body @ ''Z''"
    by (simp add: strip_def ack_text_def)
  have int: "int_str n = nat_str (nat n)" using assms by (simp add: int_str_def)
  have "CHR 0x0A \<notin> set (nat_str (nat n))" using nat_str_digits [of "CHR 0x0A" "nat n"] by (auto simp: is_digit_def)
  then have "CHR 0x0A \<notin> set (''acked_sequence='' @ int_str n)" by (simp add: int)
  then have "split_on (CHR 0x0A) (strip (ack_text now n)) = (''acked_sequence='' @ int_str n) # split_on (CHR 0x0A) (?body @ ''Z'')"
    unfolding strip using split_on_append [of "CHR 0x0A" "''acked_sequence='' @ int_str n"] by (simp only: append_assoc simp_thms)
  moreover have "py_int (int_str n) = Some n"
    using py_int_digits [of "nat_str (nat n)"] nat_str_digits assms by (simp add: int)
  ultimately show ?thesis by (simp add: mark_of_text_def)
qed

text \<open>The marks in memory are those on disk.\<close>

definition acks_agree :: "ack_store \<Rightarrow> bool" where
  "acks_agree a \<longleftrightarrow> (\<forall>k n. map_of (ak_memory a) k = Some n \<longrightarrow> load_mark k a = n)"

lemma acks_agree_restarted: "acks_agree (ev_acks (restarted sv))"
  by (simp add: acks_agree_def restarted_def)

lemma load_mark_restarted: "load_mark k (ev_acks (restarted sv)) = load_mark k (ev_acks sv)"
  by (simp add: load_mark_def restarted_def)

lemma load_mark_put:
  "load_mark k (a\<lparr>ak_memory := x\<rparr>) = load_mark k a"
  "load_mark k (a\<lparr>ak_memory := x, ak_disk := dict_set j s (ak_disk a)\<rparr>) = (if k = j then mark_of_text s else load_mark k a)"
  by (simp_all add: load_mark_def map_of_dict_set)

lemma ack_get_mark:
  assumes "acks_agree a" "ack_get k a = (a', n)"
  shows "acks_agree a' \<and> n = load_mark k a \<and> load_mark j a' = load_mark j a \<and> map_of (ak_memory a') k \<noteq> None"
  using assms
  by (auto simp: ack_get_def acks_agree_def load_mark_put Let_def map_of_dict_set simp del: split_paired_All split: option.splits if_splits)

lemma ack_update_mark:
  assumes agree: "acks_agree a" and k: "map_of (ak_memory a) k \<noteq> None" and n: "0 \<le> n"
  shows "acks_agree (ack_update now k n a) \<and> load_mark k (ack_update now k n a) = max (load_mark k a) n
    \<and> map_of (ak_memory (ack_update now k n a)) k \<noteq> None"
proof -
  obtain m where m: "map_of (ak_memory a) k = Some m" using k by auto
  then have "load_mark k a = m" using agree by (simp add: acks_agree_def del: split_paired_All)
  then show ?thesis
    using agree m mark_of_ack_text [OF n, of now]
    by (auto simp: ack_update_def acks_agree_def load_mark_put Let_def map_of_dict_set simp del: split_paired_All)
qed

lemma process_frame [rv_frame]:
  "process_evidence w session p st = (st', r) \<Longrightarrow>
    st_writer st' = st_writer st \<and> st_seen st' = st_seen st \<and> st_mark st' = st_mark st"
  by (auto simp: process_evidence_def note_end_def Let_def split: evidence.splits if_splits)

lemma write_evidence_frame [rv_frame]:
  "write_evidence m st sv = (st', sv') \<Longrightarrow>
    st_writer st' = st_writer st \<and> st_seen st' = st_seen st \<and> st_mark st' = st_mark st \<and> ev_acks sv' = ev_acks sv"
  by (auto simp: write_evidence_def split: option.splits prod.splits dest: process_frame)

text \<open>A stream of one session: its files are open, its mark is known, and what it has seen is stored.\<close>

definition mark_at :: "string \<times> string \<Rightarrow> evidence_server \<Rightarrow> int" where
  "mark_at k sv = load_mark k (ev_acks sv)"

definition stream_ok :: "string \<times> string \<Rightarrow> evidence_msg set \<Rightarrow> stream_state \<Rightarrow> evidence_server \<Rightarrow> bool" where
  "stream_ok k M st sv \<longleftrightarrow>
     acks_agree (ev_acks sv)
     \<and> (if st_writer st = None then st_seen st = []
        else map_of (ak_memory (ev_acks sv)) k \<noteq> None \<and> st_mark st \<le> mark_at k sv
             \<and> (\<forall>m \<in> M. em_uuid m \<in> set (st_seen st) \<longrightarrow> int (em_seq m) \<le> mark_at k sv))"

lemma ensure_writer_ok:
  assumes "ensure_writer now m st sv = (st', sv')" "stream_ok k M st sv" "k = (em_channel m, em_session m)" "em_channel m \<noteq> []"
  shows "stream_ok k M st' sv' \<and> st_writer st' \<noteq> None \<and> mark_at k sv' = mark_at k sv
    \<and> st_mark st' = (if st_writer st = None then mark_at k sv else st_mark st) \<and> st_seen st' = st_seen st"
proof (cases "st_writer st")
  case None
  obtain w fs where w: "open_writer (em_channel m) now (ev_files sv) = (w, fs)" by (cases "open_writer (em_channel m) now (ev_files sv)")
  obtain a n where a: "ack_get k (ev_acks sv) = (a, n)" by (cases "ack_get k (ev_acks sv)")
  have "st' = st\<lparr>st_writer := Some w, st_mark := n\<rparr> \<and> sv' = sv\<lparr>ev_acks := a, ev_files := fs\<rparr>"
    using assms None w a by (simp add: ensure_writer_def)
  then show ?thesis using assms(2) None ack_get_mark [OF _ a, of k] by (auto simp: stream_ok_def mark_at_def)
next
  case (Some w)
  then show ?thesis using assms by (simp add: ensure_writer_def)
qed

lemma handle_evidence_ok:
  assumes h: "handle_evidence now m st sv = (st', sv')" and ok: "stream_ok k M st sv"
    and k: "k = (em_channel m, em_session m)" "em_channel m \<noteq> []" and m: "m \<in> M"
    and uuids: "\<forall>m \<in> M. \<forall>m' \<in> M. em_uuid m = em_uuid m' \<longrightarrow> em_seq m = em_seq m'"
  shows "stream_ok k M st' sv' \<and> st_writer st' \<noteq> None \<and> int (em_seq m) \<le> mark_at k sv' \<and> mark_at k sv \<le> mark_at k sv'"
proof -
  obtain st1 sv1 where e: "ensure_writer now m st sv = (st1, sv1)" by (cases "ensure_writer now m st sv")
  note open1 = ensure_writer_ok [OF e ok k]
  show ?thesis
  proof (cases "is_duplicate m st1")
    case True
    then have "st' = st1 \<and> sv' = sv1" using h e by (simp add: handle_evidence_def)
    then show ?thesis using True open1 m by (auto simp: is_duplicate_def stream_ok_def)
  next
    case False
    obtain st2 sv2 where w: "write_evidence m (note_seen m st1) sv1 = (st2, sv2)" by (cases "write_evidence m (note_seen m st1) sv1")
    note frame = write_evidence_frame [OF w]
    have final: "st' = st2 \<and> sv' = store_ack now m sv2" using h e w False by (simp add: handle_evidence_def)
    have acks: "ev_acks sv2 = ev_acks sv1" and writer: "st_writer st2 = st_writer st1" and mark: "st_mark st2 = st_mark st1"
      and seen: "st_seen st2 = st_seen (note_seen m st1)"
      using frame by (simp_all add: note_seen_def split: if_splits)
    have ok1: "stream_ok k M st1 sv1" "st_writer st1 \<noteq> None" "mark_at k sv1 = mark_at k sv" using open1 by blast+
    then have ok1': "acks_agree (ev_acks sv1)" "map_of (ak_memory (ev_acks sv1)) k \<noteq> None" "st_mark st1 \<le> mark_at k sv1"
      "\<And>x. x \<in> M \<Longrightarrow> em_uuid x \<in> set (st_seen st1) \<Longrightarrow> int (em_seq x) \<le> mark_at k sv1"
      unfolding stream_ok_def by (simp_all del: split_paired_All)
    have stored: "ev_acks sv' = ack_update now k (int (em_seq m)) (ev_acks sv1)"
      using final acks k by (simp add: store_ack_def)
    note up = ack_update_mark [OF ok1'(1,2), of "int (em_seq m)" now]
    have marks: "mark_at k sv' = max (mark_at k sv) (int (em_seq m))"
      using up ok1(3) stored unfolding mark_at_def by simp
    have "int (em_seq x) \<le> mark_at k sv'" if x: "x \<in> M" "em_uuid x \<in> set (st_seen st')" for x
    proof (cases "em_uuid x \<in> set (st_seen st1)")
      case True
      then show ?thesis using ok1'(4) [OF x(1)] ok1(3) marks by linarith
    next
      case False
      then have "em_uuid x = em_uuid m" using x(2) final seen by (simp add: note_seen_def split: if_splits)
      then have "em_seq x = em_seq m" using uuids m x(1) by blast
      then show ?thesis using marks by simp
    qed
    then have "stream_ok k M st' sv'"
      using up ok1'(3) ok1(2,3) marks stored final writer mark unfolding stream_ok_def by (auto simp del: split_paired_All)
    then show ?thesis using marks final writer ok1(2) by simp
  qed
qed

text \<open>
  C13. An acknowledgement stands for durable evidence: when a stream of one session has been handled,
  every sequence number it acknowledged is covered by the mark on disk, also for a server that starts
  again, and no mark has been lowered (equal identities carry equal numbers).
\<close>

theorem acknowledged_evidence_is_durable:
  assumes "evidence_stream ms new_stream sv = (st', sv', acks)" "acks_agree (ev_acks sv)" "fst k \<noteq> []"
    and "\<forall>(now, m) \<in> set ms. (em_channel m, em_session m) = k"
    and "\<forall>x \<in> set ms. \<forall>y \<in> set ms. em_uuid (snd x) = em_uuid (snd y) \<longrightarrow> em_seq (snd x) = em_seq (snd y)"
  shows "(\<forall>n \<in> set acks. int n \<le> mark_at k (restarted sv')) \<and> mark_at k sv \<le> mark_at k (restarted sv')"
proof -
  have "(\<forall>n \<in> set acks. int n \<le> mark_at k sv') \<and> mark_at k sv \<le> mark_at k sv'"
    if "evidence_stream xs st sv = (st', sv', acks)" "stream_ok k (snd ` set ms) st sv" "set xs \<subseteq> set ms" for xs st sv acks
    using that
  proof (induction xs arbitrary: st sv acks)
    case Nil
    then show ?case by simp
  next
    case (Cons x xs)
    obtain now m where x: "x = (now, m)" by (cases x)
    obtain st1 sv1 where h: "handle_evidence now m st sv = (st1, sv1)" by (cases "handle_evidence now m st sv")
    obtain as where s: "evidence_stream xs st1 sv1 = (st', sv', as)" "acks = em_seq m # as"
      using Cons.prems(1) x h by (auto split: prod.splits)
    have mem: "(now, m) \<in> set ms" using Cons.prems(3) x by simp
    then have key: "k = (em_channel m, em_session m)" "em_channel m \<noteq> []" using assms(3,4) by auto
    have M: "m \<in> snd ` set ms" using mem by force
    have uu: "\<forall>m \<in> snd ` set ms. \<forall>m' \<in> snd ` set ms. em_uuid m = em_uuid m' \<longrightarrow> em_seq m = em_seq m'" using assms(5) by blast
    note h_ok = handle_evidence_ok [OF h Cons.prems(2) key M uu]
    have "(\<forall>n \<in> set as. int n \<le> mark_at k sv') \<and> mark_at k sv1 \<le> mark_at k sv'"
      by (rule Cons.IH [OF s(1)]) (use h_ok Cons.prems(3) in auto)
    then show ?case using h_ok s(2) by auto
  qed
  moreover have "stream_ok k (snd ` set ms) new_stream sv" using assms(2) by (simp add: stream_ok_def new_stream_def)
  ultimately have "(\<forall>n \<in> set acks. int n \<le> mark_at k sv') \<and> mark_at k sv \<le> mark_at k sv'" using assms(1) by blast
  then show ?thesis unfolding mark_at_def load_mark_restarted .
qed

section \<open>Replays\<close>

text \<open>The messages that are not taken for duplicates, in a stream and in streams with restarts between them.\<close>

fun accepted :: "(datetime \<times> evidence_msg) list \<Rightarrow> stream_state \<Rightarrow> evidence_server \<Rightarrow> evidence_msg list" where
  "accepted [] st sv = []"
| "accepted ((now, m) # ms) st sv =
     (if is_duplicate m (fst (ensure_writer now m st sv)) then [] else [m])
       @ accepted ms (fst (handle_evidence now m st sv)) (snd (handle_evidence now m st sv))"

fun accepted_runs :: "(datetime \<times> evidence_msg) list list \<Rightarrow> evidence_server \<Rightarrow> evidence_msg list" where
  "accepted_runs [] sv = []"
| "accepted_runs (ms # mss) sv =
     accepted ms new_stream sv @ accepted_runs mss (restarted (fst (snd (evidence_stream ms new_stream sv))))"

text \<open>
  The journal of a session numbers its events.  A stream sends the events from \<open>a\<close> to below \<open>b\<close>; it
  resumes if it leaves no gap after the highest event sent so far.
\<close>

definition journal :: "string \<times> string \<Rightarrow> (nat \<Rightarrow> evidence_msg) \<Rightarrow> bool" where
  "journal k J \<longleftrightarrow>
     fst k \<noteq> []
     \<and> (\<forall>i. em_channel (J i) = fst k \<and> em_session (J i) = snd k \<and> em_seq (J i) = i \<and> em_uuid (J i) \<noteq> ''hello'')
     \<and> (\<forall>i j. em_uuid (J i) = em_uuid (J j) \<longrightarrow> i = j)"

definition stream_of :: "(nat \<Rightarrow> evidence_msg) \<Rightarrow> datetime \<times> nat \<times> nat \<Rightarrow> (datetime \<times> evidence_msg) list" where
  "stream_of J s = (case s of (t, a, b) \<Rightarrow> map (\<lambda>i. (t, J i)) [a..<b])"

fun resumes :: "nat \<Rightarrow> (datetime \<times> nat \<times> nat) list \<Rightarrow> bool" where
  "resumes m [] \<longleftrightarrow> True"
| "resumes m ((t, a, b) # ss) \<longleftrightarrow> 0 < a \<and> a \<le> Suc m \<and> resumes (max m (b - 1)) ss"

fun highest_sent :: "nat \<Rightarrow> (datetime \<times> nat \<times> nat) list \<Rightarrow> nat" where
  "highest_sent m [] = m"
| "highest_sent m ((t, a, b) # ss) = highest_sent (max m (b - 1)) ss"

lemma handle_in_order:
  assumes h: "handle_evidence now m st sv = (st', sv')" and ok: "stream_ok k {} st sv"
    and k: "k = (em_channel m, em_session m)" "em_channel m \<noteq> []"
    and mark: "if st_writer st = None then mark_at k sv = \<mu> else st_mark st = \<mu> \<and> \<mu> \<le> mark_at k sv"
    and new: "em_uuid m \<notin> set (st_seen st)" "em_uuid m \<noteq> ''hello''" "0 < em_seq m"
  shows "(is_duplicate m (fst (ensure_writer now m st sv)) \<longleftrightarrow> int (em_seq m) \<le> \<mu>)
    \<and> stream_ok k {} st' sv' \<and> st_writer st' \<noteq> None \<and> st_mark st' = \<mu>
    \<and> mark_at k sv' = max (mark_at k sv) (int (em_seq m)) \<and> set (st_seen st') \<subseteq> insert (em_uuid m) (set (st_seen st))"
proof -
  obtain st1 sv1 where e: "ensure_writer now m st sv = (st1, sv1)" by (cases "ensure_writer now m st sv")
  note open1 = ensure_writer_ok [OF e ok k]
  have \<mu>: "st_mark st1 = \<mu>" "\<mu> \<le> mark_at k sv" using open1 mark by (auto split: if_splits)
  have dup: "is_duplicate m st1 \<longleftrightarrow> int (em_seq m) \<le> \<mu>"
    using open1 new \<mu>(1) by (simp add: is_duplicate_def)
  have "stream_ok k {} st' sv' \<and> st_writer st' \<noteq> None \<and> mark_at k sv' = max (mark_at k sv) (int (em_seq m))
    \<and> st_mark st' = \<mu> \<and> set (st_seen st') \<subseteq> insert (em_uuid m) (set (st_seen st))"
  proof (cases "is_duplicate m st1")
    case True
    then have "st' = st1 \<and> sv' = sv1" using h e by (simp add: handle_evidence_def)
    then show ?thesis using open1 \<mu> True dup by auto
  next
    case False
    obtain st2 sv2 where w: "write_evidence m (note_seen m st1) sv1 = (st2, sv2)" by (cases "write_evidence m (note_seen m st1) sv1")
    have acks: "ev_acks sv2 = ev_acks sv1" and st2: "st_writer st2 = st_writer st1" "st_mark st2 = st_mark st1"
      "st_seen st2 = em_uuid m # st_seen st1"
      using write_evidence_frame [OF w] new(2) by (simp_all add: note_seen_def)
    have final: "st' = st2" "ev_acks sv' = ack_update now k (int (em_seq m)) (ev_acks sv1)"
      using h e w False acks k by (auto simp: handle_evidence_def store_ack_def)
    have "acks_agree (ev_acks sv1)" "map_of (ak_memory (ev_acks sv1)) k \<noteq> None" "mark_at k sv1 = mark_at k sv"
      using open1 unfolding stream_ok_def by (auto simp del: split_paired_All)
    then show ?thesis
      using ack_update_mark [of "ev_acks sv1" k "int (em_seq m)" now] open1 \<mu> final st2
      unfolding stream_ok_def mark_at_def by (auto simp del: split_paired_All)
  qed
  then show ?thesis using dup e by simp
qed

lemma stream_in_order:
  assumes J: "journal k J"
  shows "evidence_stream (map (\<lambda>i. (t, J i)) [a..<b]) st sv = (st', sv', acks) \<Longrightarrow> 0 < a \<Longrightarrow> stream_ok k {} st sv
    \<Longrightarrow> (if st_writer st = None then mark_at k sv = \<mu> else st_mark st = \<mu> \<and> \<mu> \<le> mark_at k sv)
    \<Longrightarrow> (\<forall>u \<in> set (st_seen st). \<exists>j < a. u = em_uuid (J j))
    \<Longrightarrow> accepted (map (\<lambda>i. (t, J i)) [a..<b]) st sv = map J (filter (\<lambda>i. \<mu> < int i) [a..<b])
      \<and> acks_agree (ev_acks sv') \<and> mark_at k sv' = (if a < b then max (mark_at k sv) (int b - 1) else mark_at k sv)"
proof (induction "b - a" arbitrary: a st sv acks)
  case 0
  then show ?case by (auto simp: stream_ok_def simp del: split_paired_All)
next
  case (Suc d)
  then have list: "[a..<b] = a # [Suc a..<b]" by (simp add: upt_conv_Cons)
  obtain st1 sv1 where h: "handle_evidence t (J a) st sv = (st1, sv1)" by (cases "handle_evidence t (J a) st sv")
  obtain as where s: "evidence_stream (map (\<lambda>i. (t, J i)) [Suc a..<b]) st1 sv1 = (st', sv', as)"
    using Suc.prems(1) h unfolding list by (auto split: prod.splits)
  have key: "k = (em_channel (J a), em_session (J a))" "em_channel (J a) \<noteq> []" and seq: "em_seq (J a) = a"
    and uuid: "em_uuid (J a) \<noteq> ''hello''" "em_uuid (J a) \<notin> set (st_seen st)"
    using J Suc.prems(5) unfolding journal_def by (auto simp: prod_eq_iff)
  note step = handle_in_order [OF h Suc.prems(3) key Suc.prems(4) uuid(2,1)]
  have step': "(is_duplicate (J a) (fst (ensure_writer t (J a) st sv)) \<longleftrightarrow> int a \<le> \<mu>)" "stream_ok k {} st1 sv1"
    "st_writer st1 \<noteq> None" "st_mark st1 = \<mu>" "mark_at k sv1 = max (mark_at k sv) (int a)"
    "set (st_seen st1) \<subseteq> insert (em_uuid (J a)) (set (st_seen st))"
    using step Suc.prems(2) seq by auto
  have "\<mu> \<le> mark_at k sv1" using Suc.prems(4) step'(5) by (auto split: if_splits)
  then have ih: "accepted (map (\<lambda>i. (t, J i)) [Suc a..<b]) st1 sv1 = map J (filter (\<lambda>i. \<mu> < int i) [Suc a..<b])
      \<and> acks_agree (ev_acks sv') \<and> mark_at k sv' = (if Suc a < b then max (mark_at k sv1) (int b - 1) else mark_at k sv1)"
    using Suc.hyps(2) Suc.prems(5) step' by (intro Suc.hyps(1) [OF _ s]) (auto simp: less_Suc_eq)
  have "a < b" using Suc.hyps(2) by simp
  then show ?case using ih step'(1,5) h unfolding list by (auto simp: max_def)
qed

lemma filter_upt_above: "a \<le> Suc m \<Longrightarrow> filter (\<lambda>i. m < i) [a..<b] = [Suc m..<b]"
  by (induction b) auto

lemma highest_sent_ge: "m \<le> highest_sent m ss"
proof (induction ss arbitrary: m)
  case (Cons s ss)
  obtain t a b where "s = (t, a, b)" by (cases s)
  then show ?case using Cons.IH [of "max m (b - 1)"] by simp
qed simp

text \<open>
  C6. Every event of a session is accepted exactly once and in order, however often the stream breaks,
  the server starts again and the engine sends old events again, as long as no stream leaves a gap.
\<close>

theorem each_event_accepted_once:
  assumes "journal k J" "resumes m ss" "mark_at k sv = int m" "acks_agree (ev_acks sv)"
  shows "accepted_runs (map (stream_of J) ss) sv = map J [Suc m ..< Suc (highest_sent m ss)]"
  using assms(2-4)
proof (induction ss arbitrary: m sv)
  case Nil
  then show ?case by simp
next
  case (Cons s ss)
  obtain t a b where s: "s = (t, a, b)" by (cases s)
  have a: "0 < a" "a \<le> Suc m" and rest: "resumes (max m (b - 1)) ss" using Cons.prems(1) s by simp_all
  obtain st' sv' acks where run: "evidence_stream (stream_of J s) new_stream sv = (st', sv', acks)"
    by (cases "evidence_stream (stream_of J s) new_stream sv")
  have "stream_ok k {} new_stream sv" using Cons.prems(3) by (simp add: stream_ok_def new_stream_def)
  then have one: "accepted (stream_of J s) new_stream sv = map J (filter (\<lambda>i. int m < int i) [a..<b])
      \<and> acks_agree (ev_acks sv') \<and> mark_at k sv' = (if a < b then max (mark_at k sv) (int b - 1) else mark_at k sv)"
    using stream_in_order [OF assms(1), of t a b new_stream sv st' sv' acks "int m"] run a(1) Cons.prems(2)
    by (simp add: s stream_of_def new_stream_def)
  have "mark_at k (restarted sv') = int (max m (b - 1))"
    using one a Cons.prems(2) by (auto simp: mark_at_def load_mark_restarted)
  then have "accepted_runs (map (stream_of J) ss) (restarted sv') = map J [Suc (max m (b - 1)) ..< Suc (highest_sent (max m (b - 1)) ss)]"
    by (rule Cons.IH [OF rest _ acks_agree_restarted])
  moreover have "[Suc m..<b] @ [Suc (max m (b - 1)) ..< Suc h] = [Suc m ..< Suc h]" if "max m (b - 1) \<le> h" for h
  proof (cases "Suc m \<le> b")
    case True
    then have "Suc (max m (b - 1)) = b" by simp
    then show ?thesis using that True upt_add_eq_append [of "Suc m" b "Suc h - b"] by simp
  next
    case False
    then have "max m (b - 1) = m" by simp
    then show ?thesis using False by simp
  qed
  ultimately show ?case
    using one highest_sent_ge [of "max m (b - 1)" ss] run by (simp add: s filter_upt_above [OF a(2)] flip: map_append)
qed

definition demo_journal :: "nat \<Rightarrow> evidence_msg" where
  "demo_journal i = \<lparr>em_channel = ''retro'', em_session = ''s1'', em_seq = i, em_uuid = ''u'' @ nat_str i,
     em_payload = BlockStart \<lparr>bs_block = ''b'', bs_swap = 0, bs_fence = 0, bs_start = 0\<rparr>\<rparr>"

lemma demo_journal_ok: "journal (''retro'', ''s1'') demo_journal"
  by (simp add: journal_def demo_journal_def nat_str_inj)

definition empty_server :: evidence_server where
  "empty_server = \<lparr>ev_acks = \<lparr>ak_memory = [], ak_disk = []\<rparr>, ev_files = []\<rparr>"

lemma empty_server_marks: "mark_at k empty_server = int 0" "acks_agree (ev_acks empty_server)"
  by (simp_all add: mark_at_def load_mark_def empty_server_def acks_agree_def)

theorem each_event_accepted_once_witness:
  "accepted_runs (map (stream_of demo_journal) [(0, 1, 4), (9, 1, 6), (20, 4, 8)]) empty_server = map demo_journal [1..<8]"
proof -
  have "resumes 0 [(0, 1, 4), (9, 1, 6), (20, 4, 8)]" by simp
  from each_event_accepted_once [OF demo_journal_ok this empty_server_marks] show ?thesis by simp
qed

section \<open>Where the artifact is refused\<close>

lemma length_nat_str: "length (nat_str n) \<le> 2 \<longleftrightarrow> n < 100"
proof (cases "n < 100")
  case True
  then show ?thesis by (subst nat_str.simps, subst nat_str.simps) auto
next
  case False
  have "nat_str n = nat_str (n div 10 div 10) @ [digit_char (n div 10 mod 10), digit_char (n mod 10)]"
    using False by (subst nat_str.simps, subst nat_str.simps) auto
  moreover have "nat_str (n div 10 div 10) \<noteq> []" by simp
  ultimately show ?thesis using False by (cases "nat_str (n div 10 div 10)") auto
qed

lemma two_digits:
  assumes "n < 100"
  obtains a b where "zero_pad 2 n = [a, b]" "is_digit a" "is_digit b" "numeral_value [a, b] = n"
proof -
  have "length (zero_pad 2 n) = 2" using assms length_nat_str [of n] by (simp add: zero_pad_def Let_def)
  then obtain a b where ab: "zero_pad 2 n = [a, b]" by (auto simp: numeral_2_eq_2 length_Suc_conv)
  then show thesis using that zero_pad_digits [of a 2 n] zero_pad_digits [of b 2 n] numeral_value_zero_pad [of 2 n] by simp
qed

lemma clock_fields_None: "length x \<noteq> 8 \<Longrightarrow> \<not> (length x = 9 \<and> x ! 8 = CHR 0x0A) \<Longrightarrow> clock_fields x = None"
  unfolding clock_fields_def Let_def by (simp only: if_False simp_thms)

lemma clock_fields_hms:
  assumes "m < 60" "s < 60"
  shows "clock_fields (zero_pad 2 h @ '':'' @ zero_pad 2 m @ '':'' @ zero_pad 2 s) = (if h < 100 then Some (m, s) else None)"
proof -
  obtain c d where m: "zero_pad 2 m = [c, d]" "is_digit c" "is_digit d" "numeral_value [c, d] = m"
    using two_digits [of m] assms by auto
  obtain e f where s: "zero_pad 2 s = [e, f]" "is_digit e" "is_digit f" "numeral_value [e, f] = s"
    using two_digits [of s] assms by auto
  show ?thesis
  proof (cases "h < 100")
    case True
    then obtain a b where "zero_pad 2 h = [a, b]" "is_digit a" "is_digit b" using two_digits by metis
    then show ?thesis using m s True by (simp add: clock_fields_def)
  next
    case False
    have len: "3 \<le> length (zero_pad 2 h)" using False length_nat_str [of h] by (simp add: zero_pad_def Let_def)
    let ?x = "zero_pad 2 h @ '':'' @ zero_pad 2 m @ '':'' @ zero_pad 2 s"
    have x: "length ?x = length (zero_pad 2 h) + 6" "last ?x = f" using m s by simp_all
    have "?x ! 8 = f" if "length ?x = 9"
      using that x(2) last_conv_nth [of ?x] by fastforce
    moreover have "f \<noteq> CHR 0x0A" using s(3) by (auto simp: is_digit_def)
    ultimately have "\<not> (length ?x = 9 \<and> ?x ! 8 = CHR 0x0A)" by auto
    moreover have "length ?x \<noteq> 8" using x(1) len by linarith
    ultimately have "clock_fields ?x = None" by (rule clock_fields_None [rotated])
    then show ?thesis using False by simp
  qed
qed

lemma pad2_nonneg: "0 \<le> i \<Longrightarrow> pad2 i = zero_pad 2 (nat i)"
  by (simp add: pad2_def)

text \<open>
  C26. The as-run file of a stream carries times the validator accepts exactly as long as they lie less
  than a hundred hours after the day the stream was opened on, although the writer keeps the file of
  that day for as long as the stream lasts.
\<close>

theorem display_time_accepted_iff:
  assumes "0 < t" "day_start_ms w \<le> t" "aw_actual r = display_time w t"
  shows "validate_broadcast_day_time_format [r] = None \<longleftrightarrow> t < day_start_ms w + 360000000"
proof -
  define s where "s = (t - day_start_ms w) div 1000"
  have s: "0 \<le> s" using assms(2) by (simp add: s_def pos_imp_zdiv_nonneg_iff)
  have m: "s mod 3600 div 60 < 60" "0 \<le> s mod 3600 div 60"
    using pos_mod_bound [of 3600 s] pos_mod_sign [of 3600 s] by linarith+
  have nonneg: "0 \<le> s div 3600" "0 \<le> s mod 3600 mod 60" using s by (simp_all add: pos_imp_zdiv_nonneg_iff)
  have "display_time w t = pad2 (s div 3600) @ '':'' @ pad2 (s mod 3600 div 60) @ '':'' @ pad2 (s mod 3600 mod 60)"
    unfolding display_time_def Let_def s_def [symmetric] using assms(1) s by (simp only: not_le if_False not_less [symmetric] not_True_eq_False)
  then have shown: "aw_actual r = zero_pad 2 (nat (s div 3600)) @ '':'' @ zero_pad 2 (nat (s mod 3600 div 60)) @ '':'' @ zero_pad 2 (nat (s mod 3600 mod 60))"
    unfolding assms(3) pad2_nonneg [OF nonneg(1)] pad2_nonneg [OF m(2)] pad2_nonneg [OF nonneg(2)] .
  have "clock_fields (aw_actual r) = (if nat (s div 3600) < 100 then Some (nat (s mod 3600 div 60), nat (s mod 3600 mod 60)) else None)"
    unfolding shown using m by (intro clock_fields_hms) (simp_all add: nat_less_iff)
  moreover have "aw_actual r \<noteq> []" unfolding shown by simp
  moreover have "nat (s div 3600) < 100 \<longleftrightarrow> t < day_start_ms w + 360000000" unfolding s_def using assms(2) by linarith
  moreover have "nat (s mod 3600 div 60) \<le> 59" "nat (s mod 3600 mod 60) \<le> 59" using m by (simp_all add: nat_le_iff) 
  ultimately show ?thesis by (auto simp: validate_broadcast_day_time_format_def)
qed

text \<open>A stream opened on the first day of 2026, and an event of two segments.\<close>

definition demo_end :: "string \<Rightarrow> segment_end" where
  "demo_end uuid = \<lparr>se_block = ''b1'', se_event = ''e1'', se_start = 1767225600000, se_end = 1767226200000, se_first_frame = 0,
     se_last_frame = 17999, se_duration = 600000, se_frames = 18000, se_status = ''AIRED'', se_reason = [], se_fallback = 0,
     se_uuid = uuid, se_type = ''content'', se_asset = []\<rparr>"

definition demo_end_msg :: "nat \<Rightarrow> string \<Rightarrow> evidence_msg" where
  "demo_end_msg i uuid = \<lparr>em_channel = ''retro'', em_session = ''s1'', em_seq = i, em_uuid = ''u'' @ nat_str i,
     em_payload = SegmentEnd (demo_end uuid)\<rparr>"

definition demo_writer :: asrun_writer where
  "demo_writer = \<lparr>wr_channel = ''retro'', wr_day = 20454\<rparr>"

theorem display_time_accepted_iff_witness:
  "validate_broadcast_day_time_format [fst (segment_end_row demo_writer 0 [] (demo_end []))] = None"
proof -
  let ?r = "fst (segment_end_row demo_writer 0 [] (demo_end []))"
  have "0 < se_end (demo_end [])" "day_start_ms demo_writer \<le> se_end (demo_end [])"
    "aw_actual ?r = display_time demo_writer (se_end (demo_end []))"
    by (simp_all add: demo_end_def day_start_ms_def demo_writer_def segment_end_row_def Let_def)
  from display_time_accepted_iff [OF this] show ?thesis
    by (simp add: demo_end_def day_start_ms_def demo_writer_def)
qed

theorem stream_rows_pass_note_checks_witness:
  "\<exists>start rows. lines_at (''retro'', 20454) (fst (snd (evidence_stream [(20454 * us_per_day, demo_end_msg 1 ''x'')] new_stream empty_server)))
      = start @ map format_asrun_line rows \<and> (\<forall>r \<in> set rows. validate_no_zero_frame_terminal [r] = None)"
proof -
  obtain st' sv' acks where run: "evidence_stream [(20454 * us_per_day, demo_end_msg 1 ''x'')] new_stream empty_server = (st', sv', acks)"
    by (cases "evidence_stream [(20454 * us_per_day, demo_end_msg 1 ''x'')] new_stream empty_server")
  from stream_rows_pass_note_checks [OF run, of "(''retro'', 20454)"] show ?thesis unfolding run by auto
qed

theorem acknowledged_evidence_is_durable_witness:
  "\<exists>st' sv' acks. evidence_stream [(0, demo_end_msg 1 ''x''), (0, demo_end_msg 2 ''y'')] new_stream empty_server = (st', sv', acks)
    \<and> (\<forall>n \<in> set acks. int n \<le> mark_at (''retro'', ''s1'') (restarted sv'))"
proof -
  obtain st' sv' acks where run: "evidence_stream [(0, demo_end_msg 1 ''x''), (0, demo_end_msg 2 ''y'')] new_stream empty_server = (st', sv', acks)"
    by (cases "evidence_stream [(0, demo_end_msg 1 ''x''), (0, demo_end_msg 2 ''y'')] new_stream empty_server")
  have "fst (''retro'', ''s1'') \<noteq> []" "\<forall>(now, m) \<in> set [(0::datetime, demo_end_msg 1 ''x''), (0, demo_end_msg 2 ''y'')]. (em_channel m, em_session m) = (''retro'', ''s1'')"
    "\<forall>x \<in> set [(0::datetime, demo_end_msg 1 ''x''), (0, demo_end_msg 2 ''y'')]. \<forall>y \<in> set [(0::datetime, demo_end_msg 1 ''x''), (0, demo_end_msg 2 ''y'')].
       em_uuid (snd x) = em_uuid (snd y) \<longrightarrow> em_seq (snd x) = em_seq (snd y)"
    by (simp_all add: demo_end_msg_def nat_str_inj)
  from acknowledged_evidence_is_durable [OF run empty_server_marks(2) this] run show ?thesis by blast
qed

text \<open>
  C28. The guard against a second terminal and the validator disagree: the guard keeps one terminal for
  each event and segment, the validator wants one for each event, so the ends of two segments of one
  event are both written and the artifact is refused.
\<close>

theorem second_segment_end_refused:
  assumes "\<not> end_suppressed st s1" "or_text (se_event s1) (se_block s1) = or_text (se_event s2) (se_block s2)"
    and "end_uuid (note_end s1 st) s2 \<notin> {[], end_uuid st s1}"
    and "\<forall>k \<in> set (st_terminals st). fst k \<noteq> or_text (se_event s2) (se_block s2)"
    and "0 < se_frames s2" "or_text (se_status s1) ''AIRED'' \<in> TERMINAL_STATUSES" "or_text (se_status s2) ''AIRED'' \<in> TERMINAL_STATUSES"
  shows "\<exists>st1 r1 j1 st2 r2 j2.
      process_evidence w session (SegmentEnd s1) st = (st1, Some (r1, j1))
    \<and> process_evidence w session (SegmentEnd s2) st1 = (st2, Some (r2, j2))
    \<and> validate_single_terminal_event [r1, r2] = Some (TwoTerminals (or_text (se_event s1) (se_block s1)) 2)"
proof -
  let ?st1 = "note_end s1 st"
  have "\<not> end_suppressed ?st1 s2"
    using assms(2-5) by (auto simp: end_suppressed_def note_end_def Let_def end_key_def end_uuid_def split: if_splits)
  then have run: "process_evidence w session (SegmentEnd s1) st = (?st1, Some (segment_end_row w (st_index st) (end_uuid st s1) s1))"
    "process_evidence w session (SegmentEnd s2) ?st1 = (note_end s2 ?st1, Some (segment_end_row w (st_index ?st1) (end_uuid ?st1 s2) s2))"
    using assms(1) by (simp_all add: process_evidence_def)
  have "validate_single_terminal_event [fst (segment_end_row w i u s1), fst (segment_end_row w j v s2)]
      = Some (TwoTerminals (or_text (se_event s1) (se_block s1)) 2)" for i j u v
    using assms(2,6,7) by (simp add: validate_single_terminal_event_def events_by_id_def terminal_rows_def segment_end_row_def Let_def)
  then show ?thesis using run by (metis prod.collapse)
qed

theorem second_segment_end_refused_witness:
  "\<exists>st1 r1 j1 st2 r2 j2. process_evidence demo_writer ''s1'' (SegmentEnd (demo_end ''x'')) new_stream = (st1, Some (r1, j1))
    \<and> process_evidence demo_writer ''s1'' (SegmentEnd (demo_end ''y'')) st1 = (st2, Some (r2, j2))
    \<and> validate_single_terminal_event [r1, r2] = Some (TwoTerminals ''e1'' 2)"
proof -
  have "\<not> end_suppressed new_stream (demo_end ''x'')" "or_text (se_event (demo_end ''x'')) (se_block (demo_end ''x'')) = or_text (se_event (demo_end ''y'')) (se_block (demo_end ''y''))"
    "end_uuid (note_end (demo_end ''x'') new_stream) (demo_end ''y'') \<notin> {[], end_uuid new_stream (demo_end ''x'')}"
    "\<forall>k \<in> set (st_terminals new_stream). fst k \<noteq> or_text (se_event (demo_end ''y'')) (se_block (demo_end ''y''))"
    "0 < se_frames (demo_end ''y'')" "or_text (se_status (demo_end ''x'')) ''AIRED'' \<in> TERMINAL_STATUSES"
    "or_text (se_status (demo_end ''y'')) ''AIRED'' \<in> TERMINAL_STATUSES"
    by (simp_all add: end_suppressed_def new_stream_def demo_end_def or_text_def end_uuid_def TERMINAL_STATUSES_def)
  from second_segment_end_refused [OF this, of demo_writer "''s1''"] show ?thesis by (simp add: demo_end_def or_text_def)
qed

text \<open>What is on disk when the server dies after a message was written and before its mark was stored.\<close>

definition crashed_after_write :: "datetime \<Rightarrow> evidence_msg \<Rightarrow> evidence_server \<Rightarrow> evidence_server" where
  "crashed_after_write now m sv =
     (case ensure_writer now m new_stream sv of
        (st, sv1) \<Rightarrow> restarted (snd (write_evidence m (note_seen m st) sv1)))"

lemma first_write:
  fixes now :: datetime and m :: evidence_msg and sv :: evidence_server
  defines "w \<equiv> \<lparr>wr_channel = em_channel m, wr_day = date_of now\<rparr>" and "k \<equiv> (em_channel m, date_of now)"
  defines "start \<equiv> (if lines_at k sv = [] then asrun_header (em_channel m) now else lines_at k sv)"
  assumes "acks_agree (ev_acks sv)" "em_channel m \<noteq> []" "em_uuid m \<noteq> ''hello''" "mark_at (em_channel m, em_session m) sv < int (em_seq m)"
    and "em_payload m = SegmentEnd s" "\<not> end_suppressed new_stream s"
  shows "\<exists>st1 sv1 st2 sv2. ensure_writer now m new_stream sv = (st1, sv1) \<and> \<not> is_duplicate m st1
    \<and> write_evidence m (note_seen m st1) sv1 = (st2, sv2)
    \<and> lines_at k sv2 = start @ [format_asrun_line (fst (segment_end_row w (-1) (se_uuid s) s))]
    \<and> mark_at (em_channel m, em_session m) sv2 = mark_at (em_channel m, em_session m) sv"
proof -
  let ?key = "(em_channel m, em_session m)"
  obtain a n where a: "ack_get ?key (ev_acks sv) = (a, n)" by (cases "ack_get ?key (ev_acks sv)")
  let ?fs = "snd (open_writer (em_channel m) now (ev_files sv))"
  let ?st1 = "new_stream\<lparr>st_writer := Some w, st_mark := n\<rparr>" and ?sv1 = "sv\<lparr>ev_acks := a, ev_files := ?fs\<rparr>"
  have e: "ensure_writer now m new_stream sv = (?st1, ?sv1)"
    using assms(5) a by (simp add: ensure_writer_def new_stream_def open_writer_def Let_def w_def)
  have n: "n = mark_at ?key sv" "load_mark ?key a = n" using ack_get_mark [OF assms(4) a, of ?key] by (simp_all add: mark_at_def)
  have dup: "\<not> is_duplicate m ?st1" using assms(6,7) n by (simp add: is_duplicate_def new_stream_def)
  have start: "lines_at k ?sv1 = start"
    using lines_of_file [of w sv] by (simp add: open_writer_def Let_def lines_at_put k_def start_def w_def)
  have sup: "\<not> end_suppressed (note_seen m ?st1) s" "end_uuid (note_seen m ?st1) s = se_uuid s"
    using assms(9) by (simp_all add: end_suppressed_def end_uuid_def note_seen_def new_stream_def or_text_def)
  let ?r = "segment_end_row w (-1) (se_uuid s) s"
  let ?sv2 = "?sv1\<lparr>ev_files := write_and_flush w (fst ?r) (snd ?r) ?fs\<rparr>"
  have wr: "write_evidence m (note_seen m ?st1) ?sv1 = (note_end s (note_seen m ?st1), ?sv2)"
  proof -
    have "st_writer (note_seen m ?st1) = Some w" "st_index (note_seen m ?st1) = -1" by (simp_all add: note_seen_def new_stream_def)
    then show ?thesis using assms(8) sup by (simp add: write_evidence_def process_evidence_def case_prod_beta)
  qed
  have "lines_at k ?sv2 = start @ [format_asrun_line (fst ?r)]"
    using start lines_of_file [of w ?sv1] by (simp add: write_and_flush_def Let_def lines_at_put k_def w_def)
  moreover have "mark_at ?key ?sv2 = mark_at ?key sv" using n by (simp add: mark_at_def)
  ultimately show ?thesis using e dup wr by blast
qed

text \<open>
  C27. Evidence is written at least once, not exactly once: when the server dies between writing a
  terminal and storing its mark, the line is in the file, and the replay after the restart writes the
  same line again, since the guard against second terminals lives in the stream.
\<close>

theorem crash_repeats_terminal:
  assumes "acks_agree (ev_acks sv)" "em_channel m \<noteq> []" "em_uuid m \<noteq> ''hello''" "mark_at (em_channel m, em_session m) sv < int (em_seq m)"
    and "em_payload m = SegmentEnd s" "\<not> end_suppressed new_stream s"
  shows "\<exists>before l. lines_at (em_channel m, date_of now) (crashed_after_write now m sv) = before @ [l]
    \<and> lines_at (em_channel m, date_of now) (fst (snd (evidence_stream [(now, m)] new_stream (crashed_after_write now m sv)))) = before @ [l, l]"
proof -
  let ?key = "(em_channel m, em_session m)" and ?k = "(em_channel m, date_of now)"
  let ?l = "format_asrun_line (fst (segment_end_row \<lparr>wr_channel = em_channel m, wr_day = date_of now\<rparr> (-1) (se_uuid s) s))"
  obtain st1 sv1 st2 sv2 where 1: "ensure_writer now m new_stream sv = (st1, sv1)" "write_evidence m (note_seen m st1) sv1 = (st2, sv2)"
    "lines_at ?k sv2 = (if lines_at ?k sv = [] then asrun_header (em_channel m) now else lines_at ?k sv) @ [?l]" "mark_at ?key sv2 = mark_at ?key sv"
    using first_write [OF assms, of now] by blast
  let ?crashed = "crashed_after_write now m sv"
  have crashed: "?crashed = restarted sv2" using 1(1,2) by (simp add: crashed_after_write_def)
  have same: "lines_at k (restarted x) = lines_at k x" for k x by (simp add: lines_at_def restarted_def)
  have mark: "mark_at ?key ?crashed < int (em_seq m)" using assms(4) 1(4) by (simp add: crashed mark_at_def load_mark_restarted)
  have agree: "acks_agree (ev_acks ?crashed)" by (simp add: crashed acks_agree_restarted)
  obtain st3 sv3 st4 sv4 where 2: "ensure_writer now m new_stream ?crashed = (st3, sv3)" "\<not> is_duplicate m st3"
    "write_evidence m (note_seen m st3) sv3 = (st4, sv4)" "lines_at ?k sv4 = lines_at ?k ?crashed @ [?l]"
    using first_write [OF agree assms(2,3) mark assms(5,6), of now] 1(3) by (auto simp: crashed same)
  have "fst (snd (evidence_stream [(now, m)] new_stream ?crashed)) = store_ack now m sv4"
    using 2(1-3) by (simp add: handle_evidence_def)
  then have "lines_at ?k (fst (snd (evidence_stream [(now, m)] new_stream ?crashed))) = lines_at ?k ?crashed @ [?l]"
    using 2(4) by (simp add: store_ack_def lines_at_put)
  then show ?thesis using 1(3) by (auto simp: crashed same)
qed

theorem crash_repeats_terminal_witness:
  "\<exists>before l. lines_at (''retro'', 0) (fst (snd (evidence_stream [(0, demo_end_msg 1 ''x'')] new_stream (crashed_after_write 0 (demo_end_msg 1 ''x'') empty_server))))
      = before @ [l, l]"
proof -
  have "em_channel (demo_end_msg 1 ''x'') \<noteq> []" "em_uuid (demo_end_msg 1 ''x'') \<noteq> ''hello''"
    "mark_at (em_channel (demo_end_msg 1 ''x''), em_session (demo_end_msg 1 ''x'')) empty_server < int (em_seq (demo_end_msg 1 ''x''))"
    "em_payload (demo_end_msg 1 ''x'') = SegmentEnd (demo_end ''x'')" "\<not> end_suppressed new_stream (demo_end ''x'')"
    using empty_server_marks(1) [of "(''retro'', ''s1'')"]
    by (simp_all add: demo_end_msg_def end_suppressed_def new_stream_def demo_end_def or_text_def nat_str.simps)
  from crash_repeats_terminal [OF empty_server_marks(2) this, of 0] show ?thesis
    by (auto simp: demo_end_msg_def date_of_def)
qed

end
