(* ===== verification/Horizon_Service.thy ===== *)
theory Horizon_Service
  imports Horizon_Extenders Dsl_Service
begin

text \<open>
  \<^verbatim>\<open>HorizonBackedScheduleService\<close> of \<^verbatim>\<open>runtime/horizon_backed_schedule_service.py\<close>: it reads blocks, playout
  plans and the programme guide from the stores the horizon manager fills, and plans nothing itself.
  Only locked entries are served.  Times are UTC, a file name that is missing from a segment is the
  empty text, and every event spans at least one slot.
\<close>

section \<open>Blocks\<close>

record hb_service =
  hb_window :: exec_store
  hb_resolved :: "resolved_store option"
  hb_start_hour :: int
  hb_grid :: int

definition hb_segment :: "log_segment \<Rightarrow> scheduled_segment" where
  "hb_segment s = plain_segment (ls_type s) (case ls_uri s of None \<Rightarrow> [] | Some u \<Rightarrow> u)
     (case ls_offset s of None \<Rightarrow> 0 | Some o' \<Rightarrow> o') (ls_duration s)"

definition hb_block :: "execution_entry \<Rightarrow> scheduled_block" where
  "hb_block e = \<lparr>sb_id = xe_block_id e, sb_start = xe_start e, sb_end = xe_end e, sb_segments = map hb_segment (xe_segments e)\<rparr>"

definition hb_block_at :: "hb_service \<Rightarrow> ms \<Rightarrow> scheduled_block option" where
  "hb_block_at s t = map_option hb_block (get_entry_at (hb_window s) t True)"

section \<open>Playout plans\<close>

record hb_plan_entry =
  hp_path :: string
  hp_start_pts :: ms
  hp_seconds :: rat
  hp_start :: string
  hp_end :: string
  hp_type :: string
  hp_grid :: int
  hp_block :: string

fun entry_plan :: "int \<Rightarrow> string \<Rightarrow> ms \<Rightarrow> ms \<Rightarrow> log_segment list \<Rightarrow> hb_plan_entry list" where
  "entry_plan grid block now_ms cursor [] = []"
| "entry_plan grid block now_ms cursor (s # ss) =
     (let seg_end = cursor + ls_duration s;
          offset = (case ls_offset s of None \<Rightarrow> 0 | Some o' \<Rightarrow> o');
          rest = entry_plan grid block now_ms seg_end ss
      in if ls_type s = ''pad'' \<or> seg_end \<le> now_ms then rest
         else \<lparr>hp_path = (case ls_uri s of None \<Rightarrow> [] | Some u \<Rightarrow> u),
               hp_start_pts = (if cursor < now_ms then offset + (now_ms - cursor) else offset),
               hp_seconds = fl (of_int (ls_duration s) / 1000), hp_start = iso_datetime (from_epoch_ms cursor),
               hp_end = iso_datetime (from_epoch_ms seg_end), hp_type = ls_type s, hp_grid = grid, hp_block = block\<rparr> # rest)"

definition hb_playout_plan_now :: "hb_service \<Rightarrow> datetime \<Rightarrow> hb_plan_entry list" where
  "hb_playout_plan_now s station_time =
     (let t = to_epoch_ms station_time
      in case get_entry_at (hb_window s) t True of
           None \<Rightarrow> []
         | Some e \<Rightarrow> entry_plan (hb_grid s) (xe_block_id e) t (xe_start e) (xe_segments e))"

section \<open>The programme guide\<close>

record hb_event =
  he_channel :: string
  he_start :: string
  he_end :: string
  he_title :: string
  he_episode_title :: "string option"
  he_episode_id :: "string option"
  he_date :: string
  he_path :: string
  he_asset_id :: "string option"
  he_seconds :: rat

definition hb_slot_to_datetime :: "hb_service \<Rightarrow> date \<Rightarrow> time_of_day \<Rightarrow> datetime" where
  "hb_slot_to_datetime s d slot =
     (if hour_of slot < hb_start_hour s then combine d slot + us_per_day else combine d slot)"

text \<open>The events of a day, each taking the slots it spans, until the slots are used up.\<close>

fun hb_day_events ::
  "hb_service \<Rightarrow> string \<Rightarrow> datetime \<Rightarrow> datetime \<Rightarrow> date \<Rightarrow> resolved_slot list \<Rightarrow> program_event list \<Rightarrow> hb_event list" where
  "hb_day_events s channel a z d slots [] = []"
| "hb_day_events s channel a z d [] (pe # pes) = []"
| "hb_day_events s channel a z d (first # slots) (pe # pes) =
     (let start = hb_slot_to_datetime s d (rs_time first);
          fin = start + pe_span pe * (hb_grid s * 60) * 1000000;
          asset = (case pe_asset pe of None \<Rightarrow> rs_asset first | Some x \<Rightarrow> x);
          rest = hb_day_events s channel a z d (drop (nat (pe_span pe)) (first # slots)) pes
      in if start < z \<and> a < fin
         then \<lparr>he_channel = channel, he_start = iso_datetime start, he_end = iso_datetime fin, he_title = ra_title asset,
               he_episode_title = ra_episode_title asset, he_episode_id = ra_episode_id asset, he_date = iso_date d,
               he_path = ra_path asset, he_asset_id = ra_asset_id asset, he_seconds = ra_duration asset\<rparr> # rest
         else rest)"

definition hb_epg_events :: "hb_service \<Rightarrow> string \<Rightarrow> datetime \<Rightarrow> datetime \<Rightarrow> hb_event list" where
  "hb_epg_events s channel start_time end_time =
     (case hb_resolved s of
        None \<Rightarrow> []
      | Some rst \<Rightarrow>
          concat (map (\<lambda>current.
              let d = broadcast_date_for (hb_start_hour s) current
              in case get_day rst channel d of
                   None \<Rightarrow> []
                 | Some rd \<Rightarrow> hb_day_events s channel start_time end_time d (rd_slots rd) (rd_events rd))
            (day_steps start_time end_time)))"

section \<open>Properties\<close>

text \<open>
  The two schedule services cut a playout plan out of a block in the same way: the plan of the
  horizon-backed service agrees, entry by entry, with the plan the compiled schedule would give for the
  same block.
\<close>

theorem playout_plans_agree:
  "map (\<lambda>p. (hp_path p, hp_start_pts p, hp_type p, hp_start p, hp_end p, hp_seconds p)) (hb_playout_plan_now s station_time)
   = (case hb_block_at s (to_epoch_ms station_time) of
        None \<Rightarrow> []
      | Some b \<Rightarrow> map (\<lambda>p. (pe_path p, pe_start_pts p, pe_type p, pe_start p, pe_end p, pe_seconds p))
                   (plan_segments (to_epoch_ms station_time) (sb_start b) (sb_segments b)))"
proof -
  have "map (\<lambda>p. (hp_path p, hp_start_pts p, hp_type p, hp_start p, hp_end p, hp_seconds p)) (entry_plan g i t cursor ss)
      = map (\<lambda>p. (pe_path p, pe_start_pts p, pe_type p, pe_start p, pe_end p, pe_seconds p)) (plan_segments t cursor (map hb_segment ss))"
    for g i t cursor ss
    by (induction ss arbitrary: cursor) (simp_all add: hb_segment_def plain_segment_def Let_def)
  then show ?thesis
    by (simp add: hb_playout_plan_now_def hb_block_at_def hb_block_def Let_def split: option.splits)
qed

lemma hb_segments_total: "total_duration (map hb_segment ss) = log_total ss"
  by (induction ss) (simp_all add: total_duration_def log_total_def hb_segment_def plain_segment_def)

lemma entry_of_day:
  assumes "0 \<le> h" "h < 24" "cfg_start_hour cfg = h" "0 < cfg_grid_minutes cfg" "\<bar>d\<bar> \<le> 2 ^ 22" "i < blocks_per_day (cfg_grid_minutes cfg)"
  shows "xe_start (entries_of_day cfg rst c d ! i) = d * 86400000 + h * 3600000 + int i * (cfg_grid_minutes cfg * 60000)
    \<and> xe_end (entries_of_day cfg rst c d ! i) = xe_start (entries_of_day cfg rst c d ! i) + cfg_grid_minutes cfg * 60000
    \<and> xe_locked (entries_of_day cfg rst c d ! i)
    \<and> entries_of_day cfg rst c d ! i = extender_entry cfg rst c d i (xe_start (entries_of_day cfg rst c d ! i) * 1000)"
proof -
  define t where "t = combine d (h * us_per_hour) + int i * (cfg_grid_minutes cfg * 60000000)"
  have e: "entries_of_day cfg rst c d ! i = extender_entry cfg rst c d i t"
    using assms(3,6) by (simp add: entries_of_day_def t_def)
  have "0 \<le> int i * (cfg_grid_minutes cfg * 60000000)" "int i * (cfg_grid_minutes cfg * 60000000) < us_per_day"
    using blocks_per_day_bounds(3) [OF assms(4) assms(6)] assms(4) by simp_all
  from step_epoch_ms [OF assms(1,2,5) this refl]
  have ms: "to_epoch_ms t = d * 86400000 + h * 3600000 + int i * (cfg_grid_minutes cfg * 60000)" by (simp only: t_def)
  have us: "to_epoch_ms t * 1000 = t" unfolding ms by (simp add: t_def combine_def us_defs)
  have "xe_start (extender_entry cfg rst c d i t) = to_epoch_ms t" "xe_locked (extender_entry cfg rst c d i t)"
    "xe_end (extender_entry cfg rst c d i t) = to_epoch_ms t + cfg_grid_minutes cfg * 60000"
    by (simp_all add: extender_entry_def Let_def)
  then show ?thesis using ms us by (simp add: e)
qed

text \<open>
  C9. Every instant of a day the horizon manager has planned is served: the block found in a window that
  holds the entries of the day holds the instant, and its segments fill it exactly wherever the
  programme of the block has no segment that runs backwards.
\<close>

theorem planned_day_is_served:
  assumes "service_ready h (hw_service w)" "cfg_grid_minutes (sv_cfg (hw_service w)) \<le> 1440" "\<bar>d\<bar> \<le> 2 ^ 22"
    and "extend_execution_day td tz fi c w d = Some (w', Inr (DayResult z es))" "xs_entries (hb_window s) = es"
    and "d * 86400000 + h * 3600000 \<le> t" "t < d * 86400000 + h * 3600000 + 86400000"
  shows "\<exists>b. hb_block_at s t = Some b \<and> sb_start b \<le> t \<and> t < sb_end b
    \<and> ((\<forall>p \<in> set (pb_segments (get_program_at (sv_cfg (hw_service w)) (ss_resolved (sv_state (hw_service w'))) c (sb_start b * 1000))).
          ps_start p \<le> ps_end p) \<longrightarrow> total_duration (sb_segments b) = sb_end b - sb_start b)"
proof -
  let ?cfg = "sv_cfg (hw_service w)" and ?rst = "ss_resolved (sv_state (hw_service w'))"
  let ?g = "cfg_grid_minutes ?cfg" and ?base = "d * 86400000 + h * 3600000"
  have es: "es = entries_of_day ?cfg ?rst c d"
  proof (rule extend_execution_ready [OF assms(1), of td tz fi c d])
    fix w2 :: horizon_world
    assume "extend_execution_day td tz fi c w d = Some (w2, Inr (DayResult
        (xe_end (last (entries_of_day (sv_cfg (hw_service w2)) (ss_resolved (sv_state (hw_service w2))) c d)))
        (entries_of_day (sv_cfg (hw_service w2)) (ss_resolved (sv_state (hw_service w2))) c d)))"
      and "sv_cfg (hw_service w2) = ?cfg"
    then show ?thesis using assms(4) by simp
  qed
  have r: "0 < ?g" "cfg_start_hour ?cfg = h" "0 \<le> h" "h < 24" using assms(1) by (simp_all add: service_ready_def)
  define step where "step = ?g * 60000"
  have step: "0 < step" using r(1) by (simp add: step_def)
  define i where "i = nat ((t - ?base) div step)"
  have len: "length es = blocks_per_day ?g" by (simp add: es entries_of_day_def)
  have entry: "xe_start (es ! j) = ?base + int j * step \<and> xe_end (es ! j) = xe_start (es ! j) + step \<and> xe_locked (es ! j)
      \<and> es ! j = extender_entry ?cfg ?rst c d j (xe_start (es ! j) * 1000)" if "j < length es" for j
    using entry_of_day [OF r(3,4,2,1) assms(3), of j ?rst c] that unfolding es [symmetric] len step_def by blast
  have q: "0 \<le> (t - ?base) div step" "(t - ?base) div step * step \<le> t - ?base" "t - ?base < ((t - ?base) div step + 1) * step"
    using assms(6) step div_mult_mod_eq [of "t - ?base" step] pos_mod_bound [OF step, of "t - ?base"] pos_mod_sign [OF step, of "t - ?base"]
    unfolding distrib_right mult_1 by (simp add: pos_imp_zdiv_nonneg_iff, linarith, linarith)
  have i: "int i = (t - ?base) div step" using q(1) by (simp add: i_def)
  have "86400000 \<le> int (blocks_per_day ?g) * step"
    using blocks_per_day_bounds(2) [OF r(1)] by (simp add: us_per_day_def step_def)
  then have "int i * step < int (blocks_per_day ?g) * step" using q(2) assms(7) unfolding i by linarith
  then have il: "i < length es" using step len by simp
  have on: "xe_start (es ! i) \<le> t" "t < xe_end (es ! i)" using entry [OF il] q(2,3) i by (simp_all add: algebra_simps)
  have only: "e = es ! i" if mem: "e \<in> set es" and at_t: "xe_start e \<le> t" "t < xe_end e" for e
  proof -
    obtain j where j: "j < length es" "e = es ! j" using mem unfolding in_set_conv_nth by blast
    have "int j * step \<le> t - ?base" "t - ?base < int j * step + step" using entry [OF j(1)] at_t j(2) by simp_all
    then have "0 \<le> t - ?base - int j * step" "t - ?base - int j * step < step" by linarith+
    then have "(t - ?base) div step = int j" by (rule int_div_pos_eq [rotated]) (simp add: mult.commute)
    then show ?thesis using i j(2) by simp
  qed
  have "e = e'" if "e \<in> set (xs_entries (hb_window s))" "e' \<in> set (xs_entries (hb_window s))"
    "xe_start e \<le> t" "t < xe_end e" "xe_start e' \<le> t" "t < xe_end e'" for e e'
    using only [of e] only [of e'] that unfolding assms(5) by simp
  from get_entry_at_iff_disjoint [of "hb_window s" t, OF this]
  have "get_entry_at (hb_window s) t True = Some (es ! i)"
    using on entry [OF il] nth_mem [OF il] unfolding assms(5) by blast
  then have b: "hb_block_at s t = Some (hb_block (es ! i))" by (simp add: hb_block_at_def)
  have "total_duration (sb_segments (hb_block (es ! i))) = step"
    if "\<forall>p \<in> set (pb_segments (get_program_at ?cfg ?rst c (xe_start (es ! i) * 1000))). ps_start p \<le> ps_end p"
  proof -
    have "log_total (xe_segments (extender_entry ?cfg ?rst c d i (xe_start (es ! i) * 1000))) = step"
      using entry_segments_fill(1) [OF _ _ _ _ that, of d i] r assms(2) unfolding step_def by blast
    moreover have "es ! i = extender_entry ?cfg ?rst c d i (xe_start (es ! i) * 1000)" using entry [OF il] by blast
    ultimately have "log_total (xe_segments (es ! i)) = step" by metis
    then show ?thesis by (simp add: hb_block_def hb_segments_total)
  qed
  then show ?thesis using b on entry [OF il] by (auto simp: hb_block_def)
qed


definition demo_hb :: "execution_entry list \<Rightarrow> hb_service" where
  "demo_hb es = \<lparr>hb_window = (empty_exec_store False None None)\<lparr>xs_entries := es\<rparr>, hb_resolved = None, hb_start_hour = 6, hb_grid = 30\<rparr>"

theorem planned_day_is_served_witness:
  "\<exists>w' z es. extend_execution_day ''UTC'' (\<lambda>_. 0) (\<lambda>_. ''id'') ''ch'' demo_world 20000 = Some (w', Inr (DayResult z es))
    \<and> (\<exists>b. hb_block_at (demo_hb es) 1728030000000 = Some b \<and> sb_start b \<le> 1728030000000 \<and> 1728030000000 < sb_end b)"
proof -
  have r: "service_ready 6 (hw_service demo_world)" using demo_world_ready by (simp add: extender_ok_def)
  have g: "cfg_grid_minutes (sv_cfg (hw_service demo_world)) \<le> 1440" "\<bar>20000 :: int\<bar> \<le> 2 ^ 22"
    using demo_service_facts(3) by (simp_all add: demo_world_def)
  obtain w' z es where run: "extend_execution_day ''UTC'' (\<lambda>_. 0) (\<lambda>_. ''id'') ''ch'' demo_world 20000 = Some (w', Inr (DayResult z es))"
    using extend_execution_ready [OF r] by metis
  have "xs_entries (hb_window (demo_hb es)) = es" by (simp add: demo_hb_def)
  from planned_day_is_served [OF r g run this, of 1728030000000] run show ?thesis by auto
qed

end
