(* ===== verification/Spec2Isabelle.thy ===== *)
theory Spec2Isabelle
  imports Planning_Pipeline Schedule_Manager Execution_Window Resolved_Store Override_Store Schedule_Service Program_Catalog Horizon_Manager Horizon_Extenders Traffic_Library Playout_Expansion AsRun_Reconcile Join_In_Progress Playout_Session Block_Feeder Feed_Control Channel_Manager Channel_Control
  Py_Parse Zone_Coverage Zone_Editing Tier_Two Playlog_Daemon Py_Value Py_Random Catalog_Resolver Schedule_Compiler Compiled_Day
  Dsl_Service Served_Blocks AsRun_Evidence AsRun_Artifact Evidence_Log Horizon_Service
begin

text \<open>
  RetroVue plays linear television from a schedule: a planning layer turns a schedule into days,
  blocks and segments, a horizon manager keeps enough of it ready, and a runtime layer hands blocks
  to a playout engine while somebody watches.  This development models the Python core of the
  repository (\<^verbatim>\<open>pkg/core/src/retrovue\<close>); the paths below are relative to it.  Every definition is
  executable and follows one function or one stretch of code; \<^verbatim>\<open>PROJECT.json\<close> gives the lines.

  \<^bold>\<open>Foundations.\<close>  \<open>RV_Prelude\<close>: exceptions as values of \<open>exn\<close>, fallible results \<open>'a res\<close>, dictionaries as
  association lists, the lemmas on sums, chains of intervals and grids the components share.
  \<open>Py_Float\<close>: Python's floats as rationals rounded to 53 bits (\<open>fl\<close>).  \<open>Py_Text\<close>: numerals, padding, ISO
  dates.  \<open>Py_Time\<close>: instants as microseconds since the epoch, dates as day numbers, epoch milliseconds.
  \<open>Py_Hash\<close>: SHA-256 over 32-bit words, for the numbers the code derives from digests.  \<open>Py_Parse\<close>: stripping,
  letter case, splitting and the readers of numbers, times, identifiers and dates.  \<open>Py_Value\<close>: the values
  of parsed documents with Python's dynamic look-ups, and JSON text.  \<open>Py_Random\<close>: the Mersenne Twister
  behind \<^verbatim>\<open>random.Random(seed)\<close> and its draws.

  \<^bold>\<open>Planning.\<close>  A planning run (\<open>Planning_Pipeline\<close>, \<^verbatim>\<open>runtime/planning_pipeline.py\<close>) expands zones into slots
  (\<open>Planning_Plan\<close>), resolves them to assets, cuts every block at its breaks (\<open>Planning_Segment\<close>), fills the
  breaks from the asset library (\<open>Planning_Fill\<close>, \<open>Asset_Library\<close>, \<^verbatim>\<open>catalog/static_asset_library.py\<close>) and
  assembles, validates and writes the transmission log (\<open>Planning_Assemble\<close>,
  \<^verbatim>\<open>runtime/transmission_log_validator.py\<close>, \<^verbatim>\<open>planning/transmission_log_artifact_writer.py\<close>).  The lemmas
  show that each stage keeps the time of the one before, that a run returns when grid and fillers
  are positive, and that the log of a planned day is accepted by the validators.

  \<^bold>\<open>Zones.\<close>  \<open>Zone_Coverage\<close> (\<^verbatim>\<open>usecases/zone_coverage_check.py\<close>) checks that the zones of a plan lie on the
  grid, do not overlap and leave no gap.  Its theorems measure zones on the exact clock (\<open>zone_holds\<close>), apart from the
  check's rounded minutes: for times on whole minutes the check accepts exactly the tilings, with seconds it
  accepts zones of a few seconds as whole days.  \<open>Zone_Editing\<close> (\<^verbatim>\<open>usecases/zone_add.py\<close>, \<^verbatim>\<open>zone_update.py\<close>, \<^verbatim>\<open>zone_delete.py\<close>) adds, changes
  and deletes zones under that check.

  \<^bold>\<open>Compilation.\<close>  \<open>Catalog_Resolver\<close> (\<^verbatim>\<open>runtime/catalog_resolver.py\<close>) looks assets up and evaluates the match
  criteria of pools; \<open>Schedule_Compiler\<close> (\<^verbatim>\<open>runtime/schedule_compiler.py\<close>) compiles a schedule document into the
  program blocks of a day: layers of the week, slots, episode blocks, movies, marathons, then the
  conversion to UTC, the grid checks and the compaction.  \<open>Compiled_Day\<close> shows that compiled days fit
  together and where they do not.

  \<^bold>\<open>Two tiers.\<close>  \<open>Tier_Two\<close> holds the rows of compiled schedules (tier 1) and of filled blocks (tier 2), with
  their writers and readers in \<^verbatim>\<open>runtime/dsl_schedule_service.py\<close> and \<^verbatim>\<open>runtime/playlog_horizon_daemon.py\<close>.
  \<open>Playlog_Daemon\<close> is one evaluation of the daemon: it fills what is on air, extends tier 2 to the target and
  purges what has aired.  Any statement to the database may fail; the theorem on the evaluation says
  that without faults every instant up to the target is covered.

  \<^bold>\<open>Service of compiled schedules.\<close>  \<open>Dsl_Service\<close> is \<^verbatim>\<open>DslScheduleService\<close> of
  \<^verbatim>\<open>runtime/dsl_schedule_service.py\<close>: compiling a day or reading it back from tier 1, the rolling horizon, the
  filled block of an instant, the programme guide, and the paths and loudness of assets.  \<open>Served_Blocks\<close> proves
  that the served block holds the instant asked for, that compiled days and filled blocks stay what
  they are, what the guide lists, and how a service nobody asks for a while ends without blocks.

  \<^bold>\<open>Schedule.\<close>  \<open>Schedule_Types\<close> holds the data of \<^verbatim>\<open>runtime/schedule_types.py\<close>.  \<open>Resolved_Store\<close> and
  \<open>Override_Store\<close> are the stores of resolved days, sequence cursors and override records
  (\<^verbatim>\<open>runtime/schedule_manager_service.py\<close>, \<^verbatim>\<open>runtime/override_record.py\<close>); \<open>Schedule_Manager\<close>
  (\<^verbatim>\<open>runtime/schedule_manager.py\<close>) resolves a day into slots and events and finds the block of an instant;
  \<open>Schedule_Service\<close> and \<open>Program_Catalog\<close> are the service and the catalogue of
  \<^verbatim>\<open>runtime/schedule_manager_service.py\<close>: loading of schedule files, priming of days, what is on now and the
  scheduled block of an instant.

  \<^bold>\<open>Horizons.\<close>  \<open>Execution_Window\<close> (\<^verbatim>\<open>runtime/execution_window_store.py\<close>) keeps the entries that will air, with
  atomic publication and the protection of what is locked or has aired.  \<open>Horizon_Manager\<close>
  (\<^verbatim>\<open>runtime/horizon_manager.py\<close>) is one evaluation of the horizons as a composition of its stages over an
  abstract planning layer; \<open>Horizon_Extenders\<close> (the two extenders of \<^verbatim>\<open>runtime/program_director.py\<close>) is that
  layer over the schedule service.  \<open>Traffic_Library\<close>, \<open>Playout_Expansion\<close> (\<^verbatim>\<open>catalog/db_asset_library.py\<close>,
  \<^verbatim>\<open>runtime/playout_log_expander.py\<close>, \<^verbatim>\<open>runtime/traffic_manager.py\<close>) expand a programme with advertisements
  under the traffic policy, and \<open>AsRun_Reconcile\<close> (\<^verbatim>\<open>runtime/asrun_types.py\<close>, \<^verbatim>\<open>runtime/asrun_reconciler.py\<close>)
  compares a plan with what aired.

  \<^bold>\<open>Evidence.\<close>  \<open>AsRun_Evidence\<close> is the evidence server of \<^verbatim>\<open>runtime/evidence_server.py\<close>: messages of the
  engine become rows of the as-run files, which are written before the mark of the session is stored and
  the message is acknowledged.  \<open>AsRun_Artifact\<close> is the validator of these files
  (\<^verbatim>\<open>runtime/asrun_artifact_validator.py\<close>).  \<open>Evidence_Log\<close> proves that the rows pass its checks on statuses and notes, that an
  acknowledgement is durable and that replays are accepted once, and shows where the files are refused or
  repeat a line.  \<open>Horizon_Service\<close> (\<^verbatim>\<open>runtime/horizon_backed_schedule_service.py\<close>) serves blocks from the
  execution window; every instant of a planned day is served.

  \<^bold>\<open>Playout.\<close>  \<open>Join_In_Progress\<close> trims a block for a viewer who joins it; \<open>Playout_Session\<close>
  (\<^verbatim>\<open>runtime/playout_session.py\<close>) is the session with the engine, with the messages at the widths of
  \<^verbatim>\<open>protos/playout.proto\<close> (a number out of range is a \<open>ValueError\<close>); \<open>Block_Feeder\<close> is \<^verbatim>\<open>BlockPlanProducer\<close> of
  \<^verbatim>\<open>runtime/channel_manager.py\<close> with the teardown of \<^verbatim>\<open>runtime/producer/base.py\<close>: start, feed-ahead under
  credits, callbacks, ticks, stop.  \<open>Feed_Control\<close> shows what holds in every run of it, among that that
  the blocks handed to the engine follow the schedule and, over a schedule service on a grid, meet.
  \<open>Channel_Manager\<close> is \<^verbatim>\<open>ChannelManager\<close> of the same file with what the embedded program director does to
  it; \<open>Channel_Control\<close> shows how viewers, linger, recovery and teardown work together.

  \<^bold>\<open>Interfaces.\<close>  A locale states what a client relies on and is interpreted on the model of the provider:
  \<open>asset_library\<close>, \<open>override_log\<close>, \<open>position_store\<close>, \<open>day_store\<close>, \<open>entry_window\<close>, \<open>spot_source\<close>, \<open>day_planner\<close> with
  its extension \<open>reliable_planner\<close> (the extenders over the schedule service), and \<open>block_source\<close> (the
  schedule service as the source of the feeding).

  \<^bold>\<open>Conventions.\<close>  An object is a record; a method takes it and returns it updated; what the code leaves to
  the outside is a parameter that is a function of a world \<open>'w\<close>: the playout engine (\<open>air_env\<close>), the schedule
  service, the clock and the sockets of the producer (\<open>feed_env\<close>), the mode of the system and the time of
  the event loop (\<open>channel_env\<close>), the planning layers of the horizon manager (\<open>horizon_env\<close>), the parsed
  contents of files, the rows of database tables, the statements to the database that fail and \<^verbatim>\<open>random.shuffle\<close>.  A lock makes every public method one
  step; runs are the reachability of a step relation (\<open>feed_reachable\<close>, \<open>channel_reachable\<close>, \<open>rst_reachable\<close>),
  so that an invariant covers every order of viewers, timers, ticks and engine events.  Exceptions are
  the left values of \<open>res\<close>.  Loops are recursive functions; the packing loops, which need not return, are
  partial functions whose value \<open>None\<close> stands for not returning, and \<open>planning_run_returns\<close> and
  \<open>fill_ad_blocks_plays_offers\<close> show when they do.  The loop over the credits counts down what the code
  counts (\<open>min(credits, depth)\<close>), so it needs no fuel of its own.  Times near the epoch are exact in
  floats; the bounds \<open>2\<^sup>4\<^sup>0 < t < 1000 * (2\<^sup>3\<^sup>1 - 1)\<close> of \<open>present_ms\<close> name the instants, from 2004 to 2038, for which
  the conversion between instants and milliseconds is exact.

  \<^bold>\<open>Not modelled.\<close>  The C++ engine, the gRPC transport, sockets and processes (parameters of the model);
  threads beyond the atomicity of their steps; log lines and metrics; the HTTP routes of the program
  director and the web server; the streaming of bytes; importers and enrichers, which talk to Plex,
  the file system and ffprobe; the as-run logger and the playlist manager, which no part of the program calls;
  the command line; the database schema.
\<close>

end
